(* ===== verification/Prelude.thy ===== *)
theory Prelude
  imports
    Main
    "HOL-Library.Char_ord"
    "HOL-Library.List_Lexorder"
    "HOL-Library.Product_Lexorder"
    "HOL-Library.AList"
    "HOL-Library.Multiset"
begin

text \<open>
  Shared vocabulary of the development: the result type every fallible Python function is
  translated to, the Python values that cross a component boundary (JSON-like documents), the
  dictionary, set and string operations of the Python standard library that the sources use,
  and the generic lemmas the component theories are proved with.

  A Python \<^verbatim>\<open>str\<close> is the list of its code points, restricted to the code points
  U+0000 to U+00FF that HOL's \<^typ>\<open>char\<close> represents. A dictionary is an association list in
  insertion order. A raised exception is an \<^term>\<open>Inl\<close> value; of a structured failure
  (\<^verbatim>\<open>CoreFailure\<close>, \<^verbatim>\<open>RendererFailure\<close>, \<^verbatim>\<open>RuntimeFailure\<close>) the model keeps the two fields
  callers branch on, the code and the exit
  code, and drops the human-readable message, path and details.
\<close>

named_theorems res_simps \<open>success of a monadic computation, split into its steps\<close>
named_theorems raises_intros \<open>which exceptions a computation can raise\<close>
named_theorems dict_simps \<open>laws of the dictionary operations\<close>
named_theorems str_simps \<open>laws of the string operations\<close>

section \<open>Results\<close>

datatype exn =
    CoreFailure string nat
  | RendererFailure string nat
  | RuntimeFailure string nat
  | OSError string
  | TypeError
  | ValueError
  | KeyError string

type_synonym 'a res = "exn + 'a"

fun bnd :: "'a res \<Rightarrow> ('a \<Rightarrow> 'b res) \<Rightarrow> 'b res" where
  "bnd (Inl e) f = Inl e"
| "bnd (Inr x) f = f x"

fun mapr :: "('a \<Rightarrow> 'b res) \<Rightarrow> 'a list \<Rightarrow> 'b list res" where
  "mapr f [] = Inr []"
| "mapr f (x # xs) = bnd (f x) (\<lambda>y. bnd (mapr f xs) (\<lambda>ys. Inr (y # ys)))"

fun foldr_res :: "('s \<Rightarrow> 'a \<Rightarrow> 's res) \<Rightarrow> 's \<Rightarrow> 'a list \<Rightarrow> 's res" where
  "foldr_res f s [] = Inr s"
| "foldr_res f s (x # xs) = bnd (f s x) (\<lambda>s'. foldr_res f s' xs)"

text \<open>\<^verbatim>\<open>except CoreFailure as error: raise e from error\<close>.\<close>

fun except_core :: "exn \<Rightarrow> 'a res \<Rightarrow> 'a res" where
  "except_core e (Inl (CoreFailure c x)) = Inl e"
| "except_core e r = r"

definition is_ok :: "'a res \<Rightarrow> bool" where
  "is_ok r = (case r of Inl _ \<Rightarrow> False | Inr _ \<Rightarrow> True)"

lemma bnd_Inr_iff [res_simps]: "bnd m f = Inr y \<longleftrightarrow> (\<exists>x. m = Inr x \<and> f x = Inr y)"
  by (cases m) auto

lemma bnd_Inl_iff: "bnd m f = Inl e \<longleftrightarrow> m = Inl e \<or> (\<exists>x. m = Inr x \<and> f x = Inl e)"
  by (cases m) auto

lemma if_Inl_Inr_iff [res_simps]: "(if b then Inl e else m) = Inr y \<longleftrightarrow> \<not> b \<and> m = Inr y"
  by simp

lemma if_Inr_Inl_iff [res_simps]: "(if b then m else Inl e) = Inr y \<longleftrightarrow> b \<and> m = Inr y"
  by simp

lemma bnd_assoc: "bnd (bnd m f) g = bnd m (\<lambda>x. bnd (f x) g)"
  by (cases m) simp_all

lemma bnd_cong [fundef_cong]:
  "m = m' \<Longrightarrow> (\<And>x. m' = Inr x \<Longrightarrow> f x = f' x) \<Longrightarrow> bnd m f = bnd m' f'"
  by (cases m') auto

lemma mapr_cong [fundef_cong]:
  "xs = ys \<Longrightarrow> (\<And>x. x \<in> set ys \<Longrightarrow> f x = g x) \<Longrightarrow> mapr f xs = mapr g ys"
  by (induction ys arbitrary: xs) auto

lemma except_core_Inr_iff [res_simps]: "except_core e r = Inr y \<longleftrightarrow> r = Inr y"
  by (cases "(e, r)" rule: except_core.cases) auto

lemma except_core_Inr [simp]: "except_core e (Inr y) = Inr y"
  by simp

lemma is_ok_iff: "is_ok r \<longleftrightarrow> (\<exists>y. r = Inr y)"
  by (cases r) (auto simp: is_ok_def)

lemma mapr_Inr_iff: "mapr f xs = Inr ys \<longleftrightarrow> list_all2 (\<lambda>x y. f x = Inr y) xs ys"
  by (induction xs arbitrary: ys) (auto simp: res_simps list_all2_Cons1)

lemma mapr_length: "mapr f xs = Inr ys \<Longrightarrow> length ys = length xs"
  by (auto simp: mapr_Inr_iff dest: list_all2_lengthD)

lemma mapr_set: "mapr f xs = Inr ys \<Longrightarrow> y \<in> set ys \<Longrightarrow> \<exists>x \<in> set xs. f x = Inr y"
  by (induction xs arbitrary: ys) (auto simp: res_simps)

lemma mapr_set': "mapr f xs = Inr ys \<Longrightarrow> x \<in> set xs \<Longrightarrow> \<exists>y \<in> set ys. f x = Inr y"
  by (induction xs arbitrary: ys) (auto simp: res_simps)

lemma mapr_pure: "(\<And>x. x \<in> set xs \<Longrightarrow> f x = Inr (g x)) \<Longrightarrow> mapr f xs = Inr (map g xs)"
  by (induction xs) auto

text \<open>A loop invariant for \<^const>\<open>foldr_res\<close>: every step from a good state keeps it.\<close>

lemma foldr_res_inv:
  assumes "foldr_res f s xs = Inr t" and "I s"
    and "\<And>s x s'. x \<in> set xs \<Longrightarrow> I s \<Longrightarrow> f s x = Inr s' \<Longrightarrow> I s'"
  shows "I t"
  using assms
  by (induction xs arbitrary: s) (auto simp: res_simps)

lemma foldr_res_append:
  "foldr_res f s (xs @ ys) = bnd (foldr_res f s xs) (\<lambda>s'. foldr_res f s' ys)"
  by (induction xs arbitrary: s) (auto simp: bnd_assoc)

text \<open>The exceptions a computation can raise, computed along its structure.\<close>

definition raises_only :: "exn set \<Rightarrow> 'a res \<Rightarrow> bool" where
  "raises_only S m = (\<forall>e. m = Inl e \<longrightarrow> e \<in> S)"

definition core_failures :: "exn set" where
  "core_failures = range (\<lambda>(c, x). CoreFailure c x)"

lemma raises_only_Inr [raises_intros]: "raises_only S (Inr x)"
  by (simp add: raises_only_def)

lemma raises_only_Inl [raises_intros]: "e \<in> S \<Longrightarrow> raises_only S (Inl e)"
  by (simp add: raises_only_def)

lemma raises_only_bnd [raises_intros]:
  "raises_only S m \<Longrightarrow> (\<And>x. m = Inr x \<Longrightarrow> raises_only S (f x)) \<Longrightarrow> raises_only S (bnd m f)"
  by (cases m) (auto simp: raises_only_def)

lemma raises_only_if [raises_intros]:
  "(b \<Longrightarrow> raises_only S m) \<Longrightarrow> (\<not> b \<Longrightarrow> raises_only S n) \<Longrightarrow> raises_only S (if b then m else n)"
  by simp

lemma raises_only_mapr [raises_intros]:
  "(\<And>x. x \<in> set xs \<Longrightarrow> raises_only S (f x)) \<Longrightarrow> raises_only S (mapr f xs)"
  by (induction xs) (auto intro!: raises_intros)

lemma raises_only_foldr_res [raises_intros]:
  "(\<And>s x. x \<in> set xs \<Longrightarrow> raises_only S (f s x)) \<Longrightarrow> raises_only S (foldr_res f s xs)"
  by (induction xs arbitrary: s) (auto intro!: raises_intros)

lemma raises_only_except_core:
  "raises_only (core_failures \<union> T) m \<Longrightarrow> e \<in> S \<Longrightarrow> T \<subseteq> S \<Longrightarrow> raises_only S (except_core e m)"
  by (cases "(e, m)" rule: except_core.cases) (auto simp: raises_only_def core_failures_def)

lemma raises_only_mono: "raises_only S m \<Longrightarrow> S \<subseteq> T \<Longrightarrow> raises_only T m"
  by (auto simp: raises_only_def)

lemma raises_onlyD: "raises_only S m \<Longrightarrow> m = Inl e \<Longrightarrow> e \<in> S"
  by (simp add: raises_only_def)

section \<open>Python values\<close>

datatype pyval =
    PNone
  | PBool bool
  | PInt int
  | PStr string
  | PBytes string
  | PList "pyval list"
  | PDict "(string \<times> pyval) list"

type_synonym dict = "(string \<times> pyval) list"

text \<open>
  Dictionaries have distinct keys, at every level. Values built by \<^verbatim>\<open>json.loads\<close> and by
  dictionary displays satisfy this; the model's operations keep it.
\<close>

fun wf_pyval :: "pyval \<Rightarrow> bool" where
  "wf_pyval (PList xs) = list_all wf_pyval xs"
| "wf_pyval (PDict d) = (distinct (map fst d) \<and> list_all (\<lambda>(k, v). wf_pyval v) d)"
| "wf_pyval _ = True"

text \<open>
  Python's \<^verbatim>\<open>==\<close>: \<^verbatim>\<open>True == 1\<close> and \<^verbatim>\<open>False == 0\<close>, dictionaries compare without
  regard to insertion order.
\<close>

fun py_eq :: "pyval \<Rightarrow> pyval \<Rightarrow> bool"
and py_eq_list :: "pyval list \<Rightarrow> pyval list \<Rightarrow> bool"
and py_eq_items :: "dict \<Rightarrow> dict \<Rightarrow> bool" where
  "py_eq PNone w = (w = PNone)"
| "py_eq (PBool a) w = (case w of PBool b \<Rightarrow> a = b | PInt n \<Rightarrow> n = of_bool a | _ \<Rightarrow> False)"
| "py_eq (PInt m) w = (case w of PInt n \<Rightarrow> m = n | PBool b \<Rightarrow> m = of_bool b | _ \<Rightarrow> False)"
| "py_eq (PStr s) w = (w = PStr s)"
| "py_eq (PBytes s) w = (w = PBytes s)"
| "py_eq (PList xs) w = (case w of PList ys \<Rightarrow> py_eq_list xs ys | _ \<Rightarrow> False)"
| "py_eq (PDict d) w = (case w of PDict e \<Rightarrow> length d = length e \<and> py_eq_items d e | _ \<Rightarrow> False)"
| "py_eq_list [] ys = (ys = [])"
| "py_eq_list (x # xs) ys = (case ys of [] \<Rightarrow> False | y # ys' \<Rightarrow> py_eq x y \<and> py_eq_list xs ys')"
| "py_eq_items [] e = True"
| "py_eq_items ((k, v) # d) e =
     ((case map_of e k of None \<Rightarrow> False | Some w \<Rightarrow> py_eq v w) \<and> py_eq_items d e)"

text \<open>Truthiness, as in \<^verbatim>\<open>if value\<close>.\<close>

fun truthy :: "pyval \<Rightarrow> bool" where
  "truthy PNone = False"
| "truthy (PBool b) = b"
| "truthy (PInt n) = (n \<noteq> 0)"
| "truthy (PStr s) = (s \<noteq> [])"
| "truthy (PBytes s) = (s \<noteq> [])"
| "truthy (PList xs) = (xs \<noteq> [])"
| "truthy (PDict d) = (d \<noteq> [])"

text \<open>
  Membership in a set of strings hashes the candidate first: a list or a dictionary is
  unhashable and raises \<^verbatim>\<open>TypeError\<close>.
\<close>

fun in_strs :: "pyval \<Rightarrow> string list \<Rightarrow> bool res" where
  "in_strs (PStr s) xs = Inr (s \<in> set xs)"
| "in_strs (PList _) xs = Inl TypeError"
| "in_strs (PDict _) xs = Inl TypeError"
| "in_strs _ xs = Inr False"

text \<open>Whether a value can be hashed.\<close>

fun hashable :: "pyval \<Rightarrow> bool" where
  "hashable (PList _) = False"
| "hashable (PDict _) = False"
| "hashable _ = True"

lemma in_strs_raises: "raises_only (if hashable v then {} else {TypeError}) (in_strs v xs)"
  by (cases v) (auto simp: raises_only_def)

fun is_pystr :: "pyval \<Rightarrow> bool" where
  "is_pystr (PStr _) = True"
| "is_pystr _ = False"

text \<open>\<^verbatim>\<open>isinstance(v, int)\<close> holds of booleans too.\<close>

fun is_pyint :: "pyval \<Rightarrow> bool" where
  "is_pyint (PInt _) = True"
| "is_pyint (PBool _) = True"
| "is_pyint _ = False"

fun is_pybool :: "pyval \<Rightarrow> bool" where
  "is_pybool (PBool _) = True"
| "is_pybool _ = False"

fun strs_of :: "pyval list \<Rightarrow> string list" where
  "strs_of [] = []"
| "strs_of (PStr s # xs) = s # strs_of xs"
| "strs_of (_ # xs) = strs_of xs"

lemma in_strs_Inr_True [res_simps]: "in_strs v xs = Inr True \<longleftrightarrow> (\<exists>s \<in> set xs. v = PStr s)"
  by (cases v) auto

lemma strs_of_map [simp]: "strs_of (map PStr xs) = xs"
  by (induction xs) auto

lemma map_strs_of: "list_all is_pystr xs \<Longrightarrow> map PStr (strs_of xs) = xs"
proof (induction xs)
  case (Cons x xs)
  then show ?case by (cases x) auto
qed simp

lemma py_eq_PStr [simp]: "py_eq v (PStr s) \<longleftrightarrow> v = PStr s"
  by (cases v) auto

lemma py_eq_PNone [simp]: "py_eq v PNone \<longleftrightarrow> v = PNone"
  by (cases v) auto

lemma py_eq_one: "py_eq v (PInt 1) \<longleftrightarrow> v = PInt 1 \<or> v = PBool True"
  by (cases v) auto

section \<open>Dictionaries\<close>

definition keys :: "(string \<times> 'a) list \<Rightarrow> string list" where
  "keys d = map fst d"

text \<open>\<^verbatim>\<open>d.get(k)\<close> on a document, and \<^verbatim>\<open>d.get(k, default)\<close>.\<close>

definition get :: "dict \<Rightarrow> string \<Rightarrow> pyval" where
  "get d k = (case map_of d k of None \<Rightarrow> PNone | Some v \<Rightarrow> v)"

definition get_or :: "dict \<Rightarrow> string \<Rightarrow> pyval \<Rightarrow> pyval" where
  "get_or d k v = (case map_of d k of None \<Rightarrow> v | Some w \<Rightarrow> w)"

definition has_key :: "(string \<times> 'a) list \<Rightarrow> string \<Rightarrow> bool" where
  "has_key d k = (k \<in> set (map fst d))"

text \<open>Equality and inclusion of sets of strings given as lists, in executable form.\<close>

definition subset_strs :: "string list \<Rightarrow> string list \<Rightarrow> bool" where
  "subset_strs xs ys = list_all (\<lambda>x. x \<in> set ys) xs"

definition same_strs :: "string list \<Rightarrow> string list \<Rightarrow> bool" where
  "same_strs xs ys = (subset_strs xs ys \<and> subset_strs ys xs)"

lemma subset_strs_iff: "subset_strs xs ys \<longleftrightarrow> set xs \<subseteq> set ys"
  by (auto simp: subset_strs_def list_all_iff)

lemma same_strs_iff: "same_strs xs ys \<longleftrightarrow> set xs = set ys"
  by (auto simp: same_strs_def subset_strs_iff)

lemma has_key_iff: "has_key d k \<longleftrightarrow> (\<exists>v. map_of d k = Some v)"
proof -
  have "map_of d k = None \<longleftrightarrow> k \<notin> fst ` set d"
    by (rule map_of_eq_None_iff)
  then show ?thesis
    unfolding has_key_def by (cases "map_of d k") auto
qed

text \<open>\<^verbatim>\<open>d[k] = v\<close> replaces in place or appends at the end, which is \<^const>\<open>AList.update\<close>.\<close>

lemma map_of_update [dict_simps]: "map_of (AList.update k v d) = (map_of d)(k \<mapsto> v)"
  by (rule update_conv')

lemma keys_update [dict_simps]:
  "set (keys (AList.update k v d)) = insert k (set (keys d))"
  by (simp add: keys_def dom_update)

lemma distinct_keys_update [dict_simps]:
  "distinct (keys d) \<Longrightarrow> distinct (keys (AList.update k v d))"
  by (simp add: keys_def distinct_update)

lemma update_new [dict_simps]: "k \<notin> set (keys d) \<Longrightarrow> AList.update k v d = d @ [(k, v)]"
  by (induction d) (auto simp: keys_def)

text \<open>\<^verbatim>\<open>dict(sorted(d.items()))\<close> on a dictionary: ascending keys.\<close>

definition sort_items :: "(string \<times> 'a) list \<Rightarrow> (string \<times> 'a) list" where
  "sort_items d = sort_key fst d"

lemma set_sort_items [simp]: "set (sort_items d) = set d"
  by (simp add: sort_items_def)

lemma keys_sort_items: "keys (sort_items d) = sort (keys d)"
proof -
  have "mset (map fst (sort_key fst d)) = mset (map fst d)"
    by (metis mset_map mset_sort)
  moreover have "sorted (map fst (sort_key fst d))"
    by (rule sorted_sort_key)
  ultimately show ?thesis
    unfolding keys_def sort_items_def by (metis properties_for_sort)
qed

lemma map_of_sort_items:
  assumes "distinct (keys d)"
  shows "map_of (sort_items d) = map_of d"
proof -
  have "distinct (map fst (sort_items d))"
    using assms by (metis keys_def keys_sort_items distinct_sort)
  with assms show ?thesis
    unfolding keys_def by (intro map_of_eqI) (auto intro!: ext simp: map_of_eq_Some_iff)
qed

section \<open>Sets of strings as sorted lists\<close>

text \<open>\<^verbatim>\<open>tuple(sorted(set(xs)))\<close>.\<close>

definition sorted_set :: "'a::linorder list \<Rightarrow> 'a list" where
  "sorted_set xs = sort (remdups xs)"

lemma set_sorted_set [simp]: "set (sorted_set xs) = set xs"
  by (simp add: sorted_set_def)

lemma distinct_sorted_set [simp]: "distinct (sorted_set xs)"
  by (simp add: sorted_set_def)

lemma sorted_sorted_set [simp]: "sorted (sorted_set xs)"
  by (simp add: sorted_set_def)

lemma sorted_set_eq: "sorted_set xs = sorted_list_of_set (set xs)"
  by (simp add: sorted_set_def sorted_list_of_set_sort_remdups)

lemma sorted_set_cong: "set xs = set ys \<Longrightarrow> sorted_set xs = sorted_set ys"
  by (simp add: sorted_set_eq)

lemma sorted_set_id: "sorted xs \<Longrightarrow> distinct xs \<Longrightarrow> sorted_set xs = xs"
  by (simp add: sorted_set_def sorted_sort_id distinct_remdups_id)

lemma sorted_set_idem [simp]: "sorted_set (sorted_set xs) = sorted_set xs"
  by (rule sorted_set_id) simp_all

lemma length_sorted_set_distinct: "length (sorted_set xs) = length xs \<longleftrightarrow> distinct xs"
  by (simp add: sorted_set_def)

section \<open>Strings\<close>

abbreviation chr_slash :: char where "chr_slash \<equiv> CHR 0x2F"
abbreviation chr_backslash :: char where "chr_backslash \<equiv> CHR 0x5C"
abbreviation chr_quote :: char where "chr_quote \<equiv> CHR 0x22"
abbreviation chr_nul :: char where "chr_nul \<equiv> CHR 0x00"

definition ord :: "char \<Rightarrow> nat" where
  "ord c = of_char c"

text \<open>\<^verbatim>\<open>s.split(c)\<close> for a one-character separator, and \<^verbatim>\<open>c.join(parts)\<close>.\<close>

fun split_on :: "char \<Rightarrow> string \<Rightarrow> string list" where
  "split_on c [] = [[]]"
| "split_on c (x # xs) =
     (if x = c then [] # split_on c xs
      else (case split_on c xs of [] \<Rightarrow> [[x]] | p # ps \<Rightarrow> (x # p) # ps))"

fun join_on :: "char \<Rightarrow> string list \<Rightarrow> string" where
  "join_on c [] = []"
| "join_on c [p] = p"
| "join_on c (p # q # ps) = p @ c # join_on c (q # ps)"

definition starts_with :: "string \<Rightarrow> string \<Rightarrow> bool" where
  "starts_with p s = (take (length p) s = p)"

definition ends_with :: "string \<Rightarrow> string \<Rightarrow> bool" where
  "ends_with p s = starts_with (rev p) (rev s)"

text \<open>\<^verbatim>\<open>sub in s\<close> for strings.\<close>

fun contains_str :: "string \<Rightarrow> string \<Rightarrow> bool" where
  "contains_str p [] = (p = [])"
| "contains_str p (x # xs) = (starts_with p (x # xs) \<or> contains_str p xs)"

text \<open>The white space \<^verbatim>\<open>str.strip\<close> removes, among the code points of the model.\<close>

definition is_space :: "char \<Rightarrow> bool" where
  "is_space c = (let n = ord c in
     (0x09 \<le> n \<and> n \<le> 0x0D) \<or> (0x1C \<le> n \<and> n \<le> 0x20) \<or> n = 0x85 \<or> n = 0xA0)"

definition strip :: "string \<Rightarrow> string" where
  "strip s = rev (dropWhile is_space (rev (dropWhile is_space s)))"

definition is_digit :: "char \<Rightarrow> bool" where
  "is_digit c = (CHR ''0'' \<le> c \<and> c \<le> CHR ''9'')"

definition is_lower :: "char \<Rightarrow> bool" where
  "is_lower c = (CHR ''a'' \<le> c \<and> c \<le> CHR ''z'')"

definition is_hex :: "char \<Rightarrow> bool" where
  "is_hex c = (is_digit c \<or> (CHR ''a'' \<le> c \<and> c \<le> CHR ''f''))"

text \<open>The regular expression \<^verbatim>\<open>^[0-9a-f]{64}$\<close> under \<^verbatim>\<open>fullmatch\<close>.\<close>

definition is_sha256 :: "string \<Rightarrow> bool" where
  "is_sha256 s = (length s = 64 \<and> list_all is_hex s)"

text \<open>
  \<^verbatim>\<open>str.casefold\<close> on the code points of the model: ASCII and Latin-1 capitals fold to lower
  case and the sharp s folds to two letters. The micro sign U+00B5 folds to U+03BC, which
  no other code point of the model folds to; it is left in place, which keeps every
  comparison of folded strings.
\<close>

definition casefold_char :: "char \<Rightarrow> string" where
  "casefold_char c = (let n = ord c in
     if (0x41 \<le> n \<and> n \<le> 0x5A) \<or> (0xC0 \<le> n \<and> n \<le> 0xDE \<and> n \<noteq> 0xD7) then [char_of (n + 0x20)]
     else if n = 0xDF then ''ss''
     else [c])"

definition casefold :: "string \<Rightarrow> string" where
  "casefold s = concat (map casefold_char s)"

lemma split_on_nonempty [simp]: "split_on c s \<noteq> []"
  by (induction s) (auto split: list.splits)

lemma join_split [str_simps]: "join_on c (split_on c s) = s"
proof (induction s)
  case Nil
  then show ?case by simp
next
  case (Cons x xs)
  obtain p ps where ps: "split_on c xs = p # ps"
    by (cases "split_on c xs") auto
  with Cons.IH show ?case
    by (cases ps) auto
qed

lemma split_on_no_sep: "p \<in> set (split_on c s) \<Longrightarrow> c \<notin> set p"
proof (induction s arbitrary: p)
  case (Cons x xs)
  obtain q qs where "split_on c xs = q # qs"
    by (cases "split_on c xs") auto
  with Cons show ?case
    by (auto split: if_splits)
qed simp

lemma split_on_single: "c \<notin> set s \<Longrightarrow> split_on c s = [s]"
  by (induction s) auto

lemma split_on_append_sep: "split_on c (s @ c # t) = split_on c s @ split_on c t"
proof (induction s)
  case (Cons x xs)
  obtain q qs where "split_on c xs = q # qs"
    by (cases "split_on c xs") auto
  with Cons show ?case by auto
qed simp

lemma split_join [str_simps]:
  "ps \<noteq> [] \<Longrightarrow> list_all (\<lambda>p. c \<notin> set p) ps \<Longrightarrow> split_on c (join_on c ps) = ps"
  by (induction c ps rule: join_on.induct) (auto simp: split_on_single split_on_append_sep)

lemma starts_with_iff [str_simps]: "starts_with p s \<longleftrightarrow> (\<exists>t. s = p @ t)"
  by (auto simp: starts_with_def) (metis append_take_drop_id)

lemma casefold_append [simp]: "casefold (s @ t) = casefold s @ casefold t"
  by (simp add: casefold_def)

lemma casefold_Nil [simp]: "casefold [] = []"
  by (simp add: casefold_def)

lemma casefold_Cons: "casefold (c # s) = casefold_char c @ casefold s"
  by (simp add: casefold_def)

text \<open>A property of the numbers below a bound, checked one by one.\<close>

lemma all_below: "n < k \<Longrightarrow> list_all P [0..<k] \<Longrightarrow> P n"
  by (simp add: list_all_iff)

end
