(* ===== verification/Sha256.thy ===== *)
theory Sha256
  imports Prelude "HOL-Library.Word"
begin

unbundle bit_operations_syntax

text \<open>
  The standard library function \<^verbatim>\<open>hashlib.sha256(data).hexdigest()\<close>, which every digest of the
  program is computed with: the FIPS 180-4 compression function on 32-bit words, the padding,
  and the lower-case hexadecimal rendering of the state. The locale \<open>hex_digest\<close> is what the
  other components rely on: a digest is 64 lower-case hexadecimal characters.
\<close>

type_synonym byte = "8 word"
type_synonym w32 = "32 word"

definition rotr :: "nat \<Rightarrow> w32 \<Rightarrow> w32" where
  "rotr n x = drop_bit n x OR push_bit (32 - n) x"

definition sha_ch :: "w32 \<Rightarrow> w32 \<Rightarrow> w32 \<Rightarrow> w32" where
  "sha_ch x y z = (x AND y) XOR (NOT x AND z)"

definition sha_maj :: "w32 \<Rightarrow> w32 \<Rightarrow> w32 \<Rightarrow> w32" where
  "sha_maj x y z = (x AND y) XOR (x AND z) XOR (y AND z)"

definition big_sigma0 :: "w32 \<Rightarrow> w32" where
  "big_sigma0 x = rotr 2 x XOR rotr 13 x XOR rotr 22 x"

definition big_sigma1 :: "w32 \<Rightarrow> w32" where
  "big_sigma1 x = rotr 6 x XOR rotr 11 x XOR rotr 25 x"

definition small_sigma0 :: "w32 \<Rightarrow> w32" where
  "small_sigma0 x = rotr 7 x XOR rotr 18 x XOR drop_bit 3 x"

definition small_sigma1 :: "w32 \<Rightarrow> w32" where
  "small_sigma1 x = rotr 17 x XOR rotr 19 x XOR drop_bit 10 x"

definition sha_k :: "w32 list" where
  "sha_k = [0x428A2F98, 0x71374491, 0xB5C0FBCF, 0xE9B5DBA5, 0x3956C25B, 0x59F111F1, 0x923F82A4, 0xAB1C5ED5,
   0xD807AA98, 0x12835B01, 0x243185BE, 0x550C7DC3, 0x72BE5D74, 0x80DEB1FE, 0x9BDC06A7, 0xC19BF174,
   0xE49B69C1, 0xEFBE4786, 0x0FC19DC6, 0x240CA1CC, 0x2DE92C6F, 0x4A7484AA, 0x5CB0A9DC, 0x76F988DA,
   0x983E5152, 0xA831C66D, 0xB00327C8, 0xBF597FC7, 0xC6E00BF3, 0xD5A79147, 0x06CA6351, 0x14292967,
   0x27B70A85, 0x2E1B2138, 0x4D2C6DFC, 0x53380D13, 0x650A7354, 0x766A0ABB, 0x81C2C92E, 0x92722C85,
   0xA2BFE8A1, 0xA81A664B, 0xC24B8B70, 0xC76C51A3, 0xD192E819, 0xD6990624, 0xF40E3585, 0x106AA070,
   0x19A4C116, 0x1E376C08, 0x2748774C, 0x34B0BCB5, 0x391C0CB3, 0x4ED8AA4A, 0x5B9CCA4F, 0x682E6FF3,
   0x748F82EE, 0x78A5636F, 0x84C87814, 0x8CC70208, 0x90BEFFFA, 0xA4506CEB, 0xBEF9A3F7, 0xC67178F2]"

text \<open>The chaining state \<open>a\<close> to \<open>h\<close>, nested pairs so that it is always eight words.\<close>

type_synonym sha_state = "w32 \<times> w32 \<times> w32 \<times> w32 \<times> w32 \<times> w32 \<times> w32 \<times> w32"

definition sha_init :: sha_state where
  "sha_init = (0x6A09E667, 0xBB67AE85, 0x3C6EF372, 0xA54FF53A,
               0x510E527F, 0x9B05688C, 0x1F83D9AB, 0x5BE0CD19)"

text \<open>
  The message schedule: the window holds the last sixteen words, oldest first, and each
  extension step appends the next one.
\<close>

fun schedule :: "nat \<Rightarrow> w32 list \<Rightarrow> w32 list" where
  "schedule 0 w = w"
| "schedule (Suc n) w = (case w of
     [] \<Rightarrow> []
   | x # xs \<Rightarrow> x # schedule n
       (xs @ [small_sigma1 (w ! 14) + w ! 9 + small_sigma0 (w ! 1) + x]))"

fun sha_round :: "sha_state \<Rightarrow> w32 \<times> w32 \<Rightarrow> sha_state" where
  "sha_round (a, b, c, d, e, f, g, h) (k, w) =
     (let t1 = h + big_sigma1 e + sha_ch e f g + k + w;
          t2 = big_sigma0 a + sha_maj a b c
      in (t1 + t2, a, b, c, d + t1, e, f, g))"

fun sha_add :: "sha_state \<Rightarrow> sha_state \<Rightarrow> sha_state" where
  "sha_add (a, b, c, d, e, f, g, h) (a', b', c', d', e', f', g', h') =
     (a + a', b + b', c + c', d + d', e + e', f + f', g + g', h + h')"

fun word_of_bytes :: "byte list \<Rightarrow> w32" where
  "word_of_bytes bs = foldl (\<lambda>acc b. push_bit 8 acc OR ucast b) 0 bs"

fun chunks :: "nat \<Rightarrow> nat \<Rightarrow> 'a list \<Rightarrow> 'a list list" where
  "chunks n 0 xs = []"
| "chunks n (Suc k) xs = take n xs # chunks n k (drop n xs)"

definition sha_block :: "sha_state \<Rightarrow> byte list \<Rightarrow> sha_state" where
  "sha_block st block =
     sha_add st (foldl sha_round st
       (zip sha_k (schedule 48 (map word_of_bytes (chunks 4 16 block)))))"

text \<open>Padding: one bit, zeros to 56 modulo 64 bytes, the bit length as a 64-bit integer.\<close>

definition sha_pad :: "byte list \<Rightarrow> byte list" where
  "sha_pad m = (let n = length m; z = (119 - n mod 64) mod 64; bits = 8 * n in
     m @ [0x80] @ replicate z 0
       @ map (\<lambda>i. of_nat (bits div 256 ^ (7 - i)) :: byte) [0..<8])"

definition sha_final :: "byte list \<Rightarrow> sha_state" where
  "sha_final m = (let p = sha_pad m in
     foldl sha_block sha_init (chunks 64 (length p div 64) p))"

fun sha_words :: "sha_state \<Rightarrow> w32 list" where
  "sha_words (a, b, c, d, e, f, g, h) = [a, b, c, d, e, f, g, h]"

definition hex_digit :: "nat \<Rightarrow> char" where
  "hex_digit n = (if n < 10 then char_of (48 + n) else char_of (87 + n))"

definition hex_of_w32 :: "w32 \<Rightarrow> string" where
  "hex_of_w32 w = map (\<lambda>i. hex_digit (unat w div 16 ^ (7 - i) mod 16)) [0..<8]"

definition sha256_hex :: "byte list \<Rightarrow> string" where
  "sha256_hex m = concat (map hex_of_w32 (sha_words (sha_final m)))"

section \<open>The contract of a digest function\<close>

locale hex_digest =
  fixes hd_fun :: "'m \<Rightarrow> string"
  assumes hd_sha256: "is_sha256 (hd_fun m)"
begin

lemma hd_length: "length (hd_fun m) = 64"
  using hd_sha256 [of m] by (simp add: is_sha256_def)

lemma hd_nonempty: "hd_fun m \<noteq> []"
  using hd_length [of m] by auto

lemma hd_hex: "c \<in> set (hd_fun m) \<Longrightarrow> is_hex c"
  using hd_sha256 [of m] by (auto simp: is_sha256_def list_all_iff)

text \<open>No digest is the reserved marker for an absent digest.\<close>

lemma hd_not_canonical_null: "hd_fun m \<noteq> ''canonical-null''"
  using hd_length [of m] by auto

end

lemma is_hex_hex_digit: "n < 16 \<Longrightarrow> is_hex (hex_digit n)"
  by (erule all_below) code_simp

lemma is_hex_hex_of_w32: "list_all is_hex (hex_of_w32 w)"
  by (auto simp: hex_of_w32_def list_all_iff intro!: is_hex_hex_digit)

lemma length_hex_of_w32: "length (hex_of_w32 w) = 8"
  by (simp add: hex_of_w32_def)

lemma sha256_hex_is_sha256: "is_sha256 (sha256_hex m)"
proof -
  obtain a b c d e f g h where "sha_final m = (a, b, c, d, e, f, g, h)"
    by (cases "sha_final m") auto
  then show ?thesis
    using is_hex_hex_of_w32
    by (simp add: is_sha256_def sha256_hex_def length_hex_of_w32)
qed

interpretation sha: hex_digest sha256_hex
  by unfold_locales (rule sha256_hex_is_sha256)

end
