(* ===== verification/Canonical.thy ===== *)
theory Canonical
  imports Sha256
begin

text \<open>
  Model of \<^verbatim>\<open>core/canonical.py\<close>: Unicode, path, mode and UUID normalisation, the normalised
  JSON data model, its canonical (RFC 8785 style) serialisation and the domain-separated
  digest. Floating-point numbers are outside the model (no schema of the program admits one).
  On the code points of the model NFC is the identity (every code point below U+0300 is
  NFC-inert) and a UTF-16 code unit is the code point itself.

  The lemmas show that the serialisation is injective up to the order of dictionary keys,
  which is what every digest binding of the other components rests on, and that the four
  normalisers return canonical forms and are idempotent.
\<close>

section \<open>Failures, Unicode\<close>

definition canonical_failure :: exn where
  "canonical_failure = CoreFailure ''AWP_CANONICALIZATION_INVALID'' 2"

definition CANONICAL_NULL :: string where
  "CANONICAL_NULL = ''canonical-null''"

definition reject_surrogates :: "string \<Rightarrow> unit res" where
  "reject_surrogates s =
     (if list_ex (\<lambda>c. 0xD800 \<le> ord c \<and> ord c \<le> 0xDFFF) s then Inl canonical_failure else Inr ())"

text \<open>\<^verbatim>\<open>unicodedata.normalize("NFC", s)\<close> on the code points of the model.\<close>

definition unicode_nfc :: "string \<Rightarrow> string" where
  "unicode_nfc s = s"

definition normalize_nfc :: "pyval \<Rightarrow> string res" where
  "normalize_nfc v = (case v of
     PStr s \<Rightarrow> bnd (reject_surrogates s) (\<lambda>_. Inr (unicode_nfc s))
   | _ \<Rightarrow> Inl canonical_failure)"

text \<open>\<^verbatim>\<open>s.encode("utf-16-be")\<close> and \<^verbatim>\<open>s.encode("utf-8")\<close>.\<close>

definition utf16_sort_key :: "string \<Rightarrow> byte list" where
  "utf16_sort_key s = concat (map (\<lambda>c. [0, of_nat (ord c)]) s)"

definition utf8_char :: "char \<Rightarrow> byte list" where
  "utf8_char c = (let n = ord c in
     if n < 0x80 then [of_nat n] else [of_nat (0xC0 + n div 0x40), of_nat (0x80 + n mod 0x40)])"

definition utf8_encode :: "string \<Rightarrow> byte list" where
  "utf8_encode s = concat (map utf8_char s)"

definition normalize_string_set :: "pyval list \<Rightarrow> string list res" where
  "normalize_string_set vs =
     bnd (mapr normalize_nfc vs) (\<lambda>ss. Inr (sort_key utf16_sort_key (remdups ss)))"

section \<open>Paths\<close>

definition windows_drive :: "string \<Rightarrow> bool" where
  "windows_drive s = (case s of
     a # b # _ \<Rightarrow> ((CHR ''A'' \<le> a \<and> a \<le> CHR ''Z'') \<or> (CHR ''a'' \<le> a \<and> a \<le> CHR ''z'')) \<and> b = CHR '':''
   | _ \<Rightarrow> False)"

definition alias_segment :: "string \<Rightarrow> bool" where
  "alias_segment p = (p = [] \<or> p = ''.'' \<or> p = ''..'')"

definition normalize_path :: "pyval \<Rightarrow> string res" where
  "normalize_path v = bnd (normalize_nfc v) (\<lambda>s.
     if s = [] then Inl canonical_failure
     else if chr_nul \<in> set s \<or> chr_backslash \<in> set s then Inl canonical_failure
     else if starts_with [chr_slash] s \<or> windows_drive s then Inl canonical_failure
     else if list_ex (\<lambda>c. ord c < 0x20 \<or> ord c = 0x7F) s then Inl canonical_failure
     else (let segments = split_on chr_slash s in
       if list_ex alias_segment segments then Inl canonical_failure
       else Inr (join_on chr_slash segments)))"

section \<open>Integers as text\<close>

function show_base :: "nat \<Rightarrow> nat \<Rightarrow> string" where
  "show_base b n =
     (if n < b \<or> b \<le> 1 then [hex_digit n] else show_base b (n div b) @ [hex_digit (n mod b)])"
  by pat_completeness auto
termination
  by (relation "measure snd") (auto intro: div_less_dividend)

declare show_base.simps [simp del]

definition show_int :: "int \<Rightarrow> string" where
  "show_int n = (if n < 0 then CHR ''-'' # show_base 10 (nat (- n)) else show_base 10 (nat n))"

definition zero_pad :: "nat \<Rightarrow> string \<Rightarrow> string" where
  "zero_pad w s = replicate (w - length s) (CHR ''0'') @ s"

fun hexval :: "char \<Rightarrow> nat option" where
  "hexval c = (if is_digit c then Some (ord c - 48)
     else if CHR ''a'' \<le> c \<and> c \<le> CHR ''f'' then Some (ord c - 87)
     else if CHR ''A'' \<le> c \<and> c \<le> CHR ''F'' then Some (ord c - 55)
     else None)"

definition parse_base :: "nat \<Rightarrow> string \<Rightarrow> nat" where
  "parse_base b s = foldl (\<lambda>acc c. acc * b + (case hexval c of Some n \<Rightarrow> n | None \<Rightarrow> 0)) 0 s"

section \<open>Modes\<close>

definition is_octal :: "char \<Rightarrow> bool" where
  "is_octal c = (CHR ''0'' \<le> c \<and> c \<le> CHR ''7'')"

definition remove_prefix :: "string \<Rightarrow> string \<Rightarrow> string" where
  "remove_prefix p s = (if starts_with p s then drop (length p) s else s)"

definition octal_mode :: "string \<Rightarrow> bool" where
  "octal_mode s = (let t = remove_prefix ''0o'' s in
     3 \<le> length t \<and> length t \<le> 6 \<and> list_all is_octal t)"

definition format_mode :: "nat \<Rightarrow> string" where
  "format_mode n = zero_pad 4 (show_base 8 (n mod 512))"

definition normalize_mode :: "pyval \<Rightarrow> string res" where
  "normalize_mode v = (case v of
     PBool _ \<Rightarrow> Inl canonical_failure
   | PInt n \<Rightarrow> if n < 0 then Inl canonical_failure else Inr (format_mode (nat n))
   | PStr s \<Rightarrow> if octal_mode s then Inr (format_mode (parse_base 8 (remove_prefix ''0o'' s)))
              else Inl canonical_failure
   | _ \<Rightarrow> Inl canonical_failure)"

section \<open>UUIDs\<close>

text \<open>\<^verbatim>\<open>s.replace(p, "")\<close> for a nonempty pattern.\<close>

function remove_all :: "string \<Rightarrow> string \<Rightarrow> string" where
  "remove_all p s = (case s of
     [] \<Rightarrow> []
   | c # cs \<Rightarrow> if p \<noteq> [] \<and> starts_with p s then remove_all p (drop (length p) s)
               else c # remove_all p cs)"
  by pat_completeness auto
termination
  by (relation "measure (\<lambda>(p, s). length s)") auto

declare remove_all.simps [simp del]

definition strip_chars :: "string \<Rightarrow> string \<Rightarrow> string" where
  "strip_chars cs s = rev (dropWhile (\<lambda>c. c \<in> set cs) (rev (dropWhile (\<lambda>c. c \<in> set cs) s)))"

text \<open>
  \<^verbatim>\<open>int(s, 16)\<close>: surrounding white space, a sign, a \<^verbatim>\<open>0x\<close> prefix and single underscores
  between digits are accepted.
\<close>

definition py_int16 :: "string \<Rightarrow> int option" where
  "py_int16 s = (let t = strip s;
       neg = starts_with ''-'' t;
       t1 = (if neg \<or> starts_with ''+'' t then drop 1 t else t);
       t2 = (if starts_with ''0x'' t1 \<or> starts_with ''0X'' t1
             then remove_prefix ''_'' (drop 2 t1) else t1);
       parts = split_on (CHR ''_'') t2
     in if list_all (\<lambda>p. p \<noteq> [] \<and> list_all (\<lambda>c. hexval c \<noteq> None) p) parts
        then Some ((if neg then -1 else 1) * int (parse_base 16 (concat parts)))
        else None)"

definition hyphenate :: "string \<Rightarrow> string" where
  "hyphenate h = take 8 h @ ''-'' @ take 4 (drop 8 h) @ ''-'' @ take 4 (drop 12 h) @ ''-''
     @ take 4 (drop 16 h) @ ''-'' @ drop 20 h"

text \<open>\<^verbatim>\<open>str(uuid.UUID(s))\<close>, \<^const>\<open>None\<close> when the constructor raises \<^verbatim>\<open>ValueError\<close>.\<close>

definition uuid_str :: "string \<Rightarrow> string option" where
  "uuid_str s = (let h = remove_all ''-'' (strip_chars ''{}'' (remove_all ''uuid:'' (remove_all ''urn:'' s))) in
     if length h \<noteq> 32 then None
     else (case py_int16 h of
         None \<Rightarrow> None
       | Some n \<Rightarrow> if 0 \<le> n \<and> n < 2 ^ 128
                   then Some (hyphenate (zero_pad 32 (show_base 16 (nat n)))) else None))"

definition normalize_uuid :: "pyval \<Rightarrow> string res" where
  "normalize_uuid v = (case v of
     PStr s \<Rightarrow> (case uuid_str s of None \<Rightarrow> Inl canonical_failure | Some t \<Rightarrow> Inr t)
   | _ \<Rightarrow> Inl canonical_failure)"

text \<open>The check \<^verbatim>\<open>str(uuid.UUID(text)) == text\<close> the other modules make.\<close>

definition is_canonical_uuid :: "string \<Rightarrow> bool" where
  "is_canonical_uuid s = (uuid_str s = Some s)"

section \<open>The JSON data model\<close>

fun normalize_json_value :: "pyval \<Rightarrow> pyval res"
and normalize_items :: "dict \<Rightarrow> dict \<Rightarrow> dict res" where
  "normalize_json_value PNone = Inr PNone"
| "normalize_json_value (PBool b) = Inr (PBool b)"
| "normalize_json_value (PInt n) = Inr (PInt n)"
| "normalize_json_value (PStr s) = bnd (normalize_nfc (PStr s)) (\<lambda>t. Inr (PStr t))"
| "normalize_json_value (PBytes s) = Inl canonical_failure"
| "normalize_json_value (PList xs) = bnd (mapr normalize_json_value xs) (\<lambda>ys. Inr (PList ys))"
| "normalize_json_value (PDict d) = bnd (normalize_items d []) (\<lambda>e. Inr (PDict e))"
| "normalize_items [] acc = Inr acc"
| "normalize_items ((k, v) # d) acc = bnd (normalize_nfc (PStr k)) (\<lambda>key.
     if has_key acc key then Inl canonical_failure
     else bnd (normalize_json_value v) (\<lambda>w. normalize_items d (acc @ [(key, w)])))"

text \<open>\<^verbatim>\<open>json.dumps(s, ensure_ascii=False)\<close>.\<close>

definition esc_char :: "char \<Rightarrow> string" where
  "esc_char c =
     (if c = chr_quote then [chr_backslash, chr_quote]
      else if c = chr_backslash then [chr_backslash, chr_backslash]
      else if c = CHR 0x08 then [chr_backslash, CHR ''b'']
      else if c = CHR 0x0C then [chr_backslash, CHR ''f'']
      else if c = CHR 0x0A then [chr_backslash, CHR ''n'']
      else if c = CHR 0x0D then [chr_backslash, CHR ''r'']
      else if c = CHR 0x09 then [chr_backslash, CHR ''t'']
      else if ord c < 0x20 then [chr_backslash, CHR ''u'', CHR ''0'', CHR ''0'',
        hex_digit (ord c div 16), hex_digit (ord c mod 16)]
      else [c])"

definition json_string :: "string \<Rightarrow> string" where
  "json_string s = chr_quote # concat (map esc_char s) @ [chr_quote]"

text \<open>\<^verbatim>\<open>",".join(parts)\<close>.\<close>

abbreviation comma_join :: "string list \<Rightarrow> string" where
  "comma_join ps \<equiv> join_on (CHR '','') ps"

lemma size_in_PDict: "(k, v) \<in> set d \<Longrightarrow> size v < size (PDict d)"
  by (induction d) auto

function serialize :: "pyval \<Rightarrow> string" where
  "serialize PNone = ''null''"
| "serialize (PBool b) = (if b then ''true'' else ''false'')"
| "serialize (PInt n) = show_int n"
| "serialize (PStr s) = json_string s"
| "serialize (PBytes s) = []"
| "serialize (PList xs) = ''['' @ comma_join (map serialize xs) @ '']''"
| "serialize (PDict d) = ''{'' @ comma_join
     (map (\<lambda>(k, v). json_string k @ '':'' @ serialize v)
        (sort_key (\<lambda>kv. utf16_sort_key (fst kv)) d)) @ ''}''"
  by pat_completeness auto
termination
proof (relation "measure size")
  fix d :: dict and kv k v
  assume "kv \<in> set (sort_key (\<lambda>kv. utf16_sort_key (fst kv)) d)" and "(k, v) = kv"
  then have "(k, v) \<in> set d" by simp
  then have "size v < size (PDict d)" by (rule size_in_PDict)
  then show "(v, PDict d) \<in> measure size" by simp
qed (auto simp: size_list_estimation' less_Suc_eq_le)

definition canonical_json_bytes :: "pyval \<Rightarrow> byte list res" where
  "canonical_json_bytes v = bnd (normalize_json_value v) (\<lambda>n. Inr (utf8_encode (serialize n)))"

definition digest :: "string \<Rightarrow> pyval \<Rightarrow> string res" where
  "digest domain v =
     (if domain = [] \<or> chr_nul \<in> set domain then Inl canonical_failure
      else if list_ex (\<lambda>c. 0x80 \<le> ord c) domain then Inl canonical_failure
      else bnd (canonical_json_bytes v) (\<lambda>bs. Inr (sha256_hex (utf8_encode domain @ [0] @ bs))))"

text \<open>\<^verbatim>\<open>hashlib.sha256(canonical_json_bytes(value)).hexdigest()\<close>, without a domain.\<close>

definition plain_digest :: "pyval \<Rightarrow> string res" where
  "plain_digest v = bnd (canonical_json_bytes v) (\<lambda>bs. Inr (sha256_hex bs))"

section \<open>Normalisation of well-formed values\<close>

text \<open>No byte string occurs anywhere in the value: it is in the JSON data model.\<close>

fun json_value :: "pyval \<Rightarrow> bool" where
  "json_value (PBytes s) = False"
| "json_value (PList xs) = list_all json_value xs"
| "json_value (PDict d) = list_all (\<lambda>(k, v). json_value v) d"
| "json_value _ = True"

lemma ord_less: "ord c < 256"
  by (simp add: ord_def)

lemma reject_surrogates_ok [simp]: "reject_surrogates s = Inr ()"
proof -
  have "\<not> 0xD800 \<le> ord c" for c
    using ord_less [of c] by simp
  then show ?thesis
    by (simp add: reject_surrogates_def list_ex_iff)
qed

lemma normalize_nfc_PStr [simp]: "normalize_nfc (PStr s) = Inr s"
  by (simp add: normalize_nfc_def unicode_nfc_def)

lemma normalize_nfc_Inr_iff [res_simps]: "normalize_nfc v = Inr s \<longleftrightarrow> v = PStr s"
  by (cases v) (auto simp: normalize_nfc_def unicode_nfc_def)

lemma normalize_json_id:
  "wf_pyval v \<Longrightarrow> json_value v \<Longrightarrow> normalize_json_value v = Inr v"
  "list_all (\<lambda>(k, v). wf_pyval v) d \<Longrightarrow> list_all (\<lambda>(k, v). json_value v) d \<Longrightarrow>
     distinct (map fst (acc @ d)) \<Longrightarrow> normalize_items d acc = Inr (acc @ d)"
proof (induction v and d acc rule: normalize_json_value_normalize_items.induct)
  case (6 xs)
  then have "mapr normalize_json_value xs = Inr (map id xs)"
    by (intro mapr_pure) (auto simp: list_all_iff)
  then show ?case by simp
next
  case (7 d)
  then show ?case by simp
next
  case (9 k v d acc)
  then show ?case by (auto simp: has_key_def)
qed auto

lemma normalize_json_wf:
  "normalize_json_value v = Inr w \<Longrightarrow> wf_pyval w \<and> json_value w"
  "normalize_items d acc = Inr e \<Longrightarrow> distinct (map fst acc) \<Longrightarrow>
     list_all (\<lambda>(k, v). wf_pyval v \<and> json_value v) acc \<Longrightarrow>
     distinct (map fst e) \<and> list_all (\<lambda>(k, v). wf_pyval v \<and> json_value v) e"
proof (induction v and d acc arbitrary: w and e rule: normalize_json_value_normalize_items.induct)
  case (6 xs)
  then obtain ys where ys: "mapr normalize_json_value xs = Inr ys" "w = PList ys"
    by (auto simp: res_simps)
  have "wf_pyval y \<and> json_value y" if "y \<in> set ys" for y
    using mapr_set [OF ys(1) that] "6.IH" by blast
  then show ?case by (simp add: ys list_all_iff)
next
  case (7 d)
  then show ?case
    by (fastforce simp: res_simps list_all_iff)
next
  case (9 k v d acc)
  then show ?case
    by (auto simp: res_simps has_key_def)
qed (auto simp: res_simps)

lemma canonical_json_bytes_ok:
  "wf_pyval v \<Longrightarrow> json_value v \<Longrightarrow> canonical_json_bytes v = Inr (utf8_encode (serialize v))"
  by (simp add: canonical_json_bytes_def normalize_json_id)

section \<open>The order of UTF-16 keys\<close>


lemma unat_of_nat_ord: "unat (of_nat (ord c) :: byte) = ord c"
  using ord_less [of c] by (simp add: unat_of_nat)

lemma ord_le_iff: "ord c \<le> ord d \<longleftrightarrow> c \<le> d"
  by (simp add: ord_def less_eq_char_def)

lemma ord_less_iff: "ord c < ord d \<longleftrightarrow> c < d"
  by (simp add: ord_def less_char_def)

lemma ord_eq_iff: "ord c = ord d \<longleftrightarrow> c = d"
  by (simp add: ord_def)

lemma utf16_sort_key_le: "utf16_sort_key s \<le> utf16_sort_key t \<longleftrightarrow> s \<le> t"
proof (induction s arbitrary: t)
  case Nil
  then show ?case by (simp add: utf16_sort_key_def)
next
  case (Cons c s)
  show ?case
  proof (cases t)
    case Nil
    then show ?thesis by (simp add: utf16_sort_key_def)
  next
    case (Cons d u)
    have "(of_nat (ord c) :: byte) < of_nat (ord d) \<longleftrightarrow> c < d"
      by (simp add: word_less_nat_alt unat_of_nat_ord ord_less_iff)
    moreover have "(of_nat (ord c) :: byte) = of_nat (ord d) \<longleftrightarrow> c = d"
      by (metis unat_of_nat_ord ord_eq_iff)
    ultimately show ?thesis
      using Cons.IH [of u] Cons by (simp add: utf16_sort_key_def)
  qed
qed

lemma insort_key_order: 
  "(\<And>x y. f x \<le> f y \<longleftrightarrow> g x \<le> g y) \<Longrightarrow> insort_key f x xs = insort_key g x xs"
  by (induction xs) auto

lemma sort_key_order:
  "(\<And>x y. f x \<le> f y \<longleftrightarrow> g x \<le> g y) \<Longrightarrow> sort_key f xs = sort_key g xs"
  using insort_key_order [of f g] by (induction xs) (auto simp: sort_key_def)

lemma sort_key_utf16: "sort_key utf16_sort_key xs = sort xs"
  by (rule sort_key_order) (rule utf16_sort_key_le)

lemma sort_items_utf16: "sort_key (\<lambda>kv. utf16_sort_key (fst kv)) d = sort_items d"
  unfolding sort_items_def by (rule sort_key_order) (rule utf16_sort_key_le)

lemma normalize_string_set_strs [simp]:
  "normalize_string_set (map PStr xs) = Inr (sorted_set xs)"
proof -
  have "mapr normalize_nfc (map PStr xs) = Inr xs"
    by (induction xs) auto
  then show ?thesis
    by (simp add: normalize_string_set_def sort_key_utf16 sorted_set_def)
qed

section \<open>Injectivity of the serialisation\<close>

text \<open>The canonical representative of a value: dictionaries in ascending key order.\<close>

fun canon :: "pyval \<Rightarrow> pyval" where
  "canon (PList xs) = PList (map canon xs)"
| "canon (PDict d) = PDict (sort_items (map (\<lambda>(k, v). (k, canon v)) d))"
| "canon v = v"

text \<open>The serialisation of a value whose dictionaries are already in the order to print.\<close>

fun render :: "pyval \<Rightarrow> string" where
  "render PNone = ''null''"
| "render (PBool b) = (if b then ''true'' else ''false'')"
| "render (PInt n) = show_int n"
| "render (PStr s) = json_string s"
| "render (PBytes s) = []"
| "render (PList xs) = ''['' @ comma_join (map render xs) @ '']''"
| "render (PDict d) = ''{'' @ comma_join (map (\<lambda>(k, v). json_string k @ '':'' @ render v) d) @ ''}''"

lemma insort_key_map:
  "(\<And>x. g (h x) = f x) \<Longrightarrow> insort_key g (h x) (map h xs) = map h (insort_key f x xs)"
  by (induction xs) auto

lemma sort_key_map: "(\<And>x. g (h x) = f x) \<Longrightarrow> sort_key g (map h xs) = map h (sort_key f xs)"
  by (induction xs) (auto simp: insort_key_map)

lemma sort_items_map: "sort_items (map (\<lambda>(k, v). (k, f v)) d) = map (\<lambda>(k, v). (k, f v)) (sort_items d)"
  unfolding sort_items_def by (rule sort_key_map) auto

lemma serialize_render: "serialize v = render (canon v)"
proof (induction v rule: serialize.induct)
  case (6 xs)
  then have "map serialize xs = map (render \<circ> canon) xs" by simp
  then show ?case by (simp only: serialize.simps canon.simps render.simps map_map)
next
  case (7 d)
  have "map (\<lambda>(k, v). json_string k @ '':'' @ serialize v) (sort_items d) =
      map (\<lambda>(k, v). json_string k @ '':'' @ render (canon v)) (sort_items d)"
    using 7 [unfolded sort_items_utf16] by (intro map_cong) auto
  moreover have "map (\<lambda>(k, v). json_string k @ '':'' @ render v) (sort_items (map (\<lambda>(k, v). (k, canon v)) d)) =
      map (\<lambda>(k, v). json_string k @ '':'' @ render (canon v)) (sort_items d)"
    unfolding sort_items_map map_map by (intro map_cong) auto
  ultimately show ?case
    by (simp only: serialize.simps canon.simps render.simps sort_items_utf16)
qed auto


lemma hexval_hex_digit: "n < 16 \<Longrightarrow> hexval (hex_digit n) = Some n"
  by (erule all_below) code_simp

lemma hex_digit_inj: "m < 16 \<Longrightarrow> n < 16 \<Longrightarrow> hex_digit m = hex_digit n \<longleftrightarrow> m = n"
  by (metis hexval_hex_digit option.inject)

lemma is_digit_hex_digit: "n < 10 \<Longrightarrow> is_digit (hex_digit n)"
  by (erule all_below) code_simp

lemma parse_base_append: "parse_base b (s @ [c]) =
    parse_base b s * b + (case hexval c of Some n \<Rightarrow> n | None \<Rightarrow> 0)"
  by (simp add: parse_base_def)

lemma parse_show_base: "2 \<le> b \<Longrightarrow> b \<le> 16 \<Longrightarrow> parse_base b (show_base b n) = n"
proof (induction b n rule: show_base.induct)
  case (1 b n)
  show ?case
  proof (cases "n < b")
    case True
    then show ?thesis
      using "1.prems" hexval_hex_digit [of n] by (simp add: show_base.simps [of b n] parse_base_def del: hexval.simps)
  next
    case False
    have "hexval (hex_digit (n mod b)) = Some (n mod b)"
      using "1.prems" mod_less_divisor [of b n] by (intro hexval_hex_digit) linarith
    with 1 False show ?thesis
      by (simp add: show_base.simps [of b n] parse_base_append del: hexval.simps)
  qed
qed

lemma show_base_inj: "2 \<le> b \<Longrightarrow> b \<le> 16 \<Longrightarrow> show_base b m = show_base b n \<longleftrightarrow> m = n"
  by (metis parse_show_base)

lemma show_base_nonempty [simp]: "show_base b n \<noteq> []"
  by (simp add: show_base.simps [of b n])

lemma show_base_digits: "list_all is_digit (show_base 10 n)"
proof (induction "10::nat" n rule: show_base.induct)
  case (1 n)
  then show ?case
    by (auto simp: show_base.simps [of 10 n] is_digit_hex_digit)
qed

lemma minus_not_digit: "\<not> is_digit (CHR ''-'')"
  by (simp add: is_digit_def)

lemma show_int_inj: "show_int m = show_int n \<longleftrightarrow> m = n"
proof -
  have neq: "CHR ''-'' # t \<noteq> show_base 10 k" for t k
    using show_base_digits [of k] minus_not_digit by (metis list.pred_inject(2))
  show ?thesis
    using neq neq [symmetric] by (auto simp: show_int_def show_base_inj)
qed

definition int_char :: "char \<Rightarrow> bool" where
  "int_char c = (is_digit c \<or> c = CHR ''-'')"

lemma show_int_chars: "list_all int_char (show_int n)"
  using show_base_digits by (auto simp: show_int_def int_char_def list_all_iff)

lemma show_int_nonempty [simp]: "show_int n \<noteq> []"
  by (simp add: show_int_def)

definition delim :: "string \<Rightarrow> bool" where
  "delim r = (case r of [] \<Rightarrow> True | c # _ \<Rightarrow> c \<in> {CHR '','', CHR '']'', CHR ''}''})"

lemma show_int_prefix:
  assumes "show_int m @ r = show_int n @ s" and "delim r" and "delim s"
  shows "m = n \<and> r = s"
proof -
  have stop: "takeWhile int_char (show_int k @ t) = show_int k" if "delim t" for k t
  proof -
    have "takeWhile int_char t = []"
      using that by (cases t) (auto simp: delim_def int_char_def is_digit_def)
    then show ?thesis
      using show_int_chars [of k] by (simp add: takeWhile_append list_all_iff)
  qed
  have "show_int m = show_int n"
    using assms(1) stop [OF assms(2), of m] stop [OF assms(3), of n] by simp
  with assms(1) show ?thesis by (simp add: show_int_inj)
qed

lemma esc_char_prefix: "esc_char c @ x = esc_char d @ y \<Longrightarrow> c = d \<and> x = y"
proof -
  assume eq: "esc_char c @ x = esc_char d @ y"
  have hex: "hex_digit (ord c div 16) = hex_digit (ord d div 16) \<Longrightarrow>
      hex_digit (ord c mod 16) = hex_digit (ord d mod 16) \<Longrightarrow> c = d"
    using ord_less [of c] ord_less [of d]
    by (subst (asm) (1 2) hex_digit_inj) (auto, metis div_mult_mod_eq ord_eq_iff)
  show ?thesis
    using eq hex by (simp add: esc_char_def split: if_splits)
qed

lemma esc_char_head: "\<exists>c' t. esc_char c = c' # t \<and> c' \<noteq> chr_quote"
  by (simp add: esc_char_def)

lemma esc_string_prefix:
  "concat (map esc_char a) @ chr_quote # r = concat (map esc_char b) @ chr_quote # s \<Longrightarrow> a = b \<and> r = s"
proof (induction a arbitrary: b)
  case Nil
  then show ?case
    using esc_char_head by (cases b) (auto, metis append_Cons list.inject)
next
  case (Cons c a)
  show ?case
  proof (cases b)
    case Nil
    with Cons.prems show ?thesis
      using esc_char_head [of c] by auto
  next
    case (Cons d b')
    with Cons.prems have "c = d \<and> concat (map esc_char a) @ chr_quote # r = concat (map esc_char b') @ chr_quote # s"
      by (intro esc_char_prefix) simp
    with Cons.IH Cons show ?thesis by simp
  qed
qed

lemma json_string_prefix: "json_string a @ r = json_string b @ s \<Longrightarrow> a = b \<and> r = s"
  using esc_string_prefix [of a r b s] by (simp add: json_string_def)


lemma comma_join_Cons:
  "comma_join (p # ps) @ t = p @ (if ps = [] then t else CHR '','' # comma_join ps @ t)"
  by (cases ps) auto

lemma comma_join_prefix:
  assumes inj: "\<And>x y r s. x \<in> set xs \<Longrightarrow> y \<in> set ys \<Longrightarrow> delim r \<Longrightarrow> delim s \<Longrightarrow>
      R x @ r = R y @ s \<Longrightarrow> x = y \<and> r = s"
    and head: "\<And>x t. x \<in> set xs \<union> set ys \<Longrightarrow> R x \<noteq> [] \<and> \<not> delim (R x @ t)"
    and c: "c \<in> {CHR '']'', CHR ''}''}"
    and eq: "comma_join (map R xs) @ c # r = comma_join (map R ys) @ c # s"
  shows "xs = ys \<and> r = s"
  using inj head eq
proof (induction xs arbitrary: ys)
  case Nil
  show ?case
  proof (cases ys)
    case (Cons y ys')
    with Nil.prems(3) have "c # r = R y @ (if ys' = [] then c # s else CHR '','' # comma_join (map R ys') @ c # s)"
      by (simp add: comma_join_Cons del: join_on.simps(2,3))
    moreover have "delim (c # r)" using c by (auto simp: delim_def)
    ultimately show ?thesis
      using Nil.prems(2) [of y] Cons by auto
  qed (use Nil in auto)
next
  case (Cons x xs)
  define rest where "rest zs t = (if zs = [] then t else CHR '','' # comma_join (map R zs) @ t)" for zs t
  have rest_delim: "delim (rest zs (c # t))" for zs t
    using c by (auto simp: rest_def delim_def)
  have split: "comma_join (map R (z # zs)) @ t = R z @ rest zs t" for z zs t
    by (simp add: comma_join_Cons rest_def del: join_on.simps)
  show ?case
  proof (cases ys)
    case Nil
    with Cons.prems(3) have "R x @ rest xs (c # r) = c # s"
      by (simp only: split) simp
    moreover have "delim (c # s)" using c by (auto simp: delim_def)
    ultimately show ?thesis
      using Cons.prems(2) [of x] by (metis Un_iff list.set_intros(1))
  next
    case (Cons y ys')
    have "x = y \<and> rest xs (c # r) = rest ys' (c # s)"
      using Cons.prems(1) [of x y "rest xs (c # r)" "rest ys' (c # s)"] Cons.prems(3) rest_delim Cons
      by (simp only: split) auto
    moreover have "xs = ys' \<and> r = s" if "rest xs (c # r) = rest ys' (c # s)"
    proof (cases "xs = [] \<or> ys' = []")
      case True
      with that c show ?thesis by (auto simp: rest_def split: if_splits)
    next
      case False
      with that have "comma_join (map R xs) @ c # r = comma_join (map R ys') @ c # s"
        by (simp add: rest_def)
      then show ?thesis
      proof (intro Cons.IH)
        show "x' = y' \<and> r' = s'"
          if "x' \<in> set xs" "y' \<in> set ys'" "delim r'" "delim s'" "R x' @ r' = R y' @ s'" for x' y' r' s'
          using that Cons by (intro Cons.prems(1)) auto
        show "R x' \<noteq> [] \<and> \<not> delim (R x' @ t)" if "x' \<in> set xs \<union> set ys'" for x' t
          using that Cons by (intro Cons.prems(2)) auto
      qed
    qed
    ultimately show ?thesis using Cons by simp
  qed
qed

lemma render_head:
  assumes "json_value v"
  shows "render v \<noteq> [] \<and> \<not> delim (render v @ t)"
proof (cases v)
  case (PInt n)
  then obtain c u where "show_int n = c # u" by (cases "show_int n") auto
  moreover from this have "int_char c" using show_int_chars [of n] by simp
  ultimately show ?thesis
    using PInt by (auto simp: delim_def int_char_def is_digit_def)
qed (use assms in \<open>auto simp: delim_def json_string_def\<close>)

text \<open>The first character of a rendered value determines the kind of the value.\<close>

fun kind_of :: "pyval \<Rightarrow> nat" where
  "kind_of PNone = 110"
| "kind_of (PBool b) = (if b then 116 else 102)"
| "kind_of (PInt _) = 0"
| "kind_of (PStr _) = 34"
| "kind_of (PBytes _) = 1"
| "kind_of (PList _) = 91"
| "kind_of (PDict _) = 123"

lemma render_kind:
  assumes "json_value v"
  shows "\<exists>c u. render v = c # u \<and> (if int_char c then 0 else ord c) = kind_of v"
proof (cases v)
  case (PInt n)
  then obtain c u where "show_int n = c # u" by (cases "show_int n") auto
  moreover from this have "int_char c" using show_int_chars [of n] by simp
  ultimately show ?thesis using PInt by auto
qed (use assms in \<open>auto simp: int_char_def is_digit_def json_string_def ord_def\<close>)

lemma render_same_kind:
  "json_value v \<Longrightarrow> json_value w \<Longrightarrow> render v @ r = render w @ s \<Longrightarrow> kind_of v = kind_of w"
  using render_kind [of v] render_kind [of w] by auto

lemma render_prefix:
  "json_value v \<Longrightarrow> json_value w \<Longrightarrow> delim r \<Longrightarrow> delim s \<Longrightarrow> render v @ r = render w @ s \<Longrightarrow>
     v = w \<and> r = s"
proof (induction v arbitrary: w r s rule: render.induct)
  case 1
  then show ?case
    using render_same_kind [OF 1(1,2,5)] by (cases w) (auto split: if_splits)
next
  case (2 b)
  then show ?case
    using render_same_kind [OF 2(1,2,5)] by (cases w) (auto split: if_splits)
next
  case (3 n)
  then show ?case
    using render_same_kind [OF 3(1,2,5)] by (cases w) (auto split: if_splits dest: show_int_prefix)
next
  case (4 s)
  then show ?case
    using render_same_kind [OF 4(1,2,5)] by (cases w) (auto split: if_splits dest: json_string_prefix)
next
  case (6 xs)
  obtain ys where w: "w = PList ys"
    using render_same_kind [OF "6.prems"(1,2,5)] by (cases w) (auto split: if_splits)
  have "xs = ys \<and> r = s"
  proof (rule comma_join_prefix [where R = render and c = "CHR '']''"])
    show "\<And>x y r s. x \<in> set xs \<Longrightarrow> y \<in> set ys \<Longrightarrow> delim r \<Longrightarrow> delim s \<Longrightarrow>
        render x @ r = render y @ s \<Longrightarrow> x = y \<and> r = s"
      using "6.IH" "6.prems"(1,2) w by (auto simp: list_all_iff)
    show "\<And>x t. x \<in> set xs \<union> set ys \<Longrightarrow> render x \<noteq> [] \<and> \<not> delim (render x @ t)"
      using "6.prems"(1,2) w by (intro render_head) (auto simp: list_all_iff)
  qed (use "6.prems"(5) w in auto)
  with w show ?case by simp
next
  case (7 d)
  obtain e where w: "w = PDict e"
    using render_same_kind [OF "7.prems"(1,2,5)] by (cases w) (auto split: if_splits)
  have "d = e \<and> r = s"
  proof (rule comma_join_prefix [where R = "\<lambda>(k, v). json_string k @ '':'' @ render v" and c = "CHR ''}''"])
    fix x y r s
    assume x: "x \<in> set d" and y: "y \<in> set e" and "delim r" "delim s"
      and eq: "(case x of (k, v) \<Rightarrow> json_string k @ '':'' @ render v) @ r =
        (case y of (k, v) \<Rightarrow> json_string k @ '':'' @ render v) @ s"
    obtain k v k' v' where kv: "x = (k, v)" "y = (k', v')"
      by (cases x, cases y) auto
    with eq have "json_string k @ '':'' @ render v @ r = json_string k' @ '':'' @ render v' @ s"
      by simp
    then have "k = k'" and "render v @ r = render v' @ s"
      by (auto dest: json_string_prefix)
    moreover have "json_value v" "json_value v'"
      using x y kv "7.prems"(1,2) w by (auto simp: list_all_iff)
    ultimately show "x = y \<and> r = s"
      using "7.IH" [OF x kv(1) [symmetric], of v' r s] \<open>delim r\<close> \<open>delim s\<close> kv by simp
  next
    show "\<And>x t. x \<in> set d \<union> set e \<Longrightarrow> (case x of (k, v) \<Rightarrow> json_string k @ '':'' @ render v) \<noteq> [] \<and>
        \<not> delim ((case x of (k, v) \<Rightarrow> json_string k @ '':'' @ render v) @ t)"
      by (auto simp: json_string_def delim_def)
  qed (use "7.prems"(5) w in auto)
  with w show ?case by simp
qed simp


lemma utf8_char_prefix: "utf8_char c @ x = utf8_char d @ y \<Longrightarrow> c = d \<and> x = y"
proof -
  assume eq: "utf8_char c @ x = utf8_char d @ y"
  have val: "unat (of_nat n :: byte) = n" if "n < 256" for n
    using that by (simp add: unat_of_nat)
  have inj: "m = n" if "(of_nat m :: byte) = of_nat n" "m < 256" "n < 256" for m n
    using val that by metis
  have lim: "ord a < 256" "0xC0 + ord a div 0x40 < 256" "0x80 + ord a mod 0x40 < 256" for a
    using ord_less [of a] by auto
  consider "ord c < 0x80 \<and> ord d < 0x80" | "ord c < 0x80 \<and> 0x80 \<le> ord d"
    | "0x80 \<le> ord c \<and> ord d < 0x80" | "0x80 \<le> ord c \<and> 0x80 \<le> ord d"
    by linarith
  then have "ord c = ord d \<and> x = y"
  proof cases
    case 1
    with eq show ?thesis using lim(1) inj by (auto simp: utf8_char_def)
  next
    case 2
    with eq have "(of_nat (ord c) :: byte) = of_nat (0xC0 + ord d div 0x40)"
      by (simp add: utf8_char_def Let_def)
    with 2 inj [OF this lim(1,2)] show ?thesis by linarith
  next
    case 3
    with eq have "(of_nat (0xC0 + ord c div 0x40) :: byte) = of_nat (ord d)"
      by (simp add: utf8_char_def Let_def)
    with 3 inj [OF this lim(2,1)] show ?thesis by linarith
  next
    case 4
    with eq have "(of_nat (0xC0 + ord c div 0x40) :: byte) = of_nat (0xC0 + ord d div 0x40)"
      and "(of_nat (0x80 + ord c mod 0x40) :: byte) = of_nat (0x80 + ord d mod 0x40)" and "x = y"
      by (simp_all add: utf8_char_def Let_def)
    with inj lim(2,3) have "ord c div 0x40 = ord d div 0x40" and "ord c mod 0x40 = ord d mod 0x40"
      by (metis add_left_cancel)+
    with \<open>x = y\<close> show ?thesis by (metis div_mult_mod_eq)
  qed
  then show ?thesis by (simp add: ord_eq_iff)
qed

lemma utf8_encode_inj: "utf8_encode s = utf8_encode t \<longleftrightarrow> s = t"
proof -
  have ne: "utf8_char c @ u \<noteq> []" for c u
    by (simp add: utf8_char_def Let_def)
  have "utf8_encode s = utf8_encode t \<Longrightarrow> s = t"
  proof (induction s arbitrary: t)
    case Nil
    then show ?case using ne by (cases t) (auto simp: utf8_encode_def)
  next
    case (Cons c s)
    then obtain d t' where t: "t = d # t'"
      using ne by (cases t) (auto simp: utf8_encode_def)
    with Cons.prems have "c = d \<and> utf8_encode s = utf8_encode t'"
      by (intro utf8_char_prefix) (simp add: utf8_encode_def)
    with Cons.IH t show ?case by simp
  qed
  then show ?thesis by auto
qed

lemma json_value_canon [simp]: "json_value (canon v) = json_value v"
  by (induction v rule: canon.induct) (auto simp: list_all_iff)

lemma serialize_eq_iff:
  assumes "json_value v" and "json_value w"
  shows "serialize v = serialize w \<longleftrightarrow> canon v = canon w"
proof
  assume "serialize v = serialize w"
  then have "render (canon v) @ [] = render (canon w) @ []"
    by (simp add: serialize_render)
  then show "canon v = canon w"
    using render_prefix [of "canon v" "canon w" "[]" "[]"] assms by (simp add: delim_def)
qed (simp add: serialize_render)

lemma normalize_json_json_value:
  "normalize_json_value v = Inr w \<Longrightarrow> json_value v"
  "normalize_items d acc = Inr e \<Longrightarrow> list_all (\<lambda>(k, v). json_value v) d"
proof (induction v and d acc arbitrary: w and e rule: normalize_json_value_normalize_items.induct)
  case (6 xs)
  then show ?case by (auto simp: res_simps list_all_iff dest: mapr_set')
qed (auto simp: res_simps)

lemma canonical_json_bytes_Inr_iff:
  "wf_pyval v \<Longrightarrow> canonical_json_bytes v = Inr bs \<longleftrightarrow> json_value v \<and> bs = utf8_encode (serialize v)"
  using normalize_json_json_value(1) [of v] normalize_json_id(1) [of v]
  by (auto simp: canonical_json_bytes_def res_simps)

section \<open>Digests\<close>

text \<open>The bytes a digest hashes.\<close>

definition digest_preimage :: "string \<Rightarrow> pyval \<Rightarrow> byte list" where
  "digest_preimage domain v = utf8_encode domain @ [0] @ utf8_encode (serialize v)"

definition digest_domain :: "string \<Rightarrow> bool" where
  "digest_domain s = (s \<noteq> [] \<and> chr_nul \<notin> set s \<and> list_all (\<lambda>c. ord c < 0x80) s)"

lemma digest_ok:
  "wf_pyval v \<Longrightarrow> json_value v \<Longrightarrow> digest_domain domain \<Longrightarrow>
     digest domain v = Inr (sha256_hex (digest_preimage domain v))"
  by (auto simp: digest_def digest_domain_def digest_preimage_def canonical_json_bytes_ok
      list_ex_iff list_all_iff not_le)

lemma digest_Inr_iff:
  "wf_pyval v \<Longrightarrow> digest domain v = Inr h \<longleftrightarrow>
     json_value v \<and> digest_domain domain \<and> h = sha256_hex (digest_preimage domain v)"
  by (auto simp: digest_def digest_domain_def digest_preimage_def canonical_json_bytes_Inr_iff
      res_simps list_ex_iff list_all_iff not_le)

lemma digest_is_sha256: "digest domain v = Inr h \<Longrightarrow> is_sha256 h"
  by (auto simp: digest_def res_simps sha.hd_sha256)

lemma plain_digest_is_sha256: "plain_digest v = Inr h \<Longrightarrow> is_sha256 h"
  by (auto simp: plain_digest_def res_simps sha.hd_sha256)

lemma plain_digest_ok:
  "wf_pyval v \<Longrightarrow> json_value v \<Longrightarrow> plain_digest v = Inr (sha256_hex (utf8_encode (serialize v)))"
  by (simp add: plain_digest_def canonical_json_bytes_ok)

lemma utf8_ascii: "list_all (\<lambda>c. ord c < 0x80) s \<Longrightarrow> utf8_encode s = map (\<lambda>c. of_nat (ord c)) s"
  by (induction s) (auto simp: utf8_encode_def utf8_char_def)

lemma digest_preimage_inj:
  assumes "digest_domain d" and "digest_domain e" and "json_value v" and "json_value w"
    and eq: "digest_preimage d v = digest_preimage e w"
  shows "d = e \<and> canon v = canon w"
proof -
  have zero: "(0 :: byte) \<notin> set (utf8_encode s)" if "digest_domain s" for s
  proof -
    have "of_nat (ord c) \<noteq> (0 :: byte)" if "c \<in> set s" for c
    proof -
      have "c \<noteq> chr_nul" using that \<open>digest_domain s\<close> by (auto simp: digest_domain_def)
      then have "ord c \<noteq> 0" using ord_eq_iff [of c chr_nul] by (simp add: ord_def)
      then show ?thesis using unat_of_nat_ord [of c] by (metis unat_0)
    qed
    then show ?thesis using that by (auto simp: utf8_ascii digest_domain_def)
  qed
  have "takeWhile (\<lambda>b. b \<noteq> 0) (digest_preimage s x) = utf8_encode s" if "digest_domain s" for s x
    using zero [OF that] by (auto simp: digest_preimage_def takeWhile_append)
  then have "utf8_encode d = utf8_encode e"
    using assms(1,2) eq by metis
  then have "d = e" by (simp add: utf8_encode_inj)
  with eq have "serialize v = serialize w"
    by (simp add: digest_preimage_def utf8_encode_inj)
  with \<open>d = e\<close> assms show ?thesis by (simp add: serialize_eq_iff)
qed

lemma normalize_json_same:
  "normalize_json_value v = Inr w \<Longrightarrow> w = v"
  "normalize_items d acc = Inr e \<Longrightarrow> e = acc @ d"
proof (induction v and d acc arbitrary: w and e rule: normalize_json_value_normalize_items.induct)
  case (6 xs)
  then obtain ys where ys: "mapr normalize_json_value xs = Inr ys" "w = PList ys"
    by (auto simp: res_simps)
  have "list_all2 (=) xs ys"
    using ys(1) [unfolded mapr_Inr_iff]
    by (rule list.rel_mono_strong) (metis "6.IH")
  then show ?case by (simp add: ys list.rel_eq)
qed (auto simp: res_simps)

text \<open>A value that has a digest is a well-formed JSON value.\<close>

lemma digest_Inr_preimage:
  "digest domain v = Inr h \<Longrightarrow>
     wf_pyval v \<and> json_value v \<and> digest_domain domain \<and> h = sha256_hex (digest_preimage domain v)"
proof -
  assume dig: "digest domain v = Inr h"
  then obtain w where "normalize_json_value v = Inr w"
    by (auto simp: digest_def canonical_json_bytes_def res_simps)
  then have "wf_pyval v"
    using normalize_json_wf(1) normalize_json_same(1) by blast
  with dig show ?thesis by (simp add: digest_Inr_iff)
qed

text \<open>Two different messages with the same hash.\<close>

definition sha_collision :: "byte list \<Rightarrow> byte list \<Rightarrow> bool" where
  "sha_collision m n = (m \<noteq> n \<and> sha256_hex m = sha256_hex n)"

lemma digest_binds:
  assumes "digest d v = Inr h" and "digest e w = Inr h"
  shows "(d = e \<and> canon v = canon w) \<or> sha_collision (digest_preimage d v) (digest_preimage e w)"
  using digest_Inr_preimage [OF assms(1)] digest_Inr_preimage [OF assms(2)]
    digest_preimage_inj [of d e v w] by (auto simp: sha_collision_def)

lemma plain_digest_Inr:
  "plain_digest v = Inr h \<Longrightarrow> wf_pyval v \<and> json_value v \<and> h = sha256_hex (utf8_encode (serialize v))"
proof -
  assume dig: "plain_digest v = Inr h"
  then obtain w where "normalize_json_value v = Inr w"
    by (auto simp: plain_digest_def canonical_json_bytes_def res_simps)
  then have "wf_pyval v \<and> json_value v"
    using normalize_json_wf(1) normalize_json_same(1) by blast
  with dig show ?thesis by (auto simp: plain_digest_ok)
qed

lemma plain_digest_binds:
  assumes "plain_digest v = Inr h" and "plain_digest w = Inr h"
  shows "canon v = canon w \<or> sha_collision (utf8_encode (serialize v)) (utf8_encode (serialize w))"
  using plain_digest_Inr [OF assms(1)] plain_digest_Inr [OF assms(2)]
  by (auto simp: sha_collision_def utf8_encode_inj serialize_eq_iff)

text \<open>Equality up to the order of keys is equality of every field.\<close>

lemma map_of_map_snd: "map_of (map (\<lambda>(k, v). (k, f v)) d) k = map_option f (map_of d k)"
  by (induction d) auto

lemma canon_get:
  assumes "canon (PDict d) = canon (PDict e)" and "distinct (keys d)" and "distinct (keys e)"
  shows "set (keys d) = set (keys e) \<and> canon (get d k) = canon (get e k)"
proof -
  let ?c = "map (\<lambda>(k, v). (k, canon v))"
  have eq: "sort_items (?c d) = sort_items (?c e)"
    using assms(1) by (simp add: sort_items_map)
  have ks: "keys (?c x) = keys x" for x by (simp add: keys_def comp_def case_prod_beta)
  have "map_of (?c d) = map_of (?c e)"
    using map_of_sort_items [of "?c d"] map_of_sort_items [of "?c e"] eq assms(2,3) by (simp add: ks)
  then have m: "map_option canon (map_of d k) = map_option canon (map_of e k)"
    by (metis map_of_map_snd)
  have "sort (keys d) = sort (keys e)"
    using eq by (metis ks keys_sort_items)
  then have "set (keys d) = set (keys e)" by (metis set_sort)
  with m show ?thesis
    by (cases "map_of d k"; cases "map_of e k") (auto simp: get_def)
qed

section \<open>Paths, modes, UUIDs\<close>

text \<open>What a canonical repository path is.\<close>

definition canonical_path :: "string \<Rightarrow> bool" where
  "canonical_path s = (s \<noteq> [] \<and> \<not> windows_drive s
     \<and> list_all (\<lambda>c. c \<noteq> chr_backslash \<and> 0x20 \<le> ord c \<and> ord c \<noteq> 0x7F) s
     \<and> list_all (\<lambda>p. p \<noteq> [] \<and> p \<noteq> ''.'' \<and> p \<noteq> ''..'') (split_on chr_slash s))"

lemma ord_nul: "ord chr_nul = 0"
  by (simp add: ord_def)

lemma normalize_path_Inr_iff: "normalize_path v = Inr p \<longleftrightarrow> v = PStr p \<and> canonical_path p"
proof -
  have slash: "\<not> starts_with [chr_slash] s" if "list_all (\<lambda>p. p \<noteq> [] \<and> p \<noteq> ''.'' \<and> p \<noteq> ''..'') (split_on chr_slash s)" for s
  proof
    assume "starts_with [chr_slash] s"
    then obtain t where "s = chr_slash # t"
      unfolding starts_with_iff by auto
    with that show False by simp
  qed
  have nul: "chr_nul \<notin> set s" if "list_all (\<lambda>c. c \<noteq> chr_backslash \<and> 0x20 \<le> ord c \<and> ord c \<noteq> 0x7F) s" for s
  proof
    assume "chr_nul \<in> set s"
    with that have "0x20 \<le> ord chr_nul" unfolding list_all_iff by blast
    then show False by (simp add: ord_nul)
  qed
  show ?thesis
    using slash [of p] nul [of p]
    by (auto simp: normalize_path_def canonical_path_def res_simps Let_def join_split
        list_ex_iff list_all_iff alias_segment_def not_less)
qed

lemma zero_pad_length: "length s \<le> w \<Longrightarrow> length (zero_pad w s) = w"
  by (simp add: zero_pad_def)

lemma parse_base_zero_pad: "parse_base b (zero_pad w s) = parse_base b s"
proof -
  have "hexval (CHR ''0'') = Some 0"
    by (simp add: is_digit_def ord_def)
  then have "foldl (\<lambda>acc c. acc * b + (case hexval c of Some n \<Rightarrow> n | None \<Rightarrow> 0)) 0 (replicate n (CHR ''0'')) = 0" for n
    by (induction n) (auto simp del: hexval.simps)
  then show ?thesis by (simp add: parse_base_def zero_pad_def)
qed

lemma length_show_base: "2 \<le> b \<Longrightarrow> n < b ^ k \<Longrightarrow> 0 < k \<Longrightarrow> length (show_base b n) \<le> k"
proof (induction k arbitrary: n)
  case (Suc k)
  show ?case
  proof (cases "n < b")
    case True
    then show ?thesis by (simp add: show_base.simps [of b n])
  next
    case False
    with Suc.prems have "0 < k" by (cases k) auto
    moreover have "n div b < b ^ k"
      using Suc.prems by (simp add: less_mult_imp_div_less mult.commute)
    ultimately have "length (show_base b (n div b)) \<le> k"
      using Suc.IH [of "n div b"] Suc.prems by simp
    with False Suc.prems show ?thesis by (simp add: show_base.simps [of b n])
  qed
qed simp

lemma show_base_set: "2 \<le> b \<Longrightarrow> set (show_base b n) \<subseteq> hex_digit ` {0..<b}"
proof (induction b n rule: show_base.induct)
  case (1 b n)
  then show ?case by (auto simp: show_base.simps [of b n])
qed

lemma is_octal_hex_digit: "n < 8 \<Longrightarrow> is_octal (hex_digit n)"
  by (erule all_below) code_simp

lemma format_mode_props:
  "length (format_mode n) = 4" "list_all is_octal (format_mode n)"
  "parse_base 8 (format_mode n) = n mod 512"
proof -
  have "length (show_base 8 (n mod 512)) \<le> 3"
    by (rule length_show_base) simp_all
  then show "length (format_mode n) = 4"
    by (simp add: format_mode_def zero_pad_length)
  have "is_octal c" if "c \<in> set (show_base 8 (n mod 512))" for c
    using show_base_set [of 8 "n mod 512"] that is_octal_hex_digit by auto
  then show "list_all is_octal (format_mode n)"
    by (auto simp: format_mode_def zero_pad_def list_all_iff is_octal_def)
  show "parse_base 8 (format_mode n) = n mod 512"
    by (simp add: format_mode_def parse_base_zero_pad parse_show_base)
qed

lemma normalize_mode_format_mode: "normalize_mode (PStr (format_mode n)) = Inr (format_mode n)"
proof -
  obtain a b c d where abcd: "format_mode n = [a, b, c, d]"
    using format_mode_props(1) [of n] by (auto simp: numeral_eq_Suc length_Suc_conv)
  with format_mode_props(2) [of n] have "b \<noteq> CHR ''o''"
    by (auto simp: is_octal_def)
  then have strip: "remove_prefix ''0o'' (format_mode n) = format_mode n"
    by (simp add: remove_prefix_def starts_with_def abcd)
  have "format_mode (n mod 512) = format_mode n"
    by (simp add: format_mode_def)
  then show ?thesis
    using format_mode_props [of n]
    by (simp add: normalize_mode_def octal_mode_def strip)
qed


text \<open>The shape of a canonical UUID: 32 lower-case hexadecimal digits, hyphens after 8, 12, 16, 20.\<close>

definition uuid_format :: "string \<Rightarrow> bool" where
  "uuid_format s = (let h = filter (\<lambda>c. c \<noteq> CHR ''-'') s in
     length h = 32 \<and> list_all is_hex h \<and> s = hyphenate h)"

lemma remove_all_single: "remove_all [c] s = filter (\<lambda>x. x \<noteq> c) s"
  by (induction s) (simp_all add: remove_all.simps [of "[c]"] starts_with_def)

lemma remove_all_absent: "c \<notin> set s \<Longrightarrow> remove_all (c # p) s = s"
proof (induction s)
  case Nil
  then show ?case by (simp add: remove_all.simps [of "c # p" "[]"])
next
  case (Cons x s)
  then show ?case
    by (auto simp: remove_all.simps [of "c # p" "x # s"] starts_with_def)
qed

lemma dropWhile_none: "\<forall>x \<in> set s. \<not> P x \<Longrightarrow> dropWhile P s = s"
  by (cases s) auto

lemma strip_chars_absent:
  assumes "set cs \<inter> set s = {}"
  shows "strip_chars cs s = s"
proof -
  have "\<forall>x \<in> set s. x \<notin> set cs" using assms by auto
  then have "dropWhile (\<lambda>c. c \<in> set cs) s = s" and "dropWhile (\<lambda>c. c \<in> set cs) (rev s) = rev s"
    by (auto intro: dropWhile_none)
  then show ?thesis by (simp add: strip_chars_def)
qed

lemma is_hex_ord: "is_hex c \<longleftrightarrow> (48 \<le> ord c \<and> ord c \<le> 57) \<or> (97 \<le> ord c \<and> ord c \<le> 102)"
  by (simp add: is_hex_def is_digit_def less_eq_char_def ord_def)

lemma strip_hex: "list_all is_hex s \<Longrightarrow> strip s = s"
proof -
  assume "list_all is_hex s"
  then have "\<forall>c \<in> set s. \<not> is_space c"
    by (auto simp: list_all_iff is_hex_ord is_space_def Let_def)
  then show "strip s = s" by (simp add: strip_def dropWhile_none)
qed

lemma hexval_is_hex: "is_hex c \<Longrightarrow> \<exists>n<16. hexval c = Some n \<and> hex_digit n = c"
proof -
  assume hex: "is_hex c"
  have eq: "char_of (ord c) = c" by (simp add: ord_def)
  show ?thesis
  proof (cases "ord c \<le> 57")
    case True
    with hex have "is_digit c" "48 \<le> ord c"
      by (auto simp: is_hex_ord is_digit_def less_eq_char_def ord_def)
    with True eq show ?thesis by (auto simp: hex_digit_def)
  next
    case False
    with hex have *: "97 \<le> ord c" "ord c \<le> 102" by (auto simp: is_hex_ord)
    then have "\<not> is_digit c" "CHR ''a'' \<le> c \<and> c \<le> CHR ''f''"
      by (auto simp: is_digit_def less_eq_char_def ord_def)
    with * eq show ?thesis by (auto simp: hex_digit_def)
  qed
qed

lemma parse_base_bound:
  "list_all is_hex s \<Longrightarrow> parse_base 16 s < 16 ^ length s"
proof (induction s rule: rev_induct)
  case Nil
  then show ?case by (simp add: parse_base_def)
next
  case (snoc c s)
  obtain n where "n < 16" "hexval c = Some n"
    using hexval_is_hex [of c] snoc.prems by auto
  with snoc show ?case by (simp add: parse_base_append del: hexval.simps)
qed

lemma show_parse_base:
  "list_all is_hex s \<Longrightarrow> s \<noteq> [] \<Longrightarrow> zero_pad (length s) (show_base 16 (parse_base 16 s)) = s"
proof (induction s rule: rev_induct)
  case Nil
  then show ?case by simp
next
  case (snoc c s)
  obtain n where n: "n < 16" "hexval c = Some n" "hex_digit n = c"
    using hexval_is_hex [of c] snoc.prems by auto
  have p: "parse_base 16 (s @ [c]) = parse_base 16 s * 16 + n"
    by (simp add: parse_base_append n del: hexval.simps)
  show ?case
  proof (cases "parse_base 16 s = 0")
    case True
    have "s = replicate (length s) (CHR ''0'')"
    proof (cases "s = []")
      case False
      have "zero_pad (length s) (show_base 16 0) = s"
        using snoc.IH False snoc.prems True by simp
      moreover have "show_base 16 0 = ''0''"
        by (simp add: show_base.simps [of 16 0] hex_digit_def char_of_def bit_0)
      ultimately show ?thesis
        using False unfolding zero_pad_def
        by (metis length_replicate length_append_singleton replicate_append_same replicate_Suc append_Cons append_Nil length_greater_0_conv Suc_pred diff_Suc_1 length_Cons list.size(3))
    qed simp
    with True n p show ?thesis
      by (simp add: zero_pad_def show_base.simps [of 16 n])
  next
    case False
    then have "s \<noteq> []" by (auto simp: parse_base_def)
    with snoc have IH: "zero_pad (length s) (show_base 16 (parse_base 16 s)) = s" by simp
    have "show_base 16 (parse_base 16 s * 16 + n) = show_base 16 (parse_base 16 s) @ [c]"
      using False n by (simp add: show_base.simps [of 16 "parse_base 16 s * 16 + n"])
    with IH p show ?thesis by (simp add: zero_pad_def)
  qed
qed


lemma py_int16_hex:
  assumes "list_all is_hex h" and "h \<noteq> []"
  shows "py_int16 h = Some (int (parse_base 16 h))"
proof -
  have mem: "c \<in> set h \<Longrightarrow> is_hex c" for c
    using assms(1) by (auto simp: list_all_iff)
  have no: "CHR ''-'' \<notin> set h" "CHR ''+'' \<notin> set h" "CHR ''x'' \<notin> set h" "CHR ''X'' \<notin> set h" "CHR ''_'' \<notin> set h"
    using mem [of "CHR ''-''"] mem [of "CHR ''+''"] mem [of "CHR ''x''"] mem [of "CHR ''X''"] mem [of "CHR ''_''"]
    by (auto simp: is_hex_def is_digit_def)
  have "list_all (\<lambda>c. hexval c \<noteq> None) h"
    using mem hexval_is_hex by (fastforce simp: list_all_iff simp del: hexval.simps)
  moreover have "\<not> starts_with ''-'' h" "\<not> starts_with ''+'' h" "\<not> starts_with ''0x'' h" "\<not> starts_with ''0X'' h"
    using no by (auto simp: starts_with_iff)
  ultimately show ?thesis
    using assms no(5)
    by (simp add: py_int16_def strip_hex split_on_single Let_def del: hexval.simps)
qed

lemma hyphenate_filter:
  assumes "length h = 32" and "list_all is_hex h"
  shows "filter (\<lambda>c. c \<noteq> CHR ''-'') (hyphenate h) = h"
proof -
  have "c \<in> set h \<Longrightarrow> c \<noteq> CHR ''-''" for c
    using assms(2) by (auto simp: list_all_iff is_hex_def is_digit_def)
  then have keep: "filter (\<lambda>c. c \<noteq> CHR ''-'') xs = xs" if "set xs \<subseteq> set h" for xs
    using that by (auto simp: filter_id_conv)
  have "filter (\<lambda>c. c \<noteq> CHR ''-'') (hyphenate h) =
      take 8 h @ take 4 (drop 8 h) @ take 4 (drop 12 h) @ take 4 (drop 16 h) @ drop 20 h"
  proof -
    have "set (take 4 (drop k h)) \<subseteq> set h" for k
      by (meson set_take_subset set_drop_subset subset_trans)
    then show ?thesis
      by (simp add: hyphenate_def keep set_take_subset set_drop_subset)
  qed
  also have "\<dots> = take 8 h @ drop 8 h"
  proof -
    have "take 4 (drop k h) @ drop (k + 4) h = drop k h" for k
      by (metis append_take_drop_id drop_drop add.commute)
    from this [of 8] this [of 12] this [of 16] show ?thesis by simp
  qed
  also have "\<dots> = h" by simp
  finally show ?thesis .
qed


lemma uuid_str_format: "uuid_str s = Some t \<Longrightarrow> uuid_format t"
proof -
  assume "uuid_str s = Some t"
  then obtain n :: int where n: "0 \<le> n" "n < 2 ^ 128"
    and t: "t = hyphenate (zero_pad 32 (show_base 16 (nat n)))"
    by (auto simp: uuid_str_def Let_def split: if_splits option.splits)
  have "nat n < 16 ^ 32"
    using n by (simp add: nat_less_iff)
  then have len: "length (zero_pad 32 (show_base 16 (nat n))) = 32"
    by (intro zero_pad_length length_show_base) simp_all
  have "is_hex c" if "c \<in> set (show_base 16 (nat n))" for c
    using show_base_set [of 16 "nat n"] that is_hex_hex_digit by auto
  then have "list_all is_hex (zero_pad 32 (show_base 16 (nat n)))"
    by (auto simp: zero_pad_def list_all_iff is_hex_def is_digit_def)
  with len t show ?thesis by (simp add: uuid_format_def hyphenate_filter Let_def)
qed

lemma uuid_str_of_format:
  assumes "uuid_format s"
  shows "uuid_str s = Some s"
proof -
  define h where "h = filter (\<lambda>c. c \<noteq> CHR ''-'') s"
  have h: "length h = 32" "list_all is_hex h" "s = hyphenate h"
    using assms by (auto simp: uuid_format_def h_def Let_def)
  have mem: "is_hex c \<or> c = CHR ''-''" if "c \<in> set s" for c
    using that h(2) by (auto simp: h_def list_all_iff)
  have no: "CHR ''u'' \<notin> set s" "CHR ''{'' \<notin> set s" "CHR ''}'' \<notin> set s"
    using mem by (fastforce simp: is_hex_def is_digit_def)+
  have "remove_all ''-'' (strip_chars ''{}'' (remove_all ''uuid:'' (remove_all ''urn:'' s))) = h"
    using no by (simp add: remove_all_absent strip_chars_absent remove_all_single h_def)
  moreover have "py_int16 h = Some (int (parse_base 16 h))"
    using h by (intro py_int16_hex) auto
  moreover have "int (parse_base 16 h) < 2 ^ 128"
    using parse_base_bound [OF h(2)] h(1) by simp
  moreover have "zero_pad 32 (show_base 16 (parse_base 16 h)) = h"
    using show_parse_base [OF h(2)] h(1) by (metis length_0_conv zero_neq_numeral)
  ultimately show ?thesis using h by (simp add: uuid_str_def)
qed

lemma is_canonical_uuid_iff: "is_canonical_uuid s \<longleftrightarrow> uuid_format s"
  using uuid_str_format uuid_str_of_format by (auto simp: is_canonical_uuid_def)

section \<open>Properties\<close>

text \<open>
  C32: The canonical bytes of two JSON values are equal exactly when their normal forms are equal up to
  the order of the keys of their dictionaries; then two normalised objects have the same value under
  every key. The values hold no floats and their strings are from U+0000 to U+00FF, the values of the
  model.
\<close>

theorem canonical_bytes_exact:
  assumes "normalize_json_value v = Inr v'" and "normalize_json_value w = Inr w'"
  shows "\<exists>b c. canonical_json_bytes v = Inr b \<and> canonical_json_bytes w = Inr c \<and> (b = c \<longleftrightarrow> canon v' = canon w') \<and>
    (b = c \<longrightarrow> (\<forall>d e k. v' = PDict d \<longrightarrow> w' = PDict e \<longrightarrow> set (keys d) = set (keys e) \<and> canon (get d k) = canon (get e k)))"
proof -
  let ?b = "utf8_encode (serialize v')" and ?c = "utf8_encode (serialize w')"
  have n: "wf_pyval v'" "json_value v'" "wf_pyval w'" "json_value w'"
    using normalize_json_wf(1) [OF assms(1)] normalize_json_wf(1) [OF assms(2)] by simp_all
  have ok: "canonical_json_bytes v = Inr ?b" "canonical_json_bytes w = Inr ?c"
    using assms by (simp_all add: canonical_json_bytes_def)
  have eq: "?b = ?c \<longleftrightarrow> canon v' = canon w'" using n by (simp add: utf8_encode_inj serialize_eq_iff)
  moreover have "set (keys d) = set (keys e) \<and> canon (get d k) = canon (get e k)"
    if "?b = ?c" "v' = PDict d" "w' = PDict e" for d e k
    using canon_get [of d e k] that eq n by (simp add: keys_def del: canon.simps)
  ultimately show ?thesis using ok by blast
qed

text \<open>
  A domain-separated digest is a SHA-256 value, and two digests are equal exactly when the
  domains are equal and the values equal up to key order, unless the two hashed byte strings are a
  collision of SHA-256.
\<close>

theorem digest_exact:
  assumes "digest d v = Inr h" and "digest e w = Inr h'"
  shows "is_sha256 h \<and> is_sha256 h' \<and>
    (sha_collision (digest_preimage d v) (digest_preimage e w) \<or> (h = h' \<longleftrightarrow> d = e \<and> canon v = canon w))"
proof -
  note p = digest_Inr_preimage [OF assms(1)] digest_Inr_preimage [OF assms(2)]
  have "h = h'" if "d = e" "canon v = canon w"
    using that p by (simp add: digest_preimage_def serialize_render)
  moreover have "(d = e \<and> canon v = canon w) \<or> sha_collision (digest_preimage d v) (digest_preimage e w)" if "h = h'"
    using that digest_binds [OF assms(1), of e w] assms(2) by simp
  ultimately show ?thesis
    using digest_is_sha256 [OF assms(1)] digest_is_sha256 [OF assms(2)] by blast
qed

text \<open>The lexical resolution of path segments below a directory, given by its own segments.\<close>

fun resolve_segments :: "string list \<Rightarrow> string list \<Rightarrow> string list" where
  "resolve_segments base [] = base"
| "resolve_segments base (p # ps) =
     (if p = [] \<or> p = ''.'' then resolve_segments base ps
      else if p = ''..'' then resolve_segments (butlast base) ps
      else resolve_segments (base @ [p]) ps)"

lemma resolve_plain: "list_all (\<lambda>p. p \<noteq> [] \<and> p \<noteq> ''.'' \<and> p \<noteq> ''..'') ps \<Longrightarrow> resolve_segments base ps = base @ ps"
  by (induction ps arbitrary: base) auto

text \<open>
  A normalised repository path is accepted unchanged, stays below any directory it is resolved
  in, and no two such paths resolve to the same file.
\<close>

theorem normalized_path_contained:
  assumes "normalize_path v = Inr p" and "normalize_path w = Inr q"
  shows "normalize_path (PStr p) = Inr p \<and>
    resolve_segments base (split_on chr_slash p) = base @ split_on chr_slash p \<and> split_on chr_slash p \<noteq> [] \<and>
    (resolve_segments base (split_on chr_slash p) = resolve_segments base (split_on chr_slash q) \<longleftrightarrow> p = q)"
proof -
  have c: "canonical_path p" "canonical_path q"
    using assms by (simp_all add: normalize_path_Inr_iff)
  have r: "resolve_segments base (split_on chr_slash s) = base @ split_on chr_slash s" if "canonical_path s" for s
    using that by (intro resolve_plain) (simp add: canonical_path_def)
  have "split_on chr_slash p = split_on chr_slash q \<longleftrightarrow> p = q" by (metis join_split)
  with c r show ?thesis by (simp add: normalize_path_Inr_iff)
qed

text \<open>
  A normalised file mode is four octal digits without special bits, stands for the permission
  bits of the mode it was made from, and is accepted unchanged.
\<close>

theorem normalized_mode_canonical:
  assumes "normalize_mode v = Inr m"
  shows "length m = 4 \<and> list_all is_octal m \<and> parse_base 8 m < 512 \<and> m = format_mode (parse_base 8 m) \<and>
    normalize_mode (PStr m) = Inr m \<and> (\<forall>n. v = PInt n \<longrightarrow> 0 \<le> n \<and> parse_base 8 m = nat n mod 512)"
proof -
  obtain n where m: "m = format_mode n" and n: "\<And>k. v = PInt k \<Longrightarrow> 0 \<le> k \<and> n = nat k"
    using assms by (cases v) (auto simp: normalize_mode_def split: if_splits)
  have "m = format_mode (n mod 512)" by (simp add: m format_mode_def)
  with n show ?thesis
    by (auto simp: m format_mode_props normalize_mode_format_mode)
qed

text \<open>
  Normalising a UUID gives the canonical spelling, 32 lower-case hexadecimal digits with four
  hyphens, which is accepted unchanged; a text is its own canonical spelling exactly when it has
  that form.
\<close>

theorem uuid_canonical_form:
  assumes "normalize_uuid v = Inr u"
  shows "uuid_format u \<and> length u = 36 \<and> normalize_uuid (PStr u) = Inr u \<and> (\<forall>s. v = PStr s \<longrightarrow> is_canonical_uuid s \<longrightarrow> s = u) \<and>
    (\<forall>s. is_canonical_uuid s \<longleftrightarrow> uuid_format s)"
proof -
  obtain s where s: "v = PStr s" "uuid_str s = Some u"
    using assms by (auto simp: normalize_uuid_def split: pyval.splits option.splits)
  have u: "uuid_format u" using s(2) by (rule uuid_str_format)
  define h where "h = filter (\<lambda>c. c \<noteq> CHR ''-'') u"
  have "length u = 36"
  proof -
    have "length h = 32" "u = hyphenate h" using u by (simp_all add: uuid_format_def h_def Let_def)
    then show ?thesis by (simp add: hyphenate_def)
  qed
  with u s show ?thesis
    by (auto simp: normalize_uuid_def uuid_str_of_format is_canonical_uuid_iff)
qed


theorem canonical_bytes_exact_witness:
  "canonical_json_bytes (PDict [(''a'', PInt 1), (''b'', PNone)]) = canonical_json_bytes (PDict [(''b'', PNone), (''a'', PInt 1)]) \<and>
   canonical_json_bytes (PDict [(''a'', PInt 1)]) \<noteq> canonical_json_bytes (PDict [(''a'', PStr ''1'')])"
proof -
  define v w x y where vw: "v = PDict [(''a'', PInt 1), (''b'', PNone)]" "w = PDict [(''b'', PNone), (''a'', PInt 1)]"
    "x = PDict [(''a'', PInt 1)]" "y = PDict [(''a'', PStr ''1'')]"
  have wf: "wf_pyval v" "wf_pyval w" "wf_pyval x" "wf_pyval y" by (simp_all add: vw)
  have json: "json_value v" "json_value w" "json_value x" "json_value y" by (simp_all add: vw)
  have canon: "canon v = canon w" "canon x \<noteq> canon y" by (simp_all add: vw sort_items_def)
  have norm: "normalize_json_value v = Inr v" "normalize_json_value w = Inr w" "normalize_json_value x = Inr x" "normalize_json_value y = Inr y"
    using wf json by (simp_all add: normalize_json_id)
  have "canonical_json_bytes v = canonical_json_bytes w \<and> canonical_json_bytes x \<noteq> canonical_json_bytes y"
    using canonical_bytes_exact [OF norm(1,2)] canonical_bytes_exact [OF norm(3,4)] canon by auto
  then show ?thesis unfolding vw .
qed

theorem digest_exact_witness:
  "\<exists>h h'. digest ''a'' (PInt 1) = Inr h \<and> digest ''b'' (PInt 1) = Inr h' \<and>
     (sha_collision (digest_preimage ''a'' (PInt 1)) (digest_preimage ''b'' (PInt 1)) \<or> h \<noteq> h')"
proof -
  have dig: "digest ''a'' (PInt 1) = Inr (sha256_hex (digest_preimage ''a'' (PInt 1)))"
    "digest ''b'' (PInt 1) = Inr (sha256_hex (digest_preimage ''b'' (PInt 1)))"
    by (auto intro!: digest_ok simp: digest_domain_def ord_def)
  show ?thesis using dig digest_exact [OF dig] by auto
qed

theorem normalized_path_contained_witness:
  "resolve_segments [''root''] (split_on chr_slash ''a/b'') = [''root'', ''a'', ''b''] \<and>
     resolve_segments [''root''] (split_on chr_slash ''a/b'') \<noteq> resolve_segments [''root''] (split_on chr_slash ''a/c'') \<and>
     resolve_segments [''root''] (split_on chr_slash ''../a'') = [''a'']"
proof -
  have "normalize_path (PStr ''a/b'') = Inr ''a/b''" "normalize_path (PStr ''a/c'') = Inr ''a/c''"
    by (simp_all add: normalize_path_Inr_iff canonical_path_def windows_drive_def alias_segment_def ord_def)
  from normalized_path_contained [OF this, of "[''root'']"] show ?thesis by simp
qed

theorem normalized_mode_canonical_witness:
  "normalize_mode (PInt 2541) = Inr ''0755'' \<and> normalize_mode (PStr ''0755'') = Inr ''0755''"
proof -
  have "normalize_mode (PInt 2541) = Inr ''0755''"
    by (simp add: normalize_mode_def format_mode_def zero_pad_def show_base.simps [of 8 493] show_base.simps [of 8 61]
        show_base.simps [of 8 7] hex_digit_def char_of_def bit_0 bit_Suc)
  with normalized_mode_canonical [OF this] show ?thesis by blast
qed

theorem uuid_canonical_form_witness:
  "normalize_uuid (PStr ''00000000-0000-4000-8000-00000000000a'') = Inr ''00000000-0000-4000-8000-00000000000a''"
proof -
  have "uuid_format ''00000000-0000-4000-8000-00000000000a''" by code_simp
  then have "normalize_uuid (PStr ''00000000-0000-4000-8000-00000000000a'') = Inr ''00000000-0000-4000-8000-00000000000a''"
    by (simp add: normalize_uuid_def uuid_str_of_format)
  from uuid_canonical_form [OF this] show ?thesis by blast
qed

end
