(* ===== verification/Impact.thy ===== *)
theory Impact
  imports Canonical
begin

text \<open>
  Model of \<^verbatim>\<open>core/impact.py\<close>: the authority, runtime-surface and restorative-repair impact of a
  candidate, derived from the current contract, the observed state and the candidate view.
  A dictionary of digests is an association list from identities to digest strings. The
  lemmas show that an accepted repair changes nothing but the drifted surfaces it selects, and
  that for every other operation the surface changes are exactly the differences between the
  current and the candidate contract.
\<close>

section \<open>Data\<close>

type_synonym digests = "(string \<times> string) list"

definition AUTHORITY_IDS :: "string list" where
  "AUTHORITY_IDS = [''artifact-bundle'', ''profile'', ''release-identity'', ''route-policy'',
     ''router-contract'', ''surface-registry'', ''trellis-layout'', ''workflow-lock'']"

definition impact_operations :: "string list" where
  "impact_operations = [''init'', ''sync'', ''repair'', ''upgrade'']"

record authority_change =
  ac_authority_id :: string
  ac_before_digest :: string
  ac_after_digest :: string

record surface_change =
  sc_surface_id :: string
  sc_change_kind :: string
  sc_contract_before_digest :: string
  sc_observed_before_digest :: string
  sc_after_digest :: string

record candidate_impact =
  ci_impact_kind :: string
  ci_authority_changes :: "authority_change list"
  ci_surface_changes :: "surface_change list"
  ci_contract_changing :: bool
  ci_candidate_impact_digest :: string

definition authority_change_document :: "authority_change \<Rightarrow> pyval" where
  "authority_change_document c = PDict [
     (''authority_id'', PStr (ac_authority_id c)),
     (''before_digest'', PStr (ac_before_digest c)),
     (''after_digest'', PStr (ac_after_digest c))]"

definition surface_change_document :: "surface_change \<Rightarrow> pyval" where
  "surface_change_document c = PDict [
     (''surface_id'', PStr (sc_surface_id c)),
     (''change_kind'', PStr (sc_change_kind c)),
     (''contract_before_digest'', PStr (sc_contract_before_digest c)),
     (''observed_before_digest'', PStr (sc_observed_before_digest c)),
     (''after_digest'', PStr (sc_after_digest c))]"

definition candidate_impact_document :: "candidate_impact \<Rightarrow> pyval" where
  "candidate_impact_document ci = PDict [
     (''schema_id'', PStr ''agent-workflow.candidate-impact''),
     (''schema_version'', PInt 1),
     (''impact_kind'', PStr (ci_impact_kind ci)),
     (''authority_changes'', PList (map authority_change_document (ci_authority_changes ci))),
     (''surface_changes'', PList (map surface_change_document (ci_surface_changes ci))),
     (''candidate_impact_digest'', PStr (ci_candidate_impact_digest ci))]"

definition impact_failure :: exn where
  "impact_failure = CoreFailure ''AWP_CANDIDATE_IMPACT_INVALID'' 2"

definition impact_coverage_failure :: exn where
  "impact_coverage_failure = CoreFailure ''AWP_SURFACE_COVERAGE_INVALID'' 2"

section \<open>Parsing\<close>

definition impact_mapping :: "pyval \<Rightarrow> dict res" where
  "impact_mapping v = (case v of PDict d \<Rightarrow> Inr d | _ \<Rightarrow> Inl impact_failure)"

definition digest_value :: "pyval \<Rightarrow> string res" where
  "digest_value v =
     (if v = PStr CANONICAL_NULL then Inr CANONICAL_NULL
      else (case v of
          PStr s \<Rightarrow> if is_sha256 s then Inr s else Inl impact_failure
        | _ \<Rightarrow> Inl impact_failure))"

definition authority_map :: "pyval \<Rightarrow> digests res" where
  "authority_map v = bnd (impact_mapping v) (\<lambda>raw.
     if \<not> subset_strs (keys raw) AUTHORITY_IDS then Inl impact_failure
     else mapr (\<lambda>(k, w). bnd (digest_value w) (\<lambda>s. Inr (k, s))) raw)"

definition surface_map :: "pyval \<Rightarrow> digests res" where
  "surface_map v = bnd (impact_mapping v)
     (mapr (\<lambda>(k, w). if k = [] \<or> k \<noteq> strip k then Inl impact_failure
                     else bnd (digest_value w) (\<lambda>s. Inr (k, s))))"

definition impact_string_set :: "pyval \<Rightarrow> string list res" where
  "impact_string_set v = (case v of
     PList xs \<Rightarrow>
       if \<not> list_all (\<lambda>x. is_pystr x \<and> truthy x) xs then Inl impact_failure
       else (let normalized = sort (strs_of xs) in
         if \<not> distinct normalized then Inl impact_failure else Inr normalized)
   | _ \<Rightarrow> Inl impact_failure)"

definition value_at :: "digests \<Rightarrow> string \<Rightarrow> string" where
  "value_at values identity = (case map_of values identity of None \<Rightarrow> CANONICAL_NULL | Some s \<Rightarrow> s)"

text \<open>\<^verbatim>\<open>d[k]\<close>: a missing key raises \<^verbatim>\<open>KeyError\<close>.\<close>

definition lookup :: "(string \<times> 'a) list \<Rightarrow> string \<Rightarrow> 'a res" where
  "lookup d k = (case map_of d k of None \<Rightarrow> Inl (KeyError k) | Some v \<Rightarrow> Inr v)"

text \<open>\<^verbatim>\<open>==\<close> on dictionaries of digests.\<close>

definition digests_eq :: "digests \<Rightarrow> digests \<Rightarrow> bool" where
  "digests_eq m n = (same_strs (keys m) (keys n) \<and> list_all (\<lambda>k. map_of m k = map_of n k) (keys m))"

section \<open>Changes\<close>

definition authority_changes :: "digests \<Rightarrow> digests \<Rightarrow> authority_change list" where
  "authority_changes current candidate = concat (map (\<lambda>a.
     let before = value_at current a; after = value_at candidate a in
     if before \<noteq> after
     then [\<lparr>ac_authority_id = a, ac_before_digest = before, ac_after_digest = after\<rparr>] else [])
     AUTHORITY_IDS)"

fun contract_changes_loop ::
    "digests \<Rightarrow> digests \<Rightarrow> digests \<Rightarrow> string list \<Rightarrow> surface_change list res" where
  "contract_changes_loop current observed candidate [] = Inr []"
| "contract_changes_loop current observed candidate (s # ids) =
     (let before = value_at current s; observed_before = value_at observed s; after = value_at candidate s in
      if observed_before \<noteq> before then Inl impact_failure
      else bnd (contract_changes_loop current observed candidate ids) (\<lambda>rest.
        Inr (if after \<noteq> before
             then \<lparr>sc_surface_id = s, sc_change_kind = ''contract-change'',
                   sc_contract_before_digest = before, sc_observed_before_digest = observed_before,
                   sc_after_digest = after\<rparr> # rest
             else rest)))"

definition contract_changes :: "digests \<Rightarrow> digests \<Rightarrow> digests \<Rightarrow> surface_change list res" where
  "contract_changes current observed candidate =
     contract_changes_loop current observed candidate
       (sorted_set (keys current @ keys candidate @ keys observed))"

definition drifted_surfaces :: "digests \<Rightarrow> digests \<Rightarrow> string list" where
  "drifted_surfaces current observed =
     filter (\<lambda>s. value_at observed s \<noteq> value_at current s) (remdups (keys current @ keys observed))"

definition repair_changes ::
    "digests \<Rightarrow> digests \<Rightarrow> digests \<Rightarrow> string list \<Rightarrow> surface_change list res" where
  "repair_changes current observed candidate selected =
     (if \<not> digests_eq current candidate then Inl impact_failure
      else if selected = [] then Inl impact_failure
      else if \<not> subset_strs selected (keys current) then Inl impact_failure
      else if \<not> same_strs (drifted_surfaces current observed) selected then Inl impact_failure
      else mapr (\<lambda>s. bnd (lookup current s) (\<lambda>before. bnd (lookup candidate s) (\<lambda>after.
             Inr \<lparr>sc_surface_id = s, sc_change_kind = ''repair'',
                  sc_contract_before_digest = before, sc_observed_before_digest = value_at observed s,
                  sc_after_digest = after\<rparr>))) selected)"

definition impact_projection :: "string \<Rightarrow> authority_change list \<Rightarrow> surface_change list \<Rightarrow> pyval" where
  "impact_projection kind acs scs = PDict [
     (''schema_id'', PStr ''agent-workflow.candidate-impact''),
     (''schema_version'', PInt 1),
     (''impact_kind'', PStr kind),
     (''authority_changes'', PList (map authority_change_document acs)),
     (''surface_changes'', PList (map surface_change_document scs))]"

text \<open>The operation-specific part: the surface changes of a repair or of another operation.\<close>

definition operation_surface_changes ::
    "bool \<Rightarrow> authority_change list \<Rightarrow> string \<Rightarrow> string \<Rightarrow> digests \<Rightarrow> digests \<Rightarrow> digests \<Rightarrow> dict
       \<Rightarrow> surface_change list res" where
  "operation_surface_changes is_repair acs current_graph candidate_graph cur obs cand candidate_ir =
     (if is_repair then
        (if acs \<noteq> [] then Inl impact_failure
         else if current_graph \<noteq> candidate_graph then Inl impact_failure
         else bnd (impact_string_set (get candidate_ir ''repair_surface_ids'')) (\<lambda>selected.
           repair_changes cur obs cand selected))
      else
        bnd (impact_string_set (get_or candidate_ir ''repair_surface_ids'' (PList []))) (\<lambda>selected.
          if selected \<noteq> [] then Inl impact_failure
          else contract_changes cur obs cand))"

definition finish_impact :: "authority_change list \<Rightarrow> surface_change list \<Rightarrow> candidate_impact res" where
  "finish_impact acs scs =
     (let kind = (if acs = [] \<and> scs = [] then ''none'' else ''runtime-visible'') in
      bnd (digest ''agent-workflow.candidate-impact.v1'' (impact_projection kind acs scs)) (\<lambda>h.
        Inr \<lparr>ci_impact_kind = kind, ci_authority_changes = acs, ci_surface_changes = scs,
             ci_contract_changing =
               (acs \<noteq> [] \<or> list_ex (\<lambda>c. sc_change_kind c = ''contract-change'') scs),
             ci_candidate_impact_digest = h\<rparr>))"

definition compute_candidate_impact :: "dict \<Rightarrow> dict \<Rightarrow> dict \<Rightarrow> candidate_impact res" where
  "compute_candidate_impact current_contract observed_state candidate_ir =
     (let operation = get candidate_ir ''operation'' in
      bnd (in_strs operation impact_operations) (\<lambda>known.
      if \<not> known then Inl impact_failure else
      bnd (authority_map (get current_contract ''authority_digests'')) (\<lambda>current_authorities.
      bnd (authority_map (get candidate_ir ''authority_digests'')) (\<lambda>candidate_authorities.
      bnd (surface_map (get current_contract ''surface_digests'')) (\<lambda>current_surfaces.
      bnd (surface_map (get observed_state ''surface_digests'')) (\<lambda>observed_surfaces.
      bnd (surface_map (get candidate_ir ''surface_digests'')) (\<lambda>candidate_surfaces.
      bnd (impact_string_set (get_or observed_state ''unclassified_runtime_units'' (PList []))) (\<lambda>unclassified.
      if unclassified \<noteq> [] then Inl impact_coverage_failure else
      bnd (digest_value (get current_contract ''registry_graph_digest'')) (\<lambda>current_graph.
      bnd (digest_value (get candidate_ir ''registry_graph_digest'')) (\<lambda>candidate_graph.
      let acs = authority_changes current_authorities candidate_authorities in
      bnd (operation_surface_changes (operation = PStr ''repair'') acs current_graph candidate_graph
             current_surfaces observed_surfaces candidate_surfaces candidate_ir) (\<lambda>scs.
      if operation = PStr ''upgrade'' \<and>
         \<not> list_ex (\<lambda>c. ac_authority_id c = ''release-identity'') acs
      then Inl impact_failure
      else finish_impact acs scs)))))))))))"

section \<open>Change lists as differences of two digest maps\<close>

text \<open>
  The contract of a change list: it names exactly the identities of its domain whose digests
  differ, each once, with the digest before and after.
\<close>

locale delta =
  fixes changes :: "digests \<Rightarrow> digests \<Rightarrow> 'c list"
    and ident :: "'c \<Rightarrow> string"
    and before :: "'c \<Rightarrow> string"
    and after :: "'c \<Rightarrow> string"
    and domain :: "digests \<Rightarrow> digests \<Rightarrow> string set"
  assumes delta_set: "(\<lambda>c. (ident c, before c, after c)) ` set (changes m n) =
      (\<lambda>k. (k, value_at m k, value_at n k)) ` {k \<in> domain m n. value_at m k \<noteq> value_at n k}"
    and delta_distinct: "distinct (map ident (changes m n))"
begin

lemma delta_idents: "ident ` set (changes m n) = {k \<in> domain m n. value_at m k \<noteq> value_at n k}"
proof -
  have "ident ` set (changes m n) = fst ` (\<lambda>c. (ident c, before c, after c)) ` set (changes m n)"
    by (simp add: image_image)
  also have "\<dots> = {k \<in> domain m n. value_at m k \<noteq> value_at n k}"
    unfolding delta_set by (simp add: image_image)
  finally show ?thesis .
qed

lemma delta_member:
  assumes "c \<in> set (changes m n)"
  shows "before c = value_at m (ident c) \<and> after c = value_at n (ident c) \<and> before c \<noteq> after c"
proof -
  have "(ident c, before c, after c) \<in> (\<lambda>c. (ident c, before c, after c)) ` set (changes m n)"
    using assms by (rule imageI)
  then show ?thesis unfolding delta_set by auto
qed

lemma delta_empty_iff: "changes m n = [] \<longleftrightarrow> (\<forall>k \<in> domain m n. value_at m k = value_at n k)"
proof -
  have "changes m n = [] \<longleftrightarrow> ident ` set (changes m n) = {}" by simp
  then show ?thesis unfolding delta_idents by auto
qed

lemma delta_refl: "changes m m = []"
  by (simp add: delta_empty_iff)

text \<open>Replaying the changes on the digests before gives the digests after.\<close>

lemma delta_replay:
  assumes "k \<in> domain m n"
  shows "value_at n k = (case find (\<lambda>c. ident c = k) (changes m n) of
      None \<Rightarrow> value_at m k | Some c \<Rightarrow> after c)"
proof (cases "find (\<lambda>c. ident c = k) (changes m n)")
  case None
  then have "k \<notin> ident ` set (changes m n)"
    by (auto simp: find_None_iff)
  with assms None show ?thesis by (simp add: delta_idents)
next
  case (Some c)
  then have "c \<in> set (changes m n)" "ident c = k"
    by (auto simp: find_Some_iff)
  with Some delta_member show ?thesis by fastforce
qed

end

lemma distinct_AUTHORITY_IDS: "distinct AUTHORITY_IDS"
  by (simp add: AUTHORITY_IDS_def)

lemma authority_changes_map:
  "map ac_authority_id (authority_changes m n) = filter (\<lambda>a. value_at m a \<noteq> value_at n a) AUTHORITY_IDS"
proof -
  have "map ac_authority_id (concat (map (\<lambda>a. let before = value_at m a; after = value_at n a in
      if before \<noteq> after then [\<lparr>ac_authority_id = a, ac_before_digest = before, ac_after_digest = after\<rparr>] else []) xs)) =
      filter (\<lambda>a. value_at m a \<noteq> value_at n a) xs" for xs
    by (induction xs) (auto simp: Let_def)
  then show ?thesis by (simp add: authority_changes_def)
qed

lemma authority_changes_set:
  "(\<lambda>c. (ac_authority_id c, ac_before_digest c, ac_after_digest c)) ` set (authority_changes m n) =
     (\<lambda>k. (k, value_at m k, value_at n k)) ` {k \<in> set AUTHORITY_IDS. value_at m k \<noteq> value_at n k}"
proof -
  have "(\<lambda>c. (ac_authority_id c, ac_before_digest c, ac_after_digest c)) ` set (concat (map (\<lambda>a.
      let before = value_at m a; after = value_at n a in
      if before \<noteq> after then [\<lparr>ac_authority_id = a, ac_before_digest = before, ac_after_digest = after\<rparr>] else []) xs)) =
      (\<lambda>k. (k, value_at m k, value_at n k)) ` {k \<in> set xs. value_at m k \<noteq> value_at n k}" for xs
    by (induction xs) (auto simp: Let_def)
  then show ?thesis by (simp add: authority_changes_def)
qed

interpretation authority_delta: delta authority_changes ac_authority_id ac_before_digest ac_after_digest
  "\<lambda>_ _. set AUTHORITY_IDS"
proof
  show "(\<lambda>c. (ac_authority_id c, ac_before_digest c, ac_after_digest c)) ` set (authority_changes m n) =
     (\<lambda>k. (k, value_at m k, value_at n k)) ` {k \<in> set AUTHORITY_IDS. value_at m k \<noteq> value_at n k}" for m n
    by (rule authority_changes_set)
  show "distinct (map ac_authority_id (authority_changes m n))" for m n
    by (simp add: authority_changes_map distinct_AUTHORITY_IDS)
qed

text \<open>What the loop over the surfaces returns, when it returns.\<close>

definition surface_delta :: "digests \<Rightarrow> digests \<Rightarrow> string list \<Rightarrow> surface_change list" where
  "surface_delta current candidate ids =
     map (\<lambda>s. \<lparr>sc_surface_id = s, sc_change_kind = ''contract-change'',
            sc_contract_before_digest = value_at current s, sc_observed_before_digest = value_at current s,
            sc_after_digest = value_at candidate s\<rparr>)
       (filter (\<lambda>s. value_at candidate s \<noteq> value_at current s) ids)"

lemma contract_changes_loop_eq:
  "contract_changes_loop current observed candidate ids =
     (if \<forall>s \<in> set ids. value_at observed s = value_at current s
      then Inr (surface_delta current candidate ids) else Inl impact_failure)"
  by (induction ids) (auto simp: Let_def surface_delta_def)

lemma value_at_absent: "k \<notin> set (keys m) \<Longrightarrow> value_at m k = CANONICAL_NULL"
  by (simp add: value_at_def keys_def map_of_eq_None_iff [symmetric])

lemma contract_changes_Inr_iff:
  "contract_changes current observed candidate = Inr scs \<longleftrightarrow>
     (\<forall>s. value_at observed s = value_at current s) \<and>
     scs = surface_delta current candidate (sorted_set (keys current @ keys candidate @ keys observed))"
proof -
  have "(\<forall>s \<in> set (sorted_set (keys current @ keys candidate @ keys observed)).
      value_at observed s = value_at current s) \<longleftrightarrow> (\<forall>s. value_at observed s = value_at current s)"
    using value_at_absent [of _ observed] value_at_absent [of _ current] by auto
  then show ?thesis
    by (auto simp: contract_changes_def contract_changes_loop_eq)
qed

interpretation surface_delta: delta "\<lambda>m n. surface_delta m n (sorted_set (keys m @ keys n @ keys m))"
  sc_surface_id sc_contract_before_digest sc_after_digest "\<lambda>_ _. UNIV"
proof
  fix m n :: digests
  have "value_at m k \<noteq> value_at n k \<Longrightarrow> k \<in> set (keys m @ keys n @ keys m)" for k
    by (metis Un_iff set_append value_at_absent)
  then show "(\<lambda>c. (sc_surface_id c, sc_contract_before_digest c, sc_after_digest c)) `
      set (surface_delta m n (sorted_set (keys m @ keys n @ keys m))) =
      (\<lambda>k. (k, value_at m k, value_at n k)) ` {k \<in> UNIV. value_at m k \<noteq> value_at n k}"
    by (force simp: surface_delta_def image_image)
  show "distinct (map sc_surface_id (surface_delta m n (sorted_set (keys m @ keys n @ keys m))))"
    by (simp add: surface_delta_def comp_def)
qed

section \<open>Every computed impact\<close>

lemma wf_impact_projection: "wf_pyval (impact_projection kind acs scs) \<and> json_value (impact_projection kind acs scs)"
  by (simp add: impact_projection_def authority_change_document_def surface_change_document_def list_all_iff)

lemma finish_impact_Inr:
  "finish_impact acs scs = Inr
     (let kind = (if acs = [] \<and> scs = [] then ''none'' else ''runtime-visible'') in
      \<lparr>ci_impact_kind = kind, ci_authority_changes = acs, ci_surface_changes = scs,
       ci_contract_changing = (acs \<noteq> [] \<or> list_ex (\<lambda>c. sc_change_kind c = ''contract-change'') scs),
       ci_candidate_impact_digest = sha256_hex
         (digest_preimage ''agent-workflow.candidate-impact.v1'' (impact_projection kind acs scs))\<rparr>)"
proof -
  have "digest_domain ''agent-workflow.candidate-impact.v1''"
    by (simp add: digest_domain_def ord_def)
  then have "digest ''agent-workflow.candidate-impact.v1'' (impact_projection kind acs scs) = Inr (sha256_hex
      (digest_preimage ''agent-workflow.candidate-impact.v1'' (impact_projection kind acs scs)))" for kind
    using wf_impact_projection [of kind acs scs] by (simp add: digest_ok)
  then show ?thesis by (simp add: finish_impact_def Let_def)
qed


lemma compute_candidate_impactE:
  assumes "compute_candidate_impact cc os ir = Inr ci"
  obtains op ca da cur obs cand g g' scs where
    "get ir ''operation'' = PStr op" "op \<in> set impact_operations"
    "authority_map (get cc ''authority_digests'') = Inr ca"
    "authority_map (get ir ''authority_digests'') = Inr da"
    "surface_map (get cc ''surface_digests'') = Inr cur"
    "surface_map (get os ''surface_digests'') = Inr obs"
    "surface_map (get ir ''surface_digests'') = Inr cand"
    "digest_value (get cc ''registry_graph_digest'') = Inr g"
    "digest_value (get ir ''registry_graph_digest'') = Inr g'"
    "operation_surface_changes (op = ''repair'') (authority_changes ca da) g g' cur obs cand ir = Inr scs"
    "op \<noteq> ''upgrade'' \<or> list_ex (\<lambda>c. ac_authority_id c = ''release-identity'') (authority_changes ca da)"
    "finish_impact (authority_changes ca da) scs = Inr ci"
proof -
  obtain op where op: "get ir ''operation'' = PStr op" "op \<in> set impact_operations"
    using assms by (auto simp: compute_candidate_impact_def res_simps Let_def)
  with assms that [OF op] show thesis
    by (auto simp: compute_candidate_impact_def res_simps Let_def)
qed

lemma lookup_value_at: "s \<in> set (keys m) \<Longrightarrow> lookup m s = Inr (value_at m s)"
  using has_key_iff [of m s] by (auto simp: has_key_def keys_def lookup_def value_at_def)

lemma digests_eq_value_at: "digests_eq m n \<Longrightarrow> set (keys m) = set (keys n) \<and> value_at m s = value_at n s"
proof -
  assume eq: "digests_eq m n"
  then have k: "set (keys m) = set (keys n)"
    by (simp add: digests_eq_def same_strs_iff)
  moreover have "value_at m s = value_at n s"
  proof (cases "s \<in> set (keys m)")
    case True
    with eq show ?thesis by (simp add: digests_eq_def value_at_def list_all_iff)
  next
    case False
    with k show ?thesis by (simp add: value_at_absent)
  qed
  ultimately show ?thesis by simp
qed

lemma set_drifted_surfaces: "set (drifted_surfaces cur obs) = {s. value_at obs s \<noteq> value_at cur s}"
proof -
  have "value_at obs s \<noteq> value_at cur s \<Longrightarrow> s \<in> set (keys cur @ keys obs)" for s
    by (metis Un_iff set_append value_at_absent)
  then show ?thesis by (auto simp: drifted_surfaces_def)
qed

lemma repair_changes_Inr:
  assumes "repair_changes cur obs cand sel = Inr scs"
  shows "set sel = {s. value_at obs s \<noteq> value_at cur s} \<and> sel \<noteq> [] \<and>
    scs = map (\<lambda>s. \<lparr>sc_surface_id = s, sc_change_kind = ''repair'',
      sc_contract_before_digest = value_at cur s, sc_observed_before_digest = value_at obs s,
      sc_after_digest = value_at cur s\<rparr>) sel"
proof -
  let ?f = "\<lambda>s. bnd (lookup cur s) (\<lambda>before. bnd (lookup cand s) (\<lambda>after.
      Inr \<lparr>sc_surface_id = s, sc_change_kind = ''repair'', sc_contract_before_digest = before,
        sc_observed_before_digest = value_at obs s, sc_after_digest = after\<rparr>))"
  let ?g = "\<lambda>s. \<lparr>sc_surface_id = s, sc_change_kind = ''repair'', sc_contract_before_digest = value_at cur s,
        sc_observed_before_digest = value_at obs s, sc_after_digest = value_at cur s\<rparr>"
  have eq: "digests_eq cur cand" and sub: "set sel \<subseteq> set (keys cur)" and ne: "sel \<noteq> []"
    and drift: "set (drifted_surfaces cur obs) = set sel" and m: "mapr ?f sel = Inr scs"
    using assms by (auto simp: repair_changes_def res_simps same_strs_iff subset_strs_iff)
  have "mapr ?f sel = Inr (map ?g sel)"
  proof (rule mapr_pure)
    fix s assume "s \<in> set sel"
    then have "s \<in> set (keys cur)" "s \<in> set (keys cand)"
      using sub digests_eq_value_at [OF eq] by auto
    then show "?f s = Inr (?g s)"
      using digests_eq_value_at [OF eq] by (simp add: lookup_value_at)
  qed
  with m drift ne show ?thesis by (simp add: set_drifted_surfaces)
qed

lemma impact_string_set_sorted: "impact_string_set v = Inr xs \<Longrightarrow> sorted xs \<and> distinct xs"
  by (cases v) (auto simp: impact_string_set_def res_simps Let_def)

text \<open>
  C26: A repair that is accepted is restorative: it changes no authority, it is not
  contract-changing, and its surface changes are exactly the surfaces whose observed digest differs
  from the contract, each once and in ascending order, each taking the surface from the observed
  digest back to the digest of the current contract.
\<close>

theorem repair_impact_restores:
  assumes "compute_candidate_impact cc os ir = Inr ci"
    and "get ir ''operation'' = PStr ''repair''"
    and "surface_map (get cc ''surface_digests'') = Inr cur"
    and "surface_map (get os ''surface_digests'') = Inr obs"
  shows "ci_authority_changes ci = [] \<and> \<not> ci_contract_changing ci \<and> ci_impact_kind ci = ''runtime-visible'' \<and>
    sorted (map sc_surface_id (ci_surface_changes ci)) \<and>
    distinct (map sc_surface_id (ci_surface_changes ci)) \<and>
    sc_surface_id ` set (ci_surface_changes ci) = {s. value_at obs s \<noteq> value_at cur s} \<and>
    list_all (\<lambda>c. sc_change_kind c = ''repair'' \<and>
      sc_observed_before_digest c = value_at obs (sc_surface_id c) \<and>
      sc_contract_before_digest c = value_at cur (sc_surface_id c) \<and>
      sc_after_digest c = value_at cur (sc_surface_id c)) (ci_surface_changes ci)"
proof -
  obtain ca da cand g g' scs where
    ch: "operation_surface_changes True (authority_changes ca da) g g' cur obs cand ir = Inr scs"
    and fin: "finish_impact (authority_changes ca da) scs = Inr ci"
    using assms by (elim compute_candidate_impactE) auto
  then obtain sel where acs: "authority_changes ca da = []"
    and sel: "impact_string_set (get ir ''repair_surface_ids'') = Inr sel"
    and "repair_changes cur obs cand sel = Inr scs"
    by (auto simp: operation_surface_changes_def res_simps)
  then have scs: "set sel = {s. value_at obs s \<noteq> value_at cur s}" "sel \<noteq> []"
    "scs = map (\<lambda>s. \<lparr>sc_surface_id = s, sc_change_kind = ''repair'',
      sc_contract_before_digest = value_at cur s, sc_observed_before_digest = value_at obs s,
      sc_after_digest = value_at cur s\<rparr>) sel"
    by (auto dest!: repair_changes_Inr)
  have "ci_authority_changes ci = []" "ci_surface_changes ci = scs" "ci_impact_kind ci = ''runtime-visible''"
    "\<not> ci_contract_changing ci"
    using fin acs scs by (auto simp: finish_impact_Inr Let_def list_ex_iff)
  moreover have "sorted sel \<and> distinct sel"
    using sel by (rule impact_string_set_sorted)
  ultimately show ?thesis
    using scs by (simp add: comp_def image_image list_all_iff)
qed

text \<open>
  The surface changes of an accepted init, sync or upgrade candidate are exactly the surfaces
  on which the candidate differs from the current contract, each once, in ascending order and with
  the digests of both sides, and no observed surface had drifted from the contract.
\<close>

theorem contract_impact_exact:
  assumes "compute_candidate_impact cc os ir = Inr ci"
    and "get ir ''operation'' \<noteq> PStr ''repair''"
    and "surface_map (get cc ''surface_digests'') = Inr cur"
    and "surface_map (get os ''surface_digests'') = Inr obs"
    and "surface_map (get ir ''surface_digests'') = Inr cand"
  shows "(\<forall>s. value_at obs s = value_at cur s) \<and>
    sorted (map sc_surface_id (ci_surface_changes ci)) \<and>
    distinct (map sc_surface_id (ci_surface_changes ci)) \<and>
    sc_surface_id ` set (ci_surface_changes ci) = {s. value_at cand s \<noteq> value_at cur s} \<and>
    list_all (\<lambda>c. sc_change_kind c = ''contract-change'' \<and>
      sc_contract_before_digest c = value_at cur (sc_surface_id c) \<and>
      sc_after_digest c = value_at cand (sc_surface_id c)) (ci_surface_changes ci)"
proof -
  obtain op ca da g g' scs where op: "get ir ''operation'' = PStr op"
    and ch: "operation_surface_changes (op = ''repair'') (authority_changes ca da) g g' cur obs cand ir = Inr scs"
    and fin: "finish_impact (authority_changes ca da) scs = Inr ci"
    using assms by (elim compute_candidate_impactE) auto
  have scs: "ci_surface_changes ci = scs"
    using fin by (auto simp: finish_impact_Inr Let_def)
  let ?ids = "sorted_set (keys cur @ keys cand @ keys obs)"
  from ch op assms(2) have eq: "\<forall>s. value_at obs s = value_at cur s" "scs = surface_delta cur cand ?ids"
    by (auto simp: operation_surface_changes_def res_simps contract_changes_Inr_iff)
  have "value_at cand s \<noteq> value_at cur s \<Longrightarrow> s \<in> set ?ids" for s
    by (metis Un_iff set_append set_sorted_set value_at_absent)
  then show ?thesis
    using eq by (auto simp: scs surface_delta_def comp_def image_image list_all_iff sorted_wrt_filter)
qed

text \<open>
  For every operation other than repair the impact kind is \<^verbatim>\<open>none\<close> precisely when all
  authorities and all surfaces of the candidate agree with the current contract, and the impact is
  contract-changing precisely when its kind is not \<^verbatim>\<open>none\<close>.
\<close>

theorem impact_none_iff:
  assumes "compute_candidate_impact cc os ir = Inr ci"
    and "get ir ''operation'' \<noteq> PStr ''repair''"
    and "authority_map (get cc ''authority_digests'') = Inr ca"
    and "authority_map (get ir ''authority_digests'') = Inr da"
    and "surface_map (get cc ''surface_digests'') = Inr cur"
    and "surface_map (get ir ''surface_digests'') = Inr cand"
  shows "(ci_impact_kind ci = ''none'' \<longleftrightarrow>
      (\<forall>a \<in> set AUTHORITY_IDS. value_at ca a = value_at da a) \<and> (\<forall>s. value_at cand s = value_at cur s)) \<and>
    (ci_contract_changing ci \<longleftrightarrow> ci_impact_kind ci \<noteq> ''none'')"
proof -
  obtain op obs g g' scs where op: "get ir ''operation'' = PStr op"
    and ch: "operation_surface_changes (op = ''repair'') (authority_changes ca da) g g' cur obs cand ir = Inr scs"
    and fin: "finish_impact (authority_changes ca da) scs = Inr ci"
    using assms by (elim compute_candidate_impactE) auto
  let ?ids = "sorted_set (keys cur @ keys cand @ keys obs)"
  from ch op assms(2) have scs: "scs = surface_delta cur cand ?ids"
    by (auto simp: operation_surface_changes_def res_simps contract_changes_Inr_iff)
  have "value_at cand s \<noteq> value_at cur s \<Longrightarrow> s \<in> set ?ids" for s
    by (metis Un_iff set_append set_sorted_set value_at_absent)
  then have empty: "scs = [] \<longleftrightarrow> (\<forall>s. value_at cand s = value_at cur s)"
    unfolding scs surface_delta_def by (auto simp: filter_empty_conv)
  have kinds: "list_ex (\<lambda>c. sc_change_kind c = ''contract-change'') scs \<longleftrightarrow> scs \<noteq> []"
    by (cases scs) (auto simp: scs surface_delta_def list_ex_iff)
  show ?thesis
    using fin kinds by (auto simp: finish_impact_Inr Let_def authority_delta.delta_empty_iff empty split: if_splits)
qed


text \<open>
  An accepted upgrade replaces the release identity, and is contract-changing.
\<close>

theorem upgrade_changes_release:
  assumes "compute_candidate_impact cc os ir = Inr ci"
    and "get ir ''operation'' = PStr ''upgrade''"
    and "authority_map (get cc ''authority_digests'') = Inr ca"
    and "authority_map (get ir ''authority_digests'') = Inr da"
  shows "value_at ca ''release-identity'' \<noteq> value_at da ''release-identity'' \<and> ci_contract_changing ci"
proof -
  obtain scs where rel: "list_ex (\<lambda>c. ac_authority_id c = ''release-identity'') (authority_changes ca da)"
    and fin: "finish_impact (authority_changes ca da) scs = Inr ci"
    using assms by (elim compute_candidate_impactE) auto
  from rel have "''release-identity'' \<in> ac_authority_id ` set (authority_changes ca da)"
    unfolding list_ex_iff by (metis image_eqI)
  then have "value_at ca ''release-identity'' \<noteq> value_at da ''release-identity''"
    unfolding authority_delta.delta_idents by simp
  moreover have "authority_changes ca da \<noteq> []" using rel by auto
  ultimately show ?thesis using fin by (auto simp: finish_impact_Inr Let_def)
qed

text \<open>
  When one observed surface differs from the current contract, no impact is computed for an
  init, a sync or an upgrade, whatever the candidate is: drift has to be repaired first.
\<close>

theorem drift_blocks_ordinary_impact:
  assumes "get ir ''operation'' = PStr op" and "op \<in> {''init'', ''sync'', ''upgrade''}"
    and "surface_map (get cc ''surface_digests'') = Inr cur"
    and "surface_map (get os ''surface_digests'') = Inr obs"
    and "value_at obs s \<noteq> value_at cur s"
  shows "\<not> is_ok (compute_candidate_impact cc os ir)"
proof
  assume "is_ok (compute_candidate_impact cc os ir)"
  then obtain ci where ci: "compute_candidate_impact cc os ir = Inr ci"
    by (auto simp: is_ok_iff)
  then obtain cand where "surface_map (get ir ''surface_digests'') = Inr cand"
    by (elim compute_candidate_impactE) auto
  with contract_impact_exact [OF ci] assms show False by auto
qed

section \<open>Witnesses\<close>

definition sha_of :: "char \<Rightarrow> string" where
  "sha_of c = replicate 64 c"

lemma is_sha256_sha_of: "is_sha256 (sha_of c) = is_hex c"
  by (simp add: is_sha256_def sha_of_def list_all_iff)

lemma sha_of_inj [simp]: "sha_of c = sha_of d \<longleftrightarrow> c = d"
  by (simp add: sha_of_def)

lemma sha_of_neq_null: "sha_of c \<noteq> ''canonical-null''"
proof -
  have "length (sha_of c) \<noteq> length ''canonical-null''" by (simp add: sha_of_def)
  then show ?thesis by metis
qed

lemma digest_value_sha_of: "is_hex c \<Longrightarrow> digest_value (PStr (sha_of c)) = Inr (sha_of c)"
  by (auto simp: digest_value_def is_sha256_sha_of)

definition sample_contract :: "dict \<Rightarrow> char \<Rightarrow> dict" where
  "sample_contract auth c = [(''authority_digests'', PDict auth),
     (''surface_digests'', PDict [(''router:heavy'', PStr (sha_of c))]),
     (''registry_graph_digest'', PStr (sha_of (CHR ''9'')))]"

definition sample_candidate :: "string \<Rightarrow> dict \<Rightarrow> char \<Rightarrow> pyval list \<Rightarrow> dict" where
  "sample_candidate op auth c sel = (''operation'', PStr op) #
     (''repair_surface_ids'', PList sel) # sample_contract auth c"

lemmas impact_eval = compute_candidate_impact_def sample_contract_def sample_candidate_def get_def get_or_def
  impact_operations_def authority_map_def surface_map_def impact_mapping_def subset_strs_def keys_def
  digest_value_sha_of is_hex_def is_digit_def strip_def is_space_def ord_def impact_string_set_def
  operation_surface_changes_def AUTHORITY_IDS_def

theorem repair_impact_restores_witness:
  "\<exists>ci. compute_candidate_impact (sample_contract [] (CHR ''a'')) (sample_contract [] (CHR ''b''))
      (sample_candidate ''repair'' [] (CHR ''a'') [PStr ''router:heavy'']) = Inr ci \<and>
    ci_authority_changes ci = [] \<and> sc_surface_id ` set (ci_surface_changes ci) = {''router:heavy''}"
proof -
  let ?cc = "sample_contract [] (CHR ''a'')" and ?os = "sample_contract [] (CHR ''b'')"
  let ?ir = "sample_candidate ''repair'' [] (CHR ''a'') [PStr ''router:heavy'']"
  have cur: "surface_map (get ?cc ''surface_digests'') = Inr [(''router:heavy'', sha_of (CHR ''a''))]"
    and obs: "surface_map (get ?os ''surface_digests'') = Inr [(''router:heavy'', sha_of (CHR ''b''))]"
    by (simp_all add: impact_eval)
  have "compute_candidate_impact ?cc ?os ?ir = finish_impact []
      [\<lparr>sc_surface_id = ''router:heavy'', sc_change_kind = ''repair'',
       sc_contract_before_digest = sha_of (CHR ''a''), sc_observed_before_digest = sha_of (CHR ''b''),
       sc_after_digest = sha_of (CHR ''a'')\<rparr>]"
    by (simp add: impact_eval authority_changes_def value_at_def repair_changes_def digests_eq_def
        same_strs_def drifted_surfaces_def lookup_def)
  then obtain ci where ci: "compute_candidate_impact ?cc ?os ?ir = Inr ci"
    by (simp add: finish_impact_Inr)
  have "get ?ir ''operation'' = PStr ''repair''" by (simp add: impact_eval)
  from repair_impact_restores [OF ci this cur obs] ci show ?thesis
    by (auto simp: value_at_def split: if_splits)
qed


text \<open>A candidate that replaces the release and one surface, and a candidate that changes nothing.\<close>

definition sample_upgrade :: dict where
  "sample_upgrade = sample_candidate ''upgrade'' [(''release-identity'', PStr (sha_of (CHR ''c'')))] (CHR ''b'') []"

lemma sample_upgrade_parts:
  "get sample_upgrade ''operation'' = PStr ''upgrade''"
  "authority_map (get (sample_contract [] c) ''authority_digests'') = Inr []"
  "authority_map (get sample_upgrade ''authority_digests'') = Inr [(''release-identity'', sha_of (CHR ''c''))]"
  "surface_map (get sample_upgrade ''surface_digests'') = Inr [(''router:heavy'', sha_of (CHR ''b''))]"
  by (simp_all add: impact_eval sample_upgrade_def)

lemma sample_contract_surfaces:
  "is_hex c \<Longrightarrow> surface_map (get (sample_contract auth c) ''surface_digests'') = Inr [(''router:heavy'', sha_of c)]"
  by (simp add: surface_map_def impact_mapping_def sample_contract_def get_def strip_def is_space_def
      ord_def digest_value_sha_of)

lemma sample_hex: "is_hex (CHR ''a'')" "is_hex (CHR ''b'')"
  by (simp_all add: is_hex_def is_digit_def)

lemma sample_upgrade_ok:
  "\<exists>ci. compute_candidate_impact (sample_contract [] (CHR ''a'')) (sample_contract [] (CHR ''a'')) sample_upgrade = Inr ci"
proof -
  have v: "value_at [] k = CANONICAL_NULL" for k by (simp add: value_at_def)
  have "contract_changes [(''router:heavy'', sha_of (CHR ''a''))] [(''router:heavy'', sha_of (CHR ''a''))]
      [(''router:heavy'', sha_of (CHR ''b''))] \<noteq> Inl impact_failure"
    by (simp add: contract_changes_def contract_changes_loop_eq)
  then show ?thesis
    by (simp add: impact_eval sample_upgrade_def v authority_changes_def value_at_def CANONICAL_NULL_def
        sha_of_neq_null contract_changes_def contract_changes_loop_eq finish_impact_Inr sha_of_neq_null [symmetric])
qed

theorem contract_impact_exact_witness:
  "\<exists>ci. compute_candidate_impact (sample_contract [] (CHR ''a'')) (sample_contract [] (CHR ''a'')) sample_upgrade = Inr ci \<and>
     sc_surface_id ` set (ci_surface_changes ci) = {''router:heavy''}"
proof -
  obtain ci where ci: "compute_candidate_impact (sample_contract [] (CHR ''a'')) (sample_contract [] (CHR ''a'')) sample_upgrade = Inr ci"
    using sample_upgrade_ok by blast
  have "get sample_upgrade ''operation'' \<noteq> PStr ''repair''" by (simp add: sample_upgrade_parts)
  from contract_impact_exact [OF ci this sample_contract_surfaces [OF sample_hex(1)]
      sample_contract_surfaces [OF sample_hex(1)] sample_upgrade_parts(4)] ci
  show ?thesis by (auto simp: value_at_def split: if_splits)
qed

theorem impact_none_iff_witness:
  "\<exists>ci. compute_candidate_impact (sample_contract [] (CHR ''a'')) (sample_contract [] (CHR ''a'')) sample_upgrade = Inr ci \<and>
     ci_impact_kind ci \<noteq> ''none'' \<and> ci_contract_changing ci"
proof -
  obtain ci where ci: "compute_candidate_impact (sample_contract [] (CHR ''a'')) (sample_contract [] (CHR ''a'')) sample_upgrade = Inr ci"
    using sample_upgrade_ok by blast
  have op: "get sample_upgrade ''operation'' \<noteq> PStr ''repair''" by (simp add: sample_upgrade_parts)
  have "value_at [(''router:heavy'', sha_of (CHR ''b''))] ''router:heavy'' \<noteq>
      value_at [(''router:heavy'', sha_of (CHR ''a''))] ''router:heavy''" by (simp add: value_at_def)
  with impact_none_iff [OF ci op sample_upgrade_parts(2,3) sample_contract_surfaces [OF sample_hex(1)]
      sample_upgrade_parts(4)] ci
  show ?thesis by blast
qed

theorem upgrade_changes_release_witness:
  "\<exists>ci. compute_candidate_impact (sample_contract [] (CHR ''a'')) (sample_contract [] (CHR ''a'')) sample_upgrade = Inr ci \<and>
     ci_contract_changing ci"
  using sample_upgrade_ok upgrade_changes_release [OF _ sample_upgrade_parts(1-3)] by blast

theorem drift_blocks_ordinary_impact_witness:
  "\<not> is_ok (compute_candidate_impact (sample_contract [] (CHR ''a'')) (sample_contract [] (CHR ''b'')) sample_upgrade)"
  by (rule drift_blocks_ordinary_impact [OF sample_upgrade_parts(1) _ sample_contract_surfaces [OF sample_hex(1)]
      sample_contract_surfaces [OF sample_hex(2)], of "''router:heavy''"]) (simp_all add: value_at_def)

end
