(* ===== verification/Validate.thy ===== *)
theory Validate
  imports Canonical
begin

text \<open>
  The field checks that the document validators of \<^verbatim>\<open>core/\<close> share. Every module has its own
  private copy of \<^verbatim>\<open>_mapping\<close>, \<^verbatim>\<open>_array\<close>, \<^verbatim>\<open>_string\<close>, \<^verbatim>\<open>_sha256\<close> and \<^verbatim>\<open>_uuid\<close> that differs
  only in the failure it raises, so the failure is the first argument here. The locale
  \<open>closed_document\<close> is the contract of a validator that accepts a closed set of fields.
\<close>

section \<open>Field checks\<close>

definition as_mapping :: "exn \<Rightarrow> pyval \<Rightarrow> dict res" where
  "as_mapping e v = (case v of PDict d \<Rightarrow> Inr d | _ \<Rightarrow> Inl e)"

definition as_array :: "exn \<Rightarrow> pyval \<Rightarrow> pyval list res" where
  "as_array e v = (case v of PList xs \<Rightarrow> Inr xs | _ \<Rightarrow> Inl e)"

definition as_string :: "exn \<Rightarrow> pyval \<Rightarrow> string res" where
  "as_string e v = (case v of PStr s \<Rightarrow> if s = [] then Inl e else Inr s | _ \<Rightarrow> Inl e)"

text \<open>\<^verbatim>\<open>if not isinstance(v, str): raise e\<close>.\<close>

definition as_str :: "exn \<Rightarrow> pyval \<Rightarrow> string res" where
  "as_str e v = (case v of PStr s \<Rightarrow> Inr s | _ \<Rightarrow> Inl e)"

definition as_sha256 :: "exn \<Rightarrow> pyval \<Rightarrow> string res" where
  "as_sha256 e v = (case v of PStr s \<Rightarrow> if is_sha256 s then Inr s else Inl e | _ \<Rightarrow> Inl e)"

definition as_uuid :: "exn \<Rightarrow> pyval \<Rightarrow> string res" where
  "as_uuid e v = bnd (as_string e v) (\<lambda>text.
     case uuid_str text of None \<Rightarrow> Inl e | Some parsed \<Rightarrow> if parsed \<noteq> text then Inl e else Inr text)"

definition as_path :: "exn \<Rightarrow> pyval \<Rightarrow> string res" where
  "as_path e v = except_core e (bnd (as_string e v) (\<lambda>s. normalize_path (PStr s)))"

text \<open>A guard: \<^verbatim>\<open>if not b: raise e\<close>.\<close>

definition require :: "bool \<Rightarrow> exn \<Rightarrow> unit res" where
  "require b e = (if b then Inr () else Inl e)"

text \<open>A dictionary comprehension: a later entry replaces an earlier one of the same key.\<close>

definition dict_display :: "('k \<times> 'v) list \<Rightarrow> ('k \<times> 'v) list" where
  "dict_display ps = foldl (\<lambda>d (k, v). AList.update k v d) [] ps"

text \<open>\<^verbatim>\<open>value or ""\<close> on an optional string.\<close>

definition or_empty :: "string option \<Rightarrow> string" where
  "or_empty s = (case s of None \<Rightarrow> [] | Some t \<Rightarrow> t)"

text \<open>A string or \<^verbatim>\<open>None\<close> as a document value.\<close>

definition opt_str :: "string option \<Rightarrow> pyval" where
  "opt_str s = (case s of None \<Rightarrow> PNone | Some t \<Rightarrow> PStr t)"

lemma as_mapping_Inr_iff [res_simps]: "as_mapping e v = Inr d \<longleftrightarrow> v = PDict d"
  by (cases v) (auto simp: as_mapping_def)

lemma as_array_Inr_iff [res_simps]: "as_array e v = Inr xs \<longleftrightarrow> v = PList xs"
  by (cases v) (auto simp: as_array_def)

lemma as_str_Inr_iff [res_simps]: "as_str e v = Inr s \<longleftrightarrow> v = PStr s"
  by (cases v) (auto simp: as_str_def)

lemma as_string_Inr_iff [res_simps]: "as_string e v = Inr s \<longleftrightarrow> v = PStr s \<and> s \<noteq> []"
  by (cases v) (auto simp: as_string_def)

lemma as_sha256_Inr_iff [res_simps]: "as_sha256 e v = Inr s \<longleftrightarrow> v = PStr s \<and> is_sha256 s"
  by (cases v) (auto simp: as_sha256_def)

lemma as_uuid_Inr_iff [res_simps]: "as_uuid e v = Inr s \<longleftrightarrow> v = PStr s \<and> uuid_format s"
proof -
  have ne: "uuid_str s = Some s \<Longrightarrow> s \<noteq> []"
    using is_canonical_uuid_iff [of s] by (auto simp: is_canonical_uuid_def uuid_format_def)
  have "(case uuid_str x of None \<Rightarrow> Inl e | Some p \<Rightarrow> if p \<noteq> x then Inl e else Inr x) = Inr s \<longleftrightarrow>
      uuid_str x = Some x \<and> x = s" for x
    by (auto split: option.splits)
  then show ?thesis
    using ne by (auto simp: as_uuid_def res_simps is_canonical_uuid_iff [symmetric] is_canonical_uuid_def)
qed

lemma as_path_Inr_iff [res_simps]: "as_path e v = Inr p \<longleftrightarrow> v = PStr p \<and> canonical_path p"
proof -
  have "canonical_path p \<Longrightarrow> p \<noteq> []" for p by (auto simp: canonical_path_def)
  then show ?thesis
    by (auto simp: as_path_def res_simps normalize_path_Inr_iff)
qed

lemma require_Inr_iff [res_simps]: "require b e = Inr u \<longleftrightarrow> b"
  by (simp add: require_def)

lemma check_raises [raises_intros]:
  "e \<in> S \<Longrightarrow> raises_only S (as_mapping e v)"
  "e \<in> S \<Longrightarrow> raises_only S (as_array e v)"
  "e \<in> S \<Longrightarrow> raises_only S (as_string e v)"
  "e \<in> S \<Longrightarrow> raises_only S (as_str e v)"
  "e \<in> S \<Longrightarrow> raises_only S (as_sha256 e v)"
  "e \<in> S \<Longrightarrow> raises_only S (require b e)"
  by (cases v; simp add: raises_only_def as_mapping_def as_array_def as_string_def as_str_def as_sha256_def require_def)+

lemma as_uuid_raises [raises_intros]: "e \<in> S \<Longrightarrow> raises_only S (as_uuid e v)"
  by (auto simp: as_uuid_def intro!: raises_intros split: option.splits)

lemma canonical_raises:
  "raises_only {canonical_failure} (normalize_nfc v)"
  "raises_only {canonical_failure} (normalize_path v)"
  "raises_only {canonical_failure} (normalize_mode v)"
  by (cases v; auto simp: raises_only_def normalize_nfc_def normalize_path_def normalize_mode_def Let_def)+

lemma normalize_json_raises:
  "raises_only {canonical_failure} (normalize_json_value v)"
  "raises_only {canonical_failure} (normalize_items d acc)"
  by (induction v and d acc rule: normalize_json_value_normalize_items.induct)
    (auto intro!: raises_intros canonical_raises)

lemma digest_raises:
  "raises_only {canonical_failure} (digest domain v)"
  "raises_only {canonical_failure} (plain_digest v)"
  using normalize_json_raises(1) [of v]
  by (auto simp: digest_def plain_digest_def canonical_json_bytes_def intro!: raises_intros)

lemma canonical_failure_core: "canonical_failure \<in> core_failures"
  by (auto simp: canonical_failure_def core_failures_def)

lemma as_path_raises [raises_intros]: "e \<in> S \<Longrightarrow> e \<in> core_failures \<Longrightarrow> raises_only S (as_path e v)"
  unfolding as_path_def
  by (rule raises_only_except_core [where T = "{}"])
    (auto intro!: raises_intros raises_only_mono [OF canonical_raises(2)] simp: canonical_failure_core)

lemma dict_display_snoc: "dict_display (ps @ [(k, v)]) = AList.update k v (dict_display ps)"
  by (simp add: dict_display_def)

lemma map_of_dict_display [dict_simps]: "map_of (dict_display ps) = map_of (rev ps)"
proof (induction ps rule: rev_induct)
  case Nil
  then show ?case by (simp add: dict_display_def)
next
  case (snoc p ps)
  then show ?case by (cases p) (simp add: dict_display_snoc update_conv')
qed

lemma map_of_rev_distinct: "distinct (map fst ps) \<Longrightarrow> map_of (rev ps) = map_of ps"
  by (intro map_of_eqI) (auto simp: rev_map [symmetric] map_of_eq_Some_iff intro!: ext)

lemma map_of_dict_display_distinct: "distinct (map fst ps) \<Longrightarrow> map_of (dict_display ps) = map_of ps"
  by (simp add: map_of_dict_display map_of_rev_distinct)

lemma set_keys_dict_display: "fst ` set (dict_display ps) = fst ` set ps"
  using map_of_dict_display [of ps] by (metis dom_map_of_conv_image_fst set_rev)

section \<open>Closed documents\<close>

text \<open>
  A validator of a closed document: what it accepts has exactly the listed fields. Then a
  document with an unknown or a missing field is refused, and so is one that lost or gained a
  field after it was accepted.
\<close>

locale closed_document =
  fixes validate :: "dict \<Rightarrow> 'a res"
    and fields :: "string list"
  assumes closed: "is_ok (validate d) \<Longrightarrow> set (keys d) = set fields"
begin

lemma unknown_field: "k \<notin> set fields \<Longrightarrow> \<not> is_ok (validate ((k, v) # d))"
  using closed [of "(k, v) # d"] by (auto simp: keys_def)

lemma missing_field: "k \<in> set fields \<Longrightarrow> k \<notin> set (keys d) \<Longrightarrow> \<not> is_ok (validate d)"
  using closed [of d] by auto

lemma field_present: "is_ok (validate d) \<Longrightarrow> k \<in> set fields \<Longrightarrow> \<exists>v. map_of d k = Some v"
  using closed [of d] has_key_iff [of d k] by (auto simp: has_key_def keys_def)

end

end
