(* ===== verification/Task_Policy.thy ===== *)
theory Task_Policy
  imports Impact Validate
begin

text \<open>
  Model of \<^verbatim>\<open>core/task_policy.py\<close>: the parsing of a task snapshot and of the findings about it,
  the workspace-state evaluator and the operation-specific task gate. An optional attribute of
  the Python dataclasses is an option value. The lemmas relate the two evaluators and show what a
  gate without blockers guarantees to the tasks that are not archived.
\<close>

section \<open>Data\<close>

definition WORKSPACE_STATE_EVALUATOR_ID :: string where
  "WORKSPACE_STATE_EVALUATOR_ID = ''agent-workflow.workspace-state-quiescence''"

definition TASK_GATE_EVALUATOR_ID :: string where
  "TASK_GATE_EVALUATOR_ID = ''agent-workflow.task-gate''"

definition EVALUATOR_VERSION :: int where
  "EVALUATOR_VERSION = 1"

definition AMBIGUOUS_KINDS :: "string list" where
  "AMBIGUOUS_KINDS = [''layout-ambiguous'', ''unknown-entry'', ''collision'', ''scan-limit'',
     ''interpretation-conflict'']"

definition BLOCKED_KINDS :: "string list" where
  "BLOCKED_KINDS = [''unfinished-task-transaction'', ''non-archived-task'', ''layout-state-stranded'']"

definition task_operations :: "string list" where
  "task_operations = [''init'', ''sync'', ''repair'', ''upgrade'', ''workspace-migrate'']"

definition NON_ARCHIVED_STATUSES :: "string list" where
  "NON_ARCHIVED_STATUSES = [''admitting'', ''active'', ''blocked'', ''completed'', ''archiving'']"

definition FINDING_FIELDS :: "(string \<times> string list) list" where
  "FINDING_FIELDS = [
     (''layout-ambiguous'', [''kind'', ''finding_id'', ''normalized_path'', ''evidence_class'',
        ''parser_id'', ''parser_version'', ''evidence_schema_id'', ''evidence_schema_version'']),
     (''unknown-entry'', [''kind'', ''finding_id'', ''normalized_path'', ''root_contract_id'']),
     (''collision'', [''kind'', ''finding_id'', ''normalized_aliases'', ''collision_class'']),
     (''scan-limit'', [''kind'', ''finding_id'', ''contract_id'', ''limit_kind'', ''configured_limit'']),
     (''interpretation-conflict'', [''kind'', ''finding_id'', ''task_id'', ''task_ref'',
        ''current_path'', ''conflicting_fields'']),
     (''unfinished-task-transaction'', [''kind'', ''finding_id'', ''journal_path'', ''task_id'',
        ''task_ref'', ''operation'', ''phase'']),
     (''non-archived-task'', [''kind'', ''finding_id'', ''task_id'', ''current_path'',
        ''lifecycle_status'', ''mode'', ''pinned_surfaces'']),
     (''layout-state-stranded'', [''kind'', ''finding_id'', ''normalized_path'', ''semantic_role'',
        ''source_visibility'', ''target_visibility''])]"

record surface_pin =
  sp_surface_id :: string
  sp_surface_digest :: string

record task_fact =
  tf_task_id :: string
  tf_current_path :: string
  tf_lifecycle_status :: string
  tf_mode :: string
  tf_pinned_surfaces :: "surface_pin list"

record finding_fact =
  ff_kind :: string
  ff_finding_id :: string
  ff_task_id :: "string option"
  ff_path :: "string option"
  ff_lifecycle_status :: "string option"
  ff_mode :: "string option"
  ff_pinned_surfaces :: "surface_pin list"

record workspace_task_state =
  ws_evaluator_id :: string
  ws_evaluator_version :: int
  ws_task_quiescence :: string
  ws_evidence_kinds :: "string list"

record task_gate_blocker =
  tb_code :: string
  tb_finding_id :: string
  tb_task_id :: "string option"
  tb_path :: "string option"
  tb_surface_id :: "string option"
  tb_authority_id :: "string option"

record task_gate_result =
  tg_evaluator_id :: string
  tg_evaluator_version :: int
  tg_operation :: string
  tg_blockers :: "task_gate_blocker list"
  tg_primary_evaluator_blocker :: "string option"

record verified_discovery_schemas =
  vd_schema_bundle_digest :: string
  vd_normalized :: dict

record task_snapshot_and_findings =
  ts_snapshot :: dict
  ts_findings :: dict
  ts_task_quiescence_digest :: string

text \<open>The constructors run \<^verbatim>\<open>__post_init__\<close>, which raises on a malformed digest.\<close>

definition VerifiedDiscoverySchemas :: "string \<Rightarrow> dict \<Rightarrow> verified_discovery_schemas res" where
  "VerifiedDiscoverySchemas h d =
     (if \<not> is_sha256 h then Inl ValueError
      else Inr \<lparr>vd_schema_bundle_digest = h, vd_normalized = d\<rparr>)"

definition TaskSnapshotAndFindings :: "dict \<Rightarrow> dict \<Rightarrow> string \<Rightarrow> task_snapshot_and_findings res" where
  "TaskSnapshotAndFindings s f h =
     (if \<not> is_sha256 h then Inl ValueError
      else Inr \<lparr>ts_snapshot = s, ts_findings = f, ts_task_quiescence_digest = h\<rparr>)"

section \<open>Field checks\<close>

definition task_failure :: exn where
  "task_failure = CoreFailure ''AWP_SCHEMA_INVALID'' 2"

definition task_mapping :: "pyval \<Rightarrow> dict res" where
  "task_mapping = as_mapping task_failure"

definition task_array :: "pyval \<Rightarrow> pyval list res" where
  "task_array = as_array task_failure"

definition task_string :: "pyval \<Rightarrow> string res" where
  "task_string = as_string task_failure"

definition task_sha256 :: "pyval \<Rightarrow> string res" where
  "task_sha256 = as_sha256 task_failure"

definition task_uuid :: "pyval \<Rightarrow> string res" where
  "task_uuid = as_uuid task_failure"

definition task_path :: "pyval \<Rightarrow> string res" where
  "task_path = as_path task_failure"

lemmas task_check_defs = task_mapping_def task_array_def task_string_def task_sha256_def
  task_uuid_def task_path_def

definition surface_pin_of :: "pyval \<Rightarrow> surface_pin res" where
  "surface_pin_of raw_pin =
     bnd (task_mapping raw_pin) (\<lambda>pin.
     bnd (require (same_strs (keys pin) [''surface_id'', ''surface_digest'']) task_failure) (\<lambda>_.
     bnd (task_string (get pin ''surface_id'')) (\<lambda>surface_id.
     bnd (task_sha256 (get pin ''surface_digest'')) (\<lambda>surface_digest.
     Inr \<lparr>sp_surface_id = surface_id, sp_surface_digest = surface_digest\<rparr>))))"

definition surface_pins :: "pyval \<Rightarrow> surface_pin list res" where
  "surface_pins v =
     bnd (task_array v) (\<lambda>raws.
     bnd (mapr surface_pin_of raws) (\<lambda>pins.
     let ordered = sort_key sp_surface_id pins in
     if pins \<noteq> ordered \<or> length (remdups (map sp_surface_id pins)) \<noteq> length pins
     then Inl task_failure else Inr ordered))"

section \<open>The task snapshot\<close>

definition task_record_fields :: "string list" where
  "task_record_fields = [''task_id'', ''admission_task_ref'', ''current_path'', ''source_role'',
     ''target_role'', ''integration_byte_hash'', ''integration_mode'', ''integration_schema_id'',
     ''integration_schema_version'', ''lifecycle_status'', ''revision'', ''mode'',
     ''task_contract_digest'', ''task_contract_surfaces'']"

text \<open>\<^verbatim>\<open>not isinstance(v, int) or isinstance(v, bool) or v < 0\<close>, negated.\<close>

definition nonneg_int :: "pyval \<Rightarrow> bool" where
  "nonneg_int v = (case v of PInt n \<Rightarrow> 0 \<le> n | _ \<Rightarrow> False)"

definition known_roles :: "dict \<Rightarrow> bool res" where
  "known_roles task =
     bnd (in_strs (get task ''source_role'') [''absent'', ''active'', ''archive'']) (\<lambda>source.
     if \<not> source then Inr False
     else in_strs (get task ''target_role'') [''absent'', ''active'', ''archive''])"

text \<open>One round of the loop over the tasks, up to the check for duplicates.\<close>

definition task_fact_of :: "pyval \<Rightarrow> task_fact res" where
  "task_fact_of raw_task =
     bnd (task_mapping raw_task) (\<lambda>task.
     bnd (require (same_strs (keys task) task_record_fields) task_failure) (\<lambda>_.
     bnd (task_uuid (get task ''task_id'')) (\<lambda>task_id.
     bnd (task_path (get task ''current_path'')) (\<lambda>current_path.
     bnd (task_string (get task ''admission_task_ref'')) (\<lambda>_.
     bnd (known_roles task) (\<lambda>known.
     bnd (require known task_failure) (\<lambda>_.
     bnd (task_sha256 (get task ''integration_byte_hash'')) (\<lambda>_.
     bnd (except_core task_failure (normalize_mode (get task ''integration_mode''))) (\<lambda>_.
     bnd (task_string (get task ''integration_schema_id'')) (\<lambda>_.
     bnd (require (is_pyint (get task ''integration_schema_version'')) task_failure) (\<lambda>_.
     bnd (task_string (get task ''lifecycle_status'')) (\<lambda>status.
     bnd (require (status \<in> set (NON_ARCHIVED_STATUSES @ [''archived''])) task_failure) (\<lambda>_.
     bnd (require (nonneg_int (get task ''revision'')) task_failure) (\<lambda>_.
     bnd (task_string (get task ''mode'')) (\<lambda>mode.
     bnd (require (mode \<in> set [''trellis-native'', ''speckit-superpowers'']) task_failure) (\<lambda>_.
     bnd (task_sha256 (get task ''task_contract_digest'')) (\<lambda>_.
     bnd (surface_pins (get task ''task_contract_surfaces'')) (\<lambda>pins.
     Inr \<lparr>tf_task_id = task_id, tf_current_path = current_path, tf_lifecycle_status = status,
          tf_mode = mode, tf_pinned_surfaces = pins\<rparr>))))))))))))))))))"

definition add_task_fact ::
    "(string \<times> task_fact) list \<times> string list \<Rightarrow> pyval \<Rightarrow> ((string \<times> task_fact) list \<times> string list) res" where
  "add_task_fact st raw_task = (case st of (tasks, paths) \<Rightarrow>
     bnd (task_fact_of raw_task) (\<lambda>t.
     if has_key tasks (tf_task_id t) \<or> tf_current_path t \<in> set paths then Inl task_failure
     else Inr (AList.update (tf_task_id t) t tasks, tf_current_path t # paths)))"

definition task_facts :: "dict \<Rightarrow> (string \<times> task_fact) list res" where
  "task_facts snapshot =
     bnd (task_array (get snapshot ''tasks'')) (\<lambda>raws.
     bnd (foldr_res add_task_fact ([], []) raws) (\<lambda>st. Inr (fst st)))"

definition metadata_fields :: "string list" where
  "metadata_fields = [''path'', ''byte_hash'', ''mode'', ''parser_id'', ''parser_version'',
     ''classifier_id'', ''classifier_version'', ''parsed_task_refs'', ''semantic_role'', ''classification'']"

definition journal_fields :: "string list" where
  "journal_fields = [''journal_path'', ''byte_hash'', ''mode'', ''schema_id'', ''schema_version'',
     ''operation'', ''phase'', ''task_id'', ''task_ref'', ''terminal'']"

definition check_metadata :: "pyval \<Rightarrow> unit res" where
  "check_metadata raw =
     bnd (task_mapping raw) (\<lambda>metadata.
     bnd (require (same_strs (keys metadata) metadata_fields) task_failure) (\<lambda>_.
     bnd (task_path (get metadata ''path'')) (\<lambda>_.
     bnd (task_sha256 (get metadata ''byte_hash'')) (\<lambda>_. Inr ()))))"

definition check_journal :: "pyval \<Rightarrow> unit res" where
  "check_journal raw =
     bnd (task_mapping raw) (\<lambda>journal.
     bnd (require (same_strs (keys journal) journal_fields) task_failure) (\<lambda>_.
     bnd (task_path (get journal ''journal_path'')) (\<lambda>_.
     bnd (task_sha256 (get journal ''byte_hash'')) (\<lambda>_.
     bnd (task_uuid (get journal ''task_id'')) (\<lambda>_.
     require (is_pybool (get journal ''terminal'')) task_failure)))))"

definition validate_snapshot_collections :: "dict \<Rightarrow> unit res" where
  "validate_snapshot_collections snapshot =
     bnd (mapr (\<lambda>label. task_sha256 (get snapshot label))
            [''source_layout_digest'', ''target_layout_digest'', ''source_schema_bundle_digest'',
             ''target_schema_bundle_digest'']) (\<lambda>_.
     bnd (task_array (get snapshot ''metadata'')) (\<lambda>metadata.
     bnd (mapr check_metadata metadata) (\<lambda>_.
     bnd (task_array (get snapshot ''task_journals'')) (\<lambda>journals.
     bnd (mapr check_journal journals) (\<lambda>_. Inr ())))))"

section \<open>The findings\<close>

fun min_str :: "string list \<Rightarrow> string option" where
  "min_str [] = None"
| "min_str (s # ss) = Some (fold min ss s)"

definition finding_path :: "dict \<Rightarrow> string option res" where
  "finding_path finding =
     (if has_key finding ''current_path'' then bnd (task_path (get finding ''current_path'')) (\<lambda>p. Inr (Some p))
      else if has_key finding ''journal_path'' then bnd (task_path (get finding ''journal_path'')) (\<lambda>p. Inr (Some p))
      else if has_key finding ''normalized_path'' then bnd (task_path (get finding ''normalized_path'')) (\<lambda>p. Inr (Some p))
      else Inr None)"

definition collision_path :: "dict \<Rightarrow> string option res" where
  "collision_path finding =
     bnd (task_array (get finding ''normalized_aliases'')) (\<lambda>raws.
     bnd (mapr task_path raws) (\<lambda>aliases. Inr (min_str aliases)))"

text \<open>The status, mode and pins of a finding; only a task that is not archived has them.\<close>

definition finding_task :: "string \<Rightarrow> dict \<Rightarrow> (string option \<times> string option \<times> surface_pin list) res" where
  "finding_task kind finding =
     (if kind = ''non-archived-task'' then
        bnd (task_string (get finding ''lifecycle_status'')) (\<lambda>status.
        bnd (require (status \<in> set NON_ARCHIVED_STATUSES) task_failure) (\<lambda>_.
        bnd (task_string (get finding ''mode'')) (\<lambda>mode.
        bnd (surface_pins (get finding ''pinned_surfaces'')) (\<lambda>pins.
        Inr (Some status, Some mode, pins)))))
      else Inr (None, None, []))"

definition add_finding :: "finding_fact list \<Rightarrow> pyval \<Rightarrow> finding_fact list res" where
  "add_finding facts raw_finding =
     bnd (task_mapping raw_finding) (\<lambda>finding.
     bnd (task_string (get finding ''kind'')) (\<lambda>kind.
     bnd (require (case map_of FINDING_FIELDS kind of None \<Rightarrow> False
                   | Some names \<Rightarrow> same_strs (keys finding) names) task_failure) (\<lambda>_.
     bnd (task_string (get finding ''finding_id'')) (\<lambda>finding_id.
     bnd (require (finding_id \<notin> set (map ff_finding_id facts)) task_failure) (\<lambda>_.
     bnd (if has_key finding ''task_id'' then bnd (task_uuid (get finding ''task_id'')) (\<lambda>t. Inr (Some t))
          else Inr None) (\<lambda>task_id.
     bnd (finding_path finding) (\<lambda>path0.
     bnd (if kind = ''collision'' then collision_path finding else Inr path0) (\<lambda>path.
     bnd (finding_task kind finding) (\<lambda>(status, mode, pins).
     Inr (facts @ [\<lparr>ff_kind = kind, ff_finding_id = finding_id, ff_task_id = task_id, ff_path = path,
       ff_lifecycle_status = status, ff_mode = mode, ff_pinned_surfaces = pins\<rparr>]))))))))))"

definition parse_findings :: "dict \<Rightarrow> finding_fact list res" where
  "parse_findings doc =
     bnd (require (same_strs (keys doc) [''schema_id'', ''schema_version'', ''findings'']) task_failure) (\<lambda>_.
     bnd (require (py_eq (get doc ''schema_id'') (PStr ''agent-workflow.task-findings'') \<and>
                   py_eq (get doc ''schema_version'') (PInt 1)) task_failure) (\<lambda>_.
     bnd (task_array (get doc ''findings'')) (\<lambda>raws.
     foldr_res add_finding [] raws)))"

section \<open>Evidence\<close>

definition snapshot_fields :: "string list" where
  "snapshot_fields = [''schema_id'', ''schema_version'', ''source_layout_digest'',
     ''target_layout_digest'', ''source_schema_bundle_digest'', ''target_schema_bundle_digest'',
     ''tasks'', ''metadata'', ''task_journals'', ''finding_ids'', ''task_quiescence_digest'']"

text \<open>\<^verbatim>\<open>del projection[k]\<close> on a copy.\<close>

definition without :: "string \<Rightarrow> dict \<Rightarrow> dict" where
  "without k d = AList.delete k d"

text \<open>
  \<^verbatim>\<open>str(journal["journal_path"])\<close> is applied to journals whose path was checked to be a
  nonempty string before, so the conversion is the identity there.
\<close>

definition journals_by_path :: "pyval list \<Rightarrow> (string \<times> dict) list res" where
  "journals_by_path raws =
     bnd (mapr (\<lambda>raw. bnd (task_mapping raw) (\<lambda>j. bnd (lookup j ''journal_path'') (\<lambda>p.
            bnd (as_string task_failure p) (\<lambda>s. Inr (s, j))))) raws) (\<lambda>ps. Inr (dict_display ps))"

definition finding_agrees :: "(string \<times> task_fact) list \<Rightarrow> (string \<times> dict) list \<Rightarrow> finding_fact \<Rightarrow> bool" where
  "finding_agrees tasks journals f =
     ((ff_kind f = ''non-archived-task'' \<longrightarrow>
         (case map_of tasks (or_empty (ff_task_id f)) of
            None \<Rightarrow> False
          | Some t \<Rightarrow> Some (tf_current_path t) = ff_path f \<and> Some (tf_lifecycle_status t) = ff_lifecycle_status f \<and>
              Some (tf_mode t) = ff_mode f \<and> tf_pinned_surfaces t = ff_pinned_surfaces f)) \<and>
      (ff_kind f = ''unfinished-task-transaction'' \<longrightarrow>
         (case map_of journals (or_empty (ff_path f)) of
            None \<Rightarrow> False
          | Some j \<Rightarrow> get j ''terminal'' = PBool False)))"

definition validated_evidence :: "dict \<Rightarrow> dict \<Rightarrow> ((string \<times> task_fact) list \<times> finding_fact list) res" where
  "validated_evidence snapshot findings_document =
     bnd (require (same_strs (keys snapshot) snapshot_fields) task_failure) (\<lambda>_.
     bnd (require (py_eq (get snapshot ''schema_id'') (PStr ''agent-workflow.task-quiescence-snapshot'') \<and>
                   py_eq (get snapshot ''schema_version'') (PInt 1)) task_failure) (\<lambda>_.
     bnd (task_sha256 (get snapshot ''task_quiescence_digest'')) (\<lambda>expected_digest.
     bnd (digest ''agent-workflow.task-quiescence.v1''
            (PDict (without ''task_quiescence_digest'' snapshot))) (\<lambda>actual.
     bnd (require (actual = expected_digest) task_failure) (\<lambda>_.
     bnd (task_facts snapshot) (\<lambda>tasks.
     bnd (validate_snapshot_collections snapshot) (\<lambda>_.
     bnd (parse_findings findings_document) (\<lambda>findings.
     bnd (task_array (get snapshot ''finding_ids'')) (\<lambda>raw_finding_ids.
     bnd (require (list_all is_pystr raw_finding_ids) task_failure) (\<lambda>_.
     let finding_ids = strs_of raw_finding_ids in
     bnd (require (finding_ids = sort finding_ids \<and>
                   finding_ids = sort (map ff_finding_id findings)) task_failure) (\<lambda>_.
     bnd (task_array (get snapshot ''task_journals'')) (\<lambda>raw_journals.
     bnd (journals_by_path raw_journals) (\<lambda>journals.
     bnd (require (list_all (finding_agrees tasks journals) findings) task_failure) (\<lambda>_.
     Inr (tasks, findings)))))))))))))))"

definition evaluate_workspace_state_quiescence :: "dict \<Rightarrow> dict \<Rightarrow> workspace_task_state res" where
  "evaluate_workspace_state_quiescence snapshot findings =
     bnd (validated_evidence snapshot findings) (\<lambda>(_, facts).
     Inr \<lparr>ws_evaluator_id = WORKSPACE_STATE_EVALUATOR_ID, ws_evaluator_version = EVALUATOR_VERSION,
          ws_task_quiescence =
            (if list_ex (\<lambda>f. ff_kind f \<in> set AMBIGUOUS_KINDS) facts then ''ambiguous''
             else if list_ex (\<lambda>f. ff_kind f \<in> set BLOCKED_KINDS) facts then ''blocked''
             else ''quiescent''),
          ws_evidence_kinds = sorted_set (map ff_kind facts)\<rparr>)"

section \<open>The task gate\<close>

definition blocker :: "string \<Rightarrow> finding_fact \<Rightarrow> string option \<Rightarrow> task_gate_blocker" where
  "blocker code f surface_id =
     \<lparr>tb_code = code, tb_finding_id = ff_finding_id f, tb_task_id = ff_task_id f, tb_path = ff_path f,
      tb_surface_id = surface_id, tb_authority_id = None\<rparr>"

definition surface_changes_by_id :: "candidate_impact \<Rightarrow> (string \<times> surface_change) list" where
  "surface_changes_by_id impact = dict_display (map (\<lambda>c. (sc_surface_id c, c)) (ci_surface_changes impact))"

fun task_blocker_loop ::
    "(string \<times> surface_change) list \<Rightarrow> (string \<times> string) list \<Rightarrow> bool \<Rightarrow> finding_fact \<Rightarrow> string list
       \<Rightarrow> task_gate_blocker option" where
  "task_blocker_loop changes pins no_authority f [] = None"
| "task_blocker_loop changes pins no_authority f (s # ids) =
     (case (map_of changes s, map_of pins s) of
        (Some change, Some pinned_digest) \<Rightarrow>
          if sc_contract_before_digest change \<noteq> pinned_digest
          then Some (blocker ''AWP_WORKSPACE_TASK_LAYOUT_AMBIGUOUS'' f (Some s))
          else if sc_change_kind change = ''repair'' then
            (if \<not> (sc_contract_before_digest change = sc_after_digest change \<and>
                   sc_after_digest change = pinned_digest \<and> no_authority)
             then Some (blocker ''AWP_WORKSPACE_TASK_LAYOUT_AMBIGUOUS'' f (Some s))
             else task_blocker_loop changes pins no_authority f ids)
          else if sc_change_kind change = ''contract-change'' \<and> sc_after_digest change \<noteq> pinned_digest
          then Some (blocker ''AWP_WORKSPACE_ACTIVE_TASK_BLOCK'' f (Some s))
          else task_blocker_loop changes pins no_authority f ids
      | _ \<Rightarrow> task_blocker_loop changes pins no_authority f ids)"

definition task_blocker :: "finding_fact \<Rightarrow> candidate_impact \<Rightarrow> task_gate_blocker option" where
  "task_blocker f impact =
     (let changes = surface_changes_by_id impact;
          pin_by_id = dict_display (map (\<lambda>p. (sp_surface_id p, sp_surface_digest p)) (ff_pinned_surfaces f));
          matching_ids = sorted_set (filter (has_key pin_by_id) (keys changes))
      in case task_blocker_loop changes pin_by_id (ci_authority_changes impact = []) f matching_ids of
           Some b \<Rightarrow> Some b
         | None \<Rightarrow> if ff_mode f = Some ''speckit-superpowers'' \<and> ci_contract_changing impact
                   then Some (blocker ''AWP_WORKSPACE_ACTIVE_TASK_BLOCK'' f None) else None)"

definition class_order :: "(string \<times> nat) list" where
  "class_order = [(''AWP_WORKSPACE_TASK_LAYOUT_AMBIGUOUS'', 0), (''AWP_WORKSPACE_TASK_RECOVERY_BLOCK'', 1),
     (''AWP_WORKSPACE_ACTIVE_TASK_BLOCK'', 2), (''AWP_WORKSPACE_LAYOUT_STATE_STRANDED'', 3)]"

type_synonym blocker_key = "nat \<times> string \<times> string \<times> string \<times> string \<times> string"

definition blocker_sort_key :: "task_gate_blocker \<Rightarrow> blocker_key res" where
  "blocker_sort_key b = bnd (lookup class_order (tb_code b)) (\<lambda>c.
     Inr (c, or_empty (tb_task_id b), or_empty (tb_path b), or_empty (tb_surface_id b),
          or_empty (tb_authority_id b), tb_finding_id b))"

definition sort_blockers :: "task_gate_blocker list \<Rightarrow> task_gate_blocker list res" where
  "sort_blockers bs =
     bnd (mapr (\<lambda>b. bnd (blocker_sort_key b) (\<lambda>k. Inr (k, b))) bs) (\<lambda>kbs.
     Inr (map snd (sort_key fst kbs)))"

text \<open>The blocker one finding contributes: one round of the loop over the facts.\<close>

definition finding_blockers ::
    "string \<Rightarrow> candidate_impact \<Rightarrow> bool \<Rightarrow> finding_fact \<Rightarrow> task_gate_blocker list" where
  "finding_blockers operation impact layout_changing f =
     (if ff_kind f \<in> set AMBIGUOUS_KINDS then [blocker ''AWP_WORKSPACE_TASK_LAYOUT_AMBIGUOUS'' f None]
      else if ff_kind f = ''unfinished-task-transaction''
      then [blocker ''AWP_WORKSPACE_TASK_RECOVERY_BLOCK'' f None]
      else if ff_kind f = ''non-archived-task'' then
        (if operation \<in> {''init'', ''workspace-migrate''}
         then [blocker ''AWP_WORKSPACE_ACTIVE_TASK_BLOCK'' f None]
         else (case task_blocker f impact of None \<Rightarrow> [] | Some b \<Rightarrow> [b]))
      else if ff_kind f = ''layout-state-stranded'' \<and>
              (operation \<in> {''init'', ''workspace-migrate''} \<or> layout_changing)
      then [blocker ''AWP_WORKSPACE_LAYOUT_STATE_STRANDED'' f None]
      else [])"

definition evaluate_task_gate :: "string \<Rightarrow> candidate_impact \<Rightarrow> dict \<Rightarrow> dict \<Rightarrow> task_gate_result res" where
  "evaluate_task_gate operation impact snapshot findings =
     bnd (require (operation \<in> set task_operations) task_failure) (\<lambda>_.
     bnd (validated_evidence snapshot findings) (\<lambda>(_, facts).
     if operation = ''sync'' \<and> ci_impact_kind impact = ''none'' \<and>
        ci_authority_changes impact = [] \<and> ci_surface_changes impact = []
     then Inr \<lparr>tg_evaluator_id = TASK_GATE_EVALUATOR_ID, tg_evaluator_version = 1, tg_operation = operation,
               tg_blockers = [], tg_primary_evaluator_blocker = None\<rparr>
     else
       (let layout_changing = list_ex (\<lambda>c. ac_authority_id c = ''trellis-layout'') (ci_authority_changes impact) in
        bnd (sort_blockers (concat (map (finding_blockers operation impact layout_changing) facts))) (\<lambda>ordered.
        Inr \<lparr>tg_evaluator_id = TASK_GATE_EVALUATOR_ID, tg_evaluator_version = EVALUATOR_VERSION,
             tg_operation = operation, tg_blockers = ordered,
             tg_primary_evaluator_blocker = (case ordered of [] \<Rightarrow> None | b # _ \<Rightarrow> Some (tb_code b))\<rparr>))))"

section \<open>Parsed evidence\<close>

lemma validated_evidenceE:
  assumes "validated_evidence snap fd = Inr (tasks, facts)"
  obtains h raws ids js where
    "get snap ''task_quiescence_digest'' = PStr h"
    "digest ''agent-workflow.task-quiescence.v1'' (PDict (without ''task_quiescence_digest'' snap)) = Inr h"
    "set (keys snap) = set snapshot_fields"
    "task_facts snap = Inr tasks" "parse_findings fd = Inr facts"
    "get snap ''finding_ids'' = PList (map PStr ids)" "ids = sort (map ff_finding_id facts)"
    "get snap ''task_journals'' = PList raws" "journals_by_path raws = Inr js"
    "list_all (finding_agrees tasks js) facts"
proof -
  from assms obtain h raws rids js where *:
    "get snap ''task_quiescence_digest'' = PStr h"
    "digest ''agent-workflow.task-quiescence.v1'' (PDict (without ''task_quiescence_digest'' snap)) = Inr h"
    "set (keys snap) = set snapshot_fields"
    "task_facts snap = Inr tasks" "parse_findings fd = Inr facts"
    "get snap ''finding_ids'' = PList rids" "list_all is_pystr rids"
    "strs_of rids = sort (map ff_finding_id facts)"
    "get snap ''task_journals'' = PList raws" "journals_by_path raws = Inr js"
    "list_all (finding_agrees tasks js) facts"
    unfolding validated_evidence_def
    by (auto simp only: res_simps Let_def task_check_defs same_strs_iff sum.inject prod.inject)
  have "get snap ''finding_ids'' = PList (map PStr (strs_of rids))"
    using *(6,7) by (simp add: map_strs_of)
  with * that show thesis by blast
qed

text \<open>What holds of every parsed finding, and of the facts as a whole.\<close>

definition finding_ok :: "finding_fact \<Rightarrow> bool" where
  "finding_ok f = (ff_kind f \<in> set (map fst FINDING_FIELDS) \<and>
     (ff_kind f = ''non-archived-task'' \<longrightarrow> distinct (map sp_surface_id (ff_pinned_surfaces f))))"

lemma surface_pins_distinct: "surface_pins v = Inr pins \<Longrightarrow> distinct (map sp_surface_id pins) \<and> sorted (map sp_surface_id pins)"
proof -
  assume "surface_pins v = Inr pins"
  then have *: "pins = sort_key sp_surface_id pins" "length (remdups (map sp_surface_id pins)) = length pins"
    by (auto simp: surface_pins_def res_simps Let_def)
  have "sorted (map sp_surface_id (sort_key sp_surface_id pins))" by simp
  with * show ?thesis by (metis length_map length_remdups_eq remdups_id_iff_distinct)
qed

lemma add_finding_inv:
  assumes "add_finding facts raw = Inr facts'" and "list_all finding_ok facts \<and> distinct (map ff_finding_id facts)"
  shows "list_all finding_ok facts' \<and> distinct (map ff_finding_id facts')"
proof -
  obtain finding kind fid tid path status mode pins where *:
    "case map_of FINDING_FIELDS kind of None \<Rightarrow> False | Some names \<Rightarrow> same_strs (keys finding) names" "fid \<notin> set (map ff_finding_id facts)"
    "finding_task kind finding = Inr (status, mode, pins)"
    "facts' = facts @ [\<lparr>ff_kind = kind, ff_finding_id = fid, ff_task_id = tid, ff_path = path,
       ff_lifecycle_status = status, ff_mode = mode, ff_pinned_surfaces = pins\<rparr>]"
    using assms(1) unfolding add_finding_def
    by (auto simp only: res_simps sum.inject split_paired_Ex prod.case)
  have "kind = ''non-archived-task'' \<longrightarrow> distinct (map sp_surface_id pins)"
    using *(3) surface_pins_distinct by (auto simp: finding_task_def res_simps)
  moreover have "kind \<in> set (map fst FINDING_FIELDS)"
    using *(1) map_of_eq_None_iff [of FINDING_FIELDS kind] by (auto split: option.splits)
  ultimately show ?thesis using * assms(2) by (simp add: finding_ok_def)
qed

lemma parse_findings_ok:
  assumes "parse_findings fd = Inr facts"
  shows "list_all finding_ok facts" and "distinct (map ff_finding_id facts)"
proof -
  obtain raws where "foldr_res add_finding [] raws = Inr facts"
    using assms by (auto simp: parse_findings_def res_simps)
  then have "list_all finding_ok facts \<and> distinct (map ff_finding_id facts)"
    by (rule foldr_res_inv) (auto dest: add_finding_inv)
  then show "list_all finding_ok facts" and "distinct (map ff_finding_id facts)" by auto
qed

definition tasks_ok :: "(string \<times> task_fact) list \<times> string list \<Rightarrow> bool" where
  "tasks_ok st = (case st of (tasks, paths) \<Rightarrow>
     distinct (keys tasks) \<and> distinct (map (tf_current_path o snd) tasks) \<and>
     set paths = set (map (tf_current_path o snd) tasks) \<and>
     list_all (\<lambda>(k, t). k = tf_task_id t \<and> uuid_format k \<and> canonical_path (tf_current_path t) \<and>
       distinct (map sp_surface_id (tf_pinned_surfaces t))) tasks)"

lemma task_fact_of_ok:
  assumes "task_fact_of raw = Inr t"
  shows "uuid_format (tf_task_id t) \<and> canonical_path (tf_current_path t) \<and>
    distinct (map sp_surface_id (tf_pinned_surfaces t))"
proof -
  obtain task tid path pins status mode where
    "task_uuid (get task ''task_id'') = Inr tid" "task_path (get task ''current_path'') = Inr path"
    "surface_pins (get task ''task_contract_surfaces'') = Inr pins"
    "t = \<lparr>tf_task_id = tid, tf_current_path = path, tf_lifecycle_status = status,
          tf_mode = mode, tf_pinned_surfaces = pins\<rparr>"
    using assms unfolding task_fact_of_def by (auto simp only: bnd_Inr_iff sum.inject)
  then show ?thesis
    using surface_pins_distinct by (auto simp: task_check_defs res_simps)
qed

lemma add_task_fact_inv:
  assumes "add_task_fact st raw = Inr st'" and "tasks_ok st"
  shows "tasks_ok st'"
proof -
  obtain tasks paths where st: "st = (tasks, paths)" by (cases st)
  obtain t where t: "task_fact_of raw = Inr t" "tf_task_id t \<notin> set (keys tasks)" "tf_current_path t \<notin> set paths"
    "st' = (AList.update (tf_task_id t) t tasks, tf_current_path t # paths)"
    using assms(1) by (auto simp: st add_task_fact_def res_simps has_key_def keys_def)
  show ?thesis
    using assms(2) t task_fact_of_ok [OF t(1)]
    by (auto simp: st tasks_ok_def update_new) (auto simp: keys_def)
qed

lemma task_facts_ok:
  assumes "task_facts snap = Inr tasks"
  shows "\<exists>paths. tasks_ok (tasks, paths)"
proof -
  obtain raws st where fold: "foldr_res add_task_fact ([], []) raws = Inr st" and tasks: "tasks = fst st"
    using assms by (auto simp: task_facts_def res_simps)
  have "tasks_ok ([], [])" by (simp add: tasks_ok_def keys_def)
  with fold have "tasks_ok st"
    by (rule foldr_res_inv) (rule add_task_fact_inv)
  with tasks show ?thesis by (cases st) auto
qed

lemma kinds_covered:
  "map fst FINDING_FIELDS = AMBIGUOUS_KINDS @ BLOCKED_KINDS"
  by (simp add: FINDING_FIELDS_def AMBIGUOUS_KINDS_def BLOCKED_KINDS_def)

section \<open>The order of blockers\<close>

definition blocker_class :: "string \<Rightarrow> nat" where
  "blocker_class code = (case map_of class_order code of None \<Rightarrow> 4 | Some n \<Rightarrow> n)"

definition bkey :: "task_gate_blocker \<Rightarrow> blocker_key" where
  "bkey b = (blocker_class (tb_code b), or_empty (tb_task_id b), or_empty (tb_path b),
     or_empty (tb_surface_id b), or_empty (tb_authority_id b), tb_finding_id b)"

lemma blocker_sort_key_ok: "tb_code b \<in> set (map fst class_order) \<Longrightarrow> blocker_sort_key b = Inr (bkey b)"
  by (auto simp: blocker_sort_key_def bkey_def blocker_class_def lookup_def class_order_def)

lemma sort_key_fst_pair: "map snd (sort_key fst (map (\<lambda>x. (k x, x)) xs)) = sort_key k xs"
  by (simp add: sort_key_map [where f = k] comp_def)

lemma sort_blockers_ok:
  assumes "list_all (\<lambda>b. tb_code b \<in> set (map fst class_order)) bs"
  shows "sort_blockers bs = Inr (sort_key bkey bs)"
proof -
  have "mapr (\<lambda>b. bnd (blocker_sort_key b) (\<lambda>k. Inr (k, b))) bs = Inr (map (\<lambda>b. (bkey b, b)) bs)"
    using assms by (intro mapr_pure) (simp add: blocker_sort_key_ok list_all_iff)
  then show ?thesis by (simp add: sort_blockers_def sort_key_fst_pair)
qed

lemma task_blocker_loop_code:
  "task_blocker_loop ch pins na f ids = Some b \<Longrightarrow>
     tb_code b \<in> {''AWP_WORKSPACE_TASK_LAYOUT_AMBIGUOUS'', ''AWP_WORKSPACE_ACTIVE_TASK_BLOCK''} \<and>
     tb_finding_id b = ff_finding_id f"
  by (induction ids) (auto simp: blocker_def split: option.splits if_splits)

lemma task_blocker_code:
  "task_blocker f impact = Some b \<Longrightarrow>
     tb_code b \<in> {''AWP_WORKSPACE_TASK_LAYOUT_AMBIGUOUS'', ''AWP_WORKSPACE_ACTIVE_TASK_BLOCK''} \<and>
     tb_finding_id b = ff_finding_id f"
  by (auto simp: task_blocker_def Let_def blocker_def dest: task_blocker_loop_code split: option.splits if_splits)

lemma finding_blockers_code:
  "b \<in> set (finding_blockers op impact lc f) \<Longrightarrow>
     tb_code b \<in> set (map fst class_order) \<and> tb_finding_id b = ff_finding_id f"
proof -
  assume b: "b \<in> set (finding_blockers op impact lc f)"
  then have "tb_code b \<in> {''AWP_WORKSPACE_TASK_LAYOUT_AMBIGUOUS'', ''AWP_WORKSPACE_TASK_RECOVERY_BLOCK'',
      ''AWP_WORKSPACE_ACTIVE_TASK_BLOCK'', ''AWP_WORKSPACE_LAYOUT_STATE_STRANDED''} \<and> tb_finding_id b = ff_finding_id f"
    unfolding finding_blockers_def
    by (auto simp: blocker_def split: if_splits option.splits dest: task_blocker_code task_blocker_code [OF sym])
  then show ?thesis by (auto simp: class_order_def)
qed

definition all_blockers :: "string \<Rightarrow> candidate_impact \<Rightarrow> finding_fact list \<Rightarrow> task_gate_blocker list" where
  "all_blockers op impact facts = concat (map (finding_blockers op impact
     (list_ex (\<lambda>c. ac_authority_id c = ''trellis-layout'') (ci_authority_changes impact))) facts)"

lemma all_blockers_code:
  "b \<in> set (all_blockers op impact facts) \<Longrightarrow>
     tb_code b \<in> set (map fst class_order) \<and> tb_finding_id b \<in> ff_finding_id ` set facts"
  unfolding all_blockers_def using finding_blockers_code by fastforce

definition noop_sync :: "string \<Rightarrow> candidate_impact \<Rightarrow> bool" where
  "noop_sync op impact = (op = ''sync'' \<and> ci_impact_kind impact = ''none'' \<and>
     ci_authority_changes impact = [] \<and> ci_surface_changes impact = [])"

lemma evaluate_task_gate_eq:
  assumes "op \<in> set task_operations" and "validated_evidence snap fd = Inr (tasks, facts)"
  shows "evaluate_task_gate op impact snap fd = Inr
    (let bs = (if noop_sync op impact then [] else sort_key bkey (all_blockers op impact facts)) in
     \<lparr>tg_evaluator_id = TASK_GATE_EVALUATOR_ID, tg_evaluator_version = 1, tg_operation = op,
      tg_blockers = bs, tg_primary_evaluator_blocker = (case bs of [] \<Rightarrow> None | b # _ \<Rightarrow> Some (tb_code b))\<rparr>)"
proof -
  have "list_all (\<lambda>b. tb_code b \<in> set (map fst class_order)) (all_blockers op impact facts)"
    using all_blockers_code by (auto simp: list_all_iff)
  from sort_blockers_ok [OF this] assms show ?thesis
    by (simp add: evaluate_task_gate_def Let_def require_def noop_sync_def all_blockers_def [symmetric] EVALUATOR_VERSION_def)
qed

lemma evaluate_task_gateE:
  assumes "evaluate_task_gate op impact snap fd = Inr r"
  obtains tasks facts where "op \<in> set task_operations" "validated_evidence snap fd = Inr (tasks, facts)"
    "tg_blockers r = (if noop_sync op impact then [] else sort_key bkey (all_blockers op impact facts))"
    "tg_primary_evaluator_blocker r = (case tg_blockers r of [] \<Rightarrow> None | b # _ \<Rightarrow> Some (tb_code b))"
proof -
  obtain tasks facts where *: "op \<in> set task_operations" "validated_evidence snap fd = Inr (tasks, facts)"
    using assms by (auto simp: evaluate_task_gate_def res_simps)
  from that [OF this] evaluate_task_gate_eq [OF *, of impact] assms show thesis
    by (auto simp: Let_def)
qed


section \<open>The workspace state and the gate\<close>

lemma finding_kind_cases:
  assumes "finding_ok f"
  shows "ff_kind f \<in> set AMBIGUOUS_KINDS \<or> ff_kind f \<in> set BLOCKED_KINDS"
  using assms unfolding finding_ok_def kinds_covered by simp

lemma quiescent_iff_no_finding:
  assumes "validated_evidence snap fd = Inr (tasks, facts)"
    and "evaluate_workspace_state_quiescence snap fd = Inr ws"
  shows "ws_task_quiescence ws = ''quiescent'' \<longleftrightarrow> facts = []"
proof -
  have "list_all finding_ok facts"
    using assms(1) by (elim validated_evidenceE) (blast dest: parse_findings_ok)
  then have "facts \<noteq> [] \<Longrightarrow> list_ex (\<lambda>f. ff_kind f \<in> set AMBIGUOUS_KINDS) facts \<or>
      list_ex (\<lambda>f. ff_kind f \<in> set BLOCKED_KINDS) facts"
    using finding_kind_cases by (cases facts) auto
  then show ?thesis
    using assms by (auto simp: evaluate_workspace_state_quiescence_def split: if_splits)
qed

lemma fresh_start_blocks:
  assumes "finding_ok f" and "op \<in> {''init'', ''workspace-migrate''}"
  shows "finding_blockers op impact lc f \<noteq> []"
  using finding_kind_cases [OF assms(1)] assms(2)
  by (auto simp: finding_blockers_def BLOCKED_KINDS_def)

lemma all_blockers_empty_iff:
  "all_blockers op impact facts = [] \<longleftrightarrow> (\<forall>f \<in> set facts. finding_blockers op impact
     (list_ex (\<lambda>c. ac_authority_id c = ''trellis-layout'') (ci_authority_changes impact)) f = [])"
  by (simp add: all_blockers_def)

lemma sort_key_empty_iff [simp]: "sort_key f xs = [] \<longleftrightarrow> xs = []"
  by (metis length_0_conv length_sort)

text \<open>
  C25: The two evaluators agree on a fresh start: whenever the workspace state can be evaluated, the
  task gate of an init or a workspace migration can be too, and it has no blocker precisely when
  the workspace is quiescent, whatever the candidate impact is.
\<close>

theorem fresh_start_gate_iff_quiescent:
  assumes "evaluate_workspace_state_quiescence snap fd = Inr ws"
    and "op = ''init'' \<or> op = ''workspace-migrate''"
  shows "\<exists>r. evaluate_task_gate op impact snap fd = Inr r \<and>
    (tg_blockers r = [] \<longleftrightarrow> ws_task_quiescence ws = ''quiescent'')"
proof -
  obtain tasks facts where ev: "validated_evidence snap fd = Inr (tasks, facts)"
    using assms(1) by (auto simp: evaluate_workspace_state_quiescence_def res_simps)
  have op: "op \<in> set task_operations" "op \<in> {''init'', ''workspace-migrate''}" "\<not> noop_sync op impact"
    using assms(2) by (auto simp: task_operations_def noop_sync_def)
  have "list_all finding_ok facts"
    using ev by (elim validated_evidenceE) (blast dest: parse_findings_ok)
  then have "all_blockers op impact facts = [] \<longleftrightarrow> facts = []"
    using fresh_start_blocks [OF _ op(2)] unfolding all_blockers_empty_iff list_all_iff
    by (cases facts) auto
  with op show ?thesis
    by (simp add: evaluate_task_gate_eq [OF op(1) ev] Let_def quiescent_iff_no_finding [OF ev assms(1)])
qed

text \<open>
  A quiescent workspace is never blocked: every operation of the gate is evaluated without a
  blocker, for every candidate impact.
\<close>

theorem quiescent_never_blocked:
  assumes "evaluate_workspace_state_quiescence snap fd = Inr ws"
    and "ws_task_quiescence ws = ''quiescent''" and "op \<in> set task_operations"
  shows "\<exists>r. evaluate_task_gate op impact snap fd = Inr r \<and>
    tg_blockers r = [] \<and> tg_primary_evaluator_blocker r = None"
proof -
  obtain tasks facts where ev: "validated_evidence snap fd = Inr (tasks, facts)"
    using assms(1) by (auto simp: evaluate_workspace_state_quiescence_def res_simps)
  then have "facts = []"
    using quiescent_iff_no_finding assms by blast
  then show ?thesis
    by (simp add: evaluate_task_gate_eq [OF assms(3) ev] Let_def all_blockers_def)
qed

text \<open>
  The blockers of a gate are in the order of the published sort key (class, task, path,
  surface, authority, finding), the primary blocker is the code of the first one, and every
  blocker names a finding of the evidence.
\<close>

theorem gate_blockers_ordered:
  assumes "evaluate_task_gate op impact snap fd = Inr r"
    and "parse_findings fd = Inr facts"
  shows "sorted (map bkey (tg_blockers r)) \<and>
    tg_primary_evaluator_blocker r = map_option tb_code (find (\<lambda>_. True) (tg_blockers r)) \<and>
    list_all (\<lambda>b. blocker_sort_key b = Inr (bkey b)) (tg_blockers r) \<and>
    tb_finding_id ` set (tg_blockers r) \<subseteq> ff_finding_id ` set facts"
proof -
  obtain tasks facts' where ev: "validated_evidence snap fd = Inr (tasks, facts')"
    and bs: "tg_blockers r = (if noop_sync op impact then [] else sort_key bkey (all_blockers op impact facts'))"
    and prim: "tg_primary_evaluator_blocker r = (case tg_blockers r of [] \<Rightarrow> None | b # _ \<Rightarrow> Some (tb_code b))"
    using assms(1) by (rule evaluate_task_gateE)
  have "facts' = facts"
    using ev assms(2) by (elim validated_evidenceE) simp
  then have codes: "tb_code b \<in> set (map fst class_order) \<and> tb_finding_id b \<in> ff_finding_id ` set facts"
    if "b \<in> set (tg_blockers r)" for b
    using that bs all_blockers_code by (auto split: if_splits)
  have "tg_primary_evaluator_blocker r = map_option tb_code (find (\<lambda>_. True) (tg_blockers r))"
    using prim by (cases "tg_blockers r") auto
  moreover have "sorted (map bkey (tg_blockers r))" by (simp add: bs)
  ultimately show ?thesis
    using codes blocker_sort_key_ok by (auto simp: list_all_iff)
qed

lemma sorted_key_head_least:
  assumes "sorted (map k xs)" and "x \<in> set xs"
  shows "\<exists>y ys. xs = y # ys \<and> k y \<le> k x"
  using assms by (cases xs) auto

text \<open>
  Ambiguous evidence dominates: unless the operation is a sync without any change, one finding
  of an ambiguous kind makes the layout-ambiguous code the primary blocker of every operation.
\<close>

theorem ambiguous_evidence_dominates:
  assumes "evaluate_task_gate op impact snap fd = Inr r"
    and "\<not> (op = ''sync'' \<and> ci_authority_changes impact = [] \<and> ci_surface_changes impact = [])"
    and "parse_findings fd = Inr facts" and "f \<in> set facts" and "ff_kind f \<in> set AMBIGUOUS_KINDS"
  shows "tg_primary_evaluator_blocker r = Some ''AWP_WORKSPACE_TASK_LAYOUT_AMBIGUOUS''"
proof -
  obtain tasks facts' where ev: "validated_evidence snap fd = Inr (tasks, facts')"
    and bs: "tg_blockers r = (if noop_sync op impact then [] else sort_key bkey (all_blockers op impact facts'))"
    and prim: "tg_primary_evaluator_blocker r = (case tg_blockers r of [] \<Rightarrow> None | b # _ \<Rightarrow> Some (tb_code b))"
    using assms(1) by (rule evaluate_task_gateE)
  have "facts' = facts"
    using ev assms(3) by (elim validated_evidenceE) simp
  then have bs: "tg_blockers r = sort_key bkey (all_blockers op impact facts)"
    using assms(2) bs by (auto simp: noop_sync_def)
  let ?b = "blocker ''AWP_WORKSPACE_TASK_LAYOUT_AMBIGUOUS'' f None"
  have "?b \<in> set (all_blockers op impact facts)"
    using assms(4,5) by (auto simp: all_blockers_def finding_blockers_def)
  then obtain y ys where y: "tg_blockers r = y # ys" and le: "bkey y \<le> bkey ?b"
    using sorted_key_head_least [of bkey "tg_blockers r" ?b] bs by auto
  have "blocker_class (tb_code y) = 0"
    using le by (simp add: bkey_def blocker_def blocker_class_def class_order_def less_eq_prod_def)
  moreover have "y \<in> set (sort_key bkey (all_blockers op impact facts))"
    using y bs by (metis list.set_intros(1))
  then have "tb_code y \<in> set (map fst class_order)"
    using all_blockers_code by auto
  ultimately have "tb_code y = ''AWP_WORKSPACE_TASK_LAYOUT_AMBIGUOUS''"
    by (auto simp: blocker_class_def class_order_def)
  then show ?thesis using prim y by simp
qed


section \<open>Pinned surfaces\<close>

lemma task_blocker_loop_None:
  assumes "task_blocker_loop ch pins na f ids = None" and "s \<in> set ids"
    and "map_of ch s = Some c" and "map_of pins s = Some h"
  shows "sc_contract_before_digest c = h \<and>
    (sc_change_kind c \<in> {''repair'', ''contract-change''} \<longrightarrow> sc_after_digest c = h)"
  using assms(1,2)
proof (induction ids)
  case (Cons x ids)
  show ?case
  proof (cases "s = x")
    case True
    with Cons.prems(1) assms(3,4) show ?thesis
      by (simp split: if_splits)
  next
    case False
    with Cons.prems have "s \<in> set ids" by simp
    moreover have "task_blocker_loop ch pins na f ids = None"
      using Cons.prems(1) by (simp split: option.splits if_splits)
    ultimately show ?thesis using Cons.IH by blast
  qed
qed simp

lemma task_blocker_None:
  assumes "task_blocker f impact = None"
    and "distinct (map sc_surface_id (ci_surface_changes impact))"
    and "distinct (map sp_surface_id (ff_pinned_surfaces f))"
    and "c \<in> set (ci_surface_changes impact)" and "p \<in> set (ff_pinned_surfaces f)"
    and "sc_surface_id c = sp_surface_id p"
  shows "sc_contract_before_digest c = sp_surface_digest p \<and>
    (sc_change_kind c \<in> {''repair'', ''contract-change''} \<longrightarrow> sc_after_digest c = sp_surface_digest p)"
proof -
  let ?ch = "surface_changes_by_id impact"
  let ?pins = "dict_display (map (\<lambda>p. (sp_surface_id p, sp_surface_digest p)) (ff_pinned_surfaces f))"
  have ch: "map_of ?ch (sp_surface_id p) = Some c"
    using assms(2,4,6) by (simp add: surface_changes_by_id_def map_of_dict_display_distinct comp_def map_of_eq_Some_iff
        image_iff)
  have pins: "map_of ?pins (sp_surface_id p) = Some (sp_surface_digest p)"
    using assms(3,5) by (simp add: map_of_dict_display_distinct comp_def map_of_eq_Some_iff)
  have "sp_surface_id p \<in> set (sorted_set (filter (has_key ?pins) (keys ?ch)))"
    using ch pins has_key_iff [of ?ch "sp_surface_id p"] has_key_iff [of ?pins "sp_surface_id p"]
    by (auto simp: has_key_def keys_def)
  moreover have "task_blocker_loop ?ch ?pins (ci_authority_changes impact = []) f
      (sorted_set (filter (has_key ?pins) (keys ?ch))) = None"
    using assms(1) by (simp add: task_blocker_def Let_def split: option.splits if_splits)
  ultimately show ?thesis
    using task_blocker_loop_None ch pins by blast
qed

lemma impact_change_facts:
  assumes "compute_candidate_impact cc os ir = Inr ci"
  shows "distinct (map sc_surface_id (ci_surface_changes ci))"
    and "c \<in> set (ci_surface_changes ci) \<Longrightarrow> sc_change_kind c = ''repair'' \<or>
      (sc_change_kind c = ''contract-change'' \<and> sc_contract_before_digest c \<noteq> sc_after_digest c)"
proof -
  obtain op ca da cur obs cand g g' scs where
    ch: "operation_surface_changes (op = ''repair'') (authority_changes ca da) g g' cur obs cand ir = Inr scs"
    and fin: "finish_impact (authority_changes ca da) scs = Inr ci"
    using assms by (rule compute_candidate_impactE)
  have scs: "ci_surface_changes ci = scs"
    using fin by (auto simp: finish_impact_Inr Let_def)
  have "distinct (map sc_surface_id scs) \<and> (\<forall>c \<in> set scs. sc_change_kind c = ''repair'' \<or>
      (sc_change_kind c = ''contract-change'' \<and> sc_contract_before_digest c \<noteq> sc_after_digest c))"
  proof (cases "op = ''repair''")
    case True
    then show ?thesis
      using ch impact_string_set_sorted
      by (auto simp: operation_surface_changes_def res_simps comp_def dest!: repair_changes_Inr)
  next
    case False
    then show ?thesis
      using ch by (auto simp: operation_surface_changes_def res_simps contract_changes_Inr_iff surface_delta_def comp_def)
  qed
  then show "distinct (map sc_surface_id (ci_surface_changes ci))"
    and "c \<in> set (ci_surface_changes ci) \<Longrightarrow> sc_change_kind c = ''repair'' \<or>
      (sc_change_kind c = ''contract-change'' \<and> sc_contract_before_digest c \<noteq> sc_after_digest c)"
    by (auto simp: scs)
qed

lemma admitted_gate_pins:
  assumes "compute_candidate_impact cc os ir = Inr ci"
    and "evaluate_task_gate op ci snap fd = Inr r" and "tg_blockers r = []"
    and "parse_findings fd = Inr facts" and "f \<in> set facts" and "ff_kind f = ''non-archived-task''"
    and "p \<in> set (ff_pinned_surfaces f)" and "c \<in> set (ci_surface_changes ci)"
    and "sc_surface_id c = sp_surface_id p"
  shows "sc_change_kind c = ''repair'' \<and> sc_contract_before_digest c = sp_surface_digest p \<and>
    sc_after_digest c = sp_surface_digest p"
proof -
  obtain tasks facts' where ev: "validated_evidence snap fd = Inr (tasks, facts')"
    and bs: "tg_blockers r = (if noop_sync op ci then [] else sort_key bkey (all_blockers op ci facts'))"
    using assms(2) by (rule evaluate_task_gateE)
  have facts: "facts' = facts" "list_all finding_ok facts"
    using ev assms(4) parse_findings_ok by (elim validated_evidenceE, simp)+
  have "\<not> noop_sync op ci"
    using assms(8) by (auto simp: noop_sync_def)
  then have "all_blockers op ci facts = []"
    using bs assms(3) facts(1) sort_key_empty_iff [of bkey "all_blockers op ci facts"] by simp
  with assms(5) have "finding_blockers op ci
      (list_ex (\<lambda>c. ac_authority_id c = ''trellis-layout'') (ci_authority_changes ci)) f = []"
    unfolding all_blockers_empty_iff by blast
  then have "task_blocker f ci = None"
    using assms(6) by (auto simp: finding_blockers_def AMBIGUOUS_KINDS_def split: if_splits option.splits)
  moreover have "distinct (map sp_surface_id (ff_pinned_surfaces f))"
    using facts assms(5,6) by (auto simp: list_all_iff finding_ok_def)
  ultimately have "sc_contract_before_digest c = sp_surface_digest p \<and>
      (sc_change_kind c \<in> {''repair'', ''contract-change''} \<longrightarrow> sc_after_digest c = sp_surface_digest p)"
    using task_blocker_None impact_change_facts(1) [OF assms(1)] assms(7-9) by blast
  then show ?thesis
    using impact_change_facts(2) [OF assms(1,8)] by auto
qed

text \<open>
  C1: A gate without blockers protects running tasks: of a computed impact that it admits, every
  change of a surface that some task which is not archived has pinned is a repair that puts the
  surface back to exactly the pinned digest. No admitted operation changes the contract of a
  pinned surface.
\<close>

theorem admitted_gate_protects_pins:
  assumes "compute_candidate_impact cc os ir = Inr ci"
    and "evaluate_task_gate op ci snap fd = Inr r" and "tg_blockers r = []"
    and "parse_findings fd = Inr facts" and "f \<in> set facts" and "ff_kind f = ''non-archived-task''"
    and "p \<in> set (ff_pinned_surfaces f)" and "c \<in> set (ci_surface_changes ci)"
    and "sc_surface_id c = sp_surface_id p"
  shows "sc_change_kind c = ''repair'' \<and> sc_contract_before_digest c = sp_surface_digest p \<and>
    sc_after_digest c = sp_surface_digest p"
  by (rule admitted_gate_pins [OF assms])


lemma repair_task_blocker_None:
  assumes "ci_authority_changes impact = []" and "\<not> ci_contract_changing impact"
    and "list_all (\<lambda>c. sc_change_kind c = ''repair'' \<and> sc_after_digest c = sc_contract_before_digest c)
           (ci_surface_changes impact)"
    and "list_all (\<lambda>c. \<forall>p \<in> set (ff_pinned_surfaces f).
           sp_surface_id p = sc_surface_id c \<longrightarrow> sp_surface_digest p = sc_contract_before_digest c)
           (ci_surface_changes impact)"
  shows "task_blocker f impact = None"
proof -
  let ?ch = "surface_changes_by_id impact"
  let ?pins = "dict_display (map (\<lambda>p. (sp_surface_id p, sp_surface_digest p)) (ff_pinned_surfaces f))"
  have ch: "c \<in> set (ci_surface_changes impact) \<and> sc_surface_id c = s" if "map_of ?ch s = Some c" for c s
    using map_of_SomeD [of "rev (map (\<lambda>c. (sc_surface_id c, c)) (ci_surface_changes impact))" s c] that
    by (auto simp: surface_changes_by_id_def map_of_dict_display)
  have pin: "\<exists>p \<in> set (ff_pinned_surfaces f). sp_surface_id p = s \<and> sp_surface_digest p = h"
    if "map_of ?pins s = Some h" for s h
    using map_of_SomeD [of "rev (map (\<lambda>p. (sp_surface_id p, sp_surface_digest p)) (ff_pinned_surfaces f))" s h] that
    by (auto simp: map_of_dict_display)
  have agree: "sc_change_kind c = ''repair'' \<and> sc_contract_before_digest c = h \<and> sc_after_digest c = h"
    if "map_of ?ch s = Some c" "map_of ?pins s = Some h" for s c h
    using ch [OF that(1)] pin [OF that(2)] assms(3,4) unfolding list_all_iff by metis
  have "task_blocker_loop ?ch ?pins True f ids = None" for ids
  proof (induction ids)
    case (Cons s ids)
    show ?case
    proof (cases "map_of ?ch s")
      case (Some c)
      then show ?thesis
        using Cons agree [of s c] by (cases "map_of ?pins s") simp_all
    qed (simp add: Cons)
  qed simp
  then show ?thesis
    using assms(1,2) by (simp add: task_blocker_def Let_def)
qed

lemma repair_gate_ok:
  assumes "compute_candidate_impact cc os ir = Inr ci" and "get ir ''operation'' = PStr ''repair''"
    and "surface_map (get cc ''surface_digests'') = Inr cur"
    and "validated_evidence snap fd = Inr (tasks, facts)"
    and "list_all (\<lambda>f. ff_kind f = ''non-archived-task'' \<and>
      list_all (\<lambda>p. sp_surface_digest p = value_at cur (sp_surface_id p)) (ff_pinned_surfaces f)) facts"
  shows "\<exists>r. evaluate_task_gate ''repair'' ci snap fd = Inr r \<and> tg_blockers r = []"
proof -
  obtain ca da obs cand g g' scs where
    ch: "operation_surface_changes True (authority_changes ca da) g g' cur obs cand ir = Inr scs"
    and fin: "finish_impact (authority_changes ca da) scs = Inr ci"
    using assms(1-3) by (elim compute_candidate_impactE) auto
  then obtain sel where acs: "authority_changes ca da = []" and "repair_changes cur obs cand sel = Inr scs"
    by (auto simp: operation_surface_changes_def res_simps)
  then have scs: "list_all (\<lambda>c. sc_change_kind c = ''repair'' \<and> sc_contract_before_digest c = value_at cur (sc_surface_id c) \<and>
      sc_after_digest c = value_at cur (sc_surface_id c)) scs"
    by (auto simp: list_all_iff dest!: repair_changes_Inr)
  have ci: "ci_authority_changes ci = []" "ci_surface_changes ci = scs" "\<not> ci_contract_changing ci"
    using fin acs scs by (auto simp: finish_impact_Inr Let_def list_ex_iff list_all_iff)
  have tb: "task_blocker f ci = None" if "f \<in> set facts" for f
  proof (rule repair_task_blocker_None)
    show "list_all (\<lambda>c. sc_change_kind c = ''repair'' \<and> sc_after_digest c = sc_contract_before_digest c) (ci_surface_changes ci)"
      using scs unfolding ci list_all_iff by auto
    show "list_all (\<lambda>c. \<forall>p \<in> set (ff_pinned_surfaces f).
        sp_surface_id p = sc_surface_id c \<longrightarrow> sp_surface_digest p = sc_contract_before_digest c) (ci_surface_changes ci)"
      using scs assms(5) that unfolding ci list_all_iff by auto
  qed (use ci in auto)
  have "all_blockers ''repair'' ci facts = []"
    using tb assms(5) unfolding all_blockers_empty_iff
    by (auto simp: finding_blockers_def AMBIGUOUS_KINDS_def list_all_iff)
  moreover have "''repair'' \<in> set task_operations" by (simp add: task_operations_def)
  ultimately show ?thesis
    using evaluate_task_gate_eq [OF _ assms(4), of "''repair''" ci] by (simp add: Let_def)
qed

text \<open>
  Repair does not disturb running tasks: when all findings are tasks that are not archived and
  whose pins agree with the digests of the current contract, the gate of a computed repair impact
  has no blocker.
\<close>

theorem repair_admits_consistent_tasks:
  assumes "compute_candidate_impact cc os ir = Inr ci" and "get ir ''operation'' = PStr ''repair''"
    and "surface_map (get cc ''surface_digests'') = Inr cur"
    and "validated_evidence snap fd = Inr (tasks, facts)"
    and "list_all (\<lambda>f. ff_kind f = ''non-archived-task'' \<and>
      list_all (\<lambda>p. sp_surface_digest p = value_at cur (sp_surface_id p)) (ff_pinned_surfaces f)) facts"
  shows "\<exists>r. evaluate_task_gate ''repair'' ci snap fd = Inr r \<and> tg_blockers r = []"
  using assms by (rule repair_gate_ok)

text \<open>
  Evidence is bound by its digest and by the snapshot: in accepted evidence the recorded digest
  is the SHA-256 of the domain-separated canonical projection, the finding identities are those the
  snapshot lists, task identities and current paths are unique, and a finding about a task that is
  not archived agrees with the snapshot record of that task on path, status, mode and pins.
\<close>

theorem validated_evidence_binding:
  assumes "validated_evidence snap fd = Inr (tasks, facts)"
  shows "get snap ''task_quiescence_digest'' = PStr (sha256_hex (digest_preimage ''agent-workflow.task-quiescence.v1''
      (PDict (without ''task_quiescence_digest'' snap)))) \<and>
    get snap ''finding_ids'' = PList (map PStr (sort (map ff_finding_id facts))) \<and>
    distinct (map ff_finding_id facts) \<and>
    distinct (keys tasks) \<and> distinct (map (tf_current_path o snd) tasks) \<and>
    list_all (\<lambda>f. ff_kind f \<noteq> ''non-archived-task'' \<or> (\<exists>t. (tf_task_id t, t) \<in> set tasks \<and>
      ff_task_id f = Some (tf_task_id t) \<and> ff_path f = Some (tf_current_path t) \<and>
      ff_lifecycle_status f = Some (tf_lifecycle_status t) \<and> ff_mode f = Some (tf_mode t) \<and>
      ff_pinned_surfaces f = tf_pinned_surfaces t)) facts"
proof -
  obtain h raws ids js where h: "get snap ''task_quiescence_digest'' = PStr h"
    "digest ''agent-workflow.task-quiescence.v1'' (PDict (without ''task_quiescence_digest'' snap)) = Inr h"
    and tasks: "task_facts snap = Inr tasks" and facts: "parse_findings fd = Inr facts"
    and ids: "get snap ''finding_ids'' = PList (map PStr ids)" "ids = sort (map ff_finding_id facts)"
    and agree: "list_all (finding_agrees tasks js) facts"
    using assms by (rule validated_evidenceE)
  obtain paths where ok: "tasks_ok (tasks, paths)"
    using task_facts_ok [OF tasks] by blast
  have "\<exists>t. (tf_task_id t, t) \<in> set tasks \<and> ff_task_id f = Some (tf_task_id t) \<and>
      ff_path f = Some (tf_current_path t) \<and> ff_lifecycle_status f = Some (tf_lifecycle_status t) \<and>
      ff_mode f = Some (tf_mode t) \<and> ff_pinned_surfaces f = tf_pinned_surfaces t"
    if f: "f \<in> set facts" "ff_kind f = ''non-archived-task''" for f
  proof -
    from agree f obtain t where t: "map_of tasks (or_empty (ff_task_id f)) = Some t"
      "Some (tf_current_path t) = ff_path f" "Some (tf_lifecycle_status t) = ff_lifecycle_status f"
      "Some (tf_mode t) = ff_mode f" "tf_pinned_surfaces t = ff_pinned_surfaces f"
      by (auto simp: list_all_iff finding_agrees_def split: option.splits)
    have mem: "(or_empty (ff_task_id f), t) \<in> set tasks" using t(1) by (rule map_of_SomeD)
    then have "or_empty (ff_task_id f) = tf_task_id t" "uuid_format (tf_task_id t)"
      using ok by (auto simp: tasks_ok_def list_all_iff)
    moreover from this have "ff_task_id f = Some (tf_task_id t)"
      by (auto simp: or_empty_def uuid_format_def split: option.splits)
    ultimately show ?thesis using mem t by metis
  qed
  then have "list_all (\<lambda>f. ff_kind f \<noteq> ''non-archived-task'' \<or> (\<exists>t. (tf_task_id t, t) \<in> set tasks \<and>
      ff_task_id f = Some (tf_task_id t) \<and> ff_path f = Some (tf_current_path t) \<and>
      ff_lifecycle_status f = Some (tf_lifecycle_status t) \<and> ff_mode f = Some (tf_mode t) \<and>
      ff_pinned_surfaces f = tf_pinned_surfaces t)) facts"
    unfolding list_all_iff by blast
  then show ?thesis
    using h(1) digest_Inr_preimage [OF h(2)] ids ok parse_findings_ok(2) [OF facts] by (simp add: tasks_ok_def)
qed

section \<open>Sample evidence\<close>

text \<open>A snapshot with the digest of its projection.\<close>

definition seal_snapshot :: "dict \<Rightarrow> dict" where
  "seal_snapshot d = (''task_quiescence_digest'',
     PStr (sha256_hex (digest_preimage ''agent-workflow.task-quiescence.v1'' (PDict d)))) # d"

definition sample_uuid :: string where
  "sample_uuid = ''0a000000-0000-4000-8000-000000000001''"

definition sample_pins :: pyval where
  "sample_pins = PList [PDict [(''surface_id'', PStr ''router:heavy''), (''surface_digest'', PStr (sha_of (CHR ''a'')))]]"

definition sample_task :: pyval where
  "sample_task = PDict [(''task_id'', PStr sample_uuid), (''admission_task_ref'', PStr ''t1''),
     (''current_path'', PStr ''tasks/t1''), (''source_role'', PStr ''active''), (''target_role'', PStr ''active''),
     (''integration_byte_hash'', PStr (sha_of (CHR ''a''))), (''integration_mode'', PStr ''0644''),
     (''integration_schema_id'', PStr ''i''), (''integration_schema_version'', PInt 1),
     (''lifecycle_status'', PStr ''active''), (''revision'', PInt 0), (''mode'', PStr ''trellis-native''),
     (''task_contract_digest'', PStr (sha_of (CHR ''a''))), (''task_contract_surfaces'', sample_pins)]"

definition sample_snapshot :: "pyval list \<Rightarrow> pyval list \<Rightarrow> dict" where
  "sample_snapshot tasks ids = seal_snapshot [(''schema_id'', PStr ''agent-workflow.task-quiescence-snapshot''),
     (''schema_version'', PInt 1), (''source_layout_digest'', PStr (sha_of (CHR ''a''))),
     (''target_layout_digest'', PStr (sha_of (CHR ''a''))),
     (''source_schema_bundle_digest'', PStr (sha_of (CHR ''a''))),
     (''target_schema_bundle_digest'', PStr (sha_of (CHR ''a''))),
     (''tasks'', PList tasks), (''metadata'', PList []), (''task_journals'', PList []),
     (''finding_ids'', PList ids)]"

definition sample_findings :: "pyval list \<Rightarrow> dict" where
  "sample_findings fs = [(''schema_id'', PStr ''agent-workflow.task-findings''), (''schema_version'', PInt 1),
     (''findings'', PList fs)]"

definition sample_active :: pyval where
  "sample_active = PDict [(''kind'', PStr ''non-archived-task''), (''finding_id'', PStr ''f1''),
     (''task_id'', PStr sample_uuid), (''current_path'', PStr ''tasks/t1''),
     (''lifecycle_status'', PStr ''active''), (''mode'', PStr ''trellis-native''), (''pinned_surfaces'', sample_pins)]"

definition sample_unknown :: pyval where
  "sample_unknown = PDict [(''kind'', PStr ''unknown-entry''), (''finding_id'', PStr ''f2''),
     (''normalized_path'', PStr ''tasks/x''), (''root_contract_id'', PStr ''r'')]"

definition sample_pin :: surface_pin where
  "sample_pin = \<lparr>sp_surface_id = ''router:heavy'', sp_surface_digest = sha_of (CHR ''a'')\<rparr>"

definition sample_fact :: task_fact where
  "sample_fact = \<lparr>tf_task_id = sample_uuid, tf_current_path = ''tasks/t1'', tf_lifecycle_status = ''active'',
     tf_mode = ''trellis-native'', tf_pinned_surfaces = [sample_pin]\<rparr>"

definition sample_active_fact :: finding_fact where
  "sample_active_fact = \<lparr>ff_kind = ''non-archived-task'', ff_finding_id = ''f1'', ff_task_id = Some sample_uuid,
     ff_path = Some ''tasks/t1'', ff_lifecycle_status = Some ''active'', ff_mode = Some ''trellis-native'',
     ff_pinned_surfaces = [sample_pin]\<rparr>"

lemma sample_uuid_format: "uuid_format sample_uuid"
  by code_simp

lemma sample_checks [simp]:
  "task_uuid (PStr sample_uuid) = Inr sample_uuid"
  "task_path (PStr ''tasks/t1'') = Inr ''tasks/t1''"
  "task_path (PStr ''tasks/x'') = Inr ''tasks/x''"
  "task_sha256 (PStr (sha_of (CHR ''a''))) = Inr (sha_of (CHR ''a''))"
  by (simp_all add: task_check_defs res_simps sample_uuid_format canonical_path_def windows_drive_def
      alias_segment_def is_hex_def is_digit_def is_sha256_sha_of ord_def)

lemma sample_pin_of: "surface_pin_of (PDict [(''surface_id'', PStr ''router:heavy''),
    (''surface_digest'', PStr (sha_of (CHR ''a'')))]) = Inr sample_pin"
proof -
  let ?pin = "[(''surface_id'', PStr ''router:heavy''), (''surface_digest'', PStr (sha_of (CHR ''a'')))]"
  have "same_strs (keys ?pin) [''surface_id'', ''surface_digest'']"
    by (simp add: same_strs_def subset_strs_def keys_def)
  moreover have "get ?pin ''surface_id'' = PStr ''router:heavy''" "get ?pin ''surface_digest'' = PStr (sha_of (CHR ''a''))"
    by (simp_all add: get_def)
  ultimately show ?thesis
    by (simp add: surface_pin_of_def task_mapping_def as_mapping_def require_def task_string_def as_string_def sample_pin_def)
qed

lemma sample_pins_ok [simp]: "surface_pins sample_pins = Inr [sample_pin]"
proof -
  have "sort_key sp_surface_id [sample_pin] = [sample_pin]" by simp
  moreover have "mapr surface_pin_of [PDict [(''surface_id'', PStr ''router:heavy''),
      (''surface_digest'', PStr (sha_of (CHR ''a'')))]] = Inr [sample_pin]"
    by (simp only: mapr.simps sample_pin_of bnd.simps)
  ultimately show ?thesis
    by (simp only: surface_pins_def sample_pins_def task_array_def as_array_def pyval.case bnd.simps Let_def) simp
qed

lemma sample_task_ok: "task_fact_of sample_task = Inr sample_fact"
  by (simp add: task_fact_of_def sample_task_def task_mapping_def as_mapping_def require_def same_strs_def
      subset_strs_def keys_def task_record_fields_def get_def task_string_def as_string_def known_roles_def
      normalize_mode_def octal_mode_def remove_prefix_def starts_with_def is_octal_def NON_ARCHIVED_STATUSES_def
      nonneg_int_def sample_fact_def)

lemma sample_active_ok: "add_finding [] sample_active = Inr [sample_active_fact]"
  by (simp add: add_finding_def sample_active_def task_mapping_def as_mapping_def require_def same_strs_def
      subset_strs_def keys_def FINDING_FIELDS_def get_def task_string_def as_string_def finding_path_def has_key_def
      finding_task_def NON_ARCHIVED_STATUSES_def sample_active_fact_def)

lemma sample_unknown_ok: "add_finding [] sample_unknown = Inr [\<lparr>ff_kind = ''unknown-entry'', ff_finding_id = ''f2'',
    ff_task_id = None, ff_path = Some ''tasks/x'', ff_lifecycle_status = None, ff_mode = None, ff_pinned_surfaces = []\<rparr>]"
  by (simp add: add_finding_def sample_unknown_def task_mapping_def as_mapping_def require_def same_strs_def
      subset_strs_def keys_def FINDING_FIELDS_def get_def task_string_def as_string_def finding_path_def has_key_def
      finding_task_def)

lemma sample_seal:
  assumes "list_all (\<lambda>v. wf_pyval v \<and> json_value v) tasks" and "list_all (\<lambda>v. wf_pyval v \<and> json_value v) ids"
  shows "digest ''agent-workflow.task-quiescence.v1'' (PDict (without ''task_quiescence_digest'' (sample_snapshot tasks ids))) =
    Inr (sha256_hex (digest_preimage ''agent-workflow.task-quiescence.v1''
      (PDict (without ''task_quiescence_digest'' (sample_snapshot tasks ids)))))"
proof (rule digest_ok)
  show "digest_domain ''agent-workflow.task-quiescence.v1''" by (simp add: digest_domain_def ord_def)
qed (use assms in \<open>auto simp: without_def sample_snapshot_def seal_snapshot_def list_all_iff\<close>)

lemma sample_evidence:
  assumes "list_all (\<lambda>v. wf_pyval v \<and> json_value v) ts"
    and "foldr_res add_task_fact ([], []) ts = Inr (tasks, paths)"
    and "foldr_res add_finding [] fs = Inr facts"
    and "list_all (finding_agrees tasks []) facts" and "sort (map ff_finding_id facts) = map ff_finding_id facts"
  shows "validated_evidence (sample_snapshot ts (map (PStr o ff_finding_id) facts)) (sample_findings fs) = Inr (tasks, facts)"
proof -
  let ?snap = "sample_snapshot ts (map (PStr o ff_finding_id) facts)"
  have seal: "digest ''agent-workflow.task-quiescence.v1'' (PDict (without ''task_quiescence_digest'' ?snap)) =
    Inr (sha256_hex (digest_preimage ''agent-workflow.task-quiescence.v1'' (PDict (without ''task_quiescence_digest'' ?snap))))"
    by (rule sample_seal [OF assms(1)]) (simp add: list_all_iff)
  have h: "get ?snap ''task_quiescence_digest'' = PStr (sha256_hex (digest_preimage ''agent-workflow.task-quiescence.v1''
      (PDict (without ''task_quiescence_digest'' ?snap))))"
    by (simp add: sample_snapshot_def seal_snapshot_def get_def without_def)
  have keys: "same_strs (keys ?snap) snapshot_fields"
    by (simp add: sample_snapshot_def seal_snapshot_def same_strs_def subset_strs_def keys_def snapshot_fields_def)
  have parts: "get ?snap ''schema_id'' = PStr ''agent-workflow.task-quiescence-snapshot''"
    "get ?snap ''schema_version'' = PInt 1" "get ?snap ''tasks'' = PList ts" "get ?snap ''metadata'' = PList []"
    "get ?snap ''task_journals'' = PList []" "get ?snap ''finding_ids'' = PList (map PStr (map ff_finding_id facts))"
    by (simp_all add: sample_snapshot_def seal_snapshot_def get_def)
  have coll: "validate_snapshot_collections ?snap = Inr ()"
    by (simp add: validate_snapshot_collections_def parts task_array_def as_array_def)
      (simp add: sample_snapshot_def seal_snapshot_def get_def)
  have pf: "parse_findings (sample_findings fs) = Inr facts"
    using assms(3) by (simp add: parse_findings_def sample_findings_def require_def same_strs_def subset_strs_def keys_def
        get_def task_array_def as_array_def)
  have tf: "task_facts ?snap = Inr tasks"
    by (simp add: task_facts_def parts task_array_def as_array_def assms(2))
  have sha: "task_sha256 (PStr (sha256_hex m)) = Inr (sha256_hex m)" for m
    by (simp add: task_sha256_def as_sha256_def sha.hd_sha256)
  have strs: "list_all is_pystr (map PStr xs)" for xs by (simp add: list_all_iff)
  show ?thesis
    using assms(4,5)
    by (simp only: validated_evidence_def keys parts h seal sha require_def if_True bnd.simps simp_thms py_eq.simps
        tf coll pf task_array_def as_array_def pyval.case strs strs_of_map Let_def journals_by_path_def mapr.simps
        dict_display_def foldl_Nil pyval.case)
qed

lemma sample_task_wf: "wf_pyval sample_task \<and> json_value sample_task"
  by (simp add: sample_task_def sample_pins_def)

lemma sample_evidence_empty: "validated_evidence (sample_snapshot [] []) (sample_findings []) = Inr ([], [])"
  using sample_evidence [of "[]" "[]" "[]" "[]" "[]"] by simp

lemma sample_evidence_unknown:
  "\<exists>facts. validated_evidence (sample_snapshot [] [PStr ''f2'']) (sample_findings [sample_unknown]) = Inr ([], facts) \<and>
     list_ex (\<lambda>f. ff_kind f = ''unknown-entry'') facts"
proof -
  have "foldr_res add_finding [] [sample_unknown] = add_finding [] sample_unknown"
    by (simp add: sample_unknown_ok)
  from sample_evidence [of "[]" "[]" "[]" "[sample_unknown]", OF _ _ this [unfolded sample_unknown_ok]]
  show ?thesis by (simp add: finding_agrees_def)
qed

lemma sample_evidence_active:
  "validated_evidence (sample_snapshot [sample_task] [PStr ''f1'']) (sample_findings [sample_active]) =
     Inr ([(sample_uuid, sample_fact)], [sample_active_fact])"
proof -
  have "foldr_res add_task_fact ([], []) [sample_task] = Inr ([(sample_uuid, sample_fact)], [''tasks/t1''])"
    by (simp add: add_task_fact_def sample_task_ok has_key_def) (simp add: sample_fact_def)
  moreover have "foldr_res add_finding [] [sample_active] = Inr [sample_active_fact]"
    by (simp add: sample_active_ok)
  moreover have "list_all (finding_agrees [(sample_uuid, sample_fact)] []) [sample_active_fact]"
    by (simp add: finding_agrees_def sample_active_fact_def or_empty_def sample_fact_def)
  moreover have "map (PStr o ff_finding_id) [sample_active_fact] = [PStr ''f1'']"
    "sort (map ff_finding_id [sample_active_fact]) = map ff_finding_id [sample_active_fact]"
    by (simp_all add: sample_active_fact_def)
  moreover have "list_all (\<lambda>v. wf_pyval v \<and> json_value v) [sample_task]"
    using sample_task_wf by simp
  ultimately show ?thesis
    using sample_evidence [of "[sample_task]" "[(sample_uuid, sample_fact)]" "[''tasks/t1'']"
        "[sample_active]" "[sample_active_fact]"] by simp
qed


lemma state_ok_of_evidence:
  "validated_evidence snap fd = Inr (tasks, facts) \<Longrightarrow> \<exists>ws. evaluate_workspace_state_quiescence snap fd = Inr ws"
  by (simp add: evaluate_workspace_state_quiescence_def)

lemma sample_repair_ok:
  "\<exists>ci. compute_candidate_impact (sample_contract [] (CHR ''a'')) (sample_contract [] (CHR ''b''))
      (sample_candidate ''repair'' [] (CHR ''a'') [PStr ''router:heavy'']) = Inr ci \<and>
    list_ex (\<lambda>c. sc_surface_id c = ''router:heavy'') (ci_surface_changes ci)"
proof -
  have "compute_candidate_impact (sample_contract [] (CHR ''a'')) (sample_contract [] (CHR ''b''))
      (sample_candidate ''repair'' [] (CHR ''a'') [PStr ''router:heavy'']) = finish_impact []
      [\<lparr>sc_surface_id = ''router:heavy'', sc_change_kind = ''repair'',
       sc_contract_before_digest = sha_of (CHR ''a''), sc_observed_before_digest = sha_of (CHR ''b''),
       sc_after_digest = sha_of (CHR ''a'')\<rparr>]"
    by (simp add: impact_eval authority_changes_def value_at_def repair_changes_def digests_eq_def
        same_strs_def drifted_surfaces_def lookup_def)
  then show ?thesis by (simp add: finish_impact_Inr Let_def)
qed

lemma sample_repair_op: "get (sample_candidate ''repair'' auth c sel) ''operation'' = PStr ''repair''"
  by (simp add: sample_candidate_def get_def)

definition sample_impact :: candidate_impact where
  "sample_impact = \<lparr>ci_impact_kind = ''runtime-visible'',
     ci_authority_changes = [\<lparr>ac_authority_id = ''profile'', ac_before_digest = sha_of (CHR ''a''), ac_after_digest = sha_of (CHR ''b'')\<rparr>],
     ci_surface_changes = [], ci_contract_changing = True, ci_candidate_impact_digest = sha_of (CHR ''c'')\<rparr>"

theorem fresh_start_gate_iff_quiescent_witness:
  "\<exists>ws r. evaluate_workspace_state_quiescence (sample_snapshot [] []) (sample_findings []) = Inr ws \<and>
     evaluate_task_gate ''init'' sample_impact (sample_snapshot [] []) (sample_findings []) = Inr r \<and>
     (tg_blockers r = [] \<longleftrightarrow> ws_task_quiescence ws = ''quiescent'')"
  using state_ok_of_evidence [OF sample_evidence_empty] fresh_start_gate_iff_quiescent by blast

theorem quiescent_never_blocked_witness:
  "\<exists>r. evaluate_task_gate ''upgrade'' sample_impact (sample_snapshot [] []) (sample_findings []) = Inr r \<and> tg_blockers r = []"
proof -
  obtain ws where ws: "evaluate_workspace_state_quiescence (sample_snapshot [] []) (sample_findings []) = Inr ws"
    using state_ok_of_evidence [OF sample_evidence_empty] by blast
  have "ws_task_quiescence ws = ''quiescent''"
    using quiescent_iff_no_finding [OF sample_evidence_empty ws] by simp
  moreover have "''upgrade'' \<in> set task_operations" by (simp add: task_operations_def)
  ultimately show ?thesis using quiescent_never_blocked [OF ws] by blast
qed

lemma gate_ok_of_evidence:
  "op \<in> set task_operations \<Longrightarrow> validated_evidence snap fd = Inr (tasks, facts) \<Longrightarrow>
     \<exists>r. evaluate_task_gate op impact snap fd = Inr r"
  by (simp add: evaluate_task_gate_eq)

lemma findings_of_evidence:
  "validated_evidence snap fd = Inr (tasks, facts) \<Longrightarrow> parse_findings fd = Inr facts"
  by (elim validated_evidenceE)

lemma sample_ops: "''sync'' \<in> set task_operations" "''repair'' \<in> set task_operations"
  by (simp_all add: task_operations_def)

theorem gate_blockers_ordered_witness:
  "\<exists>r. evaluate_task_gate ''sync'' sample_impact (sample_snapshot [sample_task] [PStr ''f1'']) (sample_findings [sample_active]) = Inr r \<and>
     sorted (map bkey (tg_blockers r))"
  using gate_ok_of_evidence [OF sample_ops(1) sample_evidence_active]
    gate_blockers_ordered [OF _ findings_of_evidence [OF sample_evidence_active]] by blast

theorem ambiguous_evidence_dominates_witness:
  "\<exists>r. evaluate_task_gate ''sync'' sample_impact (sample_snapshot [] [PStr ''f2'']) (sample_findings [sample_unknown]) = Inr r \<and>
     tg_primary_evaluator_blocker r = Some ''AWP_WORKSPACE_TASK_LAYOUT_AMBIGUOUS''"
proof -
  obtain facts f where ev: "validated_evidence (sample_snapshot [] [PStr ''f2'']) (sample_findings [sample_unknown]) = Inr ([], facts)"
    and f: "f \<in> set facts" "ff_kind f = ''unknown-entry''"
    using sample_evidence_unknown unfolding list_ex_iff by blast
  obtain r where r: "evaluate_task_gate ''sync'' sample_impact (sample_snapshot [] [PStr ''f2'']) (sample_findings [sample_unknown]) = Inr r"
    using gate_ok_of_evidence [OF sample_ops(1) ev] by blast
  have "ff_kind f \<in> set AMBIGUOUS_KINDS" using f by (simp add: AMBIGUOUS_KINDS_def)
  from ambiguous_evidence_dominates [OF r _ findings_of_evidence [OF ev] f(1) this] r
  show ?thesis by (simp add: sample_impact_def)
qed

lemma sample_pins_consistent:
  "list_all (\<lambda>f. ff_kind f = ''non-archived-task'' \<and> list_all (\<lambda>p. sp_surface_digest p =
      value_at [(''router:heavy'', sha_of (CHR ''a''))] (sp_surface_id p)) (ff_pinned_surfaces f)) [sample_active_fact]"
  by (simp add: sample_active_fact_def sample_pin_def value_at_def)

lemma sample_repair_gate:
  assumes "compute_candidate_impact (sample_contract [] (CHR ''a'')) (sample_contract [] (CHR ''b''))
      (sample_candidate ''repair'' [] (CHR ''a'') [PStr ''router:heavy'']) = Inr ci"
  shows "\<exists>r. evaluate_task_gate ''repair'' ci (sample_snapshot [sample_task] [PStr ''f1'']) (sample_findings [sample_active]) = Inr r \<and>
     tg_blockers r = []"
  by (rule repair_gate_ok [OF assms sample_repair_op sample_contract_surfaces [OF sample_hex(1)]
      sample_evidence_active sample_pins_consistent])

theorem repair_admits_consistent_tasks_witness:
  "\<exists>ci r. compute_candidate_impact (sample_contract [] (CHR ''a'')) (sample_contract [] (CHR ''b''))
      (sample_candidate ''repair'' [] (CHR ''a'') [PStr ''router:heavy'']) = Inr ci \<and>
     evaluate_task_gate ''repair'' ci (sample_snapshot [sample_task] [PStr ''f1'']) (sample_findings [sample_active]) = Inr r \<and>
     tg_blockers r = []"
proof -
  obtain ci where ci: "compute_candidate_impact (sample_contract [] (CHR ''a'')) (sample_contract [] (CHR ''b''))
      (sample_candidate ''repair'' [] (CHR ''a'') [PStr ''router:heavy'']) = Inr ci"
    using sample_repair_ok by blast
  from repair_admits_consistent_tasks [OF ci sample_repair_op sample_contract_surfaces [OF sample_hex(1)]
      sample_evidence_active sample_pins_consistent] ci
  show ?thesis by blast
qed

theorem admitted_gate_protects_pins_witness:
  "\<exists>ci c. compute_candidate_impact (sample_contract [] (CHR ''a'')) (sample_contract [] (CHR ''b''))
      (sample_candidate ''repair'' [] (CHR ''a'') [PStr ''router:heavy'']) = Inr ci \<and>
     c \<in> set (ci_surface_changes ci) \<and> sc_after_digest c = sp_surface_digest sample_pin"
proof -
  let ?cc = "sample_contract [] (CHR ''a'')" and ?os = "sample_contract [] (CHR ''b'')"
  let ?ir = "sample_candidate ''repair'' [] (CHR ''a'') [PStr ''router:heavy'']"
  let ?snap = "sample_snapshot [sample_task] [PStr ''f1'']" and ?fd = "sample_findings [sample_active]"
  obtain ci c where ci: "compute_candidate_impact ?cc ?os ?ir = Inr ci"
    and c: "c \<in> set (ci_surface_changes ci)" "sc_surface_id c = ''router:heavy''"
    using sample_repair_ok unfolding list_ex_iff by blast
  obtain r where r: "evaluate_task_gate ''repair'' ci ?snap ?fd = Inr r" "tg_blockers r = []"
    using sample_repair_gate [OF ci] by blast
  have f: "sample_active_fact \<in> set [sample_active_fact]" "ff_kind sample_active_fact = ''non-archived-task''"
    "sample_pin \<in> set (ff_pinned_surfaces sample_active_fact)" "sc_surface_id c = sp_surface_id sample_pin"
    using c by (simp_all add: sample_active_fact_def sample_pin_def)
  from admitted_gate_protects_pins [OF ci r findings_of_evidence [OF sample_evidence_active] f(1-3) c(1) f(4)] ci c
  show ?thesis by blast
qed

theorem validated_evidence_binding_witness:
  "distinct (keys [(sample_uuid, sample_fact)]) \<and>
   get (sample_snapshot [sample_task] [PStr ''f1'']) ''finding_ids'' = PList [PStr ''f1'']"
  using validated_evidence_binding [OF sample_evidence_active] by (simp add: sample_active_fact_def)

end
