(* ===== verification/Diagnostics.thy ===== *)
theory Diagnostics
  imports Task_Policy
begin

text \<open>
  Model of \<^verbatim>\<open>core/diagnostics.py\<close>: the workspace-state dimensions, the admission of one command
  and the diagnostic document that carries both. The lemmas characterise when a command is
  admitted, and show in which sense the state part is independent of the command.
\<close>

section \<open>Data\<close>

definition RELATIONSHIPS :: "string list" where
  "RELATIONSHIPS = [''matching'', ''migration-required'', ''ahead'', ''diverged'', ''unknown'']"

definition RELATIONSHIP_EVIDENCE :: "string list" where
  "RELATIONSHIP_EVIDENCE = [''verified'', ''missing'', ''invalid'']"

definition DISCOVERY_EVIDENCE :: "string list" where
  "DISCOVERY_EVIDENCE = [''verified'', ''missing'', ''unsupported'', ''invalid'']"

record workspace_state_diagnostic =
  wd_relationship :: string
  wd_relationship_evidence :: string
  wd_discovery_evidence :: string
  wd_task_quiescence :: string
  wd_primary_state_blocker :: "string option"

record command_admission =
  ca_command :: string
  ca_allowed :: bool
  ca_blocker :: "string option"

record workspace_diagnostic =
  wg_workspace_state :: workspace_state_diagnostic
  wg_command_admission :: command_admission
  wg_secondary_diagnostics :: "string list"
  wg_workspace_diagnostic_digest :: string

definition workspace_state_document :: "workspace_state_diagnostic \<Rightarrow> pyval" where
  "workspace_state_document w = PDict [
     (''relationship'', PStr (wd_relationship w)),
     (''relationship_evidence'', PStr (wd_relationship_evidence w)),
     (''discovery_evidence'', PStr (wd_discovery_evidence w)),
     (''task_quiescence'', PStr (wd_task_quiescence w)),
     (''primary_state_blocker'', opt_str (wd_primary_state_blocker w))]"

definition command_admission_document :: "command_admission \<Rightarrow> pyval" where
  "command_admission_document a = PDict [
     (''command'', PStr (ca_command a)), (''allowed'', PBool (ca_allowed a)), (''blocker'', opt_str (ca_blocker a))]"

definition diagnostic_projection ::
    "workspace_state_diagnostic \<Rightarrow> command_admission \<Rightarrow> string list \<Rightarrow> (string \<times> pyval) list" where
  "diagnostic_projection w a secondary = [
     (''schema_id'', PStr ''agent-workflow.workspace-diagnostic''),
     (''schema_version'', PInt 1),
     (''workspace_state'', workspace_state_document w),
     (''command_admission'', command_admission_document a),
     (''secondary_diagnostics'', PList (map PStr secondary))]"

definition workspace_diagnostic_document :: "workspace_diagnostic \<Rightarrow> dict" where
  "workspace_diagnostic_document d =
     diagnostic_projection (wg_workspace_state d) (wg_command_admission d) (wg_secondary_diagnostics d) @
     [(''workspace_diagnostic_digest'', PStr (wg_workspace_diagnostic_digest d))]"

definition diagnostic_failure :: exn where
  "diagnostic_failure = CoreFailure ''AWP_SCHEMA_INVALID'' 2"

section \<open>Operations\<close>

definition state_blocker ::
    "string \<Rightarrow> string \<Rightarrow> string \<Rightarrow> workspace_task_state \<Rightarrow> task_gate_result \<Rightarrow> string \<times> string option" where
  "state_blocker relationship relationship_evidence discovery_evidence task_state task_gate =
     (if relationship_evidence = ''invalid''
      then (''unknown'', Some ''AWP_SOURCE_RELEASE_VERIFICATION_FAILED'')
      else if relationship_evidence = ''missing''
      then (''unknown'', Some ''AWP_WORKSPACE_SOURCE_METADATA_REQUIRED'')
      else if relationship = ''ahead'' then (relationship, Some ''AWP_WORKSPACE_CONTRACT_AHEAD'')
      else if relationship = ''diverged'' then (relationship, Some ''AWP_WORKSPACE_CONTRACT_DIVERGED'')
      else if relationship = ''migration-required'' then
        (if discovery_evidence = ''missing''
         then (relationship, Some ''AWP_WORKSPACE_SOURCE_METADATA_REQUIRED'')
         else if discovery_evidence \<in> {''unsupported'', ''invalid''} \<or> ws_task_quiescence task_state = ''ambiguous''
         then (relationship, Some ''AWP_WORKSPACE_TASK_LAYOUT_AMBIGUOUS'')
         else if tg_primary_evaluator_blocker task_gate \<noteq> None
         then (relationship, tg_primary_evaluator_blocker task_gate)
         else (relationship, Some ''AWP_WORKSPACE_MIGRATION_REQUIRED''))
      else if relationship \<noteq> ''matching''
      then (''unknown'', Some ''AWP_WORKSPACE_SOURCE_METADATA_REQUIRED'')
      else if discovery_evidence \<in> {''unsupported'', ''invalid''} \<or> ws_task_quiescence task_state = ''ambiguous''
      then (relationship, Some ''AWP_WORKSPACE_TASK_LAYOUT_AMBIGUOUS'')
      else if ''unfinished-task-transaction'' \<in> set (ws_evidence_kinds task_state)
      then (relationship, Some ''AWP_WORKSPACE_TASK_RECOVERY_BLOCK'')
      else (relationship, None))"

text \<open>\<^verbatim>\<open>a or b\<close> on optional strings: an empty string is false.\<close>

definition opt_or :: "string option \<Rightarrow> string option \<Rightarrow> string option" where
  "opt_or a b = (case a of None \<Rightarrow> b | Some s \<Rightarrow> if s = [] then b else a)"

definition command_admission ::
    "string \<Rightarrow> string \<Rightarrow> string \<Rightarrow> string \<Rightarrow> string option \<Rightarrow> task_gate_result \<Rightarrow> command_admission" where
  "command_admission command relationship relationship_evidence discovery_evidence sb task_gate =
     (if command = ''doctor'' then \<lparr>ca_command = command, ca_allowed = True, ca_blocker = None\<rparr>
      else if relationship_evidence = ''invalid''
      then \<lparr>ca_command = command, ca_allowed = False, ca_blocker = Some ''AWP_SOURCE_RELEASE_VERIFICATION_FAILED''\<rparr>
      else if command = ''workspace-migrate'' then
        (let allowed = (relationship = ''migration-required'' \<and> relationship_evidence = ''verified'' \<and>
               discovery_evidence = ''verified'' \<and> tg_blockers task_gate = [])
         in \<lparr>ca_command = command, ca_allowed = allowed,
             ca_blocker = (if allowed then None else opt_or (tg_primary_evaluator_blocker task_gate) sb)\<rparr>)
      else
        (let allowed = (relationship = ''matching'' \<and> relationship_evidence = ''verified'' \<and>
               tg_blockers task_gate = [] \<and> sb = None)
         in \<lparr>ca_command = command, ca_allowed = allowed,
             ca_blocker = (if allowed then None else opt_or (tg_primary_evaluator_blocker task_gate) sb)\<rparr>))"

definition build_workspace_diagnostic ::
    "string \<Rightarrow> string \<Rightarrow> string \<Rightarrow> string \<Rightarrow> workspace_task_state \<Rightarrow> task_gate_result \<Rightarrow> workspace_diagnostic res" where
  "build_workspace_diagnostic command relationship relationship_evidence discovery_evidence task_state task_gate =
     bnd (require (relationship \<in> set RELATIONSHIPS) diagnostic_failure) (\<lambda>_.
     bnd (require (relationship_evidence \<in> set RELATIONSHIP_EVIDENCE) diagnostic_failure) (\<lambda>_.
     bnd (require (discovery_evidence \<in> set DISCOVERY_EVIDENCE) diagnostic_failure) (\<lambda>_.
     let (normalized_relationship, sb) =
           state_blocker relationship relationship_evidence discovery_evidence task_state task_gate;
         workspace_state = \<lparr>wd_relationship = normalized_relationship,
           wd_relationship_evidence = relationship_evidence, wd_discovery_evidence = discovery_evidence,
           wd_task_quiescence = ws_task_quiescence task_state, wd_primary_state_blocker = sb\<rparr>;
         admission = command_admission command normalized_relationship relationship_evidence
           discovery_evidence sb task_gate;
         all_codes = map tb_code (tg_blockers task_gate) @ (case sb of None \<Rightarrow> [] | Some c \<Rightarrow> [c]);
         secondary = sorted_set (filter (\<lambda>code. Some code \<noteq> sb \<and> Some code \<noteq> ca_blocker admission) all_codes)
     in bnd (digest ''agent-workflow.workspace-diagnostic.v1''
              (PDict (diagnostic_projection workspace_state admission secondary))) (\<lambda>h.
        Inr \<lparr>wg_workspace_state = workspace_state, wg_command_admission = admission,
             wg_secondary_diagnostics = secondary, wg_workspace_diagnostic_digest = h\<rparr>))))"

section \<open>Every diagnostic\<close>

lemma wf_diagnostic_projection:
  "wf_pyval (PDict (diagnostic_projection w a xs)) \<and> json_value (PDict (diagnostic_projection w a xs))"
  by (simp add: diagnostic_projection_def workspace_state_document_def command_admission_document_def opt_str_def
      list_all_iff split: option.splits)

lemma digest_diagnostic:
  "digest ''agent-workflow.workspace-diagnostic.v1'' (PDict (diagnostic_projection w a xs)) =
     Inr (sha256_hex (digest_preimage ''agent-workflow.workspace-diagnostic.v1'' (PDict (diagnostic_projection w a xs))))"
  using wf_diagnostic_projection by (intro digest_ok) (auto simp: digest_domain_def ord_def)

lemma build_workspace_diagnosticE:
  assumes "build_workspace_diagnostic cmd rel rlev dsev ts tg = Inr d"
  obtains rel' sb where "state_blocker rel rlev dsev ts tg = (rel', sb)"
    "rel \<in> set RELATIONSHIPS" "rlev \<in> set RELATIONSHIP_EVIDENCE" "dsev \<in> set DISCOVERY_EVIDENCE"
    "wg_workspace_state d = \<lparr>wd_relationship = rel', wd_relationship_evidence = rlev, wd_discovery_evidence = dsev,
       wd_task_quiescence = ws_task_quiescence ts, wd_primary_state_blocker = sb\<rparr>"
    "wg_command_admission d = command_admission cmd rel' rlev dsev sb tg"
    "wg_secondary_diagnostics d = sorted_set (filter (\<lambda>code. Some code \<noteq> sb \<and>
       Some code \<noteq> ca_blocker (command_admission cmd rel' rlev dsev sb tg))
       (map tb_code (tg_blockers tg) @ (case sb of None \<Rightarrow> [] | Some c \<Rightarrow> [c])))"
    "wg_workspace_diagnostic_digest d = sha256_hex (digest_preimage ''agent-workflow.workspace-diagnostic.v1''
       (PDict (diagnostic_projection (wg_workspace_state d) (wg_command_admission d) (wg_secondary_diagnostics d))))"
proof -
  obtain rel' sb where sb: "state_blocker rel rlev dsev ts tg = (rel', sb)"
    by (cases "state_blocker rel rlev dsev ts tg")
  show thesis
    using assms that [OF sb]
    by (auto simp add: build_workspace_diagnostic_def res_simps Let_def sb digest_diagnostic)
qed

lemma build_workspace_diagnostic_ok:
  "rel \<in> set RELATIONSHIPS \<Longrightarrow> rlev \<in> set RELATIONSHIP_EVIDENCE \<Longrightarrow> dsev \<in> set DISCOVERY_EVIDENCE \<Longrightarrow>
     \<exists>d. build_workspace_diagnostic cmd rel rlev dsev ts tg = Inr d"
  by (simp add: build_workspace_diagnostic_def require_def Let_def digest_diagnostic split: prod.splits)

text \<open>
  C27: Admission is decided exactly by the conditions of the code: the diagnostic command is always
  admitted, a workspace migration is admitted when the workspace is verified to require it,
  discovery is verified and the gate has no blocker, and a command of any other name when the
  relationship is verified and matching, the gate has no blocker, and neither discovery nor the task
  state is ambiguous or in need of recovery. An admitted command has no blocker, and under invalid
  relationship evidence every command but the diagnostic one is refused with the verification failure.
  The function has no case of its own for the recovery that the design documents permit beside it in
  a workspace which is ahead, diverged or to be migrated: asked for such a command it refuses.
\<close>

theorem admission_iff:
  assumes "build_workspace_diagnostic cmd rel rlev dsev ts tg = Inr d"
  shows "(ca_allowed (wg_command_admission d) \<longleftrightarrow> cmd = ''doctor'' \<or>
      (rlev = ''verified'' \<and> tg_blockers tg = [] \<and>
        (if cmd = ''workspace-migrate'' then rel = ''migration-required'' \<and> dsev = ''verified''
         else rel = ''matching'' \<and> (dsev = ''verified'' \<or> dsev = ''missing'') \<and>
           ws_task_quiescence ts \<noteq> ''ambiguous'' \<and>
           ''unfinished-task-transaction'' \<notin> set (ws_evidence_kinds ts)))) \<and>
    (ca_allowed (wg_command_admission d) \<longrightarrow> ca_blocker (wg_command_admission d) = None) \<and>
    (rlev = ''invalid'' \<and> cmd \<noteq> ''doctor'' \<longrightarrow>
       ca_blocker (wg_command_admission d) = Some ''AWP_SOURCE_RELEASE_VERIFICATION_FAILED'')"
proof -
  obtain rel' sb where sb: "state_blocker rel rlev dsev ts tg = (rel', sb)"
    and sets: "rel \<in> set RELATIONSHIPS" "rlev \<in> set RELATIONSHIP_EVIDENCE" "dsev \<in> set DISCOVERY_EVIDENCE"
    and adm: "wg_command_admission d = command_admission cmd rel' rlev dsev sb tg"
    using assms by (rule build_workspace_diagnosticE)
  have rlev: "rlev \<noteq> ''verified'' \<Longrightarrow> rlev = ''missing'' \<or> rlev = ''invalid''"
    and dsev: "dsev \<noteq> ''verified'' \<Longrightarrow> dsev = ''missing'' \<or> dsev = ''unsupported'' \<or> dsev = ''invalid''"
    using sets by (auto simp: RELATIONSHIP_EVIDENCE_def DISCOVERY_EVIDENCE_def)
  show ?thesis
  proof (cases "rlev = ''verified''")
    case False
    then show ?thesis
      using rlev sb by (auto simp: adm command_admission_def state_blocker_def Let_def)
  next
    case True
    then show ?thesis
      using sb dsev sets by (auto simp: adm command_admission_def state_blocker_def Let_def split: if_splits)
  qed
qed


lemma gate_primary_iff:
  assumes "evaluate_task_gate op impact snap fd = Inr tg"
  shows "(tg_primary_evaluator_blocker tg = None \<longleftrightarrow> tg_blockers tg = []) \<and> tg_primary_evaluator_blocker tg \<noteq> Some []"
proof -
  obtain facts where bs: "tg_blockers tg = (if noop_sync op impact then [] else sort_key bkey (all_blockers op impact facts))"
    and prim: "tg_primary_evaluator_blocker tg = (case tg_blockers tg of [] \<Rightarrow> None | b # _ \<Rightarrow> Some (tb_code b))"
    using assms by (rule evaluate_task_gateE)
  have codes: "tb_code b \<in> set (map fst class_order)" if "b \<in> set (tg_blockers tg)" for b
    using that bs all_blockers_code by (auto split: if_splits)
  have "tb_code b \<noteq> []" if "b \<in> set (tg_blockers tg)" for b
    using codes [OF that] by (auto simp: class_order_def)
  then show ?thesis
    using prim by (cases "tg_blockers tg") auto
qed

text \<open>
  C31: A refused command names its blocker, with one exception: when the gate is the result of the
  task gate, a command is refused without a blocker precisely when it is a workspace migration of a
  workspace in which nothing blocks (there is no state blocker and the gate is empty).
\<close>

theorem refusal_names_blocker:
  assumes "build_workspace_diagnostic cmd rel rlev dsev ts tg = Inr d"
    and "evaluate_task_gate op impact snap fd = Inr tg"
    and "\<not> ca_allowed (wg_command_admission d)"
  shows "ca_blocker (wg_command_admission d) = None \<longleftrightarrow>
    cmd = ''workspace-migrate'' \<and> tg_blockers tg = [] \<and> wd_primary_state_blocker (wg_workspace_state d) = None"
proof -
  obtain rel' sb where sb: "state_blocker rel rlev dsev ts tg = (rel', sb)"
    and ws: "wd_primary_state_blocker (wg_workspace_state d) = sb"
    and adm: "wg_command_admission d = command_admission cmd rel' rlev dsev sb tg"
    and sets: "rlev \<in> set RELATIONSHIP_EVIDENCE"
    using assms(1) by (elim build_workspace_diagnosticE) simp
  have prim: "tg_primary_evaluator_blocker tg = None \<longleftrightarrow> tg_blockers tg = []" "tg_primary_evaluator_blocker tg \<noteq> Some []"
    using gate_primary_iff [OF assms(2)] by auto
  have orr: "opt_or (tg_primary_evaluator_blocker tg) sb = None \<longleftrightarrow> tg_blockers tg = [] \<and> sb = None"
    using prim by (cases "tg_primary_evaluator_blocker tg") (auto simp: opt_or_def)
  have none: "sb = None \<Longrightarrow> rel' = ''matching'' \<and> rlev \<noteq> ''invalid'' \<and> rlev \<noteq> ''missing''"
    using sb prim by (auto simp: state_blocker_def split: if_splits)
  have doc: "cmd \<noteq> ''doctor''"
    using assms(3) by (auto simp: adm command_admission_def)
  show ?thesis
  proof (cases "rlev = ''invalid''")
    case True
    with none doc show ?thesis by (auto simp: adm ws command_admission_def)
  next
    case False
    then have rlev: "rlev = ''verified'' \<or> rlev = ''missing''"
      using sets by (simp add: RELATIONSHIP_EVIDENCE_def)
    show ?thesis
    proof (cases "cmd = ''workspace-migrate''")
      case True
      with False assms(3) orr show ?thesis by (simp add: adm ws command_admission_def Let_def) blast
    next
      case False
      with \<open>rlev \<noteq> ''invalid''\<close> doc assms(3) orr none rlev show ?thesis
        by (auto simp: adm ws command_admission_def Let_def)
    qed
  qed
qed

text \<open>
  Given one task state and one gate result, the state part of the diagnostic does not depend on
  the command, and every diagnostic code is reported exactly once: the secondary diagnostics are
  sorted, without duplicates, and disjoint from the state blocker and the command's blocker, and
  together with these two they cover every gate blocker.
\<close>

theorem diagnostic_state_and_codes:
  assumes "build_workspace_diagnostic cmd rel rlev dsev ts tg = Inr d"
    and "build_workspace_diagnostic cmd' rel rlev dsev ts tg = Inr d'"
  shows "wg_workspace_state d = wg_workspace_state d' \<and>
    sorted (wg_secondary_diagnostics d) \<and> distinct (wg_secondary_diagnostics d) \<and>
    wd_primary_state_blocker (wg_workspace_state d) \<notin> Some ` set (wg_secondary_diagnostics d) \<and>
    ca_blocker (wg_command_admission d) \<notin> Some ` set (wg_secondary_diagnostics d) \<and>
    Some ` tb_code ` set (tg_blockers tg) \<subseteq> Some ` set (wg_secondary_diagnostics d) \<union>
      {wd_primary_state_blocker (wg_workspace_state d), ca_blocker (wg_command_admission d)}"
  using assms by (elim build_workspace_diagnosticE) auto

text \<open>
  The state blocker is not command-independent for a workspace that requires migration, because
  it is taken from the gate result of the requested operation: there are a snapshot and findings
  over which the diagnostic built with the gate of an unchanged sync and the one built with the
  gate of a workspace migration report different primary state blockers.
\<close>

theorem state_blocker_depends_on_operation:
  "\<exists>snap fd ts tg tg' d d' impact. evaluate_workspace_state_quiescence snap fd = Inr ts \<and>
     evaluate_task_gate ''sync'' impact snap fd = Inr tg \<and>
     evaluate_task_gate ''workspace-migrate'' impact snap fd = Inr tg' \<and>
     build_workspace_diagnostic ''sync'' ''migration-required'' ''verified'' ''verified'' ts tg = Inr d \<and>
     build_workspace_diagnostic ''workspace-migrate'' ''migration-required'' ''verified'' ''verified'' ts tg' = Inr d' \<and>
     wd_primary_state_blocker (wg_workspace_state d) = Some ''AWP_WORKSPACE_MIGRATION_REQUIRED'' \<and>
     wd_primary_state_blocker (wg_workspace_state d') = Some ''AWP_WORKSPACE_ACTIVE_TASK_BLOCK''"
proof -
  let ?snap = "sample_snapshot [sample_task] [PStr ''f1'']" and ?fd = "sample_findings [sample_active]"
  define impact where "impact = \<lparr>ci_impact_kind = ''none'', ci_authority_changes = [], ci_surface_changes = [],
    ci_contract_changing = False, ci_candidate_impact_digest = sha_of (CHR ''c'')\<rparr>"
  obtain ts where ts: "evaluate_workspace_state_quiescence ?snap ?fd = Inr ts"
    using state_ok_of_evidence [OF sample_evidence_active] by blast
  have quiet: "ws_task_quiescence ts \<noteq> ''ambiguous''"
    using ts by (auto simp: evaluate_workspace_state_quiescence_def sample_evidence_active
        sample_active_fact_def AMBIGUOUS_KINDS_def split: if_splits)
  have ops: "''workspace-migrate'' \<in> set task_operations" by (simp add: task_operations_def)
  obtain tg where tg: "evaluate_task_gate ''sync'' impact ?snap ?fd = Inr tg" "tg_primary_evaluator_blocker tg = None"
    using evaluate_task_gate_eq [OF sample_ops(1) sample_evidence_active, of impact]
    by (simp add: noop_sync_def impact_def Let_def)
  have all: "all_blockers ''workspace-migrate'' impact [sample_active_fact] =
      [blocker ''AWP_WORKSPACE_ACTIVE_TASK_BLOCK'' sample_active_fact None]"
    by (simp add: all_blockers_def finding_blockers_def sample_active_fact_def AMBIGUOUS_KINDS_def)
  obtain tg' where tg': "evaluate_task_gate ''workspace-migrate'' impact ?snap ?fd = Inr tg'"
    "tg_primary_evaluator_blocker tg' = Some ''AWP_WORKSPACE_ACTIVE_TASK_BLOCK''"
    using evaluate_task_gate_eq [OF ops sample_evidence_active, of impact]
    by (simp add: noop_sync_def Let_def all blocker_def)
  have sets: "''migration-required'' \<in> set RELATIONSHIPS" "''verified'' \<in> set RELATIONSHIP_EVIDENCE"
    "''verified'' \<in> set DISCOVERY_EVIDENCE"
    by (simp_all add: RELATIONSHIPS_def RELATIONSHIP_EVIDENCE_def DISCOVERY_EVIDENCE_def)
  obtain d where d: "build_workspace_diagnostic ''sync'' ''migration-required'' ''verified'' ''verified'' ts tg = Inr d"
    using build_workspace_diagnostic_ok [OF sets] by blast
  obtain d' where d': "build_workspace_diagnostic ''workspace-migrate'' ''migration-required'' ''verified'' ''verified'' ts tg' = Inr d'"
    using build_workspace_diagnostic_ok [OF sets] by blast
  have "wd_primary_state_blocker (wg_workspace_state d) = Some ''AWP_WORKSPACE_MIGRATION_REQUIRED''"
    using d tg(2) quiet by (elim build_workspace_diagnosticE) (simp add: state_blocker_def)
  moreover have "wd_primary_state_blocker (wg_workspace_state d') = Some ''AWP_WORKSPACE_ACTIVE_TASK_BLOCK''"
    using d' tg'(2) quiet by (elim build_workspace_diagnosticE) (simp add: state_blocker_def)
  ultimately show ?thesis
    using ts tg(1) tg'(1) d d' by blast
qed

section \<open>Witnesses\<close>

definition sample_state :: workspace_task_state where
  "sample_state = \<lparr>ws_evaluator_id = WORKSPACE_STATE_EVALUATOR_ID, ws_evaluator_version = 1,
     ws_task_quiescence = ''quiescent'', ws_evidence_kinds = []\<rparr>"

lemma sample_matching_sets: "''matching'' \<in> set RELATIONSHIPS" "''verified'' \<in> set RELATIONSHIP_EVIDENCE"
  "''verified'' \<in> set DISCOVERY_EVIDENCE"
  by (simp_all add: RELATIONSHIPS_def RELATIONSHIP_EVIDENCE_def DISCOVERY_EVIDENCE_def)

definition sample_gate :: task_gate_result where
  "sample_gate = \<lparr>tg_evaluator_id = TASK_GATE_EVALUATOR_ID, tg_evaluator_version = 1, tg_operation = ''sync'',
     tg_blockers = [], tg_primary_evaluator_blocker = None\<rparr>"

theorem admission_iff_witness:
  "\<exists>d. build_workspace_diagnostic ''sync'' ''matching'' ''verified'' ''verified'' sample_state sample_gate = Inr d \<and>
     ca_allowed (wg_command_admission d)"
proof -
  obtain d where d: "build_workspace_diagnostic ''sync'' ''matching'' ''verified'' ''verified'' sample_state sample_gate = Inr d"
    using build_workspace_diagnostic_ok [OF sample_matching_sets] by blast
  from admission_iff [OF d] d show ?thesis by (simp add: sample_state_def sample_gate_def)
qed

theorem refusal_names_blocker_witness:
  "\<exists>d. build_workspace_diagnostic ''workspace-migrate'' ''matching'' ''verified'' ''verified'' sample_state sample_gate = Inr d \<and>
     \<not> ca_allowed (wg_command_admission d) \<and> ca_blocker (wg_command_admission d) = None"
proof -
  have gate: "evaluate_task_gate ''sync'' sample_impact (sample_snapshot [] []) (sample_findings []) = Inr sample_gate"
    using evaluate_task_gate_eq [OF sample_ops(1) sample_evidence_empty, of sample_impact]
    by (simp add: sample_gate_def all_blockers_def)
  obtain d where d: "build_workspace_diagnostic ''workspace-migrate'' ''matching'' ''verified'' ''verified'' sample_state sample_gate = Inr d"
    using build_workspace_diagnostic_ok [OF sample_matching_sets] by blast
  then have st: "wd_primary_state_blocker (wg_workspace_state d) = None"
    and na: "\<not> ca_allowed (wg_command_admission d)"
    by (elim build_workspace_diagnosticE, simp add: state_blocker_def sample_state_def command_admission_def Let_def)+
  from refusal_names_blocker [OF d gate na] d na st show ?thesis by (simp add: sample_gate_def)
qed

theorem diagnostic_state_and_codes_witness:
  "\<exists>d d'. build_workspace_diagnostic ''sync'' ''matching'' ''verified'' ''verified'' sample_state sample_gate = Inr d \<and>
     build_workspace_diagnostic ''doctor'' ''matching'' ''verified'' ''verified'' sample_state sample_gate = Inr d' \<and>
     wg_workspace_state d = wg_workspace_state d'"
  using build_workspace_diagnostic_ok [OF sample_matching_sets] diagnostic_state_and_codes by meson

end
