(* ===== verification/Json.thy ===== *)
theory Json
  imports Validate
begin

text \<open>
  \<^verbatim>\<open>json.loads\<close> of the Python standard library, which the journals, the Manifest and the task
  documents are read back with, and the round trip with the canonical bytes of
  \<^verbatim>\<open>core/canonical.py\<close>. The parser follows the CPython decoder: white space between tokens,
  the escapes of strict mode, and of a repeated key the last value wins. It covers the value
  type of the model: a number with a fraction or an exponent, an escape above U+00FF and a byte
  sequence that encodes a code point above U+00FF are outside of it and are refused.
\<close>

section \<open>Decoding UTF-8\<close>

fun utf8_decode :: "byte list \<Rightarrow> string option" where
  "utf8_decode [] = Some []"
| "utf8_decode (b # bs) =
     (if unat b < 0x80 then map_option ((#) (char_of (unat b))) (utf8_decode bs)
      else if unat b = 0xC2 \<or> unat b = 0xC3 then
        (case bs of
           [] \<Rightarrow> None
         | c # cs \<Rightarrow> if 0x80 \<le> unat c \<and> unat c < 0xC0
             then map_option ((#) (char_of ((unat b - 0xC0) * 0x40 + (unat c - 0x80)))) (utf8_decode cs)
             else None)
      else None)"

section \<open>Tokens\<close>

definition json_space :: "char \<Rightarrow> bool" where
  "json_space c = (c \<in> {CHR '' '', CHR 0x09, CHR 0x0A, CHR 0x0D})"

definition skip_space :: "string \<Rightarrow> string" where
  "skip_space s = dropWhile json_space s"

text \<open>The character after a backslash, when it is not \<^verbatim>\<open>u\<close>.\<close>

definition unescape :: "char \<Rightarrow> char option" where
  "unescape c =
     (if c = chr_quote \<or> c = chr_backslash \<or> c = chr_slash then Some c
      else if c = CHR ''b'' then Some (CHR 0x08)
      else if c = CHR ''f'' then Some (CHR 0x0C)
      else if c = CHR ''n'' then Some (CHR 0x0A)
      else if c = CHR ''r'' then Some (CHR 0x0D)
      else if c = CHR ''t'' then Some (CHR 0x09)
      else None)"

text \<open>An escape sequence, after its backslash.\<close>

fun scan_escape :: "string \<Rightarrow> (char \<times> string) option" where
  "scan_escape [] = None"
| "scan_escape (e # r) =
     (if e = CHR ''u'' then
        (if 4 \<le> length r \<and> list_all (\<lambda>x. hexval x \<noteq> None) (take 4 r) \<and> parse_base 16 (take 4 r) < 256
         then Some (char_of (parse_base 16 (take 4 r)), drop 4 r) else None)
      else map_option (\<lambda>d. (d, r)) (unescape e))"

lemma scan_escape_shorter: "scan_escape s = Some (d, t) \<Longrightarrow> length t < length s"
  by (cases s) (auto split: if_splits)

text \<open>The rest of a string literal, after its opening quote.\<close>

function scan_string :: "string \<Rightarrow> (string \<times> string) option" where
  "scan_string s =
     (case s of
        [] \<Rightarrow> None
      | c # r \<Rightarrow>
          if c = chr_quote then Some ([], r)
          else if c = chr_backslash then
            (case scan_escape r of
               None \<Rightarrow> None
             | Some (d, t) \<Rightarrow> map_option (apfst ((#) d)) (scan_string t))
          else if ord c < 0x20 then None
          else map_option (apfst ((#) c)) (scan_string r))"
  by pat_completeness auto
termination
  by (relation "measure length") (auto dest: scan_escape_shorter)

declare scan_string.simps [simp del]

text \<open>An integer literal \<^verbatim>\<open>-?(0|[1-9][0-9]*)\<close> that no fraction or exponent follows.\<close>

definition int_digits :: "string \<Rightarrow> string" where
  "int_digits t = (if starts_with ''0'' t then ''0'' else takeWhile is_digit t)"

definition scan_nat :: "string \<Rightarrow> (nat \<times> string) option" where
  "scan_nat t = (let ds = int_digits t; r = drop (length ds) t
     in if ds = [] \<or> (r \<noteq> [] \<and> hd r \<in> {CHR ''.'', CHR ''e'', CHR ''E''}) then None
        else Some (parse_base 10 ds, r))"

definition scan_int :: "string \<Rightarrow> (pyval \<times> string) option" where
  "scan_int s =
     (if starts_with ''-'' s then map_option (apfst (\<lambda>n. PInt (- int n))) (scan_nat (drop 1 s))
      else map_option (apfst (\<lambda>n. PInt (int n))) (scan_nat s))"

section \<open>Values\<close>

text \<open>
  The fuel bounds the nesting and the number of steps; \<open>parse_fuel\<close> below shows that a run with
  at least twice the length of the text never ends for lack of it.
\<close>

fun parse_value :: "nat \<Rightarrow> string \<Rightarrow> (pyval \<times> string) option"
and parse_elems :: "nat \<Rightarrow> string \<Rightarrow> (pyval list \<times> string) option"
and parse_members :: "nat \<Rightarrow> dict \<Rightarrow> string \<Rightarrow> (dict \<times> string) option" where
  "parse_value 0 s = None"
| "parse_value (Suc n) s =
     (case s of
        [] \<Rightarrow> None
      | c # r \<Rightarrow>
          if c = chr_quote then map_option (apfst PStr) (scan_string r)
          else if c = CHR ''{'' then
            (case skip_space r of
               [] \<Rightarrow> None
             | c' # r' \<Rightarrow> if c' = CHR ''}'' then Some (PDict [], r')
                 else map_option (apfst PDict) (parse_members n [] (c' # r')))
          else if c = CHR ''['' then
            (case skip_space r of
               [] \<Rightarrow> None
             | c' # r' \<Rightarrow> if c' = CHR '']'' then Some (PList [], r')
                 else map_option (apfst PList) (parse_elems n (c' # r')))
          else if starts_with ''null'' s then Some (PNone, drop 4 s)
          else if starts_with ''true'' s then Some (PBool True, drop 4 s)
          else if starts_with ''false'' s then Some (PBool False, drop 5 s)
          else scan_int s)"
| "parse_elems 0 s = None"
| "parse_elems (Suc n) s =
     (case parse_value n s of
        None \<Rightarrow> None
      | Some (v, r) \<Rightarrow>
          (case skip_space r of
             [] \<Rightarrow> None
           | c # r' \<Rightarrow>
               if c = CHR '']'' then Some ([v], r')
               else if c = CHR '','' then map_option (apfst ((#) v)) (parse_elems n (skip_space r'))
               else None))"
| "parse_members 0 d s = None"
| "parse_members (Suc n) d s =
     (case s of
        [] \<Rightarrow> None
      | q # s' \<Rightarrow>
          if q \<noteq> chr_quote then None
          else (case scan_string s' of
              None \<Rightarrow> None
            | Some (k, r) \<Rightarrow>
                (case skip_space r of
                   [] \<Rightarrow> None
                 | c # r' \<Rightarrow>
                     if c \<noteq> CHR '':'' then None
                     else (case parse_value n (skip_space r') of
                         None \<Rightarrow> None
                       | Some (v, t) \<Rightarrow>
                           (case skip_space t of
                              [] \<Rightarrow> None
                            | e # t' \<Rightarrow>
                                if e = CHR ''}'' then Some (AList.update k v d, t')
                                else if e = CHR '','' then
                                  parse_members n (AList.update k v d) (skip_space t')
                                else None)))))"

text \<open>\<^verbatim>\<open>json.loads\<close> of a text, and of the bytes of a file.\<close>

definition json_loads :: "string \<Rightarrow> pyval res" where
  "json_loads s = (case parse_value (2 * length s + 2) (skip_space s) of
     None \<Rightarrow> Inl ValueError
   | Some (v, r) \<Rightarrow> if skip_space r = [] then Inr v else Inl ValueError)"

definition json_loads_bytes :: "byte list \<Rightarrow> pyval res" where
  "json_loads_bytes bs = (case utf8_decode bs of None \<Rightarrow> Inl ValueError | Some s \<Rightarrow> json_loads s)"

section \<open>Round trip of the tokens\<close>

lemma utf8_decode_char: "utf8_decode (utf8_char c @ bs) = map_option ((#) c) (utf8_decode bs)"
proof -
  define n where "n = ord c"
  have n: "n < 256" and c: "char_of n = c"
    unfolding n_def using ord_less [of c] by (simp_all add: ord_def)
  show ?thesis
  proof (cases "n < 0x80")
    case True
    moreover have "unat (of_nat n :: byte) = n" using n by (simp add: unat_of_nat)
    ultimately show ?thesis by (simp add: utf8_char_def n_def [symmetric] c)
  next
    case False
    define b where "b = 0xC0 + n div 0x40"
    define d where "d = 0x80 + n mod 0x40"
    have b: "b = 0xC2 \<or> b = 0xC3" using False n unfolding b_def by linarith
    have d: "0x80 \<le> d" "d < 0xC0" unfolding d_def by simp_all
    have u: "unat (of_nat b :: byte) = b" "unat (of_nat d :: byte) = d"
      using b d by (auto simp: unat_of_nat)
    have "(b - 0xC0) * 0x40 + (d - 0x80) = n"
      unfolding b_def d_def by simp
    moreover have "utf8_char c = [of_nat b, of_nat d]"
      using False by (simp add: utf8_char_def n_def [symmetric] b_def d_def)
    moreover have "128 \<le> b" "\<not> b < 128" using b by auto
    ultimately show ?thesis
      using b d u c by (simp del: of_nat_add)
  qed
qed

lemma utf8_decode_encode [simp]: "utf8_decode (utf8_encode s) = Some s"
  by (induction s) (simp_all add: utf8_encode_def utf8_decode_char)

lemma scan_esc_char: "scan_string (esc_char c @ r) = map_option (apfst ((#) c)) (scan_string r)"
proof (cases "ord c < 0x20")
  case True
  define n where "n = ord c"
  have n: "n < 0x20" and c: "c = char_of n" using True by (simp_all add: n_def ord_def)
  have hex: "hexval (hex_digit (n div 16)) = Some (n div 16)"
       "hexval (hex_digit (n mod 16)) = Some (n mod 16)"
    using n by (simp_all add: hexval_hex_digit del: hexval.simps)
  have zero: "hexval (CHR ''0'') = Some 0" by code_simp
  have val: "parse_base 16 [CHR ''0'', CHR ''0'', hex_digit (n div 16), hex_digit (n mod 16)] = n"
    using zero hex by (simp add: parse_base_def del: hexval.simps)
  have neq: "c \<noteq> chr_quote" "c \<noteq> chr_backslash"
    using True by (auto simp: ord_def)
  show ?thesis
    unfolding esc_char_def n_def [symmetric]
    using n neq val zero hex
    by (auto simp: scan_string.simps c [symmetric] unescape_def simp del: hexval.simps)
next
  case False
  have ctl: "c \<noteq> CHR 0x08" "c \<noteq> CHR 0x0C" "c \<noteq> CHR 0x0A" "c \<noteq> CHR 0x0D" "c \<noteq> CHR 0x09"
    using False by (auto simp: ord_def)
  then show ?thesis
    unfolding esc_char_def using False by (auto simp: scan_string.simps unescape_def)
qed

lemma scan_json_string: "scan_string (concat (map esc_char s) @ chr_quote # r) = Some (s, r)"
  by (induction s) (simp_all add: scan_esc_char, simp add: scan_string.simps)

lemma hex_digit_0: "hex_digit 0 = CHR ''0''"
  by code_simp

lemma hex_digit_zero: "n < 16 \<Longrightarrow> hex_digit n = CHR ''0'' \<longleftrightarrow> n = 0"
  using hex_digit_inj [of n 0] hex_digit_0 by simp

lemma show_base_zero: "starts_with ''0'' (show_base 10 n @ r) \<Longrightarrow> n = 0"
proof (induction "10::nat" n arbitrary: r rule: show_base.induct)
  case (1 n)
  show ?case
  proof (cases "n < 10")
    case True
    with 1(2) show ?thesis
      by (simp add: show_base.simps [of 10 n] starts_with_def hex_digit_zero)
  next
    case False
    then have "n div 10 = 0"
      using 1 by (simp add: show_base.simps [of 10 n])
    with False show ?thesis by simp
  qed
qed

lemma delim_no_digit: "delim r \<Longrightarrow> takeWhile is_digit r = []"
  by (cases r) (auto simp: delim_def is_digit_def)

lemma delim_no_fraction: "delim r \<Longrightarrow> \<not> (r \<noteq> [] \<and> hd r \<in> {CHR ''.'', CHR ''e'', CHR ''E''})"
  by (cases r) (auto simp: delim_def)

lemma int_digits_show:
  assumes "delim r"
  shows "int_digits (show_base 10 n @ r) = show_base 10 n"
proof (cases "starts_with ''0'' (show_base 10 n @ r)")
  case True
  then have "n = 0" by (rule show_base_zero)
  then show ?thesis
    using True by (simp add: int_digits_def show_base.simps hex_digit_0)
next
  case False
  then show ?thesis
    using show_base_digits [of n] delim_no_digit [OF assms]
    by (simp add: int_digits_def takeWhile_append list_all_iff)
qed

lemma scan_nat_show: "delim r \<Longrightarrow> scan_nat (show_base 10 n @ r) = Some (n, r)"
  using delim_no_fraction [of r] by (simp add: scan_nat_def int_digits_show parse_show_base Let_def)

lemma show_base_no_minus: "\<not> starts_with ''-'' (show_base 10 n @ r)"
proof -
  obtain c t where s: "show_base 10 n = c # t" by (cases "show_base 10 n") simp_all
  then have "is_digit c" using show_base_digits [of n] by simp
  then show ?thesis using s minus_not_digit by (auto simp: starts_with_def)
qed

lemma scan_show_int: "delim r \<Longrightarrow> scan_int (show_int n @ r) = Some (PInt n, r)"
  by (simp add: scan_int_def show_int_def scan_nat_show show_base_no_minus)
     (simp add: starts_with_def)

section \<open>Round trip of the values\<close>

lemma starts_with_Cons [simp]:
  "starts_with (p # ps) (c # cs) \<longleftrightarrow> p = c \<and> starts_with ps cs"
  "starts_with [] s" "\<not> starts_with (p # ps) []"
  by (auto simp: starts_with_def)

text \<open>The first character of a rendered value decides the branch of the parser.\<close>

lemma render_start:
  assumes "json_value v"
  shows "\<exists>c u. render v = c # u \<and> \<not> json_space c \<and> c \<noteq> CHR '']'' \<and> c \<noteq> CHR ''}''"
proof (cases v)
  case (PInt n)
  then obtain c u where s: "show_int n = c # u" by (cases "show_int n") auto
  then have "int_char c" using show_int_chars [of n] by simp
  then have "\<not> json_space c \<and> c \<noteq> CHR '']'' \<and> c \<noteq> CHR ''}''"
    by (auto simp: int_char_def is_digit_def json_space_def)
  with s PInt show ?thesis by simp
qed (use assms in \<open>auto simp: json_string_def json_space_def\<close>)

lemma skip_space_render [simp]: "json_value v \<Longrightarrow> skip_space (render v @ t) = render v @ t"
  using render_start [of v] by (auto simp: skip_space_def)

lemma skip_space_token [simp]: "\<not> json_space c \<Longrightarrow> skip_space (c # t) = c # t"
  by (simp add: skip_space_def)

lemma not_json_space [simp]: "\<not> json_space (CHR '','')" "\<not> json_space (CHR '']'')" "\<not> json_space (CHR ''}'')"
    "\<not> json_space (CHR '':'')" "\<not> json_space chr_quote"
  by (simp_all add: json_space_def)

lemma delim_tokens [simp]: "delim (CHR '','' # t)" "delim (CHR '']'' # t)" "delim (CHR ''}'' # t)" "delim []"
  by (simp_all add: delim_def)

abbreviation parses :: "pyval \<Rightarrow> bool" where
  "parses v \<equiv> (\<forall>n r. delim r \<longrightarrow> 2 * length (render v) \<le> n \<longrightarrow> parse_value n (render v @ r) = Some (v, r))"

lemma parse_elems_render:
  assumes "xs \<noteq> []" and "\<And>x. x \<in> set xs \<Longrightarrow> json_value x \<and> parses x"
    and "2 * length (comma_join (map render xs)) + 1 \<le> n"
  shows "parse_elems n (comma_join (map render xs) @ CHR '']'' # r) = Some (xs, r)"
  using assms
proof (induction xs arbitrary: n)
  case (Cons x xs)
  obtain m where n: "n = Suc m" using Cons.prems(3) by (cases n) auto
  have x: "json_value x" "parses x" using Cons.prems(2) by auto
  show ?case
  proof (cases "xs = []")
    case True
    with x n Cons.prems(3) show ?thesis by simp
  next
    case False
    then obtain y ys where ys: "xs = y # ys" by (cases xs) auto
    then have "json_value y" using Cons.prems(2) by auto
    then have sk: "skip_space (comma_join (map render xs) @ t) = comma_join (map render xs) @ t" for t
      using ys by (cases ys) simp_all
    have len: "length (comma_join (map render (x # xs))) = length (render x) + 1 + length (comma_join (map render xs))"
      using ys by simp
    have "parse_elems m (comma_join (map render xs) @ CHR '']'' # r) = Some (xs, r)"
      using Cons.prems len n False by (intro Cons.IH) auto
    moreover have "parse_value m (render x @ CHR '','' # comma_join (map render xs) @ CHR '']'' # r)
        = Some (x, CHR '','' # comma_join (map render xs) @ CHR '']'' # r)"
      using x n Cons.prems(3) len by simp
    ultimately show ?thesis
      using n sk ys by simp
  qed
qed simp

abbreviation render_member :: "string \<times> pyval \<Rightarrow> string" where
  "render_member \<equiv> \<lambda>(k, v). json_string k @ '':'' @ render v"

lemma parse_member:
  assumes "json_value v" and "parse_value m (render v @ e # t) = Some (v, e # t)" and "\<not> json_space e"
  shows "parse_members (Suc m) acc (json_string k @ CHR '':'' # render v @ e # t) =
     (if e = CHR ''}'' then Some (AList.update k v acc, t)
      else if e = CHR '','' then parse_members m (AList.update k v acc) (skip_space t) else None)"
  using assms by (simp add: json_string_def scan_json_string)

lemma parse_members_render:
  assumes "d \<noteq> []" and "\<And>k v. (k, v) \<in> set d \<Longrightarrow> json_value v \<and> parses v"
    and "distinct (keys (acc @ d))"
    and "2 * length (comma_join (map render_member d)) + 1 \<le> n"
  shows "parse_members n acc (comma_join (map render_member d) @ CHR ''}'' # r) = Some (acc @ d, r)"
  using assms
proof (induction d arbitrary: n acc)
  case (Cons kv d)
  obtain k v where kv: "kv = (k, v)" by force
  obtain m where n: "n = Suc m" using Cons.prems(4) by (cases n) auto
  have v: "json_value v" "parses v" using Cons.prems(2) kv by auto
  have upd: "AList.update k v acc = acc @ [(k, v)]"
    using Cons.prems(3) kv by (intro update_new) (auto simp: keys_def)
  show ?case
  proof (cases "d = []")
    case True
    have "parse_value m (render v @ CHR ''}'' # r) = Some (v, CHR ''}'' # r)"
      using v n kv Cons.prems(4) True by simp
    from parse_member [OF v(1) this] show ?thesis
      using True n kv upd by simp
  next
    case False
    then obtain k' v' ds where ds: "d = (k', v') # ds" by (cases d) auto
    have sk: "skip_space (comma_join (map render_member d) @ t) = comma_join (map render_member d) @ t" for t
      using ds by (cases ds) (simp_all add: json_string_def)
    have len: "length (comma_join (map render_member (kv # d)))
        = length (render_member kv) + 1 + length (comma_join (map render_member d))"
      using ds by simp
    define J where "J = comma_join (map render_member d) @ CHR ''}'' # r"
    have "parse_members m (acc @ [(k, v)]) J = Some ((acc @ [(k, v)]) @ d, r)"
      unfolding J_def using Cons.prems len n kv False by (intro Cons.IH) (auto simp: keys_def)
    moreover have pv: "parse_value m (render v @ CHR '','' # J) = Some (v, CHR '','' # J)"
      using v n kv Cons.prems(4) len by simp
    moreover have eq: "comma_join (map render_member (kv # d)) @ CHR ''}'' # r =
        json_string k @ CHR '':'' # render v @ CHR '','' # J"
      using ds kv by (simp add: J_def)
    moreover have "skip_space J = J"
      unfolding J_def by (rule sk)
    ultimately show ?thesis
      unfolding eq n using parse_member [OF v(1) pv] upd kv by (simp del: parse_members.simps)
  qed
qed simp

lemma parse_render: "json_value v \<Longrightarrow> wf_pyval v \<Longrightarrow> parses v"
proof (induction v rule: render.induct)
  case (3 k)
  show ?case
  proof (intro allI impI)
    fix n r
    assume r: "delim r" and len: "2 * length (render (PInt k)) \<le> n"
    obtain c u where s: "show_int k = c # u" by (cases "show_int k") auto
    then have c: "int_char c" using show_int_chars [of k] by simp
    obtain m where "n = Suc m" using len s by (cases n) auto
    moreover have "c \<notin> {chr_quote, CHR ''{'', CHR ''['', CHR ''n'', CHR ''t'', CHR ''f''}"
      using c by (auto simp: int_char_def is_digit_def)
    ultimately show "parse_value n (render (PInt k) @ r) = Some (PInt k, r)"
      using s scan_show_int [OF r, of k] by auto
  qed
next
  case (6 xs)
  show ?case
  proof (intro allI impI)
    fix n r
    assume len: "2 * length (render (PList xs)) \<le> n"
    obtain m where n: "n = Suc m" using len by (cases n) auto
    show "parse_value n (render (PList xs) @ r) = Some (PList xs, r)"
    proof (cases xs)
      case Nil
      with n show ?thesis by simp
    next
      case (Cons x ys)
      then have "json_value x" using 6 by simp
      then obtain c u where c: "render x = c # u" "\<not> json_space c" "c \<noteq> CHR '']''"
        using render_start by blast
      then obtain t where t: "comma_join (map render xs) @ CHR '']'' # r = c # t"
        using Cons by (cases ys) auto
      have "parse_elems m (comma_join (map render xs) @ CHR '']'' # r) = Some (xs, r)"
        using 6 Cons len n by (intro parse_elems_render) (auto simp: list_all_iff)
      then show ?thesis
        using n t c by simp
    qed
  qed
next
  case (7 d)
  have ih: "json_value v \<and> parses v" if "(k, v) \<in> set d" for k v
  proof -
    have "json_value v" "wf_pyval v"
      using that 7(2,3) by (auto simp: list_all_iff)
    then show ?thesis using 7(1) that by blast
  qed
  show ?case
  proof (intro allI impI)
    fix n r
    assume len: "2 * length (render (PDict d)) \<le> n"
    obtain m where n: "n = Suc m" using len by (cases n) auto
    show "parse_value n (render (PDict d) @ r) = Some (PDict d, r)"
    proof (cases d)
      case Nil
      with n show ?thesis by simp
    next
      case (Cons kv ds)
      obtain k v where kv: "kv = (k, v)" by force
      then obtain t where t: "comma_join (map render_member d) @ CHR ''}'' # r = chr_quote # t"
        using Cons by (cases ds) (auto simp: json_string_def)
      have "parse_members m [] (comma_join (map render_member d) @ CHR ''}'' # r) = Some ([] @ d, r)"
        using 7(3) ih Cons len n by (intro parse_members_render) (simp_all add: keys_def)
      then show ?thesis
        using n t by simp
    qed
  qed
next
  case 1
  show ?case
  proof (intro allI impI)
    fix n r
    assume "2 * length (render PNone) \<le> n"
    then obtain m where "n = Suc m" by (cases n) auto
    then show "parse_value n (render PNone @ r) = Some (PNone, r)" by simp
  qed
next
  case (2 b)
  show ?case
  proof (intro allI impI)
    fix n r
    assume "2 * length (render (PBool b)) \<le> n"
    then obtain m where "n = Suc m" by (cases n) (auto split: if_splits)
    then show "parse_value n (render (PBool b) @ r) = Some (PBool b, r)" by simp
  qed
next
  case (4 s)
  show ?case
  proof (intro allI impI)
    fix n r
    assume "2 * length (render (PStr s)) \<le> n"
    then obtain m where "n = Suc m" by (cases n) (auto simp: json_string_def)
    then show "parse_value n (render (PStr s) @ r) = Some (PStr s, r)"
      by (simp add: json_string_def scan_json_string)
  qed
qed simp

text \<open>Every scanner consumes text, so twice the length of the text is fuel enough.\<close>

lemma scan_string_shorter: "scan_string s = Some (k, r) \<Longrightarrow> length r < length s"
proof (induction s arbitrary: k r rule: scan_string.induct)
  case (1 s)
  obtain c t where s: "s = c # t"
    using 1(3) by (cases s) (simp_all add: scan_string.simps)
  consider "c = chr_quote" | "c = chr_backslash" | "c \<noteq> chr_quote" "c \<noteq> chr_backslash" by blast
  then show ?case
  proof cases
    case 1
    with "1.prems" s show ?thesis by (simp add: scan_string.simps)
  next
    case 2
    then obtain d u k' where u: "scan_escape t = Some (d, u)" and k: "scan_string u = Some (k', r)"
      using "1.prems" s by (auto simp: scan_string.simps [of "_ # t"] split: option.splits)
    have "length r < length u"
      using "1.IH"(1) [OF s _ 2 u refl k] 2 by simp
    with scan_escape_shorter [OF u] s show ?thesis by simp
  next
    case 3
    then obtain k' where k: "\<not> ord c < 0x20" "scan_string t = Some (k', r)"
      using "1.prems" s by (auto simp: scan_string.simps [of "_ # t"] split: if_splits)
    with "1.IH"(2) [OF s 3 k] s show ?thesis by simp
  qed
qed

lemma skip_space_le: "length (skip_space s) \<le> length s"
  by (simp add: skip_space_def length_dropWhile_le)

lemma scan_int_shorter: "scan_int s = Some (v, r) \<Longrightarrow> length r < length s"
proof -
  have pos: "scan_nat t = Some (n, r) \<Longrightarrow> length r < length t" for t n
    by (cases t) (auto simp: scan_nat_def Let_def int_digits_def split: if_splits)
  have "length (drop 1 s) \<le> length s" by simp
  then show "scan_int s = Some (v, r) \<Longrightarrow> length r < length s"
    using pos [of s] pos [of "drop 1 s"] by (force simp: scan_int_def split: if_splits)
qed

lemma wf_pyval_canon: "wf_pyval v \<Longrightarrow> wf_pyval (canon v)"
proof (induction v rule: canon.induct)
  case (2 d)
  have "distinct (keys (sort_items (map (\<lambda>(k, v). (k, canon v)) d)))"
    using 2(2) by (simp add: keys_sort_items) (simp add: keys_def case_prod_unfold comp_def)
  with 2 show ?case by (auto simp: keys_def list_all_iff)
qed (auto simp: list_all_iff)

theorem json_loads_canonical:
  assumes "wf_pyval v" and "canonical_json_bytes v = Inr bs"
  shows "json_loads_bytes bs = Inr (canon v)"
proof -
  have v: "json_value v" and bs: "bs = utf8_encode (render (canon v))"
    using assms canonical_json_bytes_Inr_iff [of v bs] by (simp_all add: serialize_render)
  have cv: "json_value (canon v)" "wf_pyval (canon v)"
    using v assms(1) wf_pyval_canon by simp_all
  have "parse_value (2 * length (render (canon v)) + 2) (render (canon v) @ []) = Some (canon v, [])"
    using parse_render [OF cv] by (metis delim_tokens(4) le_add1)
  moreover have "skip_space (render (canon v) @ []) = render (canon v) @ []"
    using cv by (rule_tac skip_space_render)
  ultimately show ?thesis
    by (simp add: json_loads_bytes_def json_loads_def bs skip_space_def del: parse_value.simps)
qed

lemma skip_space_Cons_le: "skip_space t = c # u \<Longrightarrow> Suc (length u) \<le> length t"
  using skip_space_le [of t] by simp

lemma parse_value_Suc_shorter:
  assumes members: "\<And>s e r. parse_members n [] s = Some (e, r) \<Longrightarrow> length r < length s"
    and elems: "\<And>s xs r. parse_elems n s = Some (xs, r) \<Longrightarrow> length r < length s"
    and "parse_value (Suc n) s = Some (v, r)"
  shows "length r < length s"
proof -
  obtain c t where s: "s = c # t" using assms(3) by (cases s) auto
  consider "c = chr_quote" | x w where "skip_space t = x # w" "c = CHR ''{'' \<or> c = CHR ''[''"
    | "c \<noteq> chr_quote" "c \<noteq> CHR ''{''" "c \<noteq> CHR ''[''"
    using assms(3) s by (cases "skip_space t") (auto split: if_splits)
  then show ?thesis
  proof cases
    case 1
    then show ?thesis
      using assms(3) s by (auto dest: scan_string_shorter)
  next
    case 2
    have "length r \<le> length (x # w)"
      using assms(3) s 2 members [of "x # w"] elems [of "x # w"]
      by (auto split: if_splits simp: less_imp_le)
    then show ?thesis
      using s skip_space_Cons_le [OF 2(1)] by simp
  next
    case 3
    have "parse_value (Suc n) s =
        (if starts_with ''null'' s then Some (PNone, drop 4 s)
         else if starts_with ''true'' s then Some (PBool True, drop 4 s)
         else if starts_with ''false'' s then Some (PBool False, drop 5 s)
         else scan_int s)"
      using s 3 by (simp del: starts_with_Cons)
    then have "r = drop 4 s \<or> r = drop 5 s \<or> scan_int s = Some (v, r)"
      using assms(3) by (simp split: if_splits)
    then show ?thesis
      using s scan_int_shorter [of s v r] by auto
  qed
qed

lemma parse_shorter:
  "(\<forall>s v r. parse_value n s = Some (v, r) \<longrightarrow> length r < length s) \<and>
   (\<forall>s xs r. parse_elems n s = Some (xs, r) \<longrightarrow> length r < length s) \<and>
   (\<forall>s d e r. parse_members n d s = Some (e, r) \<longrightarrow> length r < length s)"
proof (induction n)
  case (Suc n)
  have v: "length r < length s" if "parse_value n s = Some (v, r)" for s v r
    using Suc that by blast
  have e: "length r < length s" if "parse_elems n s = Some (xs, r)" for s xs r
    using Suc that by blast
  have m: "length r < length s" if "parse_members n d s = Some (e, r)" for d s e r
    using Suc that by blast
  have elems: "length r < length s" if p: "parse_elems (Suc n) s = Some (xs, r)" for s xs r
  proof -
    obtain w t c u where w: "parse_value n s = Some (w, t)" and c: "skip_space t = c # u"
      using p by (auto split: option.splits list.splits)
    have "length r \<le> length u"
      using p w c e [of "skip_space u"] skip_space_le [of u] by (fastforce split: if_splits)
    with v [OF w] skip_space_Cons_le [OF c] show ?thesis by simp
  qed
  have members: "length r < length s" if p: "parse_members (Suc n) d s = Some (d', r)" for d s d' r
  proof -
    obtain s' k t c u where s: "s = chr_quote # s'" and k: "scan_string s' = Some (k, t)"
      and c: "skip_space t = c # u" "c = CHR '':''"
      using p by (auto split: option.splits list.splits if_splits)
    obtain w x y z where w: "parse_value n (skip_space u) = Some (w, x)" and y: "skip_space x = y # z"
      using p s k c by (auto split: option.splits list.splits if_splits)
    have "length r \<le> length z"
      using p s k c w y m [of _ "skip_space z"] skip_space_le [of z] by (fastforce split: if_splits)
    with v [OF w] skip_space_Cons_le [OF y] skip_space_le [of u] skip_space_Cons_le [OF c(1)]
      scan_string_shorter [OF k] s show ?thesis by simp
  qed
  show ?case
    using parse_value_Suc_shorter [of n] m e elems members by blast
qed simp


lemma parse_more_fuel:
  "(\<forall>s m. 2 * length s + 1 \<le> n \<longrightarrow> n \<le> m \<longrightarrow> parse_value m s = parse_value n s) \<and>
   (\<forall>s m. 2 * length s + 2 \<le> n \<longrightarrow> n \<le> m \<longrightarrow> parse_elems m s = parse_elems n s) \<and>
   (\<forall>s d m. 2 * length s + 2 \<le> n \<longrightarrow> n \<le> m \<longrightarrow> parse_members m d s = parse_members n d s)"
proof (induction n)
  case (Suc n)
  have v: "parse_value m s = parse_value n s" if "2 * length s + 1 \<le> n" "n \<le> m" for s m
    using Suc that by blast
  have e: "parse_elems m s = parse_elems n s" if "2 * length s + 2 \<le> n" "n \<le> m" for s m
    using Suc that by blast
  have mb: "parse_members m d s = parse_members n d s" if "2 * length s + 2 \<le> n" "n \<le> m" for d s m
    using Suc that by blast
  have val: "parse_value (Suc m) s = parse_value (Suc n) s" if "2 * length s + 1 \<le> Suc n" "n \<le> m" for s m
  proof (cases s)
    case (Cons c t)
    show ?thesis
    proof (cases "skip_space t")
      case (Cons x w)
      have "2 * length (x # w) + 2 \<le> n"
        using skip_space_Cons_le [OF Cons] that \<open>s = c # t\<close> by simp
      then show ?thesis
        using e [of "x # w" m] mb [of "x # w" m] that Cons \<open>s = c # t\<close> by simp
    qed (simp add: Cons)
  qed simp
  have elems: "parse_elems (Suc m) s = parse_elems (Suc n) s" if b: "2 * length s + 2 \<le> Suc n" "n \<le> m" for s m
  proof (cases "parse_value n s")
    case None
    then show ?thesis using v [of s m] b by simp
  next
    case (Some p)
    obtain w t where p: "p = (w, t)" by force
    have t: "length t < length s" using parse_shorter [of n] Some p by blast
    have "parse_elems m (skip_space u) = parse_elems n (skip_space u)" if "skip_space t = x # u" for x u
      using skip_space_Cons_le [OF that] skip_space_le [of u] t b by (intro e) auto
    then show ?thesis
      using v [of s m] b Some p by (auto split: list.splits)
  qed
  have members: "parse_members (Suc m) d s = parse_members (Suc n) d s"
    if b: "2 * length s + 2 \<le> Suc n" "n \<le> m" for d s m
  proof -
    have inner: "parse_value m (skip_space u) = parse_value n (skip_space u)"
      if "s = q # s'" "scan_string s' = Some (k, t)" "skip_space t = x # u" for q s' k t x u
      using that skip_space_Cons_le [OF that(3)] skip_space_le [of u] scan_string_shorter [OF that(2)] b
      by (intro v) auto
    have rest: "parse_members m d' (skip_space z) = parse_members n d' (skip_space z)"
      if "s = q # s'" "scan_string s' = Some (k, t)" "skip_space t = x # u"
        "parse_value n (skip_space u) = Some (w, y)" "skip_space y = x' # z" for q s' k t x u w y x' z d'
    proof -
      have "length y < length (skip_space u)" using parse_shorter [of n] that(4) by blast
      then show ?thesis
        using that(1) skip_space_Cons_le [OF that(3)] skip_space_le [of u] scan_string_shorter [OF that(2)]
          skip_space_Cons_le [OF that(5)] skip_space_le [of z] b
        by (intro mb) auto
    qed
    show ?thesis
      by (auto split: list.splits option.splits simp: inner rest)
  qed
  show ?case
  proof (intro conjI allI impI)
    fix s :: string and m assume "2 * length s + 1 \<le> Suc n" "Suc n \<le> m"
    then show "parse_value m s = parse_value (Suc n) s" using val [of s "m - 1"] by (cases m) auto
  next
    fix s :: string and m assume "2 * length s + 2 \<le> Suc n" "Suc n \<le> m"
    then show "parse_elems m s = parse_elems (Suc n) s" using elems [of s "m - 1"] by (cases m) auto
  next
    fix s :: string and d m assume "2 * length s + 2 \<le> Suc n" "Suc n \<le> m"
    then show "parse_members m d s = parse_members (Suc n) d s" using members [of s "m - 1"] by (cases m) auto
  qed
qed simp

lemma parse_fuel:
  "2 * length s + 2 \<le> n \<Longrightarrow> parse_value n (skip_space s) = parse_value (2 * length s + 2) (skip_space s)"
  using parse_more_fuel [of "2 * length s + 2"] skip_space_le [of s] by simp

section \<open>The text of a value\<close>

text \<open>\<^verbatim>\<open>repr\<close> of a string or of bytes, and \<^verbatim>\<open>str\<close> and \<^verbatim>\<open>repr\<close> of the other values.\<close>

definition repr_char :: "bool \<Rightarrow> char \<Rightarrow> char \<Rightarrow> string" where
  "repr_char ascii q c = (let n = ord c in
     if c = q \<or> c = chr_backslash then [chr_backslash, c]
     else if c = CHR 0x0A then [chr_backslash, CHR ''n'']
     else if c = CHR 0x0D then [chr_backslash, CHR ''r'']
     else if c = CHR 0x09 then [chr_backslash, CHR ''t'']
     else if n < 0x20 \<or> n = 0x7F \<or> (0x80 \<le> n \<and> n \<le> 0xA0) \<or> n = 0xAD \<or> (ascii \<and> 0x80 \<le> n)
     then [chr_backslash, CHR ''x'', hex_digit (n div 16), hex_digit (n mod 16)]
     else [c])"

definition repr_text :: "bool \<Rightarrow> string \<Rightarrow> string" where
  "repr_text ascii s = (let q = (if CHR 0x27 \<in> set s \<and> chr_quote \<notin> set s then chr_quote else CHR 0x27)
     in q # concat (map (repr_char ascii q) s) @ [q])"

fun comma_space :: "string list \<Rightarrow> string" where
  "comma_space [] = []"
| "comma_space [p] = p"
| "comma_space (p # q # ps) = p @ '', '' @ comma_space (q # ps)"

fun py_repr :: "pyval \<Rightarrow> string" where
  "py_repr PNone = ''None''"
| "py_repr (PBool b) = (if b then ''True'' else ''False'')"
| "py_repr (PInt n) = show_int n"
| "py_repr (PStr s) = repr_text False s"
| "py_repr (PBytes s) = CHR ''b'' # repr_text True s"
| "py_repr (PList xs) = ''['' @ comma_space (map py_repr xs) @ '']''"
| "py_repr (PDict d) = ''{'' @ comma_space (map (\<lambda>(k, v). repr_text False k @ '': '' @ py_repr v) d) @ ''}''"

definition py_str :: "pyval \<Rightarrow> string" where
  "py_str v = (case v of PStr s \<Rightarrow> s | _ \<Rightarrow> py_repr v)"

lemma py_str_PStr [simp]: "py_str (PStr s) = s"
  by (simp add: py_str_def)

lemma sort_items_idem: "sort_items (sort_items d) = sort_items d"
  unfolding sort_items_def by (rule sort_key_id_if_sorted) simp

lemma sort_items_cong: "(\<And>k v. (k, v) \<in> set d \<Longrightarrow> f v = g v) \<Longrightarrow>
    map (\<lambda>(k, v). (k, f v)) (sort_items d) = map (\<lambda>(k, v). (k, g v)) (sort_items d)"
  by auto

lemma canon_idem: "canon (canon v) = canon v"
proof (induction v rule: canon.induct)
  case (2 d)
  have "map (\<lambda>(k, v). (k, canon v)) (map (\<lambda>(k, v). (k, canon v)) d) = map (\<lambda>(k, v). (k, canon v)) d"
    using 2 by auto
  then show ?case
    by (simp only: canon.simps sort_items_map [symmetric] sort_items_idem)
qed simp_all

text \<open>
  C40: The canonical bytes of a document, read back by the JSON parser, give its normal form with the keys
  in ascending order, and writing that again gives the same bytes. The document holds no floats and its
  strings are from U+0000 to U+00FF, the values of the model.
\<close>

theorem json_document_roundtrip:
  assumes "normalize_json_value v = Inr n" and "canonical_json_bytes v = Inr bs"
  shows "json_loads_bytes bs = Inr (canon n) \<and> canonical_json_bytes (canon n) = Inr bs"
proof -
  have n: "wf_pyval n" "json_value n" using normalize_json_wf(1) [OF assms(1)] by simp_all
  have "bs = utf8_encode (serialize n)" using assms by (simp add: canonical_json_bytes_def)
  then have bs: "canonical_json_bytes n = Inr bs" using canonical_json_bytes_ok [OF n] by simp
  show ?thesis
    using json_loads_canonical [OF n(1) bs] n bs wf_pyval_canon [of n]
    by (simp add: canonical_json_bytes_Inr_iff serialize_render canon_idem)
qed

theorem json_document_roundtrip_witness:
  "canonical_json_bytes (PDict [(''b'', PList [PInt (-12), PBool True]), (''a'', PNone)])
     = Inr (utf8_encode (serialize (PDict [(''b'', PList [PInt (-12), PBool True]), (''a'', PNone)]))) \<and>
   json_loads_bytes (utf8_encode (serialize (PDict [(''b'', PList [PInt (-12), PBool True]), (''a'', PNone)])))
     = Inr (PDict [(''a'', PNone), (''b'', PList [PInt (-12), PBool True])])"
proof -
  let ?v = "PDict [(''b'', PList [PInt (-12), PBool True]), (''a'', PNone)]"
  have wf: "wf_pyval ?v" by simp
  have norm: "normalize_json_value ?v = Inr ?v" by (rule normalize_json_id(1) [OF wf]) simp
  have bs: "canonical_json_bytes ?v = Inr (utf8_encode (serialize ?v))"
    by (simp add: canonical_json_bytes_Inr_iff [OF wf] del: serialize.simps)
  have "canon ?v = PDict [(''a'', PNone), (''b'', PList [PInt (-12), PBool True])]"
    by (simp add: sort_items_def less_eq_list_code less_list_code less_char_def less_eq_char_def)
  with json_document_roundtrip [OF norm bs] bs show ?thesis by (simp del: serialize.simps canon.simps)
qed

end
