(* ===== verification/Filesystem.thy ===== *)
theory Filesystem
  imports Json "HOL-Library.Finite_Map"
begin

text \<open>
  The part of the file system that the reconciler reads and writes, and computations over it.

  A path is the list of its segments below the project root; the root itself is the empty list
  and always a directory. A file system is a finite map from paths to nodes. A symbolic link is
  a leaf that only records whether its target exists: the sources refuse links wherever they
  look at one, and what lies behind a link is outside the model. Modes are the permission and
  special bits.

  A computation returns the list of the states after each change it makes, in order, and its
  result. A process that dies leaves one of these states, so a statement about every state of
  the list is a statement about every crash point. Every change is one system call; the calls
  that only flush (\<^verbatim>\<open>fsync\<close>) change no state of the model.
\<close>

named_theorems io_simps \<open>symbolic execution of computations over the file system\<close>

section \<open>Nodes\<close>

type_synonym path = "string list"

datatype node = File "byte list" nat | Dir nat | Symlink bool | Special nat

type_synonym fs = "(path, node) fmap"

definition node_at :: "fs \<Rightarrow> path \<Rightarrow> node option" where
  "node_at s p = (if p = [] then Some (Dir 493) else fmlookup s p)"

text \<open>
  \<^verbatim>\<open>root / text\<close>: empty and \<^verbatim>\<open>.\<close> segments vanish. The paths of the sources are normalised,
  so no \<^verbatim>\<open>..\<close> occurs in them.
\<close>

definition path_of :: "string \<Rightarrow> path" where
  "path_of t = filter (\<lambda>p. p \<noteq> [] \<and> p \<noteq> ''.'') (split_on chr_slash t)"

definition path_text :: "path \<Rightarrow> string" where
  "path_text p = join_on chr_slash p"

abbreviation parent :: "path \<Rightarrow> path" where
  "parent p \<equiv> butlast p"

definition path_exists :: "fs \<Rightarrow> path \<Rightarrow> bool" where
  "path_exists s p = (case node_at s p of None \<Rightarrow> False | Some (Symlink live) \<Rightarrow> live | Some _ \<Rightarrow> True)"

definition is_symlink :: "fs \<Rightarrow> path \<Rightarrow> bool" where
  "is_symlink s p = (case node_at s p of Some (Symlink _) \<Rightarrow> True | _ \<Rightarrow> False)"

definition is_file :: "fs \<Rightarrow> path \<Rightarrow> bool" where
  "is_file s p = (case node_at s p of Some (File _ _) \<Rightarrow> True | _ \<Rightarrow> False)"

definition is_dir :: "fs \<Rightarrow> path \<Rightarrow> bool" where
  "is_dir s p = (case node_at s p of Some (Dir _) \<Rightarrow> True | _ \<Rightarrow> False)"

text \<open>\<^verbatim>\<open>any(path.iterdir())\<close>.\<close>

definition has_children :: "fs \<Rightarrow> path \<Rightarrow> bool" where
  "has_children s p = fBex (fmdom s) (\<lambda>q. q \<noteq> [] \<and> parent q = p)"

text \<open>Every node lies in a directory.\<close>

definition wf_fs :: "fs \<Rightarrow> bool" where
  "wf_fs s = fBall (fmdom s) (\<lambda>p. p \<noteq> [] \<and> is_dir s (parent p))"

section \<open>Computations\<close>

type_synonym 'a io = "fs \<Rightarrow> fs list \<times> 'a res"

definition iret :: "'a \<Rightarrow> 'a io" where
  "iret x s = ([], Inr x)"

definition iraise :: "exn \<Rightarrow> 'a io" where
  "iraise e s = ([], Inl e)"

definition ilift :: "'a res \<Rightarrow> 'a io" where
  "ilift r s = ([], r)"

definition iget :: "fs io" where
  "iget s = ([], Inr s)"

definition iread :: "(fs \<Rightarrow> 'a res) \<Rightarrow> 'a io" where
  "iread f s = ([], f s)"

text \<open>One change of the state, or an error that leaves it as it is.\<close>

definition istep :: "(fs \<Rightarrow> fs res) \<Rightarrow> unit io" where
  "istep f s = (case f s of Inl e \<Rightarrow> ([], Inl e) | Inr s' \<Rightarrow> ([s'], Inr ()))"

definition final :: "'a io \<Rightarrow> fs \<Rightarrow> fs" where
  "final m s = last (s # fst (m s))"

definition outcome :: "'a io \<Rightarrow> fs \<Rightarrow> 'a res" where
  "outcome m s = snd (m s)"

text \<open>The states a process running the computation can leave behind when it dies.\<close>

definition states :: "'a io \<Rightarrow> fs \<Rightarrow> fs list" where
  "states m s = s # fst (m s)"

definition ibnd :: "'a io \<Rightarrow> ('a \<Rightarrow> 'b io) \<Rightarrow> 'b io" where
  "ibnd m f s = (case m s of
     (t, Inl e) \<Rightarrow> (t, Inl e)
   | (t, Inr x) \<Rightarrow> (let (t', r) = f x (last (s # t)) in (t @ t', r)))"

text \<open>\<^verbatim>\<open>try: m finally: c\<close>: an exception of \<^verbatim>\<open>c\<close> replaces that of \<^verbatim>\<open>m\<close>.\<close>

definition ifinally :: "'a io \<Rightarrow> unit io \<Rightarrow> 'a io" where
  "ifinally m c s = (let (t, r) = m s; (t', r') = c (last (s # t))
     in (t @ t', case r' of Inl e \<Rightarrow> Inl e | Inr _ \<Rightarrow> r))"

fun imap :: "('a \<Rightarrow> 'b io) \<Rightarrow> 'a list \<Rightarrow> 'b list io" where
  "imap f [] = iret []"
| "imap f (x # xs) = ibnd (f x) (\<lambda>y. ibnd (imap f xs) (\<lambda>ys. iret (y # ys)))"

definition iforeach :: "('a \<Rightarrow> unit io) \<Rightarrow> 'a list \<Rightarrow> unit io" where
  "iforeach f xs = ibnd (imap f xs) (\<lambda>_. iret ())"

definition iwhen :: "bool \<Rightarrow> unit io \<Rightarrow> unit io" where
  "iwhen b m = (if b then m else iret ())"

definition irequire :: "bool \<Rightarrow> exn \<Rightarrow> unit io" where
  "irequire b e = (if b then iret () else iraise e)"

section \<open>System calls\<close>

definition mkdir_fs :: "path \<Rightarrow> nat \<Rightarrow> fs \<Rightarrow> fs res" where
  "mkdir_fs p m s =
     (if node_at s p \<noteq> None then Inl (OSError ''FileExistsError'')
      else if \<not> is_dir s (parent p) then Inl (OSError ''FileNotFoundError'')
      else Inr (fmupd p (Dir m) s))"

definition unlink_fs :: "path \<Rightarrow> fs \<Rightarrow> fs res" where
  "unlink_fs p s = (case node_at s p of
     None \<Rightarrow> Inl (OSError ''FileNotFoundError'')
   | Some (Dir _) \<Rightarrow> Inl (OSError ''IsADirectoryError'')
   | Some _ \<Rightarrow> Inr (fmdrop p s))"

definition rmdir_fs :: "path \<Rightarrow> fs \<Rightarrow> fs res" where
  "rmdir_fs p s = (case node_at s p of
     None \<Rightarrow> Inl (OSError ''FileNotFoundError'')
   | Some (Dir _) \<Rightarrow> if p = [] \<or> has_children s p then Inl (OSError ''OSError'') else Inr (fmdrop p s)
   | Some _ \<Rightarrow> Inl (OSError ''NotADirectoryError''))"

text \<open>\<^verbatim>\<open>open(path, O_CREAT | O_TRUNC | O_WRONLY, mode)\<close>: an existing file keeps its mode.\<close>

definition create_fs :: "path \<Rightarrow> nat \<Rightarrow> fs \<Rightarrow> fs res" where
  "create_fs p m s = (case node_at s p of
     None \<Rightarrow> if is_dir s (parent p) then Inr (fmupd p (File [] m) s)
             else Inl (OSError ''FileNotFoundError'')
   | Some (File _ k) \<Rightarrow> Inr (fmupd p (File [] k) s)
   | Some _ \<Rightarrow> Inl (OSError ''OSError''))"

text \<open>\<^verbatim>\<open>open(path, O_CREAT | O_EXCL)\<close>, as \<^verbatim>\<open>mkstemp\<close> uses it.\<close>

definition create_excl_fs :: "path \<Rightarrow> nat \<Rightarrow> fs \<Rightarrow> fs res" where
  "create_excl_fs p m s =
     (if node_at s p \<noteq> None then Inl (OSError ''FileExistsError'')
      else if \<not> is_dir s (parent p) then Inl (OSError ''FileNotFoundError'')
      else Inr (fmupd p (File [] m) s))"

definition write_fs :: "path \<Rightarrow> byte list \<Rightarrow> fs \<Rightarrow> fs res" where
  "write_fs p bs s = (case node_at s p of
     Some (File _ m) \<Rightarrow> Inr (fmupd p (File bs m) s)
   | _ \<Rightarrow> Inl (OSError ''OSError''))"

definition chmod_fs :: "path \<Rightarrow> nat \<Rightarrow> fs \<Rightarrow> fs res" where
  "chmod_fs p m s = (case node_at s p of
     Some (File bs _) \<Rightarrow> Inr (fmupd p (File bs m) s)
   | Some (Dir _) \<Rightarrow> Inr (fmupd p (Dir m) s)
   | Some (Special _) \<Rightarrow> Inr (fmupd p (Special m) s)
   | Some (Symlink _) \<Rightarrow> Inl (OSError ''OSError'')
   | None \<Rightarrow> Inl (OSError ''FileNotFoundError''))"

text \<open>\<^verbatim>\<open>os.replace\<close> of a file: the target, unless it is a directory, is replaced in one step.\<close>

definition replace_fs :: "path \<Rightarrow> path \<Rightarrow> fs \<Rightarrow> fs res" where
  "replace_fs p q s = (case node_at s p of
     Some (File bs m) \<Rightarrow>
       if is_dir s q then Inl (OSError ''IsADirectoryError'')
       else if \<not> is_dir s (parent q) then Inl (OSError ''FileNotFoundError'')
       else Inr (fmupd q (File bs m) (fmdrop p s))
   | _ \<Rightarrow> Inl (OSError ''FileNotFoundError''))"

abbreviation mkdir :: "path \<Rightarrow> nat \<Rightarrow> unit io" where "mkdir p m \<equiv> istep (mkdir_fs p m)"
abbreviation unlink :: "path \<Rightarrow> unit io" where "unlink p \<equiv> istep (unlink_fs p)"
abbreviation rmdir :: "path \<Rightarrow> unit io" where "rmdir p \<equiv> istep (rmdir_fs p)"
abbreviation chmod :: "path \<Rightarrow> nat \<Rightarrow> unit io" where "chmod p m \<equiv> istep (chmod_fs p m)"
abbreviation replace :: "path \<Rightarrow> path \<Rightarrow> unit io" where "replace p q \<equiv> istep (replace_fs p q)"

text \<open>\<^verbatim>\<open>path.mkdir(parents=True, exist_ok=True)\<close>, from the root down.\<close>

definition ancestors :: "path \<Rightarrow> path list" where
  "ancestors p = map (\<lambda>n. take n p) [1 ..< length p]"

definition mkdir_parents :: "path \<Rightarrow> unit io" where
  "mkdir_parents p = iforeach (\<lambda>q. ibnd iget (\<lambda>s. iwhen (\<not> is_dir s q) (mkdir q 493)))
     (ancestors p @ (if p = [] then [] else [p]))"

text \<open>\<^verbatim>\<open>path.write_bytes(payload)\<close>: open and truncate, then write.\<close>

definition write_bytes :: "path \<Rightarrow> byte list \<Rightarrow> unit io" where
  "write_bytes p bs = ibnd (istep (create_fs p 420)) (\<lambda>_. istep (write_fs p bs))"

definition read_bytes :: "path \<Rightarrow> byte list io" where
  "read_bytes p = iread (\<lambda>s. case node_at s p of Some (File bs _) \<Rightarrow> Inr bs | _ \<Rightarrow> Inl (OSError ''OSError''))"

text \<open>
  \<^verbatim>\<open>tempfile.mkstemp(prefix, dir)\<close>: the operating system draws the rest of the name, here the
  argument \<open>rnd\<close>, which may depend on the prefix and the state; an existing name is not reused.
\<close>

type_synonym random_name = "path \<Rightarrow> string \<Rightarrow> fs \<Rightarrow> string"

definition mkstemp :: "random_name \<Rightarrow> path \<Rightarrow> string \<Rightarrow> path io" where
  "mkstemp rnd dir prefix = ibnd iget (\<lambda>s. let p = dir @ [prefix @ rnd dir prefix s] in
     ibnd (istep (create_excl_fs p 384)) (\<lambda>_. iret p))"

text \<open>\<^verbatim>\<open>finally: if temporary.exists() or temporary.is_symlink(): temporary.unlink()\<close>.\<close>

definition discard :: "path \<Rightarrow> unit io" where
  "discard p = ibnd iget (\<lambda>s. iwhen (path_exists s p \<or> is_symlink s p) (unlink p))"

section \<open>Symbolic execution\<close>

lemma final_simps [simp]:
  "final (iret x) s = s" "final (iraise e) s = s" "final (ilift r) s = s" "final iget s = s" "final (iread f) s = s"
  by (simp_all add: final_def iret_def iraise_def ilift_def iget_def iread_def)

lemma outcome_simps [simp]:
  "outcome (iret x) s = Inr x" "outcome (iraise e) s = Inl e" "outcome (ilift r) s = r"
  "outcome iget s = Inr s" "outcome (iread f) s = f s"
  by (simp_all add: outcome_def iret_def iraise_def ilift_def iget_def iread_def)

lemma states_simps [simp]:
  "states (iret x) s = [s]" "states (iraise e) s = [s]" "states (ilift r) s = [s]" "states iget s = [s]"
  "states (iread f) s = [s]"
  by (simp_all add: states_def iret_def iraise_def ilift_def iget_def iread_def)

lemma final_istep [io_simps]: "final (istep f) s = (case f s of Inl _ \<Rightarrow> s | Inr s' \<Rightarrow> s')"
  by (simp add: final_def istep_def split: sum.splits)

lemma outcome_istep [io_simps]: "outcome (istep f) s = (case f s of Inl e \<Rightarrow> Inl e | Inr _ \<Rightarrow> Inr ())"
  by (simp add: outcome_def istep_def split: sum.splits)

lemma states_istep [io_simps]: "states (istep f) s = s # (case f s of Inl _ \<Rightarrow> [] | Inr s' \<Rightarrow> [s'])"
  by (simp add: states_def istep_def split: sum.splits)

lemma final_last: "final m s = last (states m s)"
  by (simp add: final_def states_def)

lemma start_in_states [simp]: "s \<in> set (states m s)"
  by (simp add: states_def)

lemma final_in_states [simp]: "final m s \<in> set (states m s)"
  unfolding final_last by (rule last_in_set) (simp add: states_def)

lemma last_append_states: "last (s # t @ t') = last (last (s # t) # t')"
  by (cases t') auto

lemma last_in_states: "last (s # t) \<in> insert s (set t)"
  using last_in_set [of "s # t"] by simp

lemma ibnd_run:
  "final (ibnd m f) s = (case outcome m s of Inl _ \<Rightarrow> final m s | Inr x \<Rightarrow> final (f x) (final m s))"
  "outcome (ibnd m f) s = (case outcome m s of Inl e \<Rightarrow> Inl e | Inr x \<Rightarrow> outcome (f x) (final m s))"
  "set (states (ibnd m f) s) = set (states m s) \<union>
     (case outcome m s of Inl _ \<Rightarrow> {} | Inr x \<Rightarrow> set (states (f x) (final m s)))"
proof -
  obtain t r where m: "m s = (t, r)" by force
  note defs = final_def outcome_def states_def ibnd_def m last_append_states
  show "final (ibnd m f) s = (case outcome m s of Inl _ \<Rightarrow> final m s | Inr x \<Rightarrow> final (f x) (final m s))"
    by (simp add: defs split: sum.splits prod.splits del: last.simps)
  show "outcome (ibnd m f) s = (case outcome m s of Inl e \<Rightarrow> Inl e | Inr x \<Rightarrow> outcome (f x) (final m s))"
    by (simp add: defs split: sum.splits prod.splits del: last.simps)
  show "set (states (ibnd m f) s) = set (states m s) \<union>
       (case outcome m s of Inl _ \<Rightarrow> {} | Inr x \<Rightarrow> set (states (f x) (final m s)))"
    using last_in_states [of s t] by (auto simp: defs split: sum.splits prod.splits simp del: last.simps)
qed

lemma outcome_ibnd [io_simps]:
  "outcome (ibnd m f) s = (case outcome m s of Inl e \<Rightarrow> Inl e | Inr x \<Rightarrow> outcome (f x) (final m s))"
  by (rule ibnd_run)

lemma final_ibnd [io_simps]:
  "final (ibnd m f) s = (case outcome m s of Inl _ \<Rightarrow> final m s | Inr x \<Rightarrow> final (f x) (final m s))"
  by (rule ibnd_run)

lemma states_ibnd [io_simps]:
  "set (states (ibnd m f) s) = set (states m s) \<union>
     (case outcome m s of Inl _ \<Rightarrow> {} | Inr x \<Rightarrow> set (states (f x) (final m s)))"
  by (rule ibnd_run)

lemma outcome_ibnd_Inr: "outcome (ibnd m f) s = Inr y \<longleftrightarrow>
    (\<exists>x. outcome m s = Inr x \<and> outcome (f x) (final m s) = Inr y)"
  by (simp add: outcome_ibnd split: sum.splits)

lemma ifinally_run [io_simps]:
  "final (ifinally m c) s = final c (final m s)"
  "outcome (ifinally m c) s = (case outcome c (final m s) of Inl e \<Rightarrow> Inl e | Inr _ \<Rightarrow> outcome m s)"
  "set (states (ifinally m c) s) = set (states m s) \<union> set (states c (final m s))"
proof -
  obtain t r where m: "m s = (t, r)" by force
  obtain t' r' where c: "c (last (s # t)) = (t', r')" by force
  note defs = final_def outcome_def states_def ifinally_def m c last_append_states
  show "final (ifinally m c) s = final c (final m s)"
    by (simp add: defs del: last.simps)
  show "outcome (ifinally m c) s = (case outcome c (final m s) of Inl e \<Rightarrow> Inl e | Inr _ \<Rightarrow> outcome m s)"
    by (simp add: defs del: last.simps) (simp add: outcome_def m split: sum.splits)
  show "set (states (ifinally m c) s) = set (states m s) \<union> set (states c (final m s))"
    using last_in_states [of s t] by (auto simp: defs simp del: last.simps)
qed

lemma iwhen_run [io_simps]:
  "final (iwhen b m) s = (if b then final m s else s)"
  "outcome (iwhen b m) s = (if b then outcome m s else Inr ())"
  "states (iwhen b m) s = (if b then states m s else [s])"
  by (simp_all add: iwhen_def)

lemma irequire_run [io_simps]:
  "final (irequire b e) s = s"
  "outcome (irequire b e) s = (if b then Inr () else Inl e)"
  "states (irequire b e) s = [s]"
  by (simp_all add: irequire_def)

lemma iforeach_run [io_simps]:
  "final (iforeach f xs) s = final (imap f xs) s"
  "outcome (iforeach f xs) s = (case outcome (imap f xs) s of Inl e \<Rightarrow> Inl e | Inr _ \<Rightarrow> Inr ())"
  "set (states (iforeach f xs) s) = set (states (imap f xs) s)"
  by (auto simp: iforeach_def io_simps split: sum.splits)

text \<open>A loop keeps what each of its rounds keeps, at every crash point.\<close>

lemma imap_invariant:
  assumes "I s" and "\<And>x s. x \<in> set xs \<Longrightarrow> I s \<Longrightarrow> (\<forall>s' \<in> set (states (f x) s). C s') \<and>
      (\<forall>y. outcome (f x) s = Inr y \<longrightarrow> I (final (f x) s))" and "C s"
  shows "(\<forall>s' \<in> set (states (imap f xs) s). C s') \<and> (\<forall>ys. outcome (imap f xs) s = Inr ys \<longrightarrow> I (final (imap f xs) s))"
  using assms
proof (induction xs arbitrary: s)
  case (Cons x xs)
  have x: "\<forall>s' \<in> set (states (f x) s). C s'" "\<And>y. outcome (f x) s = Inr y \<Longrightarrow> I (final (f x) s)"
    using Cons.prems by auto
  show ?case
  proof (cases "outcome (f x) s")
    case (Inl e)
    with x show ?thesis by (simp add: io_simps)
  next
    case (Inr y)
    have "C (final (f x) s)" using x by simp
    then have ih: "(\<forall>s' \<in> set (states (imap f xs) (final (f x) s)). C s') \<and>
        (\<forall>ys. outcome (imap f xs) (final (f x) s) = Inr ys \<longrightarrow> I (final (imap f xs) (final (f x) s)))"
      using x(2) [OF Inr] Cons.prems(2) by (intro Cons.IH) auto
    then have "C (final (imap f xs) (final (f x) s))" by simp
    with ih x Inr show ?thesis by (auto simp: io_simps split: sum.splits)
  qed
qed (auto simp: io_simps)

lemma imap_append: "outcome (imap f (xs @ ys)) s = (case outcome (imap f xs) s of
     Inl e \<Rightarrow> Inl e
   | Inr us \<Rightarrow> (case outcome (imap f ys) (final (imap f xs) s) of Inl e \<Rightarrow> Inl e | Inr vs \<Rightarrow> Inr (us @ vs)))"
  by (induction xs arbitrary: s) (auto simp: io_simps split: sum.splits)

end
