(* ===== verification/Saved_Plan.thy ===== *)
theory Saved_Plan
  imports Validate Impact
begin

text \<open>
  Model of \<^verbatim>\<open>core/saved_plan.py\<close>: the closed plan core of each lifecycle operation, the immutable
  journal header, the digests of the plan graph and the validation of a complete saved-plan
  envelope. The lemmas show that an accepted envelope is bound by its plan digest, that each
  operation branch keeps or changes the release identity as it has to, and which exceptions the
  validator can raise.
\<close>

section \<open>Data\<close>

definition plan_operations :: "string list" where
  "plan_operations = [''init'', ''sync'', ''repair'', ''upgrade'']"

definition DERIVED_PLAN_FIELDS :: "string list" where
  "DERIVED_PLAN_FIELDS = [''plan_core_digest'', ''journal_binding_digest'', ''candidate_manifest'',
     ''candidate_manifest_digest'', ''plan_digest'']"

definition COMMON_FIELDS :: "string list" where
  "COMMON_FIELDS = [''operation'', ''transaction_id'', ''candidate_release'', ''release_trust_policy_id'',
     ''release_trust_policy_digest'', ''profile_digest'', ''lock_digest'', ''artifact_bundle_digest'',
     ''pack_version'', ''source_trellis_task_layout_digest'', ''target_trellis_task_layout_digest'',
     ''source_schema_bundle_digest'', ''target_schema_bundle_digest'', ''task_quiescence_snapshot'',
     ''task_findings'', ''task_quiescence_digest'', ''candidate_impact'', ''workspace_state_evaluation'',
     ''task_gate_evaluation'', ''preconditions'', ''candidate_file_states'',
     ''candidate_local_state_contract'', ''provider_approval_bindings'', ''recovery_runtime'',
     ''candidate_manifest_generation'']"

definition INIT_FIELDS :: "string list" where
  "INIT_FIELDS = [''project_id_precondition'', ''candidate_project_id'', ''workspace_instance_precondition'',
     ''candidate_workspace_instance_id'', ''manifest_precondition'', ''approval_replay_precondition'',
     ''empty_replay_ledger_candidate_digest'', ''target_path_digest'']"

definition EXISTING_FIELDS :: "string list" where
  "EXISTING_FIELDS = [''project_id'', ''workspace_instance_id'', ''manifest_generation'', ''manifest_digest'',
     ''installed_release'']"

definition REPAIR_FIELDS :: "string list" where
  "REPAIR_FIELDS = [''repair_surface_ids'']"

definition UPGRADE_FIELDS :: "string list" where
  "UPGRADE_FIELDS = [''compatibility_identity'']"

record saved_plan_envelope =
  se_operation :: string
  se_plan_core :: dict
  se_plan_core_digest :: string
  se_immutable_header :: dict
  se_journal_binding_digest :: string
  se_candidate_manifest_digest :: string
  se_candidate_manifest_file_state :: dict
  se_plan_digest :: string

definition saved_plan_document :: "saved_plan_envelope \<Rightarrow> dict" where
  "saved_plan_document e = [
     (''schema_id'', PStr ''agent-workflow.saved-plan''),
     (''schema_version'', PInt 1),
     (''operation'', PStr (se_operation e)),
     (''plan_core'', PDict (se_plan_core e)),
     (''plan_core_digest'', PStr (se_plan_core_digest e)),
     (''immutable_header'', PDict (se_immutable_header e)),
     (''journal_binding_digest'', PStr (se_journal_binding_digest e)),
     (''candidate_manifest_digest'', PStr (se_candidate_manifest_digest e)),
     (''candidate_manifest_file_state'', PDict (se_candidate_manifest_file_state e)),
     (''plan_digest'', PStr (se_plan_digest e))]"

definition graph_failure :: exn where
  "graph_failure = CoreFailure ''AWP_SAVED_PLAN_GRAPH_INVALID'' 2"

definition plan_mismatch :: exn where
  "plan_mismatch = CoreFailure ''AWP_SAVED_PLAN_MISMATCH'' 40"

section \<open>Field checks\<close>

definition plan_mapping :: "pyval \<Rightarrow> dict res" where
  "plan_mapping = as_mapping graph_failure"

definition plan_array :: "pyval \<Rightarrow> pyval list res" where
  "plan_array = as_array graph_failure"

definition plan_string :: "pyval \<Rightarrow> string res" where
  "plan_string = as_string graph_failure"

definition plan_sha256 :: "pyval \<Rightarrow> string res" where
  "plan_sha256 = as_sha256 graph_failure"

definition plan_uuid :: "pyval \<Rightarrow> string res" where
  "plan_uuid = as_uuid graph_failure"

lemmas plan_check_defs = plan_mapping_def plan_array_def plan_string_def plan_sha256_def plan_uuid_def

definition plan_release :: "pyval \<Rightarrow> dict res" where
  "plan_release v =
     bnd (plan_mapping v) (\<lambda>release.
     bnd (require (same_strs (keys release) [''release_id'', ''release_manifest_digest'']) graph_failure) (\<lambda>_.
     bnd (plan_sha256 (get release ''release_id'')) (\<lambda>_.
     bnd (plan_sha256 (get release ''release_manifest_digest'')) (\<lambda>_.
     Inr release))))"

definition validate_evaluations :: "dict \<Rightarrow> unit res" where
  "validate_evaluations core =
     bnd (plan_mapping (get core ''workspace_state_evaluation'')) (\<lambda>workspace.
     bnd (require (same_strs (keys workspace)
            [''evaluator_id'', ''evaluator_version'', ''task_quiescence'', ''blockers'']) graph_failure) (\<lambda>_.
     bnd (require (py_eq (get workspace ''evaluator_id'') (PStr ''agent-workflow.workspace-state-quiescence'') \<and>
            py_eq (get workspace ''evaluator_version'') (PInt 1)) graph_failure) (\<lambda>_.
     bnd (plan_array (get workspace ''blockers'')) (\<lambda>_.
     bnd (plan_mapping (get core ''task_gate_evaluation'')) (\<lambda>gate.
     bnd (require (same_strs (keys gate)
            [''evaluator_id'', ''evaluator_version'', ''blockers'', ''primary_evaluator_blocker'']) graph_failure) (\<lambda>_.
     bnd (require (py_eq (get gate ''evaluator_id'') (PStr ''agent-workflow.task-gate'') \<and>
            py_eq (get gate ''evaluator_version'') (PInt 1)) graph_failure) (\<lambda>_.
     bnd (plan_array (get gate ''blockers'')) (\<lambda>blockers.
     require (blockers = [] \<and> get gate ''primary_evaluator_blocker'' = PNone) graph_failure))))))))"

section \<open>The plan core\<close>

text \<open>The fields of an operation branch; the source keeps them twice, as allowed and as required.\<close>

definition plan_core_fields :: "string \<Rightarrow> string list" where
  "plan_core_fields operation = COMMON_FIELDS @
     (if operation = ''init'' then INIT_FIELDS else EXISTING_FIELDS) @
     (if operation = ''repair'' then REPAIR_FIELDS else []) @
     (if operation = ''upgrade'' then UPGRADE_FIELDS else [])"

definition validate_init_core :: "dict \<Rightarrow> unit res" where
  "validate_init_core core =
     bnd (mapr (\<lambda>field. require (py_eq (get core field) (PStr ''absent'')) graph_failure)
        [''project_id_precondition'', ''workspace_instance_precondition'', ''manifest_precondition'',
         ''approval_replay_precondition'']) (\<lambda>_.
     bnd (plan_uuid (get core ''candidate_project_id'')) (\<lambda>_.
     bnd (plan_uuid (get core ''candidate_workspace_instance_id'')) (\<lambda>_.
     bnd (plan_sha256 (get core ''empty_replay_ledger_candidate_digest'')) (\<lambda>_.
     bnd (plan_sha256 (get core ''target_path_digest'')) (\<lambda>_. Inr ())))))"

definition validate_existing_core :: "string \<Rightarrow> dict \<Rightarrow> dict \<Rightarrow> unit res" where
  "validate_existing_core operation core candidate_release =
     bnd (plan_uuid (get core ''project_id'')) (\<lambda>_.
     bnd (plan_uuid (get core ''workspace_instance_id'')) (\<lambda>_.
     bnd (require (is_pyint (get core ''manifest_generation'')) graph_failure) (\<lambda>_.
     bnd (plan_sha256 (get core ''manifest_digest'')) (\<lambda>_.
     bnd (plan_release (get core ''installed_release'')) (\<lambda>installed_release.
     let same = py_eq (PDict installed_release) (PDict candidate_release) in
     if operation \<in> {''sync'', ''repair''} \<and> \<not> same then Inl graph_failure
     else if operation = ''upgrade'' \<and> same then Inl graph_failure
     else Inr ())))))"

definition validate_repair_core :: "dict \<Rightarrow> unit res" where
  "validate_repair_core core =
     bnd (plan_array (get core ''repair_surface_ids'')) (\<lambda>selected.
     require (selected \<noteq> [] \<and> list_all (\<lambda>item. is_pystr item \<and> truthy item) selected) graph_failure)"

definition validate_plan_core :: "dict \<Rightarrow> unit res" where
  "validate_plan_core core =
     bnd (require (\<not> list_ex (has_key core) DERIVED_PLAN_FIELDS) graph_failure) (\<lambda>_.
     bnd (in_strs (get core ''operation'') plan_operations) (\<lambda>known.
     bnd (require known graph_failure) (\<lambda>_.
     bnd (as_string graph_failure (get core ''operation'')) (\<lambda>operation.
     bnd (require (same_strs (keys core) (plan_core_fields operation)) graph_failure) (\<lambda>_.
     bnd (plan_uuid (get core ''transaction_id'')) (\<lambda>_.
     bnd (plan_release (get core ''candidate_release'')) (\<lambda>candidate_release.
     bnd (mapr (\<lambda>field. plan_sha256 (get core field))
        [''release_trust_policy_digest'', ''profile_digest'', ''lock_digest'', ''artifact_bundle_digest'',
         ''source_trellis_task_layout_digest'', ''target_trellis_task_layout_digest'',
         ''source_schema_bundle_digest'', ''target_schema_bundle_digest'', ''task_quiescence_digest'']) (\<lambda>_.
     bnd (plan_string (get core ''release_trust_policy_id'')) (\<lambda>_.
     bnd (plan_string (get core ''pack_version'')) (\<lambda>_.
     bnd (require (is_pyint (get core ''candidate_manifest_generation'')) graph_failure) (\<lambda>_.
     bnd (mapr (\<lambda>field. plan_array (get core field))
        [''preconditions'', ''candidate_file_states'', ''provider_approval_bindings'']) (\<lambda>_.
     bnd (mapr (\<lambda>field. plan_mapping (get core field))
        [''task_quiescence_snapshot'', ''task_findings'', ''candidate_impact'',
         ''candidate_local_state_contract'', ''recovery_runtime'']) (\<lambda>_.
     bnd (validate_evaluations core) (\<lambda>_.
     bnd (if operation = ''init'' then validate_init_core core
          else validate_existing_core operation core candidate_release) (\<lambda>_.
     bnd (if operation = ''repair'' then validate_repair_core core else Inr ()) (\<lambda>_.
     if operation = ''upgrade'' then bnd (plan_sha256 (get core ''compatibility_identity'')) (\<lambda>_. Inr ())
     else Inr ()))))))))))))))))"

definition compute_plan_core_digest :: "dict \<Rightarrow> string res" where
  "compute_plan_core_digest core =
     bnd (validate_plan_core core) (\<lambda>_. digest ''agent-workflow.plan-core.v1'' (PDict core))"

section \<open>Header, manifest, envelope\<close>

definition header_common_fields :: "string list" where
  "header_common_fields = [''transaction_id'', ''operation'', ''plan_core_digest'', ''baseline_manifest_digest'',
     ''candidate_manifest_generation'', ''task_quiescence_digest'', ''recovery_runtime'']"

definition header_fields :: "bool \<Rightarrow> string list" where
  "header_fields is_init = header_common_fields @
     (if is_init then [''candidate_project_id'', ''candidate_workspace_instance_id'']
      else [''project_id'', ''workspace_instance_id''])"

definition validate_immutable_header :: "dict \<Rightarrow> unit res" where
  "validate_immutable_header header =
     bnd (require (\<not> list_ex (has_key header)
            [''journal_binding_digest'', ''candidate_manifest_digest'', ''plan_digest'']) graph_failure) (\<lambda>_.
     let is_init = py_eq (get header ''operation'') (PStr ''init'') in
     bnd (in_strs (get header ''operation'') plan_operations) (\<lambda>known.
     bnd (require (known \<and> same_strs (keys header) (header_fields is_init)) graph_failure) (\<lambda>_.
     bnd (plan_uuid (get header ''transaction_id'')) (\<lambda>_.
     bnd (plan_sha256 (get header ''plan_core_digest'')) (\<lambda>_.
     bnd (plan_sha256 (get header ''task_quiescence_digest'')) (\<lambda>_.
     bnd (if is_init then
            bnd (require (py_eq (get header ''baseline_manifest_digest'') (PStr ''absent'')) graph_failure) (\<lambda>_.
            bnd (plan_uuid (get header ''candidate_project_id'')) (\<lambda>_.
            plan_uuid (get header ''candidate_workspace_instance_id'')))
          else
            bnd (plan_sha256 (get header ''baseline_manifest_digest'')) (\<lambda>_.
            bnd (plan_uuid (get header ''project_id'')) (\<lambda>_.
            plan_uuid (get header ''workspace_instance_id'')))) (\<lambda>_.
     bnd (require (is_pyint (get header ''candidate_manifest_generation'')) graph_failure) (\<lambda>_.
     bnd (plan_mapping (get header ''recovery_runtime'')) (\<lambda>_. Inr ())))))))))"

definition compute_journal_binding_digest :: "dict \<Rightarrow> string res" where
  "compute_journal_binding_digest header =
     bnd (validate_immutable_header header) (\<lambda>_. digest ''agent-workflow.journal-binding.v1'' (PDict header))"

definition compute_candidate_manifest_digest :: "dict \<Rightarrow> string res" where
  "compute_candidate_manifest_digest manifest =
     bnd (require (\<not> list_ex (has_key manifest) [''candidate_manifest_digest'', ''plan_digest'']) graph_failure) (\<lambda>_.
     plain_digest (PDict manifest))"

definition plan_projection_fields :: "string list" where
  "plan_projection_fields = [''schema_id'', ''schema_version'', ''operation'', ''plan_core'', ''plan_core_digest'',
     ''immutable_header'', ''journal_binding_digest'', ''candidate_manifest_digest'',
     ''candidate_manifest_file_state'']"

definition compute_plan_digest :: "dict \<Rightarrow> string res" where
  "compute_plan_digest envelope =
     bnd (require (\<not> has_key envelope ''plan_digest'') graph_failure) (\<lambda>_.
     bnd (require (same_strs (keys envelope) plan_projection_fields) graph_failure) (\<lambda>_.
     digest ''agent-workflow.saved-plan.v1'' (PDict envelope)))"

definition validate_manifest_file_state :: "dict \<Rightarrow> string \<Rightarrow> unit res" where
  "validate_manifest_file_state state expected_digest =
     bnd (require (same_strs (keys state) [''path'', ''byte_hash'', ''mode'', ''file_type'', ''non_symlink'']) graph_failure) (\<lambda>_.
     bnd (except_core graph_failure
            (bnd (bnd (plan_string (get state ''path'')) (\<lambda>s. normalize_path (PStr s))) (\<lambda>path.
             bnd (normalize_mode (get state ''mode'')) (\<lambda>mode. Inr (path, mode))))) (\<lambda>(path, mode).
     bnd (require (path = ''.agent-workflow/manifest.json'' \<and> mode = ''0644'') graph_failure) (\<lambda>_.
     bnd (require (py_eq (get state ''file_type'') (PStr ''regular'') \<and> get state ''non_symlink'' = PBool True) graph_failure) (\<lambda>_.
     require (py_eq (get state ''byte_hash'') (PStr expected_digest)) plan_mismatch))))"

text \<open>The four forward digests, inside the \<^verbatim>\<open>try\<close> block of the validator.\<close>

definition envelope_digests :: "dict \<Rightarrow> dict \<Rightarrow> dict \<Rightarrow> dict \<Rightarrow> (string \<times> string \<times> string \<times> string) res" where
  "envelope_digests document core header manifest = except_core plan_mismatch
     (bnd (compute_plan_core_digest core) (\<lambda>core_digest.
      bnd (compute_journal_binding_digest header) (\<lambda>journal_digest.
      bnd (compute_candidate_manifest_digest manifest) (\<lambda>manifest_digest.
      bnd (compute_plan_digest (AList.delete ''plan_digest'' document)) (\<lambda>plan_digest.
      Inr (core_digest, journal_digest, manifest_digest, plan_digest))))))"

definition validate_saved_plan_envelope :: "dict \<Rightarrow> dict \<Rightarrow> saved_plan_envelope res" where
  "validate_saved_plan_envelope document manifest =
     bnd (require (same_strs (keys document) (plan_projection_fields @ [''plan_digest''])) plan_mismatch) (\<lambda>_.
     bnd (require (py_eq (get document ''schema_id'') (PStr ''agent-workflow.saved-plan'') \<and>
            py_eq (get document ''schema_version'') (PInt 1)) plan_mismatch) (\<lambda>_.
     let operation = get document ''operation'' in
     bnd (plan_mapping (get document ''plan_core'')) (\<lambda>core.
     bnd (plan_mapping (get document ''immutable_header'')) (\<lambda>header.
     bnd (plan_mapping (get document ''candidate_manifest_file_state'')) (\<lambda>file_state.
     bnd (envelope_digests document core header manifest)
       (\<lambda>(core_digest, journal_digest, manifest_digest, plan_digest).
     bnd (require (py_eq operation (get core ''operation'') \<and> py_eq operation (get header ''operation'')) plan_mismatch) (\<lambda>_.
     bnd (require (py_eq (get document ''plan_core_digest'') (PStr core_digest) \<and>
            py_eq (get header ''plan_core_digest'') (PStr core_digest)) plan_mismatch) (\<lambda>_.
     bnd (require (py_eq (get document ''journal_binding_digest'') (PStr journal_digest)) plan_mismatch) (\<lambda>_.
     bnd (require (py_eq (get manifest ''last_transaction_binding_digest'') (PStr journal_digest)) plan_mismatch) (\<lambda>_.
     bnd (require (py_eq (get document ''candidate_manifest_digest'') (PStr manifest_digest)) plan_mismatch) (\<lambda>_.
     bnd (validate_manifest_file_state file_state manifest_digest) (\<lambda>_.
     bnd (require (py_eq (get document ''plan_digest'') (PStr plan_digest)) plan_mismatch) (\<lambda>_.
     bnd (as_string plan_mismatch operation) (\<lambda>operation_text.
     Inr \<lparr>se_operation = operation_text, se_plan_core = core, se_plan_core_digest = core_digest,
          se_immutable_header = header, se_journal_binding_digest = journal_digest,
          se_candidate_manifest_digest = manifest_digest, se_candidate_manifest_file_state = file_state,
          se_plan_digest = plan_digest\<rparr>))))))))))))))"

section \<open>Accepted documents\<close>

lemma py_eq_items_iff: "py_eq_items d e \<longleftrightarrow> (\<forall>(k, v) \<in> set d. \<exists>w. map_of e k = Some w \<and> py_eq v w)"
proof (induction d)
  case (Cons p d)
  then show ?case by (cases p) (auto split: option.splits)
qed simp

lemma get_in_wf: "wf_pyval (PDict d) \<Longrightarrow> wf_pyval (get d k)"
proof (cases "map_of d k")
  case (Some v)
  moreover assume "wf_pyval (PDict d)"
  ultimately show ?thesis
    using map_of_SomeD [OF Some] by (auto simp: get_def list_all_iff)
qed (simp add: get_def)

lemma plan_release_Inr_iff:
  "plan_release v = Inr r \<longleftrightarrow> v = PDict r \<and> set (keys r) = {''release_id'', ''release_manifest_digest''} \<and>
     (\<exists>i m. get r ''release_id'' = PStr i \<and> is_sha256 i \<and> get r ''release_manifest_digest'' = PStr m \<and> is_sha256 m)"
  by (auto simp: plan_release_def res_simps plan_check_defs same_strs_iff)

lemma plan_release_two:
  assumes "plan_release v = Inr r" and "distinct (keys r)"
  shows "length r = 2 \<and> set r = {(''release_id'', get r ''release_id''), (''release_manifest_digest'', get r ''release_manifest_digest'')}"
proof -
  have ks: "set (map fst r) = {''release_id'', ''release_manifest_digest''}"
    using assms(1) by (simp add: plan_release_Inr_iff keys_def)
  have "length (map fst r) = card (set (map fst r))"
    using assms(2) unfolding keys_def by (rule distinct_card [symmetric])
  then have len: "length r = 2" unfolding ks by simp
  have gets: "v = get r k" if "(k, v) \<in> set r" for k v
    using assms(2) that by (simp add: get_def keys_def)
  have "set r = (\<lambda>p. (fst p, get r (fst p))) ` set r"
  proof -
    have "(fst p, get r (fst p)) = p" if "p \<in> set r" for p
      using gets [of "fst p" "snd p"] that by (simp add: prod_eq_iff)
    then show ?thesis by simp
  qed
  also have "\<dots> = (\<lambda>k. (k, get r k)) ` set (map fst r)"
    by (simp add: image_image)
  finally have "set r = (\<lambda>k. (k, get r k)) ` set (map fst r)" .
  with len show ?thesis unfolding ks by simp
qed

lemma py_eq_release:
  assumes r: "plan_release v = Inr r" "distinct (keys r)" and s: "plan_release w = Inr s" "distinct (keys s)"
  shows "py_eq (PDict r) (PDict s) \<longleftrightarrow> get r ''release_id'' = get s ''release_id'' \<and>
    get r ''release_manifest_digest'' = get s ''release_manifest_digest''"
proof -
  obtain i m where im: "get s ''release_id'' = PStr i" "get s ''release_manifest_digest'' = PStr m"
    using s(1) by (auto simp: plan_release_Inr_iff)
  have "map_of s k = Some (get s k)" if "k \<in> set (keys s)" for k
    using that has_key_iff [of s k] by (auto simp: get_def has_key_def keys_def)
  then have maps: "map_of s ''release_id'' = Some (PStr i)" "map_of s ''release_manifest_digest'' = Some (PStr m)"
    using s(1) im by (auto simp: plan_release_Inr_iff)
  have "py_eq_items r s \<longleftrightarrow> get r ''release_id'' = PStr i \<and> get r ''release_manifest_digest'' = PStr m"
    unfolding py_eq_items_iff conjunct2 [OF plan_release_two [OF r]] using maps by simp
  then show ?thesis
    using plan_release_two [OF r] plan_release_two [OF s] im by simp
qed

lemma validate_plan_coreE:
  assumes "validate_plan_core core = Inr u"
  obtains op rel where "get core ''operation'' = PStr op" "op \<in> set plan_operations"
    "set (keys core) = set (plan_core_fields op)" "\<not> list_ex (has_key core) DERIVED_PLAN_FIELDS"
    "plan_release (get core ''candidate_release'') = Inr rel"
    "validate_evaluations core = Inr ()"
    "op = ''init'' \<or> validate_existing_core op core rel = Inr ()"
    "op \<noteq> ''init'' \<or> validate_init_core core = Inr ()"
    "op \<noteq> ''repair'' \<or> validate_repair_core core = Inr ()"
proof -
  from assms obtain op rel u1 u2 u3 where *: "get core ''operation'' = PStr op" "op \<in> set plan_operations"
    "set (keys core) = set (plan_core_fields op)" "\<not> list_ex (has_key core) DERIVED_PLAN_FIELDS"
    "plan_release (get core ''candidate_release'') = Inr rel" "validate_evaluations core = Inr u1"
    "(if op = ''init'' then validate_init_core core else validate_existing_core op core rel) = Inr u2"
    "(if op = ''repair'' then validate_repair_core core else Inr ()) = Inr u3"
    unfolding validate_plan_core_def
    by (auto simp only: res_simps same_strs_iff pyval.inject sum.inject simp_thms)
  have "validate_evaluations core = Inr ()" "op = ''init'' \<or> validate_existing_core op core rel = Inr ()"
    "op \<noteq> ''init'' \<or> validate_init_core core = Inr ()" "op \<noteq> ''repair'' \<or> validate_repair_core core = Inr ()"
    using *(6-8) by (simp_all split: if_splits)
  then show thesis by (rule that [OF *(1-5)])
qed

lemma compute_plan_core_digest_Inr:
  assumes "compute_plan_core_digest core = Inr h"
  shows "validate_plan_core core = Inr ()" and "wf_pyval (PDict core)"
    and "h = sha256_hex (digest_preimage ''agent-workflow.plan-core.v1'' (PDict core))"
proof -
  have *: "validate_plan_core core = Inr ()" "digest ''agent-workflow.plan-core.v1'' (PDict core) = Inr h"
    using assms by (auto simp: compute_plan_core_digest_def res_simps)
  from *(1) show "validate_plan_core core = Inr ()" .
  from digest_Inr_preimage [OF *(2)] show "wf_pyval (PDict core)"
    and "h = sha256_hex (digest_preimage ''agent-workflow.plan-core.v1'' (PDict core))" by blast+
qed

text \<open>
  A plan core that has a digest is closed over its operation branch and keeps the release
  discipline: it has exactly the fields of its operation, none of them derived from the plan, its
  task gate had no blocker, sync and repair keep the installed release, upgrade changes it, and
  init starts from an absent project.
\<close>

theorem plan_core_discipline:
  assumes "compute_plan_core_digest core = Inr h"
  shows "\<exists>op cand. get core ''operation'' = PStr op \<and> op \<in> set plan_operations \<and>
    get core ''candidate_release'' = PDict cand \<and>
    set (keys core) = set (plan_core_fields op) \<and> set (keys core) \<inter> set DERIVED_PLAN_FIELDS = {} \<and>
    (\<exists>gate. get core ''task_gate_evaluation'' = PDict gate \<and> get gate ''blockers'' = PList [] \<and>
       get gate ''primary_evaluator_blocker'' = PNone) \<and>
    (if op = ''init'' then get core ''project_id_precondition'' = PStr ''absent'' \<and>
       get core ''manifest_precondition'' = PStr ''absent''
     else \<exists>inst. get core ''installed_release'' = PDict inst \<and>
       ((get inst ''release_id'' = get cand ''release_id'' \<and>
         get inst ''release_manifest_digest'' = get cand ''release_manifest_digest'') \<longleftrightarrow> op \<noteq> ''upgrade''))"
proof -
  note core = compute_plan_core_digest_Inr [OF assms]
  obtain op cand where op: "get core ''operation'' = PStr op" "op \<in> set plan_operations"
    and ks: "set (keys core) = set (plan_core_fields op)" and der: "\<not> list_ex (has_key core) DERIVED_PLAN_FIELDS"
    and rel: "plan_release (get core ''candidate_release'') = Inr cand"
    and ev: "validate_evaluations core = Inr ()"
    and ex: "op = ''init'' \<or> validate_existing_core op core cand = Inr ()"
    and ini: "op \<noteq> ''init'' \<or> validate_init_core core = Inr ()"
    using core(1) by (rule validate_plan_coreE)
  have cand: "get core ''candidate_release'' = PDict cand" "distinct (keys cand)"
    using rel get_in_wf [OF core(2), of "''candidate_release''"] by (auto simp: plan_release_Inr_iff keys_def)
  have dis: "set (keys core) \<inter> set DERIVED_PLAN_FIELDS = {}"
    using der by (auto simp: list_ex_iff has_key_def keys_def)
  have gate: "\<exists>gate. get core ''task_gate_evaluation'' = PDict gate \<and> get gate ''blockers'' = PList [] \<and>
      get gate ''primary_evaluator_blocker'' = PNone"
    using ev by (auto simp: validate_evaluations_def res_simps plan_check_defs)
  have branch: "if op = ''init'' then get core ''project_id_precondition'' = PStr ''absent'' \<and>
       get core ''manifest_precondition'' = PStr ''absent''
     else \<exists>inst. get core ''installed_release'' = PDict inst \<and>
       ((get inst ''release_id'' = get cand ''release_id'' \<and>
         get inst ''release_manifest_digest'' = get cand ''release_manifest_digest'') \<longleftrightarrow> op \<noteq> ''upgrade'')"
  proof (cases "op = ''init''")
    case True
    with ini show ?thesis by (auto simp: validate_init_core_def res_simps)
  next
    case False
    with ex obtain inst where inst: "plan_release (get core ''installed_release'') = Inr inst"
      and same: "\<not> (op \<in> {''sync'', ''repair''} \<and> \<not> py_eq (PDict inst) (PDict cand))"
        "\<not> (op = ''upgrade'' \<and> py_eq (PDict inst) (PDict cand))"
      unfolding validate_existing_core_def by (auto simp only: res_simps Let_def)
    have i: "get core ''installed_release'' = PDict inst" "distinct (keys inst)"
      using inst get_in_wf [OF core(2), of "''installed_release''"] by (auto simp: plan_release_Inr_iff keys_def)
    have ops: "op \<noteq> ''upgrade'' \<longrightarrow> op \<in> {''sync'', ''repair''}"
      using op(2) False by (simp add: plan_operations_def) blast
    have "py_eq (PDict inst) (PDict cand) \<longleftrightarrow> op \<noteq> ''upgrade''"
      using same ops by blast
    then show ?thesis
      unfolding py_eq_release [OF inst i(2) rel cand(2)] using False i(1) by simp
  qed
  from op ks cand(1) dis gate branch show ?thesis by blast
qed


section \<open>Accepted envelopes\<close>

lemma envelope_digests_Inr_iff:
  "envelope_digests doc core header m = Inr (c, j, h, p) \<longleftrightarrow>
     compute_plan_core_digest core = Inr c \<and> compute_journal_binding_digest header = Inr j \<and>
     compute_candidate_manifest_digest m = Inr h \<and> compute_plan_digest (AList.delete ''plan_digest'' doc) = Inr p"
  unfolding envelope_digests_def by (auto simp only: res_simps sum.inject prod.inject)

lemma validate_saved_plan_envelopeE:
  assumes "validate_saved_plan_envelope doc m = Inr e"
  obtains "set (keys doc) = set (plan_projection_fields @ [''plan_digest''])"
    "get doc ''operation'' = PStr (se_operation e)"
    "get (se_plan_core e) ''operation'' = PStr (se_operation e)"
    "get (se_immutable_header e) ''operation'' = PStr (se_operation e)"
    "get doc ''plan_core'' = PDict (se_plan_core e)" "get doc ''immutable_header'' = PDict (se_immutable_header e)"
    "get doc ''candidate_manifest_file_state'' = PDict (se_candidate_manifest_file_state e)"
    "compute_plan_core_digest (se_plan_core e) = Inr (se_plan_core_digest e)"
    "compute_journal_binding_digest (se_immutable_header e) = Inr (se_journal_binding_digest e)"
    "compute_candidate_manifest_digest m = Inr (se_candidate_manifest_digest e)"
    "compute_plan_digest (AList.delete ''plan_digest'' doc) = Inr (se_plan_digest e)"
    "get doc ''plan_core_digest'' = PStr (se_plan_core_digest e)"
    "get (se_immutable_header e) ''plan_core_digest'' = PStr (se_plan_core_digest e)"
    "get doc ''journal_binding_digest'' = PStr (se_journal_binding_digest e)"
    "get m ''last_transaction_binding_digest'' = PStr (se_journal_binding_digest e)"
    "get doc ''candidate_manifest_digest'' = PStr (se_candidate_manifest_digest e)"
    "validate_manifest_file_state (se_candidate_manifest_file_state e) (se_candidate_manifest_digest e) = Inr ()"
    "get doc ''plan_digest'' = PStr (se_plan_digest e)"
proof -
  from assms obtain core header fs c j h p opt u where *:
    "set (keys doc) = set (plan_projection_fields @ [''plan_digest''])"
    "get doc ''plan_core'' = PDict core" "get doc ''immutable_header'' = PDict header"
    "get doc ''candidate_manifest_file_state'' = PDict fs"
    "envelope_digests doc core header m = Inr (c, j, h, p)"
    "py_eq (get doc ''operation'') (get core ''operation'')" "py_eq (get doc ''operation'') (get header ''operation'')"
    "get doc ''plan_core_digest'' = PStr c" "get header ''plan_core_digest'' = PStr c"
    "get doc ''journal_binding_digest'' = PStr j" "get m ''last_transaction_binding_digest'' = PStr j"
    "get doc ''candidate_manifest_digest'' = PStr h" "validate_manifest_file_state fs h = Inr u"
    "get doc ''plan_digest'' = PStr p" "get doc ''operation'' = PStr opt"
    "e = \<lparr>se_operation = opt, se_plan_core = core, se_plan_core_digest = c, se_immutable_header = header,
          se_journal_binding_digest = j, se_candidate_manifest_digest = h, se_candidate_manifest_file_state = fs,
          se_plan_digest = p\<rparr>"
    unfolding validate_saved_plan_envelope_def
    by (auto simp only: res_simps plan_check_defs same_strs_iff py_eq_PStr Let_def split_paired_Ex prod.case sum.inject simp_thms)
  from * show thesis
    by (intro that) (simp_all add: envelope_digests_Inr_iff)
qed

lemma digest_chain:
  "compute_plan_core_digest c = Inr h \<Longrightarrow> digest ''agent-workflow.plan-core.v1'' (PDict c) = Inr h"
  "compute_journal_binding_digest d = Inr h \<Longrightarrow> digest ''agent-workflow.journal-binding.v1'' (PDict d) = Inr h"
  "compute_candidate_manifest_digest m = Inr h \<Longrightarrow> plain_digest (PDict m) = Inr h"
  "compute_plan_digest p = Inr h \<Longrightarrow> digest ''agent-workflow.saved-plan.v1'' (PDict p) = Inr h"
  by (auto simp: compute_plan_core_digest_def compute_journal_binding_digest_def
      compute_candidate_manifest_digest_def compute_plan_digest_def res_simps)

text \<open>
  C28: An accepted document is a chain of digests. Each of its four digest fields is the hash of the part
  it stands for: the plan-core digest, recorded in the document and in the immutable header, is that of
  the plan core; the journal-binding digest, recorded in the document and in the candidate Manifest,
  that of the header; the Manifest digest, recorded in the document and in the declared file state,
  that of the Manifest; the plan digest that of the document without it. The operation is the same in
  the document, the core and the header, and the envelope returned has these parts and digests.
\<close>

theorem envelope_digest_chain:
  assumes "validate_saved_plan_envelope doc m = Inr e"
  shows "(get doc ''plan_core'' = PDict (se_plan_core e) \<and> get doc ''immutable_header'' = PDict (se_immutable_header e) \<and>
      get doc ''candidate_manifest_file_state'' = PDict (se_candidate_manifest_file_state e)) \<and>
    (get doc ''operation'' = PStr (se_operation e) \<and> get (se_plan_core e) ''operation'' = PStr (se_operation e) \<and>
      get (se_immutable_header e) ''operation'' = PStr (se_operation e)) \<and>
    (get doc ''plan_core_digest'' = PStr (se_plan_core_digest e) \<and>
      get (se_immutable_header e) ''plan_core_digest'' = PStr (se_plan_core_digest e) \<and>
      se_plan_core_digest e = sha256_hex (digest_preimage ''agent-workflow.plan-core.v1'' (PDict (se_plan_core e)))) \<and>
    (get doc ''journal_binding_digest'' = PStr (se_journal_binding_digest e) \<and>
      get m ''last_transaction_binding_digest'' = PStr (se_journal_binding_digest e) \<and>
      se_journal_binding_digest e =
        sha256_hex (digest_preimage ''agent-workflow.journal-binding.v1'' (PDict (se_immutable_header e)))) \<and>
    (get doc ''candidate_manifest_digest'' = PStr (se_candidate_manifest_digest e) \<and>
      get (se_candidate_manifest_file_state e) ''byte_hash'' = PStr (se_candidate_manifest_digest e) \<and>
      get (se_candidate_manifest_file_state e) ''path'' = PStr ''.agent-workflow/manifest.json'' \<and>
      se_candidate_manifest_digest e = sha256_hex (utf8_encode (serialize (PDict m)))) \<and>
    (get doc ''plan_digest'' = PStr (se_plan_digest e) \<and>
      se_plan_digest e = sha256_hex (digest_preimage ''agent-workflow.saved-plan.v1'' (PDict (AList.delete ''plan_digest'' doc))))"
  using assms
proof (rule validate_saved_plan_envelopeE)
  assume v: "get doc ''operation'' = PStr (se_operation e)" "get (se_plan_core e) ''operation'' = PStr (se_operation e)"
    "get (se_immutable_header e) ''operation'' = PStr (se_operation e)"
    "get doc ''plan_core'' = PDict (se_plan_core e)" "get doc ''immutable_header'' = PDict (se_immutable_header e)"
    "get doc ''candidate_manifest_file_state'' = PDict (se_candidate_manifest_file_state e)"
    and c: "compute_plan_core_digest (se_plan_core e) = Inr (se_plan_core_digest e)"
    "compute_journal_binding_digest (se_immutable_header e) = Inr (se_journal_binding_digest e)"
    "compute_candidate_manifest_digest m = Inr (se_candidate_manifest_digest e)"
    "compute_plan_digest (AList.delete ''plan_digest'' doc) = Inr (se_plan_digest e)"
    and g: "get doc ''plan_core_digest'' = PStr (se_plan_core_digest e)"
    "get (se_immutable_header e) ''plan_core_digest'' = PStr (se_plan_core_digest e)"
    "get doc ''journal_binding_digest'' = PStr (se_journal_binding_digest e)"
    "get m ''last_transaction_binding_digest'' = PStr (se_journal_binding_digest e)"
    "get doc ''candidate_manifest_digest'' = PStr (se_candidate_manifest_digest e)"
    and s: "validate_manifest_file_state (se_candidate_manifest_file_state e) (se_candidate_manifest_digest e) = Inr ()"
    and p: "get doc ''plan_digest'' = PStr (se_plan_digest e)"
  have fs: "get (se_candidate_manifest_file_state e) ''byte_hash'' = PStr (se_candidate_manifest_digest e) \<and>
      get (se_candidate_manifest_file_state e) ''path'' = PStr ''.agent-workflow/manifest.json''"
    using s by (auto simp: validate_manifest_file_state_def res_simps plan_check_defs normalize_path_Inr_iff)
  show ?thesis
    using v g fs p digest_Inr_preimage [OF digest_chain(1) [OF c(1)]] digest_Inr_preimage [OF digest_chain(2) [OF c(2)]]
      plain_digest_Inr [OF digest_chain(3) [OF c(3)]] digest_Inr_preimage [OF digest_chain(4) [OF c(4)]]
    by (intro conjI) blast+
qed

text \<open>
  C22: The plan digest binds everything the plan says. Two accepted envelopes with the same plan
  digest agree in every field up to the order of keys and come with the same Manifest up to the
  order of keys, unless the two given envelopes or the two given Manifests are themselves a
  collision of SHA-256.
\<close>

theorem plan_digest_binds_plan:
  assumes "validate_saved_plan_envelope doc m = Inr e" and "validate_saved_plan_envelope doc' m' = Inr e'"
    and "se_plan_digest e = se_plan_digest e'"
  shows "(canon (PDict (AList.delete ''plan_digest'' doc)) = canon (PDict (AList.delete ''plan_digest'' doc')) \<and>
      canon (PDict (se_plan_core e)) = canon (PDict (se_plan_core e')) \<and>
      canon (PDict (se_immutable_header e)) = canon (PDict (se_immutable_header e')) \<and>
      canon (PDict m) = canon (PDict m')) \<or>
    sha_collision (digest_preimage ''agent-workflow.saved-plan.v1'' (PDict (AList.delete ''plan_digest'' doc)))
      (digest_preimage ''agent-workflow.saved-plan.v1'' (PDict (AList.delete ''plan_digest'' doc'))) \<or>
    sha_collision (utf8_encode (serialize (PDict m))) (utf8_encode (serialize (PDict m')))"
proof -
  let ?p = "AList.delete ''plan_digest'' doc" and ?p' = "AList.delete ''plan_digest'' doc'"
  have dig: "digest ''agent-workflow.saved-plan.v1'' (PDict ?p) = Inr (se_plan_digest e)"
    "digest ''agent-workflow.saved-plan.v1'' (PDict ?p') = Inr (se_plan_digest e)"
    using assms by (auto elim!: validate_saved_plan_envelopeE dest!: digest_chain(4))
  have man: "plain_digest (PDict m) = Inr (se_candidate_manifest_digest e)"
    "plain_digest (PDict m') = Inr (se_candidate_manifest_digest e')"
    using assms by (auto elim!: validate_saved_plan_envelopeE dest!: digest_chain(3))
  have gets: "get ?p k = get doc k" "get ?p' k = get doc' k" if "k \<noteq> ''plan_digest''" for k
    using that by (simp_all add: get_def delete_conv')
  have wf: "distinct (keys ?p)" "distinct (keys ?p')"
    using digest_Inr_preimage [OF dig(1)] digest_Inr_preimage [OF dig(2)] by (simp_all add: keys_def)
  show ?thesis
  proof (cases "canon (PDict ?p) = canon (PDict ?p')")
    case True
    have f: "canon (get doc k) = canon (get doc' k)" if "k \<noteq> ''plan_digest''" for k
      using canon_get [OF True wf, of k] gets [OF that] by simp
    have "canon (PDict (se_plan_core e)) = canon (PDict (se_plan_core e'))"
      "canon (PDict (se_immutable_header e)) = canon (PDict (se_immutable_header e'))"
      "se_candidate_manifest_digest e = se_candidate_manifest_digest e'"
      using f [of "''plan_core''"] f [of "''immutable_header''"] f [of "''candidate_manifest_digest''"] assms(1,2)
      by (elim validate_saved_plan_envelopeE, simp)+
    with True plain_digest_binds [OF man(1)] man(2) show ?thesis by metis
  next
    case False
    with digest_binds [OF dig] show ?thesis by blast
  qed
qed

section \<open>Exceptions\<close>

lemma plan_failures_core: "graph_failure \<in> core_failures" "plan_mismatch \<in> core_failures"
  by (auto simp: graph_failure_def plan_mismatch_def core_failures_def)

lemma plan_release_raises [raises_intros]: "graph_failure \<in> S \<Longrightarrow> raises_only S (plan_release v)"
  unfolding plan_release_def plan_check_defs by (intro raises_intros)

lemma validate_evaluations_raises [raises_intros]: "graph_failure \<in> S \<Longrightarrow> raises_only S (validate_evaluations core)"
  unfolding validate_evaluations_def plan_check_defs by (intro raises_intros)

lemma validate_branches_raise [raises_intros]:
  "graph_failure \<in> S \<Longrightarrow> raises_only S (validate_init_core core)"
  "graph_failure \<in> S \<Longrightarrow> raises_only S (validate_existing_core op core rel)"
  "graph_failure \<in> S \<Longrightarrow> raises_only S (validate_repair_core core)"
  unfolding validate_init_core_def validate_existing_core_def validate_repair_core_def plan_check_defs Let_def
  by (intro raises_intros; assumption)+

definition unhashable_operation :: "dict \<Rightarrow> exn set" where
  "unhashable_operation d = (if hashable (get d ''operation'') then {} else {TypeError})"

lemma in_strs_operation_raises: "unhashable_operation d \<subseteq> S \<Longrightarrow> raises_only S (in_strs (get d ''operation'') xs)"
  using in_strs_raises [of "get d ''operation''" xs] unfolding unhashable_operation_def by (rule raises_only_mono)

lemma validate_plan_core_raises:
  "graph_failure \<in> S \<Longrightarrow> unhashable_operation core \<subseteq> S \<Longrightarrow> raises_only S (validate_plan_core core)"
  unfolding validate_plan_core_def plan_check_defs
  by (intro raises_intros in_strs_operation_raises) assumption+

lemma validate_immutable_header_raises:
  "graph_failure \<in> S \<Longrightarrow> unhashable_operation header \<subseteq> S \<Longrightarrow> raises_only S (validate_immutable_header header)"
  unfolding validate_immutable_header_def plan_check_defs Let_def
  by (intro raises_intros in_strs_operation_raises) assumption+

lemma envelope_digests_raises:
  assumes "plan_mismatch \<in> S" and "unhashable_operation core \<union> unhashable_operation header \<subseteq> S"
  shows "raises_only S (envelope_digests doc core header m)"
proof -
  let ?T = "unhashable_operation core \<union> unhashable_operation header"
  have d: "raises_only (core_failures \<union> ?T) (digest dom v)" "raises_only (core_failures \<union> ?T) (plain_digest v)" for dom v
    by (rule raises_only_mono [OF digest_raises(1)] raises_only_mono [OF digest_raises(2)]; simp add: canonical_failure_core)+
  show ?thesis
    unfolding envelope_digests_def
  proof (rule raises_only_except_core [OF _ assms(1), where T = ?T])
    show "raises_only (core_failures \<union> ?T)
     (bnd (compute_plan_core_digest core) (\<lambda>core_digest.
      bnd (compute_journal_binding_digest header) (\<lambda>journal_digest.
      bnd (compute_candidate_manifest_digest m) (\<lambda>manifest_digest.
      bnd (compute_plan_digest (AList.delete ''plan_digest'' doc)) (\<lambda>plan_digest.
      Inr (core_digest, journal_digest, manifest_digest, plan_digest))))))"
      unfolding compute_plan_core_digest_def compute_journal_binding_digest_def compute_candidate_manifest_digest_def
        compute_plan_digest_def
      by (intro raises_intros d validate_plan_core_raises validate_immutable_header_raises) (auto simp: plan_failures_core)
  qed (use assms in auto)
qed

lemma validate_manifest_file_state_raises:
  "graph_failure \<in> S \<Longrightarrow> plan_mismatch \<in> S \<Longrightarrow> raises_only S (validate_manifest_file_state st h)"
proof -
  assume S: "graph_failure \<in> S" "plan_mismatch \<in> S"
  have c: "raises_only (core_failures \<union> {}) (normalize_path v)" "raises_only (core_failures \<union> {}) (normalize_mode v)" for v
    by (rule raises_only_mono [OF canonical_raises(2)] raises_only_mono [OF canonical_raises(3)]; simp add: canonical_failure_core)+
  have "raises_only S (except_core graph_failure
      (bnd (bnd (plan_string (get st ''path'')) (\<lambda>s. normalize_path (PStr s))) (\<lambda>path.
       bnd (normalize_mode (get st ''mode'')) (\<lambda>mode. Inr (path, mode)))))"
    unfolding plan_check_defs
    by (rule raises_only_except_core [where T = "{}"]) (intro raises_intros c, auto simp: plan_failures_core S)
  then show ?thesis
    unfolding validate_manifest_file_state_def using S
    by (auto intro!: raises_intros split: prod.splits)
qed

text \<open>
  C38: Validation of an envelope fails closed: it raises the graph failure (exit 2) or the mismatch
  failure (exit 40) and nothing else, except that an operation which is a list or an object inside
  the plan core or the header escapes as a Python TypeError.
\<close>

theorem envelope_validation_errors:
  assumes "validate_saved_plan_envelope doc m = Inl e"
  shows "e = CoreFailure ''AWP_SAVED_PLAN_GRAPH_INVALID'' 2 \<or> e = CoreFailure ''AWP_SAVED_PLAN_MISMATCH'' 40 \<or>
    (e = TypeError \<and> list_ex (\<lambda>part. case get doc part of
        PDict d \<Rightarrow> \<not> hashable (get d ''operation'') | _ \<Rightarrow> False) [''plan_core'', ''immutable_header''])"
proof -
  define T where "T = (if list_ex (\<lambda>part. case get doc part of
        PDict d \<Rightarrow> \<not> hashable (get d ''operation'') | _ \<Rightarrow> False) [''plan_core'', ''immutable_header''] then {TypeError} else {})"
  define S where "S = {graph_failure, plan_mismatch} \<union> T"
  have S: "graph_failure \<in> S" "plan_mismatch \<in> S" by (simp_all add: S_def)
  have ops: "unhashable_operation core \<union> unhashable_operation header \<subseteq> S"
    if "get doc ''plan_core'' = PDict core" "get doc ''immutable_header'' = PDict header" for core header
    using that by (auto simp: S_def T_def unhashable_operation_def)
  have env: "raises_only S (envelope_digests doc core header m)"
    if "get doc ''plan_core'' = PDict core" "get doc ''immutable_header'' = PDict header" for core header
    by (rule envelope_digests_raises [OF S(2) ops [OF that]])
  have "raises_only S (validate_saved_plan_envelope doc m)"
    unfolding validate_saved_plan_envelope_def plan_check_defs Let_def
    by (auto simp: as_mapping_Inr_iff case_prod_beta S intro!: raises_intros env validate_manifest_file_state_raises)
  from raises_onlyD [OF this assms] show ?thesis
    by (auto simp: S_def T_def graph_failure_def plan_mismatch_def split: if_splits)
qed


section \<open>A sample plan\<close>

definition sample_sha :: pyval where
  "sample_sha = PStr (sha_of (CHR ''a''))"

definition sample_release :: pyval where
  "sample_release = PDict [(''release_id'', sample_sha), (''release_manifest_digest'', sample_sha)]"

definition sample_id :: pyval where
  "sample_id = PStr ''0a000000-0000-4000-8000-000000000001''"

definition sample_core :: dict where
  "sample_core = [(''operation'', PStr ''init''), (''transaction_id'', sample_id),
     (''candidate_release'', sample_release), (''release_trust_policy_id'', PStr ''p''),
     (''release_trust_policy_digest'', sample_sha), (''profile_digest'', sample_sha), (''lock_digest'', sample_sha),
     (''artifact_bundle_digest'', sample_sha), (''pack_version'', PStr ''0.1''),
     (''source_trellis_task_layout_digest'', sample_sha), (''target_trellis_task_layout_digest'', sample_sha),
     (''source_schema_bundle_digest'', sample_sha), (''target_schema_bundle_digest'', sample_sha),
     (''task_quiescence_snapshot'', PDict []), (''task_findings'', PDict []),
     (''task_quiescence_digest'', sample_sha), (''candidate_impact'', PDict []),
     (''workspace_state_evaluation'', PDict [(''evaluator_id'', PStr ''agent-workflow.workspace-state-quiescence''),
        (''evaluator_version'', PInt 1), (''task_quiescence'', PStr ''quiescent''), (''blockers'', PList [])]),
     (''task_gate_evaluation'', PDict [(''evaluator_id'', PStr ''agent-workflow.task-gate''),
        (''evaluator_version'', PInt 1), (''blockers'', PList []), (''primary_evaluator_blocker'', PNone)]),
     (''preconditions'', PList []), (''candidate_file_states'', PList []),
     (''candidate_local_state_contract'', PDict []), (''provider_approval_bindings'', PList []),
     (''recovery_runtime'', PDict []), (''candidate_manifest_generation'', PInt 1),
     (''project_id_precondition'', PStr ''absent''), (''candidate_project_id'', sample_id),
     (''workspace_instance_precondition'', PStr ''absent''), (''candidate_workspace_instance_id'', sample_id),
     (''manifest_precondition'', PStr ''absent''), (''approval_replay_precondition'', PStr ''absent''),
     (''empty_replay_ledger_candidate_digest'', sample_sha), (''target_path_digest'', sample_sha)]"

definition core_hash :: string where
  "core_hash = sha256_hex (digest_preimage ''agent-workflow.plan-core.v1'' (PDict sample_core))"

definition sample_header :: dict where
  "sample_header = [(''transaction_id'', sample_id), (''operation'', PStr ''init''),
     (''plan_core_digest'', PStr core_hash), (''baseline_manifest_digest'', PStr ''absent''),
     (''candidate_manifest_generation'', PInt 1), (''task_quiescence_digest'', sample_sha),
     (''recovery_runtime'', PDict []), (''candidate_project_id'', sample_id),
     (''candidate_workspace_instance_id'', sample_id)]"

definition header_hash :: string where
  "header_hash = sha256_hex (digest_preimage ''agent-workflow.journal-binding.v1'' (PDict sample_header))"

definition sample_manifest :: dict where
  "sample_manifest = [(''last_transaction_binding_digest'', PStr header_hash)]"

definition manifest_hash :: string where
  "manifest_hash = sha256_hex (utf8_encode (serialize (PDict sample_manifest)))"

definition sample_projection :: dict where
  "sample_projection = [(''schema_id'', PStr ''agent-workflow.saved-plan''), (''schema_version'', PInt 1),
     (''operation'', PStr ''init''), (''plan_core'', PDict sample_core), (''plan_core_digest'', PStr core_hash),
     (''immutable_header'', PDict sample_header), (''journal_binding_digest'', PStr header_hash),
     (''candidate_manifest_digest'', PStr manifest_hash),
     (''candidate_manifest_file_state'', PDict [(''path'', PStr ''.agent-workflow/manifest.json''),
        (''byte_hash'', PStr manifest_hash), (''mode'', PStr ''0644''), (''file_type'', PStr ''regular''),
        (''non_symlink'', PBool True)])]"

definition sample_plan :: dict where
  "sample_plan = (''plan_digest'', PStr (sha256_hex (digest_preimage ''agent-workflow.saved-plan.v1'' (PDict sample_projection))))
     # sample_projection"

lemma sample_plan_checks:
  "plan_uuid sample_id = Inr ''0a000000-0000-4000-8000-000000000001''"
  "plan_sha256 sample_sha = Inr (sha_of (CHR ''a''))"
  "plan_release sample_release = Inr [(''release_id'', sample_sha), (''release_manifest_digest'', sample_sha)]"
proof -
  have "uuid_format ''0a000000-0000-4000-8000-000000000001''" by code_simp
  then show "plan_uuid sample_id = Inr ''0a000000-0000-4000-8000-000000000001''"
    by (simp add: plan_uuid_def sample_id_def as_uuid_Inr_iff)
  show "plan_sha256 sample_sha = Inr (sha_of (CHR ''a''))"
    by (simp add: plan_sha256_def sample_sha_def as_sha256_def is_sha256_sha_of is_hex_def is_digit_def)
  have "is_sha256 (sha_of (CHR ''a''))" by (simp add: is_sha256_sha_of is_hex_def is_digit_def)
  then show "plan_release sample_release = Inr [(''release_id'', sample_sha), (''release_manifest_digest'', sample_sha)]"
    unfolding plan_release_Inr_iff by (simp add: sample_release_def sample_sha_def keys_def get_def)
qed

lemma sample_core_keys:
  "same_strs (keys sample_core) (plan_core_fields ''init'')" "\<not> list_ex (has_key sample_core) DERIVED_PLAN_FIELDS"
  by code_simp+

lemma sample_core_branch: "validate_init_core sample_core = Inr ()" "validate_evaluations sample_core = Inr ()"
proof -
  show "validate_init_core sample_core = Inr ()"
    by (simp add: validate_init_core_def sample_core_def get_def sample_plan_checks require_def)
  show "validate_evaluations sample_core = Inr ()"
    by (simp add: validate_evaluations_def sample_core_def get_def plan_check_defs as_mapping_def as_array_def
        require_def same_strs_def subset_strs_def keys_def)
qed

lemma sample_core_ok: "validate_plan_core sample_core = Inr ()"
proof -
  have op: "get sample_core ''operation'' = PStr ''init''" by (simp add: sample_core_def get_def)
  have "''init'' \<in> set plan_operations" by (simp add: plan_operations_def)
  then show ?thesis
    unfolding validate_plan_core_def op
    by (simp add: sample_core_keys sample_core_branch require_def as_string_def)
      (simp add: sample_core_def get_def sample_plan_checks plan_array_def as_array_def plan_mapping_def as_mapping_def
        plan_string_def as_string_def)
qed


lemma sample_plan_domains:
  "digest_domain ''agent-workflow.plan-core.v1''" "digest_domain ''agent-workflow.journal-binding.v1''"
  "digest_domain ''agent-workflow.saved-plan.v1''"
  by (simp_all add: digest_domain_def ord_def)

lemma sample_core_wf: "wf_pyval (PDict sample_core) \<and> json_value (PDict sample_core)"
  by (simp add: sample_core_def sample_release_def sample_sha_def sample_id_def)

lemma sample_core_digest: "compute_plan_core_digest sample_core = Inr core_hash"
  using sample_core_wf sample_core_ok sample_plan_domains
  by (simp add: compute_plan_core_digest_def digest_ok core_hash_def del: wf_pyval.simps json_value.simps)

lemma sample_header_wf: "wf_pyval (PDict sample_header) \<and> json_value (PDict sample_header)"
  by (simp add: sample_header_def sample_sha_def sample_id_def)

lemma sample_header_ok: "validate_immutable_header sample_header = Inr ()"
proof -
  have op: "get sample_header ''operation'' = PStr ''init''" by (simp add: sample_header_def get_def)
  have core: "plan_sha256 (PStr core_hash) = Inr core_hash"
    by (simp add: plan_sha256_def as_sha256_def core_hash_def sha.hd_sha256)
  have "''init'' \<in> set plan_operations" by (simp add: plan_operations_def)
  moreover have "same_strs (keys sample_header) (header_fields True)"
    "\<not> list_ex (has_key sample_header) [''journal_binding_digest'', ''candidate_manifest_digest'', ''plan_digest'']"
    by (simp_all add: sample_header_def header_fields_def header_common_fields_def keys_def same_strs_def subset_strs_def has_key_def)
  ultimately show ?thesis
    unfolding validate_immutable_header_def op
    by (simp add: require_def)
      (simp add: sample_header_def get_def sample_plan_checks core plan_mapping_def as_mapping_def)
qed

lemma sample_header_digest: "compute_journal_binding_digest sample_header = Inr header_hash"
  using sample_header_wf sample_header_ok sample_plan_domains
  by (simp add: compute_journal_binding_digest_def digest_ok header_hash_def del: wf_pyval.simps json_value.simps)

lemma sample_manifest_digest: "compute_candidate_manifest_digest sample_manifest = Inr manifest_hash"
proof -
  have "wf_pyval (PDict sample_manifest)" "json_value (PDict sample_manifest)"
    "\<not> list_ex (has_key sample_manifest) [''candidate_manifest_digest'', ''plan_digest'']"
    by (simp_all add: sample_manifest_def has_key_def)
  then show ?thesis
    by (simp add: compute_candidate_manifest_digest_def require_def plain_digest_ok manifest_hash_def
        del: wf_pyval.simps json_value.simps)
qed

lemma sample_projection_digest: "compute_plan_digest sample_projection = Inr (sha256_hex
    (digest_preimage ''agent-workflow.saved-plan.v1'' (PDict sample_projection)))"
proof -
  have "wf_pyval (PDict sample_projection)" "json_value (PDict sample_projection)"
    using sample_core_wf sample_header_wf by (simp_all add: sample_projection_def)
  moreover have "\<not> has_key sample_projection ''plan_digest''" "same_strs (keys sample_projection) plan_projection_fields"
    by (simp_all add: sample_projection_def has_key_def keys_def plan_projection_fields_def same_strs_def subset_strs_def)
  ultimately show ?thesis
    using sample_plan_domains
    by (simp add: compute_plan_digest_def require_def digest_ok del: wf_pyval.simps json_value.simps)
qed

lemma sample_plan_ok: "\<exists>e. validate_saved_plan_envelope sample_plan sample_manifest = Inr e"
proof -
  have del: "AList.delete ''plan_digest'' sample_plan = sample_projection"
    by (simp add: sample_plan_def sample_projection_def)
  have ks: "same_strs (keys sample_plan) (plan_projection_fields @ [''plan_digest''])"
    by (simp add: sample_plan_def sample_projection_def keys_def plan_projection_fields_def same_strs_def subset_strs_def)
  have path: "normalize_path (PStr ''.agent-workflow/manifest.json'') = Inr ''.agent-workflow/manifest.json''"
    by (simp add: normalize_path_Inr_iff canonical_path_def windows_drive_def alias_segment_def ord_def)
  have mode: "normalize_mode (PStr ''0644'') = Inr ''0644''" by code_simp
  have fs: "validate_manifest_file_state [(''path'', PStr ''.agent-workflow/manifest.json''),
        (''byte_hash'', PStr manifest_hash), (''mode'', PStr ''0644''), (''file_type'', PStr ''regular''),
        (''non_symlink'', PBool True)] manifest_hash = Inr ()"
    by (simp add: validate_manifest_file_state_def require_def same_strs_def subset_strs_def keys_def get_def
        plan_string_def as_string_def path mode)
  have dig: "envelope_digests sample_plan sample_core sample_header sample_manifest = Inr (core_hash, header_hash,
      manifest_hash, sha256_hex (digest_preimage ''agent-workflow.saved-plan.v1'' (PDict sample_projection)))"
    unfolding envelope_digests_Inr_iff del
    by (simp add: sample_core_digest sample_header_digest sample_manifest_digest sample_projection_digest)
  have gets: "get sample_plan ''schema_id'' = PStr ''agent-workflow.saved-plan''" "get sample_plan ''schema_version'' = PInt 1"
    "get sample_plan ''operation'' = PStr ''init''" "get sample_plan ''plan_core'' = PDict sample_core"
    "get sample_plan ''plan_core_digest'' = PStr core_hash" "get sample_plan ''immutable_header'' = PDict sample_header"
    "get sample_plan ''journal_binding_digest'' = PStr header_hash"
    "get sample_plan ''candidate_manifest_digest'' = PStr manifest_hash"
    "get sample_plan ''candidate_manifest_file_state'' = PDict [(''path'', PStr ''.agent-workflow/manifest.json''),
        (''byte_hash'', PStr manifest_hash), (''mode'', PStr ''0644''), (''file_type'', PStr ''regular''),
        (''non_symlink'', PBool True)]"
    "get sample_plan ''plan_digest'' = PStr (sha256_hex (digest_preimage ''agent-workflow.saved-plan.v1'' (PDict sample_projection)))"
    by (simp_all add: sample_plan_def get_def) (simp_all add: sample_projection_def)
  have inner: "get sample_core ''operation'' = PStr ''init''" "get sample_header ''operation'' = PStr ''init''"
    "get sample_header ''plan_core_digest'' = PStr core_hash"
    "get sample_manifest ''last_transaction_binding_digest'' = PStr header_hash"
    by (simp_all add: sample_core_def sample_header_def sample_manifest_def get_def)
  show ?thesis
    unfolding validate_saved_plan_envelope_def gets Let_def
    by (simp add: ks require_def plan_mapping_def as_mapping_def dig inner fs as_string_def)
qed

theorem plan_core_discipline_witness:
  "get sample_core ''project_id_precondition'' = PStr ''absent'' \<and>
   set (keys sample_core) \<inter> set DERIVED_PLAN_FIELDS = {}"
proof -
  have op: "get sample_core ''operation'' = PStr ''init''" by (simp add: sample_core_def get_def)
  from plan_core_discipline [OF sample_core_digest] show ?thesis unfolding op by auto
qed

theorem envelope_digest_chain_witness:
  "\<exists>e. validate_saved_plan_envelope sample_plan sample_manifest = Inr e \<and>
     se_candidate_manifest_digest e = sha256_hex (utf8_encode (serialize (PDict sample_manifest)))"
  using sample_plan_ok envelope_digest_chain by blast

theorem plan_digest_binds_plan_witness:
  "\<exists>e. validate_saved_plan_envelope sample_plan sample_manifest = Inr e \<and>
     (canon (PDict sample_manifest) = canon (PDict sample_manifest) \<or>
      sha_collision (utf8_encode (serialize (PDict sample_manifest))) (utf8_encode (serialize (PDict sample_manifest))))"
  using sample_plan_ok plan_digest_binds_plan [OF _ _ refl] by blast

text \<open>An envelope whose plan core has a list as its operation.\<close>

definition sample_bad_plan :: dict where
  "sample_bad_plan = map (\<lambda>(k, v). (k, if k = ''plan_core'' then PDict [(''operation'', PList [])] else v)) sample_plan"

theorem envelope_validation_errors_witness:
  "validate_saved_plan_envelope sample_bad_plan sample_manifest = Inl TypeError \<and>
   list_ex (\<lambda>part. case get sample_bad_plan part of
        PDict d \<Rightarrow> \<not> hashable (get d ''operation'') | _ \<Rightarrow> False) [''plan_core'', ''immutable_header'']"
proof -
  have gets: "get sample_bad_plan ''schema_id'' = PStr ''agent-workflow.saved-plan''" "get sample_bad_plan ''schema_version'' = PInt 1"
    "get sample_bad_plan ''plan_core'' = PDict [(''operation'', PList [])]"
    "get sample_bad_plan ''immutable_header'' = PDict sample_header"
    "get sample_bad_plan ''candidate_manifest_file_state'' = PDict [(''path'', PStr ''.agent-workflow/manifest.json''),
        (''byte_hash'', PStr manifest_hash), (''mode'', PStr ''0644''), (''file_type'', PStr ''regular''),
        (''non_symlink'', PBool True)]"
    by (simp_all add: sample_bad_plan_def sample_plan_def sample_projection_def get_def)
  have ks: "same_strs (keys sample_bad_plan) (plan_projection_fields @ [''plan_digest''])"
    by (simp add: sample_bad_plan_def sample_plan_def sample_projection_def keys_def plan_projection_fields_def
        same_strs_def subset_strs_def)
  have "validate_plan_core [(''operation'', PList [])] = Inl TypeError"
    by (simp add: validate_plan_core_def require_def DERIVED_PLAN_FIELDS_def has_key_def get_def)
  then have "validate_saved_plan_envelope sample_bad_plan sample_manifest = Inl TypeError"
    unfolding validate_saved_plan_envelope_def gets Let_def
    by (simp add: ks require_def plan_mapping_def as_mapping_def envelope_digests_def compute_plan_core_digest_def)
  with envelope_validation_errors [OF this] show ?thesis by simp
qed

end
