(* ===== verification/Reconcile_Models.thy ===== *)
theory Reconcile_Models
  imports Filesystem Saved_Plan
begin

text \<open>
  The data of the reconciler: its failures (\<^verbatim>\<open>reconcile/errors.py\<close>) and the documents of
  \<^verbatim>\<open>reconcile/models.py\<close>, the complete state of one file, a staged file and the lifecycle
  journal of one transaction. A file state is written into plans and journals by
  \<open>file_state_document\<close> and read back by \<open>file_state_from_document\<close>; the theorems show that the
  two are inverse on the states the reader accepts.
\<close>

section \<open>Failures\<close>

definition renderer_exit_codes :: "(string \<times> nat) list" where
  "renderer_exit_codes =
     [(''AWP_RENDER_NONDETERMINISTIC'', 2), (''AWP_OWNERSHIP_DRIFT'', 20), (''AWP_OWNERSHIP_CONFLICT'', 20),
      (''AWP_RECONCILE_LOCKED'', 21), (''AWP_RECONCILE_RECOVERY_REQUIRED'', 21), (''AWP_FILE_CAS_MISMATCH'', 40),
      (''AWP_FILESYSTEM_UNSUPPORTED'', 20), (''AWP_MAINTENANCE_CORRUPT'', 21), (''AWP_ROLLBACK_CONFLICT'', 21),
      (''AWP_TASK_QUIESCENCE_CHANGED'', 40)]"

definition renderer_failure :: "string \<Rightarrow> exn" where
  "renderer_failure code =
     RendererFailure code (case map_of renderer_exit_codes code of None \<Rightarrow> 70 | Some n \<Rightarrow> n)"

abbreviation recovery_required :: exn where
  "recovery_required \<equiv> renderer_failure ''AWP_RECONCILE_RECOVERY_REQUIRED''"

abbreviation cas_mismatch :: exn where
  "cas_mismatch \<equiv> renderer_failure ''AWP_FILE_CAS_MISMATCH''"

abbreviation rollback_conflict :: exn where
  "rollback_conflict \<equiv> renderer_failure ''AWP_ROLLBACK_CONFLICT''"

abbreviation maintenance_corrupt :: exn where
  "maintenance_corrupt \<equiv> renderer_failure ''AWP_MAINTENANCE_CORRUPT''"

definition is_renderer_failure :: "exn \<Rightarrow> bool" where
  "is_renderer_failure e = (case e of RendererFailure _ _ \<Rightarrow> True | _ \<Rightarrow> False)"

text \<open>\<^verbatim>\<open>except Exception as error: raise e from error\<close>.\<close>

fun except_any :: "exn \<Rightarrow> 'a res \<Rightarrow> 'a res" where
  "except_any e (Inl _) = Inl e"
| "except_any e (Inr x) = Inr x"

section \<open>File states\<close>

record file_state =
  fs_path :: string
  fs_exists :: bool
  fs_type :: string
  fs_hash :: string
  fs_mode :: string
  fs_non_symlink :: bool
  fs_block :: string

definition file_state_fields :: "string list" where
  "file_state_fields = [''schema_id'', ''schema_version'', ''path'', ''exists'', ''file_type'', ''byte_hash'',
     ''mode'', ''non_symlink'', ''managed_block_hash'']"

text \<open>\<^verbatim>\<open>_sha256(value, field, allow_null=True)\<close>.\<close>

definition sha256_or_null :: "pyval \<Rightarrow> string res" where
  "sha256_or_null v = (if v = PStr CANONICAL_NULL then Inr CANONICAL_NULL else as_sha256 recovery_required v)"

definition as_bool :: "exn \<Rightarrow> pyval \<Rightarrow> bool res" where
  "as_bool e v = (case v of PBool b \<Rightarrow> Inr b | _ \<Rightarrow> Inl e)"

definition state_mode :: "pyval \<Rightarrow> string res" where
  "state_mode v = (if v = PStr CANONICAL_NULL then Inr CANONICAL_NULL
     else except_any recovery_required (normalize_mode v))"

definition file_state_from_document :: "dict \<Rightarrow> file_state res" where
  "file_state_from_document d =
     (if \<not> same_strs (keys d) file_state_fields then Inl recovery_required
      else if get d ''schema_id'' \<noteq> PStr ''agent-workflow.file-state'' \<or> \<not> py_eq (get d ''schema_version'') (PInt 1)
      then Inl recovery_required
      else bnd (as_bool recovery_required (get d ''exists'')) (\<lambda>ex.
        bnd (as_bool recovery_required (get d ''non_symlink'')) (\<lambda>non_symlink.
        bnd (in_strs (get d ''file_type'') [''regular'', ''directory'', ''absent'']) (\<lambda>known.
        if \<not> known then Inl recovery_required
        else bnd (sha256_or_null (get d ''byte_hash'')) (\<lambda>byte_hash.
        bnd (state_mode (get d ''mode'')) (\<lambda>mode.
        if ex \<and> get d ''file_type'' = PStr ''absent'' then Inl recovery_required
        else if \<not> ex \<and> (get d ''file_type'' \<noteq> PStr ''absent'' \<or> byte_hash \<noteq> CANONICAL_NULL)
        then Inl recovery_required
        else bnd (normalize_path (PStr (py_str (get d ''path'')))) (\<lambda>p.
        bnd (sha256_or_null (get d ''managed_block_hash'')) (\<lambda>block.
        Inr \<lparr>fs_path = p, fs_exists = ex, fs_type = py_str (get d ''file_type''), fs_hash = byte_hash,
          fs_mode = mode, fs_non_symlink = non_symlink, fs_block = block\<rparr>))))))))"

definition file_state_document :: "file_state \<Rightarrow> dict" where
  "file_state_document f =
     [(''schema_id'', PStr ''agent-workflow.file-state''), (''schema_version'', PInt 1),
      (''path'', PStr (fs_path f)), (''exists'', PBool (fs_exists f)), (''file_type'', PStr (fs_type f)),
      (''byte_hash'', PStr (fs_hash f)), (''mode'', PStr (fs_mode f)),
      (''non_symlink'', PBool (fs_non_symlink f)), (''managed_block_hash'', PStr (fs_block f))]"

section \<open>Staged files\<close>

record staged_file =
  st_path :: string
  st_definition_id :: string
  st_surface_id :: string
  st_ownership :: string
  st_merge_strategy :: string
  st_source_digest :: string
  st_render_digest :: string
  st_candidate_byte_hash :: string
  st_mode_policy :: string
  st_candidate_mode :: string
  st_validator_results :: "dict list"
  st_candidate_bytes :: "byte list"
  st_neutral_source_bytes :: "byte list"

definition staged_file_fields :: "string list" where
  "staged_file_fields = [''schema_id'', ''schema_version'', ''path'', ''definition_id'', ''surface_id'',
     ''ownership'', ''merge_strategy'', ''source_digest'', ''render_digest'', ''candidate_byte_hash'',
     ''mode_policy'', ''candidate_mode'', ''validator_results'']"

definition staged_mode :: "pyval \<Rightarrow> string res" where
  "staged_mode v = (case v of
     PStr s \<Rightarrow> if s = CANONICAL_NULL then Inr CANONICAL_NULL
               else except_any recovery_required (normalize_mode v)
   | PInt n \<Rightarrow> except_any recovery_required (normalize_mode v)
   | _ \<Rightarrow> Inl recovery_required)"

definition staged_file_from_document :: "dict \<Rightarrow> staged_file res" where
  "staged_file_from_document d =
     (if \<not> same_strs (keys d) staged_file_fields then Inl recovery_required
      else bnd (as_array recovery_required (get d ''validator_results'')) (\<lambda>results.
        bnd (staged_mode (get d ''candidate_mode'')) (\<lambda>candidate_mode.
        bnd (normalize_path (PStr (py_str (get d ''path'')))) (\<lambda>p.
        bnd (as_sha256 recovery_required (get d ''source_digest'')) (\<lambda>source_digest.
        bnd (as_sha256 recovery_required (get d ''render_digest'')) (\<lambda>render_digest.
        bnd (as_sha256 recovery_required (get d ''candidate_byte_hash'')) (\<lambda>candidate_byte_hash.
        bnd (mapr (as_mapping recovery_required) results) (\<lambda>validator_results.
        Inr \<lparr>st_path = p, st_definition_id = py_str (get d ''definition_id''),
          st_surface_id = py_str (get d ''surface_id''), st_ownership = py_str (get d ''ownership''),
          st_merge_strategy = py_str (get d ''merge_strategy''), st_source_digest = source_digest,
          st_render_digest = render_digest, st_candidate_byte_hash = candidate_byte_hash,
          st_mode_policy = py_str (get d ''mode_policy''), st_candidate_mode = candidate_mode,
          st_validator_results = validator_results, st_candidate_bytes = [],
          st_neutral_source_bytes = []\<rparr>))))))))"

record staged_render_tree =
  tree_files :: "staged_file list"
  content_root_digest :: string
  launcher_bundle_digest :: string
  distribution_render_digest :: string

section \<open>Lifecycle journals\<close>

record lifecycle_journal =
  lj_immutable_header :: dict
  lj_journal_binding_digest :: string
  lj_task_quiescence_snapshot :: dict
  lj_plan_digest :: string
  lj_candidate_manifest_digest :: string
  lj_candidate_manifest :: dict
  lj_phase :: string
  lj_file_records :: "dict list"
  lj_created_directories :: "string list"
  lj_diagnostics :: "dict list"
  lj_rollback_state :: dict

definition lifecycle_journal_fields :: "string list" where
  "lifecycle_journal_fields = [''schema_id'', ''schema_version'', ''immutable_header'', ''journal_binding_digest'',
     ''task_quiescence_snapshot'', ''plan_digest'', ''candidate_manifest_digest'', ''candidate_manifest'',
     ''phase'', ''file_records'', ''created_directories'', ''diagnostics'', ''rollback_state'']"

definition PHASES :: "string list" where
  "PHASES = [''planned'', ''probing'', ''prepared'', ''applying'', ''files_applied'', ''manifest_committed'',
     ''cleanup_pending'', ''complete'']"

definition journal_from_document :: "dict \<Rightarrow> lifecycle_journal res" where
  "journal_from_document d =
     (if \<not> same_strs (keys d) lifecycle_journal_fields then Inl recovery_required
      else bnd (as_mapping recovery_required (get d ''immutable_header'')) (\<lambda>header.
        bnd (as_sha256 recovery_required (get d ''journal_binding_digest'')) (\<lambda>claimed.
        bnd (compute_journal_binding_digest header) (\<lambda>actual.
        if claimed \<noteq> actual then Inl recovery_required
        else bnd (in_strs (get d ''phase'') PHASES) (\<lambda>known.
        if \<not> known then Inl recovery_required
        else bnd (as_mapping recovery_required (get d ''task_quiescence_snapshot'')) (\<lambda>snapshot.
        bnd (as_sha256 recovery_required (get d ''plan_digest'')) (\<lambda>plan_digest.
        bnd (as_sha256 recovery_required (get d ''candidate_manifest_digest'')) (\<lambda>manifest_digest.
        bnd (as_mapping recovery_required (get d ''candidate_manifest'')) (\<lambda>manifest.
        bnd (bnd (as_array recovery_required (get d ''file_records''))
              (mapr (as_mapping recovery_required))) (\<lambda>records.
        bnd (as_array recovery_required (get d ''created_directories'')) (\<lambda>directories.
        bnd (bnd (as_array recovery_required (get d ''diagnostics''))
              (mapr (as_mapping recovery_required))) (\<lambda>diagnostics.
        bnd (as_mapping recovery_required (get d ''rollback_state'')) (\<lambda>rollback_state.
        Inr \<lparr>lj_immutable_header = header, lj_journal_binding_digest = claimed,
          lj_task_quiescence_snapshot = snapshot, lj_plan_digest = plan_digest,
          lj_candidate_manifest_digest = manifest_digest, lj_candidate_manifest = manifest,
          lj_phase = py_str (get d ''phase''), lj_file_records = records,
          lj_created_directories = map py_str directories, lj_diagnostics = diagnostics,
          lj_rollback_state = rollback_state\<rparr>)))))))))))))"

section \<open>Well-formed file states\<close>

definition canonical_mode :: "string \<Rightarrow> bool" where
  "canonical_mode m = (normalize_mode (PStr m) = Inr m)"

definition valid_file_state :: "file_state \<Rightarrow> bool" where
  "valid_file_state f =
     (canonical_path (fs_path f) \<and> fs_type f \<in> {''regular'', ''directory'', ''absent''}
      \<and> (fs_hash f = CANONICAL_NULL \<or> is_sha256 (fs_hash f))
      \<and> (fs_mode f = CANONICAL_NULL \<or> canonical_mode (fs_mode f))
      \<and> (fs_exists f \<longrightarrow> fs_type f \<noteq> ''absent'')
      \<and> (\<not> fs_exists f \<longrightarrow> fs_type f = ''absent'' \<and> fs_hash f = CANONICAL_NULL)
      \<and> (fs_block f = CANONICAL_NULL \<or> is_sha256 (fs_block f)))"

lemma except_any_Inr_iff [res_simps]: "except_any e r = Inr x \<longleftrightarrow> r = Inr x"
  by (cases r) auto

lemma as_bool_Inr_iff [res_simps]: "as_bool e v = Inr b \<longleftrightarrow> v = PBool b"
  by (cases v) (auto simp: as_bool_def)

lemma sha256_or_null_Inr_iff [res_simps]:
  "sha256_or_null v = Inr h \<longleftrightarrow> v = PStr h \<and> (h = CANONICAL_NULL \<or> is_sha256 h)"
  by (auto simp: sha256_or_null_def as_sha256_def split: pyval.splits)

lemma normalize_mode_idem: "normalize_mode v = Inr m \<Longrightarrow> canonical_mode m"
  by (auto simp: canonical_mode_def normalize_mode_format_mode normalize_mode_def [of v] split: pyval.splits if_splits)

lemma file_state_document_inj [simp]: "file_state_document f = file_state_document g \<longleftrightarrow> f = g"
  by (auto simp: file_state_document_def)

lemma file_state_accepted_valid:
  assumes "file_state_from_document d = Inr f"
  shows "valid_file_state f"
proof -
  obtain ex ns h m p b
    where t: "\<exists>known. in_strs (get d ''file_type'') [''regular'', ''directory'', ''absent''] = Inr known \<and> known"
    and h: "sha256_or_null (get d ''byte_hash'') = Inr h" and m: "state_mode (get d ''mode'') = Inr m"
    and e: "\<not> (ex \<and> get d ''file_type'' = PStr ''absent'')"
      "\<not> (\<not> ex \<and> (get d ''file_type'' \<noteq> PStr ''absent'' \<or> h \<noteq> CANONICAL_NULL))"
    and p: "normalize_path (PStr (py_str (get d ''path''))) = Inr p"
    and b: "sha256_or_null (get d ''managed_block_hash'') = Inr b"
    and f: "f = \<lparr>fs_path = p, fs_exists = ex, fs_type = py_str (get d ''file_type''), fs_hash = h,
          fs_mode = m, fs_non_symlink = ns, fs_block = b\<rparr>"
    using assms unfolding file_state_from_document_def
    by (simp only: bnd_Inr_iff if_Inl_Inr_iff sum.inject not_not) blast
  obtain ft where ft: "get d ''file_type'' = PStr ft" "ft \<in> {''regular'', ''directory'', ''absent''}"
    using t by (cases "get d ''file_type''") auto
  have "m = CANONICAL_NULL \<or> canonical_mode m"
    using m normalize_mode_idem by (auto simp: state_mode_def res_simps split: if_splits)
  with ft h b e p show ?thesis
    by (simp add: f valid_file_state_def normalize_path_Inr_iff sha256_or_null_Inr_iff) blast
qed

lemma file_state_keys: "same_strs (keys (file_state_document f)) file_state_fields"
  by (simp add: same_strs_iff file_state_document_def file_state_fields_def keys_def)

lemma file_state_gets:
  "get (file_state_document f) ''schema_id'' = PStr ''agent-workflow.file-state''"
  "get (file_state_document f) ''schema_version'' = PInt 1"
  "get (file_state_document f) ''path'' = PStr (fs_path f)"
  "get (file_state_document f) ''exists'' = PBool (fs_exists f)"
  "get (file_state_document f) ''file_type'' = PStr (fs_type f)"
  "get (file_state_document f) ''byte_hash'' = PStr (fs_hash f)"
  "get (file_state_document f) ''mode'' = PStr (fs_mode f)"
  "get (file_state_document f) ''non_symlink'' = PBool (fs_non_symlink f)"
  "get (file_state_document f) ''managed_block_hash'' = PStr (fs_block f)"
  by (simp_all add: get_def file_state_document_def)

lemma file_state_reads_back:
  assumes "valid_file_state f"
  shows "file_state_from_document (file_state_document f) = Inr f"
proof -
  have "state_mode (PStr (fs_mode f)) = Inr (fs_mode f)"
    using assms by (auto simp: valid_file_state_def state_mode_def canonical_mode_def)
  moreover have "sha256_or_null (PStr (fs_hash f)) = Inr (fs_hash f)"
    "sha256_or_null (PStr (fs_block f)) = Inr (fs_block f)"
    "normalize_path (PStr (fs_path f)) = Inr (fs_path f)"
    using assms by (auto simp: valid_file_state_def res_simps normalize_path_Inr_iff)
  ultimately show ?thesis
    using assms
    by (auto simp: file_state_from_document_def file_state_keys file_state_gets valid_file_state_def as_bool_def)
qed

text \<open>
  A file state that the reader accepts is well formed, and writing it out and reading it back
  gives the same state; two accepted states with the same document are equal.
\<close>

theorem file_state_roundtrip:
  assumes "file_state_from_document d = Inr f"
  shows "valid_file_state f \<and> file_state_from_document (file_state_document f) = Inr f \<and>
    (file_state_from_document e = Inr g \<longrightarrow> (file_state_document f = file_state_document g \<longleftrightarrow> f = g))"
  using file_state_accepted_valid [OF assms] file_state_reads_back by simp

definition sample_state :: file_state where
  "sample_state = \<lparr>fs_path = ''a/b'', fs_exists = True, fs_type = ''regular'', fs_hash = replicate 64 (CHR ''0''),
     fs_mode = ''0644'', fs_non_symlink = True, fs_block = CANONICAL_NULL\<rparr>"

lemma mode_0644: "canonical_mode ''0644''"
  by (simp add: canonical_mode_def normalize_mode_def octal_mode_def remove_prefix_def starts_with_def is_octal_def
      parse_base_def is_digit_def ord_def format_mode_def zero_pad_def show_base.simps [of 8 420]
      show_base.simps [of 8 52] show_base.simps [of 8 6] hex_digit_def char_of_def bit_0 bit_Suc)

lemma sample_state_valid: "valid_file_state sample_state"
  by (simp add: valid_file_state_def sample_state_def mode_0644 canonical_path_def windows_drive_def ord_def
      is_sha256_def is_hex_def is_digit_def list_all_iff)

theorem file_state_roundtrip_witness:
  "file_state_from_document (file_state_document sample_state) = Inr sample_state \<and>
   file_state_from_document (AList.update ''exists'' (PBool False) (file_state_document sample_state)) = Inl recovery_required"
proof -
  have "file_state_from_document (file_state_document sample_state) = Inr sample_state"
    by (rule file_state_reads_back [OF sample_state_valid])
  from file_state_roundtrip [OF this] show ?thesis
    by (simp add: file_state_from_document_def file_state_document_def sample_state_def same_strs_def subset_strs_def
        file_state_fields_def keys_def get_def as_bool_def sha256_or_null_def as_sha256_def state_mode_def
        CANONICAL_NULL_def is_sha256_def is_hex_def is_digit_def mode_0644 [unfolded canonical_mode_def] list_all_iff)
qed

end
