(* ===== verification/Cas.thy ===== *)
theory Cas
  imports Reconcile_Models
begin

text \<open>
  \<^verbatim>\<open>reconcile/cas.py\<close>: the observation of one file and the compare-and-swap that replaces or
  removes one regular file only from its complete expected state. The new bytes are written to a
  temporary file in the same directory and renamed over the target. The model has one device, so
  the cross-device test of the source always passes and is left out; the root of the project is a
  real directory. The theorems describe the swap on every branch and at every crash point.
\<close>

section \<open>Observation\<close>

definition cas_target :: "fs \<Rightarrow> string \<Rightarrow> path res" where
  "cas_target s relative = bnd (normalize_path (PStr relative)) (\<lambda>normalized.
     let target = path_of normalized in
     if list_ex (\<lambda>q. is_symlink s q \<or> (path_exists s q \<and> \<not> is_dir s q)) (ancestors target)
     then Inl cas_mismatch else Inr target)"

definition observe_file_state :: "fs \<Rightarrow> string \<Rightarrow> string \<Rightarrow> file_state res" where
  "observe_file_state s relative block = bnd (cas_target s relative) (\<lambda>target.
     bnd (normalize_path (PStr relative)) (\<lambda>p. case node_at s target of
       None \<Rightarrow> Inr \<lparr>fs_path = p, fs_exists = False, fs_type = ''absent'', fs_hash = CANONICAL_NULL,
         fs_mode = CANONICAL_NULL, fs_non_symlink = True, fs_block = block\<rparr>
     | Some (Symlink _) \<Rightarrow> Inl cas_mismatch
     | Some (File bs m) \<Rightarrow> bnd (normalize_mode (PInt (int m))) (\<lambda>mode.
         Inr \<lparr>fs_path = p, fs_exists = True, fs_type = ''regular'', fs_hash = sha256_hex bs,
           fs_mode = mode, fs_non_symlink = True, fs_block = block\<rparr>)
     | Some (Dir m) \<Rightarrow> bnd (normalize_mode (PInt (int m))) (\<lambda>mode.
         Inr \<lparr>fs_path = p, fs_exists = True, fs_type = ''directory'', fs_hash = CANONICAL_NULL,
           fs_mode = mode, fs_non_symlink = True, fs_block = block\<rparr>)
     | Some (Special m) \<Rightarrow> bnd (normalize_mode (PInt (int m))) (\<lambda>_. Inl cas_mismatch)))"

definition assert_state :: "file_state \<Rightarrow> fs \<Rightarrow> unit res" where
  "assert_state expected s = bnd (observe_file_state s (fs_path expected) (fs_block expected)) (\<lambda>current.
     require (file_state_document current = file_state_document expected) cas_mismatch)"

section \<open>Compare and swap\<close>

text \<open>\<^verbatim>\<open>int(mode, 8)\<close> on the text of a mode.\<close>

definition mode_bits :: "string \<Rightarrow> nat res" where
  "mode_bits m = (if octal_mode m then Inr (parse_base 8 (remove_prefix ''0o'' m)) else Inl ValueError)"

definition cas_delete :: "file_state \<Rightarrow> file_state \<Rightarrow> byte list option \<Rightarrow> path \<Rightarrow> file_state io" where
  "cas_delete expected candidate content target =
     (if fs_type candidate \<noteq> ''absent'' \<or> content \<noteq> None then iraise cas_mismatch
      else ibnd
        (if fs_exists expected then
           (if fs_type expected \<noteq> ''regular'' then iraise cas_mismatch
            else ibnd (iread (assert_state expected)) (\<lambda>_. unlink target))
         else iret ())
        (\<lambda>_. ibnd (iread (\<lambda>s. observe_file_state s (fs_path expected) CANONICAL_NULL)) (\<lambda>result.
           if file_state_document result \<noteq> file_state_document candidate then iraise cas_mismatch
           else iret result)))"

definition cas_write :: "file_state \<Rightarrow> file_state \<Rightarrow> byte list \<Rightarrow> path \<Rightarrow> path \<Rightarrow> unit io" where
  "cas_write expected candidate bs target temporary =
     ibnd (istep (write_fs temporary bs)) (\<lambda>_.
     ibnd (ilift (mode_bits (fs_mode candidate))) (\<lambda>m.
     ibnd (chmod temporary m) (\<lambda>_.
     ibnd (iread (assert_state expected)) (\<lambda>_.
     replace temporary target))))"

definition cas_prefix :: string where
  "cas_prefix = ''.awp-cas-''"

definition cas_replace ::
  "random_name \<Rightarrow> file_state \<Rightarrow> file_state \<Rightarrow> byte list option \<Rightarrow> path \<Rightarrow> file_state io" where
  "cas_replace rnd expected candidate content target =
     (case content of
        None \<Rightarrow> iraise cas_mismatch
      | Some bs \<Rightarrow>
          if fs_type candidate \<noteq> ''regular'' \<or> \<not> fs_non_symlink candidate \<or> fs_mode candidate = CANONICAL_NULL
          then iraise cas_mismatch
          else if sha256_hex bs \<noteq> fs_hash candidate then iraise cas_mismatch
          else ibnd (iread (\<lambda>s. require (is_dir s (parent target) \<and> \<not> is_symlink s (parent target)) cas_mismatch))
            (\<lambda>_. ibnd (mkstemp rnd (parent target) cas_prefix) (\<lambda>temporary.
            ibnd (ifinally (cas_write expected candidate bs target temporary) (discard temporary)) (\<lambda>_.
            ibnd (iread (\<lambda>s. observe_file_state s (fs_path expected) (fs_block candidate))) (\<lambda>result.
            if file_state_document result \<noteq> file_state_document candidate then iraise cas_mismatch
            else iret result)))))"

definition compare_and_swap ::
  "random_name \<Rightarrow> file_state \<Rightarrow> file_state \<Rightarrow> byte list option \<Rightarrow> file_state io" where
  "compare_and_swap rnd expected candidate content =
     (if fs_path expected \<noteq> fs_path candidate then iraise cas_mismatch
      else ibnd (iread (\<lambda>s. cas_target s (fs_path expected))) (\<lambda>target.
        ibnd (iread (assert_state expected)) (\<lambda>_.
        if \<not> fs_exists candidate then cas_delete expected candidate content target
        else cas_replace rnd expected candidate content target)))"

section \<open>Finite-map updates\<close>

lemma fmdrop_fmupd_fresh: "fmlookup s p = None \<Longrightarrow> fmdrop p (fmupd p x s) = s"
  by (rule fmap_ext) auto

lemma fmupd_fmdrop_same: "fmupd p x (fmdrop p s) = fmupd p x s"
  by (rule fmap_ext) auto

lemma fmupd_twice [simp]: "fmupd p x (fmupd p y s) = fmupd p x s"
  by (rule fmap_ext) auto

lemma fmdrop_absent: "fmlookup s p = None \<Longrightarrow> fmdrop p s = s"
  by (rule fmap_ext) auto

lemma node_at_fmupd: "q \<noteq> [] \<Longrightarrow> node_at (fmupd q x s) p = (if p = q then Some x else node_at s p)"
  by (simp add: node_at_def)

lemma node_at_fmdrop: "q \<noteq> [] \<Longrightarrow> node_at (fmdrop q s) p = (if p = q then None else node_at s p)"
  by (simp add: node_at_def)

section \<open>What is observed\<close>

lemma path_of_canonical: "canonical_path p \<Longrightarrow> path_of p = split_on chr_slash p \<and> path_of p \<noteq> []"
proof -
  assume "canonical_path p"
  then have "filter (\<lambda>q. q \<noteq> [] \<and> q \<noteq> ''.'') (split_on chr_slash p) = split_on chr_slash p"
    unfolding canonical_path_def filter_id_conv list_all_iff by auto
  then show ?thesis by (simp add: path_of_def)
qed

text \<open>The node a file state describes: nothing, or a file or directory with these permission bits.\<close>

definition describes :: "file_state \<Rightarrow> node option \<Rightarrow> bool" where
  "describes f n = (fs_non_symlink f \<and> (case n of
     None \<Rightarrow> \<not> fs_exists f \<and> fs_type f = ''absent'' \<and> fs_hash f = CANONICAL_NULL \<and> fs_mode f = CANONICAL_NULL
   | Some (File bs m) \<Rightarrow> fs_exists f \<and> fs_type f = ''regular'' \<and> fs_hash f = sha256_hex bs \<and> fs_mode f = format_mode m
   | Some (Dir m) \<Rightarrow> fs_exists f \<and> fs_type f = ''directory'' \<and> fs_hash f = CANONICAL_NULL \<and> fs_mode f = format_mode m
   | _ \<Rightarrow> False))"

text \<open>No ancestor of the path is a link or a file.\<close>

definition reachable_parents :: "fs \<Rightarrow> path \<Rightarrow> bool" where
  "reachable_parents s p = list_all (\<lambda>q. \<not> is_symlink s q \<and> (path_exists s q \<longrightarrow> is_dir s q)) (ancestors p)"

lemma cas_target_Inr_iff:
  "cas_target s p = Inr t \<longleftrightarrow> canonical_path p \<and> t = path_of p \<and> reachable_parents s t"
  by (auto simp: cas_target_def res_simps normalize_path_Inr_iff reachable_parents_def Let_def list_ex_iff list_all_iff)

lemma observe_Inr_iff:
  "observe_file_state s p b = Inr f \<longleftrightarrow>
     canonical_path p \<and> reachable_parents s (path_of p) \<and> fs_path f = p \<and> fs_block f = b \<and>
     describes f (node_at s (path_of p))"
proof -
  have mode: "normalize_mode (PInt (int m)) = Inr (format_mode m)" for m
    by (simp add: normalize_mode_def)
  show ?thesis
    by (auto simp: observe_file_state_def res_simps cas_target_Inr_iff normalize_path_Inr_iff describes_def mode
        split: option.splits node.splits)
qed

lemma assert_state_Inr_iff:
  "assert_state e s = Inr u \<longleftrightarrow>
     canonical_path (fs_path e) \<and> reachable_parents s (path_of (fs_path e)) \<and> describes e (node_at s (path_of (fs_path e)))"
  by (auto simp: assert_state_def res_simps require_def observe_Inr_iff)

lemma format_mode_mod: "format_mode (n mod 512) = format_mode n"
  by (simp add: format_mode_def)

lemma mode_bits_format: "mode_bits (format_mode n) = Inr (n mod 512)"
proof -
  obtain a b c d where abcd: "format_mode n = [a, b, c, d]"
    using format_mode_props(1) [of n] by (auto simp: numeral_eq_Suc length_Suc_conv)
  with format_mode_props(2) [of n] have "b \<noteq> CHR ''o''"
    by (auto simp: is_octal_def)
  then have strip: "remove_prefix ''0o'' (format_mode n) = format_mode n"
    by (simp add: remove_prefix_def starts_with_def abcd)
  then show ?thesis
    using format_mode_props [of n] by (simp add: mode_bits_def octal_mode_def)
qed

lemma ancestors_shorter: "q \<in> set (ancestors p) \<Longrightarrow> length q < length p \<and> q \<noteq> [] \<and> q = take (length q) p"
  by (auto simp: ancestors_def)

text \<open>A change at a path, or at a path that is no ancestor, does not touch the ancestors.\<close>

lemma reachable_parents_cong:
  "(\<And>q. q \<in> set (ancestors p) \<Longrightarrow> node_at s q = node_at s' q) \<Longrightarrow> reachable_parents s p = reachable_parents s' p"
  by (simp add: reachable_parents_def list_all_iff is_symlink_def path_exists_def is_dir_def)

section \<open>The swap\<close>

lemma describes_unique_existence: "describes f n \<Longrightarrow> fs_exists f \<longleftrightarrow> n \<noteq> None"
  by (auto simp: describes_def split: option.splits node.splits)

lemma node_at_same_length:
  "q \<noteq> [] \<Longrightarrow> length p < length q \<Longrightarrow> node_at (fmupd q x s) p = node_at s p"
  by (auto simp: node_at_def)

lemma assert_state_fmupd_other:
  assumes "q \<noteq> path_of (fs_path e)" and "length q = length (path_of (fs_path e))" and "q \<noteq> []"
  shows "assert_state e (fmupd q x s) = Inr u \<longleftrightarrow> assert_state e s = Inr u"
proof -
  let ?t = "path_of (fs_path e)"
  have "node_at (fmupd q x s) ?t = node_at s ?t"
    using assms by (simp add: node_at_def)
  moreover have "reachable_parents (fmupd q x s) ?t = reachable_parents s ?t"
    using ancestors_shorter [of _ ?t] assms by (intro reachable_parents_cong node_at_same_length) auto
  ultimately show ?thesis by (simp add: assert_state_Inr_iff)
qed

lemma assert_state_fails: "\<not> describes e (node_at s (path_of (fs_path e))) \<Longrightarrow> \<exists>x. assert_state e s = Inl x"
proof (cases "assert_state e s")
  case (Inr u)
  then show "\<not> describes e (node_at s (path_of (fs_path e))) \<Longrightarrow> ?thesis"
    unfolding assert_state_Inr_iff by blast
qed blast

text \<open>The states of a swap that writes the temporary file \<open>q\<close> beside the target \<open>t\<close>.\<close>

definition swap_states :: "fs \<Rightarrow> path \<Rightarrow> path \<Rightarrow> byte list \<Rightarrow> nat \<Rightarrow> fs set" where
  "swap_states s t q bs m =
     {fmupd q (File [] 384) s, fmupd q (File bs 384) s, fmupd q (File bs m) s, fmupd t (File bs m) s, s}"

lemma discard_temporary:
  assumes "q \<noteq> []" and "fmlookup s q = None" and "u = fmupd q (File bs m) s"
  shows "final (discard q) u = s" "outcome (discard q) u = Inr ()" "set (states (discard q) u) = {u, s}"
  using assms
  by (auto simp: discard_def io_simps path_exists_def node_at_def unlink_fs_def fmdrop_fmupd_fresh)

lemma cas_write_run:
  assumes "q \<noteq> []" and "fmlookup s q = None" and "length q = length (path_of (fs_path e))"
    and "is_dir s (parent (path_of (fs_path e)))" and "assert_state e s = Inr ()"
    and "t = path_of (fs_path e)" and "m = (case mode_bits (fs_mode c) of Inr m \<Rightarrow> m | Inl _ \<Rightarrow> 0)"
  shows "set (states (ifinally (cas_write e c bs t q) (discard q)) (fmupd q (File [] 384) s)) \<subseteq> swap_states s t q bs m \<and>
    (case outcome (ifinally (cas_write e c bs t q) (discard q)) (fmupd q (File [] 384) s) of
       Inl _ \<Rightarrow> final (ifinally (cas_write e c bs t q) (discard q)) (fmupd q (File [] 384) s) = s
     | Inr _ \<Rightarrow> mode_bits (fs_mode c) = Inr m \<and> q \<noteq> t \<and>
         final (ifinally (cas_write e c bs t q) (discard q)) (fmupd q (File [] 384) s) = fmupd t (File bs m) s) \<and>
    (mode_bits (fs_mode c) = Inr m \<longrightarrow> q \<noteq> t \<longrightarrow> \<not> is_dir s t \<longrightarrow>
       outcome (ifinally (cas_write e c bs t q) (discard q)) (fmupd q (File [] 384) s) = Inr ())"
  (is "?S \<and> ?F \<and> ?O")
proof -
  have t: "t \<noteq> []" using assms by auto
  have w: "write_fs q bs (fmupd q (File [] 384) s) = Inr (fmupd q (File bs 384) s)"
    using assms(1) by (simp add: write_fs_def node_at_def)
  have ch: "chmod_fs q k (fmupd q (File bs 384) s) = Inr (fmupd q (File bs k) s)" for k
    using assms(1) by (simp add: chmod_fs_def node_at_def)
  let ?u = "fmupd q (File [] 384) s"
  show ?thesis
  proof (cases "mode_bits (fs_mode c)")
    case (Inl x)
    have "outcome (cas_write e c bs t q) ?u = Inl x" "final (cas_write e c bs t q) ?u = fmupd q (File bs 384) s"
        "set (states (cas_write e c bs t q) ?u) = {?u, fmupd q (File bs 384) s}"
      by (simp_all add: cas_write_def io_simps w Inl insert_commute)
    then show ?thesis
      using discard_temporary [OF assms(1,2) refl, of bs 384] Inl
      by (simp add: ifinally_run swap_states_def)
  next
    case (Inr k)
    then have k: "mode_bits (fs_mode c) = Inr m" using assms(7) by simp
    note d = discard_temporary [OF assms(1,2) refl, of bs m]
    let ?v = "fmupd q (File bs m) s"
    have failed: ?thesis
      if "outcome (cas_write e c bs t q) ?u = Inl x" "final (cas_write e c bs t q) ?u = ?v" "q = t \<or> is_dir s t"
        "set (states (cas_write e c bs t q) ?u) = {?u, fmupd q (File bs 384) s, ?v}" for x
      using d that by (simp add: ifinally_run swap_states_def) blast
    show ?thesis
    proof (cases "q = t")
      case True
      have "describes e None"
        using assms(5) True assms(2,6) t by (simp add: assert_state_Inr_iff node_at_def)
      then have "\<not> describes e (node_at ?v (path_of (fs_path e)))"
        using True assms(6) t by (simp add: node_at_def describes_def)
      then obtain x where x: "assert_state e ?v = Inl x"
        using assert_state_fails by blast
      show ?thesis
        by (rule failed [OF _ _ disjI1 [OF True]]) (simp_all add: cas_write_def io_simps w ch k x insert_commute)
    next
      case False
      have a: "assert_state e ?v = Inr ()"
        using assert_state_fmupd_other [of q e "File bs m" s] False assms by simp
      have dirs: "is_dir ?v t = is_dir s t" "is_dir ?v (parent t) = is_dir s (parent t)"
        using False assms t by (auto simp: is_dir_def node_at_def)
      show ?thesis
      proof (cases "is_dir s t")
        case True
        then have r: "replace_fs q t ?v = Inl (OSError ''IsADirectoryError'')"
          using dirs assms(1) by (simp add: replace_fs_def node_at_def)
        show ?thesis
          by (rule failed [OF _ _ disjI2 [OF True]]) (simp_all add: cas_write_def io_simps w ch k a r insert_commute)
      next
        case nodir: False
        let ?f = "fmupd t (File bs m) s"
        have r: "replace_fs q t ?v = Inr ?f"
          using dirs assms nodir by (simp add: replace_fs_def node_at_def fmdrop_fmupd_fresh)
        have "outcome (cas_write e c bs t q) ?u = Inr ()" "final (cas_write e c bs t q) ?u = ?f"
            "set (states (cas_write e c bs t q) ?u) = {?u, fmupd q (File bs 384) s, ?v, ?f}"
          by (simp_all add: cas_write_def io_simps w ch k a r insert_commute)
        moreover have "\<not> path_exists ?f q" "\<not> is_symlink ?f q"
          using False assms(1,2) by (simp_all add: path_exists_def is_symlink_def node_at_def)
        ultimately show ?thesis
          using nodir False k by (simp add: ifinally_run discard_def io_simps swap_states_def)
      qed
    qed
  qed
qed

abbreviation target_of :: "file_state \<Rightarrow> path" where
  "target_of f \<equiv> path_of (fs_path f)"

definition temp_path :: "random_name \<Rightarrow> path \<Rightarrow> fs \<Rightarrow> path" where
  "temp_path rnd t s = parent t @ [cas_prefix @ rnd (parent t) cas_prefix s]"

text \<open>The new content of the target: the bytes with the mode of the candidate, or nothing.\<close>

definition swapped :: "file_state \<Rightarrow> byte list option \<Rightarrow> fs \<Rightarrow> fs" where
  "swapped c content s = (case content of
     None \<Rightarrow> fmdrop (target_of c) s
   | Some bs \<Rightarrow> fmupd (target_of c) (File bs (case mode_bits (fs_mode c) of Inr m \<Rightarrow> m | Inl _ \<Rightarrow> 0)) s)"

text \<open>What a candidate has to be for a swap to it to be carried out.\<close>

definition good_candidate :: "file_state \<Rightarrow> byte list option \<Rightarrow> bool" where
  "good_candidate c content = (case content of
     None \<Rightarrow> \<not> fs_exists c \<and> fs_type c = ''absent'' \<and> fs_hash c = CANONICAL_NULL \<and> fs_mode c = CANONICAL_NULL
       \<and> fs_non_symlink c \<and> fs_block c = CANONICAL_NULL
   | Some bs \<Rightarrow> fs_exists c \<and> fs_type c = ''regular'' \<and> fs_hash c = sha256_hex bs \<and> fs_non_symlink c
       \<and> (\<exists>m. fs_mode c = format_mode m))"

lemma format_mode_not_null: "format_mode m \<noteq> CANONICAL_NULL"
  using format_mode_props(1) [of m] by (auto simp: CANONICAL_NULL_def)

lemma good_candidate_mode: "good_candidate c (Some bs) \<Longrightarrow>
    \<exists>m < 512. mode_bits (fs_mode c) = Inr m \<and> fs_mode c = format_mode m"
  by (auto simp: good_candidate_def) (metis format_mode_mod mod_less_divisor mode_bits_format zero_less_numeral)

lemma parent_target_shorter: "t \<noteq> [] \<Longrightarrow> length (temp_path rnd t s) = length t \<and> temp_path rnd t s \<noteq> []"
  by (simp add: temp_path_def)

text \<open>The deletion of a file.\<close>

lemma cas_delete_run:
  assumes "assert_state e s = Inr ()" and "fs_path e = fs_path c" and "t = target_of e"
  shows "set (states (cas_delete e c content t) s) \<subseteq> {s, fmdrop t s} \<and>
    (\<forall>r. outcome (cas_delete e c content t) s = Inr r \<longrightarrow>
       content = None \<and> r = c \<and> final (cas_delete e c content t) s = fmdrop t s \<and> good_candidate c None) \<and>
    (good_candidate c None \<longrightarrow> content = None \<longrightarrow> fs_type e \<noteq> ''directory'' \<longrightarrow>
       outcome (cas_delete e c content t) s = Inr c) \<and>
    (\<forall>x. outcome (cas_delete e c content t) s = Inl x \<longrightarrow> 
       final (cas_delete e c content t) s = s \<or> (content = None \<and> \<not> good_candidate c None))"
proof -
  have p: "canonical_path (fs_path e)" and d: "describes e (node_at s t)" and r: "reachable_parents s t"
    using assms by (simp_all add: assert_state_Inr_iff)
  have t: "t \<noteq> []" using path_of_canonical [OF p] assms(3) by simp
  have obs: "observe_file_state u (fs_path e) CANONICAL_NULL = Inr
        \<lparr>fs_path = fs_path e, fs_exists = False, fs_type = ''absent'', fs_hash = CANONICAL_NULL,
         fs_mode = CANONICAL_NULL, fs_non_symlink = True, fs_block = CANONICAL_NULL\<rparr>" (is "_ = Inr ?absent")
    if "u = fmdrop t s" for u
  proof -
    have "reachable_parents u t = reachable_parents s t"
      using that t ancestors_shorter [of _ t] by (intro reachable_parents_cong) (auto simp: node_at_fmdrop)
    moreover have "node_at u t = None" using that t by (simp add: node_at_def)
    ultimately show ?thesis using p r assms(3) by (simp add: observe_Inr_iff describes_def)
  qed
  let ?absent = "\<lparr>fs_path = fs_path e, fs_exists = False, fs_type = ''absent'', fs_hash = CANONICAL_NULL,
         fs_mode = CANONICAL_NULL, fs_non_symlink = True, fs_block = CANONICAL_NULL\<rparr>"
  have c: "good_candidate c None \<longleftrightarrow> ?absent = c"
    using assms(2) by (cases c) (auto simp: good_candidate_def)
  show ?thesis
  proof (cases "fs_exists e")
    case False
    then have "node_at s t = None" using d by (auto simp: describes_def split: option.splits node.splits)
    then have s: "fmdrop t s = s" using t by (simp add: node_at_def fmdrop_absent)
    show ?thesis
      using False obs [of s] s by (auto simp: cas_delete_def io_simps c)
  next
    case True
    show ?thesis
    proof (cases "fs_type e = ''regular''")
      case False
      then have "fs_type e = ''directory''"
        using d True by (auto simp: describes_def split: option.splits node.splits)
      then show ?thesis using True by (auto simp: cas_delete_def io_simps)
    next
      case reg: True
      then obtain bs m where "node_at s t = Some (File bs m)"
        using d True by (auto simp: describes_def split: option.splits node.splits)
      then have u: "unlink_fs t s = Inr (fmdrop t s)" by (simp add: unlink_fs_def)
      show ?thesis
        using True reg u obs [of "fmdrop t s"] assms(1) by (auto simp: cas_delete_def io_simps c)
    qed
  qed
qed


text \<open>The replacement of a file.\<close>

lemma mkstemp_run:
  assumes "t \<noteq> []" and "is_dir s (parent t)"
  shows "fmlookup s (temp_path rnd t s) = None \<Longrightarrow>
      outcome (mkstemp rnd (parent t) cas_prefix) s = Inr (temp_path rnd t s) \<and>
      final (mkstemp rnd (parent t) cas_prefix) s = fmupd (temp_path rnd t s) (File [] 384) s \<and>
      set (states (mkstemp rnd (parent t) cas_prefix) s) = {s, fmupd (temp_path rnd t s) (File [] 384) s}"
    "fmlookup s (temp_path rnd t s) \<noteq> None \<Longrightarrow>
      outcome (mkstemp rnd (parent t) cas_prefix) s = Inl (OSError ''FileExistsError'') \<and>
      final (mkstemp rnd (parent t) cas_prefix) s = s \<and> set (states (mkstemp rnd (parent t) cas_prefix) s) = {s}"
  using assms
  by (auto simp: mkstemp_def io_simps create_excl_fs_def temp_path_def [symmetric] Let_def node_at_def)
     (auto simp: temp_path_def)

lemma swapped_describes:
  assumes "assert_state e s = Inr ()" and "fs_path e = fs_path c" and "t = target_of e"
    and "sha256_hex bs = fs_hash c" "fs_type c = ''regular''" "fs_non_symlink c" "fs_exists c"
    and "observe_file_state (fmupd t (File bs m) s) (fs_path e) (fs_block c) = Inr r"
  shows "r = c \<longleftrightarrow> fs_mode c = format_mode m"
proof -
  have p: "canonical_path (fs_path e)" using assms(1) by (simp add: assert_state_Inr_iff)
  have t: "t \<noteq> []" using path_of_canonical [OF p] assms(3) by simp
  then have "describes r (Some (File bs m))" "fs_path r = fs_path c" "fs_block r = fs_block c"
    using assms by (simp_all add: observe_Inr_iff node_at_def)
  then show ?thesis
    using assms by (cases r; cases c) (auto simp: describes_def)
qed

lemma observe_swapped:
  assumes "assert_state e s = Inr ()" and "t = target_of e"
  shows "\<exists>r. observe_file_state (fmupd t (File bs m) s) (fs_path e) b = Inr r"
proof -
  have p: "canonical_path (fs_path e)" and r: "reachable_parents s t"
    using assms by (simp_all add: assert_state_Inr_iff)
  have t: "t \<noteq> []" using path_of_canonical [OF p] assms(2) by simp
  have "reachable_parents (fmupd t (File bs m) s) t = reachable_parents s t"
    using t ancestors_shorter [of _ t] by (intro reachable_parents_cong node_at_same_length) auto
  moreover have "describes \<lparr>fs_path = fs_path e, fs_exists = True, fs_type = ''regular'', fs_hash = sha256_hex bs,
      fs_mode = format_mode m, fs_non_symlink = True, fs_block = b\<rparr> (node_at (fmupd t (File bs m) s) t)"
    using t by (simp add: describes_def node_at_def)
  ultimately show ?thesis
    using p r assms(2) by (simp add: observe_Inr_iff) (metis file_state.select_convs(1,7))
qed

lemma cas_replace_run:
  assumes "assert_state e s = Inr ()" and "fs_path e = fs_path c" and "t = target_of e" and "fs_exists c"
    and "m = (case mode_bits (fs_mode c) of Inr m \<Rightarrow> m | Inl _ \<Rightarrow> 0)"
  shows "set (states (cas_replace rnd e c (Some bs) t) s) \<subseteq>
      insert s (if fmlookup s (temp_path rnd t s) = None then swap_states s t (temp_path rnd t s) bs m else {}) \<and>
    (\<forall>r. outcome (cas_replace rnd e c (Some bs) t) s = Inr r \<longrightarrow> r = c \<and>
       final (cas_replace rnd e c (Some bs) t) s = fmupd t (File bs m) s \<and>
       good_candidate c (Some bs) \<and> temp_path rnd t s \<noteq> t \<and> is_dir s (parent t)) \<and>
    (good_candidate c (Some bs) \<longrightarrow> fs_type e \<noteq> ''directory'' \<longrightarrow> is_dir s (parent t) \<longrightarrow>
       fmlookup s (temp_path rnd t s) = None \<longrightarrow> temp_path rnd t s \<noteq> t \<longrightarrow>
       outcome (cas_replace rnd e c (Some bs) t) s = Inr c) \<and>
    (\<forall>x. outcome (cas_replace rnd e c (Some bs) t) s = Inl x \<longrightarrow>
       final (cas_replace rnd e c (Some bs) t) s = s \<or> \<not> good_candidate c (Some bs))"
proof (cases "fs_type c = ''regular'' \<and> fs_non_symlink c \<and> fs_mode c \<noteq> CANONICAL_NULL \<and> sha256_hex bs = fs_hash c
    \<and> is_dir s (parent t)")
  case False
  have "outcome (cas_replace rnd e c (Some bs) t) s = Inl cas_mismatch \<and>
     final (cas_replace rnd e c (Some bs) t) s = s \<and> set (states (cas_replace rnd e c (Some bs) t) s) = {s}"
    using False by (auto simp: cas_replace_def io_simps require_def)
  moreover have "\<not> (good_candidate c (Some bs) \<and> is_dir s (parent t))"
    using False format_mode_not_null [symmetric] by (auto simp: good_candidate_def)
  ultimately show ?thesis by auto
next
  case True
  let ?q = "temp_path rnd t s"
  have p: "canonical_path (fs_path e)" using assms(1) by (simp add: assert_state_Inr_iff)
  have t: "t \<noteq> []" using path_of_canonical [OF p] assms(3) by simp
  have nolink: "\<not> is_symlink s (parent t)"
    using True by (auto simp: is_dir_def is_symlink_def split: option.splits node.splits)
  define K where "K = (\<lambda>q. ibnd (ifinally (cas_write e c bs t q) (discard q)) (\<lambda>_.
            ibnd (iread (\<lambda>s. observe_file_state s (fs_path e) (fs_block c))) (\<lambda>result.
            if file_state_document result \<noteq> file_state_document c then iraise cas_mismatch
            else iret result)))"
  have run: "outcome (cas_replace rnd e c (Some bs) t) s = outcome (ibnd (mkstemp rnd (parent t) cas_prefix) K) s"
      "final (cas_replace rnd e c (Some bs) t) s = final (ibnd (mkstemp rnd (parent t) cas_prefix) K) s"
      "set (states (cas_replace rnd e c (Some bs) t) s) = insert s (set (states (ibnd (mkstemp rnd (parent t) cas_prefix) K) s))"
    using True nolink by (simp_all add: cas_replace_def K_def io_simps require_def)
  show ?thesis
  proof (cases "fmlookup s ?q")
    case (Some x)
    then show ?thesis
      using mkstemp_run(2) [OF t, of s rnd] True by (simp add: run io_simps)
  next
    case None
    note mk = mkstemp_run(1) [OF t _ None] True
    have dir: "\<not> is_dir s t" if "fs_type e \<noteq> ''directory''"
      using that assms(1,3) by (auto simp: assert_state_Inr_iff describes_def is_dir_def split: option.splits node.splits)
    obtain r where r: "observe_file_state (fmupd t (File bs m) s) (fs_path e) (fs_block c) = Inr r"
      using observe_swapped [OF assms(1,3)] by blast
    have rc: "r = c \<longleftrightarrow> fs_mode c = format_mode m"
      using swapped_describes [OF assms(1-3) _ _ _ assms(4) r] True by simp
    have good: "good_candidate c (Some bs) \<Longrightarrow> mode_bits (fs_mode c) = Inr m \<and> fs_mode c = format_mode m"
      using good_candidate_mode [of c bs] assms(5) by auto
    have good2: "fs_mode c = format_mode m \<Longrightarrow> good_candidate c (Some bs)"
      using True assms(4) by (auto simp: good_candidate_def)
    let ?m = "ifinally (cas_write e c bs t ?q) (discard ?q)" and ?u = "fmupd ?q (File [] 384) s"
    have w1: "set (states ?m ?u) \<subseteq> swap_states s t ?q bs m"
      and w2: "\<And>x. outcome ?m ?u = Inl x \<Longrightarrow> final ?m ?u = s"
      and w3: "outcome ?m ?u = Inr () \<Longrightarrow> mode_bits (fs_mode c) = Inr m \<and> ?q \<noteq> t \<and> final ?m ?u = fmupd t (File bs m) s"
      and w4: "mode_bits (fs_mode c) = Inr m \<Longrightarrow> ?q \<noteq> t \<Longrightarrow> \<not> is_dir s t \<Longrightarrow> outcome ?m ?u = Inr ()"
      using cas_write_run [OF _ None _ _ assms(1,3,5), of bs] parent_target_shorter [OF t, of rnd s] True assms(3)
      by (auto split: sum.splits)
    have u: "?u \<in> swap_states s t ?q bs m" "fmupd t (File bs m) s \<in> swap_states s t ?q bs m" by (simp_all add: swap_states_def)
    show ?thesis
    proof (cases "outcome ?m ?u")
      case (Inl x)
      with w1 w2 w4 dir good u show ?thesis
        using mk None by (auto simp: run io_simps K_def)
    next
      case (Inr y)
      with w1 w3 good good2 r rc u show ?thesis
        using mk None by (auto simp: run io_simps K_def)
    qed
  qed
qed


section \<open>Compare and swap\<close>

definition cas_mode :: "file_state \<Rightarrow> nat" where
  "cas_mode c = (case mode_bits (fs_mode c) of Inr m \<Rightarrow> m | Inl _ \<Rightarrow> 0)"

lemma swapped_simps:
  "swapped c None s = fmdrop (target_of c) s"
  "swapped c (Some bs) s = fmupd (target_of c) (File bs (cas_mode c)) s"
  by (simp_all add: swapped_def cas_mode_def)

definition cas_states :: "random_name \<Rightarrow> file_state \<Rightarrow> byte list option \<Rightarrow> fs \<Rightarrow> fs set" where
  "cas_states rnd c content s = insert s (case content of
     None \<Rightarrow> {fmdrop (target_of c) s}
   | Some bs \<Rightarrow> if fmlookup s (temp_path rnd (target_of c) s) = None
       then swap_states s (target_of c) (temp_path rnd (target_of c) s) bs (cas_mode c) else {})"

text \<open>Everything about one swap: its states, its success, its effect and its errors.\<close>

lemma compare_and_swap_run:
  shows cas_run_states: "set (states (compare_and_swap rnd e c content) s) \<subseteq> cas_states rnd c content s"
    and cas_run_ok: "outcome (compare_and_swap rnd e c content) s = Inr r \<Longrightarrow>
       r = c \<and> final (compare_and_swap rnd e c content) s = swapped c content s \<and> good_candidate c content \<and>
       fs_path e = fs_path c \<and> assert_state e s = Inr ()"
    and cas_run_error: "outcome (compare_and_swap rnd e c content) s = Inl x \<Longrightarrow>
       final (compare_and_swap rnd e c content) s = s \<or> \<not> good_candidate c content"
    and cas_run_succeeds: "fs_path e = fs_path c \<Longrightarrow> assert_state e s = Inr () \<Longrightarrow> good_candidate c content \<Longrightarrow>
       fs_type e \<noteq> ''directory'' \<Longrightarrow>
       (content \<noteq> None \<Longrightarrow> is_dir s (parent (target_of c)) \<and>
          fmlookup s (temp_path rnd (target_of c) s) = None \<and> temp_path rnd (target_of c) s \<noteq> target_of c) \<Longrightarrow>
       outcome (compare_and_swap rnd e c content) s = Inr c"
proof -
  let ?m = "compare_and_swap rnd e c content"
  have A: "set (states ?m s) \<subseteq> cas_states rnd c content s \<and>
     (\<forall>r. outcome ?m s = Inr r \<longrightarrow> r = c \<and> final ?m s = swapped c content s \<and> good_candidate c content \<and>
        fs_path e = fs_path c \<and> assert_state e s = Inr ()) \<and>
     (\<forall>x. outcome ?m s = Inl x \<longrightarrow> final ?m s = s \<or> \<not> good_candidate c content) \<and>
     (fs_path e = fs_path c \<longrightarrow> assert_state e s = Inr () \<longrightarrow> good_candidate c content \<longrightarrow>
       fs_type e \<noteq> ''directory'' \<longrightarrow>
       (content \<noteq> None \<longrightarrow> is_dir s (parent (target_of c)) \<and>
          fmlookup s (temp_path rnd (target_of c) s) = None \<and> temp_path rnd (target_of c) s \<noteq> target_of c) \<longrightarrow>
       outcome ?m s = Inr c)"
  proof (cases "fs_path e = fs_path c \<and> assert_state e s = Inr ()")
    case False
    then have "(\<exists>x. outcome ?m s = Inl x) \<and> final ?m s = s \<and> set (states ?m s) = {s}"
      by (cases "cas_target s (fs_path e)"; cases "assert_state e s") (auto simp: compare_and_swap_def io_simps)
    with False show ?thesis by (auto simp: cas_states_def)
  next
    case True
    then have ct: "cas_target s (fs_path e) = Inr (target_of e)"
      by (auto simp: cas_target_Inr_iff assert_state_Inr_iff)
    define B where "B k = (if \<not> fs_exists c then cas_delete e c k (target_of e) else cas_replace rnd e c k (target_of e))" for k
    have run: "outcome (compare_and_swap rnd e c k) s = outcome (B k) s"
        "final (compare_and_swap rnd e c k) s = final (B k) s"
        "set (states (compare_and_swap rnd e c k) s) = insert s (set (states (B k) s))" for k
      using True ct by (auto simp: compare_and_swap_def io_simps B_def)
    show ?thesis
    proof (cases "fs_exists c")
      case False
      then have good: "good_candidate c content \<Longrightarrow> content = None"
        by (cases content) (auto simp: good_candidate_def)
      have "outcome (cas_delete e c (Some bs) (target_of e)) s = Inl cas_mismatch \<and>
          final (cas_delete e c (Some bs) (target_of e)) s = s \<and> states (cas_delete e c (Some bs) (target_of e)) s = [s]" for bs
        by (simp add: cas_delete_def)
      then show ?thesis
        using cas_delete_run [of e s c "target_of e" content] True False good
        by (cases content) (auto simp: run B_def cas_states_def swapped_simps)
    next
      case ex: True
      then have good: "good_candidate c content \<Longrightarrow> content \<noteq> None"
        by (auto simp: good_candidate_def split: option.splits)
      have none: "outcome (cas_replace rnd e c None (target_of e)) s = Inl cas_mismatch \<and>
          final (cas_replace rnd e c None (target_of e)) s = s \<and> states (cas_replace rnd e c None (target_of e)) s = [s]"
        by (simp add: cas_replace_def)
      show ?thesis
      proof (cases content)
        case None
        with none good ex show ?thesis by (auto simp: run B_def cas_states_def)
      next
        case (Some bs)
        have t: "target_of e = target_of c" using True by simp
        have r: "outcome (compare_and_swap rnd e c content) s = outcome (cas_replace rnd e c (Some bs) (target_of c)) s"
            "final (compare_and_swap rnd e c content) s = final (cas_replace rnd e c (Some bs) (target_of c)) s"
            "set (states (compare_and_swap rnd e c content) s) = insert s (set (states (cas_replace rnd e c (Some bs) (target_of c)) s))"
          using ex Some by (simp_all add: run B_def t)
        note rr = cas_replace_run [OF conjunct2 [OF True] conjunct1 [OF True] t [symmetric] ex cas_mode_def, of rnd bs]
        note r1 = conjunct1 [OF rr] and r2 = conjunct1 [OF conjunct2 [OF rr]]
          and r3 = conjunct1 [OF conjunct2 [OF conjunct2 [OF rr]]] and r4 = conjunct2 [OF conjunct2 [OF conjunct2 [OF rr]]]
        show ?thesis
          unfolding r unfolding Some
        proof (intro conjI)
          show "insert s (set (states (cas_replace rnd e c (Some bs) (target_of c)) s)) \<subseteq> cas_states rnd c (Some bs) s"
            using r1 by (simp add: cas_states_def)
        next
          show "\<forall>r. outcome (cas_replace rnd e c (Some bs) (target_of c)) s = Inr r \<longrightarrow>
              r = c \<and> final (cas_replace rnd e c (Some bs) (target_of c)) s = swapped c (Some bs) s \<and>
              good_candidate c (Some bs) \<and> fs_path e = fs_path c \<and> assert_state e s = Inr ()"
            using r2 True by (simp add: swapped_simps)
        next
          show "\<forall>x. outcome (cas_replace rnd e c (Some bs) (target_of c)) s = Inl x \<longrightarrow>
              final (cas_replace rnd e c (Some bs) (target_of c)) s = s \<or> \<not> good_candidate c (Some bs)"
            by (rule r4)
        qed (use r3 in simp)
      qed
    qed
  qed
  show "set (states ?m s) \<subseteq> cas_states rnd c content s"
    and "outcome ?m s = Inr r \<Longrightarrow> r = c \<and> final ?m s = swapped c content s \<and> good_candidate c content \<and>
       fs_path e = fs_path c \<and> assert_state e s = Inr ()"
    and "outcome ?m s = Inl x \<Longrightarrow> final ?m s = s \<or> \<not> good_candidate c content"
    and "fs_path e = fs_path c \<Longrightarrow> assert_state e s = Inr () \<Longrightarrow> good_candidate c content \<Longrightarrow>
       fs_type e \<noteq> ''directory'' \<Longrightarrow>
       (content \<noteq> None \<Longrightarrow> is_dir s (parent (target_of c)) \<and>
          fmlookup s (temp_path rnd (target_of c) s) = None \<and> temp_path rnd (target_of c) s \<noteq> target_of c) \<Longrightarrow>
       outcome ?m s = Inr c"
    using A by blast+
qed


text \<open>The names the swap gives its temporary files.\<close>

definition temp_name :: "path \<Rightarrow> bool" where
  "temp_name p = (p \<noteq> [] \<and> starts_with cas_prefix (last p))"

lemma temp_path_name [simp]: "temp_name (temp_path rnd t s)" "parent (temp_path rnd t s) = parent t"
  by (simp_all add: temp_name_def temp_path_def starts_with_def)

text \<open>Two states with the same nodes outside of one path.\<close>

definition same_except :: "path set \<Rightarrow> fs \<Rightarrow> fs \<Rightarrow> bool" where
  "same_except P s s' = (\<forall>p. p \<notin> P \<longrightarrow> node_at s' p = node_at s p)"

lemma swapped_same_except: "same_except {target_of c} s (swapped c content s)"
  by (cases content) (auto simp: same_except_def swapped_simps node_at_def)

lemma swapped_node:
  assumes "good_candidate c content" and "target_of c \<noteq> []"
  shows "describes c (node_at (swapped c content s) (target_of c))"
  using assms good_candidate_mode [of c]
  by (cases content) (auto simp: swapped_simps node_at_def describes_def good_candidate_def cas_mode_def mode_bits_format
      format_mode_mod)

lemma cas_states_cases:
  assumes "u \<in> cas_states rnd c content s" and "target_of c \<noteq> []"
  shows "u = swapped c content s \<or> u = s \<or> (\<exists>q bs m. temp_name q \<and> parent q = parent (target_of c) \<and> q \<noteq> []
     \<and> fmlookup s q = None \<and> u = fmupd q (File bs m) s)"
  using assms parent_target_shorter [OF assms(2), of rnd s]
  by (cases content) (auto simp: cas_states_def swapped_simps swap_states_def split: if_splits intro: temp_path_name)

text \<open>
  A swap that succeeds found the file in its complete expected state, leaves it in the complete
  candidate state and changes no other path.
\<close>

theorem cas_success_exact:
  assumes "outcome (compare_and_swap rnd expected candidate content) s = Inr result"
  shows "fs_path candidate = fs_path expected \<and> result = candidate \<and> describes expected (node_at s (path_of (fs_path expected))) \<and>
    describes candidate (node_at (final (compare_and_swap rnd expected candidate content) s) (path_of (fs_path expected))) \<and>
    same_except {path_of (fs_path expected)} s (final (compare_and_swap rnd expected candidate content) s)"
proof -
  note ok = cas_run_ok [OF assms]
  then have "target_of candidate \<noteq> []"
    using path_of_canonical by (auto simp: assert_state_Inr_iff)
  with ok swapped_node [of candidate content s] swapped_same_except [of candidate s content] show ?thesis
    by (auto simp: assert_state_Inr_iff)
qed

text \<open>
  C39: A swap is atomic at every crash point: the file has its old or its new content, never a mixture,
  no other file changes, and the only thing a crash can leave behind is one temporary file in the same
  directory under a name that was free.
\<close>

theorem cas_crash_atomic:
  assumes "crashed \<in> set (states (compare_and_swap rnd expected candidate content) s)"
    and "canonical_path (fs_path candidate)" and "\<not> temp_name (path_of (fs_path candidate))"
  shows "crashed = s \<or> crashed = swapped candidate content s \<or>
    (\<exists>q. temp_name q \<and> parent q = parent (path_of (fs_path candidate)) \<and> node_at s q = None \<and>
       q \<noteq> path_of (fs_path candidate) \<and> is_file crashed q \<and> same_except {q} s crashed)"
proof -
  have t: "target_of candidate \<noteq> []" using path_of_canonical [OF assms(2)] by simp
  have "crashed \<in> cas_states rnd candidate content s"
    using assms(1) cas_run_states by blast
  from cas_states_cases [OF this t] show ?thesis
  proof (elim disjE exE conjE)
    fix q bs m
    assume q: "temp_name q" "parent q = parent (target_of candidate)" "q \<noteq> []" "fmlookup s q = None"
      and "crashed = fmupd q (File bs m) s"
    then have "node_at s q = None" "is_file crashed q" "same_except {q} s crashed"
      by (simp_all add: same_except_def node_at_def is_file_def)
    moreover have "q \<noteq> target_of candidate" using q(1) assms(3) by blast
    ultimately show ?thesis using q by blast
  qed simp_all
qed

text \<open>
  A swap to a well-formed candidate that fails leaves every path as it was.
\<close>

theorem cas_failure_changes_nothing:
  assumes "outcome (compare_and_swap rnd expected candidate content) s = Inl e"
    and "good_candidate candidate content"
  shows "final (compare_and_swap rnd expected candidate content) s = s"
  using cas_run_error [OF assms(1)] assms(2) by blast

section \<open>Witnesses\<close>

definition sample_fs :: fs where
  "sample_fs = fmupd [''a''] (File [1] 420) fmempty"

definition sample_rnd :: random_name where
  "sample_rnd dir prefix s = ''x''"

definition sample_old :: file_state where
  "sample_old = \<lparr>fs_path = ''a'', fs_exists = True, fs_type = ''regular'', fs_hash = sha256_hex [1],
     fs_mode = format_mode 420, fs_non_symlink = True, fs_block = CANONICAL_NULL\<rparr>"

definition sample_new :: file_state where
  "sample_new = sample_old\<lparr>fs_hash := sha256_hex [2], fs_mode := format_mode 384\<rparr>"

definition sample_absent :: file_state where
  "sample_absent = \<lparr>fs_path = ''a'', fs_exists = False, fs_type = ''absent'', fs_hash = CANONICAL_NULL,
     fs_mode = CANONICAL_NULL, fs_non_symlink = True, fs_block = CANONICAL_NULL\<rparr>"

lemma sample_path: "canonical_path ''a''" "path_of ''a'' = [''a'']"
  by (simp_all add: canonical_path_def windows_drive_def ord_def path_of_def)

lemma sample_node: "node_at sample_fs [''a''] = Some (File [1] 420)"
  by (simp add: node_at_def sample_fs_def)

lemma sample_asserted: "assert_state sample_old sample_fs = Inr ()"
  by (simp add: assert_state_Inr_iff sample_old_def sample_path sample_node describes_def reachable_parents_def ancestors_def)

lemma sample_good: "good_candidate sample_new (Some [2])"
  by (auto simp: good_candidate_def sample_new_def sample_old_def)

lemma sample_temp: "temp_path sample_rnd [''a''] sample_fs = [''.awp-cas-x'']" "\<not> temp_name [''a'']"
  by (simp_all add: temp_path_def sample_rnd_def cas_prefix_def temp_name_def starts_with_def)

lemma sample_swap: "outcome (compare_and_swap sample_rnd sample_old sample_new (Some [2])) sample_fs = Inr sample_new"
proof (rule cas_run_succeeds)
  show "is_dir sample_fs (parent (target_of sample_new)) \<and>
      fmlookup sample_fs (temp_path sample_rnd (target_of sample_new) sample_fs) = None \<and>
      temp_path sample_rnd (target_of sample_new) sample_fs \<noteq> target_of sample_new"
    by (simp add: sample_new_def sample_old_def sample_path sample_temp is_dir_def node_at_def) (simp add: sample_fs_def)
qed (simp_all add: sample_asserted sample_good, simp_all add: sample_new_def sample_old_def)

theorem cas_success_exact_witness:
  "describes sample_new (node_at (final (compare_and_swap sample_rnd sample_old sample_new (Some [2])) sample_fs) [''a''])"
  using cas_success_exact [OF sample_swap] by (simp add: sample_old_def sample_path)

theorem cas_crash_atomic_witness:
  "final (compare_and_swap sample_rnd sample_old sample_new (Some [2])) sample_fs \<in>
      set (states (compare_and_swap sample_rnd sample_old sample_new (Some [2])) sample_fs) \<and>
   (final (compare_and_swap sample_rnd sample_old sample_new (Some [2])) sample_fs = sample_fs \<or>
    final (compare_and_swap sample_rnd sample_old sample_new (Some [2])) sample_fs = swapped sample_new (Some [2]) sample_fs \<or>
    (\<exists>q. temp_name q \<and> is_file (final (compare_and_swap sample_rnd sample_old sample_new (Some [2])) sample_fs) q))"
proof -
  have "canonical_path (fs_path sample_new)" "\<not> temp_name (path_of (fs_path sample_new))"
    by (simp_all add: sample_new_def sample_old_def sample_path sample_temp)
  from cas_crash_atomic [OF final_in_states this, of sample_rnd sample_old "Some [2]" sample_fs] show ?thesis
    by auto
qed

theorem cas_failure_changes_nothing_witness:
  "final (compare_and_swap sample_rnd sample_absent sample_new (Some [2])) sample_fs = sample_fs"
proof -
  have "\<not> describes sample_absent (node_at sample_fs (target_of sample_absent))"
    by (simp add: sample_absent_def sample_path sample_node describes_def)
  then obtain x where "assert_state sample_absent sample_fs = Inl x"
    using assert_state_fails by blast
  then obtain y where "outcome (compare_and_swap sample_rnd sample_absent sample_new (Some [2])) sample_fs = Inl y"
    using cas_run_ok [of sample_rnd sample_absent sample_new "Some [2]" sample_fs]
    by (cases "outcome (compare_and_swap sample_rnd sample_absent sample_new (Some [2])) sample_fs") auto
  then show ?thesis
    by (rule cas_failure_changes_nothing) (rule sample_good)
qed

end
