(* ===== verification/Journal.thy ===== *)
theory Journal
  imports Cas
begin

text \<open>
  The durable records of a reconcile transaction: the lifecycle journal of
  \<^verbatim>\<open>reconcile/journal.py\<close>, whose phase only moves forward and whose evidence never changes, and
  the maintenance marker of \<^verbatim>\<open>reconcile/maintenance.py\<close>. Both are published by writing a temporary
  file beside the target and renaming it (\<open>atomic_write\<close>), so a reader sees the old or the new
  document at every crash point.
\<close>

section \<open>Publishing a file\<close>

text \<open>
  The common part of \<^verbatim>\<open>_atomic_json\<close> and \<^verbatim>\<open>write_maintenance\<close>: the payload is serialised after the
  temporary file was created, so a serialisation error removes it again.
\<close>

definition publish :: "byte list res \<Rightarrow> path \<Rightarrow> path \<Rightarrow> unit io" where
  "publish payload target temporary =
     ibnd (ilift payload) (\<lambda>bs.
     ibnd (istep (write_fs temporary bs)) (\<lambda>_.
     ibnd (chmod temporary 384) (\<lambda>_.
     replace temporary target)))"

definition atomic_write :: "random_name \<Rightarrow> string \<Rightarrow> path \<Rightarrow> byte list res \<Rightarrow> unit io" where
  "atomic_write rnd prefix target payload =
     ibnd (mkstemp rnd (parent target) prefix) (\<lambda>temporary.
     ifinally (publish payload target temporary) (discard temporary))"

section \<open>Lifecycle journals\<close>

definition PHASE_ORDER :: "(string \<times> nat) list" where
  "PHASE_ORDER =
     [(''planned'', 0), (''probing'', 1), (''prepared'', 2), (''applying'', 3), (''files_applied'', 4),
      (''manifest_committed'', 5), (''cleanup_pending'', 6), (''complete'', 7)]"

definition journal_mapping :: "pyval \<Rightarrow> dict res" where
  "journal_mapping v = as_mapping recovery_required v"

definition build_lifecycle_journal ::
  "saved_plan_envelope \<Rightarrow> dict \<Rightarrow> dict list \<Rightarrow> string list \<Rightarrow> dict res" where
  "build_lifecycle_journal envelope candidate_manifest file_records created_directories =
     bnd (bnd (lookup (se_plan_core envelope) ''task_quiescence_snapshot'') journal_mapping) (\<lambda>snapshot.
     bnd (bnd (lookup (se_plan_core envelope) ''task_findings'') journal_mapping) (\<lambda>findings.
     bnd (lookup (se_plan_core envelope) ''task_quiescence_digest'') (\<lambda>task_digest.
     Inr
      [(''schema_id'', PStr ''agent-workflow.lifecycle-transaction''), (''schema_version'', PInt 1),
       (''immutable_header'', PDict (se_immutable_header envelope)),
       (''journal_binding_digest'', PStr (se_journal_binding_digest envelope)),
       (''task_quiescence_snapshot'', PDict
          [(''snapshot'', PDict snapshot), (''findings'', PDict findings),
           (''task_quiescence_digest'', task_digest)]),
       (''plan_digest'', PStr (se_plan_digest envelope)),
       (''candidate_manifest_digest'', PStr (se_candidate_manifest_digest envelope)),
       (''candidate_manifest'', PDict candidate_manifest),
       (''phase'', PStr ''planned''),
       (''file_records'', PList (map PDict file_records)),
       (''created_directories'', PList (map PStr created_directories)),
       (''diagnostics'', PList []),
       (''rollback_state'', PDict [])])))"

definition transaction_path :: "string \<Rightarrow> path" where
  "transaction_path transaction_id = path_of (''.agent-workflow/transactions/'' @ transaction_id @ ''.json'')"

definition atomic_json :: "random_name \<Rightarrow> path \<Rightarrow> dict \<Rightarrow> unit io" where
  "atomic_json rnd target document =
     ibnd (mkdir_parents (parent target)) (\<lambda>_.
     atomic_write rnd (''.'' @ last target @ ''.'') target (canonical_json_bytes (PDict document)))"

text \<open>\<^verbatim>\<open>json.loads(path.read_text(encoding="utf-8"))\<close> of a file, any error as \<open>e\<close>.\<close>

definition read_json :: "exn \<Rightarrow> path \<Rightarrow> fs \<Rightarrow> pyval res" where
  "read_json e p s = (case node_at s p of
     Some (File bs _) \<Rightarrow> except_any e (json_loads_bytes bs)
   | _ \<Rightarrow> Inl e)"

definition load_journal :: "path \<Rightarrow> fs \<Rightarrow> dict res" where
  "load_journal p s =
     (if is_symlink s p \<or> \<not> is_file s p then Inl recovery_required
      else bnd (read_json recovery_required p s) (\<lambda>v.
        bnd (as_mapping recovery_required v) (\<lambda>document.
        bnd (journal_from_document document) (\<lambda>_. Inr document))))"

definition immutable_fields :: "string list" where
  "immutable_fields = [''immutable_header'', ''journal_binding_digest'', ''task_quiescence_snapshot'', ''plan_digest'',
     ''candidate_manifest_digest'', ''candidate_manifest'', ''created_directories'']"

definition phase_rank :: "pyval \<Rightarrow> nat res" where
  "phase_rank v = (case map_of PHASE_ORDER (py_str v) of None \<Rightarrow> Inl (KeyError (py_str v)) | Some n \<Rightarrow> Inr n)"

text \<open>The comparison with the journal on disk.\<close>

definition check_existing :: "dict \<Rightarrow> dict \<Rightarrow> unit res" where
  "check_existing existing document =
     (if list_ex (\<lambda>f. \<not> py_eq (get existing f) (get document f)) immutable_fields then Inl recovery_required
      else bnd (phase_rank (get document ''phase'')) (\<lambda>new.
        bnd (phase_rank (get existing ''phase'')) (\<lambda>old.
        require (\<not> new < old) recovery_required)))"

definition journal_target :: "dict \<Rightarrow> path res" where
  "journal_target document =
     bnd (journal_from_document document) (\<lambda>validated.
     bnd (lookup (lj_immutable_header validated) ''transaction_id'') (\<lambda>transaction_id.
     Inr (transaction_path (py_str transaction_id))))"

definition write_journal :: "random_name \<Rightarrow> dict \<Rightarrow> path io" where
  "write_journal rnd document =
     ibnd (ilift (journal_target document)) (\<lambda>p.
     ibnd (iread (\<lambda>s. if path_exists s p \<or> is_symlink s p
        then bnd (load_journal p s) (\<lambda>existing. check_existing existing document) else Inr ())) (\<lambda>_.
     ibnd (atomic_json rnd p document) (\<lambda>_. iret p)))"

text \<open>An optional argument replaces a field when it is given.\<close>

definition replace_field :: "string \<Rightarrow> pyval option \<Rightarrow> dict \<Rightarrow> dict" where
  "replace_field k v d = (case v of None \<Rightarrow> d | Some w \<Rightarrow> AList.update k w d)"

definition advance_journal ::
  "dict \<Rightarrow> string \<Rightarrow> dict list option \<Rightarrow> dict list option \<Rightarrow> dict option \<Rightarrow> dict res" where
  "advance_journal document phase file_records diagnostics rollback_state =
     (if phase \<notin> set (map fst PHASE_ORDER) then Inl recovery_required
      else let changed = replace_field ''rollback_state'' (map_option PDict rollback_state)
          (replace_field ''diagnostics'' (map_option (\<lambda>xs. PList (map PDict xs)) diagnostics)
          (replace_field ''file_records'' (map_option (\<lambda>xs. PList (map PDict xs)) file_records)
          (AList.update ''phase'' (PStr phase) document)))
        in bnd (journal_from_document changed) (\<lambda>_. Inr changed))"

section \<open>The maintenance marker\<close>

definition build_maintenance_marker :: "saved_plan_envelope \<Rightarrow> dict res" where
  "build_maintenance_marker envelope =
     bnd (lookup (se_plan_core envelope) ''transaction_id'') (\<lambda>transaction_id.
     bnd (lookup (se_plan_core envelope) ''task_quiescence_digest'') (\<lambda>task_digest.
     bnd (lookup (se_plan_core envelope) ''candidate_manifest_generation'') (\<lambda>generation.
     Inr
      [(''schema_id'', PStr ''agent-workflow.maintenance-marker''), (''schema_version'', PInt 1),
       (''transaction_id'', transaction_id),
       (''journal_binding_digest'', PStr (se_journal_binding_digest envelope)),
       (''plan_digest'', PStr (se_plan_digest envelope)),
       (''task_quiescence_digest'', task_digest),
       (''candidate_manifest_generation'', generation)])))"

definition maintenance_path :: path where
  "maintenance_path = [''.agent-workflow'', ''maintenance.json'']"

definition write_maintenance :: "random_name \<Rightarrow> dict \<Rightarrow> path io" where
  "write_maintenance rnd marker =
     ibnd (iread (\<lambda>s. require (\<not> (path_exists s maintenance_path \<or> is_symlink s maintenance_path)) maintenance_corrupt))
       (\<lambda>_. ibnd (atomic_write rnd ''.maintenance.'' maintenance_path (canonical_json_bytes (PDict marker)))
       (\<lambda>_. iret maintenance_path))"

definition remove_maintenance :: "dict \<Rightarrow> unit io" where
  "remove_maintenance marker =
     ibnd (iread (\<lambda>s. require (\<not> (is_symlink s maintenance_path \<or> \<not> is_file s maintenance_path)) maintenance_corrupt))
       (\<lambda>_. ibnd (read_bytes maintenance_path) (\<lambda>current.
       ibnd (ilift (canonical_json_bytes (PDict marker))) (\<lambda>bound.
       ibnd (irequire (current = bound) maintenance_corrupt) (\<lambda>_.
       unlink maintenance_path))))"

section \<open>Publishing is atomic\<close>

definition publish_temp :: "random_name \<Rightarrow> string \<Rightarrow> path \<Rightarrow> fs \<Rightarrow> path" where
  "publish_temp rnd prefix t s = parent t @ [prefix @ rnd (parent t) prefix s]"

definition publish_states :: "fs \<Rightarrow> path \<Rightarrow> path \<Rightarrow> byte list res \<Rightarrow> fs set" where
  "publish_states s t q payload = insert (fmupd q (File [] 384) s) (case payload of
     Inl _ \<Rightarrow> {} | Inr bs \<Rightarrow> {fmupd q (File bs 384) s, fmupd t (File bs 384) s})"

lemma publish_run:
  assumes "q \<noteq> []" and "fmlookup s q = None" and "length q = length t" and "q \<noteq> t"
    and "is_dir s (parent t)" and "t \<noteq> []"
  shows "set (states (ifinally (publish payload t q) (discard q)) (fmupd q (File [] 384) s))
      \<subseteq> insert s (publish_states s t q payload) \<and>
    (case outcome (ifinally (publish payload t q) (discard q)) (fmupd q (File [] 384) s) of
       Inl _ \<Rightarrow> final (ifinally (publish payload t q) (discard q)) (fmupd q (File [] 384) s) = s \<and>
         (is_ok payload \<longrightarrow> is_dir s t)
     | Inr _ \<Rightarrow> (\<exists>bs. payload = Inr bs \<and>
         final (ifinally (publish payload t q) (discard q)) (fmupd q (File [] 384) s) = fmupd t (File bs 384) s))"
proof -
  let ?u = "fmupd q (File [] 384) s"
  note d = discard_temporary [OF assms(1,2) refl]
  show ?thesis
  proof (cases payload)
    case (Inl e)
    have "outcome (publish payload t q) ?u = Inl e" "final (publish payload t q) ?u = ?u"
        "set (states (publish payload t q) ?u) = {?u}"
      using Inl by (simp_all add: publish_def io_simps)
    then show ?thesis
      using d [of "[]" 384] Inl by (simp add: ifinally_run publish_states_def is_ok_def)
  next
    case (Inr bs)
    let ?v = "fmupd q (File bs 384) s"
    have w: "write_fs q bs ?u = Inr ?v" and ch: "chmod_fs q 384 ?v = Inr ?v"
      using assms(1) by (simp_all add: write_fs_def chmod_fs_def node_at_def)
    have dirs: "is_dir ?v t = is_dir s t" "is_dir ?v (parent t) = is_dir s (parent t)"
      using assms by (auto simp: is_dir_def node_at_def)
    show ?thesis
    proof (cases "is_dir s t")
      case True
      then have r: "replace_fs q t ?v = Inl (OSError ''IsADirectoryError'')"
        using dirs assms(1) by (simp add: replace_fs_def node_at_def)
      have "outcome (publish payload t q) ?u = Inl (OSError ''IsADirectoryError'')" "final (publish payload t q) ?u = ?v"
          "set (states (publish payload t q) ?u) = {?u, ?v}"
        by (simp_all add: publish_def io_simps w ch r Inr insert_commute)
      then show ?thesis
        using d [of bs 384] Inr True by (simp add: ifinally_run publish_states_def)
    next
      case False
      let ?f = "fmupd t (File bs 384) s"
      have r: "replace_fs q t ?v = Inr ?f"
        using dirs assms False by (simp add: replace_fs_def node_at_def fmdrop_fmupd_fresh)
      have "outcome (publish payload t q) ?u = Inr ()" "final (publish payload t q) ?u = ?f"
          "set (states (publish payload t q) ?u) = {?u, ?v, ?f}"
        by (auto simp add: publish_def io_simps w ch r Inr insert_commute)
      moreover have "\<not> path_exists ?f q" "\<not> is_symlink ?f q"
        using assms by (simp_all add: path_exists_def is_symlink_def node_at_def)
      ultimately show ?thesis
        using Inr by (simp add: ifinally_run discard_def io_simps publish_states_def)
    qed
  qed
qed

lemma mkstemp_publish_run:
  assumes "t \<noteq> []"
  shows "fmlookup s (publish_temp rnd prefix t s) = None \<Longrightarrow> is_dir s (parent t) \<Longrightarrow>
      outcome (mkstemp rnd (parent t) prefix) s = Inr (publish_temp rnd prefix t s) \<and>
      final (mkstemp rnd (parent t) prefix) s = fmupd (publish_temp rnd prefix t s) (File [] 384) s \<and>
      set (states (mkstemp rnd (parent t) prefix) s) = {s, fmupd (publish_temp rnd prefix t s) (File [] 384) s}"
    "fmlookup s (publish_temp rnd prefix t s) \<noteq> None \<or> \<not> is_dir s (parent t) \<Longrightarrow>
      (\<exists>x. outcome (mkstemp rnd (parent t) prefix) s = Inl x) \<and>
      final (mkstemp rnd (parent t) prefix) s = s \<and> set (states (mkstemp rnd (parent t) prefix) s) = {s}"
  using assms
  by (auto simp: mkstemp_def io_simps create_excl_fs_def publish_temp_def [symmetric] Let_def node_at_def)
     (auto simp: publish_temp_def)

lemma atomic_write_run:
  assumes "t \<noteq> []" and "publish_temp rnd prefix t s \<noteq> t"
  shows atomic_write_states: "set (states (atomic_write rnd prefix t payload) s) \<subseteq>
      insert s (if fmlookup s (publish_temp rnd prefix t s) = None
        then publish_states s t (publish_temp rnd prefix t s) payload else {})"
    and atomic_write_ok: "outcome (atomic_write rnd prefix t payload) s = Inr u \<Longrightarrow>
      \<exists>bs. payload = Inr bs \<and> final (atomic_write rnd prefix t payload) s = fmupd t (File bs 384) s \<and> is_dir s (parent t)"
    and atomic_write_error: "outcome (atomic_write rnd prefix t payload) s = Inl e \<Longrightarrow>
      final (atomic_write rnd prefix t payload) s = s"
    and atomic_write_succeeds: "payload = Inr bs \<Longrightarrow> is_dir s (parent t) \<Longrightarrow> \<not> is_dir s t \<Longrightarrow>
      fmlookup s (publish_temp rnd prefix t s) = None \<Longrightarrow> outcome (atomic_write rnd prefix t payload) s = Inr ()"
proof -
  let ?q = "publish_temp rnd prefix t s" and ?m = "atomic_write rnd prefix t payload"
  have q: "?q \<noteq> []" "length ?q = length t" using assms(1) by (simp_all add: publish_temp_def)
  have A: "set (states ?m s) \<subseteq> insert s (if fmlookup s ?q = None then publish_states s t ?q payload else {}) \<and>
     (\<forall>u. outcome ?m s = Inr u \<longrightarrow> (\<exists>bs. payload = Inr bs \<and> final ?m s = fmupd t (File bs 384) s \<and> is_dir s (parent t))) \<and>
     (\<forall>e. outcome ?m s = Inl e \<longrightarrow> final ?m s = s) \<and>
     (is_ok payload \<longrightarrow> is_dir s (parent t) \<longrightarrow> \<not> is_dir s t \<longrightarrow> fmlookup s ?q = None \<longrightarrow> outcome ?m s = Inr ())"
  proof (cases "fmlookup s ?q = None \<and> is_dir s (parent t)")
    case False
    then have "fmlookup s ?q \<noteq> None \<or> \<not> is_dir s (parent t)" by simp
    from mkstemp_publish_run(2) [OF assms(1) this] obtain x where
      "outcome (mkstemp rnd (parent t) prefix) s = Inl x" "final (mkstemp rnd (parent t) prefix) s = s"
      "set (states (mkstemp rnd (parent t) prefix) s) = {s}" by blast
    then have "outcome ?m s = Inl x" "final ?m s = s" "set (states ?m s) = {s}"
      by (simp_all add: atomic_write_def outcome_ibnd final_ibnd states_ibnd)
    with False show ?thesis by simp blast
  next
    case True
    let ?p = "ifinally (publish payload t ?q) (discard ?q)" and ?u = "fmupd ?q (File [] 384) s"
    note p = publish_run [OF q(1) conjunct1 [OF True] q(2) assms(2) conjunct2 [OF True] assms(1), of payload]
    note mk = mkstemp_publish_run(1) [OF assms(1) conjunct1 [OF True] conjunct2 [OF True]]
    have u: "?u \<in> publish_states s t ?q payload" by (simp add: publish_states_def)
    have run: "outcome ?m s = outcome ?p ?u" "final ?m s = final ?p ?u"
        "set (states ?m s) = insert s (insert ?u (set (states ?p ?u)))"
      using mk by (simp_all add: atomic_write_def outcome_ibnd final_ibnd states_ibnd)
    show ?thesis
    proof (cases "outcome ?p ?u")
      case (Inl e)
      show ?thesis unfolding run using p True u Inl by simp
    next
      case (Inr y)
      show ?thesis unfolding run using p True u Inr by auto
    qed
  qed
  show "set (states ?m s) \<subseteq> insert s (if fmlookup s ?q = None then publish_states s t ?q payload else {})"
    and "outcome ?m s = Inr u \<Longrightarrow> \<exists>bs. payload = Inr bs \<and> final ?m s = fmupd t (File bs 384) s \<and> is_dir s (parent t)"
    and "outcome ?m s = Inl e \<Longrightarrow> final ?m s = s"
    and "payload = Inr bs \<Longrightarrow> is_dir s (parent t) \<Longrightarrow> \<not> is_dir s t \<Longrightarrow> fmlookup s ?q = None \<Longrightarrow> outcome ?m s = Inr ()"
    using A by (simp_all add: is_ok_def)
qed

end
