(* ===== verification/Artifact_Policy.thy ===== *)
theory Artifact_Policy
  imports Validate "HOL-Library.Product_Lexorder"
begin

text \<open>
  Model of \<^verbatim>\<open>core/artifact_policy.py\<close>: which repository paths an artifact definition may manage and
  in which way, and the contract by which the task tree of Trellis is discovered. The lemmas give
  the path test its meaning (one path is inside another, by segments and up to case), show that
  accepted targets are pairwise distinct and outside every protected root, that an accepted layout
  keeps its regions apart, and that validating a normalised layout again changes nothing.
\<close>

section \<open>Data\<close>

definition DEFINITION_FIELDS :: "string list" where
  "DEFINITION_FIELDS = [''schema_id'', ''schema_version'', ''id'', ''source'', ''targets'', ''forbidden_paths'', ''validators'']"

definition TARGET_FIELDS :: "string list" where
  "TARGET_FIELDS = [''path'', ''ownership'', ''merge_strategy'', ''mode_policy'', ''mode'', ''markers'']"

definition VALIDATOR_FIELDS :: "string list" where
  "VALIDATOR_FIELDS = [''id'', ''version'']"

definition LAYOUT_FIELDS :: "string list" where
  "LAYOUT_FIELDS = [''schema_id'', ''schema_version'', ''adapter_id'', ''adapter_version'', ''runtime_namespace'',
     ''active_root'', ''archive_root'', ''task_discovery'', ''metadata_contracts'', ''task_transaction_discovery'']"

definition TASK_DISCOVERY_FIELDS :: "string list" where
  "TASK_DISCOVERY_FIELDS = [''hierarchy'', ''segment_grammar_id'', ''integration_relative_path'', ''integration_schema_id'',
     ''integration_schema_versions'', ''unknown_root_entry_policy'', ''allowed_non_task_entries'', ''max_scan_depth'',
     ''max_tasks'', ''max_root_entries'', ''max_integration_bytes'']"

definition METADATA_COMMON_FIELDS :: "string list" where
  "METADATA_COMMON_FIELDS = [''kind'', ''contract_id'', ''schema_id'', ''schema_versions'', ''parser_id'', ''parser_version'',
     ''classifier_id'', ''classifier_version'', ''semantic_role'', ''task_ref_fields'', ''max_bytes'', ''absence_is_empty'',
     ''canonical_empty_state_id'']"

definition METADATA_EXACT_FIELDS :: "string list" where
  "METADATA_EXACT_FIELDS = METADATA_COMMON_FIELDS @ [''path'']"

definition METADATA_BOUNDED_FIELDS :: "string list" where
  "METADATA_BOUNDED_FIELDS = METADATA_COMMON_FIELDS @ [''root'', ''segment_grammar_id'', ''max_depth'', ''max_matches'']"

definition TASK_TRANSACTION_FIELDS :: "string list" where
  "TASK_TRANSACTION_FIELDS = [''root'', ''filename_grammar_id'', ''schema_id'', ''schema_versions'', ''phase_classifier_id'',
     ''phase_classifier_version'', ''task_id_field'', ''task_ref_fields'', ''terminal_phases'', ''max_journals'',
     ''max_journal_bytes'']"

text \<open>The regular expression \<^verbatim>\<open>^[a-z][a-z0-9._-]*$\<close>.\<close>

definition stable_token :: "string \<Rightarrow> bool" where
  "stable_token s = (s \<noteq> [] \<and> is_lower (hd s) \<and>
     list_all (\<lambda>c. is_lower c \<or> is_digit c \<or> c \<in> set ''._-'') (tl s))"

definition CONTROL_PATHS :: "string list" where
  "CONTROL_PATHS = [''.agent-workflow/manifest.json'', ''.agent-workflow/workflow.lock'', ''.agent-workflow/reconcile.lock'',
     ''.agent-workflow/runtime-state.lock'', ''.agent-workflow/maintenance.json'', ''.agent-workflow/runtime'']"

record artifact_target =
  at_path :: string
  at_ownership :: string
  at_merge_strategy :: string
  at_mode_policy :: string
  at_mode :: "string option"
  at_markers :: "(string \<times> string) option"

record artifact_definition =
  ad_definition_id :: string
  ad_source :: string
  ad_targets :: "artifact_target list"
  ad_forbidden_paths :: "string list"
  ad_validators :: "(string \<times> int) list"

record metadata_contract =
  mc_kind :: string
  mc_contract_id :: string
  mc_location :: string
  mc_normalized :: dict

record task_layout =
  tl_adapter_id :: string
  tl_adapter_version :: string
  tl_runtime_namespace :: string
  tl_active_root :: string
  tl_archive_root :: string
  tl_metadata_contracts :: "metadata_contract list"
  tl_task_transaction_root :: string
  tl_normalized :: dict
  tl_layout_digest :: string

definition artifact_failure :: exn where
  "artifact_failure = CoreFailure ''AWP_ARTIFACT_POLICY_INVALID'' 2"

definition protected_failure :: exn where
  "protected_failure = CoreFailure ''AWP_PROTECTED_PATH_VIOLATION'' 20"

definition require_mapping :: "pyval \<Rightarrow> dict res" where
  "require_mapping v = as_mapping artifact_failure v"

definition require_positive_int :: "pyval \<Rightarrow> int res" where
  "require_positive_int v = (case v of PInt n \<Rightarrow> if n < 1 then Inl artifact_failure else Inr n | _ \<Rightarrow> Inl artifact_failure)"

definition require_stable_token :: "pyval \<Rightarrow> string res" where
  "require_stable_token v = (case v of PStr s \<Rightarrow> if stable_token s then Inr s else Inl artifact_failure
     | _ \<Rightarrow> Inl artifact_failure)"

section \<open>Path containment\<close>

definition path_key :: "string \<Rightarrow> string" where
  "path_key path = casefold path"

definition rstrip_slash :: "string \<Rightarrow> string" where
  "rstrip_slash s = rev (dropWhile (\<lambda>c. c = chr_slash) (rev s))"

definition same_or_descendant :: "string \<Rightarrow> string \<Rightarrow> bool" where
  "same_or_descendant path root =
     (let p = path_key path; r = path_key (rstrip_slash root) in p = r \<or> starts_with (r @ [chr_slash]) p)"

definition paths_overlap :: "string \<Rightarrow> string \<Rightarrow> bool" where
  "paths_overlap p q = (same_or_descendant p q \<or> same_or_descendant q p)"

definition derive_protected_paths :: "string \<Rightarrow> string \<Rightarrow> string list res" where
  "derive_protected_paths active_root archive_root =
     bnd (normalize_path (PStr active_root)) (\<lambda>active.
     bnd (normalize_path (PStr archive_root)) (\<lambda>archive.
     Inr [''.git/**'', active @ ''/**'', archive @ ''/**'', ''.trellis/workspace/**'', ''specs/**'',
          ''.agent-workflow/local/**'', ''.agent-workflow/task-transactions/**'', ''.agent-workflow/transactions/**'']))"

definition remove_suffix :: "string \<Rightarrow> string \<Rightarrow> string" where
  "remove_suffix p s = (if ends_with p s then take (length s - length p) s else s)"

definition protected_roots :: "string \<Rightarrow> string \<Rightarrow> string list res" where
  "protected_roots active_root archive_root =
     bnd (derive_protected_paths active_root archive_root) (\<lambda>patterns. Inr (map (remove_suffix ''/**'') patterns))"

definition assert_artifact_target_allowed :: "string \<Rightarrow> string \<Rightarrow> string list \<Rightarrow> unit res" where
  "assert_artifact_target_allowed path ownership forbidden =
     bnd (protected_roots ''.trellis/tasks'' ''.trellis/tasks/archive'') (\<lambda>protected.
     bnd (require (\<not> list_ex (same_or_descendant path) (protected @ CONTROL_PATHS @ forbidden)) protected_failure) (\<lambda>_.
     require (\<not> (same_or_descendant path ''.trellis/spec'' \<and> ownership \<noteq> ''create-once-then-user-owned''))
       protected_failure))"

section \<open>Artifact definitions\<close>

definition legal_policies :: "(string \<times> string \<times> string) list" where
  "legal_policies = [(''managed'', ''whole-file'', ''exact''), (''overlay-managed'', ''marked-block'', ''preserve''),
     (''create-once-then-user-owned'', ''whole-file'', ''exact''), (''adopted'', ''observe-baseline'', ''preserve''),
     (''user-owned'', ''none'', ''preserve'')]"

definition target_mode :: "string \<Rightarrow> pyval \<Rightarrow> string option res" where
  "target_mode mode_policy raw_mode =
     (if mode_policy = ''exact'' then
        (if raw_mode = PNone then Inl artifact_failure else bnd (normalize_mode raw_mode) (\<lambda>m. Inr (Some m)))
      else if raw_mode \<noteq> PNone then Inl artifact_failure
      else Inr None)"

definition marker_pair :: "dict \<Rightarrow> (string \<times> string) res" where
  "marker_pair d =
     bnd (require (same_strs (keys d) [''begin'', ''end'']) artifact_failure) (\<lambda>_.
     bnd (as_string artifact_failure (get d ''begin'')) (\<lambda>b.
     bnd (as_string artifact_failure (get d ''end'')) (\<lambda>e.
     bnd (require (b \<noteq> e) artifact_failure) (\<lambda>_.
     bnd (require (\<not> contains_str b e \<and> \<not> contains_str e b) artifact_failure) (\<lambda>_.
     Inr (b, e))))))"

definition target_markers :: "string \<Rightarrow> pyval \<Rightarrow> (string \<times> string) option res" where
  "target_markers ownership raw_markers =
     (if ownership = ''overlay-managed'' then
        bnd (require_mapping raw_markers) (\<lambda>d. bnd (marker_pair d) (\<lambda>m. Inr (Some m)))
      else if raw_markers \<noteq> PNone then Inl artifact_failure
      else Inr None)"

definition validate_target :: "dict \<Rightarrow> string list \<Rightarrow> artifact_target res" where
  "validate_target raw forbidden =
     bnd (require (subset_strs (keys raw) TARGET_FIELDS) artifact_failure) (\<lambda>_.
     bnd (as_str artifact_failure (get raw ''path'')) (\<lambda>path_value.
     bnd (normalize_path (PStr path_value)) (\<lambda>path.
     bnd (as_str artifact_failure (get raw ''ownership'')) (\<lambda>ownership.
     bnd (as_str artifact_failure (get raw ''merge_strategy'')) (\<lambda>merge_strategy.
     bnd (as_str artifact_failure (get raw ''mode_policy'')) (\<lambda>mode_policy.
     bnd (require (map_of legal_policies ownership = Some (merge_strategy, mode_policy)) artifact_failure) (\<lambda>_.
     bnd (target_mode mode_policy (get raw ''mode'')) (\<lambda>mode.
     bnd (target_markers ownership (get raw ''markers'')) (\<lambda>markers.
     bnd (assert_artifact_target_allowed path ownership forbidden) (\<lambda>_.
     Inr \<lparr>at_path = path, at_ownership = ownership, at_merge_strategy = merge_strategy, at_mode_policy = mode_policy,
          at_mode = mode, at_markers = markers\<rparr>))))))))))"

text \<open>What the loop over the definitions has seen: paths by key, and marker pairs.\<close>

record artifact_seen =
  as_ids :: "string list"
  as_target_paths :: "(string \<times> string) list"
  as_marker_pairs :: "((string \<times> string) \<times> string) list"

definition add_target :: "string \<Rightarrow> artifact_seen \<Rightarrow> artifact_target \<Rightarrow> artifact_seen res" where
  "add_target definition_id seen target =
     bnd (require (\<not> has_key (as_target_paths seen) (path_key (at_path target))) artifact_failure) (\<lambda>_.
     let seen' = seen\<lparr>as_target_paths := AList.update (path_key (at_path target)) definition_id (as_target_paths seen)\<rparr> in
     (case at_markers target of
        None \<Rightarrow> Inr seen'
      | Some markers \<Rightarrow>
          if markers \<in> set (map fst (as_marker_pairs seen)) then Inl artifact_failure
          else Inr (seen'\<lparr>as_marker_pairs := AList.update markers (at_path target) (as_marker_pairs seen)\<rparr>)))"

definition validate_validator :: "pyval \<Rightarrow> (string \<times> int) res" where
  "validate_validator v =
     bnd (require_mapping v) (\<lambda>validator.
     bnd (require (same_strs (keys validator) VALIDATOR_FIELDS) artifact_failure) (\<lambda>_.
     bnd (require_stable_token (get validator ''id'')) (\<lambda>validator_id.
     bnd (require_positive_int (get validator ''version'')) (\<lambda>version.
     Inr (validator_id, version)))))"

text \<open>One round of the loop over the definitions.\<close>

definition validate_definition ::
    "artifact_definition list \<times> artifact_seen \<Rightarrow> dict \<Rightarrow> (artifact_definition list \<times> artifact_seen) res" where
  "validate_definition st raw = (case st of (verified, seen) \<Rightarrow>
     bnd (require (subset_strs (keys raw) DEFINITION_FIELDS) artifact_failure) (\<lambda>_.
     bnd (require (py_eq (get raw ''schema_id'') (PStr ''agent-workflow.artifact-definition'') \<and>
                   py_eq (get raw ''schema_version'') (PInt 1)) artifact_failure) (\<lambda>_.
     bnd (require_stable_token (get raw ''id'')) (\<lambda>definition_id.
     bnd (require (definition_id \<notin> set (as_ids seen)) artifact_failure) (\<lambda>_.
     bnd (as_str artifact_failure (get raw ''source'')) (\<lambda>source_value.
     bnd (normalize_path (PStr source_value)) (\<lambda>source.
     bnd (as_array artifact_failure (get_or raw ''forbidden_paths'' (PList []))) (\<lambda>forbidden_raw.
     bnd (require (list_all is_pystr forbidden_raw) artifact_failure) (\<lambda>_.
     bnd (mapr normalize_path forbidden_raw) (\<lambda>forbidden.
     bnd (as_array artifact_failure (get raw ''targets'')) (\<lambda>raw_targets.
     bnd (require (raw_targets \<noteq> []) artifact_failure) (\<lambda>_.
     bnd (mapr (\<lambda>t. bnd (require_mapping t) (\<lambda>d. validate_target d forbidden)) raw_targets) (\<lambda>targets.
     bnd (foldr_res (add_target definition_id) (seen\<lparr>as_ids := definition_id # as_ids seen\<rparr>) targets) (\<lambda>seen'.
     bnd (as_array artifact_failure (get_or raw ''validators'' (PList []))) (\<lambda>raw_validators.
     bnd (mapr validate_validator raw_validators) (\<lambda>validators.
     bnd (require (distinct validators) artifact_failure) (\<lambda>_.
     Inr (verified @ [\<lparr>ad_definition_id = definition_id, ad_source = source, ad_targets = targets,
            ad_forbidden_paths = forbidden, ad_validators = sort validators\<rparr>], seen'))))))))))))))))))"

definition validate_artifact_definitions :: "dict list \<Rightarrow> artifact_definition list res" where
  "validate_artifact_definitions definitions =
     bnd (foldr_res validate_definition ([], \<lparr>as_ids = [], as_target_paths = [], as_marker_pairs = []\<rparr>) definitions)
       (\<lambda>(verified, _). Inr verified)"

section \<open>Segments and journal names\<close>

definition validate_task_segment :: "string \<Rightarrow> string res" where
  "validate_task_segment segment =
     bnd (normalize_nfc (PStr segment)) (\<lambda>normalized.
     bnd (require (1 \<le> length (utf8_encode normalized) \<and> length (utf8_encode normalized) \<le> 128) artifact_failure) (\<lambda>_.
     bnd (require (normalized \<noteq> ''.'' \<and> normalized \<noteq> ''..'' \<and> chr_slash \<notin> set normalized \<and>
            chr_backslash \<notin> set normalized \<and> chr_nul \<notin> set normalized) artifact_failure) (\<lambda>_.
     bnd (require (normalized = strip normalized \<and> \<not> ends_with ''.'' normalized) artifact_failure) (\<lambda>_.
     bnd (require (list_all (\<lambda>c. \<not> (ord c < 0x20 \<or> (0x7F \<le> ord c \<and> ord c \<le> 0x9F))) normalized) artifact_failure) (\<lambda>_.
     Inr normalized)))))"

text \<open>The group of the regular expression \<^verbatim>\<open>^(8-4-4-4-12 hexadecimal digits)\.json$\<close>.\<close>

definition uuid_json :: "string \<Rightarrow> string option" where
  "uuid_json filename =
     (let candidate = take 36 filename in
      if drop 36 filename = ''.json'' \<and> uuid_format candidate then Some candidate else None)"

definition validate_task_journal_name :: "string \<Rightarrow> string res" where
  "validate_task_journal_name filename =
     (case uuid_json filename of
        None \<Rightarrow> Inl artifact_failure
      | Some candidate \<Rightarrow> (case uuid_str candidate of
            None \<Rightarrow> Inl artifact_failure
          | Some parsed \<Rightarrow> if parsed \<noteq> candidate then Inl artifact_failure else Inr candidate))"

section \<open>The task layout\<close>

definition positive_ints :: "pyval list \<Rightarrow> bool" where
  "positive_ints xs = list_all (\<lambda>v. case v of PInt n \<Rightarrow> 1 \<le> n | _ \<Rightarrow> False) xs"

fun ints_of :: "pyval list \<Rightarrow> int list" where
  "ints_of [] = []"
| "ints_of (PInt n # xs) = n # ints_of xs"
| "ints_of (_ # xs) = ints_of xs"

definition integer_versions :: "pyval \<Rightarrow> int list res" where
  "integer_versions v = (case v of
     PList xs \<Rightarrow> if xs = [] \<or> \<not> positive_ints xs then Inl artifact_failure
       else (let normalized = sorted_set (ints_of xs) in
         if length normalized \<noteq> length xs then Inl artifact_failure else Inr normalized)
   | _ \<Rightarrow> Inl artifact_failure)"

definition json_pointer :: "pyval \<Rightarrow> bool" where
  "json_pointer v = (case v of PStr s \<Rightarrow> starts_with ''/'' s \<and> \<not> contains_str ''//'' s | _ \<Rightarrow> False)"

definition json_pointers :: "pyval \<Rightarrow> string list res" where
  "json_pointers v = (case v of
     PList xs \<Rightarrow> if \<not> list_all json_pointer xs then Inl artifact_failure else normalize_string_set xs
   | _ \<Rightarrow> Inl artifact_failure)"

definition metadata_location_allowed ::
    "string \<Rightarrow> string \<Rightarrow> string \<Rightarrow> string \<Rightarrow> string list \<Rightarrow> string list \<Rightarrow> unit res" where
  "metadata_location_allowed location runtime_namespace active_root archive_root artifact_targets source_roots =
     bnd (require (same_or_descendant location runtime_namespace) protected_failure) (\<lambda>_.
     require (\<not> list_ex (paths_overlap location) ([''.git'', ''.agent-workflow'', ''specs''] @ artifact_targets @
       source_roots @ [active_root, archive_root])) protected_failure)"

text \<open>The checks of the bounded branch.\<close>

definition check_bounded :: "dict \<Rightarrow> unit res" where
  "check_bounded raw =
     bnd (in_strs (get raw ''segment_grammar_id'') [''safe-nfc-segment-v1'', ''uuid-json-v1'']) (\<lambda>known.
     bnd (require known artifact_failure) (\<lambda>_.
     bnd (require (py_eq (get raw ''max_depth'') (PInt 1)) artifact_failure) (\<lambda>_.
     bnd (require_positive_int (get raw ''max_matches'')) (\<lambda>_. Inr ()))))"

text \<open>The normalised fields, and the copy of the document with these fields replaced.\<close>

definition metadata_fields_normal :: "dict \<Rightarrow> (string \<times> pyval) list res" where
  "metadata_fields_normal raw =
     bnd (require_stable_token (get raw ''schema_id'')) (\<lambda>schema_id.
     bnd (integer_versions (get raw ''schema_versions'')) (\<lambda>schema_versions.
     bnd (require_stable_token (get raw ''parser_id'')) (\<lambda>parser_id.
     bnd (require_positive_int (get raw ''parser_version'')) (\<lambda>parser_version.
     bnd (require_stable_token (get raw ''classifier_id'')) (\<lambda>classifier_id.
     bnd (require_positive_int (get raw ''classifier_version'')) (\<lambda>classifier_version.
     bnd (require_stable_token (get raw ''semantic_role'')) (\<lambda>semantic_role.
     bnd (json_pointers (get raw ''task_ref_fields'')) (\<lambda>task_ref_fields.
     bnd (require_positive_int (get raw ''max_bytes'')) (\<lambda>max_bytes.
     bnd (require (is_pybool (get raw ''absence_is_empty'')) artifact_failure) (\<lambda>_.
     bnd (require_stable_token (get raw ''canonical_empty_state_id'')) (\<lambda>canonical_empty_state_id.
     Inr [(''schema_id'', PStr schema_id), (''schema_versions'', PList (map PInt schema_versions)),
       (''parser_id'', PStr parser_id), (''parser_version'', PInt parser_version),
       (''classifier_id'', PStr classifier_id), (''classifier_version'', PInt classifier_version),
       (''semantic_role'', PStr semantic_role), (''task_ref_fields'', PList (map PStr task_ref_fields)),
       (''max_bytes'', PInt max_bytes), (''canonical_empty_state_id'', PStr canonical_empty_state_id)])))))))))))"

definition update_all :: "dict \<Rightarrow> (string \<times> pyval) list \<Rightarrow> dict" where
  "update_all d ps = foldl (\<lambda>d (k, v). AList.update k v d) d ps"

definition normalize_metadata_contract ::
    "string \<Rightarrow> string \<Rightarrow> string \<Rightarrow> string list \<Rightarrow> string list \<Rightarrow> dict \<Rightarrow> metadata_contract res" where
  "normalize_metadata_contract runtime_namespace active_root archive_root artifact_targets source_roots raw =
     (let kind = get raw ''kind'';
          expected_fields = (if kind = PStr ''exact'' then METADATA_EXACT_FIELDS else METADATA_BOUNDED_FIELDS);
          location_field = (if kind = PStr ''exact'' then ''path'' else ''root'') in
     bnd (in_strs kind [''exact'', ''bounded'']) (\<lambda>known.
     bnd (require (known \<and> same_strs (keys raw) expected_fields) artifact_failure) (\<lambda>_.
     bnd (as_str artifact_failure kind) (\<lambda>kind_text.
     bnd (require_stable_token (get raw ''contract_id'')) (\<lambda>contract_id.
     bnd (as_str artifact_failure (get raw location_field)) (\<lambda>location_value.
     bnd (normalize_path (PStr location_value)) (\<lambda>location.
     bnd (metadata_location_allowed location runtime_namespace active_root archive_root artifact_targets source_roots) (\<lambda>_.
     bnd (if kind = PStr ''bounded'' then check_bounded raw else Inr ()) (\<lambda>_.
     bnd (metadata_fields_normal raw) (\<lambda>normal.
     Inr \<lparr>mc_kind = kind_text, mc_contract_id = contract_id, mc_location = location,
          mc_normalized = update_all (AList.update location_field (PStr location) raw) normal\<rparr>))))))))))"

definition casefold_key :: "string \<Rightarrow> nat list" where
  "casefold_key s = concat (map (\<lambda>c. if ord c = 0xB5 then [0x3BC] else map ord (casefold_char c)) s)"

text \<open>The task-discovery part: checks, and its normalised form.\<close>

definition normalize_task_discovery :: "pyval \<Rightarrow> dict res" where
  "normalize_task_discovery v =
     bnd (require_mapping v) (\<lambda>d.
     bnd (require (same_strs (keys d) TASK_DISCOVERY_FIELDS) artifact_failure) (\<lambda>_.
     bnd (require (py_eq (get d ''hierarchy'') (PStr ''one-segment'')) artifact_failure) (\<lambda>_.
     bnd (require (py_eq (get d ''segment_grammar_id'') (PStr ''safe-nfc-segment-v1'')) artifact_failure) (\<lambda>_.
     bnd (as_str artifact_failure (get d ''integration_relative_path'')) (\<lambda>integration_path.
     bnd (require (chr_slash \<notin> set integration_path) artifact_failure) (\<lambda>_.
     bnd (validate_task_segment integration_path) (\<lambda>_.
     bnd (require_stable_token (get d ''integration_schema_id'')) (\<lambda>integration_schema_id.
     bnd (integer_versions (get d ''integration_schema_versions'')) (\<lambda>integration_versions.
     bnd (require (py_eq (get d ''unknown_root_entry_policy'') (PStr ''block'')) artifact_failure) (\<lambda>_.
     bnd (as_array artifact_failure (get d ''allowed_non_task_entries'')) (\<lambda>allowed_entries.
     bnd (require (list_all is_pystr allowed_entries) artifact_failure) (\<lambda>_.
     bnd (mapr validate_task_segment (strs_of allowed_entries)) (\<lambda>normalized_allowed.
     bnd (require (length normalized_allowed = length (remdups (map casefold normalized_allowed))) artifact_failure) (\<lambda>_.
     bnd (require (py_eq (get d ''max_scan_depth'') (PInt 1)) artifact_failure) (\<lambda>_.
     bnd (require_positive_int (get d ''max_tasks'')) (\<lambda>max_tasks.
     bnd (require_positive_int (get d ''max_root_entries'')) (\<lambda>max_root_entries.
     bnd (require_positive_int (get d ''max_integration_bytes'')) (\<lambda>max_integration_bytes.
     Inr [(''hierarchy'', PStr ''one-segment''), (''segment_grammar_id'', PStr ''safe-nfc-segment-v1''),
       (''integration_relative_path'', PStr integration_path), (''integration_schema_id'', PStr integration_schema_id),
       (''integration_schema_versions'', PList (map PInt integration_versions)),
       (''unknown_root_entry_policy'', PStr ''block''),
       (''allowed_non_task_entries'', PList (map PStr (sort_key casefold_key normalized_allowed))),
       (''max_scan_depth'', PInt 1), (''max_tasks'', PInt max_tasks), (''max_root_entries'', PInt max_root_entries),
       (''max_integration_bytes'', PInt max_integration_bytes)]))))))))))))))))))"

definition normalize_task_transaction :: "pyval \<Rightarrow> dict res" where
  "normalize_task_transaction v =
     bnd (require_mapping v) (\<lambda>t.
     bnd (require (same_strs (keys t) TASK_TRANSACTION_FIELDS) artifact_failure) (\<lambda>_.
     bnd (as_str artifact_failure (get t ''root'')) (\<lambda>root_value.
     bnd (normalize_path (PStr root_value)) (\<lambda>root.
     bnd (require (root = ''.agent-workflow/task-transactions'') protected_failure) (\<lambda>_.
     bnd (require (py_eq (get t ''filename_grammar_id'') (PStr ''uuid-json-v1'')) artifact_failure) (\<lambda>_.
     bnd (require_stable_token (get t ''schema_id'')) (\<lambda>schema_id.
     bnd (integer_versions (get t ''schema_versions'')) (\<lambda>versions.
     bnd (require_stable_token (get t ''phase_classifier_id'')) (\<lambda>phase_classifier.
     bnd (require_positive_int (get t ''phase_classifier_version'')) (\<lambda>phase_classifier_version.
     bnd (require (py_eq (get t ''task_id_field'') (PStr ''/task_id'')) artifact_failure) (\<lambda>_.
     bnd (json_pointers (get t ''task_ref_fields'')) (\<lambda>task_refs.
     bnd (as_array artifact_failure (get t ''terminal_phases'')) (\<lambda>terminal_phases.
     bnd (require (terminal_phases \<noteq> [] \<and> list_all is_pystr terminal_phases) artifact_failure) (\<lambda>_.
     bnd (normalize_string_set terminal_phases) (\<lambda>terminal.
     bnd (require_positive_int (get t ''max_journals'')) (\<lambda>max_journals.
     bnd (require_positive_int (get t ''max_journal_bytes'')) (\<lambda>max_journal_bytes.
     Inr [(''root'', PStr root), (''filename_grammar_id'', PStr ''uuid-json-v1''), (''schema_id'', PStr schema_id),
       (''schema_versions'', PList (map PInt versions)), (''phase_classifier_id'', PStr phase_classifier),
       (''phase_classifier_version'', PInt phase_classifier_version), (''task_id_field'', PStr ''/task_id''),
       (''task_ref_fields'', PList (map PStr task_refs)), (''terminal_phases'', PList (map PStr terminal)),
       (''max_journals'', PInt max_journals), (''max_journal_bytes'', PInt max_journal_bytes)])))))))))))))))))"

text \<open>The nested loop over the pairs of contracts: does some pair overlap?\<close>

fun some_overlap :: "metadata_contract list \<Rightarrow> bool" where
  "some_overlap [] = False"
| "some_overlap (first # rest) =
     (list_ex (\<lambda>second. paths_overlap (mc_location first) (mc_location second)) rest \<or> some_overlap rest)"

definition layout_document ::
    "string \<Rightarrow> string \<Rightarrow> string \<Rightarrow> string \<Rightarrow> string \<Rightarrow> dict \<Rightarrow> metadata_contract list \<Rightarrow> dict \<Rightarrow> dict" where
  "layout_document adapter_id adapter_version runtime_namespace active_root archive_root discovery metadata transaction =
     [(''schema_id'', PStr ''agent-workflow.trellis-task-layout''), (''schema_version'', PInt 1),
      (''adapter_id'', PStr adapter_id), (''adapter_version'', PStr adapter_version),
      (''runtime_namespace'', PStr runtime_namespace), (''active_root'', PStr active_root), (''archive_root'', PStr archive_root),
      (''task_discovery'', PDict discovery),
      (''metadata_contracts'', PList (map (PDict o mc_normalized) (sort_key mc_contract_id metadata))),
      (''task_transaction_discovery'', PDict transaction)]"

definition validate_trellis_layout :: "string list \<Rightarrow> string list \<Rightarrow> dict \<Rightarrow> task_layout res" where
  "validate_trellis_layout artifact_targets source_roots document =
     bnd (require (same_strs (keys document) LAYOUT_FIELDS) artifact_failure) (\<lambda>_.
     bnd (require (py_eq (get document ''schema_id'') (PStr ''agent-workflow.trellis-task-layout'') \<and>
                   py_eq (get document ''schema_version'') (PInt 1)) artifact_failure) (\<lambda>_.
     bnd (require_stable_token (get document ''adapter_id'')) (\<lambda>adapter_id.
     bnd (as_string artifact_failure (get document ''adapter_version'')) (\<lambda>adapter_version.
     bnd (as_str artifact_failure (get document ''runtime_namespace'')) (\<lambda>raw_runtime.
     bnd (as_str artifact_failure (get document ''active_root'')) (\<lambda>raw_active.
     bnd (as_str artifact_failure (get document ''archive_root'')) (\<lambda>raw_archive.
     bnd (normalize_path (PStr raw_runtime)) (\<lambda>runtime_namespace.
     bnd (normalize_path (PStr raw_active)) (\<lambda>active_root.
     bnd (normalize_path (PStr raw_archive)) (\<lambda>archive_root.
     bnd (require (active_root \<noteq> runtime_namespace \<and> same_or_descendant active_root runtime_namespace) artifact_failure) (\<lambda>_.
     bnd (require (archive_root \<noteq> active_root \<and> same_or_descendant archive_root active_root) artifact_failure) (\<lambda>_.
     bnd (normalize_task_discovery (get document ''task_discovery'')) (\<lambda>discovery.
     bnd (mapr (\<lambda>p. normalize_path (PStr p)) artifact_targets) (\<lambda>normalized_targets.
     bnd (mapr (\<lambda>p. normalize_path (PStr p)) source_roots) (\<lambda>normalized_roots.
     bnd (as_array artifact_failure (get document ''metadata_contracts'')) (\<lambda>raw_metadata.
     bnd (mapr (\<lambda>item. bnd (require_mapping item) (normalize_metadata_contract runtime_namespace active_root archive_root
            normalized_targets normalized_roots)) raw_metadata) (\<lambda>metadata.
     bnd (require (distinct (map mc_contract_id metadata)) artifact_failure) (\<lambda>_.
     bnd (require (\<not> some_overlap metadata) protected_failure) (\<lambda>_.
     bnd (normalize_task_transaction (get document ''task_transaction_discovery'')) (\<lambda>transaction.
     let normalized_document = layout_document adapter_id adapter_version runtime_namespace active_root archive_root
           discovery metadata transaction in
     bnd (plain_digest (PDict normalized_document)) (\<lambda>layout_digest.
     Inr \<lparr>tl_adapter_id = adapter_id, tl_adapter_version = adapter_version, tl_runtime_namespace = runtime_namespace,
          tl_active_root = active_root, tl_archive_root = archive_root,
          tl_metadata_contracts = sort_key mc_contract_id metadata,
          tl_task_transaction_root = ''.agent-workflow/task-transactions'', tl_normalized = normalized_document,
          tl_layout_digest = layout_digest\<rparr>)))))))))))))))))))))"

section \<open>What the path test means\<close>

lemma slash_casefold_char: "chr_slash \<in> set (casefold_char c) \<longleftrightarrow> c = chr_slash"
proof -
  have "ord (char_of (ord c + 0x20)) = ord c + 0x20" if "ord c \<le> 0xDE"
    using that by (simp add: ord_def)
  moreover have "ord chr_slash = 0x2F" by (simp add: ord_def)
  ultimately have "chr_slash \<noteq> char_of (ord c + 0x20)" if "0x41 \<le> ord c" "ord c \<le> 0xDE"
    using that by fastforce
  then show ?thesis by (auto simp: casefold_char_def Let_def ord_def)
qed

lemma casefold_char_slash [simp]: "casefold_char chr_slash = [chr_slash]"
  by (simp add: casefold_char_def ord_def)

lemma split_on_none: "c \<notin> set xs \<Longrightarrow> split_on c (xs @ ys) = (xs @ hd (split_on c ys)) # tl (split_on c ys)"
  by (induction xs) (auto split: list.splits)

lemma casefold_simps [simp]: "casefold [] = []" "casefold (c # s) = casefold_char c @ casefold s"
  "casefold (s @ t) = casefold s @ casefold t"
  by (simp_all add: casefold_def)

lemma split_casefold: "split_on chr_slash (casefold s) = map casefold (split_on chr_slash s)"
proof (induction s)
  case (Cons c s)
  show ?case
  proof (cases "c = chr_slash")
    case False
    then have no: "chr_slash \<notin> set (casefold_char c)" by (simp add: slash_casefold_char)
    obtain p ps where p: "split_on chr_slash s = p # ps" by (cases "split_on chr_slash s") auto
    show ?thesis
      using False by (simp add: split_on_none [OF no] Cons.IH p)
  qed (simp add: Cons.IH)
qed simp

text \<open>The segments of one path start with the segments of another, up to case.\<close>

definition folded_segments :: "string \<Rightarrow> string list" where
  "folded_segments p = map casefold (split_on chr_slash p)"

definition inside :: "string \<Rightarrow> string \<Rightarrow> bool" where
  "inside p r = (take (length (folded_segments r)) (folded_segments p) = folded_segments r)"

lemma inside_iff: "inside p r \<longleftrightarrow> (\<exists>rest. folded_segments p = folded_segments r @ rest)"
  unfolding inside_def by (metis append_eq_conv_conj append_take_drop_id)

lemma join_append: "xs \<noteq> [] \<Longrightarrow> ys \<noteq> [] \<Longrightarrow> join_on c (xs @ ys) = join_on c xs @ c # join_on c ys"
proof (induction c xs rule: join_on.induct)
  case (2 c p)
  then show ?case by (cases ys) auto
qed auto

lemma folded_segments_join: "join_on chr_slash (folded_segments p) = casefold p"
  unfolding folded_segments_def split_casefold [symmetric] by (rule join_split)

lemma folded_segments_nonempty [simp]: "folded_segments p \<noteq> []"
  by (simp add: folded_segments_def)

lemma folded_segments_eq_iff: "folded_segments p = folded_segments q \<longleftrightarrow> path_key p = path_key q"
  unfolding path_key_def by (metis folded_segments_join folded_segments_def split_casefold)

lemma folded_segments_slash: "folded_segments p = folded_segments r @ rest \<longleftrightarrow>
   (if rest = [] then path_key p = path_key r else path_key p = path_key r @ chr_slash # join_on chr_slash rest \<and>
      split_on chr_slash (join_on chr_slash rest) = rest)"
proof (cases "rest = []")
  case False
  have "path_key p = path_key r @ chr_slash # join_on chr_slash rest" if "folded_segments p = folded_segments r @ rest"
    using folded_segments_join [of p] that False by (simp add: path_key_def join_append folded_segments_join)
  moreover have "split_on chr_slash (casefold p) = folded_segments r @ split_on chr_slash (join_on chr_slash rest)"
    if "path_key p = path_key r @ chr_slash # join_on chr_slash rest"
    using that by (simp add: path_key_def split_on_append_sep folded_segments_def split_casefold [symmetric])
  ultimately show ?thesis
    using False by (auto simp: folded_segments_def split_casefold [symmetric])
qed (simp add: folded_segments_eq_iff)

lemma rstrip_canonical: "canonical_path r \<Longrightarrow> rstrip_slash r = r"
proof -
  assume r: "canonical_path r"
  then have seg: "list_all (\<lambda>p. p \<noteq> []) (split_on chr_slash r)" "r \<noteq> []"
    by (auto simp: canonical_path_def list_all_iff)
  obtain s c where s: "r = s @ [c]" using seg(2) by (cases r rule: rev_cases) auto
  have "c \<noteq> chr_slash"
  proof
    assume "c = chr_slash"
    then have "split_on chr_slash r = split_on chr_slash s @ [[]]" by (simp add: s split_on_append_sep)
    with seg(1) show False by simp
  qed
  then show ?thesis by (simp add: rstrip_slash_def s)
qed

text \<open>For a canonical root the test of the code is containment of segments up to case.\<close>

lemma same_or_descendant_iff:
  assumes "canonical_path r"
  shows "same_or_descendant p r \<longleftrightarrow> inside p r"
proof
  assume "same_or_descendant p r"
  then consider "path_key p = path_key r" | q where "path_key p = path_key r @ chr_slash # q"
    by (auto simp: same_or_descendant_def rstrip_canonical [OF assms] starts_with_iff Let_def)
  then show "inside p r"
  proof cases
    case 1
    then show ?thesis by (simp add: inside_def folded_segments_eq_iff [symmetric])
  next
    case 2
    then have "folded_segments p = folded_segments r @ split_on chr_slash q"
      unfolding folded_segments_slash by (simp add: join_split)
    then show ?thesis by (auto simp: inside_iff)
  qed
next
  assume "inside p r"
  then obtain rest where "folded_segments p = folded_segments r @ rest" by (auto simp: inside_iff)
  then show "same_or_descendant p r"
    unfolding folded_segments_slash
    by (auto simp: same_or_descendant_def rstrip_canonical [OF assms] starts_with_iff Let_def split: if_splits)
qed

lemma inside_refl [simp]: "inside p p" by (simp add: inside_def)

lemma inside_trans: "inside p q \<Longrightarrow> inside q r \<Longrightarrow> inside p r"
  by (auto simp: inside_iff)

section \<open>Artifact definitions\<close>

definition GLOBAL_ROOTS :: "string list" where
  "GLOBAL_ROOTS = [''.git'', ''.trellis/tasks'', ''.trellis/tasks/archive'', ''.trellis/workspace'', ''specs'',
     ''.agent-workflow/local'', ''.agent-workflow/task-transactions'', ''.agent-workflow/transactions'']"

lemma plain_path:
  "canonical_path ''.trellis/tasks''" "canonical_path ''.trellis/tasks/archive''" "canonical_path ''.trellis/spec''"
  "list_all canonical_path (GLOBAL_ROOTS @ CONTROL_PATHS)"
  by (simp_all add: canonical_path_def windows_drive_def alias_segment_def ord_def GLOBAL_ROOTS_def CONTROL_PATHS_def)

lemma protected_roots_eq: "protected_roots ''.trellis/tasks'' ''.trellis/tasks/archive'' = Inr GLOBAL_ROOTS"
proof -
  have "normalize_path (PStr ''.trellis/tasks'') = Inr ''.trellis/tasks''"
    "normalize_path (PStr ''.trellis/tasks/archive'') = Inr ''.trellis/tasks/archive''"
    using plain_path by (simp_all add: normalize_path_Inr_iff)
  then show ?thesis
    by (simp add: protected_roots_def derive_protected_paths_def remove_suffix_def ends_with_def starts_with_def GLOBAL_ROOTS_def)
qed

text \<open>An allowed target is outside every protected root, and \<^verbatim>\<open>.trellis/spec\<close> is only ever seeded.\<close>

definition target_allowed :: "string list \<Rightarrow> artifact_target \<Rightarrow> bool" where
  "target_allowed forbidden t = (canonical_path (at_path t) \<and>
     list_all (\<lambda>r. \<not> inside (at_path t) r) (GLOBAL_ROOTS @ CONTROL_PATHS @ forbidden) \<and>
     (inside (at_path t) ''.trellis/spec'' \<longrightarrow> at_ownership t = ''create-once-then-user-owned''))"

text \<open>A target has the merge strategy, the mode and the markers its ownership class calls for.\<close>

definition target_wf :: "artifact_target \<Rightarrow> bool" where
  "target_wf t = (map_of legal_policies (at_ownership t) = Some (at_merge_strategy t, at_mode_policy t) \<and>
     (at_mode t = None \<longleftrightarrow> at_mode_policy t = ''preserve'') \<and>
     (at_markers t = None \<longleftrightarrow> at_ownership t \<noteq> ''overlay-managed'') \<and>
     (\<forall>b e. at_markers t = Some (b, e) \<longrightarrow> b \<noteq> [] \<and> e \<noteq> [] \<and> \<not> contains_str b e \<and> \<not> contains_str e b))"

lemma assert_allowed_iff:
  assumes "list_all canonical_path forbidden"
  shows "assert_artifact_target_allowed path ownership forbidden = Inr u \<longleftrightarrow>
    list_all (\<lambda>r. \<not> inside path r) (GLOBAL_ROOTS @ CONTROL_PATHS @ forbidden) \<and>
    (inside path ''.trellis/spec'' \<longrightarrow> ownership = ''create-once-then-user-owned'')"
proof -
  have "list_all canonical_path (GLOBAL_ROOTS @ CONTROL_PATHS @ forbidden)"
    using assms plain_path(4) by simp
  then have "list_ex (same_or_descendant path) (GLOBAL_ROOTS @ CONTROL_PATHS @ forbidden) \<longleftrightarrow>
      \<not> list_all (\<lambda>r. \<not> inside path r) (GLOBAL_ROOTS @ CONTROL_PATHS @ forbidden)"
    unfolding list_ex_iff list_all_iff using same_or_descendant_iff by blast
  then show ?thesis
    using same_or_descendant_iff [OF plain_path(3)]
    by (auto simp add: assert_artifact_target_allowed_def protected_roots_eq res_simps simp del: list_all_append list_ex_append)
qed

lemma marker_pair_Inr_iff [res_simps]:
  "marker_pair d = Inr (b, e) \<longleftrightarrow> same_strs (keys d) [''begin'', ''end''] \<and> get d ''begin'' = PStr b \<and> get d ''end'' = PStr e \<and>
     b \<noteq> [] \<and> e \<noteq> [] \<and> b \<noteq> e \<and> \<not> contains_str b e \<and> \<not> contains_str e b"
  by (auto simp: marker_pair_def res_simps)

lemma legal_policy_mode: "map_of legal_policies ow = Some (ms, mp) \<Longrightarrow> mp = ''exact'' \<or> mp = ''preserve''"
  by (auto simp: legal_policies_def split: if_splits)

lemma validate_target_ok:
  assumes "validate_target raw forbidden = Inr t" and "list_all canonical_path forbidden"
  shows "target_allowed forbidden t \<and> target_wf t"
proof -
  obtain path ow ms mp mode markers u where *: "canonical_path path" "map_of legal_policies ow = Some (ms, mp)"
    "target_mode mp (get raw ''mode'') = Inr mode" "target_markers ow (get raw ''markers'') = Inr markers"
    "assert_artifact_target_allowed path ow forbidden = Inr u"
    "t = \<lparr>at_path = path, at_ownership = ow, at_merge_strategy = ms, at_mode_policy = mp, at_mode = mode, at_markers = markers\<rparr>"
    using assms(1) unfolding validate_target_def
    by (auto simp only: res_simps normalize_path_Inr_iff sum.inject simp_thms pyval.inject)
  have "mode = None \<longleftrightarrow> mp = ''preserve''"
    using *(3) legal_policy_mode [OF *(2)] by (auto simp: target_mode_def res_simps split: if_splits)
  moreover have "markers = None \<longleftrightarrow> ow \<noteq> ''overlay-managed''"
    "\<forall>b e. markers = Some (b, e) \<longrightarrow> b \<noteq> [] \<and> e \<noteq> [] \<and> \<not> contains_str b e \<and> \<not> contains_str e b"
    using *(4) by (auto simp: target_markers_def res_simps split: if_splits)
  ultimately show ?thesis
    using * assert_allowed_iff [OF assms(2)] by (simp add: target_allowed_def target_wf_def)
qed

definition marks_of :: "artifact_target list \<Rightarrow> (string \<times> string) list" where
  "marks_of ts = concat (map (\<lambda>t. case at_markers t of None \<Rightarrow> [] | Some m \<Rightarrow> [m]) ts)"

definition keys_of :: "artifact_target list \<Rightarrow> string list" where
  "keys_of ts = map (\<lambda>t. path_key (at_path t)) ts"

definition seen_targets :: "artifact_target list \<Rightarrow> artifact_seen \<Rightarrow> bool" where
  "seen_targets ts seen = (keys (as_target_paths seen) = keys_of ts \<and> distinct (keys_of ts) \<and>
     map fst (as_marker_pairs seen) = marks_of ts \<and> distinct (marks_of ts))"

lemma update_new_fst: "k \<notin> set (map fst d) \<Longrightarrow> AList.update k v d = d @ [(k, v)]"
  by (induction d) auto

lemma add_target_seen:
  assumes "add_target i seen t = Inr seen'" and "seen_targets ts seen"
  shows "seen_targets (ts @ [t]) seen' \<and> as_ids seen' = as_ids seen"
proof -
  have new: "path_key (at_path t) \<notin> set (keys (as_target_paths seen))"
    using assms(1) by (auto simp: add_target_def res_simps has_key_def keys_def)
  show ?thesis
  proof (cases "at_markers t")
    case None
    then show ?thesis
      using assms new by (auto simp: add_target_def res_simps Let_def seen_targets_def update_new keys_def keys_of_def marks_of_def)
  next
    case (Some m)
    have m: "m \<notin> set (map fst (as_marker_pairs seen))"
      using assms(1) Some by (auto simp: add_target_def res_simps Let_def split: if_splits)
    have "seen' = seen\<lparr>as_target_paths := as_target_paths seen @ [(path_key (at_path t), i)],
        as_marker_pairs := as_marker_pairs seen @ [(m, at_path t)]\<rparr>"
      using assms(1) Some new update_new_fst [OF m] by (auto simp: add_target_def res_simps Let_def update_new split: if_splits)
    then show ?thesis
      using assms(2) new m Some by (auto simp: seen_targets_def keys_def keys_of_def marks_of_def)
  qed
qed

lemma add_targets_seen:
  "foldr_res (add_target i) seen new = Inr seen' \<Longrightarrow> seen_targets ts seen \<Longrightarrow>
     seen_targets (ts @ new) seen' \<and> as_ids seen' = as_ids seen"
proof (induction new arbitrary: ts seen)
  case (Cons t new)
  obtain seen1 where 1: "add_target i seen t = Inr seen1" "foldr_res (add_target i) seen1 new = Inr seen'"
    using Cons.prems(1) by (auto simp: res_simps)
  have 2: "seen_targets (ts @ [t]) seen1 \<and> as_ids seen1 = as_ids seen" by (rule add_target_seen [OF 1(1) Cons.prems(2)])
  with Cons.IH [OF 1(2), of "ts @ [t]"] show ?case by simp
qed simp

definition all_targets :: "artifact_definition list \<Rightarrow> artifact_target list" where
  "all_targets ads = concat (map ad_targets ads)"

definition definitions_inv :: "artifact_definition list \<times> artifact_seen \<Rightarrow> bool" where
  "definitions_inv st = (case st of (verified, seen) \<Rightarrow>
     set (as_ids seen) = set (map ad_definition_id verified) \<and> distinct (map ad_definition_id verified) \<and>
     seen_targets (all_targets verified) seen \<and>
     list_all (\<lambda>a. list_all (\<lambda>t. target_allowed (ad_forbidden_paths a) t \<and> target_wf t) (ad_targets a) \<and>
        list_all canonical_path (ad_forbidden_paths a) \<and> ad_targets a \<noteq> [] \<and>
        sorted (ad_validators a) \<and> distinct (ad_validators a)) verified)"

lemma mapr_normalize_paths: "mapr normalize_path vs = Inr ps \<Longrightarrow> list_all canonical_path ps"
proof (induction vs arbitrary: ps)
  case (Cons v vs)
  then show ?case by (auto simp: res_simps normalize_path_Inr_iff)
qed simp

lemma mapr_targets:
  "mapr (\<lambda>t. bnd (require_mapping t) (\<lambda>d. validate_target d forbidden)) raws = Inr ts \<Longrightarrow> list_all canonical_path forbidden \<Longrightarrow>
     list_all (\<lambda>t. target_allowed forbidden t \<and> target_wf t) ts \<and> length ts = length raws"
proof (induction raws arbitrary: ts)
  case (Cons v vs)
  then show ?case by (auto simp: res_simps dest: validate_target_ok)
qed simp

lemma validate_definition_inv:
  assumes "validate_definition st raw = Inr st'" and "definitions_inv st"
  shows "definitions_inv st'"
proof -
  obtain verified seen where st: "st = (verified, seen)" by (cases st)
  obtain i source fraw forbidden raws targets seen' validators where *: "i \<notin> set (as_ids seen)"
    "mapr normalize_path fraw = Inr forbidden" "raws \<noteq> []"
    "mapr (\<lambda>t. bnd (require_mapping t) (\<lambda>d. validate_target d forbidden)) raws = Inr targets"
    "foldr_res (add_target i) (seen\<lparr>as_ids := i # as_ids seen\<rparr>) targets = Inr seen'" "distinct validators"
    "st' = (verified @ [\<lparr>ad_definition_id = i, ad_source = source, ad_targets = targets, ad_forbidden_paths = forbidden,
        ad_validators = sort validators\<rparr>], seen')"
    using assms(1) unfolding validate_definition_def st prod.case
    by (auto simp only: res_simps sum.inject simp_thms)
  note inv = assms(2) [unfolded st definitions_inv_def prod.case]
  have f: "list_all canonical_path forbidden" by (rule mapr_normalize_paths [OF *(2)])
  have t: "list_all (\<lambda>t. target_allowed forbidden t \<and> target_wf t) targets" "targets \<noteq> []"
    using mapr_targets [OF *(4) f] *(3) by auto
  have "seen_targets (all_targets verified) (seen\<lparr>as_ids := i # as_ids seen\<rparr>)"
    using inv by (simp add: seen_targets_def)
  from add_targets_seen [OF *(5) this]
  have "seen_targets (all_targets verified @ targets) seen'" "as_ids seen' = i # as_ids seen" by simp_all
  then show ?thesis
    using inv *(1,6) f t by (simp add: definitions_inv_def *(7) all_targets_def)
qed

lemma validated_definitions:
  assumes "validate_artifact_definitions defs = Inr ads"
  obtains seen where "definitions_inv (ads, seen)"
proof -
  obtain seen where "foldr_res validate_definition ([], \<lparr>as_ids = [], as_target_paths = [], as_marker_pairs = []\<rparr>) defs = Inr (ads, seen)"
    using assms by (auto simp: validate_artifact_definitions_def res_simps)
  moreover have "definitions_inv ([], \<lparr>as_ids = [], as_target_paths = [], as_marker_pairs = []\<rparr>)"
    by (simp add: definitions_inv_def seen_targets_def all_targets_def keys_of_def marks_of_def keys_def)
  ultimately have "definitions_inv (ads, seen)"
    by (rule foldr_res_inv) (rule validate_definition_inv)
  then show thesis by (rule that)
qed

text \<open>
  C34: Accepted artifact definitions cannot collide and cannot reach a protected path: definition
  identities are unique, no two targets of any definitions have the same path up to case or the same
  markers, and every target is, by path segments and up to case, outside the version control
  directory, the task tree, the specifications, the control plane files and the forbidden paths of
  its definition; \<^verbatim>\<open>.trellis/spec\<close> is only ever seeded, and mode and markers are those its ownership
  class calls for.
\<close>

theorem artifact_targets_separated:
  assumes "validate_artifact_definitions defs = Inr ads"
  shows "distinct (map ad_definition_id ads) \<and> distinct (keys_of (all_targets ads)) \<and> distinct (marks_of (all_targets ads)) \<and>
    list_all (\<lambda>a. list_all (\<lambda>t. target_allowed (ad_forbidden_paths a) t \<and> target_wf t) (ad_targets a)) ads"
proof -
  obtain seen where "definitions_inv (ads, seen)" using assms by (rule validated_definitions)
  then show ?thesis by (simp add: definitions_inv_def seen_targets_def list_all_iff)
qed

section \<open>The regions of a layout\<close>

definition disjoint_paths :: "string \<Rightarrow> string \<Rightarrow> bool" where
  "disjoint_paths p q = (\<not> inside p q \<and> \<not> inside q p)"

lemma paths_overlap_iff: "canonical_path p \<Longrightarrow> canonical_path q \<Longrightarrow> paths_overlap p q \<longleftrightarrow> \<not> disjoint_paths p q"
  by (auto simp: paths_overlap_def disjoint_paths_def same_or_descendant_iff)

lemma some_overlap_iff: "some_overlap ms \<longleftrightarrow>
   (\<exists>i j. i < j \<and> j < length ms \<and> paths_overlap (mc_location (ms ! i)) (mc_location (ms ! j)))"
proof (induction ms)
  case (Cons m ms)
  have "(\<exists>i j. i < j \<and> j < length (m # ms) \<and> paths_overlap (mc_location ((m # ms) ! i)) (mc_location ((m # ms) ! j))) \<longleftrightarrow>
      (\<exists>j. j < length ms \<and> paths_overlap (mc_location m) (mc_location (ms ! j))) \<or>
      (\<exists>i j. i < j \<and> j < length ms \<and> paths_overlap (mc_location (ms ! i)) (mc_location (ms ! j)))" (is "?l \<longleftrightarrow> ?r")
  proof
    assume ?l
    then obtain i j where ij: "i < j" "j < length (m # ms)"
      "paths_overlap (mc_location ((m # ms) ! i)) (mc_location ((m # ms) ! j))" by blast
    then obtain k where "j = Suc k" by (cases j) auto
    with ij show ?r by (cases i) auto
  next
    assume ?r
    then show ?l
    proof
      assume "\<exists>j. j < length ms \<and> paths_overlap (mc_location m) (mc_location (ms ! j))"
      then obtain j where "j < length ms" "paths_overlap (mc_location m) (mc_location (ms ! j))" by blast
      then show ?l by (intro exI [of _ 0] exI [of _ "Suc j"]) simp
    next
      assume "\<exists>i j. i < j \<and> j < length ms \<and> paths_overlap (mc_location (ms ! i)) (mc_location (ms ! j))"
      then obtain i j where "i < j" "j < length ms" "paths_overlap (mc_location (ms ! i)) (mc_location (ms ! j))" by blast
      then show ?l by (intro exI [of _ "Suc i"] exI [of _ "Suc j"]) simp
    qed
  qed
  then show ?case by (simp add: Cons.IH list_ex_length)
qed simp

lemma some_overlap_distinct:
  assumes "distinct (map mc_contract_id ms)"
  shows "some_overlap ms \<longleftrightarrow> (\<exists>m \<in> set ms. \<exists>n \<in> set ms. m \<noteq> n \<and> paths_overlap (mc_location m) (mc_location n))"
proof
  assume "some_overlap ms"
  then obtain i j where ij: "i < j" "j < length ms" "paths_overlap (mc_location (ms ! i)) (mc_location (ms ! j))"
    by (auto simp: some_overlap_iff)
  moreover have "ms ! i \<noteq> ms ! j"
    using ij assms by (metis distinct_map nth_eq_iff_index_eq less_trans nat_neq_iff)
  ultimately show "\<exists>m \<in> set ms. \<exists>n \<in> set ms. m \<noteq> n \<and> paths_overlap (mc_location m) (mc_location n)"
    by (meson nth_mem less_trans)
next
  assume "\<exists>m \<in> set ms. \<exists>n \<in> set ms. m \<noteq> n \<and> paths_overlap (mc_location m) (mc_location n)"
  then obtain i j where ij: "i < length ms" "j < length ms" "i \<noteq> j"
    "paths_overlap (mc_location (ms ! i)) (mc_location (ms ! j))"
    by (metis in_set_conv_nth)
  then show "some_overlap ms"
    unfolding some_overlap_iff paths_overlap_def by (metis nat_neq_iff)
qed

lemma mapr_normalize_strings: "mapr (\<lambda>p. normalize_path (PStr p)) ps = Inr qs \<longleftrightarrow> qs = ps \<and> list_all canonical_path ps"
  by (induction ps arbitrary: qs) (auto simp: res_simps normalize_path_Inr_iff)

lemma fixed_roots: "list_all canonical_path [''.git'', ''.agent-workflow'', ''specs'']"
  by (simp add: canonical_path_def windows_drive_def alias_segment_def ord_def)

lemma location_allowed_iff:
  assumes "canonical_path location" and "canonical_path rn" and "list_all canonical_path (targets @ roots @ [active, archive])"
  shows "metadata_location_allowed location rn active archive targets roots = Inr u \<longleftrightarrow>
    inside location rn \<and> list_all (disjoint_paths location) ([''.git'', ''.agent-workflow'', ''specs''] @ targets @ roots @ [active, archive])"
proof -
  have "list_ex (paths_overlap location) ([''.git'', ''.agent-workflow'', ''specs''] @ targets @ roots @ [active, archive]) \<longleftrightarrow>
      \<not> list_all (disjoint_paths location) ([''.git'', ''.agent-workflow'', ''specs''] @ targets @ roots @ [active, archive])"
    unfolding list_ex_iff list_all_iff
    using assms fixed_roots paths_overlap_iff [OF assms(1)] by (auto simp: list_all_iff)
  then show ?thesis
    using assms(1,2) by (auto simp add: metadata_location_allowed_def res_simps same_or_descendant_iff simp del: list_all_append list_ex_append)
qed

text \<open>What one accepted metadata contract satisfies.\<close>

definition contract_ok :: "string \<Rightarrow> string \<Rightarrow> string \<Rightarrow> string list \<Rightarrow> string list \<Rightarrow> metadata_contract \<Rightarrow> bool" where
  "contract_ok rn active archive targets roots m = (canonical_path (mc_location m) \<and> inside (mc_location m) rn \<and>
     list_all (disjoint_paths (mc_location m)) ([''.git'', ''.agent-workflow'', ''specs''] @ targets @ roots @ [active, archive]))"

lemma normalize_metadata_ok:
  assumes "normalize_metadata_contract rn active archive targets roots raw = Inr m"
    and "canonical_path rn" and "list_all canonical_path (targets @ roots @ [active, archive])"
  shows "contract_ok rn active archive targets roots m"
proof -
  obtain location u where "canonical_path location" "mc_location m = location"
    "metadata_location_allowed location rn active archive targets roots = Inr u"
    using assms(1) unfolding normalize_metadata_contract_def
    by (auto simp: res_simps normalize_path_Inr_iff Let_def)
  then show ?thesis
    using location_allowed_iff [OF _ assms(2,3)] by (simp add: contract_ok_def)
qed

lemma validate_trellis_layoutE:
  assumes "validate_trellis_layout targets roots doc = Inr l"
  obtains ai av rn ac ar disc raws ms tr where
    "same_strs (keys doc) LAYOUT_FIELDS" "stable_token ai" "av \<noteq> []" "canonical_path rn" "canonical_path ac" "canonical_path ar"
    "ac \<noteq> rn" "inside ac rn" "ar \<noteq> ac" "inside ar ac"
    "normalize_task_discovery (get doc ''task_discovery'') = Inr disc"
    "list_all canonical_path targets" "list_all canonical_path roots" "get doc ''metadata_contracts'' = PList raws"
    "mapr (\<lambda>item. bnd (require_mapping item) (normalize_metadata_contract rn ac ar targets roots)) raws = Inr ms"
    "distinct (map mc_contract_id ms)" "\<not> some_overlap ms"
    "normalize_task_transaction (get doc ''task_transaction_discovery'') = Inr tr"
    "plain_digest (PDict (layout_document ai av rn ac ar disc ms tr)) = Inr (tl_layout_digest l)"
    "l = \<lparr>tl_adapter_id = ai, tl_adapter_version = av, tl_runtime_namespace = rn, tl_active_root = ac, tl_archive_root = ar,
       tl_metadata_contracts = sort_key mc_contract_id ms, tl_task_transaction_root = ''.agent-workflow/task-transactions'',
       tl_normalized = layout_document ai av rn ac ar disc ms tr, tl_layout_digest = tl_layout_digest l\<rparr>"
proof -
  obtain ai av rn ac ar disc raws ms tr h where *: "same_strs (keys doc) LAYOUT_FIELDS"
    "require_stable_token (get doc ''adapter_id'') = Inr ai" "av \<noteq> []" "canonical_path rn" "canonical_path ac" "canonical_path ar"
    "ac \<noteq> rn \<and> same_or_descendant ac rn" "ar \<noteq> ac \<and> same_or_descendant ar ac"
    "normalize_task_discovery (get doc ''task_discovery'') = Inr disc"
    "list_all canonical_path targets" "list_all canonical_path roots" "get doc ''metadata_contracts'' = PList raws"
    "mapr (\<lambda>item. bnd (require_mapping item) (normalize_metadata_contract rn ac ar targets roots)) raws = Inr ms"
    "distinct (map mc_contract_id ms)" "\<not> some_overlap ms"
    "normalize_task_transaction (get doc ''task_transaction_discovery'') = Inr tr"
    "plain_digest (PDict (layout_document ai av rn ac ar disc ms tr)) = Inr h"
    "l = \<lparr>tl_adapter_id = ai, tl_adapter_version = av, tl_runtime_namespace = rn, tl_active_root = ac, tl_archive_root = ar,
       tl_metadata_contracts = sort_key mc_contract_id ms, tl_task_transaction_root = ''.agent-workflow/task-transactions'',
       tl_normalized = layout_document ai av rn ac ar disc ms tr, tl_layout_digest = h\<rparr>"
    using assms unfolding validate_trellis_layout_def Let_def
    by (auto simp only: res_simps normalize_path_Inr_iff mapr_normalize_strings sum.inject simp_thms pyval.inject)
  have "stable_token ai" using *(2) by (cases "get doc ''adapter_id''") (auto simp: require_stable_token_def split: if_splits)
  moreover have "inside ac rn" "inside ar ac" using *(4-8) same_or_descendant_iff by blast+
  ultimately show thesis
    using * by (intro that [of ai av rn ac ar disc raws ms tr]) simp_all
qed

lemma mapr_contracts_ok:
  assumes "mapr (\<lambda>item. bnd (require_mapping item) (normalize_metadata_contract rn ac ar targets roots)) raws = Inr ms"
    and "canonical_path rn" and "list_all canonical_path (targets @ roots @ [ac, ar])"
  shows "list_all (contract_ok rn ac ar targets roots) ms"
  using assms(1)
proof (induction raws arbitrary: ms)
  case (Cons v vs)
  then show ?case by (auto simp: res_simps dest: normalize_metadata_ok [OF _ assms(2,3)])
qed simp

text \<open>
  C35: The regions of an accepted layout are separate: the archive lies in the active root and the
  active root in the runtime namespace, up to case, each unequal as written to the root it lies in;
  every metadata location lies in the runtime namespace and
  is, in both directions and up to case, disjoint from the two task partitions, from version
  control, the control plane, the specifications, every artifact target and every source root, and
  the locations of two metadata contracts are disjoint.
\<close>

theorem layout_regions_separated:
  assumes "validate_trellis_layout targets roots doc = Inr l"
  shows "(tl_active_root l \<noteq> tl_runtime_namespace l \<and> inside (tl_active_root l) (tl_runtime_namespace l)) \<and>
    (tl_archive_root l \<noteq> tl_active_root l \<and> inside (tl_archive_root l) (tl_active_root l)) \<and>
    sorted (map mc_contract_id (tl_metadata_contracts l)) \<and> distinct (map mc_contract_id (tl_metadata_contracts l)) \<and>
    list_all (\<lambda>m. inside (mc_location m) (tl_runtime_namespace l) \<and>
      list_all (disjoint_paths (mc_location m)) ([''.git'', ''.agent-workflow'', ''specs''] @ targets @ roots @
        [tl_active_root l, tl_archive_root l])) (tl_metadata_contracts l) \<and>
    (\<forall>m n. m \<in> set (tl_metadata_contracts l) \<longrightarrow> n \<in> set (tl_metadata_contracts l) \<longrightarrow> m \<noteq> n \<longrightarrow>
       disjoint_paths (mc_location m) (mc_location n))"
proof -
  obtain ai av rn ac ar disc raws ms tr where
    c: "canonical_path rn" "canonical_path ac" "canonical_path ar" "inside ac rn" "inside ar ac"
    "list_all canonical_path targets" "list_all canonical_path roots"
    "mapr (\<lambda>item. bnd (require_mapping item) (normalize_metadata_contract rn ac ar targets roots)) raws = Inr ms"
    "distinct (map mc_contract_id ms)" "\<not> some_overlap ms" "ac \<noteq> rn" "ar \<noteq> ac"
    and l: "l = \<lparr>tl_adapter_id = ai, tl_adapter_version = av, tl_runtime_namespace = rn, tl_active_root = ac, tl_archive_root = ar,
       tl_metadata_contracts = sort_key mc_contract_id ms, tl_task_transaction_root = ''.agent-workflow/task-transactions'',
       tl_normalized = layout_document ai av rn ac ar disc ms tr, tl_layout_digest = tl_layout_digest l\<rparr>"
    by (rule validate_trellis_layoutE [OF assms])
  have f: "tl_active_root l = ac" "tl_archive_root l = ar" "tl_runtime_namespace l = rn"
    "tl_metadata_contracts l = sort_key mc_contract_id ms"
    by (subst l, simp)+
  have ok: "list_all (contract_ok rn ac ar targets roots) ms"
    by (rule mapr_contracts_ok [OF c(8)]) (use c in simp_all)
  have "disjoint_paths (mc_location m) (mc_location n)" if "m \<in> set ms" "n \<in> set ms" "m \<noteq> n" for m n
    using c(10) that ok paths_overlap_iff [of "mc_location m" "mc_location n"]
    by (auto simp: some_overlap_distinct [OF c(9)] list_all_iff contract_ok_def)
  moreover have "distinct (map mc_contract_id (sort_key mc_contract_id ms))"
    using c(9) by (metis mset_map mset_sort mset_eq_imp_distinct_iff)
  moreover have "list_all (\<lambda>m. inside (mc_location m) rn \<and>
      list_all (disjoint_paths (mc_location m)) ([''.git'', ''.agent-workflow'', ''specs''] @ targets @ roots @ [ac, ar]))
      (sort_key mc_contract_id ms)"
    using ok by (simp add: list_all_iff contract_ok_def)
  ultimately show ?thesis
    unfolding f using c(4,5,11,12) sorted_sort_key by auto
qed

section \<open>Normalising again\<close>

lemma require_stable_token_Inr_iff [res_simps]: "require_stable_token v = Inr s \<longleftrightarrow> v = PStr s \<and> stable_token s"
  by (cases v) (auto simp: require_stable_token_def)

lemma require_positive_int_Inr_iff [res_simps]: "require_positive_int v = Inr n \<longleftrightarrow> v = PInt n \<and> 1 \<le> n"
  by (cases v) (auto simp: require_positive_int_def)

lemma require_mapping_Inr_iff [res_simps]: "require_mapping v = Inr d \<longleftrightarrow> v = PDict d"
  by (simp add: require_mapping_def res_simps)

lemma positive_ints_iff: "positive_ints xs \<longleftrightarrow> xs = map PInt (ints_of xs) \<and> list_all (\<lambda>n. 1 \<le> n) (ints_of xs)"
proof (induction xs)
  case (Cons x xs)
  then show ?case by (cases x) (auto simp: positive_ints_def)
qed (simp add: positive_ints_def)

lemma ints_of_map [simp]: "ints_of (map PInt ns) = ns"
  by (induction ns) auto

lemma integer_versions_Inr_iff:
  "integer_versions v = Inr ns \<longleftrightarrow> (\<exists>xs. v = PList (map PInt xs) \<and> xs \<noteq> [] \<and> list_all (\<lambda>n. 1 \<le> n) xs \<and> distinct xs \<and> ns = sort xs)"
proof (cases v)
  case (PList ys)
  have "sorted_set (ints_of ys) = sort (ints_of ys) \<longleftrightarrow> distinct (ints_of ys)"
    by (metis sorted_set_def distinct_remdups_id distinct_sorted_set distinct_sort)
  moreover have "length (ints_of ys) = length ys" if "positive_ints ys"
    using that by (metis length_map positive_ints_iff)
  ultimately show ?thesis
    using PList length_sorted_set_distinct [of "ints_of ys"]
    by (auto simp: integer_versions_def Let_def positive_ints_iff)
qed (auto simp: integer_versions_def)

lemma integer_versions_again: "integer_versions v = Inr ns \<Longrightarrow> integer_versions (PList (map PInt ns)) = Inr ns"
  proof -
  assume "integer_versions v = Inr ns"
  then obtain xs where xs: "xs \<noteq> []" "list_all (\<lambda>n. 1 \<le> n) xs" "distinct xs" "ns = sort xs"
    by (auto simp: integer_versions_Inr_iff)
  have "ns \<noteq> []" using xs(1,4) by (metis set_empty set_sort)
  moreover have "list_all (\<lambda>n. 1 \<le> n) ns" "distinct ns" "ns = sort ns"
    using xs by (simp_all add: list_all_iff sorted_sort_id)
  ultimately show ?thesis unfolding integer_versions_Inr_iff by blast
qed

lemma json_pointer_str: "json_pointer v \<Longrightarrow> is_pystr v"
  by (cases v) (simp_all add: json_pointer_def)

lemma json_pointers_again: "json_pointers v = Inr ps \<Longrightarrow> json_pointers (PList (map PStr ps)) = Inr ps"
proof -
  assume v: "json_pointers v = Inr ps"
  then obtain xs where xs: "v = PList xs" "list_all json_pointer xs" "normalize_string_set xs = Inr ps"
    by (auto simp: json_pointers_def split: pyval.splits if_splits)
  have "xs = map PStr (strs_of xs)"
  proof -
    have "list_all is_pystr xs" using xs(2) json_pointer_str by (auto simp: list_all_iff)
    then show ?thesis by (simp add: map_strs_of)
  qed
  then obtain ss where ss: "xs = map PStr ss" by blast
  have ps: "ps = sort (remdups ss)"
    using xs(3) by (simp add: ss sorted_set_def)
  have "list_all json_pointer (map PStr ps)"
    using xs(2) by (simp add: ss ps list_all_iff)
  moreover have "normalize_string_set (map PStr ps) = Inr ps"
    by (simp add: ps sorted_set_def sorted_sort_id distinct_remdups_id)
  ultimately show ?thesis by (simp add: json_pointers_def)
qed

lemma string_set_again:
  assumes "normalize_string_set xs = Inr ss" and "list_all is_pystr xs" and "xs \<noteq> []"
  shows "normalize_string_set (map PStr ss) = Inr ss" and "ss \<noteq> []"
proof -
  have "xs = map PStr (strs_of xs)" using assms(2) by (simp add: map_strs_of)
  then obtain ts where ts: "xs = map PStr ts" by blast
  have ss: "ss = sort (remdups ts)" using assms(1) by (simp add: ts sorted_set_def)
  then show "normalize_string_set (map PStr ss) = Inr ss"
    by (simp add: ss sorted_set_def sorted_sort_id distinct_remdups_id)
  show "ss \<noteq> []" using assms(3) unfolding ss ts
    by (metis list.map_disc_iff remdups_eq_nil_iff set_empty set_sort)
qed

text \<open>Task segments.\<close>

definition task_segment :: "string \<Rightarrow> bool" where
  "task_segment s = (1 \<le> length (utf8_encode s) \<and> length (utf8_encode s) \<le> 128 \<and> s \<noteq> ''.'' \<and> s \<noteq> ''..'' \<and>
     chr_slash \<notin> set s \<and> chr_backslash \<notin> set s \<and> chr_nul \<notin> set s \<and> s = strip s \<and> \<not> ends_with ''.'' s \<and>
     list_all (\<lambda>c. \<not> (ord c < 0x20 \<or> (0x7F \<le> ord c \<and> ord c \<le> 0x9F))) s)"

lemma validate_task_segment_Inr_iff [res_simps]: "validate_task_segment s = Inr t \<longleftrightarrow> t = s \<and> task_segment s"
  by (auto simp: validate_task_segment_def task_segment_def res_simps)

lemma mapr_segments: "mapr validate_task_segment ss = Inr ts \<longleftrightarrow> ts = ss \<and> list_all task_segment ss"
  by (induction ss arbitrary: ts) (auto simp: res_simps)

lemma sort_key_again: "sort_key f (sort_key f xs) = sort_key f xs"
  by (simp add: sort_key_id_if_sorted)

lemma distinct_map_sort: "distinct (map f (sort_key g xs)) \<longleftrightarrow> distinct (map f xs)"
  by (metis mset_map mset_sort mset_eq_imp_distinct_iff)

lemma length_remdups_distinct: "length xs = length (remdups xs) \<longleftrightarrow> distinct xs"
  by (metis distinct_card distinct_remdups length_remdups_card_conv card_distinct)

lemma same_strs_fields: "map fst d = fs \<Longrightarrow> same_strs (keys d) fs"
  by (simp add: same_strs_iff keys_def)

lemma task_discovery_again:
  assumes "normalize_task_discovery v = Inr disc"
  shows "normalize_task_discovery (PDict disc) = Inr disc"
proof -
  obtain d ip sid vs xs segs mt mr mi where *: "chr_slash \<notin> set ip" "task_segment ip" "stable_token sid"
    "integer_versions (get d ''integration_schema_versions'') = Inr vs" "mapr validate_task_segment xs = Inr segs"
    "length segs = length (remdups (map casefold segs))" "1 \<le> mt" "1 \<le> mr" "1 \<le> mi"
    and disc: "disc = [(''hierarchy'', PStr ''one-segment''), (''segment_grammar_id'', PStr ''safe-nfc-segment-v1''),
       (''integration_relative_path'', PStr ip), (''integration_schema_id'', PStr sid),
       (''integration_schema_versions'', PList (map PInt vs)), (''unknown_root_entry_policy'', PStr ''block''),
       (''allowed_non_task_entries'', PList (map PStr (sort_key casefold_key segs))),
       (''max_scan_depth'', PInt 1), (''max_tasks'', PInt mt), (''max_root_entries'', PInt mr), (''max_integration_bytes'', PInt mi)]"
    using assms unfolding normalize_task_discovery_def
    by (auto simp only: res_simps sum.inject simp_thms pyval.inject) 
  have segs: "list_all task_segment (sort_key casefold_key segs)"
    using *(5) by (simp add: mapr_segments list_all_iff)
  have "distinct (map casefold (sort_key casefold_key segs))"
    using *(6) length_remdups_distinct [of "map casefold segs"] by (simp add: distinct_map_sort)
  then have len: "length (sort_key casefold_key segs) = length (remdups (map casefold (sort_key casefold_key segs)))"
    by (simp add: distinct_remdups_id)
  have fields: "same_strs (keys disc) TASK_DISCOVERY_FIELDS"
    by (rule same_strs_fields) (simp add: disc TASK_DISCOVERY_FIELDS_def)
  have get: "get disc ''hierarchy'' = PStr ''one-segment''" "get disc ''segment_grammar_id'' = PStr ''safe-nfc-segment-v1''"
    "get disc ''integration_relative_path'' = PStr ip" "get disc ''integration_schema_id'' = PStr sid"
    "get disc ''integration_schema_versions'' = PList (map PInt vs)" "get disc ''unknown_root_entry_policy'' = PStr ''block''"
    "get disc ''allowed_non_task_entries'' = PList (map PStr (sort_key casefold_key segs))"
    "get disc ''max_scan_depth'' = PInt 1" "get disc ''max_tasks'' = PInt mt" "get disc ''max_root_entries'' = PInt mr"
    "get disc ''max_integration_bytes'' = PInt mi"
    by (simp_all add: get_def disc)
  have checks: "require_mapping (PDict disc) = Inr disc" "require_stable_token (PStr sid) = Inr sid"
    "integer_versions (PList (map PInt vs)) = Inr vs" "validate_task_segment ip = Inr ip"
    "mapr validate_task_segment (sort_key casefold_key segs) = Inr (sort_key casefold_key segs)"
    "require_positive_int (PInt mt) = Inr mt" "require_positive_int (PInt mr) = Inr mr" "require_positive_int (PInt mi) = Inr mi"
    using * segs integer_versions_again [OF *(4)] by (simp_all add: res_simps mapr_segments)
  show ?thesis
    unfolding normalize_task_discovery_def checks(1) bnd.simps get
    by (simp add: checks fields len [unfolded length_sort] require_def as_str_def as_array_def *(1) list_all_iff sort_key_again disc [symmetric])
qed

lemma task_transaction_again:
  assumes "normalize_task_transaction v = Inr tr"
  shows "normalize_task_transaction (PDict tr) = Inr tr"
proof -
  obtain t root si vs pc pv refs phases terminal mj mb where *: "root = ''.agent-workflow/task-transactions''" "canonical_path root"
    "stable_token si" "integer_versions (get t ''schema_versions'') = Inr vs" "stable_token pc" "1 \<le> pv"
    "json_pointers (get t ''task_ref_fields'') = Inr refs" "phases \<noteq> [] \<and> list_all is_pystr phases"
    "normalize_string_set phases = Inr terminal" "1 \<le> mj" "1 \<le> mb"
    and tr: "tr = [(''root'', PStr root), (''filename_grammar_id'', PStr ''uuid-json-v1''), (''schema_id'', PStr si),
       (''schema_versions'', PList (map PInt vs)), (''phase_classifier_id'', PStr pc),
       (''phase_classifier_version'', PInt pv), (''task_id_field'', PStr ''/task_id''),
       (''task_ref_fields'', PList (map PStr refs)), (''terminal_phases'', PList (map PStr terminal)),
       (''max_journals'', PInt mj), (''max_journal_bytes'', PInt mb)]"
    using assms unfolding normalize_task_transaction_def
    by (auto simp only: res_simps normalize_path_Inr_iff sum.inject simp_thms pyval.inject)
  have fields: "same_strs (keys tr) TASK_TRANSACTION_FIELDS"
    by (rule same_strs_fields) (simp add: tr TASK_TRANSACTION_FIELDS_def)
  have get: "get tr ''root'' = PStr root" "get tr ''filename_grammar_id'' = PStr ''uuid-json-v1''" "get tr ''schema_id'' = PStr si"
    "get tr ''schema_versions'' = PList (map PInt vs)" "get tr ''phase_classifier_id'' = PStr pc"
    "get tr ''phase_classifier_version'' = PInt pv" "get tr ''task_id_field'' = PStr ''/task_id''"
    "get tr ''task_ref_fields'' = PList (map PStr refs)" "get tr ''terminal_phases'' = PList (map PStr terminal)"
    "get tr ''max_journals'' = PInt mj" "get tr ''max_journal_bytes'' = PInt mb"
    by (simp_all add: get_def tr)
  have phases: "list_all is_pystr phases" "phases \<noteq> []" using *(8) by simp_all
  note terminal = string_set_again [OF *(9) phases]
  have checks: "require_mapping (PDict tr) = Inr tr" "normalize_path (PStr root) = Inr root" "require_stable_token (PStr si) = Inr si"
    "integer_versions (PList (map PInt vs)) = Inr vs" "require_stable_token (PStr pc) = Inr pc" "require_positive_int (PInt pv) = Inr pv"
    "json_pointers (PList (map PStr refs)) = Inr refs" "require_positive_int (PInt mj) = Inr mj" "require_positive_int (PInt mb) = Inr mb"
    using * integer_versions_again [OF *(4)] json_pointers_again [OF *(7)] by (simp_all add: res_simps normalize_path_Inr_iff)
  have "list_all is_pystr (map PStr terminal)" by (simp add: list_all_iff)
  then show ?thesis
    unfolding normalize_task_transaction_def checks(1) bnd.simps get
    by (simp add: checks fields terminal require_def as_str_def as_array_def *(1)[symmetric] tr [symmetric] del: normalize_string_set_strs)
qed

lemma update_same: "map_of d k = Some v \<Longrightarrow> AList.update k v d = d"
  by (induction d) auto

lemma map_of_update_all: "map_of (update_all d ps) k = (case map_of (rev ps) k of None \<Rightarrow> map_of d k | Some v \<Rightarrow> Some v)"
proof (induction ps arbitrary: d)
  case (Cons p ps)
  then show ?case
    by (cases p) (auto simp: update_all_def map_of_update map_add_def split: option.splits)
qed (simp add: update_all_def)

lemma update_all_same:
  assumes "\<And>k v. (k, v) \<in> set ps \<Longrightarrow> map_of d k = Some v"
  shows "update_all d ps = d"
  using assms
proof (induction ps)
  case (Cons p ps)
  obtain k v where p: "p = (k, v)" by (cases p)
  have "AList.update k v d = d" using Cons.prems [of k v] p by (intro update_same) simp
  with Cons show ?case by (simp add: update_all_def p)
qed (simp add: update_all_def)

lemma keys_update_all: "set (keys (update_all d ps)) = set (keys d) \<union> set (map fst ps)"
proof (induction ps arbitrary: d)
  case (Cons p ps)
  then show ?case by (cases p) (auto simp: update_all_def keys_update)
qed (simp add: update_all_def)

text \<open>The fields a metadata contract normalises, by name.\<close>

definition NORMAL_FIELDS :: "string list" where
  "NORMAL_FIELDS = [''schema_id'', ''schema_versions'', ''parser_id'', ''parser_version'', ''classifier_id'', ''classifier_version'',
     ''semantic_role'', ''task_ref_fields'', ''max_bytes'', ''canonical_empty_state_id'']"

lemma metadata_fields_names: "metadata_fields_normal raw = Inr normal \<Longrightarrow> map fst normal = NORMAL_FIELDS"
  by (auto simp: metadata_fields_normal_def res_simps NORMAL_FIELDS_def)

lemma metadata_fields_again:
  assumes "metadata_fields_normal raw = Inr normal" and "\<And>k. get d k = (case map_of normal k of None \<Rightarrow> get raw k | Some v \<Rightarrow> v)"
  shows "metadata_fields_normal d = Inr normal"
proof -
  obtain si sv pi pv ci cv sr tr mb ce where *: "stable_token si" "integer_versions (get raw ''schema_versions'') = Inr sv"
    "stable_token pi" "1 \<le> pv" "stable_token ci" "1 \<le> cv" "stable_token sr"
    "json_pointers (get raw ''task_ref_fields'') = Inr tr" "1 \<le> mb" "is_pybool (get raw ''absence_is_empty'')" "stable_token ce"
    and n: "normal = [(''schema_id'', PStr si), (''schema_versions'', PList (map PInt sv)),
       (''parser_id'', PStr pi), (''parser_version'', PInt pv), (''classifier_id'', PStr ci), (''classifier_version'', PInt cv),
       (''semantic_role'', PStr sr), (''task_ref_fields'', PList (map PStr tr)),
       (''max_bytes'', PInt mb), (''canonical_empty_state_id'', PStr ce)]"
    using assms(1) unfolding metadata_fields_normal_def
    by (auto simp only: res_simps sum.inject simp_thms pyval.inject)
  have get: "get d ''schema_id'' = PStr si" "get d ''schema_versions'' = PList (map PInt sv)" "get d ''parser_id'' = PStr pi"
    "get d ''parser_version'' = PInt pv" "get d ''classifier_id'' = PStr ci" "get d ''classifier_version'' = PInt cv"
    "get d ''semantic_role'' = PStr sr" "get d ''task_ref_fields'' = PList (map PStr tr)" "get d ''max_bytes'' = PInt mb"
    "get d ''absence_is_empty'' = get raw ''absence_is_empty''" "get d ''canonical_empty_state_id'' = PStr ce"
    by (simp_all add: assms(2) n)
  have checks: "require_stable_token (PStr si) = Inr si" "integer_versions (PList (map PInt sv)) = Inr sv"
    "require_stable_token (PStr pi) = Inr pi" "require_positive_int (PInt pv) = Inr pv" "require_stable_token (PStr ci) = Inr ci"
    "require_positive_int (PInt cv) = Inr cv" "require_stable_token (PStr sr) = Inr sr"
    "json_pointers (PList (map PStr tr)) = Inr tr" "require_positive_int (PInt mb) = Inr mb" "require_stable_token (PStr ce) = Inr ce"
    using * integer_versions_again [OF *(2)] json_pointers_again [OF *(8)] by (simp_all add: res_simps)
  show ?thesis
    unfolding metadata_fields_normal_def get by (simp add: checks *(10) require_def n)
qed

lemma metadata_contract_again:
  assumes "normalize_metadata_contract rn ac ar targets roots raw = Inr m"
  shows "normalize_metadata_contract rn ac ar targets roots (mc_normalized m) = Inr m"
proof -
  define lf where "lf = (if get raw ''kind'' = PStr ''exact'' then ''path'' else ''root'')"
  define ef where "ef = (if get raw ''kind'' = PStr ''exact'' then METADATA_EXACT_FIELDS else METADATA_BOUNDED_FIELDS)"
  obtain kind cid loc normal u where *: "get raw ''kind'' = PStr kind" "kind \<in> {''exact'', ''bounded''}" "same_strs (keys raw) ef"
    "get raw ''contract_id'' = PStr cid" "stable_token cid" "get raw lf = PStr loc" "canonical_path loc"
    "metadata_location_allowed loc rn ac ar targets roots = Inr u"
    "(if get raw ''kind'' = PStr ''bounded'' then check_bounded raw else Inr ()) = Inr ()"
    "metadata_fields_normal raw = Inr normal"
    and m: "m = \<lparr>mc_kind = kind, mc_contract_id = cid, mc_location = loc,
        mc_normalized = update_all (AList.update lf (PStr loc) raw) normal\<rparr>"
    using assms unfolding normalize_metadata_contract_def Let_def lf_def [symmetric] ef_def [symmetric]
    by (auto simp: res_simps normalize_path_Inr_iff)
  have "map_of raw lf = Some (PStr loc)" using *(6) by (auto simp: get_def split: option.splits)
  then have upd: "AList.update lf (PStr loc) raw = raw" by (rule update_same)
  define d where "d = update_all raw normal"
  have names: "map fst normal = NORMAL_FIELDS" by (rule metadata_fields_names [OF *(10)])
  then have "distinct (map fst normal)" by (simp add: NORMAL_FIELDS_def)
  then have map_d: "map_of d k = (case map_of normal k of None \<Rightarrow> map_of raw k | Some v \<Rightarrow> Some v)" for k
    by (simp add: d_def map_of_update_all map_of_rev_distinct)
  then have get_d: "get d k = (case map_of normal k of None \<Rightarrow> get raw k | Some v \<Rightarrow> v)" for k
    by (simp add: get_def split: option.splits)
  have other: "get d k = get raw k" if "k \<notin> set NORMAL_FIELDS" for k
  proof -
    have "map_of normal k = None" using that names by (metis map_of_eq_None_iff set_map)
    then show ?thesis by (simp add: get_d)
  qed
  have plain: "get d ''kind'' = get raw ''kind''" "get d ''contract_id'' = get raw ''contract_id''" "get d lf = get raw lf"
    "get d ''segment_grammar_id'' = get raw ''segment_grammar_id''" "get d ''max_depth'' = get raw ''max_depth''"
    "get d ''max_matches'' = get raw ''max_matches''"
    by (rule other; simp add: NORMAL_FIELDS_def lf_def)+
  have "set NORMAL_FIELDS \<subseteq> set ef"
    by (simp add: NORMAL_FIELDS_def ef_def METADATA_EXACT_FIELDS_def METADATA_BOUNDED_FIELDS_def METADATA_COMMON_FIELDS_def)
  then have fields: "same_strs (keys d) ef"
    using *(3) names by (auto simp: same_strs_iff d_def keys_update_all simp del: set_map)
  have normal: "metadata_fields_normal d = Inr normal" by (rule metadata_fields_again [OF *(10) get_d])
  have "update_all d normal = d"
  proof (rule update_all_same)
    fix k v assume "(k, v) \<in> set normal"
    then have "map_of normal k = Some v" using \<open>distinct (map fst normal)\<close> by simp
    then show "map_of d k = Some v" by (simp add: map_d)
  qed
  moreover have "AList.update lf (PStr loc) d = d"
  proof (rule update_same)
    have "get d lf = PStr loc" by (simp add: plain *(6))
    then show "map_of d lf = Some (PStr loc)" by (auto simp: get_def split: option.splits)
  qed
  moreover have "check_bounded d = check_bounded raw" by (simp add: check_bounded_def plain)
  moreover have "mc_normalized m = d" by (simp add: m upd d_def)
  moreover have "normalize_path (PStr loc) = Inr loc" "require_stable_token (PStr cid) = Inr cid"
    using *(5,7) by (simp_all add: normalize_path_Inr_iff res_simps)
  moreover have "in_strs (PStr kind) [''exact'', ''bounded''] = Inr True" using *(2) by auto
  moreover have "m = \<lparr>mc_kind = kind, mc_contract_id = cid, mc_location = loc, mc_normalized = d\<rparr>"
    by (simp add: m upd d_def)
  ultimately show ?thesis
    unfolding normalize_metadata_contract_def Let_def \<open>mc_normalized m = d\<close> plain(1) lf_def [symmetric] ef_def [symmetric]
    using *(8,9) fields normal
    by (simp add: plain *(1,4,6) as_str_def require_def split: if_splits del: in_strs.simps)
qed


lemma mapr_contracts_again:
  "mapr (\<lambda>item. bnd (require_mapping item) (normalize_metadata_contract rn ac ar targets roots)) raws = Inr ms \<Longrightarrow>
     set ns \<subseteq> set ms \<Longrightarrow>
     mapr (\<lambda>item. bnd (require_mapping item) (normalize_metadata_contract rn ac ar targets roots))
       (map (PDict o mc_normalized) ns) = Inr ns"
proof (induction ns)
  case (Cons n ns)
  from Cons.prems(1) have "\<exists>raw. normalize_metadata_contract rn ac ar targets roots raw = Inr n" if "n \<in> set ms"
    using that
  proof (induction raws arbitrary: ms)
    case (Cons r raws)
    then show ?case by (auto simp: res_simps)
  qed simp
  then have "normalize_metadata_contract rn ac ar targets roots (mc_normalized n) = Inr n"
    using Cons.prems(2) metadata_contract_again by fastforce
  with Cons show ?case by (simp add: require_mapping_def as_mapping_def)
qed simp

lemma some_overlap_sort:
  assumes "distinct (map mc_contract_id ms)"
  shows "some_overlap (sort_key mc_contract_id ms) \<longleftrightarrow> some_overlap ms"
proof -
  have "distinct (map mc_contract_id (sort_key mc_contract_id ms))" using assms by (simp add: distinct_map_sort)
  then show ?thesis by (simp add: some_overlap_distinct assms)
qed

text \<open>
  Validation of a layout is a normal form: the normalised document of an accepted layout is
  accepted again, with the same result, so that its digest does not depend on the order of the
  versions, entries, pointers and contracts in the document it came from.
\<close>

theorem layout_normal_form:
  assumes "validate_trellis_layout targets roots doc = Inr l"
  shows "validate_trellis_layout targets roots (tl_normalized l) = Inr l"
proof -
  obtain ai av rn ac ar disc raws ms tr where
    c: "stable_token ai" "av \<noteq> []" "canonical_path rn" "canonical_path ac" "canonical_path ar" "ac \<noteq> rn" "inside ac rn" "ar \<noteq> ac"
    "inside ar ac" "normalize_task_discovery (get doc ''task_discovery'') = Inr disc"
    "list_all canonical_path targets" "list_all canonical_path roots"
    "mapr (\<lambda>item. bnd (require_mapping item) (normalize_metadata_contract rn ac ar targets roots)) raws = Inr ms"
    "distinct (map mc_contract_id ms)" "\<not> some_overlap ms"
    "normalize_task_transaction (get doc ''task_transaction_discovery'') = Inr tr"
    "plain_digest (PDict (layout_document ai av rn ac ar disc ms tr)) = Inr (tl_layout_digest l)"
    and l: "l = \<lparr>tl_adapter_id = ai, tl_adapter_version = av, tl_runtime_namespace = rn, tl_active_root = ac, tl_archive_root = ar,
       tl_metadata_contracts = sort_key mc_contract_id ms, tl_task_transaction_root = ''.agent-workflow/task-transactions'',
       tl_normalized = layout_document ai av rn ac ar disc ms tr, tl_layout_digest = tl_layout_digest l\<rparr>"
    by (rule validate_trellis_layoutE [OF assms])
  define d where "d = layout_document ai av rn ac ar disc ms tr"
  let ?ms = "sort_key mc_contract_id ms"
  have norm: "tl_normalized l = d" by (subst l) (simp add: d_def)
  have fields: "same_strs (keys d) LAYOUT_FIELDS"
    by (rule same_strs_fields) (simp add: d_def layout_document_def LAYOUT_FIELDS_def)
  have get: "get d ''schema_id'' = PStr ''agent-workflow.trellis-task-layout''" "get d ''schema_version'' = PInt 1"
    "get d ''adapter_id'' = PStr ai" "get d ''adapter_version'' = PStr av" "get d ''runtime_namespace'' = PStr rn"
    "get d ''active_root'' = PStr ac" "get d ''archive_root'' = PStr ar" "get d ''task_discovery'' = PDict disc"
    "get d ''metadata_contracts'' = PList (map (PDict o mc_normalized) ?ms)" "get d ''task_transaction_discovery'' = PDict tr"
    by (simp_all add: get_def d_def layout_document_def)
  have contracts: "mapr (\<lambda>item. bnd (require_mapping item) (normalize_metadata_contract rn ac ar targets roots))
      (map (PDict o mc_normalized) ?ms) = Inr ?ms"
    by (rule mapr_contracts_again [OF c(13)]) simp
  have paths: "normalize_path (PStr rn) = Inr rn" "normalize_path (PStr ac) = Inr ac" "normalize_path (PStr ar) = Inr ar"
    "mapr (\<lambda>p. normalize_path (PStr p)) targets = Inr targets" "mapr (\<lambda>p. normalize_path (PStr p)) roots = Inr roots"
    "same_or_descendant ac rn" "same_or_descendant ar ac"
    using c by (simp_all add: normalize_path_Inr_iff mapr_normalize_strings same_or_descendant_iff)
  have doc: "layout_document ai av rn ac ar disc ?ms tr = d"
    by (simp add: d_def layout_document_def sort_key_again)
  have "require_stable_token (PStr ai) = Inr ai" using c(1) by (simp add: res_simps)
  then have "validate_trellis_layout targets roots d = Inr
      \<lparr>tl_adapter_id = ai, tl_adapter_version = av, tl_runtime_namespace = rn, tl_active_root = ac, tl_archive_root = ar,
       tl_metadata_contracts = ?ms, tl_task_transaction_root = ''.agent-workflow/task-transactions'',
       tl_normalized = d, tl_layout_digest = tl_layout_digest l\<rparr>"
    unfolding validate_trellis_layout_def Let_def get
    by (simp add: fields require_def as_string_def as_str_def as_array_def paths c(2,6,8) task_discovery_again [OF c(10)]
        task_transaction_again [OF c(16)] contracts distinct_map_sort c(14,15) some_overlap_sort sort_key_again
        doc c(17) [folded d_def])
  then show ?thesis using l unfolding norm d_def by simp
qed

text \<open>
  A task segment appended to a repository path names a child of exactly one level: the result is
  a normalised path again, and it has one segment more than the root.
\<close>

theorem task_ref_one_level:
  assumes "validate_task_segment s = Inr t" and "normalize_path v = Inr root"
  shows "normalize_path (PStr (root @ chr_slash # t)) = Inr (root @ chr_slash # t) \<and>
    split_on chr_slash (root @ chr_slash # t) = split_on chr_slash root @ [t]"
proof -
  have t: "task_segment t" using assms(1) by (simp add: res_simps)
  then have "t \<noteq> []" by (auto simp: task_segment_def utf8_encode_def)
  have root: "canonical_path root" using assms(2) by (simp add: normalize_path_Inr_iff)
  have seg: "split_on chr_slash t = [t]" using t by (simp add: task_segment_def split_on_single)
  then have split: "split_on chr_slash (root @ chr_slash # t) = split_on chr_slash root @ [t]"
    by (simp add: split_on_append_sep)
  have "windows_drive (root @ chr_slash # t) = windows_drive root" if "root \<noteq> []"
  proof (cases root)
    case (Cons a as)
    then show ?thesis by (cases as) (auto simp: windows_drive_def)
  qed (simp add: that)
  moreover have "list_all (\<lambda>c. c \<noteq> chr_backslash \<and> 0x20 \<le> ord c \<and> ord c \<noteq> 0x7F) t"
    using t by (fastforce simp: task_segment_def list_all_iff)
  ultimately have "canonical_path (root @ chr_slash # t)"
    using root t \<open>t \<noteq> []\<close> split unfolding canonical_path_def by (simp add: task_segment_def ord_def)
  with split show ?thesis by (simp add: normalize_path_Inr_iff)
qed

section \<open>Instances\<close>

lemma sample_paths: "list_all canonical_path [''.trellis'', ''.trellis/x'', ''.trellis/tasks'', ''.trellis/tasks/archive'', ''.trellis/index.json'', ''src'',
    ''.agent-workflow/task-transactions'', ''overlays/workflow.md'', ''.trellis/workflow.md'', ''AGENTS.md'']"
  by (simp add: canonical_path_def windows_drive_def alias_segment_def ord_def)

lemma sample_tokens: "list_all stable_token [''trellis'', ''index'', ''s'', ''p'', ''c'', ''role'', ''empty'', ''flow'']"
  by (simp add: stable_token_def is_lower_def is_digit_def)

definition sample_target :: dict where
  "sample_target = [(''path'', PStr ''.trellis/workflow.md''), (''ownership'', PStr ''overlay-managed''),
     (''merge_strategy'', PStr ''marked-block''), (''mode_policy'', PStr ''preserve''),
     (''markers'', PDict [(''begin'', PStr ''<b>''), (''end'', PStr ''<e>'')])]"

definition sample_definition :: dict where
  "sample_definition = [(''schema_id'', PStr ''agent-workflow.artifact-definition''), (''schema_version'', PInt 1),
     (''id'', PStr ''flow''), (''source'', PStr ''overlays/workflow.md''), (''targets'', PList [PDict sample_target])]"

lemma sample_target_allowed: "assert_artifact_target_allowed ''.trellis/workflow.md'' ''overlay-managed'' [] = Inr ()"
proof -
  have "list_all (\<lambda>r. \<not> inside ''.trellis/workflow.md'' r) (GLOBAL_ROOTS @ CONTROL_PATHS @ [])"
    "\<not> inside ''.trellis/workflow.md'' ''.trellis/spec''"
    by (simp_all add: inside_def folded_segments_def casefold_char_def ord_def GLOBAL_ROOTS_def CONTROL_PATHS_def)
  then show ?thesis by (simp add: assert_allowed_iff del: list_all_append)
qed

lemma sample_target_ok: "validate_target sample_target [] = Inr \<lparr>at_path = ''.trellis/workflow.md'', at_ownership = ''overlay-managed'',
    at_merge_strategy = ''marked-block'', at_mode_policy = ''preserve'', at_mode = None, at_markers = Some (''<b>'', ''<e>'')\<rparr>"
proof -
  have path: "normalize_path (PStr ''.trellis/workflow.md'') = Inr ''.trellis/workflow.md''"
    using sample_paths by (simp add: normalize_path_Inr_iff)
  have marks: "target_markers ''overlay-managed'' (PDict [(''begin'', PStr ''<b>''), (''end'', PStr ''<e>'')]) = Inr (Some (''<b>'', ''<e>''))"
    by (simp add: target_markers_def require_mapping_def as_mapping_def marker_pair_def same_strs_def subset_strs_def keys_def
        get_def as_string_def require_def starts_with_def)
  show ?thesis
    by (simp add: validate_target_def sample_target_def get_def keys_def subset_strs_def TARGET_FIELDS_def require_def as_str_def path
        legal_policies_def target_mode_def marks sample_target_allowed)
qed

theorem artifact_targets_separated_witness:
  "\<exists>ads. validate_artifact_definitions [sample_definition] = Inr ads \<and> length (all_targets ads) = 1 \<and>
     list_all (target_allowed []) (all_targets ads)"
proof -
  have token: "require_stable_token (PStr ''flow'') = Inr ''flow''" using sample_tokens by (simp add: res_simps)
  have source: "normalize_path (PStr ''overlays/workflow.md'') = Inr ''overlays/workflow.md''"
    using sample_paths by (simp add: normalize_path_Inr_iff)
  have "\<exists>a. validate_artifact_definitions [sample_definition] = Inr [a] \<and> length (ad_targets a) = 1 \<and> ad_forbidden_paths a = []"
    by (simp add: validate_artifact_definitions_def validate_definition_def sample_definition_def get_def get_or_def keys_def
        subset_strs_def DEFINITION_FIELDS_def require_def token source as_str_def as_array_def require_mapping_def as_mapping_def
        sample_target_ok add_target_def has_key_def Let_def)
  then obtain a where a: "validate_artifact_definitions [sample_definition] = Inr [a]" "length (ad_targets a) = 1" "ad_forbidden_paths a = []"
    by blast
  from artifact_targets_separated [OF a(1)] a(2,3) show ?thesis
    by (intro exI [of _ "[a]"]) (simp add: a(1) all_targets_def list_all_iff)
qed

definition sample_discovery :: dict where
  "sample_discovery = [(''hierarchy'', PStr ''one-segment''), (''segment_grammar_id'', PStr ''safe-nfc-segment-v1''),
     (''integration_relative_path'', PStr ''i''), (''integration_schema_id'', PStr ''s''),
     (''integration_schema_versions'', PList [PInt 1]), (''unknown_root_entry_policy'', PStr ''block''),
     (''allowed_non_task_entries'', PList []), (''max_scan_depth'', PInt 1), (''max_tasks'', PInt 9), (''max_root_entries'', PInt 9),
     (''max_integration_bytes'', PInt 9)]"

definition sample_transaction :: dict where
  "sample_transaction = [(''root'', PStr ''.agent-workflow/task-transactions''), (''filename_grammar_id'', PStr ''uuid-json-v1''),
     (''schema_id'', PStr ''s''), (''schema_versions'', PList [PInt 1]), (''phase_classifier_id'', PStr ''p''),
     (''phase_classifier_version'', PInt 1), (''task_id_field'', PStr ''/task_id''), (''task_ref_fields'', PList []),
     (''terminal_phases'', PList [PStr ''complete'']), (''max_journals'', PInt 9), (''max_journal_bytes'', PInt 9)]"

definition sample_metadata :: dict where
  "sample_metadata = [(''kind'', PStr ''exact''), (''contract_id'', PStr ''index''), (''schema_id'', PStr ''s''),
     (''schema_versions'', PList [PInt 1]), (''parser_id'', PStr ''p''), (''parser_version'', PInt 1),
     (''classifier_id'', PStr ''c''), (''classifier_version'', PInt 1), (''semantic_role'', PStr ''role''),
     (''task_ref_fields'', PList []), (''max_bytes'', PInt 9), (''absence_is_empty'', PBool True),
     (''canonical_empty_state_id'', PStr ''empty''), (''path'', PStr ''.trellis/index.json'')]"

definition sample_layout :: "string \<Rightarrow> string \<Rightarrow> pyval list \<Rightarrow> dict" where
  "sample_layout active archive metas = [(''schema_id'', PStr ''agent-workflow.trellis-task-layout''), (''schema_version'', PInt 1),
     (''adapter_id'', PStr ''trellis''), (''adapter_version'', PStr ''1''), (''runtime_namespace'', PStr ''.trellis''),
     (''active_root'', PStr active), (''archive_root'', PStr archive), (''task_discovery'', PDict sample_discovery),
     (''metadata_contracts'', PList metas), (''task_transaction_discovery'', PDict sample_transaction)]"

lemma sample_layout_checks:
  "require_stable_token (PStr ''s'') = Inr ''s''" "require_stable_token (PStr ''p'') = Inr ''p''" "require_stable_token (PStr ''c'') = Inr ''c''"
  "require_stable_token (PStr ''role'') = Inr ''role''" "require_stable_token (PStr ''empty'') = Inr ''empty''"
  "require_stable_token (PStr ''trellis'') = Inr ''trellis''" "require_stable_token (PStr ''index'') = Inr ''index''"
  "integer_versions (PList [PInt 1]) = Inr [1]" "json_pointers (PList []) = Inr []"
  "require_positive_int (PInt 1) = Inr 1" "require_positive_int (PInt 9) = Inr 9"
  using sample_tokens by (simp_all add: res_simps integer_versions_def positive_ints_def sorted_set_def json_pointers_def
      normalize_string_set_def)

lemma sample_discovery_ok: "normalize_task_discovery (PDict sample_discovery) = Inr sample_discovery"
proof -
  have fields: "same_strs (keys sample_discovery) TASK_DISCOVERY_FIELDS"
    by (rule same_strs_fields) (simp add: sample_discovery_def TASK_DISCOVERY_FIELDS_def)
  have get: "get sample_discovery ''hierarchy'' = PStr ''one-segment''" "get sample_discovery ''segment_grammar_id'' = PStr ''safe-nfc-segment-v1''"
    "get sample_discovery ''integration_relative_path'' = PStr ''i''" "get sample_discovery ''integration_schema_id'' = PStr ''s''"
    "get sample_discovery ''integration_schema_versions'' = PList [PInt 1]" "get sample_discovery ''unknown_root_entry_policy'' = PStr ''block''"
    "get sample_discovery ''allowed_non_task_entries'' = PList []"
    "get sample_discovery ''max_scan_depth'' = PInt 1" "get sample_discovery ''max_tasks'' = PInt 9" "get sample_discovery ''max_root_entries'' = PInt 9"
    "get sample_discovery ''max_integration_bytes'' = PInt 9"
    by (simp_all add: get_def sample_discovery_def)
  have seg: "validate_task_segment ''i'' = Inr ''i''"
    by (simp add: res_simps task_segment_def utf8_encode_def utf8_char_def strip_def is_space_def ord_def ends_with_def starts_with_def)
  show ?thesis
    unfolding normalize_task_discovery_def require_mapping_def as_mapping_def pyval.case bnd.simps get
    by (simp add: fields require_def as_str_def as_array_def seg sample_layout_checks sample_discovery_def [symmetric])
qed

lemma sample_transaction_ok: "normalize_task_transaction (PDict sample_transaction) = Inr sample_transaction"
proof -
  have fields: "same_strs (keys sample_transaction) TASK_TRANSACTION_FIELDS"
    by (rule same_strs_fields) (simp add: sample_transaction_def TASK_TRANSACTION_FIELDS_def)
  have path: "normalize_path (PStr ''.agent-workflow/task-transactions'') = Inr ''.agent-workflow/task-transactions''"
    using sample_paths by (simp add: normalize_path_Inr_iff)
  have set: "normalize_string_set [PStr ''complete''] = Inr [''complete'']"
    using normalize_string_set_strs [of "[''complete'']"] by (simp add: sorted_set_def)
  show ?thesis
    by (simp add: normalize_task_transaction_def require_mapping_def as_mapping_def fields path set require_def as_str_def as_array_def)
      (simp add: sample_transaction_def get_def as_str_def as_array_def path set sample_layout_checks)
qed

lemma sample_metadata_ok:
  "normalize_metadata_contract ''.trellis'' ''.trellis/tasks'' ''.trellis/tasks/archive'' [] [''src''] sample_metadata =
     Inr \<lparr>mc_kind = ''exact'', mc_contract_id = ''index'', mc_location = ''.trellis/index.json'', mc_normalized = sample_metadata\<rparr>"
proof -
  have fields: "same_strs (keys sample_metadata) METADATA_EXACT_FIELDS"
    by (simp add: same_strs_def subset_strs_def keys_def sample_metadata_def METADATA_EXACT_FIELDS_def METADATA_COMMON_FIELDS_def)
  have path: "normalize_path (PStr ''.trellis/index.json'') = Inr ''.trellis/index.json''"
    using sample_paths by (simp add: normalize_path_Inr_iff)
  have "inside ''.trellis/index.json'' ''.trellis'' \<and> list_all (disjoint_paths ''.trellis/index.json'')
      ([''.git'', ''.agent-workflow'', ''specs''] @ [] @ [''src''] @ [''.trellis/tasks'', ''.trellis/tasks/archive''])"
    by (simp add: inside_def disjoint_paths_def folded_segments_def casefold_char_def ord_def)
  then have allowed: "metadata_location_allowed ''.trellis/index.json'' ''.trellis'' ''.trellis/tasks'' ''.trellis/tasks/archive'' [] [''src''] = Inr ()"
    using sample_paths by (subst location_allowed_iff) simp_all
  have get: "get sample_metadata ''kind'' = PStr ''exact''" "get sample_metadata ''contract_id'' = PStr ''index''"
    "get sample_metadata ''path'' = PStr ''.trellis/index.json''"
    by (simp_all add: get_def sample_metadata_def)
  define normal where "normal = [(''schema_id'', PStr ''s''), (''schema_versions'', PList [PInt 1]),
       (''parser_id'', PStr ''p''), (''parser_version'', PInt 1),
       (''classifier_id'', PStr ''c''), (''classifier_version'', PInt 1),
       (''semantic_role'', PStr ''role''), (''task_ref_fields'', PList []),
       (''max_bytes'', PInt 9), (''canonical_empty_state_id'', PStr ''empty'')]"
  have normal: "metadata_fields_normal sample_metadata = Inr normal"
    by (simp add: metadata_fields_normal_def sample_metadata_def get_def sample_layout_checks require_def normal_def)
  have "update_all (AList.update ''path'' (PStr ''.trellis/index.json'') sample_metadata) normal = sample_metadata"
    by (simp add: update_all_def normal_def sample_metadata_def)
  then show ?thesis
    by (simp add: normalize_metadata_contract_def get fields require_def sample_layout_checks as_str_def path allowed normal)
qed

lemma sample_layout_get:
  "get (sample_layout ac ar metas) ''schema_id'' = PStr ''agent-workflow.trellis-task-layout''" "get (sample_layout ac ar metas) ''schema_version'' = PInt 1"
  "get (sample_layout ac ar metas) ''adapter_id'' = PStr ''trellis''" "get (sample_layout ac ar metas) ''adapter_version'' = PStr ''1''"
  "get (sample_layout ac ar metas) ''runtime_namespace'' = PStr ''.trellis''" "get (sample_layout ac ar metas) ''active_root'' = PStr ac"
  "get (sample_layout ac ar metas) ''archive_root'' = PStr ar" "get (sample_layout ac ar metas) ''task_discovery'' = PDict sample_discovery"
  "get (sample_layout ac ar metas) ''metadata_contracts'' = PList metas"
  "get (sample_layout ac ar metas) ''task_transaction_discovery'' = PDict sample_transaction"
  by (simp_all add: get_def sample_layout_def)

lemma sample_layout_ok:
  assumes roots: "canonical_path ac" "canonical_path ar" "ac \<noteq> ''.trellis''" "inside ac ''.trellis''" "ar \<noteq> ac" "inside ar ac"
    and metas: "mapr (\<lambda>item. bnd (require_mapping item) (normalize_metadata_contract ''.trellis'' ac ar [] [''src''])) metas = Inr ms"
    and ms: "distinct (map mc_contract_id ms)" "\<not> some_overlap ms" "list_all (\<lambda>m. wf_pyval (PDict (mc_normalized m)) \<and> json_value (PDict (mc_normalized m))) ms"
  shows "\<exists>l. validate_trellis_layout [] [''src''] (sample_layout ac ar metas) = Inr l \<and> tl_active_root l = ac \<and>
    tl_runtime_namespace l = ''.trellis'' \<and>
    tl_metadata_contracts l = sort_key mc_contract_id ms"
proof -
  have fields: "same_strs (keys (sample_layout ac ar metas)) LAYOUT_FIELDS"
    by (rule same_strs_fields) (simp add: sample_layout_def LAYOUT_FIELDS_def)
  have paths: "normalize_path (PStr ''.trellis'') = Inr ''.trellis''" "normalize_path (PStr ac) = Inr ac" "normalize_path (PStr ar) = Inr ar"
    "normalize_path (PStr ''src'') = Inr ''src''" "same_or_descendant ac ''.trellis''" "same_or_descendant ar ac"
    using sample_paths roots by (simp_all add: normalize_path_Inr_iff same_or_descendant_iff)
  have "wf_pyval (PDict (layout_document ''trellis'' ''1'' ''.trellis'' ac ar sample_discovery ms sample_transaction))"
    "json_value (PDict (layout_document ''trellis'' ''1'' ''.trellis'' ac ar sample_discovery ms sample_transaction))"
    using ms(3) by (auto simp: layout_document_def sample_discovery_def sample_transaction_def list_all_iff)
  then obtain h where "plain_digest (PDict (layout_document ''trellis'' ''1'' ''.trellis'' ac ar sample_discovery ms sample_transaction)) = Inr h"
    by (simp add: plain_digest_ok)
  then show ?thesis
    unfolding validate_trellis_layout_def Let_def sample_layout_get
    by (simp add: fields require_def sample_layout_checks as_string_def as_str_def as_array_def paths roots(3,5) sample_discovery_ok
        sample_transaction_ok metas ms)
qed

lemma sample_layout_accepted:
  "\<exists>l. validate_trellis_layout [] [''src''] (sample_layout ''.trellis/tasks'' ''.trellis/tasks/archive'' [PDict sample_metadata]) = Inr l \<and>
     tl_active_root l = ''.trellis/tasks'' \<and> tl_metadata_contracts l \<noteq> []"
proof -
  have in1: "inside ''.trellis/tasks'' ''.trellis''" "inside ''.trellis/tasks/archive'' ''.trellis/tasks''"
    by (simp_all add: inside_def folded_segments_def casefold_char_def ord_def)
  have metas: "mapr (\<lambda>item. bnd (require_mapping item) (normalize_metadata_contract ''.trellis'' ''.trellis/tasks'' ''.trellis/tasks/archive'' [] [''src'']))
      [PDict sample_metadata] = Inr [\<lparr>mc_kind = ''exact'', mc_contract_id = ''index'', mc_location = ''.trellis/index.json'', mc_normalized = sample_metadata\<rparr>]"
    by (simp add: require_mapping_def as_mapping_def sample_metadata_ok)
  show ?thesis
  proof -
    have wf: "wf_pyval (PDict sample_metadata) \<and> json_value (PDict sample_metadata)" by (simp add: sample_metadata_def)
    obtain l where "validate_trellis_layout [] [''src''] (sample_layout ''.trellis/tasks'' ''.trellis/tasks/archive'' [PDict sample_metadata]) = Inr l"
      "tl_active_root l = ''.trellis/tasks''" "length (tl_metadata_contracts l) = 1"
      using sample_layout_ok [OF _ _ _ in1(1) _ in1(2) metas] sample_paths wf by auto
    then show ?thesis by (intro exI [of _ l]) auto
  qed
qed

theorem layout_regions_separated_witness:
  "\<exists>l. validate_trellis_layout [] [''src''] (sample_layout ''.trellis/tasks'' ''.trellis/tasks/archive'' [PDict sample_metadata]) = Inr l \<and>
     tl_metadata_contracts l \<noteq> [] \<and> list_all (\<lambda>m. disjoint_paths (mc_location m) ''.trellis/tasks'') (tl_metadata_contracts l)"
proof -
  obtain l where l: "validate_trellis_layout [] [''src''] (sample_layout ''.trellis/tasks'' ''.trellis/tasks/archive'' [PDict sample_metadata]) = Inr l"
    "tl_active_root l = ''.trellis/tasks''" "tl_metadata_contracts l \<noteq> []"
    using sample_layout_accepted by blast
  from layout_regions_separated [OF l(1)] l show ?thesis by (auto simp: list_all_iff)
qed

theorem layout_normal_form_witness:
  "\<exists>l. validate_trellis_layout [] [''src''] (sample_layout ''.trellis/tasks'' ''.trellis/tasks/archive'' [PDict sample_metadata]) = Inr l \<and>
     validate_trellis_layout [] [''src''] (tl_normalized l) = Inr l"
  using sample_layout_accepted layout_normal_form by blast

theorem task_ref_one_level_witness:
  "normalize_path (PStr ''.trellis/tasks/i'') = Inr ''.trellis/tasks/i''"
proof -
  have "validate_task_segment ''i'' = Inr ''i''"
    by (simp add: res_simps task_segment_def utf8_encode_def utf8_char_def strip_def is_space_def ord_def ends_with_def starts_with_def)
  moreover have "normalize_path (PStr ''.trellis/tasks'') = Inr ''.trellis/tasks''"
    using sample_paths by (simp add: normalize_path_Inr_iff)
  ultimately show ?thesis using task_ref_one_level [of "''i''" "''i''" "PStr ''.trellis/tasks''" "''.trellis/tasks''"] by simp
qed

text \<open>
  The test that the active root is a strict descendant of the runtime namespace compares the two
  paths exactly, while the containment test ignores case: a layout whose active root is the runtime
  namespace in capitals is accepted, although on a file system that ignores case the two are the
  same directory.
\<close>

theorem active_root_may_alias_namespace:
  "\<exists>doc l. validate_trellis_layout [] [''src''] doc = Inr l \<and> path_key (tl_active_root l) = path_key (tl_runtime_namespace l)"
proof -
  have c: "canonical_path ''.TRELLIS''" "canonical_path ''.TRELLIS/archive''"
    by (simp_all add: canonical_path_def windows_drive_def alias_segment_def ord_def)
  have key: "path_key ''.TRELLIS'' = path_key ''.trellis''"
    by (simp add: path_key_def casefold_char_def ord_def char_of_def bit_0 bit_Suc)
  have i: "inside ''.TRELLIS'' ''.trellis''" "inside ''.TRELLIS/archive'' ''.TRELLIS''"
    by (simp_all add: inside_def folded_segments_def casefold_char_def ord_def char_of_def bit_0 bit_Suc)
  obtain l where l: "validate_trellis_layout [] [''src''] (sample_layout ''.TRELLIS'' ''.TRELLIS/archive'' []) = Inr l"
    "tl_active_root l = ''.TRELLIS''" "tl_runtime_namespace l = ''.trellis''"
    using sample_layout_ok [OF c _ i(1) _ i(2), of "[]" "[]"] by auto
  from l(1) show ?thesis
    by (intro exI conjI) (assumption, simp only: l(2,3) key)
qed

end
