(* ===== verification/Manifest_Plan.thy ===== *)
theory Manifest_Plan
  imports Journal Artifact_Policy
begin

text \<open>
  The pure parts around one transaction: the candidate Manifest that a saved plan determines
  (\<open>render_candidate_manifest\<close> of \<^verbatim>\<open>reconcile/plan.py\<close>) and the two local-state documents a first
  initialisation writes (\<^verbatim>\<open>reconcile/local_state.py\<close>).
\<close>

section \<open>The candidate Manifest\<close>

abbreviation ownership_conflict :: exn where
  "ownership_conflict \<equiv> renderer_failure ''AWP_OWNERSHIP_CONFLICT''"

definition manifest_files :: "dict \<Rightarrow> dict list res" where
  "manifest_files plan_core =
     bnd (as_array ownership_conflict (get plan_core ''preconditions'')) (\<lambda>raws.
     bnd (foldr_res (\<lambda>records raw.
         bnd (as_mapping ownership_conflict raw) (\<lambda>precondition.
         if get precondition ''kind'' \<noteq> PStr ''file'' then Inr records
         else if get precondition ''candidate_manifest_record'' = PNone then Inr records
         else bnd (as_mapping ownership_conflict (get precondition ''candidate_manifest_record'')) (\<lambda>record.
           Inr (records @ [record])))) [] raws) (\<lambda>records.
     bnd (mapr (\<lambda>record. bnd (lookup record ''path'') (\<lambda>p. Inr (py_str p, record))) records) (\<lambda>keyed.
     Inr (map snd (sort_key fst keyed)))))"

definition is_authority :: "pyval \<Rightarrow> bool" where
  "is_authority raw = (case raw of PDict d \<Rightarrow> get d ''kind'' = PStr ''manifest-authority'' | _ \<Rightarrow> False)"

definition manifest_authority :: "dict \<Rightarrow> dict res" where
  "manifest_authority plan_core =
     bnd (as_array ownership_conflict (get plan_core ''preconditions'')) (\<lambda>raws.
     bnd (mapr (as_mapping ownership_conflict) (filter is_authority raws)) (\<lambda>matches.
     case matches of [m] \<Rightarrow> Inr m | _ \<Rightarrow> Inl ownership_conflict))"

definition render_candidate_manifest :: "saved_plan_envelope \<Rightarrow> dict res" where
  "render_candidate_manifest envelope = (let core = se_plan_core envelope in
     bnd (manifest_authority core) (\<lambda>authority.
     bnd (as_mapping ownership_conflict (get core ''candidate_release'')) (\<lambda>candidate_release.
     let operation = py_str (get core ''operation'') in
     bnd (as_mapping ownership_conflict (get core ''candidate_local_state_contract'')) (\<lambda>contract.
     bnd (as_array ownership_conflict (get authority ''platforms'')) (\<lambda>platforms.
     bnd (manifest_files core) (\<lambda>files.
     Inr
      [(''schema_version'', PInt 1),
       (''project_id'', get core (if operation = ''init'' then ''candidate_project_id'' else ''project_id'')),
       (''generation'', get core ''candidate_manifest_generation''),
       (''pack_version'', get core ''pack_version''),
       (''release_id'', get candidate_release ''release_id''),
       (''release_manifest_digest'', get candidate_release ''release_manifest_digest''),
       (''release_trust_policy_id'', get core ''release_trust_policy_id''),
       (''release_trust_policy_digest'', get core ''release_trust_policy_digest''),
       (''profile'', get authority ''profile''),
       (''profile_digest'', get core ''profile_digest''),
       (''lock_digest'', get core ''lock_digest''),
       (''artifact_bundle_digest'', get core ''artifact_bundle_digest''),
       (''local_state_contract'', PDict contract),
       (''platforms'', PList platforms),
       (''last_transaction_id'', get core ''transaction_id''),
       (''last_transaction_binding_digest'', PStr (se_journal_binding_digest envelope)),
       (''previous_manifest_digest'', if operation = ''init'' then PStr ''absent'' else get core ''manifest_digest''),
       (''files'', PList (map PDict files))]))))))"

section \<open>The first local state\<close>

definition CONTRACT_FIELDS :: "string list" where
  "CONTRACT_FIELDS = [''release_id'', ''release_version'', ''workspace_schema'', ''approval_replay_schema'',
     ''task_outbox_schema'', ''trellis_task_layout_digest'', ''contract_digest'']"

definition local_state_uuid :: "string \<Rightarrow> string res" where
  "local_state_uuid value = (if is_canonical_uuid value then Inr value else Inl recovery_required)"

definition local_state_digest :: "pyval \<Rightarrow> string res" where
  "local_state_digest v = as_sha256 recovery_required v"

text \<open>\<^verbatim>\<open>{first, **second}\<close>: later keys replace earlier ones in place.\<close>

definition dict_merge :: "dict \<Rightarrow> dict \<Rightarrow> dict" where
  "dict_merge d e = foldl (\<lambda>acc (k, v). AList.update k v acc) d e"

definition build_first_init_local_state ::
  "dict \<Rightarrow> task_layout \<Rightarrow> string \<Rightarrow> string \<Rightarrow> (dict \<times> dict) res" where
  "build_first_init_local_state manifest layout workspace_instance_id expected_replay_digest =
     bnd (as_mapping recovery_required (get manifest ''local_state_contract'')) (\<lambda>contract.
     if \<not> same_strs (keys contract) CONTRACT_FIELDS then Inl recovery_required
     else bnd (plain_digest (PDict (filter (\<lambda>kv. fst kv \<noteq> ''contract_digest'') contract))) (\<lambda>digest_of_contract.
     if get contract ''contract_digest'' \<noteq> PStr digest_of_contract then Inl recovery_required
     else if get contract ''trellis_task_layout_digest'' \<noteq> PStr (tl_layout_digest layout) then Inl recovery_required
     else bnd (local_state_uuid (py_str (get manifest ''project_id''))) (\<lambda>project_id.
     bnd (local_state_uuid workspace_instance_id) (\<lambda>workspace_id.
     if \<not> py_eq (get manifest ''release_id'') (get contract ''release_id'')
        \<or> \<not> py_eq (get manifest ''pack_version'') (get contract ''release_version'')
     then Inl recovery_required
     else bnd (lookup manifest ''release_manifest_digest'') (\<lambda>release_manifest_digest.
     let workspace =
         [(''schema_id'', PStr ''agent-workflow.workspace-local''), (''schema_version'', PInt 1),
          (''project_id'', PStr project_id), (''workspace_instance_id'', PStr workspace_id),
          (''local_state_release_id'', get contract ''release_id''),
          (''local_state_release_version'', get contract ''release_version''),
          (''local_state_release_manifest_digest'', release_manifest_digest),
          (''local_state_contract_digest'', get contract ''contract_digest''),
          (''trellis_task_layout'', PDict (dict_merge [(''layout_digest'', PStr (tl_layout_digest layout))]
             (tl_normalized layout))),
          (''local_state_schemas'', PDict
            [(''workspace'', get contract ''workspace_schema''),
             (''approval_replay'', get contract ''approval_replay_schema''),
             (''task_outbox'', get contract ''task_outbox_schema'')])];
       replay =
         [(''schema_id'', PStr ''agent-workflow.approval-replay''), (''schema_version'', PInt 1),
          (''project_id'', PStr project_id), (''workspace_instance_id'', PStr workspace_id),
          (''entries'', PDict [])]
     in bnd (plain_digest (PDict replay)) (\<lambda>replay_digest.
        bnd (local_state_digest (PStr expected_replay_digest)) (\<lambda>expected.
        if replay_digest \<noteq> expected then Inl recovery_required
        else Inr (workspace, replay))))))))"

end
