(* ===== verification/Apply.thy ===== *)
theory Apply
  imports Manifest_Plan Task_Policy
begin

text \<open>
  \<^verbatim>\<open>reconcile/apply.py\<close>: the transaction that carries out a saved plan. It takes the locks of
  \<^verbatim>\<open>reconcile/locks.py\<close>, probes the file system (\<^verbatim>\<open>reconcile/probes.py\<close>), backs up what it will
  change, swaps one file after the other and commits by swapping the Manifest last
  (\<^verbatim>\<open>reconcile/manifest.py\<close>); the journal names the phase before each part starts.

  What the transaction asks the operating system and the scanner of running tasks is the argument
  \<open>apply_env\<close>: the random part of temporary names, the kind of the file system and whether its
  locks exclude each other, the lock outside of the tree, and the scanner. A blocking lock is
  always acquired; its release changes no state.
\<close>

section \<open>The environment\<close>

record probe_env =
  pe_filesystem_type :: string
  pe_advisory_lock :: bool
  pe_decomposed_name :: string

type_synonym scanner =
  "task_layout \<Rightarrow> task_layout \<Rightarrow> verified_discovery_schemas \<Rightarrow> verified_discovery_schemas \<Rightarrow> fs \<Rightarrow>
     task_snapshot_and_findings res"

record apply_env =
  ae_rnd :: random_name
  ae_probe :: probe_env
  ae_bootstrap_lock :: "string \<Rightarrow> unit res"

section \<open>Locks\<close>

abbreviation reconcile_locked :: exn where
  "reconcile_locked \<equiv> renderer_failure ''AWP_RECONCILE_LOCKED''"

definition real_directory :: "path \<Rightarrow> unit io" where
  "real_directory p =
     ibnd (iread (\<lambda>s. require (\<not> is_symlink s p) reconcile_locked)) (\<lambda>_.
     ibnd (mkdir_parents p) (\<lambda>_.
     iread (\<lambda>s. require (is_dir s p) reconcile_locked)))"

text \<open>\<^verbatim>\<open>os.open(path, O_CREAT | O_RDWR | O_NOFOLLOW, 0o600)\<close>, any error as the lock failure.\<close>

definition open_lock_fs :: "path \<Rightarrow> fs \<Rightarrow> fs res" where
  "open_lock_fs p s = (case node_at s p of
     None \<Rightarrow> if is_dir s (parent p) then Inr (fmupd p (File [] 384) s) else Inl reconcile_locked
   | Some (File _ _) \<Rightarrow> Inr s
   | Some _ \<Rightarrow> Inl reconcile_locked)"

definition advisory_lock :: "path \<Rightarrow> unit io" where
  "advisory_lock p = ibnd (real_directory (parent p)) (\<lambda>_. istep (open_lock_fs p))"

definition control_dir :: path where
  "control_dir = [''.agent-workflow'']"

definition acquire_project_locks :: "unit io" where
  "acquire_project_locks =
     ibnd (real_directory control_dir) (\<lambda>_.
     ibnd (advisory_lock (control_dir @ [''reconcile.lock''])) (\<lambda>_.
     advisory_lock (control_dir @ [''runtime-state.lock''])))"

section \<open>The write probe\<close>

abbreviation filesystem_unsupported :: exn where
  "filesystem_unsupported \<equiv> renderer_failure ''AWP_FILESYSTEM_UNSUPPORTED''"

definition NETWORK_FILESYSTEMS :: "string list" where
  "NETWORK_FILESYSTEMS = [''nfs'', ''nfs4'', ''cifs'', ''smb3'', ''fuse.sshfs'', ''sshfs'']"

definition remove_empty_probe_directory :: "path \<Rightarrow> unit io" where
  "remove_empty_probe_directory p =
     ibnd iget (\<lambda>s. iwhen (path_exists s p)
       (if is_symlink s p \<or> \<not> is_dir s p \<or> has_children s p then iraise recovery_required else rmdir p))"

text \<open>\<^verbatim>\<open>finally: if path.exists() and path.is_file() and not path.is_symlink(): path.unlink()\<close>.\<close>

definition unlink_plain :: "path \<Rightarrow> unit io" where
  "unlink_plain p = ibnd iget (\<lambda>s. iwhen (path_exists s p \<and> is_file s p \<and> \<not> is_symlink s p) (unlink p))"

definition unlink_existing :: "path \<Rightarrow> unit io" where
  "unlink_existing p = ibnd iget (\<lambda>s. iwhen (path_exists s p) (unlink p))"

definition probe_alias :: "path \<Rightarrow> string \<Rightarrow> string \<Rightarrow> string io" where
  "probe_alias directory first_name second_name =
     (let first = directory @ [first_name]; second = directory @ [second_name] in
     ibnd (write_bytes first (utf8_encode ''first'')) (\<lambda>_.
     ifinally
       (ibnd iget (\<lambda>s. if node_at s second \<noteq> None then iret ''aliases''
          else ibnd (istep (create_excl_fs second 384)) (\<lambda>_.
            ibnd (istep (write_fs second (utf8_encode ''second''))) (\<lambda>_. iret ''distinct''))))
       (ibnd (iwhen (second \<noteq> first) (unlink_existing second)) (\<lambda>_. unlink_existing first))))"

record probe_evidence =
  pv_probe_id :: string
  pv_advisory_lock :: bool
  pv_atomic_replace :: bool
  pv_posix_mode :: bool
  pv_case_behavior :: string
  pv_unicode_behavior :: string
  pv_filesystem_type :: string
  pv_evidence_digest :: string

definition probe_measure :: "probe_env \<Rightarrow> string \<Rightarrow> path \<Rightarrow> probe_evidence io" where
  "probe_measure env identity probe_root =
     (let lock = probe_root @ [''lock'']; original = probe_root @ [''original''];
        candidate = probe_root @ [''candidate''] in
     ibnd (istep (open_lock_fs lock)) (\<lambda>_.
     ibnd (write_bytes original (utf8_encode ''original'')) (\<lambda>_.
     ibnd (write_bytes candidate (utf8_encode ''candidate'')) (\<lambda>_.
     ibnd (replace candidate original) (\<lambda>_.
     ibnd (read_bytes original) (\<lambda>replaced.
     ibnd (chmod original 488) (\<lambda>_.
     ibnd (iread (\<lambda>s. Inr (node_at s original))) (\<lambda>node.
     ibnd (probe_alias probe_root ''CaseProbe'' ''caseprobe'') (\<lambda>case_behavior.
     ibnd (probe_alias probe_root (''caf'' @ [CHR 0xE9] @ ''-probe'') (pe_decomposed_name env)) (\<lambda>unicode_behavior.
     let atomic_replace = (replaced = utf8_encode ''candidate'');
       posix_mode = (case node of Some (File _ m) \<Rightarrow> m mod 512 = 488 | _ \<Rightarrow> False)
     in if \<not> pe_advisory_lock env \<or> \<not> atomic_replace \<or> \<not> posix_mode then iraise filesystem_unsupported
        else ibnd (ilift (digest ''agent-workflow.filesystem-probe.v1'' (PDict
            [(''probe_id'', PStr identity), (''advisory_lock'', PBool (pe_advisory_lock env)),
             (''atomic_replace'', PBool atomic_replace), (''posix_mode'', PBool posix_mode),
             (''case_behavior'', PStr case_behavior), (''unicode_behavior'', PStr unicode_behavior),
             (''filesystem_type'', PStr (pe_filesystem_type env))]))) (\<lambda>evidence_digest.
          iret \<lparr>pv_probe_id = identity, pv_advisory_lock = pe_advisory_lock env,
            pv_atomic_replace = atomic_replace, pv_posix_mode = posix_mode,
            pv_case_behavior = case_behavior, pv_unicode_behavior = unicode_behavior,
            pv_filesystem_type = pe_filesystem_type env, pv_evidence_digest = evidence_digest\<rparr>)))))))))))"

definition probe_cleanup :: "path \<Rightarrow> unit io" where
  "probe_cleanup probe_root =
     ibnd (iforeach unlink_plain (map (\<lambda>n. probe_root @ [n]) [''candidate'', ''original'', ''lock''])) (\<lambda>_.
     remove_empty_probe_directory probe_root)"

definition run_write_probe :: "probe_env \<Rightarrow> string \<Rightarrow> probe_evidence io" where
  "run_write_probe env identity =
     (if pe_filesystem_type env \<in> set NETWORK_FILESYSTEMS then iraise filesystem_unsupported
      else let probe_root = path_of (''.agent-workflow-probe-'' @ identity) in
        ibnd (iread (\<lambda>s. require (\<not> (path_exists s probe_root \<or> is_symlink s probe_root)) recovery_required)) (\<lambda>_.
        ibnd (mkdir probe_root 448) (\<lambda>_.
        ifinally (probe_measure env identity probe_root) (probe_cleanup probe_root))))"

section \<open>File records\<close>

text \<open>
  A file record carries both states of a file, the candidate text and the place of the backup.
  The three loops over records all start by reading its two states.
\<close>

definition record_states :: "dict \<Rightarrow> (file_state \<times> file_state) res" where
  "record_states record =
     bnd (bnd (bnd (lookup record ''original_state'') (as_mapping recovery_required)) file_state_from_document) (\<lambda>original.
     bnd (bnd (bnd (lookup record ''candidate_state'') (as_mapping recovery_required)) file_state_from_document) (\<lambda>candidate.
     Inr (original, candidate)))"

definition candidate_state_map :: "dict \<Rightarrow> (string \<times> file_state) list res" where
  "candidate_state_map plan_core =
     bnd (bnd (lookup plan_core ''candidate_file_states'') (as_array recovery_required)) (\<lambda>raws.
     bnd (mapr (\<lambda>raw. bnd (as_mapping recovery_required raw) (\<lambda>d.
            bnd (lookup d ''path'') (\<lambda>p. bnd (file_state_from_document d) (\<lambda>f. Inr (py_str p, f)))))
          (filter (\<lambda>raw. case raw of PDict _ \<Rightarrow> True | _ \<Rightarrow> False) raws)) (\<lambda>items.
     Inr (dict_display items)))"

definition backup_path :: "string \<Rightarrow> nat \<Rightarrow> string" where
  "backup_path transaction_id n = ''.agent-workflow/transactions/'' @ transaction_id @ ''.data/backups/''
     @ zero_pad 4 (show_base 10 n) @ ''.bin''"

definition file_record :: "string \<Rightarrow> file_state \<Rightarrow> file_state \<Rightarrow> pyval \<Rightarrow> pyval \<Rightarrow> dict" where
  "file_record p original candidate content backup =
     [(''path'', PStr p), (''original_state'', PDict (file_state_document original)),
      (''candidate_state'', PDict (file_state_document candidate)), (''candidate_content_utf8'', content),
      (''backup_path'', backup), (''backup_byte_hash'', PNone), (''applied'', PBool False)]"

definition add_file_record ::
  "string \<Rightarrow> (string \<times> file_state) list \<Rightarrow> dict list \<Rightarrow> pyval \<Rightarrow> dict list res" where
  "add_file_record transaction_id candidates records raw =
     bnd (as_mapping recovery_required raw) (\<lambda>precondition.
     if get precondition ''kind'' \<noteq> PStr ''file'' then Inr records
     else let p = py_str (get precondition ''path'') in
       (case map_of candidates p of
          None \<Rightarrow> Inr records
        | Some candidate \<Rightarrow>
            bnd (as_mapping recovery_required (get precondition ''ownership_decision'')) (\<lambda>decision.
            bnd (bnd (as_mapping recovery_required (get decision ''observed_file_state'')) file_state_from_document) (\<lambda>original.
            let content = get precondition ''candidate_content_utf8'' in
            if content \<noteq> PNone \<and> \<not> is_pystr content then Inl recovery_required
            else Inr (records @ [file_record p original candidate content
              (if \<not> fs_exists original then PNone else PStr (backup_path transaction_id (length records)))])))))"

definition absent_state :: "string \<Rightarrow> file_state" where
  "absent_state p = \<lparr>fs_path = p, fs_exists = False, fs_type = ''absent'', fs_hash = CANONICAL_NULL,
     fs_mode = CANONICAL_NULL, fs_non_symlink = True, fs_block = CANONICAL_NULL\<rparr>"

definition regular_state :: "string \<Rightarrow> string \<Rightarrow> string \<Rightarrow> file_state" where
  "regular_state p h m = \<lparr>fs_path = p, fs_exists = True, fs_type = ''regular'', fs_hash = h,
     fs_mode = m, fs_non_symlink = True, fs_block = CANONICAL_NULL\<rparr>"

definition init_file_record :: "string \<Rightarrow> dict \<Rightarrow> dict res" where
  "init_file_record p document =
     bnd (canonical_json_bytes (PDict document)) (\<lambda>payload.
     case utf8_decode payload of
       None \<Rightarrow> Inl ValueError
     | Some content \<Rightarrow> Inr (file_record p (absent_state p) (regular_state p (sha256_hex payload) ''0600'')
         (PStr content) PNone))"

definition file_records :: "saved_plan_envelope \<Rightarrow> dict \<Rightarrow> task_layout \<Rightarrow> dict list res" where
  "file_records envelope candidate_manifest target_layout = (let core = se_plan_core envelope in
     bnd (candidate_state_map core) (\<lambda>candidates.
     bnd (lookup core ''transaction_id'') (\<lambda>transaction_id.
     bnd (bnd (lookup core ''preconditions'') (as_array recovery_required)) (\<lambda>preconditions.
     bnd (foldr_res (add_file_record (py_str transaction_id) candidates) [] preconditions) (\<lambda>records.
     if se_operation envelope \<noteq> ''init'' then Inr records
     else bnd (lookup core ''candidate_workspace_instance_id'') (\<lambda>workspace_id.
       bnd (lookup core ''empty_replay_ledger_candidate_digest'') (\<lambda>replay_digest.
       bnd (build_first_init_local_state candidate_manifest target_layout (py_str workspace_id) (py_str replay_digest))
         (\<lambda>(workspace, replay).
       bnd (init_file_record ''.agent-workflow/local/workspace.json'' workspace) (\<lambda>r1.
       bnd (init_file_record ''.agent-workflow/local/approval-replay.json'' replay) (\<lambda>r2.
       Inr (records @ [r1, r2])))))))))))"

text \<open>The proper ancestors of the candidate files that do not exist yet, shallow ones first.\<close>

definition missing_ancestors :: "fs \<Rightarrow> dict \<Rightarrow> string list res" where
  "missing_ancestors s record =
     bnd (bnd (as_mapping recovery_required (get record ''candidate_state'')) file_state_from_document) (\<lambda>candidate.
     if \<not> fs_exists candidate then Inr []
     else bnd (mapr (\<lambda>q. if is_symlink s q \<or> (path_exists s q \<and> \<not> is_dir s q) then Inl cas_mismatch else Inr q)
         (ancestors (path_of (fs_path candidate)))) (\<lambda>qs.
       Inr (map path_text (filter (\<lambda>q. \<not> path_exists s q) qs))))"

definition slash_count :: "string \<Rightarrow> nat" where
  "slash_count p = length (filter (\<lambda>c. c = chr_slash) p)"

definition created_directories :: "fs \<Rightarrow> dict list \<Rightarrow> string list res" where
  "created_directories s records =
     bnd (mapr (missing_ancestors s) records) (\<lambda>found.
     Inr (sort_key (\<lambda>p. (slash_count p, p)) (remdups (concat found))))"

section \<open>The parts of the transaction\<close>

definition backup_file :: "dict \<Rightarrow> dict io" where
  "backup_file record =
     ibnd (ilift (bnd (bnd (lookup record ''original_state'') (as_mapping recovery_required)) file_state_from_document)) (\<lambda>original.
     ibnd (ilift (lookup record ''backup_path'')) (\<lambda>backup_value.
     case backup_value of
       PStr backup \<Rightarrow>
         if \<not> fs_exists original then iret record
         else let source = path_of (fs_path original); target = path_of backup in
           ibnd (iread (\<lambda>s. require (\<not> (is_symlink s source \<or> \<not> is_file s source)) cas_mismatch)) (\<lambda>_.
           ibnd (read_bytes source) (\<lambda>payload.
           ibnd (irequire (sha256_hex payload = fs_hash original) cas_mismatch) (\<lambda>_.
           ibnd (mkdir_parents (parent target)) (\<lambda>_.
           ibnd (write_bytes target payload) (\<lambda>_.
           ibnd (ilift (mode_bits (fs_mode original))) (\<lambda>m.
           ibnd (chmod target m) (\<lambda>_.
           iret (AList.update ''backup_byte_hash'' (PStr (fs_hash original)) record))))))))
     | _ \<Rightarrow> iret record))"

definition prepare_backups :: "dict list \<Rightarrow> string list \<Rightarrow> dict list io" where
  "prepare_backups records directories =
     ibnd (iforeach (\<lambda>d. mkdir (path_of d) 493) directories) (\<lambda>_. imap backup_file records)"

definition content_bytes :: "pyval \<Rightarrow> byte list option" where
  "content_bytes raw = (case raw of PNone \<Rightarrow> None | _ \<Rightarrow> Some (utf8_encode (py_str raw)))"

definition apply_file :: "random_name \<Rightarrow> dict \<Rightarrow> dict io" where
  "apply_file rnd record =
     ibnd (ilift (record_states record)) (\<lambda>(original, candidate).
     ibnd (ilift (lookup record ''candidate_content_utf8'')) (\<lambda>raw.
     ibnd (compare_and_swap rnd original candidate (content_bytes raw)) (\<lambda>_.
     iret (AList.update ''applied'' (PBool True) record))))"

definition apply_file_records :: "random_name \<Rightarrow> dict list \<Rightarrow> dict list io" where
  "apply_file_records rnd records = imap (apply_file rnd) records"

definition backup_targets :: "dict list \<Rightarrow> path list" where
  "backup_targets records = map path_of (strs_of (map (\<lambda>r. get r ''backup_path'') records))"

definition remove_backup :: "path \<Rightarrow> unit io" where
  "remove_backup p = ibnd iget (\<lambda>s. iwhen (path_exists s p)
     (if is_symlink s p \<or> \<not> is_file s p then iraise recovery_required else unlink p))"

definition remove_existing_directory :: "path \<Rightarrow> unit io" where
  "remove_existing_directory p = ibnd iget (\<lambda>s. iwhen (path_exists s p) (rmdir p))"

definition data_directories :: "dict list \<Rightarrow> path list" where
  "data_directories records = rev (sort_key length (remdups
     (map parent (backup_targets records) @ map (\<lambda>p. parent (parent p)) (backup_targets records))))"

definition cleanup_transaction_data :: "dict list \<Rightarrow> unit io" where
  "cleanup_transaction_data records =
     ibnd (iforeach remove_backup (backup_targets records)) (\<lambda>_.
     iforeach remove_existing_directory (data_directories records))"

section \<open>The Manifest\<close>

definition manifest_text :: string where
  "manifest_text = ''.agent-workflow/manifest.json''"

definition manifest_precondition :: "saved_plan_envelope \<Rightarrow> file_state res" where
  "manifest_precondition envelope =
     (if se_operation envelope = ''init'' then Inr (absent_state manifest_text)
      else bnd (lookup (se_plan_core envelope) ''manifest_digest'') (\<lambda>h.
        Inr (regular_state manifest_text (py_str h) ''0644'')))"

definition apply_candidate_manifest :: "random_name \<Rightarrow> saved_plan_envelope \<Rightarrow> file_state io" where
  "apply_candidate_manifest rnd envelope =
     ibnd (ilift (render_candidate_manifest envelope)) (\<lambda>candidate_manifest.
     ibnd (ilift (canonical_json_bytes (PDict candidate_manifest))) (\<lambda>candidate_bytes.
     ibnd (ilift (manifest_precondition envelope)) (\<lambda>expected.
     compare_and_swap rnd expected
       (regular_state manifest_text (se_candidate_manifest_digest envelope) ''0644'') (Some candidate_bytes))))"

section \<open>The evidence about tasks\<close>

definition task_state_document :: "task_snapshot_and_findings \<Rightarrow> dict" where
  "task_state_document v = [(''snapshot'', PDict (ts_snapshot v)), (''findings'', PDict (ts_findings v)),
     (''task_quiescence_digest'', PStr (ts_task_quiescence_digest v))]"

definition expected_task_state :: "saved_plan_envelope \<Rightarrow> dict res" where
  "expected_task_state envelope =
     bnd (bnd (lookup (se_plan_core envelope) ''task_quiescence_snapshot'') (as_mapping recovery_required)) (\<lambda>snapshot.
     bnd (bnd (lookup (se_plan_core envelope) ''task_findings'') (as_mapping recovery_required)) (\<lambda>findings.
     bnd (lookup (se_plan_core envelope) ''task_quiescence_digest'') (\<lambda>task_digest.
     Inr [(''snapshot'', PDict snapshot), (''findings'', PDict findings), (''task_quiescence_digest'', task_digest)])))"

abbreviation quiescence_changed :: exn where
  "quiescence_changed \<equiv> renderer_failure ''AWP_TASK_QUIESCENCE_CHANGED''"

definition require_same_task_state :: "task_snapshot_and_findings \<Rightarrow> dict \<Rightarrow> unit res" where
  "require_same_task_state actual expected =
     bnd (canonical_json_bytes (PDict (task_state_document actual))) (\<lambda>a.
     bnd (canonical_json_bytes (PDict expected)) (\<lambda>b.
     require (a = b) quiescence_changed))"

section \<open>Nothing to do\<close>

definition stable_reasons :: "string list" where
  "stable_reasons = [''already-current'', ''create-once-already-consumed'', ''user-owned-no-write-authority'',
     ''adopted-drift-is-observed'']"

fun all_stable :: "dict list \<Rightarrow> bool res" where
  "all_stable [] = Inr True"
| "all_stable (item # items) =
     bnd (as_mapping recovery_required (get item ''ownership_decision'')) (\<lambda>decision.
     if get decision ''action'' \<noteq> PStr ''no-op'' then Inr False
     else bnd (in_strs (get decision ''reason_code'') stable_reasons) (\<lambda>stable.
       if stable then all_stable items else Inr False))"

definition is_true_noop :: "saved_plan_envelope \<Rightarrow> bool res" where
  "is_true_noop envelope =
     (if se_operation envelope \<noteq> ''sync'' then Inr False
      else bnd (lookup (se_plan_core envelope) ''candidate_file_states'') (\<lambda>states.
        if truthy states then Inr False
        else bnd (bnd (lookup (se_plan_core envelope) ''preconditions'') (as_array recovery_required)) (\<lambda>raws.
          bnd (mapr (as_mapping recovery_required)
              (filter (\<lambda>raw. case raw of PDict d \<Rightarrow> get d ''kind'' = PStr ''file'' | _ \<Rightarrow> False) raws)) all_stable)))"

section \<open>The transaction\<close>

record approval =
  ap_plan_digest :: pyval
  ap_project_root :: pyval
  ap_bootstrap_lock_root :: pyval
  ap_source_layout :: "task_layout option"
  ap_target_layout :: "task_layout option"
  ap_source_schemas :: "verified_discovery_schemas option"
  ap_target_schemas :: "verified_discovery_schemas option"

definition apply_locks :: "apply_env \<Rightarrow> string \<Rightarrow> pyval \<Rightarrow> unit io" where
  "apply_locks env operation lock_root =
     (if operation = ''init'' then
        (case lock_root of
           PStr r \<Rightarrow> ibnd (ilift (ae_bootstrap_lock env r)) (\<lambda>_. acquire_project_locks)
         | _ \<Rightarrow> iraise reconcile_locked)
      else acquire_project_locks)"

text \<open>\<^verbatim>\<open>journal = advance_journal(journal, phase, ...); write_journal(root, journal)\<close>.\<close>

definition advance :: "random_name \<Rightarrow> dict \<Rightarrow> string \<Rightarrow> dict list option \<Rightarrow> dict io" where
  "advance rnd journal phase records =
     ibnd (ilift (advance_journal journal phase records None None)) (\<lambda>changed.
     ibnd (write_journal rnd changed) (\<lambda>_. iret changed))"

text \<open>From the first journal to the swapped files.\<close>

definition stage_files :: "apply_env \<Rightarrow> saved_plan_envelope \<Rightarrow> dict list \<Rightarrow> string list \<Rightarrow> dict \<Rightarrow>
    (dict \<times> dict list \<times> dict) io" where
  "stage_files env saved_plan records directories journal = (let rnd = ae_rnd env in
     ibnd (write_journal rnd journal) (\<lambda>_.
     ibnd (advance rnd journal ''probing'' None) (\<lambda>journal.
     ibnd (ilift (lookup (se_plan_core saved_plan) ''transaction_id'')) (\<lambda>transaction_id.
     ibnd (run_write_probe (ae_probe env) (py_str transaction_id)) (\<lambda>_.
     ibnd (prepare_backups records directories) (\<lambda>records.
     ibnd (advance rnd journal ''prepared'' (Some records)) (\<lambda>journal.
     ibnd (ilift (build_maintenance_marker saved_plan)) (\<lambda>marker.
     ibnd (write_maintenance rnd marker) (\<lambda>_.
     ibnd (advance rnd journal ''applying'' (Some records)) (\<lambda>journal.
     ibnd (apply_file_records rnd records) (\<lambda>records.
     ibnd (advance rnd journal ''files_applied'' (Some records)) (\<lambda>journal.
     iret (journal, records, marker)))))))))))))"

text \<open>From the committed Manifest to the finished journal.\<close>

definition finish_transaction :: "apply_env \<Rightarrow> dict \<Rightarrow> dict list \<Rightarrow> dict \<Rightarrow> unit io" where
  "finish_transaction env journal records marker = (let rnd = ae_rnd env in
     ibnd (advance rnd journal ''manifest_committed'' (Some records)) (\<lambda>journal.
     ibnd (advance rnd journal ''cleanup_pending'' (Some records)) (\<lambda>journal.
     ibnd (remove_maintenance marker) (\<lambda>_.
     ibnd (cleanup_transaction_data records) (\<lambda>_.
     ibnd (advance rnd journal ''complete'' (Some records)) (\<lambda>_.
     iret ()))))))"

definition run_transaction :: "apply_env \<Rightarrow> (fs \<Rightarrow> task_snapshot_and_findings res) \<Rightarrow> saved_plan_envelope \<Rightarrow>
    dict \<Rightarrow> task_layout \<Rightarrow> dict \<Rightarrow> unit io" where
  "run_transaction env scan saved_plan candidate_manifest target_layout expected =
     ibnd (iread scan) (\<lambda>initial.
     ibnd (ilift (require_same_task_state initial expected)) (\<lambda>_.
     ibnd (ilift (file_records saved_plan candidate_manifest target_layout)) (\<lambda>records.
     ibnd (iread (\<lambda>s. created_directories s records)) (\<lambda>directories.
     ibnd (ilift (build_lifecycle_journal saved_plan candidate_manifest records directories)) (\<lambda>journal.
     ibnd (stage_files env saved_plan records directories journal) (\<lambda>(journal, records, marker).
     ibnd (iread scan) (\<lambda>last_scan.
     ibnd (ilift (require_same_task_state last_scan expected)) (\<lambda>_.
     ibnd (apply_candidate_manifest (ae_rnd env) saved_plan) (\<lambda>_.
     finish_transaction env journal records marker)))))))))"

definition reconcile_result :: "pyval \<Rightarrow> bool \<Rightarrow> bool \<Rightarrow> dict" where
  "reconcile_result transaction_id committed no_op =
     [(''schema_id'', PStr ''agent-workflow.reconcile-result''), (''schema_version'', PInt 1),
      (''transaction_id'', transaction_id), (''committed'', PBool committed), (''no_op'', PBool no_op)]"

definition apply_plan :: "apply_env \<Rightarrow> scanner option \<Rightarrow> saved_plan_envelope \<Rightarrow> approval option \<Rightarrow> dict io" where
  "apply_plan env scanner saved_plan approval = (case approval of
     None \<Rightarrow> iraise recovery_required
   | Some ap \<Rightarrow>
       if ap_plan_digest ap \<noteq> PStr (se_plan_digest saved_plan) then iraise recovery_required
       else ibnd (ilift (render_candidate_manifest saved_plan)) (\<lambda>candidate_manifest.
         ibnd (ilift (validate_saved_plan_envelope (saved_plan_document saved_plan) candidate_manifest)) (\<lambda>_.
         ibnd (ilift (is_true_noop saved_plan)) (\<lambda>noop.
         if noop then
           ibnd (ilift (lookup (se_plan_core saved_plan) ''transaction_id'')) (\<lambda>transaction_id.
           iret (reconcile_result transaction_id False True))
         else (case (scanner, ap_project_root ap, ap_source_layout ap, ap_target_layout ap, ap_source_schemas ap,
             ap_target_schemas ap) of
             (Some sc, PStr _, Some source_layout, Some target_layout, Some source_schemas, Some target_schemas) \<Rightarrow>
               ibnd (ilift (expected_task_state saved_plan)) (\<lambda>expected.
               ibnd (apply_locks env (se_operation saved_plan) (ap_bootstrap_lock_root ap)) (\<lambda>_.
               ibnd (run_transaction env (sc source_layout target_layout source_schemas target_schemas)
                 saved_plan candidate_manifest target_layout expected) (\<lambda>_.
               ibnd (ilift (lookup (se_plan_core saved_plan) ''transaction_id'')) (\<lambda>transaction_id.
               iret (reconcile_result transaction_id True False)))))
           | _ \<Rightarrow> iraise recovery_required)))))"

end
