(* ===== verification/Recovery.thy ===== *)
theory Recovery
  imports Apply
begin

text \<open>
  \<^verbatim>\<open>reconcile/recovery.py\<close>: what is done about a transaction that was interrupted. Before the Manifest
  is committed it is rolled back or resumed, as the caller says; afterwards it is only cleaned up.
\<close>

section \<open>The state of the transaction\<close>

definition PRECOMMIT_PHASES :: "string list" where
  "PRECOMMIT_PHASES = [''planned'', ''probing'', ''prepared'', ''applying'', ''files_applied'']"

definition recovery_marker :: "dict \<Rightarrow> dict res" where
  "recovery_marker journal =
     bnd (bnd (lookup journal ''immutable_header'') (as_mapping recovery_required)) (\<lambda>header.
     bnd (lookup header ''transaction_id'') (\<lambda>transaction_id.
     bnd (lookup journal ''journal_binding_digest'') (\<lambda>binding.
     bnd (lookup journal ''plan_digest'') (\<lambda>plan_digest.
     bnd (lookup header ''task_quiescence_digest'') (\<lambda>task_digest.
     bnd (lookup header ''candidate_manifest_generation'') (\<lambda>generation.
     Inr
      [(''schema_id'', PStr ''agent-workflow.maintenance-marker''), (''schema_version'', PInt 1),
       (''transaction_id'', transaction_id), (''journal_binding_digest'', binding), (''plan_digest'', plan_digest),
       (''task_quiescence_digest'', task_digest), (''candidate_manifest_generation'', generation)]))))))"

definition manifest_path :: path where
  "manifest_path = [''.agent-workflow'', ''manifest.json'']"

definition manifest_committed :: "dict \<Rightarrow> fs \<Rightarrow> bool res" where
  "manifest_committed journal s =
     (if is_symlink s manifest_path then Inl recovery_required
      else if \<not> is_file s manifest_path then Inr False
      else bnd (bnd (read_json recovery_required manifest_path s) (as_mapping recovery_required)) (\<lambda>manifest.
        bnd (bnd (lookup journal ''immutable_header'') (as_mapping recovery_required)) (\<lambda>header.
        Inr (py_eq (get manifest ''generation'') (get header ''candidate_manifest_generation'')
          \<and> py_eq (get manifest ''last_transaction_id'') (get header ''transaction_id'')
          \<and> py_eq (get manifest ''last_transaction_binding_digest'') (get journal ''journal_binding_digest'')))))"

text \<open>The comparison of the physical part of two file states, without the managed block.\<close>

definition physical_projection :: "file_state \<Rightarrow> string \<times> bool \<times> string \<times> string \<times> string \<times> bool" where
  "physical_projection f = (fs_path f, fs_exists f, fs_type f, fs_hash f, fs_mode f, fs_non_symlink f)"

definition current_matches :: "file_state \<Rightarrow> fs \<Rightarrow> bool res" where
  "current_matches expected s = (case observe_file_state s (fs_path expected) CANONICAL_NULL of
     Inr current \<Rightarrow> Inr (physical_projection current = physical_projection expected)
   | Inl e \<Rightarrow> if is_renderer_failure e then Inr False else Inl e)"

definition candidate_content :: "dict \<Rightarrow> byte list option res" where
  "candidate_content record = (case get record ''candidate_content_utf8'' of
     PNone \<Rightarrow> Inr None
   | PStr t \<Rightarrow> Inr (Some (utf8_encode t))
   | _ \<Rightarrow> Inl recovery_required)"

definition backup_content :: "dict \<Rightarrow> file_state \<Rightarrow> fs \<Rightarrow> byte list option res" where
  "backup_content record original s =
     (if \<not> fs_exists original then Inr None
      else bnd (as_str recovery_required (get record ''backup_path'')) (\<lambda>raw_path.
        case node_at s (path_of raw_path) of
          Some (File payload _) \<Rightarrow>
            if sha256_hex payload \<noteq> fs_hash original then Inl recovery_required else Inr (Some payload)
        | _ \<Rightarrow> Inl recovery_required))"

section \<open>Files\<close>

definition set_applied :: "bool \<Rightarrow> dict \<Rightarrow> dict" where
  "set_applied b record = AList.update ''applied'' (PBool b) record"

definition rollback_file :: "random_name \<Rightarrow> dict \<Rightarrow> dict io" where
  "rollback_file rnd record =
     ibnd (ilift (record_states record)) (\<lambda>(original, candidate).
     ibnd (iread (current_matches original)) (\<lambda>is_original.
     if is_original then iret (set_applied False record)
     else ibnd (iread (current_matches candidate)) (\<lambda>is_candidate.
       if \<not> is_candidate then iraise rollback_conflict
       else ibnd (iread (backup_content record original)) (\<lambda>content.
         ibnd (compare_and_swap rnd candidate original content) (\<lambda>_.
         iret (set_applied False record))))))"

definition rollback_files :: "random_name \<Rightarrow> dict list \<Rightarrow> dict list io" where
  "rollback_files rnd records = ibnd (imap (rollback_file rnd) (rev records)) (\<lambda>rs. iret (rev rs))"

definition resume_file :: "random_name \<Rightarrow> dict \<Rightarrow> dict io" where
  "resume_file rnd record =
     ibnd (ilift (record_states record)) (\<lambda>(original, candidate).
     ibnd (iread (current_matches candidate)) (\<lambda>is_candidate.
     if is_candidate then iret (set_applied True record)
     else ibnd (iread (current_matches original)) (\<lambda>is_original.
       if \<not> is_original then iraise cas_mismatch
       else ibnd (ilift (candidate_content record)) (\<lambda>content.
         ibnd (compare_and_swap rnd original candidate content) (\<lambda>_.
         iret (set_applied True record))))))"

definition resume_files :: "random_name \<Rightarrow> dict list \<Rightarrow> dict list io" where
  "resume_files rnd records = imap (resume_file rnd) records"

text \<open>\<^verbatim>\<open>sorted(..., key=lambda item: item.count("/"), reverse=True)\<close> keeps the order of equal counts.\<close>

definition deepest_first :: "string list \<Rightarrow> string list" where
  "deepest_first ds = rev (sort_key slash_count (rev ds))"

definition remove_created_directory :: "string \<Rightarrow> unit io" where
  "remove_created_directory d = (let p = path_of d in
     ibnd iget (\<lambda>s. iwhen (path_exists s p)
       (if is_symlink s p \<or> \<not> is_dir s p \<or> has_children s p then iraise rollback_conflict else rmdir p)))"

definition cleanup_created_directories :: "pyval list \<Rightarrow> unit io" where
  "cleanup_created_directories directories = iforeach remove_created_directory (deepest_first (map py_str directories))"

section \<open>Marker, scan, Manifest and locks\<close>

definition remove_marker_if_present :: "dict \<Rightarrow> unit io" where
  "remove_marker_if_present marker = ibnd iget (\<lambda>s.
     iwhen (path_exists s maintenance_path \<or> is_symlink s maintenance_path) (remove_maintenance marker))"

definition ensure_marker :: "random_name \<Rightarrow> dict \<Rightarrow> bool \<Rightarrow> dict io" where
  "ensure_marker rnd journal allow_create =
     ibnd (ilift (recovery_marker journal)) (\<lambda>marker.
     ibnd iget (\<lambda>s.
     if path_exists s maintenance_path \<or> is_symlink s maintenance_path then
       (if is_symlink s maintenance_path \<or> \<not> is_file s maintenance_path then iraise maintenance_corrupt
        else ibnd (read_bytes maintenance_path) (\<lambda>current.
          ibnd (ilift (canonical_json_bytes (PDict marker))) (\<lambda>bound.
          if current \<noteq> bound then iraise maintenance_corrupt else iret marker)))
     else if \<not> allow_create then iraise maintenance_corrupt
     else ibnd (write_maintenance rnd marker) (\<lambda>_. iret marker)))"

record scanner_context =
  sx_source_layout :: "task_layout option"
  sx_target_layout :: "task_layout option"
  sx_source_schemas :: "verified_discovery_schemas option"
  sx_target_schemas :: "verified_discovery_schemas option"
  sx_bootstrap_lock_root :: pyval

definition require_recovery_scan :: "scanner option \<Rightarrow> scanner_context option \<Rightarrow> dict \<Rightarrow> fs \<Rightarrow> unit res" where
  "require_recovery_scan scanner context journal s = (case (scanner, context) of
     (Some sc, Some cx) \<Rightarrow>
       (case (sx_source_layout cx, sx_target_layout cx, sx_source_schemas cx, sx_target_schemas cx) of
          (Some src_lay, Some tgt_lay, Some src_sch, Some tgt_sch) \<Rightarrow>
            bnd (sc src_lay tgt_lay src_sch tgt_sch s) (\<lambda>actual.
            bnd (bnd (lookup journal ''task_quiescence_snapshot'') (as_mapping recovery_required)) (\<lambda>expected.
            bnd (canonical_json_bytes (PDict (task_state_document actual))) (\<lambda>a.
            bnd (canonical_json_bytes (PDict expected)) (\<lambda>b.
            require (a = b) quiescence_changed))))
        | _ \<Rightarrow> Inl recovery_required)
   | _ \<Rightarrow> Inl recovery_required)"

definition apply_manifest_from_journal :: "random_name \<Rightarrow> dict \<Rightarrow> unit io" where
  "apply_manifest_from_journal rnd journal =
     ibnd (ilift (bnd (lookup journal ''immutable_header'') (as_mapping recovery_required))) (\<lambda>header.
     ibnd (ilift (lookup header ''operation'')) (\<lambda>operation.
     ibnd (ilift (if py_str operation = ''init'' then Inr (absent_state manifest_text)
        else bnd (lookup header ''baseline_manifest_digest'') (\<lambda>h. Inr (regular_state manifest_text (py_str h) ''0644''))))
       (\<lambda>expected.
     ibnd (ilift (lookup journal ''candidate_manifest_digest'')) (\<lambda>candidate_digest.
     ibnd (ilift (bnd (bnd (lookup journal ''candidate_manifest'') (as_mapping recovery_required))
          (\<lambda>m. canonical_json_bytes (PDict m)))) (\<lambda>payload.
     ibnd (compare_and_swap rnd expected (regular_state manifest_text (py_str candidate_digest) ''0644'') (Some payload))
       (\<lambda>_. iret ()))))))"

definition recovery_locks :: "apply_env \<Rightarrow> dict \<Rightarrow> scanner_context option \<Rightarrow> unit io" where
  "recovery_locks env journal context =
     ibnd (ilift (bnd (lookup journal ''immutable_header'') (as_mapping recovery_required))) (\<lambda>header.
     if get header ''operation'' = PStr ''init'' then
       (case context of
          None \<Rightarrow> iraise reconcile_locked
        | Some cx \<Rightarrow> apply_locks env ''init'' (sx_bootstrap_lock_root cx))
     else acquire_project_locks)"

section \<open>Recovery\<close>

definition cleanup_committed :: "random_name \<Rightarrow> dict \<Rightarrow> dict list \<Rightarrow> unit io" where
  "cleanup_committed rnd journal records =
     ibnd (ilift (recovery_marker journal)) (\<lambda>marker.
     ibnd (if get journal ''phase'' \<in> {PStr ''cleanup_pending'', PStr ''complete''} then iret journal
       else ibnd (advance rnd journal ''manifest_committed'' (Some records)) (\<lambda>j.
         advance rnd j ''cleanup_pending'' (Some records))) (\<lambda>journal.
     ibnd (remove_marker_if_present marker) (\<lambda>_.
     ibnd (cleanup_transaction_data records) (\<lambda>_.
     if get journal ''phase'' = PStr ''complete'' then iret ()
     else ibnd (advance rnd journal ''complete'' (Some records)) (\<lambda>_. iret ())))))"

definition rollback_transaction :: "random_name \<Rightarrow> dict \<Rightarrow> dict list \<Rightarrow> unit io" where
  "rollback_transaction rnd journal records =
     ibnd (rollback_files rnd records) (\<lambda>records.
     ibnd (ilift (bnd (lookup journal ''created_directories'') (as_array recovery_required))) (\<lambda>directories.
     ibnd (cleanup_created_directories directories) (\<lambda>_.
     ibnd (ilift (recovery_marker journal)) (\<lambda>marker.
     ibnd (remove_marker_if_present marker) (\<lambda>_.
     ibnd (cleanup_transaction_data records) (\<lambda>_.
     ibnd (ilift (advance_journal journal ''complete'' (Some records) None
        (Some [(''status'', PStr ''rolled-back'')]))) (\<lambda>journal.
     ibnd (write_journal rnd journal) (\<lambda>_. iret ()))))))))"

definition resume_preparation :: "apply_env \<Rightarrow> string \<Rightarrow> dict \<Rightarrow> dict list \<Rightarrow> (dict \<times> dict list) io" where
  "resume_preparation env transaction_id journal records =
     ibnd (advance (ae_rnd env) journal ''probing'' (Some records)) (\<lambda>journal.
     ibnd (run_write_probe (ae_probe env) transaction_id) (\<lambda>_.
     ibnd (ilift (bnd (lookup journal ''created_directories'') (as_array recovery_required))) (\<lambda>directories.
     ibnd (prepare_backups records (map py_str directories)) (\<lambda>records.
     ibnd (advance (ae_rnd env) journal ''prepared'' (Some records)) (\<lambda>journal.
     iret (journal, records))))))"

definition resume_transaction ::
  "apply_env \<Rightarrow> scanner option \<Rightarrow> scanner_context option \<Rightarrow> string \<Rightarrow> dict \<Rightarrow> dict list \<Rightarrow> string \<Rightarrow> unit io" where
  "resume_transaction env scanner context transaction_id journal records phase = (let rnd = ae_rnd env in
     ibnd (if phase \<in> {''planned'', ''probing''}
       then ibnd (resume_preparation env transaction_id journal records) (\<lambda>(j, rs). iret (j, rs, ''prepared''))
       else iret (journal, records, phase)) (\<lambda>(journal, records, phase).
     ibnd (ensure_marker rnd journal (phase = ''prepared'')) (\<lambda>marker.
     ibnd (if phase = ''prepared'' then advance rnd journal ''applying'' (Some records) else iret journal) (\<lambda>journal.
     ibnd (resume_files rnd records) (\<lambda>records.
     ibnd (advance rnd journal ''files_applied'' (Some records)) (\<lambda>journal.
     ibnd (iread (require_recovery_scan scanner context journal)) (\<lambda>_.
     ibnd (apply_manifest_from_journal rnd journal) (\<lambda>_.
     ibnd (advance rnd journal ''manifest_committed'' (Some records)) (\<lambda>journal.
     ibnd (advance rnd journal ''cleanup_pending'' (Some records)) (\<lambda>journal.
     ibnd (remove_marker_if_present marker) (\<lambda>_.
     ibnd (cleanup_transaction_data records) (\<lambda>_.
     ibnd (advance rnd journal ''complete'' (Some records)) (\<lambda>_.
     iret ())))))))))))))"

definition recovery_result :: "string \<Rightarrow> bool \<Rightarrow> bool \<Rightarrow> dict" where
  "recovery_result transaction_id committed rolled_back =
     [(''schema_id'', PStr ''agent-workflow.reconcile-recovery-result''), (''schema_version'', PInt 1),
      (''transaction_id'', PStr transaction_id), (''committed'', PBool committed), (''rolled_back'', PBool rolled_back)]"

definition recover_transaction ::
  "apply_env \<Rightarrow> string \<Rightarrow> string \<Rightarrow> scanner option \<Rightarrow> scanner_context option \<Rightarrow> dict io" where
  "recover_transaction env transaction_id action scanner context =
     (if action \<notin> {''resume'', ''rollback''} then iraise recovery_required
      else ibnd (iread (load_journal (transaction_path transaction_id))) (\<lambda>journal.
       ibnd (ilift (bnd (bnd (lookup journal ''file_records'') (as_array recovery_required))
          (mapr (as_mapping recovery_required)))) (\<lambda>records.
       ibnd (recovery_locks env journal context) (\<lambda>_.
       ibnd (iread (manifest_committed journal)) (\<lambda>committed.
       if committed then
         (if action = ''rollback'' then iraise recovery_required
          else ibnd (cleanup_committed (ae_rnd env) journal records) (\<lambda>_.
            iret (recovery_result transaction_id True False)))
       else let phase = py_str (get journal ''phase'') in
         if phase \<notin> set PRECOMMIT_PHASES then iraise recovery_required
         else if action = ''rollback'' then
           ibnd (rollback_transaction (ae_rnd env) journal records) (\<lambda>_.
           iret (recovery_result transaction_id False True))
         else ibnd (resume_transaction env scanner context transaction_id journal records phase) (\<lambda>_.
           iret (recovery_result transaction_id True False)))))))"

end
