(* ===== verification/Settle.thy ===== *)
theory Settle
  imports Recovery
begin

text \<open>
  The three loops over file records: \<^verbatim>\<open>_apply_file_records\<close> swaps every file from its original to its
  candidate state, \<^verbatim>\<open>_resume_files\<close> does so for the files that are not there yet and \<^verbatim>\<open>_rollback_files\<close>
  goes back. What they share is the locale \<open>settling\<close>: a round leaves its file alone or swaps it from
  the state it comes from to the state it goes to. The theorems say where the loops end, what a crash
  in them leaves, that they overwrite no foreign content and that they succeed from any state a crash
  in the first of them leaves.
\<close>

section \<open>Files in a state\<close>

text \<open>The file of the state is there as it says, and every directory above it.\<close>

definition holds :: "file_state \<Rightarrow> fs \<Rightarrow> bool" where
  "holds e s = (canonical_path (fs_path e) \<and> reachable_parents s (target_of e) \<and> describes e (node_at s (target_of e)))"

lemma assert_state_holds: "assert_state e s = Inr u \<longleftrightarrow> holds e s"
  by (simp add: assert_state_Inr_iff holds_def)

lemma holds_target: "holds e s \<Longrightarrow> target_of e \<noteq> []"
  using path_of_canonical by (auto simp: holds_def)

definition dirs_above :: "fs \<Rightarrow> path \<Rightarrow> bool" where
  "dirs_above s t = list_all (is_dir s) (ancestors t)"

lemma dirs_above_reachable: "dirs_above s t \<Longrightarrow> reachable_parents s t"
  by (auto simp: dirs_above_def reachable_parents_def list_all_iff is_dir_def is_symlink_def split: option.splits node.splits)

lemma dirs_above_parent: "dirs_above s t \<Longrightarrow> t \<noteq> [] \<Longrightarrow> is_dir s (parent t)"
proof (cases "length t = 1")
  case True
  then have "parent t = []" by (cases t) auto
  then show ?thesis by (simp add: is_dir_def node_at_def)
next
  case False
  assume d: "dirs_above s t" and t: "t \<noteq> []"
  with False have "length t > 1" by (cases t) auto
  then have "parent t \<in> set (ancestors t)"
    by (auto simp: ancestors_def butlast_conv_take intro!: image_eqI [where x = "length t - 1"])
  with d show ?thesis by (simp add: dirs_above_def list_all_iff)
qed

lemma current_matches_holds: "current_matches e s = Inr True \<longleftrightarrow> holds e s"
proof (cases "observe_file_state s (fs_path e) CANONICAL_NULL")
  case (Inl x)
  have "\<not> holds e s"
  proof
    assume "holds e s"
    then have "observe_file_state s (fs_path e) CANONICAL_NULL = Inr (e\<lparr>fs_block := CANONICAL_NULL\<rparr>)"
      by (auto simp: observe_Inr_iff holds_def describes_def split: option.splits node.splits)
    with Inl show False by simp
  qed
  then show ?thesis by (simp add: current_matches_def Inl)
next
  case (Inr f)
  then have f: "canonical_path (fs_path e)" "reachable_parents s (target_of e)" "fs_path f = fs_path e"
      "describes f (node_at s (target_of e))"
    by (simp_all add: observe_Inr_iff)
  have "physical_projection f = physical_projection e \<longleftrightarrow> describes e (node_at s (target_of e))"
    using f(3,4) by (auto simp: physical_projection_def describes_def split: option.splits node.splits)
  then show ?thesis using f(1,2) by (simp add: current_matches_def Inr holds_def)
qed


lemma current_matches_canonical: "canonical_path (fs_path e) \<Longrightarrow> current_matches e s = Inr (holds e s)"
proof (cases "current_matches e s")
  case (Inl x)
  assume c: "canonical_path (fs_path e)"
  have "is_renderer_failure y" if "observe_file_state s (fs_path e) CANONICAL_NULL = Inl y" for y
    using that c normalize_path_Inr_iff [of "PStr (fs_path e)" "fs_path e"]
    by (auto simp: observe_file_state_def cas_target_def normalize_mode_def Let_def bnd_Inl_iff renderer_failure_def is_renderer_failure_def
        split: if_splits option.splits node.splits)
  then show ?thesis using Inl by (auto simp: current_matches_def split: sum.splits if_splits)
next
  case (Inr b)
  then show ?thesis using current_matches_holds [of e s] by (cases b) auto
qed

section \<open>Progress of a loop\<close>

definition names_fresh :: "random_name \<Rightarrow> bool" where
  "names_fresh rnd = (\<forall>dir prefix s. fmlookup s (dir @ [prefix @ rnd dir prefix s]) = None)"

lemma names_fresh_temp: "names_fresh rnd \<Longrightarrow> fmlookup s (temp_path rnd t s) = None"
  by (simp add: names_fresh_def temp_path_def)

text \<open>
  Every file is as it was, or is in one of the given states, or is a temporary file that was not
  there before.
\<close>

definition progress :: "file_state set \<Rightarrow> fs \<Rightarrow> fs \<Rightarrow> bool" where
  "progress G s u = (\<forall>p. node_at u p = node_at s p \<or> (\<exists>g \<in> G. p = target_of g \<and> describes g (node_at u p)) \<or>
     (temp_name p \<and> node_at s p = None))"

lemma progress_refl [simp]: "progress G s s"
  by (simp add: progress_def)

lemma progress_trans:
  assumes "progress G s u" and "progress G u v" and "\<And>g. g \<in> G \<Longrightarrow> \<not> temp_name (target_of g)"
  shows "progress G s v"
  unfolding progress_def
proof
  fix p
  note su = assms(1) [unfolded progress_def, rule_format, of p]
  show "node_at v p = node_at s p \<or> (\<exists>g \<in> G. p = target_of g \<and> describes g (node_at v p)) \<or>
     (temp_name p \<and> node_at s p = None)"
    using assms(2) [unfolded progress_def, rule_format, of p]
  proof (elim disjE)
    assume "temp_name p \<and> node_at u p = None"
    with su assms(3) show ?thesis by auto
  qed (use su in auto)
qed

lemma progress_cas_states:
  assumes "u \<in> cas_states rnd g k s" and "good_candidate g k" and "target_of g \<noteq> []" and "g \<in> G"
  shows "progress G s u"
  using cas_states_cases [OF assms(1,3)]
proof (elim disjE exE conjE)
  assume u: "u = swapped g k s"
  show ?thesis
    using swapped_same_except [of g s k] swapped_node [OF assms(2,3), of s] assms(4)
    by (auto simp: progress_def u same_except_def)
next
  fix q bs m
  assume "temp_name q" "q \<noteq> []" "fmlookup s q = None" "u = fmupd q (File bs m) s"
  then show ?thesis by (auto simp: progress_def node_at_def)
qed simp

text \<open>
  No record writes where another record or its content lies, and no path of a record looks like a
  temporary file.
\<close>

definition separate :: "('r \<Rightarrow> path) \<Rightarrow> ('r \<Rightarrow> path set) \<Rightarrow> 'r list \<Rightarrow> bool" where
  "separate target sources rs = (distinct (map target rs) \<and>
     (\<forall>r \<in> set rs. \<not> temp_name (target r) \<and> (\<forall>p \<in> sources r. \<not> temp_name p) \<and>
       (\<forall>r' \<in> set rs. target r' \<notin> set (ancestors (target r)) \<and> target r' \<notin> sources r)))"

lemma separate_same_target: "separate target sources rs \<Longrightarrow> r \<in> set rs \<Longrightarrow> r' \<in> set rs \<Longrightarrow> target r = target r' \<Longrightarrow> r = r'"
  by (auto simp: separate_def distinct_map inj_on_def)

lemma progress_dirs_above:
  assumes "separate (\<lambda>r. target_of (goal r)) sources rs" and "r \<in> set rs"
    and "progress (goal ` set rs) s u" and "dirs_above s (target_of (goal r))"
  shows "dirs_above u (target_of (goal r))"
  unfolding dirs_above_def list_all_iff
proof
  fix q assume q: "q \<in> set (ancestors (target_of (goal r)))"
  with assms(4) have d: "is_dir s q" by (simp add: dirs_above_def list_all_iff)
  have "node_at u q = node_at s q"
    using assms(3) [unfolded progress_def, rule_format, of q]
  proof (elim disjE)
    assume "\<exists>g \<in> goal ` set rs. q = target_of g \<and> describes g (node_at u q)"
    then show ?thesis using assms(1,2) q by (auto simp: separate_def)
  qed (use d in \<open>auto simp: is_dir_def\<close>)
  with d show "is_dir u q" by (simp add: is_dir_def)
qed

lemma progress_target:
  assumes "separate (\<lambda>r. target_of (goal r)) sources rs" and "r \<in> set rs" and "progress (goal ` set rs) s u"
  shows "node_at u (target_of (goal r)) = node_at s (target_of (goal r)) \<or>
    describes (goal r) (node_at u (target_of (goal r)))"
  using assms(3) [unfolded progress_def, rule_format, of "target_of (goal r)"]
proof (elim disjE bexE conjE)
  fix g assume "g \<in> goal ` set rs" "target_of (goal r) = target_of g" "describes g (node_at u (target_of (goal r)))"
  moreover from this obtain r' where "r' \<in> set rs" "g = goal r'" by blast
  ultimately show ?thesis using separate_same_target [OF assms(1,2)] by auto
qed (use assms(1,2) in \<open>auto simp: separate_def\<close>)

lemma progress_sources:
  assumes "separate (\<lambda>r. target_of (goal r)) sources rs" and "r \<in> set rs" and "progress (goal ` set rs) s u"
    and "p \<in> sources r"
  shows "node_at u p = node_at s p"
  using assms(3) [unfolded progress_def, rule_format, of p] assms(1,2,4) by (auto simp: separate_def)

section \<open>The interface of the loops\<close>

text \<open>The file of the record is at its goal, or a swap that would bring it there is possible.\<close>

definition settleable :: "('r \<Rightarrow> file_state) \<Rightarrow> ('r \<Rightarrow> file_state) \<Rightarrow> ('r \<Rightarrow> fs \<Rightarrow> byte list option res) \<Rightarrow>
    'r \<Rightarrow> fs \<Rightarrow> bool" where
  "settleable goal other content r s = (canonical_path (fs_path (goal r)) \<and> fs_path (other r) = fs_path (goal r) \<and>
     fs_type (other r) \<noteq> ''directory'' \<and> dirs_above s (target_of (goal r)) \<and>
     (holds (goal r) s \<or> holds (other r) s) \<and> (\<exists>k. content r s = Inr k \<and> good_candidate (goal r) k))"

locale swapping =
  fixes step :: "random_name \<Rightarrow> 'r \<Rightarrow> 'r io"
    and goal other :: "'r \<Rightarrow> file_state"
    and content :: "'r \<Rightarrow> fs \<Rightarrow> byte list option res"
    and sources :: "'r \<Rightarrow> path set"
  assumes step_ok: "outcome (step rnd r) s = Inr r' \<Longrightarrow>
      holds (goal r) s \<and> final (step rnd r) s = s \<or>
      holds (other r) s \<and> fs_path (other r) = fs_path (goal r) \<and>
        (\<exists>k. good_candidate (goal r) k \<and> final (step rnd r) s = swapped (goal r) k s)"
    and step_states: "u \<in> set (states (step rnd r) s) \<Longrightarrow> u = s \<or>
      holds (other r) s \<and> fs_path (other r) = fs_path (goal r) \<and>
        (\<exists>k. content r s = Inr k \<and> u \<in> cas_states rnd (goal r) k s)"
    and content_cong: "(\<And>p. p \<in> sources r \<Longrightarrow> node_at s p = node_at s' p) \<Longrightarrow> content r s = content r s'"

locale settling = swapping +
  assumes step_succeeds: "settleable goal other content r s \<Longrightarrow> names_fresh rnd \<Longrightarrow>
      \<not> temp_name (target_of (goal r)) \<Longrightarrow> \<exists>r'. outcome (step rnd r) s = Inr r'"

context swapping
begin

abbreviation target :: "'r \<Rightarrow> path" where
  "target r \<equiv> target_of (goal r)"

lemma step_frame:
  assumes "outcome (step rnd r) s = Inr r'"
  shows "same_except {target r} s (final (step rnd r) s)" "describes (goal r) (node_at (final (step rnd r) s) (target r))"
proof -
  from step_ok [OF assms] have "same_except {target r} s (final (step rnd r) s) \<and>
      describes (goal r) (node_at (final (step rnd r) s) (target r))"
  proof (elim disjE exE conjE)
    fix k assume k: "good_candidate (goal r) k" "final (step rnd r) s = swapped (goal r) k s"
      and "holds (other r) s" "fs_path (other r) = fs_path (goal r)"
    then have "target r \<noteq> []" using holds_target by metis
    then show ?thesis
      using swapped_node [OF k(1)] swapped_same_except [of "goal r" s k] by (simp add: k(2))
  qed (simp add: same_except_def holds_def)
  then show "same_except {target r} s (final (step rnd r) s)" "describes (goal r) (node_at (final (step rnd r) s) (target r))"
    by simp_all
qed

text \<open>A loop that ends has brought every file to its goal and touched nothing else.\<close>

lemma loop_settles:
  assumes "distinct (map target rs)" and "outcome (imap (step rnd) rs) s = Inr rs'"
  shows "\<forall>r \<in> set rs. describes (goal r) (node_at (final (imap (step rnd) rs) s) (target r))"
    and "same_except (target ` set rs) s (final (imap (step rnd) rs) s)"
proof -
  have "(\<forall>r \<in> set rs. describes (goal r) (node_at (final (imap (step rnd) rs) s) (target r))) \<and>
      same_except (target ` set rs) s (final (imap (step rnd) rs) s)"
    using assms
  proof (induction rs arbitrary: s rs')
    case Nil
    then show ?case by (simp add: same_except_def)
  next
    case (Cons r rs)
    then obtain r1 where r1: "outcome (step rnd r) s = Inr r1"
      by (auto simp: outcome_ibnd_Inr)
    with Cons.prems(2) obtain rs1 where rs1: "outcome (imap (step rnd) rs) (final (step rnd r) s) = Inr rs1"
      by (auto simp: outcome_ibnd_Inr)
    have f: "final (imap (step rnd) (r # rs)) s = final (imap (step rnd) rs) (final (step rnd r) s)"
      using r1 rs1 by (simp add: io_simps)
    have d: "distinct (map target rs)" using Cons.prems(1) by simp
    note ih = conjunct1 [OF Cons.IH [OF d rs1]] conjunct2 [OF Cons.IH [OF d rs1]]
    have "target r \<notin> target ` set rs" using Cons.prems(1) by simp
    then have "node_at (final (imap (step rnd) rs) (final (step rnd r) s)) (target r) = node_at (final (step rnd r) s) (target r)"
      using ih(2) unfolding same_except_def by blast
    then show ?case
      using ih step_frame [OF r1] unfolding f same_except_def by auto
  qed
  then show "\<forall>r \<in> set rs. describes (goal r) (node_at (final (imap (step rnd) rs) s) (target r))"
    and "same_except (target ` set rs) s (final (imap (step rnd) rs) s)"
    by simp_all
qed

text \<open>A file in neither of its states is touched at no point, and the loop does not end.\<close>

lemma step_other:
  assumes "u \<in> set (states (step rnd r) s)" and "\<not> temp_name t" 
    and "t = target r \<Longrightarrow> \<not> describes (other r) (node_at s t)"
  shows "node_at u t = node_at s t"
  using step_states [OF assms(1)]
proof (elim disjE exE conjE)
  fix k assume h: "holds (other r) s" "fs_path (other r) = fs_path (goal r)" and u: "u \<in> cas_states rnd (goal r) k s"
  then have ne: "target r \<noteq> []" and "t \<noteq> target r"
    using holds_target [OF h(1)] assms(3) by (auto simp: holds_def)
  then show ?thesis
    using cas_states_cases [OF u ne] swapped_same_except [of "goal r" s k] assms(2)
    by (auto simp: same_except_def node_at_fmupd)
qed simp

lemma loop_keeps_foreign:
  assumes "distinct (map target rs)" and "r \<in> set rs" and "\<not> temp_name (target r)"
    and "\<not> describes (goal r) (node_at s (target r))" and "\<not> describes (other r) (node_at s (target r))"
  shows "\<forall>u \<in> set (states (imap (step rnd) rs) s). node_at u (target r) = node_at s (target r)"
    and "\<exists>e. outcome (imap (step rnd) rs) s = Inl e"
proof -
  show A: "\<forall>u \<in> set (states (imap (step rnd) rs) s). node_at u (target r) = node_at s (target r)"
  proof (rule conjunct1 [OF imap_invariant [where I = "\<lambda>u. node_at u (target r) = node_at s (target r)"]], goal_cases)
    case (2 x v)
    have "node_at u (target r) = node_at v (target r)" if "u \<in> set (states (step rnd x) v)" for u
    proof (rule step_other [OF that assms(3)])
      assume "target r = target x"
      then have "x = r" using assms(1,2) 2(1) by (auto simp: distinct_map inj_on_def)
      then show "\<not> describes (other x) (node_at v (target r))" using 2(2) assms(5) by simp
    qed
    then show ?case using 2(2) final_in_states by auto
  qed simp_all
  show "\<exists>e. outcome (imap (step rnd) rs) s = Inl e"
  proof (cases "outcome (imap (step rnd) rs) s")
    case (Inr rs')
    with loop_settles(1) [OF assms(1) Inr] assms(2,4) A show ?thesis
      using final_in_states by metis
  qed blast
qed

text \<open>What a crash in the loop leaves.\<close>

lemma loop_progress:
  assumes "separate target sources rs" and "\<And>r. r \<in> set rs \<Longrightarrow> settleable goal other content r s"
  shows "\<forall>u \<in> set (states (imap (step rnd) rs) s). progress (goal ` set rs) s u"
proof (rule conjunct1 [OF imap_invariant [where I = "progress (goal ` set rs) s"]], goal_cases)
  case (2 r v)
  have "progress (goal ` set rs) s u" if u: "u \<in> set (states (step rnd r) v)" for u
    using step_states [OF u]
  proof (elim disjE exE conjE)
    fix k assume k: "content r v = Inr k" "u \<in> cas_states rnd (goal r) k v"
      and h: "holds (other r) v" "fs_path (other r) = fs_path (goal r)"
    have "content r v = content r s"
      using progress_sources [OF assms(1) 2] by (intro content_cong) simp
    then have "good_candidate (goal r) k"
      using assms(2) [OF 2(1)] k(1) by (auto simp: settleable_def)
    then have "progress (goal ` set rs) v u"
      using progress_cas_states [OF k(2)] holds_target [OF h(1)] h(2) 2(1) by auto
    with 2(2) show ?thesis
      by (rule progress_trans) (use assms(1) in \<open>auto simp: separate_def\<close>)
  qed (use 2 in simp)
  then show ?case using final_in_states by auto
qed simp_all

end

context settling
begin

lemma settleable_progress:
  assumes "separate target sources rs" and "r \<in> set rs" and "settleable goal other content r s"
    and "progress (goal ` set rs) s u"
  shows "settleable goal other content r u"
proof -
  have d: "dirs_above u (target r)"
    using progress_dirs_above [OF assms(1,2,4)] assms(3) by (simp add: settleable_def)
  have "content r u = content r s"
    using progress_sources [OF assms(1,2,4)] by (intro content_cong)
  moreover have "holds (goal r) u \<or> holds (other r) u"
    using progress_target [OF assms(1,2,4)] assms(3) dirs_above_reachable [OF d]
    by (auto simp: settleable_def holds_def)
  ultimately show ?thesis
    using assms(3) d by (simp add: settleable_def)
qed

text \<open>When every file is in one of its states and its content is there, the loop ends.\<close>

lemma loop_succeeds:
  assumes "separate target sources rs" and "\<And>r. r \<in> set rs \<Longrightarrow> settleable goal other content r s" and "names_fresh rnd"
  shows "\<exists>rs'. outcome (imap (step rnd) rs) s = Inr rs'"
proof -
  have "\<exists>ys. outcome (imap (step rnd) xs) v = Inr ys"
    if "set xs \<subseteq> set rs" and "progress (goal ` set rs) s v" for xs v
    using that
  proof (induction xs arbitrary: v)
    case (Cons r xs)
    then have r: "r \<in> set rs" by simp
    note sv = settleable_progress [OF assms(1) r assms(2) [OF r] Cons.prems(2)]
    obtain r' where r': "outcome (step rnd r) v = Inr r'"
      using step_succeeds [OF sv assms(3)] assms(1) r by (auto simp: separate_def)
    have "settleable goal other content x v" if "x \<in> set [r]" for x using sv that by simp
    then have "progress (goal ` set [r]) v (final (imap (step rnd) [r]) v)"
      using loop_progress [of "[r]" v rnd] assms(1) r final_in_states by (auto simp: separate_def)
    then have "progress (goal ` set rs) v (final (step rnd r) v)"
      using r r' unfolding progress_def by (simp add: io_simps) blast
    then have "progress (goal ` set rs) s (final (step rnd r) v)"
      by (rule progress_trans [OF Cons.prems(2)]) (use assms(1) in \<open>auto simp: separate_def\<close>)
    then obtain ys where "outcome (imap (step rnd) xs) (final (step rnd r) v) = Inr ys"
      using Cons.IH Cons.prems(1) by auto
    with r' show ?case by (simp add: io_simps)
  qed simp
  then show ?thesis by simp
qed

end

section \<open>The loops of apply, resume and rollback\<close>

definition states_of :: "dict \<Rightarrow> file_state \<times> file_state" where
  "states_of r = (case record_states r of Inr p \<Rightarrow> p | Inl _ \<Rightarrow> (absent_state [], absent_state []))"

definition original_of :: "dict \<Rightarrow> file_state" where
  "original_of r = fst (states_of r)"

definition candidate_of :: "dict \<Rightarrow> file_state" where
  "candidate_of r = snd (states_of r)"

lemma record_states_Inr: "record_states r = Inr (e, c) \<Longrightarrow> original_of r = e \<and> candidate_of r = c"
  by (simp add: original_of_def candidate_of_def states_of_def)

lemma record_states_settleable:
  "canonical_path (fs_path (original_of r)) \<Longrightarrow> record_states r = Inr (original_of r, candidate_of r)"
  by (cases "record_states r")
     (auto simp: original_of_def candidate_of_def states_of_def absent_state_def canonical_path_def path_of_def)

definition apply_content :: "dict \<Rightarrow> fs \<Rightarrow> byte list option res" where
  "apply_content r s = bnd (lookup r ''candidate_content_utf8'') (\<lambda>raw. Inr (content_bytes raw))"

definition rollback_content :: "dict \<Rightarrow> fs \<Rightarrow> byte list option res" where
  "rollback_content r s = backup_content r (original_of r) s"

definition resume_content :: "dict \<Rightarrow> fs \<Rightarrow> byte list option res" where
  "resume_content r s = candidate_content r"

definition backup_source :: "dict \<Rightarrow> path set" where
  "backup_source r = (case get r ''backup_path'' of PStr b \<Rightarrow> {path_of b} | _ \<Rightarrow> {})"

lemma cas_effect:
  assumes "outcome (compare_and_swap rnd e c k) s = Inr x"
  shows "holds e s \<and> fs_path e = fs_path c \<and> good_candidate c k \<and> final (compare_and_swap rnd e c k) s = swapped c k s"
  using cas_run_ok [OF assms] assert_state_holds by blast

lemma cas_crash:
  assumes "u \<in> set (states (compare_and_swap rnd e c k) s)"
  shows "u = s \<or> holds e s \<and> fs_path e = fs_path c \<and> u \<in> cas_states rnd c k s"
proof (cases "fs_path e = fs_path c \<and> assert_state e s = Inr ()")
  case True
  then show ?thesis using assms cas_run_states assert_state_holds by blast
next
  case False
  then have "set (states (compare_and_swap rnd e c k) s) = {s}"
    by (cases "cas_target s (fs_path e)"; cases "assert_state e s") (auto simp: compare_and_swap_def io_simps)
  with assms show ?thesis by simp
qed

lemma cas_succeeds:
  assumes "settleable goal other content r s" and "holds (other r) s" and "content r s = Inr k" and "names_fresh rnd"
    and "\<not> temp_name (target_of (goal r))"
  shows "outcome (compare_and_swap rnd (other r) (goal r) k) s = Inr (goal r)"
proof (rule cas_run_succeeds)
  have ne: "target_of (goal r) \<noteq> []"
    using assms(1) path_of_canonical by (auto simp: settleable_def)
  then show "is_dir s (parent (target_of (goal r))) \<and>
      fmlookup s (temp_path rnd (target_of (goal r)) s) = None \<and> temp_path rnd (target_of (goal r)) s \<noteq> target_of (goal r)"
    using assms(1,4,5) dirs_above_parent [OF _ ne] names_fresh_temp temp_path_name(1)
    unfolding settleable_def by metis
qed (use assms in \<open>auto simp: settleable_def assert_state_holds\<close>)

interpretation apply_loop: swapping apply_file candidate_of original_of apply_content "\<lambda>_. {}"
proof
  fix rnd r s r'
  assume "outcome (apply_file rnd r) s = Inr r'"
  then obtain e c raw x where r: "record_states r = Inr (e, c)" "lookup r ''candidate_content_utf8'' = Inr raw"
      "outcome (compare_and_swap rnd e c (content_bytes raw)) s = Inr x"
    by (auto simp: apply_file_def outcome_ibnd_Inr)
  moreover from this have "final (apply_file rnd r) s = final (compare_and_swap rnd e c (content_bytes raw)) s"
    by (simp add: apply_file_def io_simps)
  ultimately show "holds (candidate_of r) s \<and> final (apply_file rnd r) s = s \<or>
      holds (original_of r) s \<and> fs_path (original_of r) = fs_path (candidate_of r) \<and>
        (\<exists>k. good_candidate (candidate_of r) k \<and> final (apply_file rnd r) s = swapped (candidate_of r) k s)"
    using cas_effect [OF r(3)] record_states_Inr [OF r(1)] by auto
next
  fix rnd r s u
  assume u: "u \<in> set (states (apply_file rnd r) s)"
  show "u = s \<or> holds (original_of r) s \<and> fs_path (original_of r) = fs_path (candidate_of r) \<and>
        (\<exists>k. apply_content r s = Inr k \<and> u \<in> cas_states rnd (candidate_of r) k s)"
  proof (cases "record_states r")
    case (Inr p)
    obtain e c where p: "p = (e, c)" by (cases p)
    show ?thesis
    proof (cases "lookup r ''candidate_content_utf8''")
      case raw: (Inr raw)
      have "u \<in> set (states (compare_and_swap rnd e c (content_bytes raw)) s)"
        using u by (auto simp: apply_file_def io_simps Inr p raw split: sum.splits)
      from cas_crash [OF this] show ?thesis
        using record_states_Inr [of r e c] Inr p raw by (auto simp: apply_content_def)
    qed (use u in \<open>auto simp: apply_file_def io_simps Inr p\<close>)
  qed (use u in \<open>auto simp: apply_file_def io_simps\<close>)
qed (simp add: apply_content_def)

text \<open>A round that tests for its goal, then for the other state.\<close>

definition guarded_swap :: "random_name \<Rightarrow> exn \<Rightarrow> file_state \<Rightarrow> file_state \<Rightarrow> byte list option res \<Rightarrow> unit io" where
  "guarded_swap rnd e goal other k =
     ibnd (iread (current_matches goal)) (\<lambda>there.
     if there then iret ()
     else ibnd (iread (current_matches other)) (\<lambda>here.
       if \<not> here then iraise e
       else ibnd (ilift k) (\<lambda>content. ibnd (compare_and_swap rnd other goal content) (\<lambda>_. iret ()))))"

lemma guarded_swap_run:
  shows guarded_swap_ok: "outcome (guarded_swap rnd x goal other k) s = Inr u \<Longrightarrow>
      holds goal s \<and> final (guarded_swap rnd x goal other k) s = s \<or>
      holds other s \<and> fs_path other = fs_path goal \<and>
        (\<exists>bs. good_candidate goal bs \<and> final (guarded_swap rnd x goal other k) s = swapped goal bs s)"
    and guarded_swap_states: "v \<in> set (states (guarded_swap rnd x goal other k) s) \<Longrightarrow> v = s \<or>
      holds other s \<and> fs_path other = fs_path goal \<and> (\<exists>bs. k = Inr bs \<and> v \<in> cas_states rnd goal bs s)"
proof -
  have A: "(outcome (guarded_swap rnd x goal other k) s = Inr u \<longrightarrow>
      holds goal s \<and> final (guarded_swap rnd x goal other k) s = s \<or>
      holds other s \<and> fs_path other = fs_path goal \<and>
        (\<exists>bs. good_candidate goal bs \<and> final (guarded_swap rnd x goal other k) s = swapped goal bs s)) \<and>
    (v \<in> set (states (guarded_swap rnd x goal other k) s) \<longrightarrow> v = s \<or>
      holds other s \<and> fs_path other = fs_path goal \<and> (\<exists>bs. k = Inr bs \<and> v \<in> cas_states rnd goal bs s))"
  proof (cases "\<exists>bs. current_matches goal s = Inr False \<and> current_matches other s = Inr True \<and> k = Inr bs")
    case True
    then obtain bs where bs: "current_matches goal s = Inr False" "current_matches other s = Inr True" "k = Inr bs"
      by blast
    then have r: "outcome (guarded_swap rnd x goal other k) s =
          (case outcome (compare_and_swap rnd other goal bs) s of Inl e \<Rightarrow> Inl e | Inr _ \<Rightarrow> Inr ())"
        "final (guarded_swap rnd x goal other k) s = final (compare_and_swap rnd other goal bs) s"
        "set (states (guarded_swap rnd x goal other k) s) = set (states (compare_and_swap rnd other goal bs) s)"
      by (auto simp: guarded_swap_def io_simps split: sum.splits)
    show ?thesis
      unfolding r using bs cas_effect [of rnd other goal bs s] cas_crash [of v rnd other goal bs s]
      by (auto split: sum.splits)
  next
    case False
    then have "set (states (guarded_swap rnd x goal other k) s) = {s} \<and> final (guarded_swap rnd x goal other k) s = s \<and>
        (outcome (guarded_swap rnd x goal other k) s = Inr u \<longrightarrow> current_matches goal s = Inr True)"
      by (cases "current_matches goal s"; cases "current_matches other s"; cases k)
         (auto simp: guarded_swap_def io_simps)
    then show ?thesis by (auto simp: current_matches_holds)
  qed
  show "outcome (guarded_swap rnd x goal other k) s = Inr u \<Longrightarrow>
      holds goal s \<and> final (guarded_swap rnd x goal other k) s = s \<or>
      holds other s \<and> fs_path other = fs_path goal \<and>
        (\<exists>bs. good_candidate goal bs \<and> final (guarded_swap rnd x goal other k) s = swapped goal bs s)"
    and "v \<in> set (states (guarded_swap rnd x goal other k) s) \<Longrightarrow> v = s \<or>
      holds other s \<and> fs_path other = fs_path goal \<and> (\<exists>bs. k = Inr bs \<and> v \<in> cas_states rnd goal bs s)"
    using A by blast+
qed

lemma guarded_swap_succeeds:
  assumes "settleable goal other content r s" and "names_fresh rnd" and "\<not> temp_name (target_of (goal r))"
  shows "outcome (guarded_swap rnd x (goal r) (other r) (content r s)) s = Inr ()"
proof -
  have c: "canonical_path (fs_path (goal r))" "canonical_path (fs_path (other r))"
    using assms(1) by (simp_all add: settleable_def)
  obtain k where k: "content r s = Inr k" using assms(1) by (auto simp: settleable_def)
  show ?thesis
    using current_matches_canonical [OF c(1), of s] current_matches_canonical [OF c(2), of s] assms(1)
      cas_succeeds [OF assms(1) _ k assms(2,3)]
    by (auto simp: guarded_swap_def io_simps k settleable_def)
qed

lemma file_rounds:
  assumes "record_states r = Inr (e, c)"
  shows "rollback_file rnd r s = ibnd (guarded_swap rnd rollback_conflict e c (backup_content r e s))
      (\<lambda>_. iret (set_applied False r)) s"
    and "resume_file rnd r s = ibnd (guarded_swap rnd cas_mismatch c e (candidate_content r))
      (\<lambda>_. iret (set_applied True r)) s"
  by (auto simp: rollback_file_def resume_file_def guarded_swap_def assms ibnd_def iread_def ilift_def iret_def iraise_def
      split: sum.splits prod.splits)

lemma rounds_unreadable:
  assumes "record_states r = Inl x"
  shows "rollback_file rnd r s = ([], Inl x)" "resume_file rnd r s = ([], Inl x)"
  by (simp_all add: rollback_file_def resume_file_def assms ibnd_def ilift_def)

interpretation rollback_loop: settling rollback_file original_of candidate_of rollback_content backup_source
proof
  fix rnd r s r'
  assume o: "outcome (rollback_file rnd r) s = Inr r'"
  show "holds (original_of r) s \<and> final (rollback_file rnd r) s = s \<or>
      holds (candidate_of r) s \<and> fs_path (candidate_of r) = fs_path (original_of r) \<and>
        (\<exists>k. good_candidate (original_of r) k \<and> final (rollback_file rnd r) s = swapped (original_of r) k s)"
  proof (cases "record_states r")
    case (Inr p)
    obtain e c where p: "record_states r = Inr (e, c)" using Inr by (cases p) auto
    let ?g = "guarded_swap rnd rollback_conflict e c (backup_content r e s)"
    have run: "outcome (rollback_file rnd r) s = outcome (ibnd ?g (\<lambda>_. iret (set_applied False r))) s"
        "final (rollback_file rnd r) s = final (ibnd ?g (\<lambda>_. iret (set_applied False r))) s"
      unfolding outcome_def final_def file_rounds(1) [OF p] by simp_all
    from o obtain u where u: "outcome ?g s = Inr u" unfolding run outcome_ibnd_Inr by blast
    then have "final (rollback_file rnd r) s = final ?g s" by (simp add: run final_ibnd)
    with guarded_swap_ok [OF u] record_states_Inr [OF p] show ?thesis by simp
  qed (use o in \<open>simp add: outcome_def rounds_unreadable\<close>)
next
  fix rnd r s u
  assume u: "u \<in> set (states (rollback_file rnd r) s)"
  show "u = s \<or> holds (candidate_of r) s \<and> fs_path (candidate_of r) = fs_path (original_of r) \<and>
        (\<exists>k. rollback_content r s = Inr k \<and> u \<in> cas_states rnd (original_of r) k s)"
  proof (cases "record_states r")
    case (Inr p)
    obtain e c where p: "record_states r = Inr (e, c)" using Inr by (cases p) auto
    let ?g = "guarded_swap rnd rollback_conflict e c (backup_content r e s)"
    have "states (rollback_file rnd r) s = states (ibnd ?g (\<lambda>_. iret (set_applied False r))) s"
      unfolding states_def file_rounds(1) [OF p] by simp
    then have "u \<in> set (states ?g s)"
      using u final_in_states by (auto simp: states_ibnd split: sum.splits)
    with guarded_swap_states [OF this] record_states_Inr [OF p] show ?thesis by (simp add: rollback_content_def)
  qed (use u in \<open>simp add: states_def rounds_unreadable\<close>)
next
  fix r s rnd
  assume a: "settleable original_of candidate_of rollback_content r s" "names_fresh rnd" "\<not> temp_name (target_of (original_of r))"
  then have p: "record_states r = Inr (original_of r, candidate_of r)"
    by (intro record_states_settleable) (simp add: settleable_def)
  have "outcome (rollback_file rnd r) s =
      outcome (ibnd (guarded_swap rnd rollback_conflict (original_of r) (candidate_of r) (backup_content r (original_of r) s)) (\<lambda>_. iret (set_applied False r))) s"
    unfolding outcome_def file_rounds(1) [OF p] ..
  with guarded_swap_succeeds [OF a, of rollback_conflict] show "\<exists>r'. outcome (rollback_file rnd r) s = Inr r'"
    by (simp add: outcome_ibnd rollback_content_def)
next
  fix r s s' assume "\<And>p. p \<in> backup_source r \<Longrightarrow> node_at s p = node_at s' p"
  then show "rollback_content r s = rollback_content r s'"
    by (cases "get r ''backup_path''") (simp_all add: rollback_content_def backup_content_def as_str_def backup_source_def)
qed

interpretation resume_loop: settling resume_file candidate_of original_of resume_content "\<lambda>_. {}"
proof
  fix rnd r s r'
  assume o: "outcome (resume_file rnd r) s = Inr r'"
  show "holds (candidate_of r) s \<and> final (resume_file rnd r) s = s \<or>
      holds (original_of r) s \<and> fs_path (original_of r) = fs_path (candidate_of r) \<and>
        (\<exists>k. good_candidate (candidate_of r) k \<and> final (resume_file rnd r) s = swapped (candidate_of r) k s)"
  proof (cases "record_states r")
    case (Inr p)
    obtain e c where p: "record_states r = Inr (e, c)" using Inr by (cases p) auto
    let ?g = "guarded_swap rnd cas_mismatch c e (candidate_content r)"
    have run: "outcome (resume_file rnd r) s = outcome (ibnd ?g (\<lambda>_. iret (set_applied True r))) s"
        "final (resume_file rnd r) s = final (ibnd ?g (\<lambda>_. iret (set_applied True r))) s"
      unfolding outcome_def final_def file_rounds(2) [OF p] by simp_all
    from o obtain u where u: "outcome ?g s = Inr u" unfolding run outcome_ibnd_Inr by blast
    then have "final (resume_file rnd r) s = final ?g s" by (simp add: run final_ibnd)
    with guarded_swap_ok [OF u] record_states_Inr [OF p] show ?thesis by simp
  qed (use o in \<open>simp add: outcome_def rounds_unreadable\<close>)
next
  fix rnd r s u
  assume u: "u \<in> set (states (resume_file rnd r) s)"
  show "u = s \<or> holds (original_of r) s \<and> fs_path (original_of r) = fs_path (candidate_of r) \<and>
        (\<exists>k. resume_content r s = Inr k \<and> u \<in> cas_states rnd (candidate_of r) k s)"
  proof (cases "record_states r")
    case (Inr p)
    obtain e c where p: "record_states r = Inr (e, c)" using Inr by (cases p) auto
    let ?g = "guarded_swap rnd cas_mismatch c e (candidate_content r)"
    have "states (resume_file rnd r) s = states (ibnd ?g (\<lambda>_. iret (set_applied True r))) s"
      unfolding states_def file_rounds(2) [OF p] by simp
    then have "u \<in> set (states ?g s)"
      using u final_in_states by (auto simp: states_ibnd split: sum.splits)
    with guarded_swap_states [OF this] record_states_Inr [OF p] show ?thesis by (simp add: resume_content_def)
  qed (use u in \<open>simp add: states_def rounds_unreadable\<close>)
next
  fix r s rnd
  assume a: "settleable candidate_of original_of resume_content r s" "names_fresh rnd" "\<not> temp_name (target_of (candidate_of r))"
  then have p: "record_states r = Inr (original_of r, candidate_of r)"
    by (intro record_states_settleable) (simp add: settleable_def)
  have "outcome (resume_file rnd r) s =
      outcome (ibnd (guarded_swap rnd cas_mismatch (candidate_of r) (original_of r) (candidate_content r)) (\<lambda>_. iret (set_applied True r))) s"
    unfolding outcome_def file_rounds(2) [OF p] ..
  with guarded_swap_succeeds [OF a, of cas_mismatch] show "\<exists>r'. outcome (resume_file rnd r) s = Inr r'"
    by (simp add: outcome_ibnd resume_content_def)
qed (simp add: resume_content_def)

section \<open>Crashes\<close>

text \<open>The same file, as far as its hash and its permissions tell.\<close>

definition same_file :: "node option \<Rightarrow> node option \<Rightarrow> bool" where
  "same_file n n' = (case (n, n') of
     (Some (File bs m), Some (File bs' m')) \<Rightarrow> sha256_hex bs = sha256_hex bs' \<and> format_mode m = format_mode m'
   | (Some (Dir m), Some (Dir m')) \<Rightarrow> format_mode m = format_mode m'
   | _ \<Rightarrow> n = n')"

lemma same_file_refl [simp]: "same_file n n"
  by (simp add: same_file_def split: option.splits node.splits)

lemma describes_cases:
  assumes "describes f n"
  shows "n = None \<and> fs_type f = ''absent'' \<or>
    (\<exists>bs m. n = Some (File bs m) \<and> fs_type f = ''regular'' \<and> fs_hash f = sha256_hex bs \<and> fs_mode f = format_mode m) \<or>
    (\<exists>m. n = Some (Dir m) \<and> fs_type f = ''directory'' \<and> fs_mode f = format_mode m)"
  using assms by (auto simp: describes_def split: option.splits node.splits)

lemma describes_same_file: "describes f n \<Longrightarrow> describes f n' \<Longrightarrow> same_file n n'"
proof -
  assume d: "describes f n" "describes f n'"
  from describes_cases [OF d(1)] describes_cases [OF d(2)] show ?thesis
    by (elim disjE exE conjE) (simp_all add: same_file_def)
qed

text \<open>
  What a transaction has established when it starts to swap files: every file is in its original
  state, its candidate content is in the record and its backup is there.
\<close>

definition prepared :: "dict list \<Rightarrow> fs \<Rightarrow> bool" where
  "prepared records s = (separate (\<lambda>r. target_of (original_of r)) backup_source records \<and>
     (\<forall>r \<in> set records. holds (original_of r) s \<and>
       settleable candidate_of original_of apply_content r s \<and>
       settleable candidate_of original_of resume_content r s \<and>
       settleable original_of candidate_of rollback_content r s))"

lemma settleable_facts:
  assumes "settleable goal other content r s"
  shows "canonical_path (fs_path (goal r))" and "fs_path (other r) = fs_path (goal r)" and "dirs_above s (target_of (goal r))"
  using assms unfolding settleable_def by blast+

lemma prepared_record:
  assumes "prepared records s" and "r \<in> set records"
  shows "holds (original_of r) s" and "settleable candidate_of original_of apply_content r s"
    and "settleable candidate_of original_of resume_content r s"
    and "settleable original_of candidate_of rollback_content r s"
  using assms unfolding prepared_def by blast+

lemma prepared_paths: "prepared records s \<Longrightarrow> r \<in> set records \<Longrightarrow> fs_path (candidate_of r) = fs_path (original_of r)"
  by (rule settleable_facts(2) [OF prepared_record(4)])

lemma separate_cong:
  assumes "\<And>r. r \<in> set rs \<Longrightarrow> target r = target' r"
  shows "separate target sources rs = separate target' sources rs"
proof -
  have "map target rs = map target' rs" using assms by simp
  then have "distinct (map target rs) = distinct (map target' rs)" by (rule arg_cong [where f = distinct])
  then show ?thesis using assms by (simp add: separate_def del: distinct_map map_eq_conv)
qed

lemma separate_sources: "separate target sources rs \<Longrightarrow> separate target (\<lambda>_. {}) rs"
  by (auto simp: separate_def)

lemma prepared_separate:
  assumes "prepared records s"
  shows "separate (\<lambda>r. target_of (candidate_of r)) backup_source records"
    and "separate (\<lambda>r. target_of (original_of r)) backup_source records"
    and "separate (\<lambda>r. target_of (candidate_of r)) (\<lambda>_. {}) records"
proof -
  show b: "separate (\<lambda>r. target_of (original_of r)) backup_source records"
    using assms by (simp add: prepared_def)
  show a: "separate (\<lambda>r. target_of (candidate_of r)) backup_source records"
    using separate_cong [of records "\<lambda>r. target_of (candidate_of r)"] b prepared_paths [OF assms] by simp
  show "separate (\<lambda>r. target_of (candidate_of r)) (\<lambda>_. {}) records"
    by (rule separate_sources [OF a])
qed

text \<open>A crash while the files are swapped leaves every file in its original or its candidate state.\<close>

lemma apply_crash:
  assumes "prepared records s" and "u \<in> set (states (apply_file_records rnd records) s)"
  shows "progress (candidate_of ` set records) s u"
  using apply_loop.loop_progress [OF prepared_separate(3) [OF assms(1)], of s rnd] assms
  by (simp add: apply_file_records_def prepared_def)

lemma apply_crash_record:
  assumes "prepared records s" and "u \<in> set (states (apply_file_records rnd records) s)" and "r \<in> set records"
  shows "holds (original_of r) u \<or> holds (candidate_of r) u"
    and "dirs_above u (target_of (original_of r))"
    and "rollback_content r u = rollback_content r s"
proof -
  note sep = prepared_separate(1) [OF assms(1)]
  note pr = apply_crash [OF assms(1,2)]
  have eq: "fs_path (candidate_of r) = fs_path (original_of r)" by (rule prepared_paths [OF assms(1,3)])
  show d: "dirs_above u (target_of (original_of r))"
  proof -
    have "dirs_above s (target_of (original_of r))"
      by (rule settleable_facts(3) [OF prepared_record(4) [OF assms(1,3)]])
    then show ?thesis using progress_dirs_above [OF sep assms(3) pr] unfolding eq by blast
  qed
  show "holds (original_of r) u \<or> holds (candidate_of r) u"
  proof -
    have h: "holds (original_of r) s" by (rule prepared_record(1) [OF assms(1,3)])
    from progress_target [OF sep assms(3) pr] show ?thesis
    proof
      assume "node_at u (target_of (candidate_of r)) = node_at s (target_of (candidate_of r))"
      then have "holds (original_of r) u"
        using h dirs_above_reachable [OF d] unfolding holds_def eq by simp
      then show ?thesis ..
    next
      assume "describes (candidate_of r) (node_at u (target_of (candidate_of r)))"
      then have "holds (candidate_of r) u"
        using h dirs_above_reachable [OF d] unfolding holds_def eq by simp
      then show ?thesis ..
    qed
  qed
  show "rollback_content r u = rollback_content r s"
    using progress_sources [OF sep assms(3) pr] by (intro rollback_loop.content_cong) simp
qed

lemma apply_crash_settleable:
  assumes "prepared records s" and "u \<in> set (states (apply_file_records rnd records) s)" and "r \<in> set records"
  shows "settleable original_of candidate_of rollback_content r u"
    and "settleable candidate_of original_of resume_content r u"
proof -
  have "settleable original_of candidate_of rollback_content r s" "settleable candidate_of original_of resume_content r s"
    using prepared_record [OF assms(1,3)] by blast+
  note old = this [unfolded settleable_def]
  note now = apply_crash_record [OF assms]
  have eq: "fs_path (candidate_of r) = fs_path (original_of r)" by (rule prepared_paths [OF assms(1,3)])
  show "settleable original_of candidate_of rollback_content r u"
    unfolding settleable_def now(3) using old(1) now(1,2) by blast
  show "settleable candidate_of original_of resume_content r u"
    using old(2) now(1,2) unfolding settleable_def eq resume_content_def by blast
qed

lemma rollback_files_run:
  "final (rollback_files rnd rs) s = final (imap (rollback_file rnd) (rev rs)) s"
  "outcome (rollback_files rnd rs) s = (case outcome (imap (rollback_file rnd) (rev rs)) s of
     Inl e \<Rightarrow> Inl e | Inr rs' \<Rightarrow> Inr (rev rs'))"
  "set (states (rollback_files rnd rs) s) = set (states (imap (rollback_file rnd) (rev rs)) s)"
  by (auto simp: rollback_files_def io_simps split: sum.splits)

lemma separate_rev: "separate target sources (rev rs) = separate target sources rs"
  by (simp add: separate_def rev_map [symmetric])

text \<open>
  A rollback that ends has brought every file back to its original state, whatever state it started
  from, and has touched no other path.
\<close>

theorem rollback_exact:
  assumes "outcome (rollback_files rnd records) s = Inr records'"
    and "distinct (map (\<lambda>r. path_of (fs_path (original_of r))) records)"
  shows "(\<forall>r \<in> set records. describes (original_of r)
       (node_at (final (rollback_files rnd records) s) (path_of (fs_path (original_of r))))) \<and>
    same_except ((\<lambda>r. path_of (fs_path (original_of r))) ` set records) s (final (rollback_files rnd records) s)"
proof -
  obtain rs' where rs': "outcome (imap (rollback_file rnd) (rev records)) s = Inr rs'"
    using assms(1) by (auto simp: rollback_files_run split: sum.splits)
  have d: "distinct (map (\<lambda>r. target_of (original_of r)) (rev records))"
    using assms(2) by (simp add: rev_map [symmetric])
  note settled = rollback_loop.loop_settles [OF d rs', unfolded set_rev]
  from settled show ?thesis unfolding rollback_files_run by (rule conjI)
qed

text \<open>
  C6: A file that is neither in its original nor in its candidate state was changed by somebody else: no
  rollback and no resume touches it at any point, and both stop with an error.
\<close>

theorem foreign_content_kept:
  assumes "changed \<in> set records" and "fs_path (original_of changed) = fs_path (candidate_of changed)"
    and "distinct (map (\<lambda>r. path_of (fs_path (original_of r))) records)"
    and "distinct (map (\<lambda>r. path_of (fs_path (candidate_of r))) records)"
    and "t = path_of (fs_path (original_of changed))" and "\<not> temp_name t"
    and "\<not> describes (original_of changed) (node_at s t)" and "\<not> describes (candidate_of changed) (node_at s t)"
  shows "(\<exists>e. outcome (rollback_files rnd records) s = Inl e) \<and> (\<exists>e. outcome (resume_files rnd records) s = Inl e) \<and>
    (\<forall>u \<in> set (states (rollback_files rnd records) s). node_at u t = node_at s t) \<and>
    (\<forall>u \<in> set (states (resume_files rnd records) s). node_at u t = node_at s t)"
proof -
  have d: "distinct (map (\<lambda>r. target_of (original_of r)) (rev records))"
    using assms(3) by (simp add: rev_map [symmetric])
  have t: "t = target_of (candidate_of changed)" using assms(2,5) by simp
  have c: "changed \<in> set (rev records)" using assms(1) by simp
  note undone = rollback_loop.loop_keeps_foreign [OF d c, folded assms(5), OF assms(6-8)]
  note forth = resume_loop.loop_keeps_foreign [OF assms(4,1), folded t, OF assms(6,8,7)]
  obtain e where e: "outcome (imap (rollback_file rnd) (rev records)) s = Inl e" using undone(2) by blast
  show ?thesis
  proof (intro conjI)
    show "\<exists>e. outcome (rollback_files rnd records) s = Inl e" unfolding rollback_files_run(2) e by simp
    show "\<exists>e. outcome (resume_files rnd records) s = Inl e" unfolding resume_files_def by (rule forth(2))
    show "\<forall>u \<in> set (states (rollback_files rnd records) s). node_at u t = node_at s t"
      unfolding rollback_files_run(3) by (rule undone(1))
    show "\<forall>u \<in> set (states (resume_files rnd records) s). node_at u t = node_at s t"
      unfolding resume_files_def by (rule forth(1))
  qed
qed

section \<open>Witnesses\<close>

definition sample_record :: dict where
  "sample_record = file_record ''a'' sample_old sample_new (PStr [CHR 0x02]) (PStr ''b'')"

text \<open>A changed file with its backup, and the same tree after somebody else changed the file.\<close>

definition sample_tree :: fs where
  "sample_tree = fmupd [''b''] (File [1] 420) sample_fs"

definition foreign_tree :: fs where
  "foreign_tree = fmupd [''a''] (Dir 493) sample_tree"

text \<open>A name longer than every name in the tree.\<close>

definition longest_name :: "fs \<Rightarrow> nat" where
  "longest_name s = Max (insert 0 ((\<lambda>p. length (last p)) ` fset (fmdom s)))"

definition fresh_rnd :: random_name where
  "fresh_rnd dir prefix s = replicate (Suc (longest_name s)) (CHR ''x'')"

lemma fresh_rnd_fresh: "names_fresh fresh_rnd"
  unfolding names_fresh_def
proof (intro allI)
  fix dir prefix s
  have "length (last p) \<le> longest_name s" if "fmlookup s p \<noteq> None" for p
  proof -
    from that have "p \<in> fset (fmdom s)" by (auto simp: fmlookup_dom_iff)
    then show ?thesis by (auto simp: longest_name_def intro: Max_ge)
  qed
  note longest = this
  show "fmlookup s (dir @ [prefix @ fresh_rnd dir prefix s]) = None"
  proof (rule ccontr)
    assume "fmlookup s (dir @ [prefix @ fresh_rnd dir prefix s]) \<noteq> None"
    from longest [OF this] show False by (simp add: fresh_rnd_def)
  qed
qed

lemma sample_states_valid: "valid_file_state sample_old" "valid_file_state sample_new"
  by (simp_all add: valid_file_state_def sample_new_def sample_old_def sample_path sha256_hex_is_sha256
      canonical_mode_def normalize_mode_format_mode)

lemma sample_record_states: "record_states sample_record = Inr (sample_old, sample_new)"
  using file_state_reads_back [OF sample_states_valid(1)] file_state_reads_back [OF sample_states_valid(2)]
  by (simp add: record_states_def sample_record_def file_record_def lookup_def as_mapping_def)

lemma sample_record_of: "original_of sample_record = sample_old" "candidate_of sample_record = sample_new"
  using record_states_Inr [OF sample_record_states] by simp_all

lemma sample_fields: "get sample_record ''backup_path'' = PStr ''b''" "path_of ''b'' = [''b'']" "path_of ''a'' = [''a'']" "target_of sample_old = [''a'']"
    "target_of sample_new = [''a'']" "fs_path sample_old = ''a''" "fs_path sample_new = ''a''"
    "get sample_record ''candidate_content_utf8'' = PStr [CHR 0x02]"
    "lookup sample_record ''candidate_content_utf8'' = Inr (PStr [CHR 0x02])"
    "fs_type sample_old = ''regular''" "fs_type sample_new = ''regular''" "fs_exists sample_old"
  by (simp_all add: sample_record_def file_record_def get_def lookup_def path_of_def sample_new_def sample_old_def)

lemma sample_contents: "apply_content sample_record s = Inr (Some [2])" "resume_content sample_record s = Inr (Some [2])"
    "rollback_content sample_record sample_tree = Inr (Some [1])"
proof -
  have "utf8_encode [CHR 0x02] = [2]" by (simp add: utf8_encode_def utf8_char_def Let_def ord_def)
  then show "apply_content sample_record s = Inr (Some [2])" "resume_content sample_record s = Inr (Some [2])"
    by (simp_all add: apply_content_def resume_content_def candidate_content_def sample_fields content_bytes_def)
  have "node_at sample_tree [''b''] = Some (File [1] 420)" "fs_hash sample_old = sha256_hex [1]"
    by (simp_all add: sample_tree_def node_at_def sample_old_def)
  then show "rollback_content sample_record sample_tree = Inr (Some [1])"
    by (simp add: rollback_content_def backup_content_def sample_record_of sample_fields as_str_def)
qed

lemma sample_good_old: "good_candidate sample_old (Some [1])"
  by (auto simp: good_candidate_def sample_old_def)

lemma sample_tree_holds: "holds sample_old sample_tree"
proof -
  have "assert_state sample_old sample_tree = Inr ()"
    unfolding sample_tree_def
    by (subst assert_state_fmupd_other) (simp_all add: sample_fields sample_asserted)
  then show ?thesis by (simp add: assert_state_holds)
qed

lemma sample_prepared: "prepared [sample_record] sample_tree"
proof -
  have a: "dirs_above sample_tree [''a'']" "\<not> temp_name [''a'']" "\<not> temp_name [''b'']"
    by (simp_all add: dirs_above_def ancestors_def temp_name_def cas_prefix_def starts_with_def)
  have sep: "separate (\<lambda>r. target_of (original_of r)) backup_source [sample_record]"
    using a by (simp add: separate_def sample_record_of sample_fields backup_source_def ancestors_def)
  show ?thesis
    unfolding prepared_def settleable_def
    using sep a(1) by (simp add: sample_record_of sample_fields sample_contents sample_tree_holds sample_good sample_good_old sample_path)
qed

theorem rollback_exact_witness:
  "describes sample_old (node_at (final (rollback_files fresh_rnd [sample_record]) sample_tree) [''a''])"
proof -
  obtain rs' where "outcome (rollback_files fresh_rnd [sample_record]) sample_tree = Inr rs'"
    using rollback_loop.loop_succeeds [of "[sample_record]" sample_tree fresh_rnd] sample_prepared fresh_rnd_fresh
    by (auto simp: prepared_def rollback_files_run)
  from rollback_exact [OF this] show ?thesis by (simp add: sample_record_of sample_fields)
qed

theorem foreign_content_kept_witness:
  "node_at (final (rollback_files fresh_rnd [sample_record]) foreign_tree) [''a''] = Some (Dir 493)"
proof -
  have n: "node_at foreign_tree [''a''] = Some (Dir 493)" by (simp add: foreign_tree_def node_at_def)
  have "\<not> describes sample_old (Some (Dir 493))" "\<not> describes sample_new (Some (Dir 493))" "\<not> temp_name [''a'']"
    by (simp_all add: describes_def sample_fields temp_name_def cas_prefix_def starts_with_def)
  note facts = this
  have "(\<forall>u \<in> set (states (rollback_files fresh_rnd [sample_record]) foreign_tree).
      node_at u [''a''] = node_at foreign_tree [''a''])"
    by (rule conjunct1 [OF conjunct2 [OF conjunct2 [OF foreign_content_kept [of sample_record]]]])
      (simp_all add: sample_record_of sample_fields n facts)
  then show ?thesis using n final_in_states by metis
qed

end
