(* ===== verification/Journal_Log.thy ===== *)
theory Journal_Log
  imports Journal
begin

text \<open>
  The journal on disk over time: whatever sequence of journal writes runs, with crashes at any point
  and other changes in between, the document at the path of the journal is always a complete one, its
  evidence never changes and its phase never goes back.
\<close>

section \<open>Equality of documents\<close>

lemma py_eq_trans:
  "py_eq u v \<Longrightarrow> py_eq v w \<Longrightarrow> py_eq u w"
  "py_eq_list us vs \<Longrightarrow> py_eq_list vs ws \<Longrightarrow> py_eq_list us ws"
  "py_eq_items d e \<Longrightarrow> py_eq_items e f \<Longrightarrow> py_eq_items d f"
proof (induction u v and us vs and d e arbitrary: w and ws and f rule: py_eq_py_eq_list_py_eq_items.induct)
  case (2 a v)
  then show ?case by (cases v; cases w) auto
next
  case (3 m v)
  then show ?case by (cases v; cases w) auto
next
  case (6 xs v)
  then show ?case by (cases v; cases w) auto
next
  case (7 d v)
  then show ?case by (cases v; cases w) auto
next
  case (9 x xs ys)
  then show ?case by (cases ys; cases ws) auto
next
  case (11 k v d e)
  from 11(3) obtain b where b: "map_of e k = Some b" "py_eq v b" "py_eq_items d e"
    by (auto split: option.splits)
  from b(1) have "(k, b) \<in> set e" by (rule map_of_SomeD)
  with 11(4) obtain c where "map_of f k = Some c" "py_eq b c"
    unfolding py_eq_items_iff by blast
  with 11(1) [OF b(1,2)] 11(2) [OF b(3) 11(4)] show ?case by simp
qed auto

lemma map_of_canon:
  assumes "distinct (map fst d)"
  shows "map_of (sort_items (map (\<lambda>(k, v). (k, canon v)) d)) k = map_option canon (map_of d k)"
proof -
  have "map fst (map (\<lambda>(k, v). (k, canon v)) d) = map fst d" by (induction d) auto
  then have "distinct (keys (map (\<lambda>(k, v). (k, canon v)) d))" using assms by (simp only: keys_def)
  then have "map_of (sort_items (map (\<lambda>(k, v). (k, canon v)) d)) = map_of (map (\<lambda>(k, v). (k, canon v)) d)"
    by (rule map_of_sort_items)
  moreover have "map_of (map (\<lambda>(k, v). (k, canon v)) d) k = map_option canon (map_of d k)"
    by (induction d) auto
  ultimately show ?thesis by simp
qed

lemma get_canon:
  assumes "distinct (map fst d)"
  shows "get (sort_items (map (\<lambda>(k, v). (k, canon v)) d)) k = canon (get d k)"
  unfolding get_def map_of_canon [OF assms] by (cases "map_of d k") simp_all

lemma py_eq_canon: "wf_pyval v \<Longrightarrow> py_eq v (canon v)"
proof (induction v rule: canon.induct)
  case (1 xs)
  then have "\<forall>x \<in> set xs. py_eq x (canon x)" by (simp add: list_all_iff)
  then have "py_eq_list xs (map canon xs)" by (induction xs) auto
  then show ?case by simp
next
  case (2 d)
  let ?e = "sort_items (map (\<lambda>(k, v). (k, canon v)) d)"
  have dist: "distinct (map fst d)" using 2(2) by simp
  have "map_of ?e k = Some (canon v) \<and> py_eq v (canon v)" if kv: "(k, v) \<in> set d" for k v
    using map_of_canon [OF dist, of k] map_of_is_SomeI [OF dist kv] 2 kv by (auto simp: list_all_iff)
  moreover have "length ?e = length d" by (simp add: sort_items_def)
  ultimately show ?case by (auto simp: py_eq_items_iff)
qed auto

section \<open>One write\<close>

lemma path_of_append: "path_of (a @ chr_slash # b) = path_of a @ path_of b"
  by (simp add: path_of_def split_on_append_sep)

lemma transaction_path_nonempty: "transaction_path t \<noteq> []"
proof -
  have "''.agent-workflow/transactions/'' @ t @ ''.json'' = ''.agent-workflow'' @ chr_slash # (''transactions/'' @ t @ ''.json'')"
    by simp
  note eq = this
  have "transaction_path t = path_of ''.agent-workflow'' @ path_of (''transactions/'' @ t @ ''.json'')"
    unfolding transaction_path_def eq by (rule path_of_append)
  then show ?thesis by (simp add: path_of_def)
qed

lemma mkdir_parents_frame:
  assumes "p \<noteq> []"
  shows "\<forall>u \<in> set (states (mkdir_parents (parent p)) s). node_at u p = node_at s p"
  unfolding mkdir_parents_def iforeach_run
proof (rule conjunct1 [OF imap_invariant [where I = "\<lambda>u. node_at u p = node_at s p"]], goal_cases)
  case (2 q v)
  have "q \<noteq> p"
    using 2(1) assms ancestors_shorter [of q "parent p"] by (cases p rule: rev_cases) (auto split: if_splits)
  then have "mkdir_fs q 493 v = Inr u \<Longrightarrow> node_at u p = node_at v p" for u
    by (auto simp: mkdir_fs_def node_at_def split: if_splits)
  note keeps = this
  show ?case
  proof (cases "is_dir v q")
    case True
    then show ?thesis using 2(2) by (simp add: io_simps)
  next
    case False
    then show ?thesis using 2(2) keeps by (cases "mkdir_fs q 493 v") (simp_all add: io_simps)
  qed
qed simp_all

lemma journal_write_node:
  assumes "journal_target document = Inr p" and "u \<in> set (states (write_journal rnd document) s)"
  shows "node_at u p = node_at s p \<or>
    (\<exists>bs. canonical_json_bytes (PDict document) = Inr bs \<and> node_at u p = Some (File bs 384) \<and>
      (path_exists s p \<longrightarrow> (\<exists>old. load_journal p s = Inr old \<and> check_existing old document = Inr ())))"
proof -
  have p: "p \<noteq> []"
    using assms(1) transaction_path_nonempty by (auto simp: journal_target_def res_simps)
  let ?c = "if path_exists s p \<or> is_symlink s p
        then bnd (load_journal p s) (\<lambda>existing. check_existing existing document) else Inr ()"
  let ?w = "atomic_write rnd (''.'' @ last p @ ''.'') p (canonical_json_bytes (PDict document))"
  show ?thesis
  proof (cases ?c)
    case (Inl e)
    then have "u = s" using assms by (auto simp: write_journal_def io_simps)
    then show ?thesis by simp
  next
    case (Inr x)
    then have ok: "path_exists s p \<Longrightarrow> \<exists>old. load_journal p s = Inr old \<and> check_existing old document = Inr ()"
      by (auto simp: bnd_Inr_iff split: if_splits)
    let ?v = "final (mkdir_parents (parent p)) s"
    have v: "node_at ?v p = node_at s p" using mkdir_parents_frame [OF p] final_in_states by blast
    have "u \<in> set (states (mkdir_parents (parent p)) s) \<or> u \<in> set (states ?w ?v)"
      using assms Inr final_in_states
      by (auto simp: write_journal_def atomic_json_def io_simps split: sum.splits)
    then show ?thesis
    proof
      assume "u \<in> set (states (mkdir_parents (parent p)) s)"
      then show ?thesis using mkdir_parents_frame [OF p] by blast
    next
      assume u: "u \<in> set (states ?w ?v)"
      let ?q = "publish_temp rnd (''.'' @ last p @ ''.'') p ?v"
      have "length (last ?q) > length (last p)" by (simp add: publish_temp_def)
      then have q: "?q \<noteq> p" by (metis less_irrefl)
      have ne: "?q \<noteq> []" by (simp add: publish_temp_def)
      have "u \<in> insert ?v (publish_states ?v p ?q (canonical_json_bytes (PDict document)))"
        using subsetD [OF atomic_write_states [OF p q] u] by (cases "fmlookup ?v ?q") simp_all
      then show ?thesis
        using v q ne p ok by (auto simp: publish_states_def node_at_def split: sum.splits)
    qed
  qed
qed

section \<open>What was written can be loaded\<close>

definition canon_dict :: "dict \<Rightarrow> dict" where
  "canon_dict d = sort_items (map (\<lambda>(k, v). (k, canon v)) d)"

lemma canon_PDict: "canon (PDict d) = PDict (canon_dict d)"
  by (simp add: canon_dict_def)

lemma checks_canon:
  "as_sha256 e (canon v) = as_sha256 e v" "as_string e (canon v) = as_string e v" "in_strs (canon v) xs = in_strs v xs"
  "is_pyint (canon v) = is_pyint v" "py_eq (canon v) (PStr s) = py_eq v (PStr s)" "py_str (canon (PStr s)) = s"
  "as_mapping e (canon v) = bnd (as_mapping e v) (\<lambda>d. Inr (canon_dict d))"
  "as_array e (canon v) = bnd (as_array e v) (\<lambda>xs. Inr (map canon xs))"
  by (cases v; simp add: as_sha256_def as_string_def as_mapping_def as_array_def canon_dict_def)+

lemma as_uuid_canon: "as_uuid e (canon v) = as_uuid e v"
  by (simp add: as_uuid_def checks_canon)

lemma canon_dict_keys: "set (map fst (canon_dict d)) = set (map fst d)"
proof -
  have "map fst (map (\<lambda>(k, v). (k, canon v)) d) = map fst d" by (induction d) auto
  then show ?thesis unfolding canon_dict_def using set_sort_items [of "map (\<lambda>(k, v). (k, canon v)) d"] by (metis set_map)
qed

lemma canon_dict_tests: "has_key (canon_dict d) k = has_key d k" "same_strs (keys (canon_dict d)) xs = same_strs (keys d) xs"
  using canon_dict_keys [of d] by (auto simp: has_key_def same_strs_def subset_strs_iff keys_def)

lemma canon_dict_get: "distinct (map fst d) \<Longrightarrow> get (canon_dict d) k = canon (get d k)"
  unfolding canon_dict_def by (rule get_canon)

lemma header_canon:
  assumes "distinct (map fst d)"
  shows "validate_immutable_header (canon_dict d) = validate_immutable_header d"
proof -
  have m: "bnd (plan_mapping (canon v)) (\<lambda>_. Inr ()) = bnd (plan_mapping v) (\<lambda>_. Inr ())" for v
    by (cases "plan_mapping v") (simp_all add: plan_mapping_def checks_canon)
  show ?thesis
    unfolding validate_immutable_header_def canon_dict_tests canon_dict_get [OF assms] plan_uuid_def plan_sha256_def
      as_uuid_canon checks_canon m ..
qed

lemma digest_canon:
  assumes "wf_pyval v" and "digest domain v = Inr h"
  shows "digest domain (canon v) = Inr h"
proof -
  obtain bs where "canonical_json_bytes v = Inr bs"
    using assms(2) by (auto simp: digest_def res_simps split: if_splits)
  note bs = this
  then have jv: "json_value v" "bs = utf8_encode (serialize v)"
    using canonical_json_bytes_Inr_iff [OF assms(1)] by blast+
  have "serialize (canon v) = serialize v" by (simp add: serialize_render canon_idem)
  moreover have "json_value (canon v)" using jv(1) by simp
  ultimately have "canonical_json_bytes (canon v) = Inr bs"
    using canonical_json_bytes_Inr_iff [OF wf_pyval_canon [OF assms(1)]] jv(2) by simp
  with bs have eq: "canonical_json_bytes (canon v) = canonical_json_bytes v" by simp
  have "digest domain (canon v) = digest domain v" unfolding digest_def eq ..
  with assms(2) show ?thesis by simp
qed

lemma mappings_canon:
  "mapr (as_mapping e) xs = Inr ds \<Longrightarrow> mapr (as_mapping e) (map canon xs) = Inr (map canon_dict ds)"
proof (induction xs arbitrary: ds)
  case (Cons x xs)
  then obtain d ds' where "as_mapping e x = Inr d" "mapr (as_mapping e) xs = Inr ds'" "ds = d # ds'"
    by (auto simp: res_simps)
  with Cons.IH show ?case by (simp add: checks_canon)
qed simp

lemma wf_get: "wf_pyval (PDict d) \<Longrightarrow> wf_pyval (get d k)"
  using map_of_SomeD by (fastforce simp: get_def list_all_iff split: option.splits)

lemma journal_canon:
  assumes "journal_from_document d = Inr j" and "wf_pyval (PDict d)"
  shows "\<exists>j'. journal_from_document (canon_dict d) = Inr j'"
proof -
  have dist: "distinct (map fst d)" using assms(2) by simp
  obtain header claimed where keys: "same_strs (keys d) lifecycle_journal_fields"
    and header: "as_mapping recovery_required (get d ''immutable_header'') = Inr header"
    and claimed: "as_sha256 recovery_required (get d ''journal_binding_digest'') = Inr claimed"
      "compute_journal_binding_digest header = Inr claimed"
    and phase: "\<exists>b. in_strs (get d ''phase'') PHASES = Inr b \<and> b"
    and snapshot: "\<exists>x. as_mapping recovery_required (get d ''task_quiescence_snapshot'') = Inr x"
    and digests: "\<exists>x. as_sha256 recovery_required (get d ''plan_digest'') = Inr x"
      "\<exists>x. as_sha256 recovery_required (get d ''candidate_manifest_digest'') = Inr x"
    and manifest: "\<exists>x. as_mapping recovery_required (get d ''candidate_manifest'') = Inr x"
    and records: "\<exists>xs ds. as_array recovery_required (get d ''file_records'') = Inr xs \<and> mapr (as_mapping recovery_required) xs = Inr ds"
    and directories: "\<exists>x. as_array recovery_required (get d ''created_directories'') = Inr x"
    and diagnostics: "\<exists>xs ds. as_array recovery_required (get d ''diagnostics'') = Inr xs \<and> mapr (as_mapping recovery_required) xs = Inr ds"
    and rollback: "\<exists>x. as_mapping recovery_required (get d ''rollback_state'') = Inr x"
    using assms(1) unfolding journal_from_document_def
    apply (simp only: bnd_Inr_iff if_Inl_Inr_iff not_not)
    apply (elim exE conjE)
    apply (rule that)
    apply (assumption | (simp; fail) | blast)+
    done
  have "get d ''immutable_header'' = PDict header" using header by (simp add: as_mapping_Inr_iff)
  then have hwf: "wf_pyval (PDict header)" using wf_get [OF assms(2), of "''immutable_header''"] by simp
  then have "distinct (map fst header)" by simp
  then have binding: "compute_journal_binding_digest (canon_dict header) = Inr claimed"
    using claimed(2) digest_canon [OF hwf] header_canon [of header]
    by (auto simp: compute_journal_binding_digest_def bnd_Inr_iff canon_PDict simp del: canon.simps)
  have recs: "\<exists>ds. bnd (as_array recovery_required (canon (get d k))) (mapr (as_mapping recovery_required)) = Inr ds"
    if "\<exists>xs ds. as_array recovery_required (get d k) = Inr xs \<and> mapr (as_mapping recovery_required) xs = Inr ds" for k
    using that mappings_canon by (auto simp: checks_canon)
  show ?thesis
    unfolding journal_from_document_def canon_dict_tests canon_dict_get [OF dist]
    using keys header claimed(1) binding phase snapshot digests manifest recs [OF records] directories recs [OF diagnostics] rollback
    by (auto simp: checks_canon simp del: bnd_assoc)
qed

lemma written_journal_loads:
  assumes "journal_from_document document = Inr j" and "wf_pyval (PDict document)"
    and "canonical_json_bytes (PDict document) = Inr bs" and "node_at s p = Some (File bs m)"
  shows "load_journal p s = Inr (canon_dict document)"
proof -
  obtain j' where j': "journal_from_document (canon_dict document) = Inr j'"
    using journal_canon [OF assms(1,2)] by blast
  have "read_json recovery_required p s = Inr (PDict (canon_dict document))"
    using json_loads_canonical [OF assms(2,3)] assms(4) by (simp add: read_json_def canon_PDict del: canon.simps)
  moreover have "is_file s p" "\<not> is_symlink s p" using assms(4) by (simp_all add: is_file_def is_symlink_def)
  ultimately show ?thesis by (simp add: load_journal_def as_mapping_def j')
qed

section \<open>The journal over time\<close>

text \<open>The second document is a later journal of the same transaction.\<close>

definition journal_extends :: "dict \<Rightarrow> dict \<Rightarrow> bool" where
  "journal_extends old new = (list_all (\<lambda>f. py_eq (get old f) (get new f)) immutable_fields \<and>
     (case (phase_rank (get old ''phase''), phase_rank (get new ''phase'')) of (Inr m, Inr n) \<Rightarrow> m \<le> n | _ \<Rightarrow> False))"

lemma check_existing_extends: "check_existing old new = Inr u \<longleftrightarrow> journal_extends old new"
proof (cases "list_all (\<lambda>f. py_eq (get old f) (get new f)) immutable_fields")
  case True
  then have "\<not> list_ex (\<lambda>f. \<not> py_eq (get old f) (get new f)) immutable_fields"
    unfolding list_all_iff list_ex_iff by blast
  then show ?thesis
    using True unfolding check_existing_def journal_extends_def
    by (cases "phase_rank (get old ''phase'')"; cases "phase_rank (get new ''phase'')")
      (simp_all add: require_def linorder_not_less)
next
  case False
  then have "list_ex (\<lambda>f. \<not> py_eq (get old f) (get new f)) immutable_fields"
    unfolding list_all_iff list_ex_iff by blast
  with False show ?thesis by (simp add: check_existing_def journal_extends_def)
qed

lemma journal_extends_trans:
  assumes "journal_extends a b" and "journal_extends b c"
  shows "journal_extends a c"
proof -
  have "list_all (\<lambda>f. py_eq (get a f) (get c f)) immutable_fields"
    using assms py_eq_trans(1) unfolding journal_extends_def list_all_iff by blast
  with assms show ?thesis
    unfolding journal_extends_def by (auto split: sum.splits prod.splits)
qed

lemma phase_rank_canon: "phase_rank (canon v) = Inr n \<Longrightarrow> phase_rank v = Inr n \<or> (\<exists>d. v = PDict d) \<or> (\<exists>xs. v = PList xs)"
  by (cases v) simp_all

text \<open>
  One step of the life of a transaction, as seen from the path of its journal: a journal write that
  ends or is cut off at any point, or anything else that leaves the path alone.
\<close>

inductive journal_step :: "path \<Rightarrow> fs \<Rightarrow> fs \<Rightarrow> bool" for p where
  publish: "journal_target document = Inr p \<Longrightarrow> wf_pyval (PDict document) \<Longrightarrow>
    u \<in> set (states (write_journal rnd document) s) \<Longrightarrow> journal_step p s u"
| other: "node_at u p = node_at s p \<Longrightarrow> journal_step p s u"

text \<open>What a loaded document says about its phase.\<close>

lemma known_phase: "in_strs v xs = Inr b \<Longrightarrow> \<not> \<not> b \<Longrightarrow> \<exists>x. v = PStr x \<and> x \<in> set xs"
  by (cases v) auto

lemma journal_phase:
  assumes "journal_from_document d = Inr j"
  shows "\<exists>x. get d ''phase'' = PStr x \<and> x \<in> set PHASES"
  using assms unfolding journal_from_document_def
  by (simp only: bnd_Inr_iff if_Inl_Inr_iff) (blast intro: known_phase)

lemma load_journal_Inr:
  assumes "load_journal p s = Inr d"
  shows "is_file s p" and "read_json recovery_required p s = Inr (PDict d)" and "\<exists>j. journal_from_document d = Inr j"
  using assms unfolding load_journal_def
  by (simp_all only: bnd_Inr_iff if_Inl_Inr_iff as_mapping_Inr_iff) blast+

lemma load_journal_canon:
  assumes "node_at s p = Some (File bs m)" and "canonical_json_bytes (PDict document) = Inr bs"
    and "wf_pyval (PDict document)" and "load_journal p s = Inr new"
  shows "PDict new = canon (PDict document)" and "py_eq (get document f) (get new f)"
    and "phase_rank (get new ''phase'') = phase_rank (get document ''phase'')"
proof -
  have "json_loads_bytes bs = Inr (canon (PDict document))"
    by (rule json_loads_canonical [OF assms(3,2)])
  then have "read_json recovery_required p s = Inr (canon (PDict document))"
    using assms(1) by (simp add: read_json_def del: canon.simps)
  with load_journal_Inr(2) [OF assms(4)] show new: "PDict new = canon (PDict document)" by simp
  have d: "distinct (map fst document)" and wf: "wf_pyval (get document k)" for k
    using assms(3) map_of_SomeD by (fastforce simp: get_def list_all_iff split: option.splits)+
  have g: "get new k = canon (get document k)" for k
    using new get_canon [OF d] by simp
  show "py_eq (get document f) (get new f)" unfolding g by (rule py_eq_canon [OF wf])
  have "\<exists>x. get new ''phase'' = PStr x"
    using load_journal_Inr(3) [OF assms(4)] journal_phase by blast
  then show "phase_rank (get new ''phase'') = phase_rank (get document ''phase'')"
    unfolding g by (cases "get document ''phase''") auto
qed

lemma load_journal_cong: "node_at u p = node_at s p \<Longrightarrow> load_journal p u = load_journal p s \<and> is_file u p = is_file s p"
  by (simp add: load_journal_def read_json_def is_symlink_def is_file_def)

lemma journal_published:
  assumes "journal_extends old document" and "node_at s p = Some (File bs m)" and "wf_pyval (PDict document)"
    and "canonical_json_bytes (PDict document) = Inr bs" and "load_journal p s = Inr new"
  shows "journal_extends old new"
proof -
  note c = load_journal_canon [OF assms(2,4,3,5)]
  have "list_all (\<lambda>f. py_eq (get old f) (get new f)) immutable_fields"
    using assms(1) c(2) py_eq_trans(1) unfolding journal_extends_def list_all_iff by blast
  with assms(1) show ?thesis unfolding journal_extends_def c(3) by blast
qed

text \<open>
  C5: Over any sequence of journal writes, cut off anywhere, and other changes of the tree, the evidence in
  the journal of a transaction stays what it was and its phase never goes back.
\<close>

theorem journal_never_regresses:
  assumes "(journal_step p)\<^sup>*\<^sup>* s u" and "load_journal p s = Inr old" and "load_journal p u = Inr new"
  shows "new = old \<or> journal_extends old new"
proof -
  have "is_file u p \<and> (\<forall>new. load_journal p u = Inr new \<longrightarrow> new = old \<or> journal_extends old new)"
    using assms(1)
  proof (induction rule: rtranclp_induct)
    case base
    show ?case using assms(2) load_journal_Inr(1) [OF assms(2)] by simp
  next
    case (step v w)
    show ?case
    proof (cases "node_at w p = node_at v p")
      case True
      from load_journal_cong [OF this] step.IH show ?thesis by simp
    next
      case False
      from step.hyps(2) show ?thesis
      proof (cases rule: journal_step.cases)
        case 1: (publish document rnd)
        from journal_write_node [OF 1(1,3)] False obtain bs where bs: "canonical_json_bytes (PDict document) = Inr bs"
            "node_at w p = Some (File bs 384)"
            "path_exists v p \<longrightarrow> (\<exists>old. load_journal p v = Inr old \<and> check_existing old document = Inr ())"
          by blast
        have "path_exists v p" using step.IH by (simp add: is_file_def path_exists_def split: option.splits node.splits)
        with bs(3) obtain mid where mid: "load_journal p v = Inr mid" "journal_extends mid document"
          using check_existing_extends by blast
        have "new = old \<or> journal_extends old new" if "load_journal p w = Inr new" for new
          using journal_published [OF mid(2) bs(2) 1(2) bs(1) that] step.IH mid(1) journal_extends_trans by blast
        moreover have "is_file w p" using bs(2) by (simp add: is_file_def)
        ultimately show ?thesis by blast
      qed (use False in blast)
    qed
  qed
  with assms(3) show ?thesis by blast
qed

text \<open>
  One journal write: at every point the path of the journal holds what it held or the complete new
  document, a document is only replaced by a later one, a write that fails has changed nothing there,
  and what was written is loaded again as the same document with its keys in ascending order.
\<close>

theorem journal_write_exact:
  assumes "journal_target document = Inr p" and "wf_pyval (PDict document)"
  shows "(\<forall>u \<in> set (states (write_journal rnd document) s). node_at u p = node_at s p \<or>
      (\<exists>bs. canonical_json_bytes (PDict document) = Inr bs \<and> node_at u p = Some (File bs 384) \<and>
        load_journal p u = Inr (canon_dict document) \<and>
        (path_exists s p \<longrightarrow> (\<exists>old. load_journal p s = Inr old \<and> journal_extends old document)))) \<and>
    (case outcome (write_journal rnd document) s of
       Inl _ \<Rightarrow> node_at (final (write_journal rnd document) s) p = node_at s p
     | Inr q \<Rightarrow> q = p \<and> load_journal p (final (write_journal rnd document) s) = Inr (canon_dict document))"
proof -
  have p: "p \<noteq> []"
    using assms(1) transaction_path_nonempty by (auto simp: journal_target_def res_simps)
  let ?c = "if path_exists s p \<or> is_symlink s p
        then bnd (load_journal p s) (\<lambda>existing. check_existing existing document) else Inr ()"
  let ?w = "atomic_write rnd (''.'' @ last p @ ''.'') p (canonical_json_bytes (PDict document))"
  let ?v = "final (mkdir_parents (parent p)) s"
  have v: "node_at ?v p = node_at s p" using mkdir_parents_frame [OF p] final_in_states by blast
  have "length (last (publish_temp rnd (''.'' @ last p @ ''.'') p ?v)) > length (last p)" by (simp add: publish_temp_def)
  then have q: "publish_temp rnd (''.'' @ last p @ ''.'') p ?v \<noteq> p" by (metis less_irrefl)
  have ends: "case outcome (write_journal rnd document) s of
       Inl _ \<Rightarrow> node_at (final (write_journal rnd document) s) p = node_at s p
     | Inr q \<Rightarrow> q = p \<and> (\<exists>bs. canonical_json_bytes (PDict document) = Inr bs \<and>
         node_at (final (write_journal rnd document) s) p = Some (File bs 384))"
  proof (cases ?c)
    case (Inl e)
    then have "outcome (write_journal rnd document) s = Inl e" "final (write_journal rnd document) s = s"
      using assms(1) by (simp_all add: write_journal_def io_simps)
    then show ?thesis by simp
  next
    case (Inr x)
    note pre = this
    have run: "outcome (write_journal rnd document) s = (case outcome (mkdir_parents (parent p)) s of Inl e \<Rightarrow> Inl e
          | Inr _ \<Rightarrow> (case outcome ?w ?v of Inl e \<Rightarrow> Inl e | Inr _ \<Rightarrow> Inr p))"
        "final (write_journal rnd document) s = (case outcome (mkdir_parents (parent p)) s of Inl e \<Rightarrow> ?v
          | Inr _ \<Rightarrow> final ?w ?v)"
      using assms(1) pre by (simp_all add: write_journal_def atomic_json_def outcome_ibnd final_ibnd split: sum.splits)
    show ?thesis
    proof (cases "outcome (mkdir_parents (parent p)) s")
      case (Inl e)
      then show ?thesis using v by (simp add: run)
    next
      case mk: (Inr y)
      show ?thesis
      proof (cases "outcome ?w ?v")
        case (Inl e)
        then show ?thesis using v mk atomic_write_error [OF p q Inl] by (simp add: run)
      next
        case (Inr z)
        then show ?thesis using mk p atomic_write_ok [OF p q Inr] by (auto simp: run node_at_def)
      qed
    qed
  qed
  obtain j where j: "journal_from_document document = Inr j"
    using assms(1) by (auto simp: journal_target_def bnd_Inr_iff)
  note loads = written_journal_loads [OF j assms(2)]
  show ?thesis
  proof (intro conjI ballI)
    fix u assume u: "u \<in> set (states (write_journal rnd document) s)"
    show "node_at u p = node_at s p \<or>
      (\<exists>bs. canonical_json_bytes (PDict document) = Inr bs \<and> node_at u p = Some (File bs 384) \<and>
        load_journal p u = Inr (canon_dict document) \<and>
        (path_exists s p \<longrightarrow> (\<exists>old. load_journal p s = Inr old \<and> journal_extends old document)))"
      using journal_write_node [OF assms(1) u] loads check_existing_extends by blast
  next
    show "case outcome (write_journal rnd document) s of
       Inl _ \<Rightarrow> node_at (final (write_journal rnd document) s) p = node_at s p
     | Inr q \<Rightarrow> q = p \<and> load_journal p (final (write_journal rnd document) s) = Inr (canon_dict document)"
      using ends loads by (cases "outcome (write_journal rnd document) s") auto
  qed
qed

section \<open>Witnesses\<close>

definition sample_journal :: "string \<Rightarrow> dict" where
  "sample_journal phase =
    [(''schema_id'', PStr ''agent-workflow.lifecycle-transaction''), (''schema_version'', PInt 1),
     (''immutable_header'', PDict sample_header), (''journal_binding_digest'', PStr header_hash),
     (''task_quiescence_snapshot'', PDict []), (''plan_digest'', sample_sha),
     (''candidate_manifest_digest'', sample_sha), (''candidate_manifest'', PDict []), (''phase'', PStr phase),
     (''file_records'', PList []), (''created_directories'', PList []), (''diagnostics'', PList []),
     (''rollback_state'', PDict [])]"

lemma sample_journal_ok:
  assumes "phase \<in> set PHASES"
  shows "\<exists>j. journal_from_document (sample_journal phase) = Inr j \<and> lj_immutable_header j = sample_header"
proof -
  have keys: "same_strs (keys (sample_journal phase)) lifecycle_journal_fields"
    by (simp add: sample_journal_def lifecycle_journal_fields_def keys_def same_strs_def subset_strs_def)
  have gets: "get (sample_journal phase) ''immutable_header'' = PDict sample_header"
    "get (sample_journal phase) ''journal_binding_digest'' = PStr header_hash"
    "get (sample_journal phase) ''task_quiescence_snapshot'' = PDict []" "get (sample_journal phase) ''plan_digest'' = sample_sha"
    "get (sample_journal phase) ''candidate_manifest_digest'' = sample_sha" "get (sample_journal phase) ''candidate_manifest'' = PDict []"
    "get (sample_journal phase) ''phase'' = PStr phase" "get (sample_journal phase) ''file_records'' = PList []"
    "get (sample_journal phase) ''created_directories'' = PList []" "get (sample_journal phase) ''diagnostics'' = PList []"
    "get (sample_journal phase) ''rollback_state'' = PDict []"
    by (simp_all add: sample_journal_def get_def)
  have h: "as_sha256 recovery_required (PStr header_hash) = Inr header_hash"
    by (simp add: as_sha256_def header_hash_def sha.hd_sha256)
  have s: "as_sha256 recovery_required sample_sha = Inr (sha_of (CHR ''a''))"
    by (simp add: sample_sha_def as_sha256_def is_sha256_sha_of is_hex_def is_digit_def)
  show ?thesis
    unfolding journal_from_document_def gets
    using keys h s sample_header_digest assms by (simp add: as_mapping_def as_array_def)
qed

lemma sample_journal_facts:
  assumes "phase \<in> set PHASES"
  shows "wf_pyval (PDict (sample_journal phase))" "json_value (PDict (sample_journal phase))"
    "journal_target (sample_journal phase) = Inr (transaction_path ''0a000000-0000-4000-8000-000000000001'')"
proof -
  show "wf_pyval (PDict (sample_journal phase))" "json_value (PDict (sample_journal phase))"
    using sample_header_wf by (simp_all add: sample_journal_def sample_sha_def)
  obtain j where "journal_from_document (sample_journal phase) = Inr j" "lj_immutable_header j = sample_header"
    using sample_journal_ok [OF assms] by blast
  then show "journal_target (sample_journal phase) = Inr (transaction_path ''0a000000-0000-4000-8000-000000000001'')"
    by (simp add: journal_target_def sample_header_def lookup_def sample_id_def)
qed

abbreviation sample_path_id :: path where
  "sample_path_id \<equiv> transaction_path ''0a000000-0000-4000-8000-000000000001''"

definition sample_log :: fs where
  "sample_log = fmupd sample_path_id (File (utf8_encode (serialize (PDict (sample_journal ''planned'')))) 384) fmempty"

lemma sample_log_loads: "load_journal sample_path_id sample_log = Inr (canon_dict (sample_journal ''planned''))"
proof -
  have ph: "''planned'' \<in> set PHASES" by (simp add: PHASES_def)
  obtain j where "journal_from_document (sample_journal ''planned'') = Inr j" using sample_journal_ok [OF ph] by blast
  moreover have "node_at sample_log sample_path_id = Some (File (utf8_encode (serialize (PDict (sample_journal ''planned'')))) 384)"
    using transaction_path_nonempty by (simp add: sample_log_def node_at_def)
  ultimately show ?thesis
    using sample_journal_facts [OF ph] canonical_json_bytes_Inr_iff by (intro written_journal_loads) auto
qed

theorem journal_never_regresses_witness:
  "\<exists>new. load_journal sample_path_id (final (write_journal (\<lambda>_ _ _. ''x'') (sample_journal ''probing'')) sample_log) = Inr new \<and>
     (new = canon_dict (sample_journal ''planned'') \<or> journal_extends (canon_dict (sample_journal ''planned'')) new)"
proof -
  let ?u = "final (write_journal (\<lambda>_ _ _. ''x'') (sample_journal ''probing'')) sample_log"
  have ph: "''probing'' \<in> set PHASES" by (simp add: PHASES_def)
  note facts = sample_journal_facts [OF ph]
  have step: "(journal_step sample_path_id)\<^sup>*\<^sup>* sample_log ?u"
    by (rule r_into_rtranclp) (rule publish [OF facts(3,1) final_in_states])
  obtain j where j: "journal_from_document (sample_journal ''probing'') = Inr j" using sample_journal_ok [OF ph] by blast
  have "\<exists>new. load_journal sample_path_id ?u = Inr new"
    using journal_write_node [OF facts(3) final_in_states, of "\<lambda>_ _ _. ''x''" sample_log]
      load_journal_cong [of ?u sample_path_id sample_log] sample_log_loads written_journal_loads [OF j facts(1)] by metis
  then show ?thesis using journal_never_regresses [OF step sample_log_loads] by blast
qed

theorem journal_write_exact_witness:
  "case outcome (write_journal (\<lambda>_ _ _. ''x'') (sample_journal ''probing'')) sample_log of
     Inl _ \<Rightarrow> node_at (final (write_journal (\<lambda>_ _ _. ''x'') (sample_journal ''probing'')) sample_log) sample_path_id
       = node_at sample_log sample_path_id
   | Inr q \<Rightarrow> q = sample_path_id \<and>
       load_journal sample_path_id (final (write_journal (\<lambda>_ _ _. ''x'') (sample_journal ''probing'')) sample_log)
       = Inr (canon_dict (sample_journal ''probing''))"
proof -
  have ph: "''probing'' \<in> set PHASES" by (simp add: PHASES_def)
  from journal_write_exact [OF sample_journal_facts(3) [OF ph] sample_journal_facts(1) [OF ph]] show ?thesis by blast
qed

end
