(* ===== verification/Frame.thy ===== *)
theory Frame
  imports Settle Journal_Log
begin

text \<open>
  Which paths a computation may change. \<open>modifies P m\<close> says that in every state \<open>m\<close> passes through, the
  nodes outside of \<open>P\<close> are those of the state it started from; the rules of the collection
  \<open>modifies_intros\<close> compute it along the structure of a computation.
\<close>

named_theorems modifies_intros \<open>which paths a computation may change\<close>

definition modifies :: "path set \<Rightarrow> 'a io \<Rightarrow> bool" where
  "modifies P m = (\<forall>s. \<forall>u \<in> set (states m s). \<forall>p. p \<notin> P \<longrightarrow> node_at u p = node_at s p)"

lemma modifiesI: "(\<And>s u p. u \<in> set (states m s) \<Longrightarrow> p \<notin> P \<Longrightarrow> node_at u p = node_at s p) \<Longrightarrow> modifies P m"
  by (simp add: modifies_def)

lemma modifiesD: "modifies P m \<Longrightarrow> u \<in> set (states m s) \<Longrightarrow> p \<notin> P \<Longrightarrow> node_at u p = node_at s p"
  by (simp add: modifies_def)

lemma modifies_final: "modifies P m \<Longrightarrow> p \<notin> P \<Longrightarrow> node_at (final m s) p = node_at s p"
  by (rule modifiesD [OF _ final_in_states])

lemma modifies_mono: "modifies P m \<Longrightarrow> P \<subseteq> Q \<Longrightarrow> modifies Q m"
  unfolding modifies_def by blast

section \<open>Rules\<close>

lemma modifies_pure [modifies_intros]:
  "modifies P (iret x)" "modifies P (iraise e)" "modifies P (ilift r)" "modifies P iget" "modifies P (iread f)"
  "modifies P (irequire b e)"
  by (simp_all add: modifies_def irequire_def)

lemma modifies_ibnd_outcome:
  assumes "modifies P m" and "\<And>s x. outcome m s = Inr x \<Longrightarrow> modifies P (f x)"
  shows "modifies P (ibnd m f)"
proof (rule modifiesI)
  fix s u p assume u: "u \<in> set (states (ibnd m f) s)" and p: "p \<notin> P"
  show "node_at u p = node_at s p"
  proof (cases "u \<in> set (states m s)")
    case True
    then show ?thesis using modifiesD [OF assms(1)] p by blast
  next
    case False
    with u obtain x where x: "outcome m s = Inr x" "u \<in> set (states (f x) (final m s))"
      by (auto simp: states_ibnd split: sum.splits)
    then show ?thesis
      using modifiesD [OF assms(2) [OF x(1)] x(2) p] modifies_final [OF assms(1) p] by simp
  qed
qed

lemma modifies_ibnd [modifies_intros]: "modifies P m \<Longrightarrow> (\<And>x. modifies P (f x)) \<Longrightarrow> modifies P (ibnd m f)"
  by (rule modifies_ibnd_outcome)

lemma modifies_ifinally [modifies_intros]:
  assumes "modifies P m" and "modifies P c"
  shows "modifies P (ifinally m c)"
proof (rule modifiesI)
  fix s u p assume "u \<in> set (states (ifinally m c) s)" and p: "p \<notin> P"
  then have "u \<in> set (states m s) \<or> u \<in> set (states c (final m s))" by (simp add: ifinally_run)
  then show "node_at u p = node_at s p"
    using modifiesD [OF assms(1) _ p] modifiesD [OF assms(2) _ p] modifies_final [OF assms(1) p] by metis
qed

lemma modifies_if [modifies_intros]: "(b \<Longrightarrow> modifies P m) \<Longrightarrow> (\<not> b \<Longrightarrow> modifies P m') \<Longrightarrow> modifies P (if b then m else m')"
  by simp

lemma modifies_iwhen [modifies_intros]: "(b \<Longrightarrow> modifies P m) \<Longrightarrow> modifies P (iwhen b m)"
  by (simp add: iwhen_def modifies_pure)

lemma modifies_imap [modifies_intros]:
  "(\<And>x. x \<in> set xs \<Longrightarrow> modifies P (f x)) \<Longrightarrow> modifies P (imap f xs)"
proof (induction xs)
  case (Cons x xs)
  then have "modifies P (f x)" "modifies P (imap f xs)" by auto
  then show ?case by (auto intro!: modifies_intros)
qed (simp add: modifies_pure)

lemma modifies_iforeach [modifies_intros]:
  "(\<And>x. x \<in> set xs \<Longrightarrow> modifies P (f x)) \<Longrightarrow> modifies P (iforeach f xs)"
  unfolding iforeach_def by (intro modifies_intros)

lemma modifies_istep:
  assumes "\<And>s s' p. f s = Inr s' \<Longrightarrow> p \<notin> P \<Longrightarrow> node_at s' p = node_at s p"
  shows "modifies P (istep f)"
proof (rule modifiesI)
  fix s u p assume "u \<in> set (states (istep f) s)" "p \<notin> P"
  then show "node_at u p = node_at s p"
    using assms by (cases "f s") (auto simp: states_istep)
qed

lemma modifies_syscalls [modifies_intros]:
  "p \<in> P \<Longrightarrow> modifies P (mkdir p m)" "p \<in> P \<Longrightarrow> modifies P (unlink p)" "p \<in> P \<Longrightarrow> modifies P (rmdir p)"
  "p \<in> P \<Longrightarrow> modifies P (chmod p m)" "p \<in> P \<Longrightarrow> q \<in> P \<Longrightarrow> modifies P (replace p q)"
  "p \<in> P \<Longrightarrow> modifies P (istep (create_fs p m))" "p \<in> P \<Longrightarrow> modifies P (istep (create_excl_fs p m))"
  "p \<in> P \<Longrightarrow> modifies P (istep (write_fs p bs))" "p \<in> P \<Longrightarrow> modifies P (istep (open_lock_fs p))"
  by (rule modifies_istep; auto simp: mkdir_fs_def unlink_fs_def rmdir_fs_def chmod_fs_def replace_fs_def create_fs_def
      create_excl_fs_def write_fs_def open_lock_fs_def node_at_def split: option.splits node.splits if_splits)+

lemma modifies_mkdir_parents [modifies_intros]:
  "set (ancestors p) \<subseteq> P \<Longrightarrow> p \<noteq> [] \<Longrightarrow> p \<in> P \<Longrightarrow> modifies P (mkdir_parents p)"
  "p = [] \<Longrightarrow> modifies P (mkdir_parents p)"
  unfolding mkdir_parents_def by (intro modifies_intros; auto simp: ancestors_def split: if_splits)+

lemma modifies_write_bytes [modifies_intros]: "p \<in> P \<Longrightarrow> modifies P (write_bytes p bs)"
  unfolding write_bytes_def by (intro modifies_intros)

lemma modifies_read_bytes [modifies_intros]: "modifies P (read_bytes p)"
  unfolding read_bytes_def by (intro modifies_intros)

text \<open>A published file: the target and the temporary files beside it.\<close>

definition beside :: "path \<Rightarrow> string \<Rightarrow> path set" where
  "beside t prefix = {q. \<exists>x. q = parent t @ [prefix @ x]}"

lemma modifies_atomic_write [modifies_intros]:
  assumes "t \<noteq> []" and "t \<notin> beside t prefix" and "t \<in> P" and "beside t prefix \<subseteq> P"
  shows "modifies P (atomic_write rnd prefix t payload)"
proof (rule modifiesI)
  fix s u p assume u: "u \<in> set (states (atomic_write rnd prefix t payload) s)" and p: "p \<notin> P"
  let ?q = "publish_temp rnd prefix t s"
  have b: "?q \<in> beside t prefix" by (auto simp: beside_def publish_temp_def)
  then have q: "?q \<noteq> t" "?q \<noteq> []" "?q \<in> P" using assms(2,4) by (auto simp: publish_temp_def)
  have "u \<in> insert s (publish_states s t ?q payload)"
    using subsetD [OF atomic_write_states [OF assms(1) q(1)] u] by (cases "fmlookup s ?q") simp_all
  then show "node_at u p = node_at s p"
    using q assms(1,3) p by (auto simp: publish_states_def node_at_def split: sum.splits)
qed

lemma modifies_compare_and_swap [modifies_intros]:
  assumes "target_of c \<in> P" and "beside (target_of c) cas_prefix \<subseteq> P"
  shows "modifies P (compare_and_swap rnd e c k)"
proof (rule modifiesI)
  fix s u p assume u: "u \<in> set (states (compare_and_swap rnd e c k) s)" and p: "p \<notin> P"
  from cas_crash [OF u] show "node_at u p = node_at s p"
  proof (elim disjE conjE)
    assume h: "holds e s" "fs_path e = fs_path c" and u: "u \<in> cas_states rnd c k s"
    have ne: "target_of c \<noteq> []" using holds_target [OF h(1)] h(2) by simp
    have "temp_path rnd (target_of c) s \<in> P" using assms(2) by (auto simp: beside_def temp_path_def)
    moreover have "temp_path rnd (target_of c) s \<noteq> []" by (simp add: temp_path_def)
    ultimately show ?thesis
      using u ne assms(1) p
      by (cases k) (auto simp: cas_states_def swap_states_def node_at_def split: if_splits)
  qed simp
qed

section \<open>The parts of a transaction\<close>

text \<open>The paths below a path.\<close>

definition below :: "path \<Rightarrow> path set" where
  "below r = {p. take (length r) p = r}"

lemma below_refl [simp]: "r \<in> below r" and below_append [simp]: "r @ q \<in> below r"
  by (simp_all add: below_def)

text \<open>Where journals and backups live: the directory of the transactions.\<close>

definition journal_area :: "path set" where
  "journal_area = insert [''.agent-workflow''] (below [''.agent-workflow'', ''transactions''])"

lemma transaction_path_split: "transaction_path t = [''.agent-workflow'', ''transactions''] @ path_of (t @ ''.json'')"
proof -
  have e: "''.agent-workflow/transactions/'' @ t @ ''.json'' = ''.agent-workflow'' @ chr_slash # (''transactions'' @ chr_slash # (t @ ''.json''))"
    by simp
  show ?thesis
    unfolding transaction_path_def e path_of_append by (simp add: path_of_def)
qed

lemma json_name: "path_of (t @ ''.json'') \<noteq> []"
proof -
  have "last (split_on c (s @ ''.json'')) \<noteq> [] \<and> last (split_on c (s @ ''.json'')) \<noteq> ''.'' " if "c = chr_slash" for c s
    using that by (induction s) (auto split: list.splits)
  then have "last (split_on chr_slash (t @ ''.json'')) \<in> set (path_of (t @ ''.json''))"
    by (simp add: path_of_def)
  then show ?thesis by auto
qed

lemma modifies_write_journal [modifies_intros]: "journal_area \<subseteq> P \<Longrightarrow> modifies P (write_journal rnd document)"
proof -
  have "modifies journal_area (write_journal rnd document)"
    unfolding write_journal_def
  proof (rule modifies_ibnd_outcome)
    fix s p assume "outcome (ilift (journal_target document)) s = Inr p"
    then obtain t where "p = transaction_path t" by (auto simp: journal_target_def bnd_Inr_iff)
    then obtain q where p: "p = [''.agent-workflow'', ''transactions''] @ q" and q: "q \<noteq> []"
      using transaction_path_split json_name by blast
    have par: "parent p = [''.agent-workflow'', ''transactions''] @ butlast q" using q by (simp add: p butlast_append)
    have "set (ancestors (parent p)) \<subseteq> journal_area"
    proof
      fix x assume "x \<in> set (ancestors (parent p))"
      then obtain n where n: "x = take n (parent p)" "0 < n" "n < length (parent p)" by (auto simp: ancestors_def)
      show "x \<in> journal_area"
      proof (cases "n = 1")
        case False
        then obtain k where "n = Suc (Suc k)" using n(2) by (metis One_nat_def Suc_pred less_irrefl not_gr_zero)
        then show ?thesis by (simp add: n(1) par journal_area_def below_def)
      qed (simp add: n(1) par journal_area_def)
    qed
    moreover have "parent p \<in> journal_area" "p \<in> journal_area" by (simp_all only: par p journal_area_def) (simp_all add: below_def)
    moreover have "beside p (''.'' @ last p @ ''.'') \<subseteq> journal_area"
      unfolding beside_def par journal_area_def by (auto simp: below_def)
    moreover have "p \<notin> beside p (''.'' @ last p @ ''.'')"
    proof
      assume "p \<in> beside p (''.'' @ last p @ ''.'')"
      then obtain x where "p = parent p @ [(''.'' @ last p @ ''.'') @ x]" by (auto simp: beside_def)
      then have "last p = (''.'' @ last p @ ''.'') @ x" by (metis last_snoc)
      then have "length (last p) = length ((''.'' @ last p @ ''.'') @ x)" by (rule arg_cong)
      then show False by simp
    qed
    ultimately show "modifies journal_area (ibnd (iread (\<lambda>s. if path_exists s p \<or> is_symlink s p
        then bnd (load_journal p s) (\<lambda>existing. check_existing existing document) else Inr ())) (\<lambda>_.
        ibnd (atomic_json rnd p document) (\<lambda>_. iret p)))"
      unfolding atomic_json_def using p by (intro modifies_intros) (auto simp: par)
  qed (rule modifies_pure)
  then show "journal_area \<subseteq> P \<Longrightarrow> ?thesis" by (rule modifies_mono)
qed

lemma modifies_advance [modifies_intros]: "journal_area \<subseteq> P \<Longrightarrow> modifies P (advance rnd journal phase records)"
  unfolding advance_def by (intro modifies_intros)

definition marker_area :: "path set" where
  "marker_area = insert maintenance_path (beside maintenance_path ''.maintenance.'')"

lemma modifies_maintenance [modifies_intros]:
  "marker_area \<subseteq> P \<Longrightarrow> modifies P (write_maintenance rnd marker)"
  "marker_area \<subseteq> P \<Longrightarrow> modifies P (remove_maintenance marker)"
  unfolding write_maintenance_def remove_maintenance_def
  by (intro modifies_intros; auto simp: marker_area_def maintenance_path_def beside_def)+

definition lock_area :: "path set" where
  "lock_area = {control_dir, control_dir @ [''reconcile.lock''], control_dir @ [''runtime-state.lock'']}"

lemma modifies_locks [modifies_intros]:
  "lock_area \<subseteq> P \<Longrightarrow> modifies P acquire_project_locks"
  "lock_area \<subseteq> P \<Longrightarrow> modifies P (apply_locks env operation lock_root)"
proof -
  have a: "modifies lock_area acquire_project_locks"
    unfolding acquire_project_locks_def advisory_lock_def real_directory_def
    by (intro modifies_intros; auto simp: lock_area_def control_dir_def ancestors_def)
  then show "lock_area \<subseteq> P \<Longrightarrow> modifies P acquire_project_locks" by (rule modifies_mono)
  then show "lock_area \<subseteq> P \<Longrightarrow> modifies P (apply_locks env operation lock_root)"
    unfolding apply_locks_def by (cases lock_root) (auto intro!: modifies_intros)
qed

definition probe_area :: "string \<Rightarrow> path set" where
  "probe_area identity = below (path_of (''.agent-workflow-probe-'' @ identity))"

lemma modifies_probe [modifies_intros]:
  assumes "probe_area identity \<subseteq> P"
  shows "modifies P (run_write_probe env identity)"
proof -
  let ?r = "path_of (''.agent-workflow-probe-'' @ identity)"
  have two_names: "modifies (probe_area identity) (probe_alias ?r a b)" for a b
    unfolding probe_alias_def unlink_existing_def Let_def
    by (intro modifies_intros; simp add: probe_area_def)
  have measure: "modifies (probe_area identity) (probe_measure env i ?r)" for i
    unfolding probe_measure_def Let_def
    by (intro modifies_intros two_names; simp add: probe_area_def)
  have cleanup: "modifies (probe_area identity) (probe_cleanup ?r)"
    unfolding probe_cleanup_def remove_empty_probe_directory_def unlink_plain_def
    by (intro modifies_intros; auto simp: probe_area_def)
  have "modifies (probe_area identity) (run_write_probe env identity)"
    unfolding run_write_probe_def Let_def
    by (intro modifies_intros measure cleanup; simp add: probe_area_def)
  then show ?thesis using assms by (rule modifies_mono)
qed

text \<open>The backups of the records, with the directories above them.\<close>

definition backup_area :: "dict list \<Rightarrow> path set" where
  "backup_area records = insert [] (\<Union>b \<in> set (backup_targets records). insert b (set (ancestors b)))"

lemma parent_ancestor: "b \<noteq> [] \<Longrightarrow> parent b = [] \<or> parent b \<in> set (ancestors b)"
  by (cases "length b = 1") (auto simp: ancestors_def butlast_conv_take length_Suc_conv intro!: image_eqI [where x = "length b - 1"])

lemma ancestors_trans: "p \<in> set (ancestors q) \<Longrightarrow> q \<in> set (ancestors r) \<Longrightarrow> p \<in> set (ancestors r)"
  by (auto simp: ancestors_def image_iff min_def)

lemma backup_area_parents:
  assumes "b \<in> set (backup_targets records)"
  shows "b \<in> backup_area records" "parent b \<in> backup_area records" "set (ancestors (parent b)) \<subseteq> backup_area records"
    "parent (parent b) \<in> backup_area records"
proof -
  show "b \<in> backup_area records" using assms by (auto simp: backup_area_def)
  have anc: "set (ancestors b) \<subseteq> backup_area records" using assms by (auto simp: backup_area_def)
  have p: "parent b = [] \<or> parent b \<in> set (ancestors b)" using parent_ancestor [of b] by (cases "b = []") auto
  show "parent b \<in> backup_area records" using p anc by (auto simp: backup_area_def)
  show up: "set (ancestors (parent b)) \<subseteq> backup_area records"
    using p anc ancestors_trans [of _ "parent b" b] by (auto simp: ancestors_def [of "[]"])
  show "parent (parent b) \<in> backup_area records"
    using parent_ancestor [of "parent b"] up by (cases "parent b = []") (auto simp: backup_area_def)
qed

lemma strs_of_member: "PStr s \<in> set xs \<Longrightarrow> s \<in> set (strs_of xs)"
  by (induction xs rule: strs_of.induct) auto

lemma modifies_backup_file:
  assumes "r \<in> set records"
  shows "modifies (backup_area records) (backup_file r)"
  unfolding backup_file_def
proof (rule modifies_ibnd [OF modifies_pure(3)], rule modifies_ibnd_outcome [OF modifies_pure(3)])
  fix original s v
  assume "outcome (ilift (lookup r ''backup_path'')) s = Inr v"
  then have v: "get r ''backup_path'' = v" by (auto simp: lookup_def get_def split: option.splits)
  show "modifies (backup_area records) (case v of PStr backup \<Rightarrow>
         if \<not> fs_exists original then iret r
         else let source = path_of (fs_path original); target = path_of backup in
           ibnd (iread (\<lambda>s. require (\<not> (is_symlink s source \<or> \<not> is_file s source)) cas_mismatch)) (\<lambda>_.
           ibnd (read_bytes source) (\<lambda>payload.
           ibnd (irequire (sha256_hex payload = fs_hash original) cas_mismatch) (\<lambda>_.
           ibnd (mkdir_parents (parent target)) (\<lambda>_.
           ibnd (write_bytes target payload) (\<lambda>_.
           ibnd (ilift (mode_bits (fs_mode original))) (\<lambda>m.
           ibnd (chmod target m) (\<lambda>_.
           iret (AList.update ''backup_byte_hash'' (PStr (fs_hash original)) r))))))))
     | _ \<Rightarrow> iret r)"
  proof (cases v)
    case (PStr b)
    then have b: "path_of b \<in> set (backup_targets records)"
      unfolding backup_targets_def using assms v strs_of_member [of b "map (\<lambda>r. get r ''backup_path'') records"] PStr by force
    have mk: "modifies (backup_area records) (mkdir_parents (parent (path_of b)))"
    proof (cases "parent (path_of b) = []")
      case True
      then show ?thesis by (rule modifies_mkdir_parents(2))
    next
      case False
      then show ?thesis using backup_area_parents [OF b] by (intro modifies_mkdir_parents(1))
    qed
    then show ?thesis
      unfolding PStr pyval.case Let_def
      by (intro modifies_ibnd modifies_if modifies_pure modifies_read_bytes modifies_write_bytes modifies_syscalls mk
          backup_area_parents(1) [OF b])
  qed (simp_all add: modifies_pure)
qed

lemma modifies_prepare_backups [modifies_intros]:
  assumes "backup_area records \<subseteq> P" and "path_of ` set directories \<subseteq> P"
  shows "modifies P (prepare_backups records directories)"
  unfolding prepare_backups_def
  using assms(2) modifies_mono [OF modifies_backup_file assms(1)] by (intro modifies_intros) auto

lemma modifies_cleanup [modifies_intros]:
  assumes "backup_area records \<subseteq> P"
  shows "modifies P (cleanup_transaction_data records)"
proof -
  have "set (data_directories records) \<subseteq> backup_area records"
    using backup_area_parents by (auto simp: data_directories_def)
  then show ?thesis
    unfolding cleanup_transaction_data_def remove_backup_def remove_existing_directory_def
    using assms backup_area_parents(1) by (intro modifies_intros) blast+
qed

text \<open>The files of the records, with the temporary files beside them.\<close>

definition record_area :: "dict list \<Rightarrow> path set" where
  "record_area records = (\<Union>r \<in> set records. insert (target_of (candidate_of r)) (beside (target_of (candidate_of r)) cas_prefix))"

lemma modifies_apply_file_records [modifies_intros]:
  assumes "record_area records \<subseteq> P"
  shows "modifies P (apply_file_records rnd records)"
  unfolding apply_file_records_def
proof (rule modifies_imap)
  fix r assume r: "r \<in> set records"
  show "modifies P (apply_file rnd r)"
    unfolding apply_file_def
  proof (rule modifies_ibnd_outcome [OF modifies_pure(3)])
    fix s x assume "outcome (ilift (record_states r)) s = Inr x"
    then have "candidate_of r = snd x" by (simp add: candidate_of_def states_of_def)
    then have c: "candidate_of r = snd x" .
    show "modifies P (case x of (original, candidate) \<Rightarrow>
       ibnd (ilift (lookup r ''candidate_content_utf8'')) (\<lambda>raw.
       ibnd (compare_and_swap rnd original candidate (content_bytes raw)) (\<lambda>_.
       iret (AList.update ''applied'' (PBool True) r))))"
    proof -
      have "insert (target_of (candidate_of r)) (beside (target_of (candidate_of r)) cas_prefix) \<subseteq> P"
        using assms r unfolding record_area_def by blast
      then show ?thesis unfolding c case_prod_beta by (intro modifies_intros) blast+
    qed
  qed
qed

section \<open>The whole transaction\<close>

text \<open>The loops only change the two notes in a record: the hash of its backup and whether it is applied.\<close>

definition same_record :: "dict \<Rightarrow> dict \<Rightarrow> bool" where
  "same_record r r' = (record_states r' = record_states r \<and> get r' ''backup_path'' = get r ''backup_path'' \<and>
     get r' ''candidate_content_utf8'' = get r ''candidate_content_utf8'' \<and>
     lookup r' ''candidate_content_utf8'' = lookup r ''candidate_content_utf8'')"

lemma same_record_update:
  assumes "k = ''backup_byte_hash'' \<or> k = ''applied''"
  shows "same_record r (AList.update k v r)"
  using assms by (auto simp: same_record_def record_states_def lookup_def get_def update_conv')

lemma imap_relates:
  assumes "\<And>x s y. x \<in> set xs \<Longrightarrow> outcome (f x) s = Inr y \<Longrightarrow> Q x y" and "outcome (imap f xs) s = Inr ys"
  shows "list_all2 Q xs ys"
  using assms
proof (induction xs arbitrary: s ys)
  case (Cons x xs)
  from Cons.prems(2) obtain y ys' where y: "outcome (f x) s = Inr y" "outcome (imap f xs) (final (f x) s) = Inr ys'" "ys = y # ys'"
    by (auto simp: outcome_ibnd_Inr)
  then show ?case using Cons.IH [OF _ y(2)] Cons.prems(1) by simp
qed simp

lemma same_record_refl: "same_record r r"
  by (simp add: same_record_def)

text \<open>What a computation returns when it ends.\<close>

definition yields :: "('a \<Rightarrow> bool) \<Rightarrow> 'a io \<Rightarrow> bool" where
  "yields Q m = (\<forall>s y. outcome m s = Inr y \<longrightarrow> Q y)"

lemma yields_iret: "Q x \<Longrightarrow> yields Q (iret x)"
  by (simp add: yields_def)

lemma yields_ibnd: "(\<And>x. yields Q (f x)) \<Longrightarrow> yields Q (ibnd m f)"
  unfolding yields_def outcome_ibnd_Inr by blast

lemma yields_if: "yields Q m \<Longrightarrow> yields Q m' \<Longrightarrow> yields Q (if b then m else m')"
  by simp

lemma backup_file_same: "yields (same_record r) (backup_file r)"
proof -
  have "yields (same_record r) (case v of PStr backup \<Rightarrow> M backup | _ \<Rightarrow> iret r)"
    if "\<And>backup. yields (same_record r) (M backup)" for v M
    using that by (cases v) (simp_all add: yields_iret same_record_refl)
  note by_cases = this
  show ?thesis
    unfolding backup_file_def Let_def
    by (intro yields_ibnd by_cases) (intro yields_ibnd yields_if yields_iret same_record_refl same_record_update disjI1 refl)
qed

lemma apply_file_same: "yields (same_record r) (apply_file rnd r)"
  unfolding apply_file_def case_prod_beta
  by (intro yields_ibnd yields_iret same_record_update disjI2 refl)

lemma prepare_backups_same:
  assumes "outcome (prepare_backups rs ds) s = Inr rs'"
  shows "list_all2 same_record rs rs'"
proof -
  obtain s' where s': "outcome (imap backup_file rs) s' = Inr rs'"
    using assms unfolding prepare_backups_def outcome_ibnd_Inr by blast
  show ?thesis by (rule imap_relates [OF _ s']) (use backup_file_same in \<open>auto simp: yields_def\<close>)
qed

lemma apply_file_records_same:
  assumes "outcome (apply_file_records rnd rs) s = Inr rs'"
  shows "list_all2 same_record rs rs'"
  by (rule imap_relates [OF _ assms [unfolded apply_file_records_def]]) (use apply_file_same in \<open>auto simp: yields_def\<close>)

lemma same_records_map:
  assumes "list_all2 same_record rs rs'" and "\<And>r r'. same_record r r' \<Longrightarrow> f r' = f r"
  shows "map f rs' = map f rs"
  using assms(1) by (induction rs rs' rule: list_all2_induct) (simp_all add: assms(2))

lemma same_records_areas:
  assumes "list_all2 same_record rs rs'"
  shows "record_area rs' = record_area rs" "backup_area rs' = backup_area rs"
    "map original_of rs' = map original_of rs" "map candidate_of rs' = map candidate_of rs"
proof -
  have one: "get r' ''backup_path'' = get r ''backup_path''" "original_of r' = original_of r" "candidate_of r' = candidate_of r"
    if "same_record r r'" for r r'
    using that by (simp_all add: same_record_def original_of_def candidate_of_def states_of_def)
  have b: "map (\<lambda>r. get r ''backup_path'') rs' = map (\<lambda>r. get r ''backup_path'') rs"
    by (rule same_records_map [OF assms one(1)])
  have o: "map original_of rs' = map original_of rs" by (rule same_records_map [OF assms one(2)])
  have c: "map candidate_of rs' = map candidate_of rs" by (rule same_records_map [OF assms one(3)])
  show "map original_of rs' = map original_of rs" "map candidate_of rs' = map candidate_of rs" by (rule o, rule c)
  show "backup_area rs' = backup_area rs" unfolding backup_area_def backup_targets_def b ..
  have area: "record_area xs = (\<Union>c \<in> set (map candidate_of xs). insert (target_of c) (beside (target_of c) cas_prefix))" for xs
    unfolding record_area_def set_map image_image ..
  show "record_area rs' = record_area rs" unfolding area c ..
qed

text \<open>Everything a transaction over these records and directories may change.\<close>

definition transaction_area :: "string \<Rightarrow> dict list \<Rightarrow> string list \<Rightarrow> path set" where
  "transaction_area transaction_id records directories =
     journal_area \<union> marker_area \<union> probe_area transaction_id \<union> backup_area records \<union> path_of ` set directories \<union> record_area records"

lemma modifies_stage:
  assumes "lookup (se_plan_core saved_plan) ''transaction_id'' = Inr t"
  shows "modifies (transaction_area (py_str t) records directories) (stage_files env saved_plan records directories journal)"
proof -
  let ?P = "transaction_area (py_str t) records directories"
  have sub: "journal_area \<subseteq> ?P" "marker_area \<subseteq> ?P" "probe_area (py_str t) \<subseteq> ?P" "backup_area records \<subseteq> ?P"
      "path_of ` set directories \<subseteq> ?P" "record_area records \<subseteq> ?P"
    by (auto simp: transaction_area_def)
  note adv = modifies_advance [OF sub(1)]
  show ?thesis
    unfolding stage_files_def Let_def
  proof (rule modifies_ibnd [OF modifies_write_journal [OF sub(1)]], rule modifies_ibnd [OF adv],
      rule modifies_ibnd_outcome [OF modifies_pure(3)])
    fix j1 s t'
    assume "outcome (ilift (lookup (se_plan_core saved_plan) ''transaction_id'')) s = Inr t'"
    then have t: "t' = t" using assms by simp
    have "modifies ?P (ibnd (advance (ae_rnd env) j1 ''prepared'' (Some rs)) (\<lambda>journal.
       ibnd (ilift (build_maintenance_marker saved_plan)) (\<lambda>marker.
       ibnd (write_maintenance (ae_rnd env) marker) (\<lambda>_.
       ibnd (advance (ae_rnd env) journal ''applying'' (Some rs)) (\<lambda>journal.
       ibnd (apply_file_records (ae_rnd env) rs) (\<lambda>records.
       ibnd (advance (ae_rnd env) journal ''files_applied'' (Some records)) (\<lambda>journal.
       iret (journal, records, marker))))))))"
      if "outcome (prepare_backups records directories) s = Inr rs" for rs s
    proof -
      have "record_area rs \<subseteq> ?P"
        using same_records_areas(1) [OF prepare_backups_same [OF that]] sub(6) by simp
      then show ?thesis
        by (intro modifies_ibnd modifies_pure adv modifies_maintenance(1) [OF sub(2)] modifies_apply_file_records)
    qed
    then show "modifies ?P (ibnd (run_write_probe (ae_probe env) (py_str t')) (\<lambda>_.
       ibnd (prepare_backups records directories) (\<lambda>records.
       ibnd (advance (ae_rnd env) j1 ''prepared'' (Some records)) (\<lambda>journal.
       ibnd (ilift (build_maintenance_marker saved_plan)) (\<lambda>marker.
       ibnd (write_maintenance (ae_rnd env) marker) (\<lambda>_.
       ibnd (advance (ae_rnd env) journal ''applying'' (Some records)) (\<lambda>journal.
       ibnd (apply_file_records (ae_rnd env) records) (\<lambda>records.
       ibnd (advance (ae_rnd env) journal ''files_applied'' (Some records)) (\<lambda>journal.
       iret (journal, records, marker))))))))))"
      unfolding t
      by (intro modifies_ibnd [OF modifies_probe [OF sub(3)]] modifies_ibnd_outcome [OF modifies_prepare_backups [OF sub(4,5)]])
  qed
qed

lemma modifies_finish:
  assumes "journal_area \<subseteq> P" and "marker_area \<subseteq> P" and "backup_area records \<subseteq> P"
  shows "modifies P (finish_transaction env journal records marker)"
  unfolding finish_transaction_def Let_def using assms by (intro modifies_intros)

section \<open>Where a computation ends\<close>

definition hoare :: "(fs \<Rightarrow> bool) \<Rightarrow> 'a io \<Rightarrow> ('a \<Rightarrow> fs \<Rightarrow> bool) \<Rightarrow> bool" where
  "hoare P m Q = (\<forall>s y. P s \<longrightarrow> outcome m s = Inr y \<longrightarrow> Q y (final m s))"

lemma hoareD: "hoare P m Q \<Longrightarrow> P s \<Longrightarrow> outcome m s = Inr y \<Longrightarrow> Q y (final m s)"
  by (simp add: hoare_def)

lemma hoare_ibnd: "hoare P m R \<Longrightarrow> (\<And>x. hoare (R x) (f x) Q) \<Longrightarrow> hoare P (ibnd m f) Q"
  unfolding hoare_def outcome_ibnd_Inr by (auto simp: final_ibnd split: sum.splits)

lemma hoare_iret: "(\<And>s. P s \<Longrightarrow> Q x s) \<Longrightarrow> hoare P (iret x) Q"
  by (simp add: hoare_def)

lemma hoare_ilift: "(\<And>s x. P s \<Longrightarrow> r = Inr x \<Longrightarrow> Q x s) \<Longrightarrow> hoare P (ilift r) Q"
  by (simp add: hoare_def)

lemma hoare_yields: "yields Q m \<Longrightarrow> hoare P m (\<lambda>y _. Q y)"
  by (simp add: hoare_def yields_def)

lemma hoare_const: "hoare (\<lambda>_. F) m (\<lambda>_ _. F)"
  by (simp add: hoare_def)

lemma hoare_weaken: "hoare P m Q \<Longrightarrow> (\<And>s. P' s \<Longrightarrow> P s) \<Longrightarrow> hoare P' m Q"
  by (simp add: hoare_def)

text \<open>What is said about paths a computation does not change stays true.\<close>

lemma hoare_frame:
  assumes "modifies A m" and "\<And>s u. P s \<Longrightarrow> (\<And>p. p \<notin> A \<Longrightarrow> node_at u p = node_at s p) \<Longrightarrow> P u"
  shows "hoare P m (\<lambda>_. P)"
  unfolding hoare_def using assms(2) modifies_final [OF assms(1)] by metis

text \<open>All records are in their candidate states.\<close>

definition all_applied :: "dict list \<Rightarrow> fs \<Rightarrow> bool" where
  "all_applied records s = (\<forall>r \<in> set records. describes (candidate_of r) (node_at s (target_of (candidate_of r))))"

lemma all_applied_frame:
  assumes "all_applied records s" and "\<And>p. p \<notin> A \<Longrightarrow> node_at u p = node_at s p"
    and "\<And>r. r \<in> set records \<Longrightarrow> target_of (candidate_of r) \<notin> A"
  shows "all_applied records u"
  using assms unfolding all_applied_def by simp

lemma same_record_trans: "same_record r r' \<Longrightarrow> same_record r' r'' \<Longrightarrow> same_record r r''"
  by (simp add: same_record_def)

lemma same_records_trans:
  assumes "list_all2 same_record rs rs'" and "list_all2 same_record rs' rs''"
  shows "list_all2 same_record rs rs''"
  by (rule list_all2_trans [OF same_record_trans assms])

lemma same_records_applied:
  assumes "list_all2 same_record rs rs'"
  shows "all_applied rs' s = all_applied rs s"
proof -
  have "all_applied xs s = (\<forall>c \<in> set (map candidate_of xs). describes c (node_at s (target_of c)))" for xs
    by (simp add: all_applied_def)
  then show ?thesis by (simp only: same_records_areas(4) [OF assms])
qed

lemma stage_files_records:
  "yields (\<lambda>(j, rs, m). list_all2 same_record records rs) (stage_files env saved_plan records directories journal)"
proof -
  have prep: "hoare (\<lambda>_. True) (prepare_backups records directories) (\<lambda>rs _. list_all2 same_record records rs)"
    using prepare_backups_same by (intro hoare_yields) (simp add: yields_def)
  have loop: "hoare (\<lambda>_. list_all2 same_record records rs) (apply_file_records rnd rs)
      (\<lambda>rs' _. list_all2 same_record records rs')" for rnd rs
    using apply_file_records_same same_records_trans unfolding hoare_def by blast
  have "hoare (\<lambda>_. True) (stage_files env saved_plan records directories journal)
      (\<lambda>(j, rs, m) _. list_all2 same_record records rs)"
    unfolding stage_files_def Let_def
    by (rule hoare_ibnd [OF prep] hoare_ibnd [OF loop] hoare_ibnd [OF hoare_const] hoare_iret)+ simp
  then show ?thesis unfolding hoare_def yields_def by (simp add: case_prod_beta)
qed

lemma stage_files_applied:
  assumes "distinct (map (\<lambda>r. target_of (candidate_of r)) records)"
    and "\<And>r. r \<in> set records \<Longrightarrow> target_of (candidate_of r) \<notin> journal_area"
  shows "hoare (\<lambda>_. True) (stage_files env saved_plan records directories journal)
    (\<lambda>(j, rs, m) s. list_all2 same_record records rs \<and> all_applied records s)"
proof -
  have apply_records: "hoare (\<lambda>_. list_all2 same_record records rs) (apply_file_records rnd rs)
      (\<lambda>rs' s. list_all2 same_record records rs' \<and> all_applied records s)" for rnd rs
    unfolding hoare_def
  proof (intro allI impI)
    fix s rs' assume rs: "list_all2 same_record records rs" and o: "outcome (apply_file_records rnd rs) s = Inr rs'"
    have "map (\<lambda>r. target_of (candidate_of r)) rs = map target_of (map candidate_of rs)" by simp
    also have "\<dots> = map (\<lambda>r. target_of (candidate_of r)) records"
      unfolding same_records_areas(4) [OF rs] by simp
    finally have "distinct (map (\<lambda>r. target_of (candidate_of r)) rs)" using assms(1) by simp
    from apply_loop.loop_settles(1) [OF this o [unfolded apply_file_records_def]]
    have "all_applied rs (final (apply_file_records rnd rs) s)"
      unfolding all_applied_def apply_file_records_def .
    then show "list_all2 same_record records rs' \<and> all_applied records (final (apply_file_records rnd rs) s)"
      using same_records_applied [OF rs] same_records_trans [OF rs apply_file_records_same [OF o]] by simp
  qed
  have last: "hoare (\<lambda>s. list_all2 same_record records rs \<and> all_applied records s) (advance rnd j ph x)
      (\<lambda>_ s. list_all2 same_record records rs \<and> all_applied records s)" for rnd j ph x rs
    using all_applied_frame assms(2)
    by (intro hoare_frame [OF modifies_advance [OF subset_refl]]) blast
  have prep: "hoare (\<lambda>_. True) (prepare_backups records directories) (\<lambda>rs _. list_all2 same_record records rs)"
    using prepare_backups_same by (intro hoare_yields) (simp add: yields_def)
  show ?thesis
    unfolding stage_files_def Let_def
    by (rule hoare_ibnd [OF hoare_const] hoare_ibnd [OF prep] hoare_ibnd [OF apply_records] hoare_ibnd [OF last] hoare_iret)+ simp
qed

section \<open>At every point\<close>

text \<open>\<open>always P m I\<close>: started where \<open>P\<close> holds, every state that \<open>m\<close> passes through satisfies \<open>I\<close>.\<close>

definition always :: "(fs \<Rightarrow> bool) \<Rightarrow> 'a io \<Rightarrow> (fs \<Rightarrow> bool) \<Rightarrow> bool" where
  "always P m I = (\<forall>s. P s \<longrightarrow> (\<forall>u \<in> set (states m s). I u))"

lemma always_ibnd:
  assumes "always P m I" and "hoare P m R" and "\<And>x. always (R x) (f x) I"
  shows "always P (ibnd m f) I"
  unfolding always_def
proof (intro allI impI ballI)
  fix s u assume s: "P s" and u: "u \<in> set (states (ibnd m f) s)"
  show "I u"
  proof (cases "outcome m s")
    case (Inl e)
    then have "u \<in> set (states m s)" using u by (simp add: states_ibnd)
    then show ?thesis using assms(1) s unfolding always_def by blast
  next
    case (Inr x)
    then have "u \<in> set (states m s) \<or> u \<in> set (states (f x) (final m s))" using u by (simp add: states_ibnd)
    moreover have "R x (final m s)" by (rule hoareD [OF assms(2) s Inr])
    ultimately show ?thesis using assms(1,3) s unfolding always_def by blast
  qed
qed

lemma always_frame:
  assumes "modifies A m" and "\<And>s u. P s \<Longrightarrow> (\<And>p. p \<notin> A \<Longrightarrow> node_at u p = node_at s p) \<Longrightarrow> I u"
  shows "always P m I"
  unfolding always_def using assms(2) modifiesD [OF assms(1)] by metis

lemma always_ilift:
  assumes "\<And>s. P s \<Longrightarrow> I s" and "\<And>x. r = Inr x \<Longrightarrow> always P (f x) I"
  shows "always P (ibnd (ilift r) f) I"
  using assms by (cases r) (auto simp: always_def states_ibnd)

lemma always_iread:
  assumes "\<And>s. P s \<Longrightarrow> I s" and "\<And>s x. P s \<Longrightarrow> g s = Inr x \<Longrightarrow> always P (f x) I"
  shows "always P (ibnd (iread g) f) I"
  unfolding always_def
proof (intro allI impI ballI)
  fix s u assume s: "P s" and "u \<in> set (states (ibnd (iread g) f) s)"
  then show "I u" using assms by (cases "g s") (auto simp: always_def states_ibnd)
qed

lemma always_start: "always P m I \<Longrightarrow> (\<And>v. P' v \<Longrightarrow> P v) \<Longrightarrow> always P' m I"
  unfolding always_def by blast

lemma always_mono: "always P m I \<Longrightarrow> (\<And>v. I v \<Longrightarrow> I' v) \<Longrightarrow> always P m I'"
  unfolding always_def by blast

lemma always_const: "always (\<lambda>v. F \<and> P v) m I \<longleftrightarrow> (F \<longrightarrow> always P m I)"
  unfolding always_def by blast

text \<open>Both at once: \<open>I\<close> at every point, \<open>R\<close> at the end.\<close>

definition through :: "(fs \<Rightarrow> bool) \<Rightarrow> 'a io \<Rightarrow> ('a \<Rightarrow> fs \<Rightarrow> bool) \<Rightarrow> (fs \<Rightarrow> bool) \<Rightarrow> bool" where
  "through P m R I = (always P m I \<and> hoare P m R)"

lemma through_ibnd: "through P m R I \<Longrightarrow> (\<And>x. through (R x) (f x) Q I) \<Longrightarrow> through P (ibnd m f) Q I"
  unfolding through_def using always_ibnd hoare_ibnd by blast

lemma through_ilift:
  assumes "\<And>s. P s \<Longrightarrow> I s" and "\<And>x. r = Inr x \<Longrightarrow> through P (f x) Q I"
  shows "through P (ibnd (ilift r) f) Q I"
  using assms by (cases r) (auto simp: through_def always_def hoare_def states_ibnd outcome_ibnd final_ibnd)

lemma through_frame:
  assumes "modifies A m" and "\<And>s u. P s \<Longrightarrow> (\<And>p. p \<notin> A \<Longrightarrow> node_at u p = node_at s p) \<Longrightarrow> I u \<and> Q u"
  shows "through P m (\<lambda>_. Q) I"
proof -
  have "always P m I" by (rule always_frame [OF assms(1)]) (use assms(2) in blast)
  moreover have "hoare P m (\<lambda>_. Q)"
    unfolding hoare_def using assms(2) modifies_final [OF assms(1)] by metis
  ultimately show ?thesis by (simp add: through_def)
qed

end
