(* ===== verification/Apply_Safety.thy ===== *)
theory Apply_Safety
  imports Frame
begin

text \<open>
  What applying a plan can do to a tree, at every point and with every outcome: it touches only the
  files of the plan and those of the controller, and the Manifest, whose swap commits the transaction,
  changes after all files of the plan.
\<close>

section \<open>Created directories\<close>

lemma path_of_segments:
  assumes "qs \<noteq> []" and "\<And>q. q \<in> set qs \<Longrightarrow> q \<noteq> [] \<and> q \<noteq> ''.'' \<and> chr_slash \<notin> set q"
  shows "path_of (path_text qs) = qs"
proof -
  have "split_on chr_slash (path_text qs) = qs"
    unfolding path_text_def using assms by (intro split_join) (auto simp: list_all_iff)
  moreover have "filter (\<lambda>p. p \<noteq> [] \<and> p \<noteq> ''.'') qs = qs" using assms(2) by (simp add: filter_id_conv)
  ultimately show ?thesis by (simp add: path_of_def)
qed

lemma path_of_member: "q \<in> set (path_of p) \<Longrightarrow> q \<noteq> [] \<and> q \<noteq> ''.'' \<and> chr_slash \<notin> set q"
  using split_on_no_sep [of q chr_slash p] by (auto simp: path_of_def)

lemma missing_ancestors_below:
  assumes "missing_ancestors s r = Inr ds" and "record_states r = Inr p"
  shows "path_of ` set ds \<subseteq> set (ancestors (target_of (candidate_of r)))"
proof
  fix x assume "x \<in> path_of ` set ds"
  then obtain d where d: "d \<in> set ds" "x = path_of d" by blast
  have c: "bnd (as_mapping recovery_required (get r ''candidate_state'')) file_state_from_document = Inr (candidate_of r)"
    using assms(2) unfolding record_states_def candidate_of_def states_of_def
    by (auto simp: bnd_Inr_iff lookup_def get_def record_states_def split: option.splits)
  have sub: "mapr (\<lambda>q. if b q then Inl e else Inr q) qs = Inr rs \<Longrightarrow> rs = qs" for b e and qs rs :: "path list"
    by (induction qs arbitrary: rs) (auto simp: bnd_Inr_iff split: if_splits)
  have "fs_exists (candidate_of r)"
    using assms(1) d(1) unfolding missing_ancestors_def c by (auto split: if_splits)
  then obtain qs where qs: "mapr (\<lambda>q. if is_symlink s q \<or> (path_exists s q \<and> \<not> is_dir s q) then Inl cas_mismatch else Inr q)
      (ancestors (target_of (candidate_of r))) = Inr qs" "ds = map path_text (filter (\<lambda>q. \<not> path_exists s q) qs)"
    using assms(1) unfolding missing_ancestors_def c by (auto simp: bnd_Inr_iff)
  have "ds = map path_text (filter (\<lambda>q. \<not> path_exists s q) (ancestors (target_of (candidate_of r))))"
    using qs(2) unfolding sub [OF qs(1)] .
  with d obtain q where q: "q \<in> set (ancestors (target_of (candidate_of r)))" "x = path_of (path_text q)" by auto
  have "q \<noteq> []" "q = take (length q) (target_of (candidate_of r))" using ancestors_shorter [OF q(1)] by auto
  then have "path_of (path_text q) = q"
    using path_of_member by (intro path_of_segments) (metis in_set_takeD)+
  with q show "x \<in> set (ancestors (target_of (candidate_of r)))" by simp
qed

lemma created_directories_below:
  assumes "created_directories s records = Inr ds" and "\<And>r. r \<in> set records \<Longrightarrow> \<exists>p. record_states r = Inr p"
  shows "path_of ` set ds \<subseteq> (\<Union>r \<in> set records. set (ancestors (target_of (candidate_of r))))"
proof -
  obtain found where found: "mapr (missing_ancestors s) records = Inr found"
      "ds = sort_key (\<lambda>p. (slash_count p, p)) (remdups (concat found))"
    using assms(1) by (auto simp: created_directories_def bnd_Inr_iff)
  have "\<forall>x \<in> set (concat found). \<exists>r \<in> set rs. path_of x \<in> set (ancestors (target_of (candidate_of r)))"
    if "mapr (missing_ancestors s) rs = Inr found" "set rs \<subseteq> set records" for rs found
    using that
  proof (induction rs arbitrary: found)
    case (Cons r rs)
    then obtain f fs where f: "missing_ancestors s r = Inr f" "mapr (missing_ancestors s) rs = Inr fs" "found = f # fs"
      by (auto simp: bnd_Inr_iff)
    obtain p where "record_states r = Inr p" using assms(2) [of r] Cons.prems(2) by auto
    from missing_ancestors_below [OF f(1) this] Cons.IH [OF f(2)] Cons.prems(2) f(3) show ?case by auto
  qed simp
  from this [OF found(1)] show ?thesis by (auto simp: found(2))
qed

section \<open>The records of a plan\<close>

definition plan_record :: "string \<Rightarrow> dict \<Rightarrow> bool" where
  "plan_record transaction_id r = (\<exists>p e c content b. r = file_record p e c content b \<and> valid_file_state e \<and> valid_file_state c \<and>
     (b = PNone \<or> (\<exists>n. b = PStr (backup_path transaction_id n))))"

lemma plan_recordI:
  "valid_file_state e \<Longrightarrow> valid_file_state c \<Longrightarrow> b = PNone \<or> (\<exists>n. b = PStr (backup_path i n)) \<Longrightarrow>
    plan_record i (file_record p e c content b)"
  unfolding plan_record_def by blast

lemma file_record_fields:
  "get (file_record p e c content b) ''original_state'' = PDict (file_state_document e)"
  "get (file_record p e c content b) ''candidate_state'' = PDict (file_state_document c)"
  "lookup (file_record p e c content b) ''original_state'' = Inr (PDict (file_state_document e))"
  "lookup (file_record p e c content b) ''candidate_state'' = Inr (PDict (file_state_document c))"
  "get (file_record p e c content b) ''backup_path'' = b"
  by (simp_all add: file_record_def get_def lookup_def)

lemma file_record_states:
  "valid_file_state e \<Longrightarrow> valid_file_state c \<Longrightarrow> record_states (file_record p e c content b) = Inr (e, c)"
  by (simp add: record_states_def file_record_fields as_mapping_def file_state_reads_back)

lemma plan_record_states: "plan_record i r \<Longrightarrow> \<exists>p. record_states r = Inr p"
  unfolding plan_record_def using file_record_states by blast

lemma plan_record_backup: "plan_record i r \<Longrightarrow> get r ''backup_path'' = PStr b \<Longrightarrow> \<exists>n. b = backup_path i n"
  by (auto simp: plan_record_def file_record_fields)

lemma candidate_map_valid:
  assumes "candidate_state_map core = Inr cs" and "map_of cs p = Some c"
  shows "valid_file_state c"
proof -
  obtain raws items where items: "cs = dict_display items"
      "mapr (\<lambda>raw. bnd (as_mapping recovery_required raw) (\<lambda>d.
            bnd (lookup d ''path'') (\<lambda>p. bnd (file_state_from_document d) (\<lambda>f. Inr (py_str p, f))))) raws = Inr items"
    using assms(1) unfolding candidate_state_map_def by (auto simp: bnd_Inr_iff)
  have "\<forall>(k, f) \<in> set items. valid_file_state f"
    using items(2)
  proof (induction raws arbitrary: items)
    case (Cons raw raws)
    then show ?case using file_state_accepted_valid by (fastforce simp: bnd_Inr_iff)
  qed simp
  moreover have "(p, c) \<in> set items"
    using assms(2) map_of_SomeD [of "rev items" p c] by (simp add: items(1) map_of_dict_display)
  ultimately show ?thesis by blast
qed

lemma add_file_record_plan:
  assumes "add_file_record i cs records raw = Inr records'" and "\<And>p c. map_of cs p = Some c \<Longrightarrow> valid_file_state c"
    and "\<forall>r \<in> set records. plan_record i r"
  shows "\<forall>r \<in> set records'. plan_record i r"
proof -
  obtain d where d: "as_mapping recovery_required raw = Inr d" using assms(1) by (auto simp: add_file_record_def bnd_Inr_iff)
  show ?thesis
  proof (cases "get d ''kind'' = PStr ''file'' \<and> map_of cs (py_str (get d ''path'')) \<noteq> None")
    case False
    then have "records' = records"
      using assms(1) d by (cases "map_of cs (py_str (get d ''path''))") (auto simp: add_file_record_def Let_def split: if_splits)
    then show ?thesis using assms(3) by simp
  next
    case True
    then obtain c where c: "map_of cs (py_str (get d ''path'')) = Some c" and k: "get d ''kind'' = PStr ''file''" by blast
    let ?content = "get d ''candidate_content_utf8''"
    have "bnd (as_mapping recovery_required (get d ''ownership_decision'')) (\<lambda>decision.
            bnd (bnd (as_mapping recovery_required (get decision ''observed_file_state'')) file_state_from_document) (\<lambda>original.
            if ?content \<noteq> PNone \<and> \<not> is_pystr ?content then Inl recovery_required
            else Inr (records @ [file_record (py_str (get d ''path'')) original c ?content
              (if \<not> fs_exists original then PNone else PStr (backup_path i (length records)))]))) = Inr records'"
      using assms(1) k c unfolding add_file_record_def d by (simp add: Let_def)
    then obtain x e where e: "file_state_from_document x = Inr e"
        "records' = records @ [file_record (py_str (get d ''path'')) e c ?content
          (if \<not> fs_exists e then PNone else PStr (backup_path i (length records)))]"
      by (simp only: bnd_Inr_iff if_Inl_Inr_iff sum.inject) blast
    have "plan_record i (file_record (py_str (get d ''path'')) e c ?content
          (if \<not> fs_exists e then PNone else PStr (backup_path i (length records))))"
      unfolding plan_record_def using file_state_accepted_valid [OF e(1)] assms(2) [OF c] by force
    then show ?thesis using assms(3) by (simp add: e(2))
  qed
qed

lemma mode_0600: "canonical_mode ''0600''"
  by (simp add: canonical_mode_def normalize_mode_def octal_mode_def remove_prefix_def starts_with_def is_octal_def
      parse_base_def is_digit_def ord_def format_mode_def zero_pad_def show_base.simps [of 8 384]
      show_base.simps [of 8 48] show_base.simps [of 8 6] hex_digit_def char_of_def bit_0 bit_Suc)

lemma init_record_plan:
  assumes "init_file_record p document = Inr r" and "canonical_path p"
  shows "plan_record i r"
proof -
  have "valid_file_state (absent_state p)" "valid_file_state (regular_state p (sha256_hex payload) ''0600'')" for payload
    using assms(2) by (simp_all add: valid_file_state_def absent_state_def regular_state_def mode_0600 sha256_hex_is_sha256)
  then show ?thesis
    using assms(1) unfolding init_file_record_def
    by (auto simp: bnd_Inr_iff intro: plan_recordI split: option.splits)
qed

lemma file_records_plan:
  assumes "file_records envelope m layout = Inr records" and "lookup (se_plan_core envelope) ''transaction_id'' = Inr t"
  shows "\<forall>r \<in> set records. plan_record (py_str t) r"
proof -
  obtain cs ps base where cs: "candidate_state_map (se_plan_core envelope) = Inr cs"
    and base: "foldr_res (add_file_record (py_str t) cs) [] ps = Inr base"
    and rest: "(if se_operation envelope \<noteq> ''init'' then Inr base
     else bnd (lookup (se_plan_core envelope) ''candidate_workspace_instance_id'') (\<lambda>workspace_id.
       bnd (lookup (se_plan_core envelope) ''empty_replay_ledger_candidate_digest'') (\<lambda>replay_digest.
       bnd (build_first_init_local_state m layout (py_str workspace_id) (py_str replay_digest))
         (\<lambda>(workspace, replay).
       bnd (init_file_record ''.agent-workflow/local/workspace.json'' workspace) (\<lambda>r1.
       bnd (init_file_record ''.agent-workflow/local/approval-replay.json'' replay) (\<lambda>r2.
       Inr (base @ [r1, r2]))))))) = Inr records"
    using assms(1) unfolding file_records_def Let_def assms(2) bnd.simps
    by (subst (asm) bnd_Inr_iff, elim exE conjE, subst (asm) bnd_Inr_iff, elim exE conjE, subst (asm) bnd_Inr_iff,
        elim exE conjE) (rule that)
  have b: "\<forall>r \<in> set base. plan_record (py_str t) r"
    by (rule foldr_res_inv [OF base, where I = "\<lambda>rs. \<forall>r \<in> set rs. plan_record (py_str t) r"])
      (simp, rule add_file_record_plan, assumption, rule candidate_map_valid [OF cs], assumption+)
  show ?thesis
  proof (cases "se_operation envelope = ''init''")
    case False
    with rest b show ?thesis by simp
  next
    case True
    then obtain w r1 r2 rep where r: "init_file_record ''.agent-workflow/local/workspace.json'' w = Inr r1"
        "init_file_record ''.agent-workflow/local/approval-replay.json'' rep = Inr r2" "records = base @ [r1, r2]"
      using rest by (auto simp: bnd_Inr_iff)
    have "canonical_path ''.agent-workflow/local/workspace.json''" "canonical_path ''.agent-workflow/local/approval-replay.json''"
      by (simp_all add: canonical_path_def windows_drive_def ord_def)
    then show ?thesis using b init_record_plan [OF r(1)] init_record_plan [OF r(2)] by (simp add: r(3))
  qed
qed

text \<open>Backups lie in the directory of the transactions.\<close>

lemma path_of_agent: "path_of (''.agent-workflow/transactions/'' @ x) = [''.agent-workflow'', ''transactions''] @ path_of x"
proof -
  have e: "''.agent-workflow/transactions/'' @ x = ''.agent-workflow'' @ chr_slash # (''transactions'' @ chr_slash # x)" by simp
  show ?thesis unfolding e path_of_append by (simp add: path_of_def)
qed

lemma below_ancestors: "set (ancestors ([''.agent-workflow'', ''transactions''] @ q)) \<subseteq> journal_area"
proof
  fix x assume "x \<in> set (ancestors ([''.agent-workflow'', ''transactions''] @ q))"
  then have "x \<in> (\<lambda>n. take n ([''.agent-workflow'', ''transactions''] @ q)) ` {1..<length ([''.agent-workflow'', ''transactions''] @ q)}"
    by (simp only: ancestors_def set_map set_upt)
  then obtain n where n: "x = take n ([''.agent-workflow'', ''transactions''] @ q)"
      "n \<in> {1..<length ([''.agent-workflow'', ''transactions''] @ q)}"
    by (rule imageE)
  show "x \<in> journal_area"
  proof (cases "n = 1")
    case False
    then obtain k where "n = Suc (Suc k)" using n(2) by (cases n; cases "n - 1") auto
    then show ?thesis by (simp add: n(1) journal_area_def below_def)
  qed (simp add: n(1) journal_area_def)
qed

lemma plan_backup_area:
  assumes "\<forall>r \<in> set records. plan_record i r"
  shows "backup_area records \<subseteq> insert [] journal_area"
proof -
  have "insert b (set (ancestors b)) \<subseteq> journal_area" if b: "b \<in> set (backup_targets records)" for b
  proof -
    have mem: "s \<in> set (strs_of vs) \<Longrightarrow> PStr s \<in> set vs" for s vs
      by (induction vs rule: strs_of.induct) auto
    obtain s where s: "b = path_of s" "s \<in> set (strs_of (map (\<lambda>r. get r ''backup_path'') records))"
      using b by (auto simp: backup_targets_def)
    from mem [OF s(2)] obtain r where "r \<in> set records" "get r ''backup_path'' = PStr s" by auto
    then obtain n where "s = backup_path i n" using assms plan_record_backup by blast
    then have p: "b = [''.agent-workflow'', ''transactions''] @ path_of (i @ ''.data/backups/'' @ zero_pad 4 (show_base 10 n) @ ''.bin'')"
      by (simp only: s backup_path_def path_of_agent)
    have "b \<in> journal_area" by (simp only: p journal_area_def) (simp add: below_def)
    then show ?thesis using below_ancestors by (simp add: p)
  qed
  then show ?thesis unfolding backup_area_def by blast
qed

section \<open>The footprint of apply\<close>

text \<open>What a plan writes: its records, read off the plan before anything happens.\<close>

definition planned_records :: "saved_plan_envelope \<Rightarrow> approval option \<Rightarrow> dict list" where
  "planned_records plan approval = (case approval of
     None \<Rightarrow> []
   | Some ap \<Rightarrow> (case (render_candidate_manifest plan, ap_target_layout ap) of
       (Inr m, Some layout) \<Rightarrow> (case file_records plan m layout of Inr rs \<Rightarrow> rs | Inl _ \<Rightarrow> [])
     | _ \<Rightarrow> []))"

definition planned_id :: "saved_plan_envelope \<Rightarrow> string" where
  "planned_id plan = (case lookup (se_plan_core plan) ''transaction_id'' of Inr t \<Rightarrow> py_str t | Inl _ \<Rightarrow> [])"

definition manifest_area :: "path set" where
  "manifest_area = insert manifest_path (beside manifest_path cas_prefix)"

text \<open>The files of the controller itself, and the probe of this transaction.\<close>

definition control_area :: "string \<Rightarrow> path set" where
  "control_area i = insert [] (journal_area \<union> marker_area \<union> lock_area \<union> manifest_area \<union> probe_area i)"

text \<open>The files of the records, the temporary files beside them and the directories above them.\<close>

definition record_footprint :: "dict list \<Rightarrow> path set" where
  "record_footprint records = record_area records \<union> (\<Union>r \<in> set records. set (ancestors (target_of (candidate_of r))))"

lemma modifies_candidate_manifest: "manifest_area \<subseteq> P \<Longrightarrow> modifies P (apply_candidate_manifest rnd envelope)"
proof -
  assume P: "manifest_area \<subseteq> P"
  have t: "target_of (regular_state manifest_text h m) = manifest_path" for h m
    by (simp add: regular_state_def manifest_text_def manifest_path_def path_of_def)
  have sub: "manifest_path \<in> P" "beside manifest_path cas_prefix \<subseteq> P" using P by (auto simp: manifest_area_def)
  have "modifies P (compare_and_swap rnd e (regular_state manifest_text h m) k)" for e h m k
    by (rule modifies_compare_and_swap) (simp_all add: t sub)
  then show ?thesis
    unfolding apply_candidate_manifest_def by (intro modifies_ibnd modifies_pure)
qed

text \<open>A transaction in its parts: what is read, the files, the commit.\<close>

definition commit_part :: "apply_env \<Rightarrow> (fs \<Rightarrow> task_snapshot_and_findings res) \<Rightarrow> saved_plan_envelope \<Rightarrow> dict \<Rightarrow>
    dict \<times> dict list \<times> dict \<Rightarrow> unit io" where
  "commit_part env scan plan expected = (\<lambda>(journal, records, marker).
     ibnd (iread scan) (\<lambda>last_scan.
     ibnd (ilift (require_same_task_state last_scan expected)) (\<lambda>_.
     ibnd (apply_candidate_manifest (ae_rnd env) plan) (\<lambda>_.
     finish_transaction env journal records marker))))"

lemma run_transaction_parts: "run_transaction env scan plan m layout expected =
     ibnd (iread scan) (\<lambda>initial. ibnd (ilift (require_same_task_state initial expected)) (\<lambda>_.
     ibnd (ilift (file_records plan m layout)) (\<lambda>records. ibnd (iread (\<lambda>s. created_directories s records)) (\<lambda>directories.
     ibnd (ilift (build_lifecycle_journal plan m records directories)) (\<lambda>journal.
     ibnd (stage_files env plan records directories journal) (commit_part env scan plan expected))))))"
  by (simp only: run_transaction_def commit_part_def)

lemma planned_facts:
  assumes "file_records plan m layout = Inr records"
  obtains t where "lookup (se_plan_core plan) ''transaction_id'' = Inr t" and "planned_id plan = py_str t"
    and "\<forall>r \<in> set records. plan_record (py_str t) r"
proof -
  have "\<exists>t. lookup (se_plan_core plan) ''transaction_id'' = Inr t"
    using assms by (cases "candidate_state_map (se_plan_core plan)"; cases "lookup (se_plan_core plan) ''transaction_id''")
      (auto simp: file_records_def Let_def)
  then obtain t where t: "lookup (se_plan_core plan) ''transaction_id'' = Inr t" by blast
  show thesis by (rule that [OF t _ file_records_plan [OF assms t]]) (simp add: planned_id_def t)
qed

lemma control_area_parts:
  "journal_area \<subseteq> control_area i" "marker_area \<subseteq> control_area i" "lock_area \<subseteq> control_area i"
  "manifest_area \<subseteq> control_area i" "probe_area i \<subseteq> control_area i"
  by (auto simp: control_area_def)

lemma planned_areas:
  assumes "file_records plan m layout = Inr records"
  shows "backup_area records \<subseteq> insert [] journal_area" "backup_area records \<subseteq> control_area (planned_id plan)"
    and "created_directories s records = Inr ds \<Longrightarrow> path_of ` set ds \<subseteq> record_footprint records"
proof -
  obtain t where t: "\<forall>r \<in> set records. plan_record (py_str t) r" by (rule planned_facts [OF assms])
  show "backup_area records \<subseteq> insert [] journal_area" by (rule plan_backup_area [OF t])
  then show "backup_area records \<subseteq> control_area (planned_id plan)" by (auto simp: control_area_def)
  assume "created_directories s records = Inr ds"
  then have "path_of ` set ds \<subseteq> (\<Union>r \<in> set records. set (ancestors (target_of (candidate_of r))))"
    by (rule created_directories_below) (use t plan_record_states in blast)
  then show "path_of ` set ds \<subseteq> record_footprint records" unfolding record_footprint_def by (intro le_supI2)
qed

text \<open>Up to the commit the Manifest lies outside of what may change.\<close>

definition stage_area :: "string \<Rightarrow> dict list \<Rightarrow> path set" where
  "stage_area i records = insert [] (journal_area \<union> marker_area \<union> probe_area i) \<union> record_footprint records"

lemma modifies_planned_stage:
  assumes "file_records plan m layout = Inr records" and "created_directories s records = Inr ds"
  shows "modifies (stage_area (planned_id plan) records) (stage_files env plan records ds j)"
proof -
  obtain t where t: "lookup (se_plan_core plan) ''transaction_id'' = Inr t" "planned_id plan = py_str t"
    by (rule planned_facts [OF assms(1)])
  have "record_area records \<subseteq> record_footprint records" by (simp add: record_footprint_def)
  then have "transaction_area (py_str t) records ds \<subseteq> stage_area (planned_id plan) records"
    using planned_areas(1,3) [OF assms(1)] assms(2) unfolding transaction_area_def stage_area_def t(2) by blast
  then show ?thesis by (rule modifies_mono [OF modifies_stage [OF t(1)]])
qed

lemma modifies_commit_part:
  assumes "file_records plan m layout = Inr records" and "list_all2 same_record records rs"
  shows "modifies (control_area (planned_id plan)) (commit_part env scan plan expected (j, rs, mk))"
proof -
  have "backup_area rs \<subseteq> control_area (planned_id plan)"
    using planned_areas(2) [OF assms(1)] same_records_areas(2) [OF assms(2)] by simp
  then show ?thesis
    unfolding commit_part_def prod.case
    by (intro modifies_ibnd modifies_pure modifies_candidate_manifest modifies_finish control_area_parts)
qed

lemma modifies_run_transaction:
  assumes "file_records plan m layout = Inr records"
  shows "modifies (control_area (planned_id plan) \<union> record_footprint records)
    (run_transaction env scan plan m layout expected)"
  unfolding run_transaction_parts
proof (intro modifies_ibnd_outcome [OF modifies_pure(5)] modifies_ibnd_outcome [OF modifies_pure(3)])
  let ?P = "control_area (planned_id plan) \<union> record_footprint records"
  fix s0 i s1 u s2 rs s3 ds s4 j
  assume "outcome (ilift (file_records plan m layout)) s2 = Inr rs"
    and "outcome (iread (\<lambda>s. created_directories s rs)) s3 = Inr ds"
  then have rs: "rs = records" and ds: "created_directories s3 records = Inr ds" using assms by simp_all
  have "stage_area (planned_id plan) records \<subseteq> ?P" by (auto simp: stage_area_def control_area_def)
  note stage = modifies_mono [OF modifies_planned_stage [OF assms ds] this]
  show "modifies ?P (ibnd (stage_files env plan rs ds j) (commit_part env scan plan expected))"
    unfolding rs
  proof (rule modifies_ibnd_outcome [OF stage])
    fix s x assume x: "outcome (stage_files env plan records ds j) s = Inr x"
    obtain j' rs' mk where x': "x = (j', rs', mk)" by (cases x)
    have "list_all2 same_record records rs'"
      using stage_files_records [of records env plan ds j] x unfolding yields_def x' by blast
    from modifies_commit_part [OF assms this] show "modifies ?P (commit_part env scan plan expected x)"
      unfolding x' by (rule modifies_mono) simp
  qed
qed

lemma modifies_run_failed:
  "file_records plan m layout = Inl e \<Longrightarrow> modifies P (run_transaction env scan plan m layout expected)"
  unfolding run_transaction_def
  by (intro modifies_ibnd [OF modifies_pure(5)] modifies_ibnd [OF modifies_pure(3)] modifies_ibnd_outcome [OF modifies_pure(3)]) simp

text \<open>
  C10: Applying a plan changes nothing but the files of its records, the temporary files beside them, the
  directories above them and the files of the controller, at no point and whatever happens.
\<close>

theorem apply_footprint:
  "modifies (control_area (planned_id plan) \<union> record_footprint (planned_records plan approval))
     (apply_plan env scanner plan approval)"
proof (cases approval)
  case None
  then show ?thesis by (simp add: apply_plan_def modifies_pure)
next
  case (Some ap)
  let ?P = "control_area (planned_id plan) \<union> record_footprint (planned_records plan approval)"
  have lock: "lock_area \<subseteq> ?P" by (auto simp: control_area_def)
  have run: "modifies ?P (run_transaction env scan plan m layout expected)"
    if m: "render_candidate_manifest plan = Inr m" and l: "ap_target_layout ap = Some layout" for scan m layout expected
  proof (cases "file_records plan m layout")
    case (Inl e)
    then show ?thesis by (rule modifies_run_failed)
  next
    case (Inr rs)
    then have "planned_records plan approval = rs" by (simp add: planned_records_def Some m l)
    then show ?thesis using modifies_run_transaction [OF Inr] by simp
  qed
  have rest: "modifies ?P (case (scanner, ap_project_root ap, ap_source_layout ap, ap_target_layout ap, ap_source_schemas ap,
             ap_target_schemas ap) of
             (Some sc, PStr _, Some source_layout, Some target_layout, Some source_schemas, Some target_schemas) \<Rightarrow>
               ibnd (ilift (expected_task_state plan)) (\<lambda>expected.
               ibnd (apply_locks env (se_operation plan) (ap_bootstrap_lock_root ap)) (\<lambda>_.
               ibnd (run_transaction env (sc source_layout target_layout source_schemas target_schemas)
                 plan m target_layout expected) (\<lambda>_.
               ibnd (ilift (lookup (se_plan_core plan) ''transaction_id'')) (\<lambda>transaction_id.
               iret (reconcile_result transaction_id True False)))))
           | _ \<Rightarrow> iraise recovery_required)"
    if m: "render_candidate_manifest plan = Inr m" for m
    by (auto split: option.split pyval.split intro!: modifies_ibnd modifies_pure modifies_locks(2) [OF lock] run [OF m])
  show ?thesis
    unfolding apply_plan_def Some option.case
    by (intro modifies_if modifies_pure modifies_ibnd_outcome [OF modifies_pure(3)] modifies_ibnd rest [unfolded Some]) simp
qed

section \<open>The Manifest is swapped last\<close>

text \<open>Before the commit: the Manifest is untouched.\<close>

definition manifest_was :: "node option \<Rightarrow> fs \<Rightarrow> bool" where
  "manifest_was n s = (node_at s manifest_path = n)"

lemma manifest_outside_control:
  "manifest_path \<notin> journal_area" "manifest_path \<notin> marker_area" "manifest_path \<notin> probe_area i" "manifest_path \<noteq> []"
proof -
  show "manifest_path \<notin> journal_area" by (simp add: manifest_path_def journal_area_def below_def)
  show "manifest_path \<notin> marker_area"
    by (auto simp: manifest_path_def marker_area_def maintenance_path_def beside_def)
  have hd: "path_of (''.agent-workflow-probe-'' @ i) \<noteq> [] \<and> hd (path_of (''.agent-workflow-probe-'' @ i)) \<noteq> ''.agent-workflow''"
  proof -
    obtain q qs where q: "split_on chr_slash i = q # qs" by (cases "split_on chr_slash i") auto
    then have "split_on chr_slash (''.agent-workflow-probe-'' @ i) = (''.agent-workflow-probe-'' @ q) # qs" by simp
    then show ?thesis by (simp add: path_of_def)
  qed
  then obtain x xs where x: "path_of (''.agent-workflow-probe-'' @ i) = x # xs" "x \<noteq> ''.agent-workflow''"
    by (cases "path_of (''.agent-workflow-probe-'' @ i)") auto
  then show "manifest_path \<notin> probe_area i" by (simp add: probe_area_def below_def manifest_path_def)
  show "manifest_path \<noteq> []" by (simp add: manifest_path_def)
qed

text \<open>The records lie outside of the files of the controller, and none is the Manifest or below it.\<close>

definition plan_clear :: "string \<Rightarrow> dict list \<Rightarrow> bool" where
  "plan_clear i records = (distinct (map (\<lambda>r. target_of (candidate_of r)) records) \<and>
     (\<forall>r \<in> set records. target_of (candidate_of r) \<notin> control_area i) \<and> manifest_path \<notin> record_footprint records)"

lemma plan_clearD:
  assumes "plan_clear i records"
  shows "distinct (map (\<lambda>r. target_of (candidate_of r)) records)"
    and "r \<in> set records \<Longrightarrow> target_of (candidate_of r) \<notin> control_area i"
    and "manifest_path \<notin> record_footprint records" and "manifest_path \<notin> stage_area i records"
  using assms manifest_outside_control by (auto simp: plan_clear_def stage_area_def)

text \<open>Once in place, the files stay through whatever only touches the files of the controller.\<close>

lemma applied_stays:
  assumes "plan_clear i records" and "modifies (control_area i) m"
  shows "always (all_applied records) m (all_applied records)"
  by (rule always_frame [OF assms(2)]) (use all_applied_frame [of records] plan_clearD(2) [OF assms(1)] in blast)

lemma manifest_stays:
  assumes "modifies A m" and "manifest_path \<notin> A"
  shows "always (manifest_was n) m (manifest_was n)" and "hoare (manifest_was n) m (\<lambda>_. manifest_was n)"
  using modifies_final [OF assms(1)] assms(2)
  by (auto intro!: always_frame [OF assms(1)] simp: manifest_was_def hoare_def)

lemma commit_part_applied:
  assumes "file_records plan m layout = Inr records" and "plan_clear (planned_id plan) records"
  shows "always (\<lambda>s. list_all2 same_record records rs \<and> all_applied records s) (commit_part env scan plan expected (j, rs, mk))
    (all_applied records)"
  unfolding always_const using applied_stays [OF assms(2) modifies_commit_part [OF assms(1)]] by blast

text \<open>
  C7: The Manifest is swapped last: at every point of a transaction at which it is not the old one any
  more, every file of the plan is in its candidate state.
\<close>

theorem commit_is_last:
  assumes "file_records plan m layout = Inr records" and "plan_clear (planned_id plan) records"
    and "u \<in> set (states (run_transaction env scan plan m layout expected) s)"
  shows "node_at u manifest_path = node_at s manifest_path \<or>
    list_all (\<lambda>r. describes (candidate_of r) (node_at u (path_of (fs_path (candidate_of r))))) records"
proof -
  let ?n = "node_at s manifest_path"
  let ?I = "\<lambda>u. manifest_was ?n u \<or> all_applied records u"
  have staged: "hoare (manifest_was ?n) (stage_files env plan records ds j)
      (\<lambda>(j, rs, m) s. list_all2 same_record records rs \<and> all_applied records s)" for ds j
    by (rule hoare_weaken [OF stage_files_applied])
      (use plan_clearD(1,2) [OF assms(2)] control_area_parts(1) in auto)
  have rest: "always (manifest_was ?n) (ibnd (stage_files env plan records ds j) (commit_part env scan plan expected)) ?I"
    if "created_directories v records = Inr ds" for v ds j
  proof (rule always_ibnd [OF _ staged])
    show "always (manifest_was ?n) (stage_files env plan records ds j) ?I"
      by (rule always_mono [OF manifest_stays(1) [OF modifies_planned_stage [OF assms(1) that] plan_clearD(4) [OF assms(2)]]]) blast
    fix x :: "dict \<times> dict list \<times> dict"
    show "always ((\<lambda>(j, rs, m) s. list_all2 same_record records rs \<and> all_applied records s) x) (commit_part env scan plan expected x) ?I"
      by (cases x) (simp only: prod.case, rule always_mono [OF commit_part_applied [OF assms(1,2)]], blast)
  qed
  have "always (manifest_was ?n) (run_transaction env scan plan m layout expected) ?I"
    unfolding run_transaction_parts assms(1)
    by (rule always_iread, blast, rule always_ilift, blast, rule always_ilift, blast, rule always_iread, blast,
        rule always_ilift, blast) (use rest in blast)
  then have "?I u" using assms(3) unfolding always_def manifest_was_def by blast
  then show ?thesis by (simp only: manifest_was_def all_applied_def list_all_iff)
qed

section \<open>Witness\<close>

definition tiny_core :: dict where
  "tiny_core = [(''transaction_id'', PStr ''t''), (''candidate_file_states'', PList [PDict (file_state_document sample_new)]),
     (''preconditions'', PList [PDict
       [(''kind'', PStr ''file''), (''path'', PStr ''a''),
        (''ownership_decision'', PDict [(''observed_file_state'', PDict (file_state_document sample_old))]),
        (''candidate_content_utf8'', PStr [CHR 0x02])]])]"

definition tiny_plan :: saved_plan_envelope where
  "tiny_plan = \<lparr>se_operation = ''sync'', se_plan_core = tiny_core, se_plan_core_digest = [], se_immutable_header = [],
     se_journal_binding_digest = [], se_candidate_manifest_digest = [], se_candidate_manifest_file_state = [], se_plan_digest = []\<rparr>"

definition tiny_layout :: task_layout where
  "tiny_layout = \<lparr>tl_adapter_id = [], tl_adapter_version = [], tl_runtime_namespace = [], tl_active_root = [],
     tl_archive_root = [], tl_metadata_contracts = [], tl_task_transaction_root = [], tl_normalized = [], tl_layout_digest = []\<rparr>"

definition tiny_record :: dict where
  "tiny_record = file_record ''a'' sample_old sample_new (PStr [CHR 0x02]) (PStr (backup_path ''t'' 0))"

definition tiny_env :: apply_env where
  "tiny_env = \<lparr>ae_rnd = fresh_rnd, ae_probe = \<lparr>pe_filesystem_type = ''ext4'', pe_advisory_lock = True, pe_decomposed_name = ''cafe-probe''\<rparr>,
     ae_bootstrap_lock = (\<lambda>_. Inr ())\<rparr>"

lemma tiny_records: "file_records tiny_plan [] tiny_layout = Inr [tiny_record]"
proof -
  have gets: "lookup tiny_core ''candidate_file_states'' = Inr (PList [PDict (file_state_document sample_new)])"
      "lookup tiny_core ''transaction_id'' = Inr (PStr ''t'')"
      "lookup tiny_core ''preconditions'' = Inr (PList [PDict
       [(''kind'', PStr ''file''), (''path'', PStr ''a''),
        (''ownership_decision'', PDict [(''observed_file_state'', PDict (file_state_document sample_old))]),
        (''candidate_content_utf8'', PStr [CHR 0x02])]])"
    by (simp_all add: tiny_core_def lookup_def)
  have path: "lookup (file_state_document sample_new) ''path'' = Inr (PStr ''a'')"
    by (simp add: lookup_def file_state_document_def sample_fields)
  have states: "file_state_from_document (file_state_document sample_new) = Inr sample_new"
      "file_state_from_document (file_state_document sample_old) = Inr sample_old"
    using file_state_reads_back sample_states_valid by simp_all
  have "candidate_state_map tiny_core = Inr [(''a'', sample_new)]"
    by (simp add: candidate_state_map_def gets as_array_def as_mapping_def path states dict_display_def)
  then show ?thesis
    by (simp add: file_records_def tiny_plan_def gets as_array_def add_file_record_def as_mapping_def get_def states sample_fields
        tiny_record_def)
qed

lemma tiny_clear: "plan_clear (planned_id tiny_plan) [tiny_record]"
proof -
  have c: "candidate_of tiny_record = sample_new"
    using record_states_Inr [OF file_record_states [OF sample_states_valid]] by (simp add: tiny_record_def)
  have id: "planned_id tiny_plan = ''t''" by (simp add: planned_id_def tiny_plan_def tiny_core_def lookup_def)
  have probe: "path_of ''.agent-workflow-probe-t'' = [''.agent-workflow-probe-t'']" by (simp add: path_of_def)
  have out: "[''a''] \<notin> control_area ''t''"
    by (auto simp: control_area_def journal_area_def marker_area_def lock_area_def manifest_area_def probe_area_def below_def
        control_dir_def maintenance_path_def manifest_path_def beside_def probe)
  have foot: "manifest_path \<notin> record_footprint [tiny_record]"
    by (auto simp: record_footprint_def record_area_def c sample_fields beside_def ancestors_def manifest_path_def)
  show ?thesis using out foot by (simp add: plan_clear_def c sample_fields id)
qed

theorem commit_is_last_witness:
  "node_at (final (run_transaction tiny_env (\<lambda>_. Inl quiescence_changed) tiny_plan [] tiny_layout []) sample_fs) manifest_path
     = node_at sample_fs manifest_path \<or>
   describes sample_new (node_at (final (run_transaction tiny_env (\<lambda>_. Inl quiescence_changed) tiny_plan [] tiny_layout []) sample_fs) [''a''])"
proof -
  have c: "candidate_of tiny_record = sample_new"
    using record_states_Inr [OF file_record_states [OF sample_states_valid]] by (simp add: tiny_record_def)
  from commit_is_last [OF tiny_records tiny_clear final_in_states, of tiny_env "\<lambda>_. Inl quiescence_changed" "[]" sample_fs]
  show ?thesis by (simp add: c sample_fields)
qed

end
