(* ===== verification/Recover_Safety.thy ===== *)
theory Recover_Safety
  imports Apply_Safety
begin

text \<open>
  What a recovery that returns has done: a rollback leaves the files, the created directories, the
  maintenance marker and the Manifest as before the transaction; a resume leaves the files and the
  Manifest in their candidate states; after the commit nothing is rolled back.
\<close>

section \<open>What recovery changes\<close>

definition restore_area :: "dict list \<Rightarrow> path set" where
  "restore_area records = (\<Union>r \<in> set records. insert (target_of (original_of r)) (beside (target_of (original_of r)) cas_prefix))"

lemma modifies_guarded_swap:
  assumes "target_of goal \<in> P" and "beside (target_of goal) cas_prefix \<subseteq> P"
  shows "modifies P (guarded_swap rnd x goal other k)"
  unfolding guarded_swap_def by (intro modifies_intros assms)

lemma modifies_cong: "(\<And>s. states m s = states m' s) \<Longrightarrow> modifies P m = modifies P m'"
  by (simp add: modifies_def)

lemma modifies_rounds:
  assumes "record_states r = Inr (e, c)"
  shows "target_of e \<in> P \<Longrightarrow> beside (target_of e) cas_prefix \<subseteq> P \<Longrightarrow> modifies P (rollback_file rnd r)"
    and "target_of c \<in> P \<Longrightarrow> beside (target_of c) cas_prefix \<subseteq> P \<Longrightarrow> modifies P (resume_file rnd r)"
proof -
  have st: "states (rollback_file rnd r) s = states (ibnd (guarded_swap rnd rollback_conflict e c (backup_content r e s))
      (\<lambda>_. iret (set_applied False r))) s" for s
    unfolding states_def file_rounds(1) [OF assms] ..
  have st': "states (resume_file rnd r) s = states (ibnd (guarded_swap rnd cas_mismatch c e (candidate_content r))
      (\<lambda>_. iret (set_applied True r))) s" for s
    unfolding states_def file_rounds(2) [OF assms] ..
  show "modifies P (rollback_file rnd r)" if "target_of e \<in> P" "beside (target_of e) cas_prefix \<subseteq> P"
  proof (rule modifiesI)
    fix s u p assume u: "u \<in> set (states (rollback_file rnd r) s)" and p: "p \<notin> P"
    have "modifies P (ibnd (guarded_swap rnd rollback_conflict e c (backup_content r e s)) (\<lambda>_. iret (set_applied False r)))"
      by (intro modifies_ibnd modifies_guarded_swap modifies_pure that)
    from modifiesD [OF this _ p] u show "node_at u p = node_at s p" unfolding st .
  qed
  show "modifies P (resume_file rnd r)" if "target_of c \<in> P" "beside (target_of c) cas_prefix \<subseteq> P"
    unfolding modifies_cong [of "resume_file rnd r", OF st']
    by (intro modifies_ibnd modifies_guarded_swap modifies_pure that)
qed

lemma modifies_unreadable:
  "record_states r = Inl x \<Longrightarrow> modifies P (rollback_file rnd r)" "record_states r = Inl x \<Longrightarrow> modifies P (resume_file rnd r)"
  by (simp_all add: modifies_def states_def rounds_unreadable)

lemma modifies_rollback_files:
  assumes "restore_area records \<subseteq> P"
  shows "modifies P (rollback_files rnd records)"
proof -
  have "modifies P (rollback_file rnd r)" if r: "r \<in> set records" for r
  proof (cases "record_states r")
    case (Inr p)
    have "insert (target_of (original_of r)) (beside (target_of (original_of r)) cas_prefix) \<subseteq> P"
      using assms r unfolding restore_area_def by blast
    then show ?thesis
      using Inr by (intro modifies_rounds(1) [of r "fst p" "snd p"]) (auto simp: original_of_def states_of_def)
  qed (rule modifies_unreadable)
  then show ?thesis unfolding rollback_files_def by (intro modifies_intros) simp
qed

lemma modifies_resume_files:
  assumes "record_area records \<subseteq> P"
  shows "modifies P (resume_files rnd records)"
proof -
  have "modifies P (resume_file rnd r)" if r: "r \<in> set records" for r
  proof (cases "record_states r")
    case (Inr p)
    have "insert (target_of (candidate_of r)) (beside (target_of (candidate_of r)) cas_prefix) \<subseteq> P"
      using assms r unfolding record_area_def by blast
    then show ?thesis
      using Inr by (intro modifies_rounds(2) [of r "fst p" "snd p"]) (auto simp: candidate_of_def states_of_def)
  qed (rule modifies_unreadable)
  then show ?thesis unfolding resume_files_def by (intro modifies_intros)
qed

lemma rounds_same: "yields (same_record r) (rollback_file rnd r)" "yields (same_record r) (resume_file rnd r)"
proof -
  have s: "same_record r (set_applied b r)" for b unfolding set_applied_def by (rule same_record_update) simp
  show "yields (same_record r) (rollback_file rnd r)"
    unfolding rollback_file_def case_prod_beta
    by (intro yields_ibnd yields_if yields_iret s) (simp add: yields_def)
  show "yields (same_record r) (resume_file rnd r)"
    unfolding resume_file_def case_prod_beta
    by (intro yields_ibnd yields_if yields_iret s) (simp add: yields_def)
qed

lemma deepest_first_set: "set (deepest_first ds) = set ds"
  by (simp add: deepest_first_def)

lemma modifies_created_directories:
  assumes "path_of ` py_str ` set directories \<subseteq> P"
  shows "modifies P (cleanup_created_directories directories)"
  unfolding cleanup_created_directories_def remove_created_directory_def Let_def
  using assms by (intro modifies_intros) (auto simp: deepest_first_set)

lemma modifies_remove_marker: "marker_area \<subseteq> P \<Longrightarrow> modifies P (remove_marker_if_present marker)"
  unfolding remove_marker_if_present_def by (intro modifies_intros)

section \<open>Rolling back\<close>

definition created_paths :: "dict \<Rightarrow> path list" where
  "created_paths journal = (case lookup journal ''created_directories'' of
     Inr (PList ds) \<Rightarrow> map path_of (map py_str ds) | _ \<Rightarrow> [])"

definition all_original :: "dict list \<Rightarrow> fs \<Rightarrow> bool" where
  "all_original records s = (\<forall>r \<in> set records. describes (original_of r) (node_at s (target_of (original_of r))))"

definition all_absent :: "path list \<Rightarrow> fs \<Rightarrow> bool" where
  "all_absent ps s = list_all (\<lambda>p. \<not> path_exists s p) ps"

definition restored :: "dict \<Rightarrow> dict list \<Rightarrow> fs \<Rightarrow> bool" where
  "restored journal records s = (all_original records s \<and> all_absent (created_paths journal) s)"

text \<open>The files and directories of the transaction lie outside of its journal, its marker and its backups.\<close>

definition evidence_area :: "dict list \<Rightarrow> path set" where
  "evidence_area records = journal_area \<union> marker_area \<union> backup_area records"

definition rollback_clear :: "dict \<Rightarrow> dict list \<Rightarrow> bool" where
  "rollback_clear journal records = (distinct (map (\<lambda>r. target_of (original_of r)) records) \<and>
     set (created_paths journal) \<inter> evidence_area records = {} \<and>
     list_all (\<lambda>r. target_of (original_of r) \<notin> evidence_area records \<and>
       target_of (original_of r) \<notin> set (created_paths journal)) records)"

lemma same_exceptI: "(\<And>p. p \<notin> A \<Longrightarrow> node_at u p = node_at s p) \<Longrightarrow> same_except A s u"
  by (simp add: same_except_def)

lemma all_original_frame:
  assumes "all_original records s" and "\<And>p. p \<notin> A \<Longrightarrow> node_at u p = node_at s p"
    and "\<And>r. r \<in> set records \<Longrightarrow> target_of (original_of r) \<notin> A"
  shows "all_original records u"
  using assms unfolding all_original_def by simp

lemma all_absent_frame:
  assumes "all_absent ps s" and "\<And>p. p \<notin> A \<Longrightarrow> node_at u p = node_at s p" and "set ps \<inter> A = {}"
  shows "all_absent ps u"
  using assms unfolding all_absent_def list_all_iff path_exists_def by (metis disjoint_iff)

lemma same_records_original:
  assumes "list_all2 same_record rs rs'"
  shows "all_original rs' s = all_original rs s"
proof -
  have "all_original xs s = (\<forall>e \<in> set (map original_of xs). describes e (node_at s (target_of e)))" for xs
    by (simp add: all_original_def)
  then show ?thesis by (simp only: same_records_areas(3) [OF assms])
qed

lemma rollback_files_restores:
  assumes "distinct (map (\<lambda>r. target_of (original_of r)) records)"
  shows "hoare P (rollback_files rnd records) (\<lambda>rs s. list_all2 same_record records rs \<and> all_original records s)"
  unfolding hoare_def
proof (intro allI impI)
  fix s rs assume o: "outcome (rollback_files rnd records) s = Inr rs"
  then obtain rs' where rs': "outcome (imap (rollback_file rnd) (List.rev records)) s = Inr rs'" "rs = List.rev rs'"
    unfolding rollback_files_def outcome_ibnd_Inr by auto
  have f: "final (rollback_files rnd records) s = final (imap (rollback_file rnd) (List.rev records)) s"
    by (simp add: rollback_files_def final_ibnd rs'(1))
  have "list_all2 same_record (List.rev records) rs'"
    by (rule imap_relates [OF _ rs'(1)]) (use rounds_same(1) in \<open>auto simp: yields_def\<close>)
  then have "list_all2 same_record records rs" by (simp add: rs'(2) list_all2_rev1)
  moreover have "distinct (map (\<lambda>r. target_of (original_of r)) (List.rev records))"
    using assms by (simp add: rev_map [symmetric] del: distinct_map)
  from rollback_loop.loop_settles(1) [OF this rs'(1)]
  have "all_original records (final (rollback_files rnd records) s)" unfolding all_original_def f by simp
  ultimately show "list_all2 same_record records rs \<and> all_original records (final (rollback_files rnd records) s)" ..
qed

text \<open>What is gone stays gone, and a directory that was removed is gone.\<close>

lemma remove_created_directory_run:
  "final (remove_created_directory d) s = s \<or> final (remove_created_directory d) s = fmdrop (path_of d) s"
  "outcome (remove_created_directory d) s = Inr () \<Longrightarrow> path_of d \<noteq> [] \<Longrightarrow>
    \<not> path_exists (final (remove_created_directory d) s) (path_of d)"
  by (auto simp: remove_created_directory_def Let_def io_simps rmdir_fs_def path_exists_def is_symlink_def
      node_at_def split: option.splits node.splits if_splits)

lemma absent_after_drop: "\<not> path_exists s p \<Longrightarrow> \<not> path_exists (fmdrop q s) p"
  by (auto simp: path_exists_def node_at_def)

lemma directories_gone:
  assumes "outcome (imap remove_created_directory ds) s = Inr us" and "[] \<notin> path_of ` set ds"
  shows "(\<forall>p. \<not> path_exists s p \<longrightarrow> \<not> path_exists (final (imap remove_created_directory ds) s) p) \<and>
    (\<forall>d \<in> set ds. \<not> path_exists (final (imap remove_created_directory ds) s) (path_of d))"
  using assms
proof (induction ds arbitrary: s us)
  case (Cons d ds)
  from Cons.prems(1) obtain us' where o: "outcome (remove_created_directory d) s = Inr ()"
      "outcome (imap remove_created_directory ds) (final (remove_created_directory d) s) = Inr us'"
    by (auto simp: outcome_ibnd_Inr)
  have f: "final (imap remove_created_directory (d # ds)) s =
      final (imap remove_created_directory ds) (final (remove_created_directory d) s)"
    using o by (simp add: io_simps)
  have mono: "\<not> path_exists (final (remove_created_directory d) s) p" if "\<not> path_exists s p" for p
    using remove_created_directory_run(1) [of d s] absent_after_drop that by metis
  have "\<not> path_exists (final (remove_created_directory d) s) (path_of d)"
    by (rule remove_created_directory_run(2) [OF o(1)]) (use Cons.prems(2) in auto)
  with Cons.IH [OF o(2)] Cons.prems(2) mono show ?case unfolding f by simp
qed simp

lemma cleanup_directories_absent:
  assumes "[] \<notin> path_of ` py_str ` set ds"
  shows "hoare P (cleanup_created_directories ds) (\<lambda>_. all_absent (map path_of (map py_str ds)))"
  unfolding hoare_def
proof (intro allI impI)
  fix s u assume "outcome (cleanup_created_directories ds) s = Inr u"
  then obtain us where us: "outcome (imap remove_created_directory (deepest_first (map py_str ds))) s = Inr us"
    unfolding cleanup_created_directories_def iforeach_def outcome_ibnd_Inr by blast
  have f: "final (cleanup_created_directories ds) s = final (imap remove_created_directory (deepest_first (map py_str ds))) s"
    by (simp add: cleanup_created_directories_def iforeach_def final_ibnd us)
  show "all_absent (map path_of (map py_str ds)) (final (cleanup_created_directories ds) s)"
    using directories_gone [OF us] assms unfolding f all_absent_def list_all_iff by (auto simp: deepest_first_set)
qed

lemma restored_frame:
  assumes "restored journal records s" and "rollback_clear journal records"
    and "\<And>p. p \<notin> evidence_area records \<Longrightarrow> node_at u p = node_at s p"
  shows "restored journal records u"
proof -
  have "target_of (original_of r) \<notin> evidence_area records" if "r \<in> set records" for r
    using assms(2) that unfolding rollback_clear_def list_all_iff by blast
  then have "all_original records u"
    using all_original_frame [OF _ assms(3)] assms(1) unfolding restored_def by blast
  moreover have "all_absent (created_paths journal) u"
    by (rule all_absent_frame [OF _ assms(3)]) (use assms(1,2) in \<open>unfold restored_def rollback_clear_def, blast+\<close>)
  ultimately show ?thesis by (simp add: restored_def)
qed

text \<open>The parts of a rollback: the files, the created directories, the evidence.\<close>

definition forget_part :: "random_name \<Rightarrow> dict \<Rightarrow> dict list \<Rightarrow> unit io" where
  "forget_part rnd journal rs = ibnd (ilift (recovery_marker journal)) (\<lambda>marker.
     ibnd (remove_marker_if_present marker) (\<lambda>_.
     ibnd (cleanup_transaction_data rs) (\<lambda>_.
     ibnd (ilift (advance_journal journal ''complete'' (Some rs) None
        (Some [(''status'', PStr ''rolled-back'')]))) (\<lambda>journal.
     ibnd (write_journal rnd journal) (\<lambda>_. iret ())))))"

lemma rollback_transaction_parts: "rollback_transaction rnd journal records =
     ibnd (rollback_files rnd records) (\<lambda>rs.
     ibnd (ilift (bnd (lookup journal ''created_directories'') (as_array recovery_required))) (\<lambda>ds.
     ibnd (cleanup_created_directories ds) (\<lambda>_. forget_part rnd journal rs)))"
  by (simp only: rollback_transaction_def forget_part_def)

definition rollback_area :: "dict \<Rightarrow> dict list \<Rightarrow> path set" where
  "rollback_area journal records = restore_area records \<union> set (created_paths journal)"

definition forgotten_last :: "dict \<Rightarrow> dict list \<Rightarrow> fs \<Rightarrow> fs \<Rightarrow> bool" where
  "forgotten_last journal records s v = (same_except (rollback_area journal records) s v \<or> restored journal records v)"

lemma same_except_trans:
  assumes "same_except A s w" and "\<And>p. p \<notin> B \<Longrightarrow> node_at v p = node_at w p" and "B \<subseteq> A"
  shows "same_except A s v"
proof (rule same_exceptI)
  fix p assume p: "p \<notin> A"
  with assms(3) have "p \<notin> B" by blast
  then show "node_at v p = node_at s p" using assms(1,2) p by (simp add: same_except_def)
qed

lemma created_paths_read:
  assumes "bnd (lookup journal ''created_directories'') (as_array recovery_required) = Inr ds"
  shows "created_paths journal = map path_of (map py_str ds)"
proof -
  obtain v where v: "lookup journal ''created_directories'' = Inr v" "as_array recovery_required v = Inr ds"
    using assms by (cases "lookup journal ''created_directories''") simp_all
  then show ?thesis by (cases v) (simp_all add: created_paths_def as_array_def)
qed

lemma files_through:
  assumes "rollback_clear journal records"
  shows "through (same_except (rollback_area journal records) s) (rollback_files rnd records)
    (\<lambda>rs v. list_all2 same_record records rs \<and> all_original records v \<and> same_except (rollback_area journal records) s v)
    (forgotten_last journal records s)"
proof -
  note m = modifies_rollback_files [OF subset_refl, of records rnd]
  have sub: "restore_area records \<subseteq> rollback_area journal records" by (simp add: rollback_area_def)
  have t: "through (same_except (rollback_area journal records) s) (rollback_files rnd records)
      (\<lambda>_. same_except (rollback_area journal records) s) (forgotten_last journal records s)"
    by (rule through_frame [OF m]) (use same_except_trans [OF _ _ sub] in \<open>auto simp: forgotten_last_def\<close>)
  have "distinct (map (\<lambda>r. target_of (original_of r)) records)" using assms by (simp add: rollback_clear_def)
  from rollback_files_restores [OF this] t show ?thesis unfolding through_def hoare_def by blast
qed

lemma directories_through:
  assumes "rollback_clear journal records"
    and ds: "bnd (lookup journal ''created_directories'') (as_array recovery_required) = Inr ds"
  shows "through (\<lambda>v. list_all2 same_record records rs \<and> all_original records v \<and> same_except (rollback_area journal records) s v)
    (cleanup_created_directories ds)
    (\<lambda>_ v. list_all2 same_record records rs \<and> restored journal records v) (forgotten_last journal records s)"
proof -
  have m: "modifies (set (created_paths journal)) (cleanup_created_directories ds)"
    by (rule modifies_created_directories) (simp add: created_paths_read [OF ds] image_image)
  have sub: "set (created_paths journal) \<subseteq> rollback_area journal records" by (simp add: rollback_area_def)
  have clear: "target_of (original_of r) \<notin> set (created_paths journal)" if "r \<in> set records" for r
    using assms(1) that unfolding rollback_clear_def list_all_iff by blast
  have t: "through (\<lambda>v. list_all2 same_record records rs \<and> all_original records v \<and> same_except (rollback_area journal records) s v)
      (cleanup_created_directories ds) (\<lambda>_ v. list_all2 same_record records rs \<and> all_original records v)
      (forgotten_last journal records s)"
    by (rule through_frame [OF m])
      (use same_except_trans [OF _ _ sub] all_original_frame [of records] clear in \<open>unfold forgotten_last_def, blast\<close>)
  have "[] \<notin> set (created_paths journal)"
    using assms(1) by (auto simp: rollback_clear_def evidence_area_def backup_area_def)
  then have "hoare P (cleanup_created_directories ds) (\<lambda>_. all_absent (created_paths journal))" for P
    unfolding created_paths_read [OF ds] by (intro cleanup_directories_absent) (simp add: image_image)
  with t show ?thesis unfolding through_def hoare_def restored_def by blast
qed

lemma forget_through:
  assumes "rollback_clear journal records"
  shows "through (\<lambda>v. list_all2 same_record records rs \<and> restored journal records v) (forget_part rnd journal rs)
    (\<lambda>_. restored journal records) (forgotten_last journal records s)"
proof (cases "list_all2 same_record records rs")
  case True
  have sub: "journal_area \<subseteq> evidence_area records" "marker_area \<subseteq> evidence_area records" "backup_area rs \<subseteq> evidence_area records"
    using same_records_areas(2) [OF True] by (auto simp: evidence_area_def)
  have "modifies (evidence_area records) (forget_part rnd journal rs)"
    unfolding forget_part_def
    by (intro modifies_ibnd modifies_pure modifies_remove_marker sub modifies_cleanup modifies_write_journal)
  then show ?thesis
    by (rule through_frame) (use restored_frame [OF _ assms] in \<open>unfold forgotten_last_def, blast\<close>)
qed (simp add: through_def always_def hoare_def)

text \<open>
  C8: A rollback forgets last: at every point of it either only the files of the transaction, the
  temporary files beside them and the created directories have changed, so that the journal, the
  marker, the backups and the Manifest are still there for another recovery, or all files are in
  their original states and the created directories are gone; and the latter is so when it returns.
\<close>

theorem rollback_forgets_last:
  assumes "rollback_clear journal records" and "u \<in> set (states (rollback_transaction rnd journal records) s)"
  shows "(same_except (restore_area records \<union> set (created_paths journal)) s u \<or> restored journal records u) \<and>
    ((\<exists>e. outcome (rollback_transaction rnd journal records) s = Inl e) \<or>
      restored journal records (final (rollback_transaction rnd journal records) s))"
proof -
  have "through (same_except (rollback_area journal records) s) (rollback_transaction rnd journal records)
      (\<lambda>_. restored journal records) (forgotten_last journal records s)"
    unfolding rollback_transaction_parts
    by (rule through_ibnd [OF files_through [OF assms(1)]], rule through_ilift, simp add: forgotten_last_def,
        rule through_ibnd [OF directories_through [OF assms(1)]], assumption, rule forget_through [OF assms(1)])
  moreover have "same_except (rollback_area journal records) s s" by (simp add: same_except_def)
  ultimately have "forgotten_last journal records s u"
      "\<And>x. outcome (rollback_transaction rnd journal records) s = Inr x \<Longrightarrow>
        restored journal records (final (rollback_transaction rnd journal records) s)"
    using assms(2) unfolding through_def always_def hoare_def by blast+
  then show ?thesis
    unfolding forgotten_last_def rollback_area_def
    by (cases "outcome (rollback_transaction rnd journal records) s") blast+
qed

section \<open>Only an open transaction is rolled back\<close>

lemma manifest_committed_cong:
  "node_at u manifest_path = node_at s manifest_path \<Longrightarrow> manifest_committed journal u = manifest_committed journal s"
  by (simp add: manifest_committed_def is_symlink_def is_file_def read_json_def)

definition open_transaction :: "string \<Rightarrow> fs \<Rightarrow> bool" where
  "open_transaction t s = (case load_journal (transaction_path t) s of
     Inl e \<Rightarrow> False
   | Inr journal \<Rightarrow> manifest_committed journal s = Inr False \<and> py_str (get journal ''phase'') \<in> set PRECOMMIT_PHASES)"

lemma modifies_recovery_locks: "modifies lock_area (recovery_locks env journal context)"
  unfolding recovery_locks_def
  by (cases "context") (simp_all only: option.case, (intro modifies_ibnd modifies_if modifies_pure modifies_locks subset_refl)+)

lemma recovery_locks_only:
  "always (same_except lock_area s) (recovery_locks env journal context) (same_except lock_area s)"
  "hoare (same_except lock_area s) (recovery_locks env journal context) (\<lambda>_. same_except lock_area s)"
  using modifies_final [OF modifies_recovery_locks]
  by (auto intro!: always_frame [OF modifies_recovery_locks] simp: same_except_def hoare_def)

lemma locks_keep_manifest: "same_except lock_area s v \<Longrightarrow> manifest_committed journal v = manifest_committed journal s"
  by (intro manifest_committed_cong) (simp add: same_except_def lock_area_def manifest_path_def control_dir_def)

text \<open>What is done under the locks, when the transaction is not open.\<close>

lemma closed_refused:
  assumes "manifest_committed journal s \<noteq> Inr False \<or> py_str (get journal ''phase'') \<notin> set PRECOMMIT_PHASES"
  shows "always (same_except lock_area s) (ibnd (iread (manifest_committed journal)) (\<lambda>committed.
       if committed then iraise recovery_required
       else if py_str (get journal ''phase'') \<notin> set PRECOMMIT_PHASES then iraise recovery_required
       else m)) (same_except lock_area s)"
proof (rule always_iread, assumption)
  fix v c assume "same_except lock_area s v" "manifest_committed journal v = Inr c"
  then have "manifest_committed journal s = Inr c" using locks_keep_manifest by simp
  moreover have "always (same_except lock_area s) (iraise e) (same_except lock_area s)" for e :: exn
    by (simp add: always_def iraise_def states_def)
  ultimately show "always (same_except lock_area s) (if c then iraise recovery_required
       else if py_str (get journal ''phase'') \<notin> set PRECOMMIT_PHASES then iraise recovery_required else m) (same_except lock_area s)"
    using assms by (cases c) simp_all
qed

text \<open>
  C11: A rollback is only begun while the transaction is open: at every point of it, either nothing but
  the lock files has changed, or the journal of the transaction could be read, the Manifest was not
  the one it commits and its phase was one before the commit.
\<close>

theorem rollback_before_commit:
  "list_all (\<lambda>u. same_except lock_area s u \<or> open_transaction t s)
     (states (recover_transaction env t ''rollback'' scanner context) s)"
proof (cases "open_transaction t s")
  case False
  let ?I = "same_except lock_area s"
  have refl: "?I v" if "v = s" for v using that by (simp add: same_except_def)
  have "always (\<lambda>v. v = s) (recover_transaction env t ''rollback'' scanner context) ?I"
    unfolding recover_transaction_def Let_def
  proof (simp only: insert_iff simp_thms if_True if_False, rule always_iread, rule refl, assumption,
      rule always_ilift, rule refl, assumption)
    fix v journal records assume "v = s" "load_journal (transaction_path t) v = Inr journal"
    with False have "manifest_committed journal s \<noteq> Inr False \<or> py_str (get journal ''phase'') \<notin> set PRECOMMIT_PHASES"
      by (simp add: open_transaction_def)
    note under_locks = closed_refused [OF this]
    show "always (\<lambda>v. v = s) (ibnd (recovery_locks env journal context) (\<lambda>_.
       ibnd (iread (manifest_committed journal)) (\<lambda>committed.
       if committed then iraise recovery_required
       else if py_str (get journal ''phase'') \<notin> set PRECOMMIT_PHASES then iraise recovery_required
       else ibnd (rollback_transaction (ae_rnd env) journal records) (\<lambda>_. iret (recovery_result t False True))))) ?I"
      by (rule always_start [OF always_ibnd [OF recovery_locks_only under_locks] refl])
  qed
  then show ?thesis by (simp add: always_def list_all_iff)
qed (simp add: list_all_iff)

section \<open>Resuming\<close>

lemma advance_keeps_created:
  "outcome (advance rnd journal phase records) s = Inr j \<Longrightarrow> lookup j ''created_directories'' = lookup journal ''created_directories''"
  by (auto simp: advance_def advance_journal_def outcome_ibnd_Inr Let_def bnd_Inr_iff replace_field_def lookup_def update_conv'
      split: if_splits option.splits)

definition resume_area :: "string \<Rightarrow> dict \<Rightarrow> dict list \<Rightarrow> path set" where
  "resume_area i journal records = journal_area \<union> probe_area i \<union> backup_area records \<union> set (created_paths journal)"

lemma modifies_resume_preparation: "modifies (resume_area t journal records) (resume_preparation env t journal records)"
proof -
  have sub: "journal_area \<subseteq> resume_area t journal records" "probe_area t \<subseteq> resume_area t journal records"
      "backup_area records \<subseteq> resume_area t journal records" "set (created_paths journal) \<subseteq> resume_area t journal records"
    by (auto simp: resume_area_def)
  note adv = modifies_advance [OF sub(1)]
  show ?thesis
    unfolding resume_preparation_def
  proof (rule modifies_ibnd_outcome [OF adv], rule modifies_ibnd [OF modifies_probe [OF sub(2)]],
      rule modifies_ibnd_outcome [OF modifies_pure(3)])
    fix s j s' ds
    assume "outcome (advance (ae_rnd env) journal ''probing'' (Some records)) s = Inr j"
      and "outcome (ilift (bnd (lookup j ''created_directories'') (as_array recovery_required))) s' = Inr ds"
    then have ds: "bnd (lookup journal ''created_directories'') (as_array recovery_required) = Inr ds"
      by (simp add: advance_keeps_created)
    have "path_of ` set (map py_str ds) \<subseteq> set (created_paths journal)"
    proof -
      obtain v where v: "lookup journal ''created_directories'' = Inr v" "as_array recovery_required v = Inr ds"
        using ds by (cases "lookup journal ''created_directories''") simp_all
      then show ?thesis by (cases v) (auto simp: created_paths_def as_array_def)
    qed
    then have "path_of ` set (map py_str ds) \<subseteq> resume_area t journal records" using sub(4) by (rule subset_trans)
    then show "modifies (resume_area t journal records) (ibnd (prepare_backups records (map py_str ds)) (\<lambda>records.
        ibnd (advance (ae_rnd env) j ''prepared'' (Some records)) (\<lambda>journal. iret (journal, records))))"
      by (intro modifies_ibnd modifies_prepare_backups sub(3) adv modifies_pure)
  qed
qed

lemma resume_preparation_records:
  "yields (\<lambda>(j, rs). list_all2 same_record records rs) (resume_preparation env t journal records)"
proof -
  have prep: "hoare (\<lambda>_. True) (prepare_backups records ds) (\<lambda>rs _. list_all2 same_record records rs)" for ds
    using prepare_backups_same by (intro hoare_yields) (simp add: yields_def)
  have "hoare (\<lambda>_. True) (resume_preparation env t journal records) (\<lambda>(j, rs) _. list_all2 same_record records rs)"
    unfolding resume_preparation_def
    by (rule hoare_ibnd [OF prep] hoare_ibnd [OF hoare_const] hoare_iret)+ simp
  then show ?thesis unfolding hoare_def yields_def by (simp add: case_prod_beta)
qed

lemma resume_files_applied:
  assumes "distinct (map (\<lambda>r. target_of (candidate_of r)) records)"
  shows "hoare (\<lambda>_. list_all2 same_record records rs) (resume_files rnd rs)
    (\<lambda>rs' s. list_all2 same_record records rs' \<and> all_applied records s)"
  unfolding hoare_def
proof (intro allI impI)
  fix s rs' assume rs: "list_all2 same_record records rs" and o: "outcome (resume_files rnd rs) s = Inr rs'"
  have rs': "list_all2 same_record rs rs'"
    by (rule imap_relates [OF _ o [unfolded resume_files_def]]) (use rounds_same(2) in \<open>auto simp: yields_def\<close>)
  have "map (\<lambda>r. target_of (candidate_of r)) rs = map target_of (map candidate_of rs)" by simp
  also have "\<dots> = map (\<lambda>r. target_of (candidate_of r)) records"
    unfolding same_records_areas(4) [OF rs] by simp
  finally have "distinct (map (\<lambda>r. target_of (candidate_of r)) rs)" using assms by simp
  from resume_loop.loop_settles(1) [OF this o [unfolded resume_files_def]]
  have "all_applied rs (final (resume_files rnd rs) s)"
    unfolding all_applied_def resume_files_def .
  then show "list_all2 same_record records rs' \<and> all_applied records (final (resume_files rnd rs) s)"
    using same_records_applied [OF rs] same_records_trans [OF rs rs'] by blast
qed

lemma modifies_ensure_marker: "marker_area \<subseteq> P \<Longrightarrow> modifies P (ensure_marker rnd journal b)"
  unfolding ensure_marker_def
  by (intro modifies_ibnd modifies_if modifies_pure modifies_read_bytes modifies_maintenance(1))

lemma modifies_manifest_from_journal: "manifest_area \<subseteq> P \<Longrightarrow> modifies P (apply_manifest_from_journal rnd journal)"
proof -
  assume P: "manifest_area \<subseteq> P"
  have t: "target_of (regular_state manifest_text h m) = manifest_path" for h m
    by (simp add: regular_state_def manifest_text_def manifest_path_def path_of_def)
  have sub: "manifest_path \<in> P" "beside manifest_path cas_prefix \<subseteq> P" using P by (auto simp: manifest_area_def)
  have "modifies P (compare_and_swap rnd e (regular_state manifest_text h m) k)" for e h m k
    by (rule modifies_compare_and_swap) (simp_all add: t sub)
  then show ?thesis
    unfolding apply_manifest_from_journal_def by (intro modifies_ibnd modifies_pure)
qed

definition resume_clear :: "string \<Rightarrow> dict \<Rightarrow> dict list \<Rightarrow> bool" where
  "resume_clear i journal records = (plan_clear i records \<and> backup_area records \<subseteq> insert [] journal_area \<and>
     manifest_path \<notin> set (created_paths journal))"

text \<open>The parts of a resumed transaction: preparation, files, commit.\<close>

definition resume_prepare :: "apply_env \<Rightarrow> string \<Rightarrow> dict \<Rightarrow> dict list \<Rightarrow> string \<Rightarrow> (dict \<times> dict list \<times> string) io" where
  "resume_prepare env t journal records phase = (if phase \<in> {''planned'', ''probing''}
       then ibnd (resume_preparation env t journal records) (\<lambda>(j, rs). iret (j, rs, ''prepared''))
       else iret (journal, records, phase))"

definition resume_commit :: "apply_env \<Rightarrow> scanner option \<Rightarrow> scanner_context option \<Rightarrow> dict \<Rightarrow> dict \<Rightarrow> dict list \<Rightarrow> unit io" where
  "resume_commit env scanner context marker j rs = ibnd (advance (ae_rnd env) j ''files_applied'' (Some rs)) (\<lambda>journal.
     ibnd (iread (require_recovery_scan scanner context journal)) (\<lambda>_.
     ibnd (apply_manifest_from_journal (ae_rnd env) journal) (\<lambda>_.
     ibnd (advance (ae_rnd env) journal ''manifest_committed'' (Some rs)) (\<lambda>journal.
     ibnd (advance (ae_rnd env) journal ''cleanup_pending'' (Some rs)) (\<lambda>journal.
     ibnd (remove_marker_if_present marker) (\<lambda>_.
     ibnd (cleanup_transaction_data rs) (\<lambda>_.
     ibnd (advance (ae_rnd env) journal ''complete'' (Some rs)) (\<lambda>_. iret ()))))))))"

definition resume_rest :: "apply_env \<Rightarrow> scanner option \<Rightarrow> scanner_context option \<Rightarrow> dict \<times> dict list \<times> string \<Rightarrow> unit io" where
  "resume_rest env scanner context = (\<lambda>(journal, records, phase).
     ibnd (ensure_marker (ae_rnd env) journal (phase = ''prepared'')) (\<lambda>marker.
     ibnd (if phase = ''prepared'' then advance (ae_rnd env) journal ''applying'' (Some records) else iret journal) (\<lambda>journal.
     ibnd (resume_files (ae_rnd env) records) (\<lambda>records. resume_commit env scanner context marker journal records))))"

lemma resume_transaction_parts: "resume_transaction env scanner context t journal records phase =
     ibnd (resume_prepare env t journal records phase) (resume_rest env scanner context)"
  by (simp only: resume_transaction_def resume_prepare_def resume_rest_def resume_commit_def Let_def)

lemma resume_commit_applied:
  assumes "resume_clear t journal records"
  shows "always (\<lambda>v. list_all2 same_record records rs \<and> all_applied records v)
    (resume_commit env scanner context marker j rs) (all_applied records)"
  unfolding always_const
proof
  assume rs: "list_all2 same_record records rs"
  have clear: "plan_clear t records" and "backup_area records \<subseteq> control_area t"
    using assms by (auto simp: resume_clear_def control_area_def)
  then have b: "backup_area rs \<subseteq> control_area t" using same_records_areas(2) [OF rs] by simp
  have "modifies (control_area t) (resume_commit env scanner context marker j rs)"
    unfolding resume_commit_def
    by (intro modifies_ibnd modifies_pure modifies_advance modifies_manifest_from_journal modifies_remove_marker
        modifies_cleanup b control_area_parts)
  then show "always (all_applied records) (resume_commit env scanner context marker j rs) (all_applied records)"
    by (rule applied_stays [OF clear])
qed

lemma resume_prepare_early:
  assumes "resume_clear t journal records"
  shows "always (manifest_was n) (resume_prepare env t journal records phase) (manifest_was n)"
    and "hoare (manifest_was n) (resume_prepare env t journal records phase)
      (\<lambda>(j, rs, ph) v. list_all2 same_record records rs \<and> manifest_was n v)"
proof -
  have area: "manifest_path \<notin> resume_area t journal records"
    using manifest_outside_control assms by (auto simp: resume_area_def resume_clear_def)
  have m: "modifies (resume_area t journal records) (resume_prepare env t journal records phase)"
    unfolding resume_prepare_def
    by (intro modifies_if modifies_ibnd modifies_resume_preparation) (auto intro: modifies_pure simp: case_prod_beta)
  show "always (manifest_was n) (resume_prepare env t journal records phase) (manifest_was n)"
    by (rule manifest_stays(1) [OF m area])
  have y: "yields (\<lambda>(j, rs, ph). list_all2 same_record records rs) (resume_prepare env t journal records phase)"
    using resume_preparation_records [of records env t journal]
    by (auto simp: resume_prepare_def yields_def outcome_ibnd_Inr list_all2_refl same_record_refl split: if_splits prod.splits)
  show "hoare (manifest_was n) (resume_prepare env t journal records phase)
      (\<lambda>(j, rs, ph) v. list_all2 same_record records rs \<and> manifest_was n v)"
    using hoareD [OF manifest_stays(2) [OF m area]] y unfolding hoare_def yields_def case_prod_beta by blast
qed

lemma resume_rest_last:
  assumes "resume_clear t journal records"
  shows "always (\<lambda>v. list_all2 same_record records rs \<and> manifest_was n v) (resume_rest env scanner context (j, rs, ph))
    (\<lambda>v. manifest_was n v \<or> all_applied records v)"
  unfolding always_const resume_rest_def prod.case
proof (rule impI, rule always_ibnd [where R = "\<lambda>_. manifest_was n"], goal_cases)
  case 1
  show ?case
    by (rule always_mono [OF manifest_stays(1) [OF modifies_ensure_marker [OF subset_refl] manifest_outside_control(2)]]) blast
next
  case 2
  show ?case by (rule manifest_stays(2) [OF modifies_ensure_marker [OF subset_refl] manifest_outside_control(2)])
next
  case (3 marker)
  let ?adv = "if ph = ''prepared'' then advance (ae_rnd env) j ''applying'' (Some rs) else iret j"
  have adv: "modifies journal_area ?adv" by (intro modifies_if modifies_advance modifies_pure subset_refl)
  have foot: "manifest_path \<notin> record_area records" and distinct: "distinct (map (\<lambda>r. target_of (candidate_of r)) records)"
    using assms by (simp_all add: resume_clear_def plan_clear_def record_footprint_def)
  have "record_area rs = record_area records" by (rule same_records_areas(1) [OF 3])
  then have files: "modifies (record_area records) (resume_files (ae_rnd env) rs)" by (intro modifies_resume_files) simp
  have applied: "hoare (manifest_was n) (resume_files (ae_rnd env) rs)
      (\<lambda>rs' v. list_all2 same_record records rs' \<and> all_applied records v)"
    by (rule hoare_weaken [OF resume_files_applied [OF distinct]]) (rule 3)
  have "always (manifest_was n) (ibnd (resume_files (ae_rnd env) rs) (resume_commit env scanner context marker journal'))
      (\<lambda>v. manifest_was n v \<or> all_applied records v)" for journal'
    by (rule always_ibnd [OF always_mono [OF manifest_stays(1) [OF files foot]] applied], blast,
        rule always_mono [OF resume_commit_applied [OF assms]], blast)
  then show ?case
    by (intro always_ibnd [OF always_mono [OF manifest_stays(1) [OF adv manifest_outside_control(1)]]
          manifest_stays(2) [OF adv manifest_outside_control(1)]]) blast+
qed

text \<open>
  C9: A resumed transaction, too, swaps the Manifest last: at every point at which it is not the one
  found any more, every file of the journal is in its candidate state.
\<close>

theorem resume_commits_last:
  assumes "resume_clear t journal records"
    and "u \<in> set (states (resume_transaction env scanner context t journal records phase) s)"
  shows "node_at u manifest_path = node_at s manifest_path \<or>
    list_all (\<lambda>r. describes (candidate_of r) (node_at u (path_of (fs_path (candidate_of r))))) records"
proof -
  let ?n = "node_at s manifest_path"
  let ?I = "\<lambda>u. manifest_was ?n u \<or> all_applied records u"
  have "always (manifest_was ?n) (resume_transaction env scanner context t journal records phase) ?I"
    unfolding resume_transaction_parts
  proof (rule always_ibnd [OF always_mono [OF resume_prepare_early(1) [OF assms(1)]] resume_prepare_early(2) [OF assms(1)]], blast)
    fix x :: "dict \<times> dict list \<times> string"
    show "always ((\<lambda>(j, rs, ph) v. list_all2 same_record records rs \<and> manifest_was ?n v) x) (resume_rest env scanner context x) ?I"
      by (cases x) (simp only: prod.case resume_rest_last [OF assms(1)])
  qed
  then have "?I u" using assms(2) unfolding always_def manifest_was_def by blast
  then show ?thesis by (simp only: manifest_was_def all_applied_def list_all_iff)
qed

section \<open>Witnesses\<close>

definition sample_journal :: dict where
  "sample_journal = [(''created_directories'', PList [PStr ''d''])]"

definition applied_tree :: fs where
  "applied_tree = fmupd [''d''] (Dir 493) (fmupd [''a''] (File [2] 420) sample_tree)"

lemma sample_created: "created_paths sample_journal = [[''d'']]"
  by (simp add: created_paths_def sample_journal_def lookup_def path_of_def)

lemma sample_outside: "[''a''] \<notin> evidence_area [sample_record]" "[''d''] \<notin> evidence_area [sample_record]"
    "backup_area [sample_record] = {[], [''b'']}"
proof -
  show b: "backup_area [sample_record] = {[], [''b'']}"
    by (simp add: backup_area_def backup_targets_def sample_fields ancestors_def)
  show "[''a''] \<notin> evidence_area [sample_record]" "[''d''] \<notin> evidence_area [sample_record]"
    by (auto simp: evidence_area_def b journal_area_def marker_area_def below_def maintenance_path_def beside_def)
qed

lemma sample_rollback_clear: "rollback_clear sample_journal [sample_record]"
  using sample_outside by (simp add: rollback_clear_def sample_created sample_record_of sample_fields)

theorem rollback_forgets_last_witness:
  "(same_except (restore_area [sample_record] \<union> {[''d'']}) applied_tree
      (final (rollback_transaction fresh_rnd sample_journal [sample_record]) applied_tree) \<or>
     restored sample_journal [sample_record] (final (rollback_transaction fresh_rnd sample_journal [sample_record]) applied_tree)) \<and>
   ((\<exists>e. outcome (rollback_transaction fresh_rnd sample_journal [sample_record]) applied_tree = Inl e) \<or>
     restored sample_journal [sample_record] (final (rollback_transaction fresh_rnd sample_journal [sample_record]) applied_tree))"
  using rollback_forgets_last [OF sample_rollback_clear final_in_states [of "rollback_transaction fresh_rnd sample_journal [sample_record]" applied_tree]]
  by (simp add: sample_created)

lemma tiny_resume_clear: "resume_clear (planned_id tiny_plan) sample_journal [tiny_record]"
proof -
  have "backup_area [tiny_record] \<subseteq> insert [] journal_area"
    by (rule plan_backup_area [of _ "planned_id tiny_plan"]) (use file_records_plan [OF tiny_records, of "PStr ''t''"] in
        \<open>auto simp: planned_id_def tiny_plan_def tiny_core_def lookup_def\<close>)
  then show ?thesis using tiny_clear by (simp add: resume_clear_def sample_created manifest_path_def)
qed

theorem resume_commits_last_witness:
  "node_at (final (resume_transaction tiny_env None None (planned_id tiny_plan) sample_journal [tiny_record] ''applying'') sample_fs) manifest_path
     = node_at sample_fs manifest_path \<or>
   describes sample_new (node_at (final (resume_transaction tiny_env None None (planned_id tiny_plan) sample_journal [tiny_record] ''applying'')
     sample_fs) [''a''])"
proof -
  have c: "candidate_of tiny_record = sample_new"
    using record_states_Inr [OF file_record_states [OF sample_states_valid]] by (simp add: tiny_record_def)
  from resume_commits_last [OF tiny_resume_clear final_in_states, of tiny_env None None "''applying''" sample_fs]
  show ?thesis by (simp add: c sample_fields)
qed

end
