(* ===== verification/Preparation.thy ===== *)
theory Preparation
  imports Apply_Safety
begin

text \<open>
  From the preparation of a transaction to the recovery of its files: what \<^verbatim>\<open>_prepare_backups\<close> leaves
  behind is what the loops of rollback and resume need, and the journal and the marker written after it
  do not disturb it.
\<close>

section \<open>What stays\<close>

text \<open>These directories are directories, and these files hold these bytes.\<close>

definition kept :: "path set \<Rightarrow> (path \<times> byte list) set \<Rightarrow> fs \<Rightarrow> bool" where
  "kept D F s = ((\<forall>p \<in> D. is_dir s p) \<and> (\<forall>(p, bs) \<in> F. \<exists>m. node_at s p = Some (File bs m)))"

definition stable :: "path set \<Rightarrow> (path \<times> byte list) set \<Rightarrow> 'a io \<Rightarrow> bool" where
  "stable D F m = (\<forall>s. kept D F s \<longrightarrow> (\<forall>u \<in> set (states m s). kept D F u))"

lemma stableD: "stable D F m \<Longrightarrow> kept D F s \<Longrightarrow> u \<in> set (states m s) \<Longrightarrow> kept D F u"
  unfolding stable_def by blast

lemma stable_final: "stable D F m \<Longrightarrow> kept D F s \<Longrightarrow> kept D F (final m s)"
  by (rule stableD [OF _ _ final_in_states])

named_theorems stable_intros \<open>computations that keep directories and files\<close>

lemma stable_pure [stable_intros]:
  "stable D F (iret x)" "stable D F (iraise e)" "stable D F (ilift r)" "stable D F iget" "stable D F (iread f)"
  by (simp_all add: stable_def)

lemma stable_ibnd_outcome:
  assumes "stable D F m" and "\<And>s x. outcome m s = Inr x \<Longrightarrow> stable D F (f x)"
  shows "stable D F (ibnd m f)"
  unfolding stable_def
proof (intro allI impI ballI)
  fix s u assume k: "kept D F s" and u: "u \<in> set (states (ibnd m f) s)"
  show "kept D F u"
  proof (cases "u \<in> set (states m s)")
    case True
    then show ?thesis by (rule stableD [OF assms(1) k])
  next
    case False
    with u obtain x where x: "outcome m s = Inr x" "u \<in> set (states (f x) (final m s))"
      by (auto simp: states_ibnd split: sum.splits)
    then show ?thesis by (rule stableD [OF assms(2) stable_final [OF assms(1) k]])
  qed
qed

lemma stable_ibnd [stable_intros]: "stable D F m \<Longrightarrow> (\<And>x. stable D F (f x)) \<Longrightarrow> stable D F (ibnd m f)"
  by (rule stable_ibnd_outcome)

lemma stable_iwhen [stable_intros]: "stable D F m \<Longrightarrow> stable D F (iwhen b m)"
  by (simp add: iwhen_def stable_pure)

lemma stable_if: "stable D F m \<Longrightarrow> stable D F m' \<Longrightarrow> stable D F (if b then m else m')"
  by simp

lemma stable_irequire [stable_intros]: "stable D F (irequire b e)"
  by (simp add: irequire_def stable_pure)

lemma stable_imap [stable_intros]: "(\<And>x. x \<in> set xs \<Longrightarrow> stable D F (f x)) \<Longrightarrow> stable D F (imap f xs)"
proof (induction xs)
  case (Cons x xs)
  then have "stable D F (f x)" "stable D F (imap f xs)" by auto
  then show ?case by (auto intro!: stable_intros)
qed (simp add: stable_pure)

lemma stable_iforeach [stable_intros]: "(\<And>x. x \<in> set xs \<Longrightarrow> stable D F (f x)) \<Longrightarrow> stable D F (iforeach f xs)"
  unfolding iforeach_def by (intro stable_intros)

lemma stable_istep:
  assumes "\<And>s s'. kept D F s \<Longrightarrow> f s = Inr s' \<Longrightarrow> kept D F s'"
  shows "stable D F (istep f)"
  unfolding stable_def
proof (intro allI impI ballI)
  fix s u assume "kept D F s" "u \<in> set (states (istep f) s)"
  then show "kept D F u" using assms by (cases "f s") (auto simp: states_istep)
qed

text \<open>A step that changes one path keeps all others.\<close>

lemma kept_changed:
  assumes "kept D F s" and "\<And>q. q \<noteq> p \<Longrightarrow> node_at s' q = node_at s q" and "is_dir s p \<Longrightarrow> is_dir s' p"
    and "p \<notin> fst ` F \<or> node_at s' p = node_at s p"
  shows "kept D F s'"
proof -
  have "is_dir s' q" if "is_dir s q" for q
    using that assms(2,3) by (cases "q = p") (simp_all add: is_dir_def)
  moreover have "node_at s' q = node_at s q" if "(q, bs) \<in> F" for q bs
    using that assms(2,4) by (cases "q = p") force+
  ultimately show ?thesis using assms(1) unfolding kept_def by fastforce
qed

lemma node_at_upd_nonroot: "node_at (fmupd p n s) q = (if q = [] then Some (Dir 493) else if q = p then Some n else node_at s q)"
  by (simp add: node_at_def)

lemma root_is_dir: "is_dir s []"
  by (simp add: is_dir_def node_at_def)

lemma stable_mkdir [stable_intros]: "stable D F (mkdir p m)"
proof (rule stable_istep)
  fix s s' assume k: "kept D F s" and s': "mkdir_fs p m s = Inr s'"
  then have p: "node_at s p = None" "s' = fmupd p (Dir m) s" by (simp_all add: mkdir_fs_def split: if_splits)
  then have "p \<notin> fst ` F" using k unfolding kept_def by fastforce
  then show "kept D F s'" using p by (intro kept_changed [OF k, of p]) (auto simp: node_at_upd_nonroot is_dir_def, simp add: node_at_def)
qed

lemma stable_mkdir_parents [stable_intros]: "stable D F (mkdir_parents p)"
  unfolding mkdir_parents_def by (intro stable_intros)

lemma stable_write_bytes [stable_intros]:
  assumes "p \<notin> fst ` F"
  shows "stable D F (write_bytes p bs)"
proof -
  have "stable D F (istep (create_fs p m))" for m
  proof (rule stable_istep)
    fix s s' assume k: "kept D F s" and s': "create_fs p m s = Inr s'"
    then have "\<not> is_dir s p" "\<exists>n. s' = fmupd p n s"
      by (auto simp: create_fs_def is_dir_def split: option.splits node.splits if_splits)
    then show "kept D F s'" using root_is_dir assms by (intro kept_changed [OF k, of p]) (auto simp: node_at_upd_nonroot node_at_def)
  qed
  moreover have "stable D F (istep (write_fs p bs))"
  proof (rule stable_istep)
    fix s s' assume k: "kept D F s" and s': "write_fs p bs s = Inr s'"
    then have "\<not> is_dir s p" "\<exists>n. s' = fmupd p n s"
      by (auto simp: write_fs_def is_dir_def split: option.splits node.splits if_splits)
    then show "kept D F s'" using root_is_dir assms by (intro kept_changed [OF k, of p]) (auto simp: node_at_upd_nonroot node_at_def)
  qed
  ultimately show ?thesis unfolding write_bytes_def by (intro stable_intros)
qed

lemma stable_chmod [stable_intros]:
  assumes "p \<notin> fst ` F"
  shows "stable D F (chmod p m)"
proof (rule stable_istep)
  fix s s' assume k: "kept D F s" and s': "chmod_fs p m s = Inr s'"
  then have "\<exists>n. s' = fmupd p n s" "is_dir s p \<longrightarrow> s' = fmupd p (Dir m) s"
    by (auto simp: chmod_fs_def is_dir_def split: option.splits node.splits if_splits)
  then show "kept D F s'"
    using assms by (intro kept_changed [OF k, of p]) (auto simp: node_at_upd_nonroot node_at_def is_dir_def)
qed

lemma stable_ifinally [stable_intros]: "stable D F m \<Longrightarrow> stable D F c \<Longrightarrow> stable D F (ifinally m c)"
  unfolding stable_def ifinally_run using final_in_states by (metis Un_iff)

text \<open>A step that only touches what is no directory and none of the files.\<close>

lemma stable_elsewhere:
  assumes "\<And>s s' q. f s = Inr s' \<Longrightarrow> q \<notin> P \<Longrightarrow> node_at s' q = node_at s q" and "P \<inter> fst ` F = {}"
    and "\<And>s s' q. f s = Inr s' \<Longrightarrow> q \<in> P \<Longrightarrow> is_dir s q \<Longrightarrow> node_at s' q = node_at s q"
  shows "stable D F (istep f)"
proof (rule stable_istep)
  fix s s' assume k: "kept D F s" and s': "f s = Inr s'"
  have "node_at s' q = node_at s q" if "q \<notin> P \<or> is_dir s q" for q
    using that assms(1,3) [OF s'] by blast
  note same = this
  have "is_dir s' q" if "is_dir s q" for q
    using that same [of q] by (simp add: is_dir_def)
  moreover have "node_at s' q = node_at s q" if "(q, bs) \<in> F" for q bs
    using that assms(2) by (intro same) force
  ultimately show "kept D F s'" using k unfolding kept_def by fastforce
qed

lemma stable_replace [stable_intros]:
  assumes "p \<notin> fst ` F" and "q \<notin> fst ` F"
  shows "stable D F (replace p q)"
  by (rule stable_elsewhere [of _ "{p, q}"])
    (use assms in \<open>auto simp: replace_fs_def node_at_def is_dir_def split: option.splits node.splits if_splits\<close>)

lemma stable_files [stable_intros]:
  assumes "p \<notin> fst ` F"
  shows "stable D F (istep (create_excl_fs p m))" and "stable D F (istep (write_fs p bs))" and "stable D F (unlink p)"
  by (rule stable_elsewhere [of _ "{p}"];
    use assms in \<open>auto simp: create_excl_fs_def write_fs_def unlink_fs_def node_at_def is_dir_def
      split: option.splits node.splits if_splits\<close>)+

lemma stable_atomic_write [stable_intros]:
  assumes "t \<notin> fst ` F" and "beside t prefix \<inter> fst ` F = {}"
  shows "stable D F (atomic_write rnd prefix t payload)"
  unfolding atomic_write_def
proof (rule stable_ibnd_outcome)
  have b: "parent t @ [prefix @ x] \<notin> fst ` F" for x
    using assms(2) unfolding beside_def by blast
  show "stable D F (mkstemp rnd (parent t) prefix)"
    unfolding mkstemp_def Let_def by (intro stable_intros b)
  fix s q assume "outcome (mkstemp rnd (parent t) prefix) s = Inr q"
  then have "q = parent t @ [prefix @ rnd (parent t) prefix s]"
    by (auto simp: mkstemp_def outcome_ibnd_Inr Let_def)
  then have q: "q \<notin> fst ` F" using b by simp
  show "stable D F (ifinally (publish payload t q) (discard q))"
    unfolding publish_def discard_def using assms(1) q by (intro stable_intros)
qed

section \<open>Backups, journal and marker\<close>

text \<open>The name of a backup: four digits or more and an ending that no journal has.\<close>

definition backup_name :: "nat \<Rightarrow> string" where
  "backup_name n = zero_pad 4 (show_base 10 n) @ ''.bin''"

lemma backup_digits: "list_all is_digit (zero_pad 4 (show_base 10 n))"
  using show_base_digits [of n] by (auto simp: zero_pad_def list_all_iff is_digit_def ord_def)

lemma backup_name_inj: "backup_name n = backup_name m \<Longrightarrow> n = m"
proof -
  assume "backup_name n = backup_name m"
  then have "parse_base 10 (zero_pad 4 (show_base 10 n)) = parse_base 10 (zero_pad 4 (show_base 10 m))"
    by (simp add: backup_name_def)
  then show "n = m" by (simp add: parse_base_zero_pad parse_show_base)
qed

lemma backup_name_no_dot: "backup_name n \<noteq> CHR ''.'' # x"
proof
  assume e: "backup_name n = CHR ''.'' # x"
  obtain c cs where c: "show_base 10 n = c # cs" by (cases "show_base 10 n") (auto simp: show_base.simps [of 10 n] split: if_splits)
  then obtain d ds where d: "zero_pad 4 (show_base 10 n) = d # ds" by (cases "zero_pad 4 (show_base 10 n)") (auto simp: zero_pad_def)
  have "d = CHR ''.''" using e d by (simp add: backup_name_def)
  then show False using backup_digits [of n] d by (simp add: is_digit_def ord_def)
qed

lemma backup_name_segment: "path_of (backup_name n) = [backup_name n]"
proof -
  have "chr_slash \<notin> set (backup_name n)"
    using backup_digits [of n] by (auto simp: backup_name_def list_all_iff is_digit_def ord_def)
  then have "split_on chr_slash (backup_name n) = [backup_name n]" by (simp add: split_on_single)
  moreover have "backup_name n \<noteq> ''.''" using backup_name_no_dot [of n "[]"] by simp
  moreover have "backup_name n \<noteq> []" by (simp add: backup_name_def)
  ultimately show ?thesis by (simp add: path_of_def)
qed

definition backups_of :: "string \<Rightarrow> path" where
  "backups_of i = path_of (''.agent-workflow/transactions/'' @ i @ ''.data/backups'')"

lemma path_of_backup: "path_of (backup_path i n) = backups_of i @ [backup_name n]"
proof -
  have "backup_path i n = (''.agent-workflow/transactions/'' @ i @ ''.data/backups'') @ chr_slash # backup_name n"
    by (simp add: backup_path_def backup_name_def)
  then show ?thesis by (simp only: path_of_append backups_of_def backup_name_segment)
qed

lemma backup_not_temp: "\<not> temp_name (path_of (backup_path i n))"
  using backup_name_no_dot [of n] unfolding path_of_backup temp_name_def
  by (cases "backup_name n") (auto simp: cas_prefix_def starts_with_def)

text \<open>Neither the journal nor the marker nor their temporary files are backups.\<close>

lemma backup_not_beside: "path_of (backup_path i n) \<notin> beside t (CHR ''.'' # prefix)"
  using backup_name_no_dot [of n] by (auto simp: path_of_backup beside_def)

lemma transaction_path_last: "\<exists>q x. transaction_path t = q @ [x @ ''.json'']"
proof -
  have one: "path_of (b @ ''.json'') = [b @ ''.json'']" if "chr_slash \<notin> set b" for b
  proof -
    have "chr_slash \<notin> set (b @ ''.json'')" using that by simp
    then have "split_on chr_slash (b @ ''.json'') = [b @ ''.json'']" by (rule split_on_single)
    then show ?thesis by (cases b) (simp_all add: path_of_def)
  qed
  let ?u = "''.agent-workflow/transactions/'' @ t"
  have "chr_slash \<in> set ?u" by simp
  then obtain a b where ab: "?u = a @ chr_slash # b" "chr_slash \<notin> set b" by (meson split_list_last)
  then have "''.agent-workflow/transactions/'' @ t @ ''.json'' = a @ chr_slash # (b @ ''.json'')" by simp
  then have "transaction_path t = path_of a @ [b @ ''.json'']"
    by (simp only: transaction_path_def path_of_append one [OF ab(2)])
  then show ?thesis by blast
qed

lemma backup_not_journal: "path_of (backup_path i n) \<noteq> transaction_path t"
proof
  assume e: "path_of (backup_path i n) = transaction_path t"
  obtain q x where "transaction_path t = q @ [x @ ''.json'']" using transaction_path_last by blast
  with e have "backup_name n = x @ ''.json''" by (simp add: path_of_backup)
  then have "rev (zero_pad 4 (show_base 10 n) @ ''.bin'') = rev (x @ ''.json'')" by (simp only: backup_name_def)
  then show False by simp
qed

text \<open>Files that are backups of a transaction.\<close>

definition backups :: "string \<Rightarrow> (path \<times> byte list) set \<Rightarrow> bool" where
  "backups i F = (\<forall>p \<in> fst ` F. \<exists>n. p = path_of (backup_path i n))"

lemma backups_clear:
  assumes "backups i F"
  shows "transaction_path t \<notin> fst ` F" and "maintenance_path \<notin> fst ` F" and "beside p (CHR ''.'' # x) \<inter> fst ` F = {}"
proof -
  have b: "\<exists>n. q = path_of (backup_path i n)" if "q \<in> fst ` F" for q
    using assms that by (simp only: backups_def)
  show "transaction_path t \<notin> fst ` F"
  proof
    assume "transaction_path t \<in> fst ` F"
    from b [OF this] obtain n where "transaction_path t = path_of (backup_path i n)" ..
    then show False using backup_not_journal [of i n t] by (rule notE [OF _ sym, rotated])
  qed
  show "beside p (CHR ''.'' # x) \<inter> fst ` F = {}"
  proof (rule equals0I)
    fix q assume "q \<in> beside p (CHR ''.'' # x) \<inter> fst ` F"
    then have q: "q \<in> beside p (CHR ''.'' # x)" "q \<in> fst ` F" by simp_all
    from b [OF q(2)] obtain n where "q = path_of (backup_path i n)" ..
    with q(1) backup_not_beside show False by simp
  qed
  have "maintenance_path \<noteq> path_of (backup_path i n)" for n
  proof
    assume "maintenance_path = path_of (backup_path i n)"
    then have "last maintenance_path = last (backups_of i @ [backup_name n])" by (simp only: path_of_backup)
    then have "last maintenance_path = backup_name n" by simp
    then have "rev ''maintenance.json'' = rev (backup_name n)" by (simp add: maintenance_path_def)
    then show False by (simp add: backup_name_def)
  qed
  note marker = this
  show "maintenance_path \<notin> fst ` F"
  proof
    assume "maintenance_path \<in> fst ` F"
    from b [OF this] marker show False by blast
  qed
qed

lemma stable_advance:
  assumes "backups i F"
  shows "stable D F (write_journal rnd document)" and "stable D F (advance rnd journal phase records)"
proof -
  show w: "stable D F (write_journal rnd document)" for document
    unfolding write_journal_def
  proof (rule stable_ibnd_outcome [OF stable_pure(3)])
    fix s p assume "outcome (ilift (journal_target document)) s = Inr p"
    then obtain t where p: "p = transaction_path t" by (auto simp: journal_target_def bnd_Inr_iff)
    have "p \<notin> fst ` F" "beside p (''.'' @ last p @ ''.'') \<inter> fst ` F = {}"
      using backups_clear [OF assms] by (simp_all add: p)
    then show "stable D F (ibnd (iread (\<lambda>s. if path_exists s p \<or> is_symlink s p
        then bnd (load_journal p s) (\<lambda>existing. check_existing existing document) else Inr ())) (\<lambda>_.
        ibnd (atomic_json rnd p document) (\<lambda>_. iret p)))"
      unfolding atomic_json_def by (intro stable_intros)
  qed
  show "stable D F (advance rnd journal phase records)"
    unfolding advance_def by (intro stable_intros w)
qed

lemma stable_write_maintenance:
  assumes "backups i F"
  shows "stable D F (write_maintenance rnd marker)"
proof -
  have "maintenance_path \<notin> fst ` F" "beside maintenance_path ''.maintenance.'' \<inter> fst ` F = {}"
    using backups_clear [OF assms] by simp_all
  then show ?thesis unfolding write_maintenance_def by (intro stable_intros)
qed

section \<open>The backups of a list of records\<close>

text \<open>A loop that ends has done every round, and what a round left is kept by the others.\<close>

lemma created_exist:
  assumes "outcome (iforeach (\<lambda>d. mkdir (path_of d) m) ds) s = Inr u" and "d \<in> set ds"
  shows "is_dir (final (iforeach (\<lambda>d. mkdir (path_of d) m) ds) s) (path_of d)"
proof -
  obtain us where "outcome (imap (\<lambda>d. mkdir (path_of d) m) ds) s = Inr us"
    using assms(1) by (auto simp: iforeach_run split: sum.splits)
  then have "is_dir (final (imap (\<lambda>d. mkdir (path_of d) m) ds) s) (path_of d)"
    using assms(2)
  proof (induction ds arbitrary: s us)
    case (Cons x ds)
    let ?s1 = "final (mkdir (path_of x) m) s"
    from Cons.prems(1) obtain v vs where v: "outcome (mkdir (path_of x) m) s = Inr v"
        and vs: "outcome (imap (\<lambda>d. mkdir (path_of d) m) ds) ?s1 = Inr vs"
      by (auto simp: outcome_ibnd_Inr)
    have f: "final (imap (\<lambda>d. mkdir (path_of d) m) (x # ds)) s = final (imap (\<lambda>d. mkdir (path_of d) m) ds) ?s1"
      using v vs by (simp add: final_ibnd)
    show ?case
    proof (cases "d \<in> set ds")
      case True
      then show ?thesis unfolding f by (rule Cons.IH [OF vs])
    next
      case False
      then have "d = x" using Cons.prems(2) by simp
      obtain s' where "mkdir_fs (path_of x) m s = Inr s'" using v by (auto simp: outcome_istep split: sum.splits)
      then have "is_dir ?s1 (path_of x)"
        by (auto simp: final_istep mkdir_fs_def is_dir_def node_at_def split: if_splits)
      then have "kept {path_of x} {} ?s1" by (simp add: kept_def)
      moreover have "stable {path_of x} {} (imap (\<lambda>d. mkdir (path_of d) m) ds)" by (intro stable_intros)
      ultimately have "kept {path_of x} {} (final (imap (\<lambda>d. mkdir (path_of d) m) ds) ?s1)" by (rule stable_final [rotated])
      then show ?thesis unfolding f by (simp add: kept_def \<open>d = x\<close>)
    qed
  qed simp
  then show ?thesis by (simp add: iforeach_run)
qed

text \<open>The records of a plan number their backups.\<close>

definition numbered :: "string \<Rightarrow> dict list \<Rightarrow> bool" where
  "numbered i rs = (\<forall>k < length rs. (\<exists>p. record_states (rs ! k) = Inr p) \<and>
     (\<exists>v. lookup (rs ! k) ''candidate_content_utf8'' = Inr v) \<and>
     get (rs ! k) ''backup_path'' = (if fs_exists (original_of (rs ! k)) then PStr (backup_path i k) else PNone))"

lemma stable_backup_file:
  assumes "\<And>b. get r ''backup_path'' = PStr b \<Longrightarrow> path_of b \<notin> fst ` F"
  shows "stable D F (backup_file r)"
  unfolding backup_file_def
proof (rule stable_ibnd [OF stable_pure(3)], rule stable_ibnd_outcome [OF stable_pure(3)])
  fix original s v
  assume "outcome (ilift (lookup r ''backup_path'')) s = Inr v"
  then have v: "get r ''backup_path'' = v" by (auto simp: lookup_def get_def split: option.splits)
  show "stable D F (case v of PStr backup \<Rightarrow>
         if \<not> fs_exists original then iret r
         else let source = path_of (fs_path original); target = path_of backup in
           ibnd (iread (\<lambda>s. require (\<not> (is_symlink s source \<or> \<not> is_file s source)) cas_mismatch)) (\<lambda>_.
           ibnd (read_bytes source) (\<lambda>payload.
           ibnd (irequire (sha256_hex payload = fs_hash original) cas_mismatch) (\<lambda>_.
           ibnd (mkdir_parents (parent target)) (\<lambda>_.
           ibnd (write_bytes target payload) (\<lambda>_.
           ibnd (ilift (mode_bits (fs_mode original))) (\<lambda>m.
           ibnd (chmod target m) (\<lambda>_.
           iret (AList.update ''backup_byte_hash'' (PStr (fs_hash original)) r))))))))
     | _ \<Rightarrow> iret r)"
  proof (cases v)
    case (PStr b)
    then have b: "path_of b \<notin> fst ` F" using assms v by simp
    have rb: "stable D F (read_bytes p)" for p by (simp add: read_bytes_def stable_pure)
    show ?thesis
      unfolding PStr pyval.case Let_def
      by (intro stable_if stable_intros rb b)
  qed (simp_all add: stable_pure)
qed

text \<open>A finished backup holds bytes with the hash of the original.\<close>

definition has_backup :: "dict \<Rightarrow> fs \<Rightarrow> bool" where
  "has_backup r s = (\<exists>b bs m. get r ''backup_path'' = PStr b \<and> node_at s (path_of b) = Some (File bs m) \<and>
     sha256_hex bs = fs_hash (original_of r))"

lemma ibnd_ilift_Inr: "ibnd (ilift (Inr x)) f = f x"
  by (rule ext) (simp add: ibnd_def ilift_def split: prod.splits)

lemma write_bytes_done: "hoare (\<lambda>_. G) (write_bytes t bs) (\<lambda>_ u. G \<and> (\<exists>m. node_at u t = Some (File bs m)))"
  by (auto simp: hoare_def write_bytes_def outcome_ibnd_Inr final_ibnd outcome_istep final_istep write_fs_def create_fs_def node_at_def
      split: option.splits node.splits if_splits sum.splits)

lemma chmod_done: "hoare (\<lambda>u. G \<and> (\<exists>m. node_at u t = Some (File bs m))) (chmod t k)
    (\<lambda>_ u. G \<and> (\<exists>m. node_at u t = Some (File bs m)))"
  by (auto simp: hoare_def outcome_istep final_istep chmod_fs_def node_at_def
      split: option.splits node.splits if_splits sum.splits)

lemma hoare_irequire: "hoare (\<lambda>_. True) (irequire b e) (\<lambda>_ _. b)"
  by (simp add: hoare_def irequire_def)

lemma hoare_true: "hoare P m (\<lambda>_ _. True)"
  by (simp add: hoare_def)

lemma backup_file_done:
  assumes "outcome (backup_file r) s = Inr r'" and "record_states r = Inr p" and "fs_exists (original_of r)"
    and "get r ''backup_path'' = PStr b"
  shows "has_backup r (final (backup_file r) s)"
proof -
  have o: "bnd (bnd (lookup r ''original_state'') (as_mapping recovery_required)) file_state_from_document = Inr (original_of r)"
    using assms(2) unfolding record_states_def original_of_def states_of_def
    by (auto simp: bnd_Inr_iff record_states_def split: option.splits)
  have l: "lookup r ''backup_path'' = Inr (PStr b)"
    using assms(4) by (auto simp: lookup_def get_def split: option.splits)
  have "hoare (\<lambda>_. True) (backup_file r) (\<lambda>_ u. \<exists>payload. sha256_hex payload = fs_hash (original_of r) \<and>
      (\<exists>m. node_at u (path_of b) = Some (File payload m)))"
    unfolding backup_file_def o l ibnd_ilift_Inr pyval.case Let_def
    by (simp only: assms(3) not_True_eq_False if_False)
      (rule hoare_ibnd [OF hoare_true], rule hoare_ibnd [OF hoare_true], rule hoare_ibnd [OF hoare_irequire],
       rule hoare_ibnd [OF hoare_const], rule hoare_ibnd [OF write_bytes_done], rule hoare_ibnd [OF hoare_ilift],
       assumption, rule hoare_ibnd [OF chmod_done], rule hoare_iret, blast)
  from hoareD [OF this TrueI assms(1)] show ?thesis unfolding has_backup_def using assms(4) by blast
qed

text \<open>All backups of a list that was backed up are there.\<close>

lemma backups_done:
  assumes "outcome (imap backup_file rs) s = Inr rs'"
    and "\<And>r. r \<in> set rs \<Longrightarrow> \<exists>p. record_states r = Inr p"
    and "\<And>r. r \<in> set rs \<Longrightarrow> fs_exists (original_of r) \<Longrightarrow> \<exists>b. get r ''backup_path'' = PStr b"
    and "distinct (map path_of (strs_of (map (\<lambda>r. get r ''backup_path'') rs)))"
    and "r \<in> set rs" and "fs_exists (original_of r)"
  shows "has_backup r (final (imap backup_file rs) s)"
  using assms
proof (induction rs arbitrary: s rs')
  case (Cons x rs)
  let ?s1 = "final (backup_file x) s"
  from Cons.prems(1) obtain y ys where y: "outcome (backup_file x) s = Inr y" and ys: "outcome (imap backup_file rs) ?s1 = Inr ys"
    by (auto simp: outcome_ibnd_Inr)
  have f: "final (imap backup_file (x # rs)) s = final (imap backup_file rs) ?s1"
    using y ys by (simp add: final_ibnd)
  have d: "distinct (map path_of (strs_of (map (\<lambda>r. get r ''backup_path'') rs)))"
    using Cons.prems(4) by (cases "get x ''backup_path''") auto
  show ?case
  proof (cases "r \<in> set rs")
    case True
    show ?thesis unfolding f
      by (rule Cons.IH [OF ys _ _ d True Cons.prems(6)]) (use Cons.prems(2,3) in simp_all)
  next
    case False
    then have r: "r = x" using Cons.prems(5) by simp
    obtain p where p: "record_states x = Inr p" using Cons.prems(2) [of x] by auto
    have "fs_exists (original_of x)" using Cons.prems(6) by (simp add: r)
    then obtain b where b: "get x ''backup_path'' = PStr b" using Cons.prems(3) [of x] by auto
    have "has_backup x ?s1"
      by (rule backup_file_done [OF y p _ b]) (use Cons.prems(6) r in simp)
    then obtain bs where bs: "kept {} {(path_of b, bs)} ?s1" "sha256_hex bs = fs_hash (original_of x)"
      unfolding has_backup_def using b by (auto simp: kept_def)
    have "stable {} {(path_of b, bs)} (imap backup_file rs)"
    proof (intro stable_imap stable_backup_file)
      fix z c assume "z \<in> set rs" "get z ''backup_path'' = PStr c"
      then have "PStr c \<in> set (map (\<lambda>r. get r ''backup_path'') rs)" by force
      then have "c \<in> set (strs_of (map (\<lambda>r. get r ''backup_path'') rs))" by (rule strs_of_member)
      then have c: "path_of c \<in> set (map path_of (strs_of (map (\<lambda>r. get r ''backup_path'') rs)))" by simp
      have "path_of b \<notin> set (map path_of (strs_of (map (\<lambda>r. get r ''backup_path'') rs)))"
        using Cons.prems(4) by (simp add: b)
      with c have "path_of c \<noteq> path_of b" by metis
      then show "path_of c \<notin> fst ` {(path_of b, bs)}" by simp
    qed
    from stable_final [OF this bs(1)] show ?thesis
      unfolding f r has_backup_def using bs(2) b by (auto simp: kept_def)
  qed
qed simp

lemma numbered_distinct:
  assumes "numbered i rs"
  shows "distinct (map path_of (strs_of (map (\<lambda>r. get r ''backup_path'') rs)))"
    and "\<And>p. p \<in> set (map path_of (strs_of (map (\<lambda>r. get r ''backup_path'') rs))) \<Longrightarrow>
      \<exists>k < length rs. p = path_of (backup_path i k)"
proof -
  have "distinct (map path_of (strs_of (map (\<lambda>r. get r ''backup_path'') rs))) \<and>
      (\<forall>p \<in> set (map path_of (strs_of (map (\<lambda>r. get r ''backup_path'') rs))). \<exists>k < length rs. p = path_of (backup_path i k))"
    using assms
  proof (induction rs rule: rev_induct)
    case (snoc r rs)
    have n: "numbered i rs" using snoc.prems by (auto simp: numbered_def nth_append split: if_splits)
    have b: "get r ''backup_path'' = (if fs_exists (original_of r) then PStr (backup_path i (length rs)) else PNone)"
      using snoc.prems by (auto simp: numbered_def dest: spec [of _ "length rs"])
    have app: "strs_of (xs @ [v]) = strs_of xs @ strs_of [v]" for xs v
      by (induction xs rule: strs_of.induct) simp_all
    have ne: "path_of (backup_path i (length rs)) \<noteq> path_of (backup_path i k)" if "k < length rs" for k
      using that backup_name_inj by (auto simp: path_of_backup)
    define ps where "ps = map path_of (strs_of (map (\<lambda>r. get r ''backup_path'') rs))"
    have old: "distinct ps" "\<forall>p \<in> set ps. \<exists>k < length rs. p = path_of (backup_path i k)"
      using snoc.IH [OF n] unfolding ps_def by blast+
    have new: "map path_of (strs_of (map (\<lambda>r. get r ''backup_path'') (rs @ [r]))) =
        ps @ (if fs_exists (original_of r) then [path_of (backup_path i (length rs))] else [])"
      by (simp add: app b ps_def)
    have "path_of (backup_path i (length rs)) \<notin> set ps"
    proof
      assume "path_of (backup_path i (length rs)) \<in> set ps"
      with old(2) obtain k where "k < length rs" "path_of (backup_path i (length rs)) = path_of (backup_path i k)" by blast
      with ne show False by metis
    qed
    moreover have "\<exists>k < length (rs @ [r]). p = path_of (backup_path i k)" if "p \<in> set ps" for p
      using bspec [OF old(2) that] by (auto intro: less_SucI)
    moreover have "\<exists>k < length (rs @ [r]). path_of (backup_path i (length rs)) = path_of (backup_path i k)" by auto
    ultimately show ?case unfolding new using old(1) by (cases "fs_exists (original_of r)") auto
  qed simp
  then show "distinct (map path_of (strs_of (map (\<lambda>r. get r ''backup_path'') rs)))"
    and "\<And>p. p \<in> set (map path_of (strs_of (map (\<lambda>r. get r ''backup_path'') rs))) \<Longrightarrow>
      \<exists>k < length rs. p = path_of (backup_path i k)" by blast+
qed

lemma numbered_snoc:
  assumes "numbered i rs" and "valid_file_state e" and "valid_file_state c"
  shows "numbered i (rs @ [file_record p e c content (if \<not> fs_exists e then PNone else PStr (backup_path i (length rs)))])"
proof -
  let ?r = "file_record p e c content (if \<not> fs_exists e then PNone else PStr (backup_path i (length rs)))"
  have r: "record_states ?r = Inr (e, c)" by (rule file_record_states [OF assms(2,3)])
  have "lookup ?r ''candidate_content_utf8'' = Inr content" by (simp add: file_record_def lookup_def)
  moreover have "original_of ?r = e" using record_states_Inr [OF r] by simp
  ultimately show ?thesis using assms(1) r by (auto simp: numbered_def nth_append file_record_fields less_Suc_eq)
qed

lemma add_file_record_numbered:
  assumes "add_file_record i cs records raw = Inr records'" and "\<And>p c. map_of cs p = Some c \<Longrightarrow> valid_file_state c"
    and "numbered i records"
  shows "numbered i records'"
proof -
  obtain d where d: "as_mapping recovery_required raw = Inr d" using assms(1) by (auto simp: add_file_record_def bnd_Inr_iff)
  show ?thesis
  proof (cases "get d ''kind'' = PStr ''file'' \<and> map_of cs (py_str (get d ''path'')) \<noteq> None")
    case False
    then have "records' = records"
      using assms(1) d by (cases "map_of cs (py_str (get d ''path''))") (auto simp: add_file_record_def Let_def split: if_splits)
    then show ?thesis using assms(3) by simp
  next
    case True
    then obtain c where c: "map_of cs (py_str (get d ''path'')) = Some c" and k: "get d ''kind'' = PStr ''file''" by blast
    let ?content = "get d ''candidate_content_utf8''"
    have "bnd (as_mapping recovery_required (get d ''ownership_decision'')) (\<lambda>decision.
            bnd (bnd (as_mapping recovery_required (get decision ''observed_file_state'')) file_state_from_document) (\<lambda>original.
            if ?content \<noteq> PNone \<and> \<not> is_pystr ?content then Inl recovery_required
            else Inr (records @ [file_record (py_str (get d ''path'')) original c ?content
              (if \<not> fs_exists original then PNone else PStr (backup_path i (length records)))]))) = Inr records'"
      using assms(1) k c unfolding add_file_record_def d by (simp add: Let_def)
    then obtain x e where e: "file_state_from_document x = Inr e"
        "records' = records @ [file_record (py_str (get d ''path'')) e c ?content
          (if \<not> fs_exists e then PNone else PStr (backup_path i (length records)))]"
      by (simp only: bnd_Inr_iff if_Inl_Inr_iff sum.inject) blast
    show ?thesis
      unfolding e(2) by (rule numbered_snoc [OF assms(3) file_state_accepted_valid [OF e(1)] assms(2) [OF c]])
  qed
qed

lemma init_record_numbered:
  assumes "init_file_record p document = Inr r" and "canonical_path p" and "numbered i rs"
  shows "numbered i (rs @ [r])"
proof -
  obtain payload content where "r = file_record p (absent_state p) (regular_state p (sha256_hex payload) ''0600'') (PStr content) PNone"
    using assms(1) unfolding init_file_record_def by (auto simp: bnd_Inr_iff split: option.splits)
  moreover have "valid_file_state (absent_state p)" "valid_file_state (regular_state p (sha256_hex payload) ''0600'')" for payload
    using assms(2) by (simp_all add: valid_file_state_def absent_state_def regular_state_def mode_0600 sha256_hex_is_sha256)
  moreover have "\<not> fs_exists (absent_state p)" by (simp add: absent_state_def)
  ultimately show ?thesis using numbered_snoc [OF assms(3), of "absent_state p"] by simp
qed

lemma file_records_numbered:
  assumes "file_records envelope m layout = Inr records"
  shows "numbered (planned_id envelope) records"
proof -
  obtain t where t: "lookup (se_plan_core envelope) ''transaction_id'' = Inr t" "planned_id envelope = py_str t"
    by (rule planned_facts [OF assms])
  obtain cs ps base where cs: "candidate_state_map (se_plan_core envelope) = Inr cs"
    and base: "foldr_res (add_file_record (py_str t) cs) [] ps = Inr base"
    and rest: "(if se_operation envelope \<noteq> ''init'' then Inr base
     else bnd (lookup (se_plan_core envelope) ''candidate_workspace_instance_id'') (\<lambda>workspace_id.
       bnd (lookup (se_plan_core envelope) ''empty_replay_ledger_candidate_digest'') (\<lambda>replay_digest.
       bnd (build_first_init_local_state m layout (py_str workspace_id) (py_str replay_digest))
         (\<lambda>(workspace, replay).
       bnd (init_file_record ''.agent-workflow/local/workspace.json'' workspace) (\<lambda>r1.
       bnd (init_file_record ''.agent-workflow/local/approval-replay.json'' replay) (\<lambda>r2.
       Inr (base @ [r1, r2]))))))) = Inr records"
    using assms(1) unfolding file_records_def Let_def t bnd.simps
    by (subst (asm) bnd_Inr_iff, elim exE conjE, subst (asm) bnd_Inr_iff, elim exE conjE, subst (asm) bnd_Inr_iff,
        elim exE conjE) (rule that)
  have b: "numbered (py_str t) base"
    by (rule foldr_res_inv [OF base, where I = "numbered (py_str t)"])
      (simp add: numbered_def, rule add_file_record_numbered, assumption, rule candidate_map_valid [OF cs], assumption+)
  show ?thesis
  proof (cases "se_operation envelope = ''init''")
    case False
    with rest b show ?thesis by (simp add: t)
  next
    case True
    then obtain w r1 r2 rep where r: "init_file_record ''.agent-workflow/local/workspace.json'' w = Inr r1"
        "init_file_record ''.agent-workflow/local/approval-replay.json'' rep = Inr r2" "records = (base @ [r1]) @ [r2]"
      using rest by (auto simp: bnd_Inr_iff)
    have c: "canonical_path ''.agent-workflow/local/workspace.json''" "canonical_path ''.agent-workflow/local/approval-replay.json''"
      by (simp_all add: canonical_path_def windows_drive_def ord_def)
    show ?thesis
      unfolding r(3) t by (rule init_record_numbered [OF r(2) c(2) init_record_numbered [OF r(1) c(1) b]])
  qed
qed

section \<open>From the preparation to the swaps\<close>

text \<open>
  What a plan and a tree must be: every original is there, the files of the plan lie apart from each
  other and from the files of the controller, and the planned bytes are those of the candidates.
\<close>

definition ready :: "string \<Rightarrow> dict list \<Rightarrow> fs \<Rightarrow> bool" where
  "ready i records s = (distinct (map (\<lambda>r. target_of (original_of r)) records) \<and>
     (\<forall>r \<in> set records. holds (original_of r) s \<and> fs_path (candidate_of r) = fs_path (original_of r) \<and>
       fs_type (original_of r) \<noteq> ''directory'' \<and> (fs_exists (original_of r) \<or> fs_block (original_of r) = CANONICAL_NULL) \<and>
       (\<exists>k. candidate_content r = Inr k \<and> good_candidate (candidate_of r) k) \<and>
       (fs_exists (candidate_of r) \<or> dirs_above s (target_of (original_of r))) \<and>
       \<not> temp_name (target_of (original_of r)) \<and> target_of (original_of r) \<notin> control_area i \<and>
       set (ancestors (target_of (original_of r))) \<inter> control_area i \<subseteq> {control_dir} \<and>
       (\<forall>r' \<in> set records. target_of (original_of r') \<notin> set (ancestors (target_of (original_of r))))) \<and>
     is_dir s control_dir)"

lemma readyD:
  assumes "ready i records s" and "r \<in> set records"
  shows "holds (original_of r) s" and "fs_path (candidate_of r) = fs_path (original_of r)"
    and "fs_exists (original_of r) \<or> fs_block (original_of r) = CANONICAL_NULL"
    and "\<exists>k. candidate_content r = Inr k \<and> good_candidate (candidate_of r) k"
    and "fs_exists (candidate_of r) \<or> dirs_above s (target_of (original_of r))"
    and "\<not> temp_name (target_of (original_of r))" and "target_of (original_of r) \<notin> control_area i"
    and "set (ancestors (target_of (original_of r))) \<inter> control_area i \<subseteq> {control_dir}"
    and "r' \<in> set records \<Longrightarrow> target_of (original_of r') \<notin> set (ancestors (target_of (original_of r)))"
    and "fs_type (original_of r) \<noteq> ''directory''"
  using assms unfolding ready_def by blast+

text \<open>The directories of the plan and those the tree has already.\<close>

lemma missing_or_there:
  assumes "missing_ancestors s r = Inr ds" and "record_states r = Inr p" and "fs_exists (candidate_of r)"
    and "q \<in> set (ancestors (target_of (candidate_of r)))"
  shows "is_dir s q \<or> q \<in> path_of ` set ds"
proof -
  have c: "bnd (as_mapping recovery_required (get r ''candidate_state'')) file_state_from_document = Inr (candidate_of r)"
    using assms(2) unfolding record_states_def candidate_of_def states_of_def
    by (auto simp: bnd_Inr_iff lookup_def get_def record_states_def split: option.splits)
  have sub: "rs = qs \<and> (\<forall>q \<in> set qs. \<not> b q)"
    if "mapr (\<lambda>q. if b q then Inl e else Inr q) qs = Inr rs" for b e and qs rs :: "path list"
    using that by (induction qs arbitrary: rs) (auto simp: bnd_Inr_iff split: if_splits)
  obtain qs where qs: "mapr (\<lambda>q. if is_symlink s q \<or> (path_exists s q \<and> \<not> is_dir s q) then Inl cas_mismatch else Inr q)
      (ancestors (target_of (candidate_of r))) = Inr qs" "ds = map path_text (filter (\<lambda>q. \<not> path_exists s q) qs)"
    using assms(1,3) unfolding missing_ancestors_def c by (auto simp: bnd_Inr_iff)
  have q: "q \<in> set qs" "\<not> (is_symlink s q \<or> (path_exists s q \<and> \<not> is_dir s q))"
    using sub [OF qs(1)] assms(4) by blast+
  show ?thesis
  proof (cases "path_exists s q")
    case False
    have "q \<noteq> []" "q = take (length q) (target_of (candidate_of r))" using ancestors_shorter [OF assms(4)] by auto
    then have "path_of (path_text q) = q"
      using path_of_member by (intro path_of_segments) (metis in_set_takeD)+
    moreover have "path_text q \<in> set ds" using q(1) False by (simp add: qs(2))
    ultimately show ?thesis by force
  qed (use q in simp)
qed

lemma directories_ready:
  assumes "created_directories s records = Inr ds" and "ready i records s" and "numbered i records" and "r \<in> set records"
    and "q \<in> set (ancestors (target_of (original_of r)))"
  shows "is_dir s q \<or> q \<in> path_of ` set ds"
proof (cases "fs_exists (candidate_of r)")
  case False
  then show ?thesis using readyD(5) [OF assms(2,4)] assms(5) by (simp add: dirs_above_def list_all_iff)
next
  case True
  obtain found where found: "mapr (missing_ancestors s) records = Inr found"
      "ds = sort_key (\<lambda>p. (slash_count p, p)) (remdups (concat found))"
    using assms(1) by (auto simp: created_directories_def bnd_Inr_iff)
  obtain p where p: "record_states r = Inr p" using assms(3,4) by (auto simp: numbered_def in_set_conv_nth)
  have "\<exists>xs. missing_ancestors s r = Inr xs \<and> set xs \<subseteq> set (concat found)"
    if "mapr (missing_ancestors s) rs = Inr found" "r \<in> set rs" for rs found
    using that
  proof (induction rs arbitrary: found)
    case (Cons x rs)
    then obtain f fs where f: "missing_ancestors s x = Inr f" "mapr (missing_ancestors s) rs = Inr fs" "found = f # fs"
      by (auto simp: bnd_Inr_iff)
    show ?case using Cons.IH [OF f(2)] Cons.prems(2) f(1,3) by auto
  qed simp
  from this [OF found(1) assms(4)] obtain xs where xs: "missing_ancestors s r = Inr xs" "set xs \<subseteq> set (concat found)" by blast
  have "target_of (candidate_of r) = target_of (original_of r)" using readyD(2) [OF assms(2,4)] by simp
  with missing_or_there [OF xs(1) p True] assms(5) have "is_dir s q \<or> q \<in> path_of ` set xs" by metis
  then show ?thesis using xs(2) by (auto simp: found(2))
qed

end
