(* ===== verification/Crash_Recovery.thy ===== *)
theory Crash_Recovery
  imports Preparation
begin

text \<open>
  The recovery of the files of a transaction: whatever point its file part was interrupted at, the loop
  of the rollback and the loop of a resume bring every file to where it belongs.
\<close>

section \<open>Before the swaps\<close>

text \<open>Outside of \<open>A\<close> the tree is as it was, and of the directories in \<open>E\<close> some were created.\<close>

definition still :: "path set \<Rightarrow> path set \<Rightarrow> fs \<Rightarrow> fs \<Rightarrow> bool" where
  "still A E s u = ((\<forall>p. p \<notin> A \<longrightarrow> node_at u p = node_at s p) \<and> (\<forall>q \<in> E. node_at u q = node_at s q \<or> is_dir u q))"

lemma still_refl [simp]: "still A E s s"
  by (simp add: still_def)

lemma still_trans: "still A E s v \<Longrightarrow> still A E v u \<Longrightarrow> still A E s u"
  unfolding still_def is_dir_def by metis

lemma still_dir: "still A E s u \<Longrightarrow> q \<in> E \<Longrightarrow> is_dir s q \<Longrightarrow> is_dir u q"
  by (auto simp: still_def is_dir_def)

text \<open>What the files of a plan stand on.\<close>

definition dirs_of :: "dict list \<Rightarrow> path set" where
  "dirs_of records = (\<Union>r \<in> set records. set (ancestors (target_of (original_of r))))"

definition prelude_area :: "string \<Rightarrow> string list \<Rightarrow> path set" where
  "prelude_area i ds = control_area i \<union> path_of ` set ds"

definition before_swaps :: "string \<Rightarrow> dict list \<Rightarrow> string list \<Rightarrow> fs \<Rightarrow> fs \<Rightarrow> bool" where
  "before_swaps i records ds s u = (still (prelude_area i ds) (dirs_of records) s u \<and> is_dir u control_dir)"

lemma control_step:
  assumes "ready i records s" and "before_swaps i records ds s v" and "modifies P m" and "P \<subseteq> control_area i"
    and "stable {control_dir} {} m" and "u \<in> set (states m v)"
  shows "before_swaps i records ds s u"
proof -
  have d: "is_dir u control_dir"
    using stableD [OF assms(5) _ assms(6)] assms(2) by (simp add: kept_def before_swaps_def)
  have "still (prelude_area i ds) (dirs_of records) v u"
    unfolding still_def
  proof (intro conjI allI ballI impI)
    fix p assume "p \<notin> prelude_area i ds"
    then show "node_at u p = node_at v p"
      using assms(4) by (intro modifiesD [OF assms(3,6)]) (auto simp: prelude_area_def)
  next
    fix q assume "q \<in> dirs_of records"
    then obtain r where r: "r \<in> set records" "q \<in> set (ancestors (target_of (original_of r)))" by (auto simp: dirs_of_def)
    show "node_at u q = node_at v q \<or> is_dir u q"
    proof (cases "q \<in> P")
      case True
      then have "q = control_dir" using readyD(8) [OF assms(1) r(1)] r(2) assms(4) by blast
      with d show ?thesis by simp
    qed (use modifiesD [OF assms(3,6)] in simp)
  qed
  with still_trans assms(2) d show ?thesis unfolding before_swaps_def by blast
qed

lemma mkdir_step:
  assumes "before_swaps i records ds s v" and "u \<in> set (states (iforeach (\<lambda>d. mkdir (path_of d) m) ds) v)"
  shows "before_swaps i records ds s u"
proof -
  have "is_dir u control_dir"
    using stableD [of "{control_dir}" "{}" "iforeach (\<lambda>d. mkdir (path_of d) m) ds" v u] assms
    by (auto simp: kept_def before_swaps_def intro: stable_intros)
  moreover have "\<forall>u \<in> set (states (imap (\<lambda>d. mkdir (path_of d) m) ds) v). still (prelude_area i ds) (dirs_of records) v u"
  proof (rule conjunct1 [OF imap_invariant [where I = "still (prelude_area i ds) (dirs_of records) v"]], goal_cases)
    case (2 d w)
    have "still (prelude_area i ds) (dirs_of records) w x" if x: "x \<in> set (states (mkdir (path_of d) m) w)" for x
      using x 2(1) by (auto simp: states_istep mkdir_fs_def still_def prelude_area_def node_at_def is_dir_def split: sum.splits if_splits)
    then show ?case using 2(2) still_trans final_in_states by blast
  qed simp_all
  ultimately show ?thesis using assms still_trans unfolding before_swaps_def iforeach_run by blast
qed

text \<open>The originals are there until the swaps start.\<close>

lemma ready_targets:
  assumes "ready i records s" and "numbered i records" and "created_directories s records = Inr ds" and "r \<in> set records"
  shows "target_of (original_of r) \<notin> prelude_area i ds"
proof -
  have "\<exists>p. record_states r = Inr p" if "r \<in> set records" for r
    using assms(2) that by (auto simp: numbered_def in_set_conv_nth)
  note below = created_directories_below [OF assms(3) this]
  have "target_of (original_of r) \<notin> path_of ` set ds"
  proof
    assume "target_of (original_of r) \<in> path_of ` set ds"
    then obtain r' where r': "r' \<in> set records" "target_of (original_of r) \<in> set (ancestors (target_of (candidate_of r')))"
      using below by blast
    have "target_of (candidate_of r') = target_of (original_of r')" using readyD(2) [OF assms(1) r'(1)] by simp
    then show False using readyD(9) [OF assms(1) r'(1) assms(4)] r'(2) by metis
  qed
  then show ?thesis using readyD(7) [OF assms(1,4)] by (simp add: prelude_area_def)
qed

lemma before_swaps_holds:
  assumes "ready i records s" and "numbered i records" and "created_directories s records = Inr ds"
    and "before_swaps i records ds s u" and "r \<in> set records"
  shows "holds (original_of r) u"
proof -
  have h: "holds (original_of r) s" by (rule readyD(1) [OF assms(1,5)])
  have n: "node_at u (target_of (original_of r)) = node_at s (target_of (original_of r))"
    using assms(4) ready_targets [OF assms(1-3,5)] by (simp add: before_swaps_def still_def)
  have "\<not> is_symlink u q \<and> (path_exists u q \<longrightarrow> is_dir u q)" if q: "q \<in> set (ancestors (target_of (original_of r)))" for q
  proof -
    have old: "\<not> is_symlink s q \<and> (path_exists s q \<longrightarrow> is_dir s q)"
      using h q by (simp add: holds_def reachable_parents_def list_all_iff)
    have "q \<in> dirs_of records" using q assms(5) by (auto simp: dirs_of_def)
    then have "node_at u q = node_at s q \<or> is_dir u q" using assms(4) by (simp add: before_swaps_def still_def)
    then show ?thesis using old by (auto simp: is_symlink_def path_exists_def is_dir_def split: option.splits node.splits)
  qed
  then have "reachable_parents u (target_of (original_of r))" by (simp add: reachable_parents_def list_all_iff)
  then show ?thesis using h n by (simp add: holds_def)
qed

section \<open>Files that can be brought either way\<close>

definition recoverable :: "dict list \<Rightarrow> fs \<Rightarrow> bool" where
  "recoverable records s = (separate (\<lambda>r. target_of (original_of r)) backup_source records \<and>
     (\<forall>r \<in> set records. settleable original_of candidate_of rollback_content r s \<and>
       settleable candidate_of original_of resume_content r s))"

lemma prepared_recoverable: "prepared records s \<Longrightarrow> recoverable records s"
  by (simp add: prepared_def recoverable_def)

lemma crash_recoverable:
  assumes "prepared records s" and "u \<in> set (states (apply_file_records rnd records) s)"
  shows "recoverable records u"
  using apply_crash_settleable [OF assms] prepared_separate(2) [OF assms(1)] by (simp add: recoverable_def)

text \<open>What the controller writes beside the files does not disturb them.\<close>

lemma settleable_frame:
  assumes "settleable goal other content r s" and "node_at u (target_of (goal r)) = node_at s (target_of (goal r))"
    and "dirs_above s (target_of (goal r)) \<Longrightarrow> dirs_above u (target_of (goal r))" and "content r u = content r s"
  shows "settleable goal other content r u"
proof -
  have d: "dirs_above u (target_of (goal r))" using assms(1,3) by (simp add: settleable_def)
  have "holds x u" if "holds x s" "fs_path x = fs_path (goal r)" for x
    using that assms(2) dirs_above_reachable [OF d] by (simp add: holds_def)
  then show ?thesis using assms(1,4) d unfolding settleable_def by auto
qed

definition backup_bytes :: "dict list \<Rightarrow> fs \<Rightarrow> (path \<times> byte list) set" where
  "backup_bytes records s = {(p, bs). (\<exists>r \<in> set records. fs_exists (original_of r) \<and> p \<in> backup_source r) \<and>
     (\<exists>m. node_at s p = Some (File bs m))}"

lemma numbered_record:
  assumes "numbered i records" and "r \<in> set records"
  obtains k p v where "record_states r = Inr p" and "lookup r ''candidate_content_utf8'' = Inr v"
    and "get r ''backup_path'' = (if fs_exists (original_of r) then PStr (backup_path i k) else PNone)"
proof -
  from assms(2) have "\<exists>k < length records. records ! k = r" by (simp only: in_set_conv_nth)
  then obtain k where k: "k < length records" "records ! k = r" by blast
  then show thesis using assms(1) that unfolding numbered_def by metis
qed

lemma numbered_source:
  assumes "numbered i records" and "r \<in> set records" and "p \<in> backup_source r"
  obtains k where "p = path_of (backup_path i k)"
proof -
  obtain k where "get r ''backup_path'' = (if fs_exists (original_of r) then PStr (backup_path i k) else PNone)"
    by (rule numbered_record [OF assms(1,2)])
  then show thesis using that assms(3) by (simp add: backup_source_def split: if_splits)
qed

lemma backup_bytes_backups: "numbered i records \<Longrightarrow> backups i (backup_bytes records s)"
  unfolding backups_def
proof
  fix p assume n: "numbered i records" and "p \<in> fst ` backup_bytes records s"
  then obtain r where "r \<in> set records" "p \<in> backup_source r" by (auto simp: backup_bytes_def)
  from numbered_source [OF n this] show "\<exists>k. p = path_of (backup_path i k)" by blast
qed

lemma rollback_content_kept:
  assumes "kept D (backup_bytes records s) u" and "r \<in> set records" and "rollback_content r s = Inr k"
  shows "rollback_content r u = rollback_content r s"
proof (cases "fs_exists (original_of r)")
  case True
  then obtain b where b: "get r ''backup_path'' = PStr b" "backup_source r = {path_of b}"
    using assms(3) by (auto simp: rollback_content_def backup_content_def as_str_def bnd_Inr_iff backup_source_def
        split: pyval.splits)
  obtain bs m where n: "node_at s (path_of b) = Some (File bs m)"
    using assms(3) True b(1) by (auto simp: rollback_content_def backup_content_def as_str_def split: option.splits node.splits)
  then have "(path_of b, bs) \<in> backup_bytes records s" using True b(2) assms(2) by (auto simp: backup_bytes_def)
  then obtain m' where "node_at u (path_of b) = Some (File bs m')" using assms(1) by (auto simp: kept_def)
  with n b(1) show ?thesis by (simp add: rollback_content_def backup_content_def as_str_def)
qed (simp add: rollback_content_def backup_content_def)

lemma frame_facts:
  assumes "\<And>D F. backups i F \<Longrightarrow> stable D F m" and "numbered i records" and "u \<in> set (states m v)"
  shows "dirs_above v t \<Longrightarrow> dirs_above u t"
    and "r \<in> set records \<Longrightarrow> rollback_content r v = Inr k \<Longrightarrow> rollback_content r u = rollback_content r v"
proof -
  note F = backup_bytes_backups [OF assms(2), of v]
  show "dirs_above v t \<Longrightarrow> dirs_above u t"
    using stableD [OF assms(1) [OF F] _ assms(3), of "{q \<in> set (ancestors t). is_dir v q}"]
    by (auto simp: dirs_above_def list_all_iff kept_def backup_bytes_def)
  have "kept {} (backup_bytes records v) v" by (auto simp: kept_def backup_bytes_def)
  from stableD [OF assms(1) [OF F] this assms(3)]
  show "r \<in> set records \<Longrightarrow> rollback_content r v = Inr k \<Longrightarrow> rollback_content r u = rollback_content r v"
    by (rule rollback_content_kept)
qed

lemma settleable_content: "settleable goal other content r s \<Longrightarrow> \<exists>k. content r s = Inr k"
  unfolding settleable_def by blast

lemma controller_step:
  assumes "\<And>D F. backups i F \<Longrightarrow> stable D F m" and "numbered i records" and "modifies P m"
    and "\<And>r. r \<in> set records \<Longrightarrow> target_of (original_of r) \<notin> P" and "u \<in> set (states m v)"
    and "\<And>r. r \<in> set records \<Longrightarrow> fs_path (candidate_of r) = fs_path (original_of r)"
  shows "recoverable records v \<Longrightarrow> recoverable records u"
    and "prepared records v \<Longrightarrow> prepared records u"
proof -
  have ff1: "dirs_above v t \<Longrightarrow> dirs_above u t" for t
    by (rule frame_facts(1) [of i m records u v]) (use assms(1,2,5) in blast)+
  have ff2: "rollback_content r v = Inr k \<Longrightarrow> rollback_content r u = rollback_content r v" if "r \<in> set records" for r k
    by (rule frame_facts(2) [of i m records u v]) (use assms(1,2,5) that in blast)+
  have n: "node_at u (target_of (original_of r)) = node_at v (target_of (original_of r))"
      "node_at u (target_of (candidate_of r)) = node_at v (target_of (candidate_of r))" if "r \<in> set records" for r
    using modifiesD [OF assms(3,5) assms(4) [OF that]] by (simp_all add: assms(6) [OF that])
  have undone: "settleable original_of candidate_of rollback_content r u"
    if r: "r \<in> set records" and s: "settleable original_of candidate_of rollback_content r v" for r
    using settleable_content [OF s] ff2 [OF r] by (intro settleable_frame [OF s n(1) [OF r] ff1]) auto
  have forth: "settleable candidate_of original_of resume_content r u"
    if r: "r \<in> set records" and s: "settleable candidate_of original_of resume_content r v" for r
    by (intro settleable_frame [OF s n(2) [OF r] ff1]) (auto simp: resume_content_def)
  have once: "settleable candidate_of original_of apply_content r u"
    if r: "r \<in> set records" and s: "settleable candidate_of original_of apply_content r v" for r
    by (intro settleable_frame [OF s n(2) [OF r] ff1]) (auto simp: apply_content_def)
  show "recoverable records v \<Longrightarrow> recoverable records u"
    using undone forth unfolding recoverable_def by blast
  have "holds (original_of r) u" if r: "r \<in> set records" and p: "prepared records v" for r
  proof -
    have "dirs_above u (target_of (original_of r))"
      by (rule ff1 [OF settleable_facts(3) [OF prepared_record(4) [OF p r]]])
    then show ?thesis using prepared_record(1) [OF p r] n(1) [OF r] dirs_above_reachable by (simp add: holds_def)
  qed
  then show "prepared records v \<Longrightarrow> prepared records u"
    using undone forth once unfolding prepared_def by blast
qed

section \<open>The preparation\<close>

text \<open>Once the preparation has ended, the files can be swapped in either direction.\<close>

lemma good_original:
  assumes "describes e n" and "fs_exists e \<or> fs_block e = CANONICAL_NULL" and "fs_exists e \<longrightarrow> fs_hash e = sha256_hex bs"
  shows "good_candidate e (if fs_exists e then Some bs else None)" and "fs_type e \<noteq> ''directory''"
proof -
  have "sha256_hex bs \<noteq> CANONICAL_NULL"
  proof
    assume "sha256_hex bs = CANONICAL_NULL"
    then have "is_sha256 CANONICAL_NULL" using sha256_hex_is_sha256 [of bs] by simp
    then show False by (simp add: is_sha256_def CANONICAL_NULL_def)
  qed
  then show "good_candidate e (if fs_exists e then Some bs else None)" "fs_type e \<noteq> ''directory''"
    using assms by (auto simp: describes_def good_candidate_def split: option.splits node.splits)
qed

lemma backup_in_journal_area: "path_of (backup_path i k) \<in> journal_area"
  by (simp only: backup_path_def path_of_agent journal_area_def) (simp add: below_def)

lemma record_settleable:
  assumes "ready i records s" and "numbered i records" and "r \<in> set records"
    and "dirs_above u (target_of (original_of r))" and "holds (original_of r) u"
    and "fs_exists (original_of r) \<Longrightarrow> has_backup r u"
  shows "settleable candidate_of original_of apply_content r u" and "settleable candidate_of original_of resume_content r u"
    and "settleable original_of candidate_of rollback_content r u"
proof -
  have eq: "fs_path (candidate_of r) = fs_path (original_of r)" by (rule readyD(2) [OF assms(1,3)])
  obtain k where k: "candidate_content r = Inr k" "good_candidate (candidate_of r) k" using readyD(4) [OF assms(1,3)] by blast
  have c: "fs_type (candidate_of r) \<noteq> ''directory''" using k(2) by (auto simp: good_candidate_def split: option.splits)
  obtain bs where bs: "rollback_content r u = Inr (if fs_exists (original_of r) then Some bs else None)"
      "fs_exists (original_of r) \<longrightarrow> fs_hash (original_of r) = sha256_hex bs"
  proof (cases "fs_exists (original_of r)")
    case True
    then show thesis using assms(6) that
      by (auto simp: has_backup_def rollback_content_def backup_content_def as_str_def)
  qed (use that in \<open>simp add: rollback_content_def backup_content_def\<close>)
  have d: "describes (original_of r) (node_at u (target_of (original_of r)))" "canonical_path (fs_path (original_of r))"
    using assms(5) by (simp_all add: holds_def)
  note good = good_original [OF d(1) readyD(3) [OF assms(1,3)] bs(2)]
  have a: "\<exists>k. apply_content r u = Inr k \<and> good_candidate (candidate_of r) k"
  proof -
    obtain raw where "lookup r ''candidate_content_utf8'' = Inr raw" by (rule numbered_record [OF assms(2,3)])
    then show ?thesis using k by (auto simp: apply_content_def candidate_content_def get_def lookup_def content_bytes_def
          split: pyval.splits option.splits)
  qed
  show "settleable candidate_of original_of apply_content r u"
    unfolding settleable_def using a good(2) assms(4,5) d(2) by (simp add: eq)
  show "settleable candidate_of original_of resume_content r u"
    unfolding settleable_def using k good(2) assms(4,5) d(2) by (simp add: eq resume_content_def)
  show "settleable original_of candidate_of rollback_content r u"
    unfolding settleable_def using bs(1) good(1) c assms(4,5) d(2) by (simp add: eq)
qed

lemma prepare_backups_prepared:
  assumes "ready i records s" and "numbered i records" and "created_directories s records = Inr ds"
    and "before_swaps i records ds s v" and "outcome (prepare_backups records ds) v = Inr rs"
    and "before_swaps i records ds s (final (prepare_backups records ds) v)"
  shows "prepared records (final (prepare_backups records ds) v)"
proof -
  let ?mk = "iforeach (\<lambda>d. mkdir (path_of d) 493) ds"
  let ?w = "final ?mk v" and ?u = "final (prepare_backups records ds) v"
  obtain y where y: "outcome ?mk v = Inr y" and rs: "outcome (imap backup_file records) ?w = Inr rs"
    using assms(5) unfolding prepare_backups_def by (auto simp: outcome_ibnd_Inr)
  have u: "?u = final (imap backup_file records) ?w"
    using y unfolding prepare_backups_def by (simp add: final_ibnd)
  have holds_u: "holds (original_of r) ?u" if "r \<in> set records" for r
    by (rule before_swaps_holds [OF assms(1-3,6) that])
  have dirs: "dirs_above ?u (target_of (original_of r))" if r: "r \<in> set records" for r
    unfolding dirs_above_def list_all_iff
  proof
    fix q assume q: "q \<in> set (ancestors (target_of (original_of r)))"
    from directories_ready [OF assms(3,1,2) r q] show "is_dir ?u q"
    proof
      assume "is_dir s q"
      moreover have "q \<in> dirs_of records" using q r by (auto simp: dirs_of_def)
      ultimately show ?thesis using assms(6) still_dir unfolding before_swaps_def by blast
    next
      assume "q \<in> path_of ` set ds"
      then obtain d where d: "d \<in> set ds" "q = path_of d" by blast
      have "kept {q} {} ?w" using created_exist [OF y d(1)] by (simp add: kept_def d(2))
      moreover have "stable {q} {} (imap backup_file records)" by (intro stable_imap stable_backup_file) simp
      ultimately have "kept {q} {} ?u" unfolding u by (rule stable_final [rotated])
      then show ?thesis by (simp add: kept_def)
    qed
  qed
  have bak: "has_backup r ?u" if r: "r \<in> set records" "fs_exists (original_of r)" for r
    unfolding u
  proof (rule backups_done [OF rs _ _ numbered_distinct(1) [OF assms(2)] r])
    fix x assume x: "x \<in> set records"
    from numbered_record [OF assms(2) x] show "\<exists>p. record_states x = Inr p" by blast
    assume "fs_exists (original_of x)"
    with numbered_record [OF assms(2) x] show "\<exists>b. get x ''backup_path'' = PStr b" by (metis (full_types))
  qed
  have sep: "separate (\<lambda>r. target_of (original_of r)) backup_source records"
    unfolding separate_def
  proof (intro conjI ballI)
    show "distinct (map (\<lambda>r. target_of (original_of r)) records)" using assms(1) by (simp add: ready_def)
    fix r assume r: "r \<in> set records"
    show "\<not> temp_name (target_of (original_of r))" by (rule readyD(6) [OF assms(1) r])
    fix p assume "p \<in> backup_source r"
    then obtain k where "p = path_of (backup_path i k)" by (rule numbered_source [OF assms(2) r])
    then show "\<not> temp_name p" by (simp add: backup_not_temp)
  next
    fix r r' assume r: "r \<in> set records" "r' \<in> set records"
    show "target_of (original_of r') \<notin> set (ancestors (target_of (original_of r)))" by (rule readyD(9) [OF assms(1) r])
    show "target_of (original_of r') \<notin> backup_source r"
    proof
      assume "target_of (original_of r') \<in> backup_source r"
      then obtain k where "target_of (original_of r') = path_of (backup_path i k)" by (rule numbered_source [OF assms(2) r(1)])
      then have "target_of (original_of r') \<in> control_area i"
        using backup_in_journal_area control_area_parts(1) by (metis subsetD)
      with readyD(7) [OF assms(1) r(2)] show False by simp
    qed
  qed
  show ?thesis
    unfolding prepared_def
    using sep holds_u record_settleable [OF assms(1,2) _ dirs holds_u bak] by blast
qed

section \<open>The file part of a transaction\<close>

lemma through_always: "always P m I \<Longrightarrow> hoare P m Q \<Longrightarrow> through P m Q I"
  by (simp add: through_def)

lemma through_iret: "(\<And>s. P s \<Longrightarrow> I s \<and> Q x s) \<Longrightarrow> through P (iret x) Q I"
  by (simp add: through_def always_def hoare_def)

lemma through_invariant:
  assumes "\<And>v u. P v \<Longrightarrow> u \<in> set (states m v) \<Longrightarrow> P u" and "\<And>v. P v \<Longrightarrow> I v"
  shows "through P m (\<lambda>_. P) I"
  unfolding through_def always_def hoare_def using assms final_in_states by blast

lemma same_record_paths:
  assumes "same_record r r'"
  shows "original_of r' = original_of r" "candidate_of r' = candidate_of r" "backup_source r' = backup_source r"
    "rollback_content r' = rollback_content r" "resume_content r' = resume_content r"
    "apply_content r' = apply_content r"
proof -
  show o: "original_of r' = original_of r" "candidate_of r' = candidate_of r"
    using assms by (simp_all add: same_record_def original_of_def candidate_of_def states_of_def)
  show "backup_source r' = backup_source r" "rollback_content r' = rollback_content r" "resume_content r' = resume_content r"
    using assms by (auto simp: same_record_def backup_source_def rollback_content_def backup_content_def resume_content_def
        candidate_content_def o)
  show "apply_content r' = apply_content r"
    using assms by (simp add: same_record_def apply_content_def fun_eq_iff)
qed

lemma separate_same:
  assumes "list_all2 same_record rs rs'"
  shows "separate (\<lambda>r. target_of (original_of r)) backup_source rs' = separate (\<lambda>r. target_of (original_of r)) backup_source rs"
proof -
  have t: "map (\<lambda>r. target_of (original_of r)) rs' = map (\<lambda>r. target_of (original_of r)) rs"
    by (rule same_records_map [OF assms]) (simp add: same_record_paths)
  have p: "map (\<lambda>r. (target_of (original_of r), backup_source r)) rs' = map (\<lambda>r. (target_of (original_of r), backup_source r)) rs"
    by (rule same_records_map [OF assms]) (simp add: same_record_paths)
  have "separate (\<lambda>r. target_of (original_of r)) backup_source xs = (distinct (map (\<lambda>r. target_of (original_of r)) xs) \<and>
     (\<forall>(t, S) \<in> set (map (\<lambda>r. (target_of (original_of r), backup_source r)) xs). \<not> temp_name t \<and> (\<forall>p \<in> S. \<not> temp_name p) \<and>
       (\<forall>t' \<in> set (map (\<lambda>r. target_of (original_of r)) xs). t' \<notin> set (ancestors t) \<and> t' \<notin> S)))" for xs
    by (simp add: separate_def)
  note by_maps = this
  show ?thesis by (simp only: by_maps t p)
qed

lemma settleable_same:
  assumes "same_record r r'"
  shows "settleable original_of candidate_of rollback_content r' s = settleable original_of candidate_of rollback_content r s"
    and "settleable candidate_of original_of resume_content r' s = settleable candidate_of original_of resume_content r s"
    and "settleable candidate_of original_of apply_content r' s = settleable candidate_of original_of apply_content r s"
  using same_record_paths [OF assms] by (simp_all add: settleable_def)

lemma list_all2_members: "list_all2 R xs ys \<Longrightarrow> y \<in> set ys \<Longrightarrow> \<exists>x \<in> set xs. R x y"
  by (induction xs ys rule: list_all2_induct) auto

lemma recoverable_same:
  assumes "list_all2 same_record rs rs'" and "recoverable rs s"
  shows "recoverable rs' s"
  unfolding recoverable_def
proof (intro conjI ballI)
  show "separate (\<lambda>r. target_of (original_of r)) backup_source rs'"
    using assms(2) separate_same [OF assms(1)] by (simp add: recoverable_def)
  fix r' assume "r' \<in> set rs'"
  then obtain r where r: "r \<in> set rs" "same_record r r'" using list_all2_members [OF assms(1)] by blast
  show "settleable original_of candidate_of rollback_content r' s" "settleable candidate_of original_of resume_content r' s"
    using assms(2) r(1) unfolding settleable_same [OF r(2)] recoverable_def by blast+
qed

lemma prepared_same:
  assumes "list_all2 same_record rs rs'" and "prepared rs s"
  shows "prepared rs' s"
  unfolding prepared_def
proof (intro conjI ballI)
  show "separate (\<lambda>r. target_of (original_of r)) backup_source rs'"
    using assms(2) separate_same [OF assms(1)] by (simp add: prepared_def)
  fix r' assume "r' \<in> set rs'"
  then obtain r where r: "r \<in> set rs" "same_record r r'" using list_all2_members [OF assms(1)] by blast
  show "settleable original_of candidate_of rollback_content r' s" "settleable candidate_of original_of resume_content r' s"
    "settleable candidate_of original_of apply_content r' s"
    using assms(2) r(1) unfolding settleable_same [OF r(2)] prepared_def by blast+
  show "holds (original_of r') s"
    using assms(2) r(1) same_record_paths(1) [OF r(2)] by (simp add: prepared_def)
qed

text \<open>
  At every point of the file part either no file was swapped yet, or all can be brought either way.
\<close>

definition midway :: "string \<Rightarrow> dict list \<Rightarrow> string list \<Rightarrow> fs \<Rightarrow> fs \<Rightarrow> bool" where
  "midway i records ds s u = (before_swaps i records ds s u \<or> recoverable records u)"

lemma before_swaps_step:
  assumes "ready i records s" and "modifies P m" and "P \<subseteq> control_area i" and "stable {control_dir} {} m"
  shows "through (before_swaps i records ds s) m (\<lambda>_. before_swaps i records ds s) (midway i records ds s)"
  by (rule through_invariant) (use control_step [OF assms(1) _ assms(2-4)] in \<open>auto simp: midway_def\<close>)

lemma stable_modifies: "modifies P m \<Longrightarrow> P \<inter> D = {} \<Longrightarrow> P \<inter> fst ` F = {} \<Longrightarrow> stable D F m"
  unfolding stable_def
proof (intro allI impI ballI)
  fix s u assume m: "modifies P m" "P \<inter> D = {}" "P \<inter> fst ` F = {}" and k: "kept D F s" and u: "u \<in> set (states m s)"
  have "node_at u p = node_at s p" if "p \<in> D \<union> fst ` F" for p
    by (rule modifiesD [OF m(1) u]) (use m(2,3) that in blast)
  then show "kept D F u" using k unfolding kept_def is_dir_def by force
qed

lemma below_longer: "p \<in> below r \<Longrightarrow> p @ q \<in> below r"
  unfolding below_def by (auto simp: min_def split: if_splits dest!: arg_cong [of _ _ length])

lemma control_dir_apart: "control_dir \<notin> probe_area i"
proof
  assume "control_dir \<in> probe_area i"
  then have "control_dir @ [''manifest.json''] \<in> probe_area i" unfolding probe_area_def by (rule below_longer)
  then have "manifest_path \<in> probe_area i" by (simp add: control_dir_def manifest_path_def)
  with manifest_outside_control show False by blast
qed

lemma prepare_step:
  assumes "ready i records s" and "numbered i records" and "created_directories s records = Inr ds"
    and "\<forall>r \<in> set records. plan_record i r"
  shows "through (before_swaps i records ds s) (prepare_backups records ds)
    (\<lambda>rs u. list_all2 same_record records rs \<and> before_swaps i records ds s u \<and> prepared records u) (midway i records ds s)"
proof (rule through_always)
  have bak: "before_swaps i records ds s u" if "before_swaps i records ds s v" "u \<in> set (states (imap backup_file records) v)" for v u
  proof (rule control_step [OF assms(1) that(1) _ _ _ that(2)])
    show "modifies (insert [] journal_area) (imap backup_file records)"
      by (intro modifies_imap modifies_mono [OF modifies_backup_file plan_backup_area [OF assms(4)]])
    show "insert [] journal_area \<subseteq> control_area i" by (auto simp: control_area_def)
    show "stable {control_dir} {} (imap backup_file records)" by (intro stable_imap stable_backup_file) simp
  qed
  have all: "before_swaps i records ds s u" if "before_swaps i records ds s v" "u \<in> set (states (prepare_backups records ds) v)" for v u
    using that(2) mkdir_step [OF that(1)] bak [OF mkdir_step [OF that(1) final_in_states]]
    unfolding prepare_backups_def states_ibnd by (auto split: sum.splits)
  then show "always (before_swaps i records ds s) (prepare_backups records ds) (midway i records ds s)"
    by (auto simp: always_def midway_def)
  show "hoare (before_swaps i records ds s) (prepare_backups records ds)
      (\<lambda>rs u. list_all2 same_record records rs \<and> before_swaps i records ds s u \<and> prepared records u)"
    unfolding hoare_def
  proof (intro allI impI)
    fix v rs assume v: "before_swaps i records ds s v" and o: "outcome (prepare_backups records ds) v = Inr rs"
    have u: "before_swaps i records ds s (final (prepare_backups records ds) v)" by (rule all [OF v final_in_states])
    show "list_all2 same_record records rs \<and> before_swaps i records ds s (final (prepare_backups records ds) v) \<and>
        prepared records (final (prepare_backups records ds) v)"
      using prepare_backups_same [OF o] u prepare_backups_prepared [OF assms(1-3) v o u] by blast
  qed
qed

lemma same_records_sym: "list_all2 same_record rs rs' \<Longrightarrow> list_all2 same_record rs' rs"
  by (induction rs rs' rule: list_all2_induct) (auto simp: same_record_def)

text \<open>The steps of the controller before, between and after.\<close>

lemma prepared_step:
  assumes "ready i records s" and "numbered i records" and "modifies P m" and "P \<subseteq> control_area i"
    and "\<And>D F. backups i F \<Longrightarrow> stable D F m"
  shows "through (\<lambda>u. G \<and> before_swaps i records ds s u \<and> prepared records u) m
    (\<lambda>_ u. G \<and> before_swaps i records ds s u \<and> prepared records u) (midway i records ds s)"
proof (rule through_invariant)
  fix v u assume v: "G \<and> before_swaps i records ds s v \<and> prepared records v" and u: "u \<in> set (states m v)"
  have "stable {control_dir} {} m" by (rule assms(5)) (simp add: backups_def)
  from control_step [OF assms(1) _ assms(3,4) this u] v have b: "before_swaps i records ds s u" by blast
  have "prepared records u"
    by (rule controller_step(2) [OF assms(5) assms(2,3) _ u]) (use readyD(2,7) [OF assms(1)] assms(4) v in auto)
  with v b show "G \<and> before_swaps i records ds s u \<and> prepared records u" by blast
qed (simp add: midway_def)

lemma recoverable_step:
  assumes "ready i records s" and "numbered i records" and "modifies P m" and "P \<subseteq> control_area i"
    and "\<And>D F. backups i F \<Longrightarrow> stable D F m"
  shows "through (recoverable records) m (\<lambda>_. recoverable records) (midway i records ds s)"
proof (rule through_invariant)
  fix v u assume v: "recoverable records v" and u: "u \<in> set (states m v)"
  show "recoverable records u"
    by (rule controller_step(1) [OF assms(5) assms(2,3) _ u]) (use readyD(2,7) [OF assms(1)] assms(4) v in auto)
qed (simp add: midway_def)

lemma swaps_step:
  "through (\<lambda>u. list_all2 same_record records rs \<and> before_swaps i records ds s u \<and> prepared records u)
    (apply_file_records rnd rs) (\<lambda>_. recoverable records) (midway i records ds s)"
proof -
  have "recoverable records u" if "list_all2 same_record records rs" "prepared records v"
      "u \<in> set (states (apply_file_records rnd rs) v)" for v u
    by (rule recoverable_same [OF same_records_sym [OF that(1)]
          crash_recoverable [OF prepared_same [OF that(1,2)] that(3)]])
  then show ?thesis
    unfolding through_def always_def hoare_def midway_def using final_in_states by blast
qed

lemma stage_files_midway:
  assumes "file_records plan m layout = Inr records" and "created_directories s records = Inr ds"
    and "ready (planned_id plan) records s" and "u \<in> set (states (stage_files env plan records ds journal) s)"
  shows "midway (planned_id plan) records ds s u"
proof -
  let ?i = "planned_id plan" and ?B = "before_swaps (planned_id plan) records ds s"
  note n = file_records_numbered [OF assms(1)]
  obtain t where t: "lookup (se_plan_core plan) ''transaction_id'' = Inr t" "?i = py_str t" "\<forall>r \<in> set records. plan_record ?i r"
    using planned_facts [OF assms(1)] by metis
  note adv = modifies_advance [OF subset_refl] control_area_parts(1) stable_advance(2)
  have early: "through ?B (advance rnd j ph x) (\<lambda>_. ?B) (midway ?i records ds s)"
      "through ?B (write_journal rnd j) (\<lambda>_. ?B) (midway ?i records ds s)" for rnd j ph x
    by (rule before_swaps_step [OF assms(3) modifies_advance [OF subset_refl] control_area_parts(1) stable_advance(2) [of ?i]],
        simp add: backups_def,
        rule before_swaps_step [OF assms(3) modifies_write_journal [OF subset_refl] control_area_parts(1) stable_advance(1) [of ?i]],
        simp add: backups_def)
  have probe: "through ?B (run_write_probe e ?i) (\<lambda>_. ?B) (midway ?i records ds s)" for e
    using control_dir_apart
    by (intro before_swaps_step [OF assms(3) modifies_probe [OF subset_refl] control_area_parts(5)]
        stable_modifies [OF modifies_probe [OF subset_refl]]) auto
  note late = prepared_step [OF assms(3) n modifies_advance [OF subset_refl] control_area_parts(1) stable_advance(2)]
    prepared_step [OF assms(3) n modifies_maintenance(1) [OF subset_refl] control_area_parts(2) stable_write_maintenance]
  note last = recoverable_step [OF assms(3) n modifies_advance [OF subset_refl] control_area_parts(1) stable_advance(2)]
  have "through ?B (stage_files env plan records ds journal) (\<lambda>_ _. True) (midway ?i records ds s)"
    unfolding stage_files_def Let_def
  proof (rule through_ibnd [OF early(2)], rule through_ibnd [OF early(1)], rule through_ilift)
    fix v x j assume "lookup (se_plan_core plan) ''transaction_id'' = Inr x"
    then have x: "py_str x = ?i" using t by simp
    show "through ?B (ibnd (run_write_probe (ae_probe env) (py_str x)) (\<lambda>_.
       ibnd (prepare_backups records ds) (\<lambda>records.
       ibnd (advance (ae_rnd env) j ''prepared'' (Some records)) (\<lambda>journal.
       ibnd (ilift (build_maintenance_marker plan)) (\<lambda>marker.
       ibnd (write_maintenance (ae_rnd env) marker) (\<lambda>_.
       ibnd (advance (ae_rnd env) journal ''applying'' (Some records)) (\<lambda>journal.
       ibnd (apply_file_records (ae_rnd env) records) (\<lambda>records.
       ibnd (advance (ae_rnd env) journal ''files_applied'' (Some records)) (\<lambda>journal.
       iret (journal, records, marker)))))))))) (\<lambda>_ _. True) (midway ?i records ds s)"
      unfolding x
      by (rule through_ibnd [OF probe], rule through_ibnd [OF prepare_step [OF assms(3) n assms(2) t(3)]],
          rule through_ibnd [OF late(1)], assumption, rule through_ilift, simp add: midway_def,
          rule through_ibnd [OF late(2)], assumption, rule through_ibnd [OF late(1)], assumption,
          rule through_ibnd [OF swaps_step], rule through_ibnd [OF last], assumption, rule through_iret)
        (simp add: midway_def)
  qed (simp add: midway_def)
  moreover have "?B s" using assms(3) by (simp add: before_swaps_def ready_def)
  ultimately show ?thesis using assms(4) unfolding through_def always_def by blast
qed

section \<open>Recovery from every point\<close>

text \<open>The loops, once every file can be brought where it belongs.\<close>

lemma rollback_settles:
  assumes "recoverable records s" and "names_fresh rnd"
  shows "\<exists>records'. outcome (rollback_files rnd records) s = Inr records'"
    and "\<forall>r \<in> set records. describes (original_of r) (node_at (final (rollback_files rnd records) s) (target_of (original_of r)))"
    and "same_except ((\<lambda>r. target_of (original_of r)) ` set records) s (final (rollback_files rnd records) s)"
proof -
  have sep: "separate (\<lambda>r. target_of (original_of r)) backup_source (rev records)"
    using assms(1) by (simp add: recoverable_def separate_rev)
  obtain rs where rs: "outcome (imap (rollback_file rnd) (rev records)) s = Inr rs"
    using rollback_loop.loop_succeeds [OF sep _ assms(2)] assms(1) by (auto simp: recoverable_def)
  have d: "distinct (map (\<lambda>r. target_of (original_of r)) (rev records))" using sep by (simp add: separate_def)
  note settled = rollback_loop.loop_settles [OF d rs, unfolded set_rev]
  show "\<exists>records'. outcome (rollback_files rnd records) s = Inr records'" by (simp add: rollback_files_run rs)
  show "\<forall>r \<in> set records. describes (original_of r) (node_at (final (rollback_files rnd records) s) (target_of (original_of r)))"
    unfolding rollback_files_run by (rule settled(1))
  show "same_except ((\<lambda>r. target_of (original_of r)) ` set records) s (final (rollback_files rnd records) s)"
    unfolding rollback_files_run by (rule settled(2))
qed

text \<open>Before the swaps there is nothing to roll back.\<close>

lemma rollback_nothing:
  assumes "\<And>r. r \<in> set records \<Longrightarrow> holds (original_of r) s \<and> (\<exists>p. record_states r = Inr p)"
  shows "(\<exists>records'. outcome (rollback_files rnd records) s = Inr records') \<and> final (rollback_files rnd records) s = s"
proof -
  have one: "outcome (rollback_file rnd r) s = Inr (set_applied False r)" "final (rollback_file rnd r) s = s"
    if r: "r \<in> set records" for r
  proof -
    obtain e c where p: "record_states r = Inr (e, c)" using assms [OF r] by auto
    then have e: "original_of r = e" using record_states_Inr by blast
    have m: "current_matches e s = Inr True"
      using assms [OF r] current_matches_holds [of e s] by (simp add: e)
    show "outcome (rollback_file rnd r) s = Inr (set_applied False r)" "final (rollback_file rnd r) s = s"
      by (simp_all add: rollback_file_def p io_simps m)
  qed
  have "(\<exists>rs. outcome (imap (rollback_file rnd) xs) s = Inr rs) \<and> final (imap (rollback_file rnd) xs) s = s"
    if "set xs \<subseteq> set records" for xs
    using that
  proof (induction xs)
    case (Cons x xs)
    then have ih: "(\<exists>rs. outcome (imap (rollback_file rnd) xs) s = Inr rs)" "final (imap (rollback_file rnd) xs) s = s" "x \<in> set records"
      by auto
    show ?case using ih one [OF ih(3)] by (auto simp: outcome_ibnd final_ibnd)
  qed simp
  from this [of "rev records"] show ?thesis by (auto simp: rollback_files_run)
qed

lemma resume_settles:
  assumes "separate (\<lambda>r. target_of (candidate_of r)) (\<lambda>_. {}) records"
    and "\<And>r. r \<in> set records \<Longrightarrow> settleable candidate_of original_of resume_content r s" and "names_fresh rnd"
  shows "\<exists>records'. outcome (resume_files rnd records) s = Inr records'"
    and "\<forall>r \<in> set records. describes (candidate_of r) (node_at (final (resume_files rnd records) s) (target_of (candidate_of r)))"
    and "same_except ((\<lambda>r. target_of (candidate_of r)) ` set records) s (final (resume_files rnd records) s)"
proof -
  obtain rs where rs: "outcome (imap (resume_file rnd) records) s = Inr rs"
    using resume_loop.loop_succeeds [OF assms(1) _ assms(3)] assms(2) by auto
  have d: "distinct (map (\<lambda>r. target_of (candidate_of r)) records)" using assms(1) by (simp add: separate_def)
  note settled = resume_loop.loop_settles [OF d rs]
  show "\<exists>records'. outcome (resume_files rnd records) s = Inr records'" by (simp add: resume_files_def rs)
  show "\<forall>r \<in> set records. describes (candidate_of r) (node_at (final (resume_files rnd records) s) (target_of (candidate_of r)))"
    unfolding resume_files_def by (rule settled(1))
  show "same_except ((\<lambda>r. target_of (candidate_of r)) ` set records) s (final (resume_files rnd records) s)"
    unfolding resume_files_def by (rule settled(2))
qed

text \<open>What the file part has changed at any point, besides the files of the plan.\<close>

definition outside_plan :: "string \<Rightarrow> string list \<Rightarrow> path \<Rightarrow> bool" where
  "outside_plan i directories p = (p \<notin> control_area i \<and> p \<notin> path_of ` set directories \<and> \<not> temp_name p)"

lemma stage_files_outside:
  assumes "file_records plan m layout = Inr records" and "u \<in> set (states (stage_files env plan records ds journal) s)"
    and "outside_plan (planned_id plan) ds p" and "p \<notin> (\<lambda>r. target_of (candidate_of r)) ` set records"
  shows "node_at u p = node_at s p"
proof -
  obtain t where t: "lookup (se_plan_core plan) ''transaction_id'' = Inr t" "planned_id plan = py_str t"
    by (rule planned_facts [OF assms(1)])
  have "beside q cas_prefix \<subseteq> {p. temp_name p}" for q
    by (auto simp: beside_def temp_name_def starts_with_def)
  then have "p \<notin> record_area records" using assms(3,4) unfolding record_area_def outside_plan_def by blast
  then have "p \<notin> transaction_area (py_str t) records ds"
    using assms(3) planned_areas(2) [OF assms(1)] control_area_parts [of "planned_id plan"]
    unfolding transaction_area_def outside_plan_def t(2) by blast
  then show ?thesis by (rule modifiesD [OF modifies_stage [OF t(1)] assms(2)])
qed

lemma same_record_targets:
  assumes "list_all2 same_record planned records"
  shows "(\<lambda>r. target_of (original_of r)) ` set records = (\<lambda>r. target_of (original_of r)) ` set planned"
proof -
  have "map (\<lambda>r. target_of (original_of r)) records = map (\<lambda>r. target_of (original_of r)) planned"
    by (rule same_records_map [OF assms]) (simp add: same_record_paths)
  then show ?thesis by (metis set_map)
qed

text \<open>
  C3: Rollback after a crash: wherever the file part of a transaction was interrupted, from its first journal
  to the last swap, the loop of the rollback over the records of the journal ends without an error; then
  every file of the plan is as before the transaction, and so is every other path that is no file of the
  controller, no created directory and no temporary file. The plan and the tree it starts from have to
  be \<open>ready\<close>.
\<close>

theorem crash_rollback_restores:
  assumes "file_records plan m layout = Inr planned" and "created_directories s planned = Inr directories"
    and "ready (planned_id plan) planned s"
    and "crashed \<in> set (states (stage_files env plan planned directories journal) s)"
    and "list_all2 same_record planned records" and "names_fresh rnd"
  shows "(\<exists>records'. outcome (rollback_files rnd records) crashed = Inr records') \<and>
    (\<forall>p. outside_plan (planned_id plan) directories p \<longrightarrow>
       same_file (node_at s p) (node_at (final (rollback_files rnd records) crashed) p))"
proof -
  note n = file_records_numbered [OF assms(1)]
  let ?v = "final (rollback_files rnd records) crashed" and ?T = "(\<lambda>r. target_of (original_of r)) ` set records"
  have old: "\<exists>r' \<in> set planned. same_record r' r" if "r \<in> set records" for r
    by (rule list_all2_members [OF assms(5) that])
  have undone: "(\<exists>records'. outcome (rollback_files rnd records) crashed = Inr records') \<and> same_except ?T crashed ?v \<and>
      (\<forall>r \<in> set records. describes (original_of r) (node_at ?v (target_of (original_of r))))"
    using stage_files_midway [OF assms(1-4)] unfolding midway_def
  proof
    assume b: "before_swaps (planned_id plan) planned directories s crashed"
    have h: "holds (original_of r) crashed \<and> (\<exists>p. record_states r = Inr p)" if r: "r \<in> set records" for r
    proof -
      obtain r' where r': "r' \<in> set planned" "same_record r' r" using old [OF r] by blast
      obtain p where "record_states r' = Inr p" by (rule numbered_record [OF n r'(1)])
      then show ?thesis
        using before_swaps_holds [OF assms(3) n assms(2) b r'(1)] same_record_paths(1) [OF r'(2)] r'(2)
        by (simp add: same_record_def)
    qed
    from rollback_nothing [OF h] show ?thesis using h by (simp add: same_except_def holds_def)
  next
    assume "recoverable planned crashed"
    note run = rollback_settles [OF recoverable_same [OF assms(5) this] assms(6)]
    show ?thesis using run by blast
  qed
  have "same_file (node_at s p) (node_at ?v p)" if p: "outside_plan (planned_id plan) directories p" for p
  proof (cases "p \<in> ?T")
    case True
    then obtain r where r: "r \<in> set records" "p = target_of (original_of r)" by blast
    obtain r' where r': "r' \<in> set planned" "same_record r' r" using old [OF r(1)] by blast
    have "describes (original_of r) (node_at s p)"
      using readyD(1) [OF assms(3) r'(1)] same_record_paths(1) [OF r'(2)] by (simp add: holds_def r(2))
    then show ?thesis using undone r describes_same_file by blast
  next
    case False
    have "(\<lambda>r. target_of (candidate_of r)) ` set planned = (\<lambda>r. target_of (original_of r)) ` set planned"
      using readyD(2) [OF assms(3)] by (intro image_cong) simp_all
    then have "p \<notin> (\<lambda>r. target_of (candidate_of r)) ` set planned"
      using False unfolding same_record_targets [OF assms(5)] by simp
    from stage_files_outside [OF assms(1,4) p this] have "node_at ?v p = node_at s p"
      using undone False by (simp add: same_except_def)
    then show ?thesis by simp
  qed
  then show ?thesis using undone by blast
qed

lemma ready_separate:
  assumes "ready i planned s"
    and "map (\<lambda>r. target_of (candidate_of r)) records = map (\<lambda>r. target_of (candidate_of r)) planned"
  shows "separate (\<lambda>r. target_of (candidate_of r)) (\<lambda>_. {}) records"
proof -
  have "map (\<lambda>r. target_of (candidate_of r)) planned = map (\<lambda>r. target_of (original_of r)) planned"
    using readyD(2) [OF assms(1)] by simp
  then have m: "map (\<lambda>r. target_of (candidate_of r)) records = map (\<lambda>r. target_of (original_of r)) planned" using assms(2) by simp
  have "separate t (\<lambda>_. {}) rs = (distinct (map t rs) \<and> (\<forall>p \<in> set (map t rs). \<not> temp_name p \<and>
      (\<forall>p' \<in> set (map t rs). p' \<notin> set (ancestors p))))" for t :: "dict \<Rightarrow> path" and rs
    by (simp add: separate_def)
  note by_map = this
  have "distinct (map (\<lambda>r. target_of (original_of r)) planned)" using assms(1) by (simp add: ready_def)
  then show ?thesis
    unfolding by_map m using readyD(6,9) [OF assms(1)] by simp
qed

text \<open>
  C4: Resume after a crash: from every point of the file part at which the directories of the plan were
  created, the loop of a resume over the records of the journal ends without an error; then every file
  of the plan is in its candidate state and nothing else but files of the controller, created
  directories and temporary files differs from the tree before the transaction. The plan and the tree
  it starts from have to be \<open>ready\<close>.
\<close>

theorem crash_resume_completes:
  assumes "file_records plan m layout = Inr planned" and "created_directories s planned = Inr directories"
    and "ready (planned_id plan) planned s"
    and "crashed \<in> set (states (stage_files env plan planned directories journal) s)"
    and "list_all (\<lambda>d. is_dir crashed (path_of d)) directories"
    and "list_all2 same_record planned records" and "names_fresh rnd"
  shows "(\<exists>records'. outcome (resume_files rnd records) crashed = Inr records') \<and>
    (\<forall>r \<in> set records. describes (candidate_of r)
       (node_at (final (resume_files rnd records) crashed) (path_of (fs_path (candidate_of r))))) \<and>
    (\<forall>p. outside_plan (planned_id plan) directories p \<longrightarrow> p \<notin> (\<lambda>r. path_of (fs_path (candidate_of r))) ` set records \<longrightarrow>
       node_at (final (resume_files rnd records) crashed) p = node_at s p)"
proof -
  note n = file_records_numbered [OF assms(1)]
  let ?v = "final (resume_files rnd records) crashed"
  have settle: "settleable candidate_of original_of resume_content r crashed" if r: "r \<in> set planned" for r
    using stage_files_midway [OF assms(1-4)] unfolding midway_def
  proof
    assume b: "before_swaps (planned_id plan) planned directories s crashed"
    have h: "holds (original_of r) crashed" by (rule before_swaps_holds [OF assms(3) n assms(2) b r])
    have "is_dir crashed q" if q: "q \<in> set (ancestors (target_of (original_of r)))" for q
    proof -
      have "q \<in> dirs_of planned" using q r by (auto simp: dirs_of_def)
      then show ?thesis
        using directories_ready [OF assms(2,3) n r q] assms(5) b still_dir unfolding before_swaps_def list_all_iff by blast
    qed
    then have "dirs_above crashed (target_of (original_of r))" by (simp add: dirs_above_def list_all_iff)
    then show ?thesis
      using h readyD(2,4,10) [OF assms(3) r] by (simp add: settleable_def resume_content_def holds_def)
  qed (use r in \<open>simp add: recoverable_def\<close>)
  have settle': "settleable candidate_of original_of resume_content r crashed" if "r \<in> set records" for r
    using list_all2_members [OF assms(6) that] settle settleable_same(2) by blast
  have eqs: "map (\<lambda>r. target_of (candidate_of r)) records = map (\<lambda>r. target_of (candidate_of r)) planned"
    by (rule same_records_map [OF assms(6)]) (simp add: same_record_paths)
  then have eq: "(\<lambda>r. target_of (candidate_of r)) ` set records = (\<lambda>r. target_of (candidate_of r)) ` set planned"
    by (metis set_map)
  have sep: "separate (\<lambda>r. target_of (candidate_of r)) (\<lambda>_. {}) records"
    by (rule ready_separate [OF assms(3) eqs])
  note run = resume_settles [OF sep settle' assms(7)]
  have "node_at ?v p = node_at s p"
    if "outside_plan (planned_id plan) directories p" "p \<notin> (\<lambda>r. target_of (candidate_of r)) ` set records" for p
    using run(3) stage_files_outside [OF assms(1,4) that(1)] that(2) unfolding eq same_except_def by simp
  then show ?thesis using run(1,2) by blast
qed

section \<open>Witnesses\<close>

text \<open>The file of the plan and the directory of the controller.\<close>

definition ready_tree :: fs where
  "ready_tree = fmupd control_dir (Dir 493) sample_fs"

lemma tiny_record_of: "original_of tiny_record = sample_old" "candidate_of tiny_record = sample_new"
  using record_states_Inr [OF file_record_states [OF sample_states_valid]] by (simp_all add: tiny_record_def)

lemma tiny_fields: "get tiny_record ''candidate_state'' = PDict (file_state_document sample_new)"
    "candidate_content tiny_record = Inr (Some [2])"
proof -
  have "utf8_encode [CHR 0x02] = [2]" by (simp add: utf8_encode_def utf8_char_def Let_def ord_def)
  moreover have "get tiny_record ''candidate_content_utf8'' = PStr [CHR 0x02]" by (simp add: tiny_record_def file_record_def get_def)
  ultimately show "candidate_content tiny_record = Inr (Some [2])" by (simp add: candidate_content_def)
qed (simp add: tiny_record_def file_record_fields)

lemma ready_tree_directories: "created_directories ready_tree [tiny_record] = Inr []"
  by (simp add: created_directories_def missing_ancestors_def tiny_fields as_mapping_def file_state_reads_back
      sample_states_valid sample_fields ancestors_def)

lemma ready_tree_ready: "ready (planned_id tiny_plan) [tiny_record] ready_tree"
proof -
  have "assert_state sample_old ready_tree = Inr ()"
    unfolding ready_tree_def
    by (subst assert_state_fmupd_other) (simp_all add: sample_fields sample_asserted control_dir_def)
  then have h: "holds sample_old ready_tree" by (simp add: assert_state_holds)
  have "is_dir ready_tree control_dir" by (simp add: ready_tree_def is_dir_def node_at_def control_dir_def)
  moreover have "\<not> temp_name [''a'']" by (simp add: temp_name_def cas_prefix_def starts_with_def)
  moreover have "[''a''] \<notin> control_area (planned_id tiny_plan)"
    using plan_clearD(2) [OF tiny_clear, of tiny_record] by (simp add: tiny_record_of sample_fields)
  moreover have "good_candidate sample_new (Some [2])" using sample_good by simp
  ultimately show ?thesis
    using h by (simp add: ready_def tiny_record_of tiny_fields sample_fields ancestors_def dirs_above_def)
qed

theorem crash_rollback_restores_witness:
  "\<forall>journal. \<exists>records'. outcome (rollback_files fresh_rnd [tiny_record])
      (final (stage_files tiny_env tiny_plan [tiny_record] [] journal) ready_tree) = Inr records'"
  using crash_rollback_restores [OF tiny_records ready_tree_directories ready_tree_ready final_in_states _ fresh_rnd_fresh,
      of "[tiny_record]"] same_record_refl by simp

theorem crash_resume_completes_witness:
  "\<forall>journal. \<exists>records'. outcome (resume_files fresh_rnd [tiny_record])
      (final (stage_files tiny_env tiny_plan [tiny_record] [] journal) ready_tree) = Inr records'"
  using crash_resume_completes [OF tiny_records ready_tree_directories ready_tree_ready final_in_states _ _ fresh_rnd_fresh,
      of _ _ "[tiny_record]"] same_record_refl by simp

end
