(* ===== verification/Ownership.thy ===== *)
theory Ownership
  imports Manifest_Plan
begin

text \<open>
  \<^verbatim>\<open>reconcile/ownership.py\<close>: what a reconcile may do to every file, decided from the staged candidates,
  the artifact definitions, the files the Manifest records and what was observed, without reading
  or writing anything.
\<close>

section \<open>Observations and records\<close>

record ownership_plan =
  op_decisions :: "dict list"
  op_observations :: "dict list"
  op_preconditions :: "dict list"
  op_candidate_file_states :: "file_state list"
  op_candidate_contents :: "(string \<times> byte list) list"
  op_manifest_file_records :: "dict list"
  op_has_file_changes :: bool
  op_has_manifest_changes :: bool

abbreviation ownership_drift :: exn where
  "ownership_drift \<equiv> renderer_failure ''AWP_OWNERSHIP_DRIFT''"

definition RECONCILER_CONTROL_TARGETS :: "(string \<times> string \<times> string) list" where
  "RECONCILER_CONTROL_TARGETS =
     [(''project-launcher'', ''.agent-workflow/bin/agent-stack'', ''0755''),
      (''runtime-control'', ''.agent-workflow/runtime-control.json'', ''0644''),
      (''project-workflow-lock'', ''.agent-workflow/workflow.lock'', ''0644'')]"

definition absent_file :: "string \<Rightarrow> file_state" where
  "absent_file p = \<lparr>fs_path = p, fs_exists = False, fs_type = ''absent'', fs_hash = CANONICAL_NULL,
     fs_mode = CANONICAL_NULL, fs_non_symlink = True, fs_block = CANONICAL_NULL\<rparr>"

definition regular_file :: "string \<Rightarrow> string \<Rightarrow> string \<Rightarrow> string \<Rightarrow> file_state" where
  "regular_file p byte_hash mode block = \<lparr>fs_path = p, fs_exists = True, fs_type = ''regular'', fs_hash = byte_hash,
     fs_mode = mode, fs_non_symlink = True, fs_block = block\<rparr>"

definition candidate_state :: "staged_file \<Rightarrow> file_state" where
  "candidate_state r = regular_file (st_path r) (st_candidate_byte_hash r) (st_candidate_mode r) CANONICAL_NULL"

definition observation_document :: "string \<Rightarrow> file_state \<Rightarrow> string \<Rightarrow> string \<Rightarrow> dict" where
  "observation_document p state marker_state block =
     [(''schema_id'', PStr ''agent-workflow.ownership-observation''), (''schema_version'', PInt 1),
      (''path'', PStr p), (''file_state'', PDict (file_state_document state)),
      (''marker_state'', PStr marker_state), (''managed_block_hash'', PStr block)]"

definition observed_content :: "pyval \<Rightarrow> byte list option res" where
  "observed_content v = (case v of
     PNone \<Rightarrow> Inr None
   | PStr s \<Rightarrow> Inr (Some (utf8_encode s))
   | _ \<Rightarrow> Inl ownership_conflict)"

definition observed_file :: "string \<Rightarrow> pyval \<Rightarrow> (file_state \<times> byte list option) res" where
  "observed_file p raw =
     bnd (as_mapping ownership_conflict raw) (\<lambda>item.
     if \<not> same_strs (keys item) [''state'', ''content''] then Inl ownership_conflict
     else bnd (bnd (as_mapping ownership_conflict (get item ''state'')) file_state_from_document) (\<lambda>state.
       if fs_path state \<noteq> p then Inl ownership_conflict
       else bnd (observed_content (get item ''content'')) (\<lambda>content.
         if \<not> fs_exists state \<and> content \<noteq> None then Inl ownership_conflict
         else if \<exists>bs \<in> set_option content. sha256_hex bs \<noteq> fs_hash state then Inl ownership_conflict
         else Inr (state, content))))"

text \<open>A string is a sequence as well; its characters are not mappings.\<close>

definition target_list :: "pyval \<Rightarrow> pyval list res" where
  "target_list v = (case v of
     PList ts \<Rightarrow> Inr ts
   | PStr s \<Rightarrow> Inr (map (\<lambda>c. PStr [c]) s)
   | _ \<Rightarrow> Inl ownership_conflict)"

definition add_definition_target ::
  "string \<Rightarrow> (string \<times> dict) list \<Rightarrow> pyval \<Rightarrow> (string \<times> dict) list res" where
  "add_definition_target definition_id targets raw =
     bnd (as_mapping ownership_conflict raw) (\<lambda>target.
     bnd (as_str ownership_conflict (get target ''path'')) (\<lambda>path_value.
     bnd (normalize_path (PStr path_value)) (\<lambda>p.
     if has_key targets p then Inl ownership_conflict
     else Inr (targets @ [(p, AList.update ''definition_id'' (PStr definition_id) target)]))))"

definition ownership_definitions :: "dict list \<Rightarrow> (string \<times> dict) list res" where
  "ownership_definitions artifact_definitions =
     foldr_res (\<lambda>targets raw_definition.
       bnd (as_str ownership_conflict (get raw_definition ''id'')) (\<lambda>definition_id.
       bnd (target_list (get raw_definition ''targets'')) (\<lambda>raw_targets.
       foldr_res (add_definition_target definition_id) targets raw_targets))) [] artifact_definitions"

definition add_manifest_record :: "(string \<times> dict) list \<Rightarrow> dict \<Rightarrow> (string \<times> dict) list res" where
  "add_manifest_record indexed raw_record =
     bnd (as_str ownership_conflict (get raw_record ''path'')) (\<lambda>path_value.
     bnd (normalize_path (PStr path_value)) (\<lambda>p.
     if has_key indexed p then Inl ownership_conflict else Inr (indexed @ [(p, raw_record)])))"

definition manifest_records :: "dict list \<Rightarrow> (string \<times> dict) list res" where
  "manifest_records records = foldr_res add_manifest_record [] records"

definition record_state :: "dict \<Rightarrow> file_state res" where
  "record_state r = bnd (as_mapping ownership_conflict (get r ''file_state'')) file_state_from_document"

section \<open>Managed blocks\<close>

definition block_markers :: "pyval \<Rightarrow> (string \<times> string) res" where
  "block_markers v =
     bnd (as_mapping ownership_conflict v) (\<lambda>m.
     if \<not> same_strs (keys m) [''begin'', ''end''] then Inl ownership_conflict
     else bnd (as_string ownership_conflict (get m ''begin'')) (\<lambda>b.
       bnd (as_string ownership_conflict (get m ''end'')) (\<lambda>e. Inr (b, e))))"

definition marker_token :: "string \<Rightarrow> byte list" where
  "marker_token s = utf8_encode s @ [0x0A]"

text \<open>\<^verbatim>\<open>bytes.count\<close> of occurrences that do not overlap; the counter is what is left of the last one.\<close>

fun count_bytes :: "'a list \<Rightarrow> nat \<Rightarrow> 'a list \<Rightarrow> nat" where
  "count_bytes token rest [] = 0"
| "count_bytes token rest (x # xs) =
     (if 0 < rest then count_bytes token (rest - 1) xs
      else if take (length token) (x # xs) = token then Suc (count_bytes token (length token - 1) xs)
      else count_bytes token 0 xs)"

text \<open>\<^verbatim>\<open>bytes.index\<close>.\<close>

fun index_bytes :: "'a list \<Rightarrow> 'a list \<Rightarrow> nat option" where
  "index_bytes token [] = (if token = [] then Some 0 else None)"
| "index_bytes token (x # xs) =
     (if take (length token) (x # xs) = token then Some 0 else map_option Suc (index_bytes token xs))"

definition bytes_index :: "byte list \<Rightarrow> byte list \<Rightarrow> nat res" where
  "bytes_index token bs = (case index_bytes token bs of None \<Rightarrow> Inl ValueError | Some i \<Rightarrow> Inr i)"

record overlay =
  ov_prefix :: "byte list"
  ov_block :: "byte list"
  ov_suffix :: "byte list"
  ov_begin :: string
  ov_end :: string

definition overlay_parts :: "byte list option \<Rightarrow> pyval \<Rightarrow> overlay res" where
  "overlay_parts content marker_value = (case content of
     None \<Rightarrow> Inl ownership_conflict
   | Some bs \<Rightarrow>
       bnd (block_markers marker_value) (\<lambda>(b, e).
       if count_bytes (marker_token b) 0 bs \<noteq> 1 \<or> count_bytes (marker_token e) 0 bs \<noteq> 1 then Inl ownership_conflict
       else bnd (bytes_index (marker_token b) bs) (\<lambda>begin_at. let block_at = begin_at + length (marker_token b) in
         bnd (bytes_index (marker_token e) bs) (\<lambda>end_at.
         if end_at < block_at then Inl ownership_conflict
         else Inr \<lparr>ov_prefix = take begin_at bs, ov_block = take (end_at - block_at) (drop block_at bs),
           ov_suffix = drop (end_at + length (marker_token e)) bs, ov_begin = b, ov_end = e\<rparr>))))"

section \<open>Decisions\<close>

definition markers_document :: "(string \<times> string) option \<Rightarrow> pyval" where
  "markers_document m = (case m of None \<Rightarrow> PNone
   | Some (b, e) \<Rightarrow> PDict [(''begin'', PStr b), (''end'', PStr e)])"

definition manifest_record ::
  "staged_file \<Rightarrow> file_state \<Rightarrow> string \<Rightarrow> string \<Rightarrow> bool \<Rightarrow> (string \<times> string) option \<Rightarrow> dict" where
  "manifest_record staged state ownership block created_once markers =
     [(''path'', PStr (st_path staged)), (''definition_id'', PStr (st_definition_id staged)),
      (''ownership'', PStr ownership), (''file_state'', PDict (file_state_document state)),
      (''managed_block_hash'', PStr block), (''created_once'', PBool created_once),
      (''markers'', markers_document markers)]"

definition ownership_decision ::
  "staged_file \<Rightarrow> file_state \<Rightarrow> file_state \<Rightarrow> file_state \<Rightarrow> string \<Rightarrow> string \<Rightarrow> dict" where
  "ownership_decision staged observed baseline candidate action reason_code =
     [(''schema_id'', PStr ''agent-workflow.ownership-decision''), (''schema_version'', PInt 1),
      (''path'', PStr (st_path staged)), (''definition_id'', PStr (st_definition_id staged)),
      (''ownership'', PStr (st_ownership staged)),
      (''observed_file_state'', PDict (file_state_document observed)),
      (''baseline_file_state'', PDict (file_state_document baseline)),
      (''candidate_file_state'', PDict (file_state_document candidate)),
      (''action'', PStr action), (''reason_code'', PStr reason_code)]"

definition state_matches :: "file_state \<Rightarrow> file_state \<Rightarrow> bool" where
  "state_matches l r = (file_state_document l = file_state_document r)"

text \<open>What the loop body adds for one path.\<close>

record path_plan =
  pp_observation :: dict
  pp_decision :: dict
  pp_state :: "file_state option"
  pp_content :: "byte list option"
  pp_manifest :: "dict option"

definition path_result :: "dict \<Rightarrow> staged_file \<Rightarrow> file_state \<Rightarrow> file_state \<Rightarrow> file_state \<Rightarrow> string \<Rightarrow> string \<Rightarrow>
    file_state option \<Rightarrow> byte list option \<Rightarrow> dict option \<Rightarrow> path_plan" where
  "path_result observation staged observed baseline candidate action reason state content manifest =
     \<lparr>pp_observation = observation,
      pp_decision = ownership_decision staged observed baseline candidate action reason,
      pp_state = state, pp_content = content, pp_manifest = manifest\<rparr>"

section \<open>Retired paths\<close>

definition retired_file :: "string \<Rightarrow> dict \<Rightarrow> staged_file" where
  "retired_file p old = (let overlay = get old ''ownership'' = PStr ''overlay-managed'' in
     \<lparr>st_path = p, st_definition_id = py_str (get old ''definition_id''), st_surface_id = ''retired'',
      st_ownership = py_str (get old ''ownership''),
      st_merge_strategy = (if overlay then ''marked-block'' else ''whole-file''),
      st_source_digest = replicate 64 (CHR ''0''), st_render_digest = replicate 64 (CHR ''0''),
      st_candidate_byte_hash = CANONICAL_NULL, st_mode_policy = (if overlay then ''preserve'' else ''exact''),
      st_candidate_mode = CANONICAL_NULL, st_validator_results = [], st_candidate_bytes = [],
      st_neutral_source_bytes = []\<rparr>)"

definition retire_path :: "string \<Rightarrow> dict \<Rightarrow> file_state \<Rightarrow> byte list option \<Rightarrow> file_state \<Rightarrow> path_plan res" where
  "retire_path p old observed content baseline = (let
     observation = observation_document p observed ''not-applicable'' CANONICAL_NULL;
     result = (\<lambda>candidate reason bytes. path_result observation (retired_file p old) observed baseline candidate
       ''replace'' reason (if state_matches candidate observed then None else Some candidate) bytes None)
   in if get old ''ownership'' = PStr ''overlay-managed'' then
       bnd (if state_matches observed baseline then Inr ()
            else bnd (as_str ownership_conflict (get old ''managed_block_hash'')) (\<lambda>_. Inr ())) (\<lambda>_.
       bnd (overlay_parts content (get old ''markers'')) (\<lambda>ov.
       if PStr (sha256_hex (ov_block ov)) \<noteq> get old ''managed_block_hash'' then Inl ownership_drift
       else let bytes = ov_prefix ov @ ov_suffix ov in
         Inr (result (regular_file p (sha256_hex bytes) (fs_mode observed) CANONICAL_NULL) ''retire-managed-block'' (Some bytes))))
     else if get old ''ownership'' = PStr ''managed'' then
       (if \<not> state_matches observed baseline then Inl ownership_drift
        else Inr (result (absent_file p) ''retire-managed-file'' None))
     else Inr (result observed ''retire-ownership-record'' None))"

section \<open>Staged paths\<close>

definition contract_matches :: "dict \<Rightarrow> staged_file \<Rightarrow> bool" where
  "contract_matches target r =
     (get target ''definition_id'' = PStr (st_definition_id r) \<and> get target ''ownership'' = PStr (st_ownership r) \<and>
      get target ''merge_strategy'' = PStr (st_merge_strategy r) \<and> get target ''mode_policy'' = PStr (st_mode_policy r))"

definition plan_managed :: "string \<Rightarrow> staged_file \<Rightarrow> dict option \<Rightarrow> file_state \<Rightarrow> file_state \<Rightarrow> path_plan res" where
  "plan_managed operation r old observed baseline = (let
     p = st_path r; candidate = candidate_state r;
     observation = observation_document p observed ''not-applicable'' CANONICAL_NULL;
     result = (\<lambda>action reason writes. Inr (path_result observation r observed baseline candidate action reason
       (if writes then Some candidate else None) (if writes then Some (st_candidate_bytes r) else None)
       (Some (manifest_record r candidate (st_ownership r) CANONICAL_NULL False None))))
   in case old of
       None \<Rightarrow>
         if \<not> fs_exists observed then result ''create'' ''managed-target-absent'' True
         else if state_matches observed candidate then result ''no-op'' ''enroll-matching-candidate'' False
         else Inl ownership_conflict
     | Some _ \<Rightarrow>
         if \<not> state_matches observed baseline then
           (if operation = ''repair'' \<and> state_matches candidate baseline
            then result ''restorative-repair'' ''restore-managed-contract'' True else Inl ownership_drift)
         else if \<not> state_matches candidate observed then result ''replace'' ''managed-candidate-changed'' True
         else result ''no-op'' ''already-current'' False)"

text \<open>The parts of the file around the managed block; in a file without markers the block is inserted at its end.\<close>

definition overlay_insertion :: "byte list option \<Rightarrow> string \<Rightarrow> string \<Rightarrow> overlay" where
  "overlay_insertion content b e = (let bs = (case content of None \<Rightarrow> [] | Some bs \<Rightarrow> bs) in
     \<lparr>ov_prefix = bs @ (if bs = [] \<or> last bs = 0x0A then [] else [0x0A]), ov_block = [], ov_suffix = [],
      ov_begin = b, ov_end = e\<rparr>)"

definition unmarked :: "byte list option \<Rightarrow> string \<Rightarrow> string \<Rightarrow> bool" where
  "unmarked content b e = (case content of None \<Rightarrow> True
   | Some bs \<Rightarrow> count_bytes (marker_token b) 0 bs = 0 \<and> count_bytes (marker_token e) 0 bs = 0)"

definition overlay_bytes :: "overlay \<Rightarrow> byte list \<Rightarrow> byte list" where
  "overlay_bytes ov block = ov_prefix ov @ marker_token (ov_begin ov) @ block @ marker_token (ov_end ov) @ ov_suffix ov"

definition overlay_action :: "string \<Rightarrow> dict option \<Rightarrow> bool \<Rightarrow> string \<Rightarrow> string \<Rightarrow> (string \<times> string) res" where
  "overlay_action operation old initial_insert observed_hash candidate_hash = (case old of
     None \<Rightarrow>
       if initial_insert then Inr (''create'', ''insert-managed-block'')
       else if observed_hash \<noteq> candidate_hash then Inl ownership_conflict
       else Inr (''no-op'', ''enroll-matching-overlay'')
   | Some rec \<Rightarrow>
       if PStr observed_hash \<noteq> get rec ''managed_block_hash'' then
         (if operation = ''repair'' \<and> PStr candidate_hash = get rec ''managed_block_hash''
          then Inr (''restorative-repair'', ''restore-managed-block'') else Inl ownership_drift)
       else if candidate_hash \<noteq> observed_hash then Inr (''update-managed-block'', ''managed-block-candidate-changed'')
       else Inr (''no-op'', ''already-current''))"

definition plan_overlay :: "string \<Rightarrow> staged_file \<Rightarrow> dict \<Rightarrow> dict option \<Rightarrow> file_state \<Rightarrow> byte list option \<Rightarrow> file_state \<Rightarrow>
    path_plan res" where
  "plan_overlay operation r target old observed content baseline =
     bnd (block_markers (get target ''markers'')) (\<lambda>(b, e).
     let initial_insert = (old = None \<and> unmarked content b e) in
     bnd (if initial_insert then Inr (overlay_insertion content b e)
          else overlay_parts content (get target ''markers'')) (\<lambda>ov. let
       p = st_path r; observed_hash = sha256_hex (ov_block ov); candidate_hash = sha256_hex (st_candidate_bytes r) in
     bnd (overlay_action operation old initial_insert observed_hash candidate_hash) (\<lambda>(action, reason). let
       bytes = overlay_bytes ov (st_candidate_bytes r);
       candidate = regular_file p (sha256_hex bytes) (if \<not> fs_exists observed then ''0644'' else fs_mode observed) candidate_hash;
       writes = (action \<noteq> ''no-op'')
     in Inr (path_result (observation_document p observed ''unique'' observed_hash) r observed baseline candidate
         action reason (if writes then Some candidate else None) (if writes then Some bytes else None)
         (if \<not> writes \<and> old \<noteq> None then old
          else Some (manifest_record r candidate (st_ownership r) candidate_hash False (Some (ov_begin ov, ov_end ov))))))))"

definition plan_adopted :: "staged_file \<Rightarrow> dict option \<Rightarrow> file_state \<Rightarrow> file_state \<Rightarrow> path_plan res" where
  "plan_adopted r old observed baseline = (let
     observation = observation_document (st_path r) observed ''not-applicable'' CANONICAL_NULL
   in Inr (path_result observation r observed baseline observed
       (if old = None then ''adopt-baseline'' else ''no-op'')
       (if old = None then ''record-observed-baseline'' else ''adopted-drift-is-observed'') None None
       (Some (manifest_record r (if old \<noteq> None then baseline else observed) (st_ownership r) CANONICAL_NULL False None))))"

definition plan_create_once :: "staged_file \<Rightarrow> dict option \<Rightarrow> file_state \<Rightarrow> file_state \<Rightarrow> path_plan res" where
  "plan_create_once r old observed baseline = (let
     p = st_path r; candidate = candidate_state r;
     observation = observation_document p observed ''not-applicable'' CANONICAL_NULL
   in if (\<exists>rec \<in> set_option old. get rec ''created_once'' = PBool True)
      then Inr (path_result observation r observed baseline observed ''no-op'' ''create-once-already-consumed'' None None old)
      else if fs_exists observed \<or> fs_exists baseline then Inl ownership_conflict
      else Inr (path_result observation r observed baseline candidate ''create'' ''create-once-original-absence''
        (Some candidate) (Some (st_candidate_bytes r))
        (Some (manifest_record r candidate ''user-owned'' CANONICAL_NULL True None))))"

definition plan_user_owned :: "staged_file \<Rightarrow> dict option \<Rightarrow> file_state \<Rightarrow> file_state \<Rightarrow> path_plan res" where
  "plan_user_owned r old observed baseline =
     Inr (path_result (observation_document (st_path r) observed ''not-applicable'' CANONICAL_NULL) r observed baseline
       observed ''no-op'' ''user-owned-no-write-authority'' None None old)"

definition stage_path :: "string \<Rightarrow> staged_file \<Rightarrow> dict option \<Rightarrow> dict option \<Rightarrow> file_state \<Rightarrow> byte list option \<Rightarrow> file_state \<Rightarrow>
    path_plan res" where
  "stage_path operation r target old observed content baseline = (case target of
     None \<Rightarrow> Inl ownership_conflict
   | Some t \<Rightarrow>
       if \<not> contract_matches t r then Inl ownership_conflict
       else if st_ownership r = ''managed'' then plan_managed operation r old observed baseline
       else if st_ownership r = ''overlay-managed'' then plan_overlay operation r t old observed content baseline
       else if st_ownership r = ''adopted'' then plan_adopted r old observed baseline
       else if st_ownership r = ''create-once-then-user-owned'' then plan_create_once r old observed baseline
       else if st_ownership r = ''user-owned'' then plan_user_owned r old observed baseline
       else Inl ownership_conflict)"

section \<open>The plan\<close>

definition add_control_target ::
  "(string \<times> staged_file) list \<Rightarrow> (string \<times> dict) list \<Rightarrow> string \<times> string \<times> string \<Rightarrow> (string \<times> dict) list res" where
  "add_control_target staged_by_path targets = (\<lambda>(definition_id, p, mode). case map_of staged_by_path p of
     None \<Rightarrow> Inr targets
   | Some r \<Rightarrow>
       if st_definition_id r \<noteq> definition_id \<or> st_surface_id r \<noteq> ''runtime-control-plane''
          \<or> st_ownership r \<noteq> ''managed'' \<or> st_merge_strategy r \<noteq> ''whole-file''
          \<or> st_mode_policy r \<noteq> ''exact'' \<or> st_candidate_mode r \<noteq> mode
       then Inl ownership_conflict
       else Inr (AList.update p
         [(''path'', PStr p), (''definition_id'', PStr definition_id), (''ownership'', PStr ''managed''),
          (''merge_strategy'', PStr ''whole-file''), (''mode_policy'', PStr ''exact''), (''mode'', PStr mode),
          (''markers'', PNone)] targets))"

text \<open>The last case cannot occur: every path comes from one of the two indices, which the source asserts.\<close>

definition plan_path :: "string \<Rightarrow> (string \<times> staged_file) list \<Rightarrow> (string \<times> dict) list \<Rightarrow> (string \<times> dict) list \<Rightarrow> dict \<Rightarrow>
    string \<Rightarrow> path_plan res" where
  "plan_path operation staged_by_path targets previous observed_files p =
     bnd (bnd (lookup observed_files p) (observed_file p)) (\<lambda>(observed, content).
     bnd (case map_of previous p of Some old \<Rightarrow> record_state old | None \<Rightarrow> Inr (absent_file p)) (\<lambda>baseline.
     case (map_of staged_by_path p, map_of previous p) of
       (Some r, old) \<Rightarrow> stage_path operation r (map_of targets p) old observed content baseline
     | (None, Some old) \<Rightarrow> retire_path p old observed content baseline
     | (None, None) \<Rightarrow> Inl ownership_conflict))"

definition staged_index :: "staged_render_tree \<Rightarrow> (string \<times> staged_file) list" where
  "staged_index tree = dict_display (map (\<lambda>r. (st_path r, r)) (tree_files tree))"

definition same_dicts :: "dict list \<Rightarrow> dict list \<Rightarrow> bool" where
  "same_dicts xs ys = py_eq (PList (map PDict xs)) (PList (map PDict ys))"

definition plan_ownership ::
  "staged_render_tree \<Rightarrow> dict list \<Rightarrow> dict list \<Rightarrow> dict \<Rightarrow> string \<Rightarrow> ownership_plan res" where
  "plan_ownership staged_tree artifact_definitions records observed_files operation =
     bnd (ownership_definitions artifact_definitions) (\<lambda>definitions.
     bnd (manifest_records records) (\<lambda>previous.
     let staged_by_path = staged_index staged_tree in
     bnd (foldr_res (add_control_target staged_by_path) definitions RECONCILER_CONTROL_TARGETS) (\<lambda>targets.
     let all_paths = sorted_set (map fst staged_by_path @ map fst previous) in
     if \<not> same_strs (keys observed_files) all_paths then Inl ownership_conflict
     else bnd (mapr (plan_path operation staged_by_path targets previous observed_files) all_paths) (\<lambda>plans.
     bnd (mapr (\<lambda>d. bnd (lookup d ''path'') (\<lambda>p. Inr (py_str p, d))) (concat (map (\<lambda>pp. case pp_manifest pp of None \<Rightarrow> [] | Some d \<Rightarrow> [d]) plans))) (\<lambda>keyed.
     let states = concat (map (\<lambda>pp. case pp_state pp of None \<Rightarrow> [] | Some f \<Rightarrow> [f]) plans);
         contents = concat (map2 (\<lambda>p pp. case pp_content pp of None \<Rightarrow> [] | Some bs \<Rightarrow> [(p, bs)]) all_paths plans);
         next_manifest = map snd (sort_key fst keyed) in
     Inr \<lparr>op_decisions = map pp_decision plans, op_observations = map pp_observation plans,
       op_preconditions = map pp_decision plans, op_candidate_file_states = sort_key fs_path states,
       op_candidate_contents = sort_items contents, op_manifest_file_records = next_manifest,
       op_has_file_changes = (states \<noteq> []),
       op_has_manifest_changes = (\<not> same_dicts next_manifest (map snd (sort_items previous)))\<rparr>)))))"

section \<open>Splitting a file at its markers\<close>

lemma index_bytes_Some:
  "index_bytes token xs = Some i \<Longrightarrow> xs = take i xs @ token @ drop (i + length token) xs"
proof (induction token xs arbitrary: i rule: index_bytes.induct)
  case (2 token x xs)
  show ?case
  proof (cases "take (length token) (x # xs) = token")
    case True
    then have "i = 0" using "2.prems" by simp
    then show ?thesis using True append_take_drop_id [of "length token" "x # xs"] by simp
  next
    case False
    then obtain j where j: "index_bytes token xs = Some j" "i = Suc j" using "2.prems" by auto
    show ?thesis using "2.IH" [OF False j(1)] by (simp add: j(2))
  qed
qed (auto split: if_splits)

lemma bytes_index_Inr: "bytes_index token xs = Inr i \<Longrightarrow> xs = take i xs @ token @ drop (i + length token) xs"
  by (rule index_bytes_Some) (simp add: bytes_index_def split: option.splits)

definition overlay_whole :: "overlay \<Rightarrow> byte list" where
  "overlay_whole ov = overlay_bytes ov (ov_block ov)"

lemma overlay_parts_whole:
  assumes "overlay_parts content v = Inr ov"
  shows "content = Some (overlay_whole ov)" and "block_markers v = Inr (ov_begin ov, ov_end ov)"
proof -
  obtain bs where bs: "content = Some bs" using assms by (auto simp: overlay_parts_def split: option.splits)
  obtain b e i j where m: "block_markers v = Inr (b, e)" and i: "bytes_index (marker_token b) bs = Inr i"
    and j: "bytes_index (marker_token e) bs = Inr j" and le: "i + length (marker_token b) \<le> j"
    and ov: "ov = \<lparr>ov_prefix = take i bs, ov_block = take (j - (i + length (marker_token b))) (drop (i + length (marker_token b)) bs),
        ov_suffix = drop (j + length (marker_token e)) bs, ov_begin = b, ov_end = e\<rparr>"
    using assms by (auto simp: overlay_parts_def bs bnd_Inr_iff Let_def split: if_splits)
  let ?k = "i + length (marker_token b)"
  have "drop ?k bs = take (j - ?k) (drop ?k bs) @ drop j bs"
    using le by (metis append_take_drop_id drop_drop le_add_diff_inverse2)
  moreover have "drop j bs = marker_token e @ drop (j + length (marker_token e)) bs"
    using arg_cong [OF bytes_index_Inr [OF j], of "drop j"] le
    by (metis append_eq_conv_conj bytes_index_Inr j length_append append_take_drop_id same_append_eq)
  moreover note bytes_index_Inr [OF i]
  ultimately show "content = Some (overlay_whole ov)"
    by (simp add: bs ov overlay_whole_def overlay_bytes_def)
  show "block_markers v = Inr (ov_begin ov, ov_end ov)" by (simp add: m ov)
qed

section \<open>What may be written\<close>

text \<open>
  The authority of a reconcile over one file: it may create a file where there is none, replace a
  file that is exactly as the Manifest records it, bring a drifted file back to what the Manifest
  records when it repairs, and change a managed block, leaving all bytes around it. Where the
  observation gives no content for what is there, as for a directory, it may put the block alone.
\<close>

inductive authority ::
  "string \<Rightarrow> dict option \<Rightarrow> file_state \<Rightarrow> byte list option \<Rightarrow> file_state \<Rightarrow> file_state \<Rightarrow> byte list option \<Rightarrow> bool"
  for operation old observed content baseline where
  into_absence: "\<not> fs_exists observed \<Longrightarrow> authority operation old observed content baseline candidate bytes"
| as_recorded: "old = Some rec \<Longrightarrow> state_matches observed baseline \<Longrightarrow>
    authority operation old observed content baseline candidate bytes"
| repaired: "operation = ''repair'' \<Longrightarrow> old = Some rec \<Longrightarrow> state_matches candidate baseline \<Longrightarrow>
    authority operation old observed content baseline candidate bytes"
| block_changed: "content = Some (overlay_whole ov) \<Longrightarrow> bytes = Some (overlay_bytes ov block) \<Longrightarrow> old = Some rec \<Longrightarrow>
    get rec ''managed_block_hash'' = PStr (sha256_hex (ov_block ov)) \<or>
    operation = ''repair'' \<and> get rec ''managed_block_hash'' = PStr (sha256_hex block) \<Longrightarrow>
    fs_exists observed \<Longrightarrow> fs_mode candidate = fs_mode observed \<Longrightarrow>
    authority operation old observed content baseline candidate bytes"
| block_inserted: "content = Some bs \<Longrightarrow> unmarked content b e \<Longrightarrow> old = None \<Longrightarrow>
    bytes = Some (overlay_bytes (overlay_insertion content b e) block) \<Longrightarrow>
    authority operation old observed content baseline candidate bytes"
| block_removed: "content = Some (overlay_whole ov) \<Longrightarrow> bytes = Some (ov_prefix ov @ ov_suffix ov) \<Longrightarrow> old = Some rec \<Longrightarrow>
    get rec ''managed_block_hash'' = PStr (sha256_hex (ov_block ov)) \<Longrightarrow>
    authority operation old observed content baseline candidate bytes"
| block_alone: "content = None \<Longrightarrow> old = None \<Longrightarrow> bytes = Some (overlay_bytes (overlay_insertion None b e) block) \<Longrightarrow>
    authority operation old observed content baseline candidate bytes"

lemma plan_managed_authority:
  assumes "plan_managed operation r old observed baseline = Inr pp" and "pp_state pp = Some c"
  shows "authority operation old observed content baseline c (pp_content pp)"
proof (cases old)
  case None
  then have "\<not> fs_exists observed" using assms by (auto simp: plan_managed_def Let_def path_result_def split: if_splits)
  then show ?thesis by (rule into_absence)
next
  case (Some rec)
  show ?thesis
  proof (cases "state_matches observed baseline")
    case False
    then have "operation = ''repair''" "state_matches c baseline"
      using assms by (auto simp: plan_managed_def Some Let_def path_result_def split: if_splits)
    then show ?thesis using Some by (intro repaired)
  qed (rule as_recorded [OF Some])
qed

lemma overlay_actionD:
  assumes "overlay_action operation old initial_insert h h' = Inr (action, reason)" and "action \<noteq> ''no-op''"
  shows "old = None \<and> initial_insert \<or> (\<exists>rec. old = Some rec \<and>
    (get rec ''managed_block_hash'' = PStr h \<or> operation = ''repair'' \<and> get rec ''managed_block_hash'' = PStr h'))"
  using assms by (auto simp: overlay_action_def split: option.splits if_splits)

lemma plan_overlayE:
  assumes "plan_overlay operation r t old observed content baseline = Inr pp"
  obtains b e ov action reason bytes candidate where
    "block_markers (get t ''markers'') = Inr (b, e)"
    "(if old = None \<and> unmarked content b e then Inr (overlay_insertion content b e)
      else overlay_parts content (get t ''markers'')) = Inr ov"
    "overlay_action operation old (old = None \<and> unmarked content b e) (sha256_hex (ov_block ov))
       (sha256_hex (st_candidate_bytes r)) = Inr (action, reason)"
    "bytes = overlay_bytes ov (st_candidate_bytes r)"
    "candidate = regular_file (st_path r) (sha256_hex bytes) (if \<not> fs_exists observed then ''0644'' else fs_mode observed)
       (sha256_hex (st_candidate_bytes r))"
    "pp = path_result (observation_document (st_path r) observed ''unique'' (sha256_hex (ov_block ov))) r observed baseline
       candidate action reason (if action \<noteq> ''no-op'' then Some candidate else None)
       (if action \<noteq> ''no-op'' then Some bytes else None)
       (if action = ''no-op'' \<and> old \<noteq> None then old
        else Some (manifest_record r candidate (st_ownership r) (sha256_hex (st_candidate_bytes r)) False
          (Some (ov_begin ov, ov_end ov))))"
  using assms unfolding plan_overlay_def Let_def
  by (auto simp only: bnd_Inr_iff split_paired_all prod.case Let_def not_not sum.inject)

lemma plan_overlay_authority:
  assumes "plan_overlay operation r t old observed content baseline = Inr pp" and "pp_state pp = Some c"
    and "content \<noteq> None \<Longrightarrow> fs_exists observed"
  shows "authority operation old observed content baseline c (pp_content pp)"
proof -
  from assms(1) obtain b e ov action reason bytes candidate where
    ov: "(if old = None \<and> unmarked content b e then Inr (overlay_insertion content b e)
      else overlay_parts content (get t ''markers'')) = Inr ov"
    and act: "overlay_action operation old (old = None \<and> unmarked content b e) (sha256_hex (ov_block ov))
       (sha256_hex (st_candidate_bytes r)) = Inr (action, reason)"
    and bytes: "bytes = overlay_bytes ov (st_candidate_bytes r)"
    and cand: "candidate = regular_file (st_path r) (sha256_hex bytes) (if \<not> fs_exists observed then ''0644'' else fs_mode observed)
       (sha256_hex (st_candidate_bytes r))"
    and pp: "pp = path_result (observation_document (st_path r) observed ''unique'' (sha256_hex (ov_block ov))) r observed baseline
       candidate action reason (if action \<noteq> ''no-op'' then Some candidate else None)
       (if action \<noteq> ''no-op'' then Some bytes else None)
       (if action = ''no-op'' \<and> old \<noteq> None then old
        else Some (manifest_record r candidate (st_ownership r) (sha256_hex (st_candidate_bytes r)) False
          (Some (ov_begin ov, ov_end ov))))"
    by (rule plan_overlayE)
  have w: "action \<noteq> ''no-op''" "c = candidate" "pp_content pp = Some bytes"
    using assms(2) by (auto simp: pp path_result_def split: if_splits)
  show ?thesis
  proof (cases "old = None \<and> unmarked content b e")
    case True
    then have i: "ov = overlay_insertion content b e" using ov by simp
    show ?thesis
    proof (cases content)
      case None
      then show ?thesis using True by (intro block_alone) (simp_all add: w bytes i)
    next
      case (Some bs)
      then show ?thesis using True by (intro block_inserted [OF Some]) (simp_all add: w bytes i)
    qed
  next
    case False
    then have parts: "overlay_parts content (get t ''markers'') = Inr ov" using ov unfolding if_not_P [OF False] by simp
    from overlay_actionD [OF act w(1)] False obtain rec where rec: "old = Some rec"
      "get rec ''managed_block_hash'' = PStr (sha256_hex (ov_block ov)) \<or>
       operation = ''repair'' \<and> get rec ''managed_block_hash'' = PStr (sha256_hex (st_candidate_bytes r))" by blast
    have "fs_exists observed" using assms(3) overlay_parts_whole(1) [OF parts] by simp
    then show ?thesis
      by (intro block_changed [OF overlay_parts_whole(1) [OF parts] _ rec]) (simp_all add: w bytes cand regular_file_def)
  qed
qed

lemma stage_path_authority:
  assumes "stage_path operation r t old observed content baseline = Inr pp" and "pp_state pp = Some c"
    and "content \<noteq> None \<Longrightarrow> fs_exists observed"
  shows "authority operation old observed content baseline c (pp_content pp)"
proof -
  obtain target where t: "t = Some target" using assms(1) by (auto simp: stage_path_def split: option.splits)
  from assms(1) consider "plan_managed operation r old observed baseline = Inr pp"
    | "plan_overlay operation r target old observed content baseline = Inr pp"
    | "plan_adopted r old observed baseline = Inr pp" | "plan_create_once r old observed baseline = Inr pp"
    | "plan_user_owned r old observed baseline = Inr pp"
    by (auto simp: stage_path_def t split: if_splits)
  then show ?thesis
  proof cases
    case 1
    then show ?thesis using assms(2) by (rule plan_managed_authority)
  next
    case 2
    then show ?thesis using assms(2,3) by (rule plan_overlay_authority)
  next
    case 4
    then have "\<not> fs_exists observed" using assms(2) by (auto simp: plan_create_once_def Let_def path_result_def split: if_splits)
    then show ?thesis by (rule into_absence)
  qed (use assms(2) in \<open>auto simp: plan_adopted_def plan_user_owned_def Let_def path_result_def\<close>)
qed

lemma retire_path_authority:
  assumes "retire_path p rec observed content baseline = Inr pp" and "pp_state pp = Some c"
  shows "authority operation (Some rec) observed content baseline c (pp_content pp)"
proof -
  consider "get rec ''ownership'' = PStr ''overlay-managed''" | "get rec ''ownership'' = PStr ''managed''"
    | "get rec ''ownership'' \<noteq> PStr ''overlay-managed''" "get rec ''ownership'' \<noteq> PStr ''managed''" by blast
  then show ?thesis
  proof cases
    case 1
    then obtain ov where ov: "overlay_parts content (get rec ''markers'') = Inr ov"
        "get rec ''managed_block_hash'' = PStr (sha256_hex (ov_block ov))"
        "pp_content pp = Some (ov_prefix ov @ ov_suffix ov)"
      using assms(1) by (auto simp: retire_path_def Let_def bnd_Inr_iff path_result_def split: if_splits)
    show ?thesis by (rule block_removed [OF overlay_parts_whole(1) [OF ov(1)] ov(3) refl ov(2)])
  next
    case 2
    then have "state_matches observed baseline" using assms(1) by (auto simp: retire_path_def Let_def split: if_splits)
    then show ?thesis by (rule as_recorded [OF refl])
  next
    case 3
    then have "pp_state pp = None" using assms(1) by (auto simp: retire_path_def Let_def path_result_def state_matches_def)
    then show ?thesis using assms(2) by simp
  qed
qed

section \<open>The parts of a plan\<close>

definition option_list :: "'a option \<Rightarrow> 'a list" where
  "option_list x = (case x of None \<Rightarrow> [] | Some y \<Rightarrow> [y])"

lemma set_option_list [simp]: "set (option_list x) = set_option x"
  by (cases x) (simp_all add: option_list_def)

definition plan_paths :: "staged_render_tree \<Rightarrow> (string \<times> dict) list \<Rightarrow> string list" where
  "plan_paths tree previous = sorted_set (map fst (staged_index tree) @ map fst previous)"

definition plan_targets :: "staged_render_tree \<Rightarrow> (string \<times> dict) list \<Rightarrow> (string \<times> dict) list res" where
  "plan_targets tree definitions = foldr_res (add_control_target (staged_index tree)) definitions RECONCILER_CONTROL_TARGETS"

lemma mapr_projr: "mapr f xs = Inr ys \<Longrightarrow> ys = map (\<lambda>x. projr (f x)) xs \<and> (\<forall>x \<in> set xs. f x = Inr (projr (f x)))"
  by (induction xs arbitrary: ys) (auto simp: res_simps)

lemma staged_index_path: "map_of (staged_index tree) p = Some r \<Longrightarrow> st_path r = p"
  unfolding staged_index_def map_of_dict_display by (drule map_of_SomeD) auto

lemma keys_plan_paths: "p \<in> set (plan_paths tree previous) \<longleftrightarrow> p \<in> st_path ` set (tree_files tree) \<or> p \<in> fst ` set previous"
  by (simp add: plan_paths_def staged_index_def set_keys_dict_display image_image)

lemma concat_option_keys:
  "distinct ps \<Longrightarrow> distinct (map fst (concat (map (\<lambda>p. case f p of None \<Rightarrow> [] | Some b \<Rightarrow> [(p, b)]) ps))) \<and>
    map_of (concat (map (\<lambda>p. case f p of None \<Rightarrow> [] | Some b \<Rightarrow> [(p, b)]) ps)) = (\<lambda>p. if p \<in> set ps then f p else None)"
proof (induction ps)
  case (Cons p ps)
  have "fst x \<in> set ps" if "x \<in> set (concat (map (\<lambda>p. case f p of None \<Rightarrow> [] | Some b \<Rightarrow> [(p, b)]) ps))" for x
    using that by (auto split: option.splits)
  then show ?case using Cons by (auto simp: fun_eq_iff split: option.splits)
qed (simp add: fun_eq_iff)

lemma plan_ownershipE:
  assumes "plan_ownership tree definitions records observed operation = Inr plan"
  obtains defs previous targets F keyed where
    "ownership_definitions definitions = Inr defs" "manifest_records records = Inr previous" "plan_targets tree defs = Inr targets"
    "set (keys observed) = set (plan_paths tree previous)"
    "\<forall>p \<in> set (plan_paths tree previous). plan_path operation (staged_index tree) targets previous observed p = Inr (F p)"
    "mapr (\<lambda>d. bnd (lookup d ''path'') (\<lambda>p. Inr (py_str p, d))) (concat (map (\<lambda>p. option_list (pp_manifest (F p))) (plan_paths tree previous))) = Inr keyed"
    "op_decisions plan = map (\<lambda>p. pp_decision (F p)) (plan_paths tree previous)"
    "op_observations plan = map (\<lambda>p. pp_observation (F p)) (plan_paths tree previous)"
    "op_candidate_file_states plan = sort_key fs_path (concat (map (\<lambda>p. option_list (pp_state (F p))) (plan_paths tree previous)))"
    "op_candidate_contents plan = sort_items (concat (map (\<lambda>p. case pp_content (F p) of None \<Rightarrow> [] | Some b \<Rightarrow> [(p, b)]) (plan_paths tree previous)))"
    "op_manifest_file_records plan = map snd (sort_key fst keyed)"
    "op_has_file_changes plan = (concat (map (\<lambda>p. option_list (pp_state (F p))) (plan_paths tree previous)) \<noteq> [])"
    "op_has_manifest_changes plan = (\<not> same_dicts (map snd (sort_key fst keyed)) (map snd (sort_items previous)))"
proof -
  obtain defs previous targets plans keyed where
    a: "ownership_definitions definitions = Inr defs" "manifest_records records = Inr previous" "plan_targets tree defs = Inr targets"
    "same_strs (keys observed) (plan_paths tree previous)"
    and plans: "mapr (plan_path operation (staged_index tree) targets previous observed) (plan_paths tree previous) = Inr plans"
    and keyed: "mapr (\<lambda>d. bnd (lookup d ''path'') (\<lambda>p. Inr (py_str p, d))) (concat (map (\<lambda>pp. option_list (pp_manifest pp)) plans)) = Inr keyed"
    and plan: "plan = \<lparr>op_decisions = map pp_decision plans, op_observations = map pp_observation plans,
       op_preconditions = map pp_decision plans,
       op_candidate_file_states = sort_key fs_path (concat (map (\<lambda>pp. option_list (pp_state pp)) plans)),
       op_candidate_contents = sort_items (concat (map2 (\<lambda>p pp. case pp_content pp of None \<Rightarrow> [] | Some bs \<Rightarrow> [(p, bs)]) (plan_paths tree previous) plans)),
       op_manifest_file_records = map snd (sort_key fst keyed),
       op_has_file_changes = (concat (map (\<lambda>pp. option_list (pp_state pp)) plans) \<noteq> []),
       op_has_manifest_changes = (\<not> same_dicts (map snd (sort_key fst keyed)) (map snd (sort_items previous)))\<rparr>"
    using assms unfolding plan_ownership_def Let_def plan_targets_def [symmetric] plan_paths_def [symmetric] option_list_def [symmetric]
    by (auto simp only: bnd_Inr_iff if_Inl_Inr_iff not_not sum.inject)
  let ?F = "\<lambda>p. projr (plan_path operation (staged_index tree) targets previous observed p)"
  have F: "plans = map ?F (plan_paths tree previous)"
      "\<And>p. p \<in> set (plan_paths tree previous) \<Longrightarrow> plan_path operation (staged_index tree) targets previous observed p = Inr (?F p)"
    using mapr_projr [OF plans] by blast+
  show thesis
  proof (rule that [of defs previous targets ?F keyed])
    show "set (keys observed) = set (plan_paths tree previous)" using a(4) by (simp add: same_strs_iff)
  qed (use a keyed F(2) in \<open>simp_all add: plan F(1) comp_def map2_map_map zip_map2 zip_same_conv_map\<close>)
qed

lemma plan_pathE:
  assumes "plan_path operation staged targets previous observed p = Inr pp"
  obtains raw seen content baseline where
    "lookup observed p = Inr raw" "observed_file p raw = Inr (seen, content)"
    "(case map_of previous p of Some old \<Rightarrow> record_state old | None \<Rightarrow> Inr (absent_file p)) = Inr baseline"
    "(\<exists>r. map_of staged p = Some r \<and> stage_path operation r (map_of targets p) (map_of previous p) seen content baseline = Inr pp) \<or>
     (\<exists>old. map_of staged p = None \<and> map_of previous p = Some old \<and> retire_path p old seen content baseline = Inr pp)"
proof -
  obtain raw oc baseline where a: "lookup observed p = Inr raw" "observed_file p raw = Inr oc"
    "(case map_of previous p of Some old \<Rightarrow> record_state old | None \<Rightarrow> Inr (absent_file p)) = Inr baseline"
    and b: "(case oc of (observed, content) \<Rightarrow>
       case (map_of staged p, map_of previous p) of
         (Some r, old) \<Rightarrow> stage_path operation r (map_of targets p) old observed content baseline
       | (None, Some old) \<Rightarrow> retire_path p old observed content baseline
       | (None, None) \<Rightarrow> Inl ownership_conflict) = Inr pp"
    using assms unfolding plan_path_def by (auto simp only: bnd_Inr_iff split_paired_all prod.case)
  obtain seen content where oc: "oc = (seen, content)" by (cases oc)
  show thesis
    by (rule that [OF a(1) a(2) [unfolded oc] a(3)])
      (use b in \<open>auto simp: oc split: option.splits\<close>)
qed

lemma observed_file_content:
  assumes "observed_file p raw = Inr (seen, content)"
  shows "fs_path seen = p" and "content \<noteq> None \<Longrightarrow> fs_exists seen" and "content = Some bs \<Longrightarrow> sha256_hex bs = fs_hash seen"
    and "valid_file_state seen"
  using assms by (auto simp: observed_file_def bnd_Inr_iff file_state_accepted_valid split: if_splits)

lemma path_plan_path:
  assumes "plan_path operation (staged_index tree) targets previous observed p = Inr pp" and "pp_state pp = Some c"
  shows "fs_path c = p"
  using assms(1)
proof (rule plan_pathE)
  fix raw seen content baseline
  assume seen: "observed_file p raw = Inr (seen, content)"
    and c: "(\<exists>r. map_of (staged_index tree) p = Some r \<and> stage_path operation r (map_of targets p) (map_of previous p) seen content baseline = Inr pp) \<or>
     (\<exists>old. map_of (staged_index tree) p = None \<and> map_of previous p = Some old \<and> retire_path p old seen content baseline = Inr pp)"
  from c show ?thesis
  proof (elim disjE exE conjE)
    fix r assume r: "map_of (staged_index tree) p = Some r"
      and st: "stage_path operation r (map_of targets p) (map_of previous p) seen content baseline = Inr pp"
    have "fs_path c = st_path r"
    proof (cases "st_ownership r = ''overlay-managed''")
      case True
      then obtain t where "plan_overlay operation r t (map_of previous p) seen content baseline = Inr pp"
        using st by (auto simp: stage_path_def split: option.splits if_splits)
      then show ?thesis
        by (rule plan_overlayE) (use assms(2) in \<open>auto simp: path_result_def regular_file_def split: if_splits\<close>)
    next
      case False
      then show ?thesis using st assms(2)
        by (auto simp: stage_path_def plan_managed_def plan_adopted_def plan_create_once_def plan_user_owned_def Let_def
            path_result_def candidate_state_def regular_file_def split: option.splits if_splits)
    qed
    then show ?thesis using staged_index_path [OF r] by simp
  next
    fix old assume "retire_path p old seen content baseline = Inr pp"
    then show ?thesis using assms(2)
      by (auto simp: retire_path_def Let_def path_result_def bnd_Inr_iff regular_file_def absent_file_def state_matches_def
          split: if_splits)
  qed
qed

lemma plan_state:
  assumes "plan_ownership tree definitions records observed operation = Inr plan"
    and "c \<in> set (op_candidate_file_states plan)"
  obtains previous targets pp where "manifest_records records = Inr previous"
    "plan_path operation (staged_index tree) targets previous observed (fs_path c) = Inr pp" "pp_state pp = Some c"
    "map_of (op_candidate_contents plan) (fs_path c) = pp_content pp"
proof -
  from assms(1) obtain defs previous targets F keyed where
    prev: "manifest_records records = Inr previous"
    and F: "\<forall>p \<in> set (plan_paths tree previous). plan_path operation (staged_index tree) targets previous observed p = Inr (F p)"
    and states: "op_candidate_file_states plan = sort_key fs_path (concat (map (\<lambda>p. option_list (pp_state (F p))) (plan_paths tree previous)))"
    and contents: "op_candidate_contents plan = sort_items (concat (map (\<lambda>p. case pp_content (F p) of None \<Rightarrow> [] | Some b \<Rightarrow> [(p, b)]) (plan_paths tree previous)))"
    by (rule plan_ownershipE)
  obtain p where p: "p \<in> set (plan_paths tree previous)" "pp_state (F p) = Some c" using assms(2) by (auto simp: states)
  have path: "fs_path c = p" by (rule path_plan_path [OF bspec [OF F p(1)] p(2)])
  have "distinct (plan_paths tree previous)" by (simp add: plan_paths_def)
  note ck = concat_option_keys [OF this, of "\<lambda>p. pp_content (F p)"]
  have "map_of (op_candidate_contents plan) p = pp_content (F p)"
    unfolding contents using ck p(1) by (simp add: map_of_sort_items keys_def)
  with prev F p path show thesis by (intro that [of previous targets "F p"]) simp_all
qed


end
