(* ===== verification/Replan.thy ===== *)
theory Replan
  imports Ownership
begin

text \<open>
  Planning again after a plan was carried out: nothing is left to do. The plan also is a value of its
  type: one decision per path, candidate states in the order of their paths with contents that hash
  to them, Manifest records under their own paths.
\<close>

section \<open>The records of a Manifest\<close>

lemma manifest_records_paths:
  assumes "manifest_records records = Inr previous"
  shows "distinct (map fst previous)" and "map snd previous = records"
    and "(p, d) \<in> set previous \<Longrightarrow> lookup d ''path'' = Inr (PStr p) \<and> canonical_path p"
proof -
  have "distinct (map fst acc) \<and> (\<forall>(p, d) \<in> set acc. lookup d ''path'' = Inr (PStr p) \<and> canonical_path p) \<Longrightarrow>
      foldr_res add_manifest_record acc records = Inr previous \<Longrightarrow>
      distinct (map fst previous) \<and> (\<forall>(p, d) \<in> set previous. lookup d ''path'' = Inr (PStr p) \<and> canonical_path p) \<and>
      map snd previous = map snd acc @ records" for acc
  proof (induction records arbitrary: acc)
    case (Cons d records)
    from Cons.prems(2) obtain acc' where acc': "add_manifest_record acc d = Inr acc'"
        "foldr_res add_manifest_record acc' records = Inr previous" by (auto simp: bnd_Inr_iff)
    then obtain p where p: "get d ''path'' = PStr p" "canonical_path p" "p \<notin> fst ` set acc" "acc' = acc @ [(p, d)]"
      by (auto simp: add_manifest_record_def bnd_Inr_iff normalize_path_Inr_iff has_key_def res_simps split: if_splits)
    have "lookup d ''path'' = Inr (PStr p)" using p(1) by (auto simp: lookup_def get_def split: option.splits)
    then show ?case using Cons.IH [OF _ acc'(2)] Cons.prems(1) p by auto
  qed simp
  from this [of "[]"] assms show "distinct (map fst previous)" "map snd previous = records"
    "(p, d) \<in> set previous \<Longrightarrow> lookup d ''path'' = Inr (PStr p) \<and> canonical_path p"
    by (auto simp: manifest_records_def)
qed

lemma lookup_manifest_record: "lookup (manifest_record r f w b c m) ''path'' = Inr (PStr (st_path r))"
  by (simp add: manifest_record_def lookup_def)

lemma get_manifest_record:
  "get (manifest_record r f w b c m) ''file_state'' = PDict (file_state_document f)"
  "get (manifest_record r f w b c m) ''managed_block_hash'' = PStr b"
  "get (manifest_record r f w b c m) ''created_once'' = PBool c"
  by (simp_all add: manifest_record_def get_def)

lemma record_state_written: "valid_file_state f \<Longrightarrow> record_state (manifest_record r f w b c m) = Inr f"
  by (simp add: record_state_def get_manifest_record as_mapping_def file_state_reads_back)

section \<open>One path again\<close>

lemma replan_managed:
  assumes "plan_managed operation r old seen baseline = Inr pp" and "valid_file_state (candidate_state r)"
    and "seen' = (case pp_state pp of None \<Rightarrow> seen | Some c \<Rightarrow> c)"
    and "\<exists>rec. pp_manifest pp = Some rec \<and> record_state rec = Inr baseline'"
  shows "\<exists>pp'. plan_managed operation' r (pp_manifest pp) seen' baseline' = Inr pp' \<and> pp_state pp' = None \<and>
    pp_manifest pp' = pp_manifest pp"
proof -
  have m: "pp_manifest pp = Some (manifest_record r (candidate_state r) (st_ownership r) CANONICAL_NULL False None)"
    and s: "seen' = candidate_state r"
    using assms(1,3) by (auto simp: plan_managed_def Let_def path_result_def state_matches_def split: option.splits if_splits)
  have "baseline' = candidate_state r" using assms(4) by (simp add: m record_state_written [OF assms(2)])
  then show ?thesis by (simp add: plan_managed_def m s Let_def path_result_def state_matches_def)
qed

lemma replan_overlay:
  assumes "plan_overlay operation r t old seen content baseline = Inr pp"
    and "content' = (case pp_state pp of None \<Rightarrow> content | Some c \<Rightarrow> pp_content pp)"
    and "\<And>bs. pp_content pp = Some bs \<Longrightarrow> \<exists>ov. overlay_parts (Some bs) (get t ''markers'') = Inr ov \<and> ov_block ov = st_candidate_bytes r"
  shows "\<exists>pp'. plan_overlay operation' r t (pp_manifest pp) seen' content' baseline' = Inr pp' \<and> pp_state pp' = None \<and>
    pp_manifest pp' = pp_manifest pp"
  using assms(1)
proof (rule plan_overlayE)
  fix b e ov action reason bytes candidate
  assume m: "block_markers (get t ''markers'') = Inr (b, e)"
    and ov: "(if old = None \<and> unmarked content b e then Inr (overlay_insertion content b e)
      else overlay_parts content (get t ''markers'')) = Inr ov"
    and act: "overlay_action operation old (old = None \<and> unmarked content b e) (sha256_hex (ov_block ov))
       (sha256_hex (st_candidate_bytes r)) = Inr (action, reason)"
    and bytes: "bytes = overlay_bytes ov (st_candidate_bytes r)"
    and pp: "pp = path_result (observation_document (st_path r) seen ''unique'' (sha256_hex (ov_block ov))) r seen baseline
       candidate action reason (if action \<noteq> ''no-op'' then Some candidate else None)
       (if action \<noteq> ''no-op'' then Some bytes else None)
       (if action = ''no-op'' \<and> old \<noteq> None then old
        else Some (manifest_record r candidate (st_ownership r) (sha256_hex (st_candidate_bytes r)) False
          (Some (ov_begin ov, ov_end ov))))"
  have "\<exists>ov'. overlay_parts content' (get t ''markers'') = Inr ov' \<and> sha256_hex (ov_block ov') = sha256_hex (st_candidate_bytes r)"
  proof (cases "action = ''no-op''")
    case True
    then have n: "\<not> (old = None \<and> unmarked content b e)" "sha256_hex (ov_block ov) = sha256_hex (st_candidate_bytes r)"
      using act by (auto simp: overlay_action_def split: option.splits if_splits)
    have "content' = content" using assms(2) by (simp add: pp path_result_def True)
    then show ?thesis using ov [unfolded if_not_P [OF n(1)]] n(2) by auto
  next
    case False
    then have "content' = Some bytes" "pp_content pp = Some bytes" using assms(2) by (simp_all add: pp path_result_def)
    then show ?thesis using assms(3) [of bytes] by auto
  qed
  then obtain ov' where ov': "overlay_parts content' (get t ''markers'') = Inr ov'"
      "sha256_hex (ov_block ov') = sha256_hex (st_candidate_bytes r)" by blast
  obtain rec where rec: "pp_manifest pp = Some rec" "get rec ''managed_block_hash'' = PStr (sha256_hex (st_candidate_bytes r))"
  proof (cases "action = ''no-op'' \<and> old \<noteq> None")
    case True
    then obtain rec where "old = Some rec" by blast
    then show ?thesis using act True that [of rec] by (auto simp: pp path_result_def overlay_action_def split: if_splits)
  next
    case False
    then show ?thesis using that by (auto simp: pp path_result_def get_manifest_record)
  qed
  show "\<exists>pp'. plan_overlay operation' r t (pp_manifest pp) seen' content' baseline' = Inr pp' \<and> pp_state pp' = None \<and>
    pp_manifest pp' = pp_manifest pp"
    by (simp add: plan_overlay_def m rec ov' Let_def overlay_action_def path_result_def)
qed

lemma replan_adopted:
  assumes "plan_adopted r old seen baseline = Inr pp" and "valid_file_state seen" and "old \<noteq> None \<Longrightarrow> valid_file_state baseline"
    and "\<exists>rec. pp_manifest pp = Some rec \<and> record_state rec = Inr baseline'"
  shows "\<exists>pp'. plan_adopted r (pp_manifest pp) seen' baseline' = Inr pp' \<and> pp_state pp' = None \<and> pp_manifest pp' = pp_manifest pp"
proof -
  let ?f = "if old \<noteq> None then baseline else seen"
  have m: "pp_manifest pp = Some (manifest_record r ?f (st_ownership r) CANONICAL_NULL False None)"
    using assms(1) by (auto simp: plan_adopted_def Let_def path_result_def)
  have "valid_file_state ?f" using assms(2,3) by simp
  then have "baseline' = ?f" using assms(4) unfolding m by (auto simp: record_state_written)
  then show ?thesis by (simp add: plan_adopted_def m Let_def path_result_def)
qed

lemma replan_create_once:
  assumes "plan_create_once r old seen baseline = Inr pp"
  shows "\<exists>pp'. plan_create_once r (pp_manifest pp) seen' baseline' = Inr pp' \<and> pp_state pp' = None \<and> pp_manifest pp' = pp_manifest pp"
proof -
  have "\<exists>rec \<in> set_option (pp_manifest pp). get rec ''created_once'' = PBool True"
    using assms by (auto simp: plan_create_once_def Let_def path_result_def get_manifest_record split: if_splits)
  then show ?thesis by (simp add: plan_create_once_def Let_def path_result_def)
qed

lemma replan_user_owned:
  assumes "plan_user_owned r old seen baseline = Inr pp"
  shows "\<exists>pp'. plan_user_owned r (pp_manifest pp) seen' baseline' = Inr pp' \<and> pp_state pp' = None \<and> pp_manifest pp' = pp_manifest pp"
  using assms by (auto simp: plan_user_owned_def path_result_def)

lemma staged_cases:
  assumes "stage_path operation r t old seen content baseline = Inr pp"
  obtains target where "t = Some target" and "contract_matches target r"
    and "st_ownership r = ''managed'' \<and> plan_managed operation r old seen baseline = Inr pp \<or>
      st_ownership r = ''overlay-managed'' \<and> plan_overlay operation r target old seen content baseline = Inr pp \<or>
      st_ownership r = ''adopted'' \<and> plan_adopted r old seen baseline = Inr pp \<or>
      st_ownership r = ''create-once-then-user-owned'' \<and> plan_create_once r old seen baseline = Inr pp \<or>
      st_ownership r = ''user-owned'' \<and> plan_user_owned r old seen baseline = Inr pp"
  using assms by (auto simp: stage_path_def split: option.splits if_splits)

lemma replan_stage:
  assumes "stage_path operation r (Some t) old seen content baseline = Inr pp"
    and "valid_file_state (candidate_state r)" and "valid_file_state seen" and "old \<noteq> None \<Longrightarrow> valid_file_state baseline"
    and seen': "seen' = (case pp_state pp of None \<Rightarrow> seen | Some c \<Rightarrow> c\<lparr>fs_block := CANONICAL_NULL\<rparr>)"
    and content': "content' = (case pp_state pp of None \<Rightarrow> content | Some c \<Rightarrow> pp_content pp)"
    and found: "\<And>bs. pp_content pp = Some bs \<Longrightarrow> st_ownership r = ''overlay-managed'' \<Longrightarrow>
      \<exists>ov. overlay_parts (Some bs) (get t ''markers'') = Inr ov \<and> ov_block ov = st_candidate_bytes r"
    and base': "(case pp_manifest pp of Some rec \<Rightarrow> record_state rec | None \<Rightarrow> Inr (absent_file (st_path r))) = Inr baseline'"
  shows "\<exists>pp'. stage_path operation' r (Some t) (pp_manifest pp) seen' content' baseline' = Inr pp' \<and> pp_state pp' = None \<and>
    pp_manifest pp' = pp_manifest pp"
  using assms(1)
proof (rule staged_cases)
  fix target assume t: "Some t = Some target" and c: "contract_matches target r"
    and how: "st_ownership r = ''managed'' \<and> plan_managed operation r old seen baseline = Inr pp \<or>
      st_ownership r = ''overlay-managed'' \<and> plan_overlay operation r target old seen content baseline = Inr pp \<or>
      st_ownership r = ''adopted'' \<and> plan_adopted r old seen baseline = Inr pp \<or>
      st_ownership r = ''create-once-then-user-owned'' \<and> plan_create_once r old seen baseline = Inr pp \<or>
      st_ownership r = ''user-owned'' \<and> plan_user_owned r old seen baseline = Inr pp"
  have tt: "target = t" using t by simp
  from how show ?thesis
  proof (elim disjE conjE)
    assume a: "st_ownership r = ''managed''" "plan_managed operation r old seen baseline = Inr pp"
    have "seen' = (case pp_state pp of None \<Rightarrow> seen | Some c \<Rightarrow> c)"
      using a(2) seen' by (auto simp: plan_managed_def Let_def path_result_def candidate_state_def regular_file_def
          split: option.splits if_splits)
    moreover have "\<exists>rec. pp_manifest pp = Some rec \<and> record_state rec = Inr baseline'"
      using a(2) base' by (auto simp: plan_managed_def Let_def path_result_def split: option.splits if_splits)
    ultimately show ?thesis
      using replan_managed [OF a(2) assms(2)] c tt by (auto simp: stage_path_def a(1))
  next
    assume a: "st_ownership r = ''overlay-managed''" "plan_overlay operation r target old seen content baseline = Inr pp"
    then show ?thesis
      using replan_overlay [OF a(2) content'] found c tt by (auto simp: stage_path_def a(1))
  next
    assume a: "st_ownership r = ''adopted''" "plan_adopted r old seen baseline = Inr pp"
    have "\<exists>rec. pp_manifest pp = Some rec \<and> record_state rec = Inr baseline'"
      using a(2) base' by (auto simp: plan_adopted_def Let_def path_result_def)
    then show ?thesis
      using replan_adopted [OF a(2) assms(3,4)] c tt by (auto simp: stage_path_def a(1))
  next
    assume a: "st_ownership r = ''create-once-then-user-owned''" "plan_create_once r old seen baseline = Inr pp"
    then show ?thesis using replan_create_once [OF a(2)] c tt by (auto simp: stage_path_def a(1))
  next
    assume a: "st_ownership r = ''user-owned''" "plan_user_owned r old seen baseline = Inr pp"
    then show ?thesis using replan_user_owned [OF a(2)] c tt by (auto simp: stage_path_def a(1))
  qed
qed

text \<open>What a staged path leaves in the Manifest: a record under its path, with a state that can be read.\<close>

lemma valid_overlay_candidate:
  assumes "canonical_path p" and "valid_file_state seen"
  shows "valid_file_state (regular_file p (sha256_hex bs) (if \<not> fs_exists seen then ''0644'' else fs_mode seen) (sha256_hex bs'))"
  using assms mode_0644 by (auto simp: valid_file_state_def regular_file_def sha256_hex_is_sha256)

lemma staged_manifest:
  assumes "stage_path operation r t old seen content baseline = Inr pp" and "pp_manifest pp = Some rec"
    and "valid_file_state (candidate_state r)" and "valid_file_state seen" and "old \<noteq> None \<Longrightarrow> valid_file_state baseline"
    and "\<And>d. old = Some d \<Longrightarrow> record_state d = Inr baseline \<and> lookup d ''path'' = Inr (PStr (st_path r)) \<and> wf_pyval (PDict d)"
  shows "(\<exists>b. record_state rec = Inr b) \<and> lookup rec ''path'' = Inr (PStr (st_path r)) \<and> wf_pyval (PDict rec)"
proof -
  have made: "(\<exists>b. record_state (manifest_record r f w h c m) = Inr b) \<and>
      lookup (manifest_record r f w h c m) ''path'' = Inr (PStr (st_path r)) \<and> wf_pyval (PDict (manifest_record r f w h c m))"
    if "valid_file_state f" for f w h c m
    using record_state_written [OF that] lookup_manifest_record
    by (auto simp: manifest_record_def file_state_document_def markers_document_def keys_def split: option.split prod.split)
  have p: "canonical_path (st_path r)" using assms(3) by (simp add: valid_file_state_def candidate_state_def regular_file_def)
  from assms(1) show ?thesis
  proof (rule staged_cases)
    fix target assume "st_ownership r = ''managed'' \<and> plan_managed operation r old seen baseline = Inr pp \<or>
      st_ownership r = ''overlay-managed'' \<and> plan_overlay operation r target old seen content baseline = Inr pp \<or>
      st_ownership r = ''adopted'' \<and> plan_adopted r old seen baseline = Inr pp \<or>
      st_ownership r = ''create-once-then-user-owned'' \<and> plan_create_once r old seen baseline = Inr pp \<or>
      st_ownership r = ''user-owned'' \<and> plan_user_owned r old seen baseline = Inr pp"
    then show ?thesis
    proof (elim disjE conjE)
      assume "plan_managed operation r old seen baseline = Inr pp"
      then have "rec = manifest_record r (candidate_state r) (st_ownership r) CANONICAL_NULL False None"
        using assms(2) by (auto simp: plan_managed_def Let_def path_result_def split: option.splits if_splits)
      then show ?thesis using made [OF assms(3)] by simp
    next
      assume "plan_overlay operation r target old seen content baseline = Inr pp"
      then show ?thesis
      proof (rule plan_overlayE, goal_cases)
        case (1 b e ov action reason bytes candidate)
        have "valid_file_state candidate" unfolding 1(5) 1(4) by (rule valid_overlay_candidate [OF p assms(4)])
        then show ?case using assms(2,6) made by (auto simp: 1(6) path_result_def split: if_splits)
      qed
    next
      assume "plan_adopted r old seen baseline = Inr pp"
      then have "rec = manifest_record r (if old \<noteq> None then baseline else seen) (st_ownership r) CANONICAL_NULL False None"
        using assms(2) by (auto simp: plan_adopted_def Let_def path_result_def)
      moreover have "valid_file_state (if old \<noteq> None then baseline else seen)" using assms(4,5) by simp
      ultimately show ?thesis using made by simp
    next
      assume "plan_create_once r old seen baseline = Inr pp"
      then have "old = Some rec \<or> rec = manifest_record r (candidate_state r) ''user-owned'' CANONICAL_NULL True None"
        using assms(2) by (auto simp: plan_create_once_def Let_def path_result_def split: if_splits)
      then show ?thesis using made [OF assms(3)] assms(6) by auto
    next
      assume "plan_user_owned r old seen baseline = Inr pp"
      then have "old = Some rec" using assms(2) by (auto simp: plan_user_owned_def path_result_def)
      then show ?thesis using assms(6) by auto
    qed
  qed
qed

section \<open>The whole plan again\<close>

definition keyed_manifest :: "(string \<Rightarrow> path_plan) \<Rightarrow> string list \<Rightarrow> (string \<times> dict) list" where
  "keyed_manifest F paths = concat (map (\<lambda>p. case pp_manifest (F p) of None \<Rightarrow> [] | Some d \<Rightarrow> [(p, d)]) paths)"

lemma keyed_manifest_member: "(p, d) \<in> set (keyed_manifest F paths) \<longleftrightarrow> p \<in> set paths \<and> pp_manifest (F p) = Some d"
  by (auto simp: keyed_manifest_def split: option.splits)

lemma keyed_manifest_facts:
  "map snd (keyed_manifest F paths) = concat (map (\<lambda>p. option_list (pp_manifest (F p))) paths)"
  "sorted paths \<Longrightarrow> sorted (map fst (keyed_manifest F paths))"
  "distinct paths \<Longrightarrow> distinct (map fst (keyed_manifest F paths))"
  "distinct paths \<Longrightarrow> map_of (keyed_manifest F paths) p = (if p \<in> set paths then pp_manifest (F p) else None)"
proof -
  show "map snd (keyed_manifest F paths) = concat (map (\<lambda>p. option_list (pp_manifest (F p))) paths)"
    by (induction paths) (auto simp: keyed_manifest_def option_list_def split: option.splits)
  have sub: "fst ` set (keyed_manifest F ps) \<subseteq> set ps" for ps by (auto simp: keyed_manifest_def split: option.splits)
  show "sorted paths \<Longrightarrow> sorted (map fst (keyed_manifest F paths))"
  proof (induction paths)
    case (Cons p ps)
    then show ?case using sub [of ps] by (auto simp: keyed_manifest_def split: option.splits)
  qed (simp add: keyed_manifest_def)
  assume "distinct paths"
  note ck = concat_option_keys [OF this, of "\<lambda>p. pp_manifest (F p)"]
  show "distinct (map fst (keyed_manifest F paths))"
    "map_of (keyed_manifest F paths) p = (if p \<in> set paths then pp_manifest (F p) else None)"
    unfolding keyed_manifest_def using ck by simp_all
qed

lemma mapr_keyed:
  assumes "\<And>p d. (p, d) \<in> set kd \<Longrightarrow> lookup d ''path'' = Inr (PStr p)"
  shows "mapr (\<lambda>d. bnd (lookup d ''path'') (\<lambda>p. Inr (py_str p, d))) (map snd kd) = Inr kd"
  using assms
proof (induction kd)
  case (Cons x xs)
  have l: "lookup (snd x) ''path'' = Inr (PStr (fst x))" by (rule Cons.prems) simp
  have ih: "mapr (\<lambda>d. bnd (lookup d ''path'') (\<lambda>p. Inr (py_str p, d))) (map snd xs) = Inr xs"
    by (rule Cons.IH) (rule Cons.prems, simp)
  show ?case by (simp add: l ih)
qed simp

lemma manifest_records_build:
  assumes "distinct (map fst kd)" and "\<And>p d. (p, d) \<in> set kd \<Longrightarrow> lookup d ''path'' = Inr (PStr p) \<and> canonical_path p"
  shows "manifest_records (map snd kd) = Inr kd"
proof -
  have "distinct (map fst (acc @ kd)) \<Longrightarrow> \<forall>(p, d) \<in> set kd. lookup d ''path'' = Inr (PStr p) \<and> canonical_path p \<Longrightarrow>
      foldr_res add_manifest_record acc (map snd kd) = Inr (acc @ kd)" for acc
  proof (induction kd arbitrary: acc)
    case (Cons x kd)
    obtain p d where x: "x = (p, d)" by (cases x)
    then have l: "lookup d ''path'' = Inr (PStr p)" "canonical_path p" using Cons.prems(2) by auto
    then have "get d ''path'' = PStr p" by (auto simp: lookup_def get_def split: option.splits)
    moreover have "normalize_path (PStr p) = Inr p" using l(2) by (simp add: normalize_path_Inr_iff)
    ultimately have "add_manifest_record acc d = Inr (acc @ [(p, d)])"
      using Cons.prems(1) by (auto simp: add_manifest_record_def as_str_def has_key_def x)
    then show ?case using Cons.IH [of "acc @ [(p, d)]"] Cons.prems by (simp add: x)
  qed simp
  from this [of "[]"] assms show ?thesis by (auto simp: manifest_records_def)
qed

lemma plan_ownershipI:
  assumes "ownership_definitions definitions = Inr defs" "manifest_records records = Inr previous" "plan_targets tree defs = Inr targets"
    and "set (keys observed) = set (plan_paths tree previous)"
    and F: "\<And>p. p \<in> set (plan_paths tree previous) \<Longrightarrow> plan_path operation (staged_index tree) targets previous observed p = Inr (F p)"
    and path: "\<And>p d. p \<in> set (plan_paths tree previous) \<Longrightarrow> pp_manifest (F p) = Some d \<Longrightarrow> lookup d ''path'' = Inr (PStr p)"
  shows "\<exists>plan. plan_ownership tree definitions records observed operation = Inr plan \<and>
    op_has_file_changes plan = (\<exists>p \<in> set (plan_paths tree previous). pp_state (F p) \<noteq> None) \<and>
    op_manifest_file_records plan = map snd (keyed_manifest F (plan_paths tree previous)) \<and>
    op_has_manifest_changes plan =
      (\<not> same_dicts (map snd (keyed_manifest F (plan_paths tree previous))) (map snd (sort_items previous)))"
proof -
  let ?P = "plan_paths tree previous"
  have plans: "mapr (plan_path operation (staged_index tree) targets previous observed) ?P = Inr (map F ?P)"
    by (rule mapr_pure) (rule F)
  have kd: "concat (map (\<lambda>pp. option_list (pp_manifest pp)) (map F ?P)) = map snd (keyed_manifest F ?P)"
    by (simp add: keyed_manifest_facts(1) comp_def)
  have keyed: "mapr (\<lambda>d. bnd (lookup d ''path'') (\<lambda>p. Inr (py_str p, d))) (map snd (keyed_manifest F ?P)) = Inr (keyed_manifest F ?P)"
    by (rule mapr_keyed) (use path in \<open>simp add: keyed_manifest_member\<close>)
  have "sorted (map fst (keyed_manifest F ?P))" by (rule keyed_manifest_facts(2)) (simp add: plan_paths_def)
  then have sorted: "sort_key fst (keyed_manifest F ?P) = keyed_manifest F ?P" by (rule sort_key_id_if_sorted)
  have same: "same_strs (keys observed) ?P" using assms(4) by (simp add: same_strs_iff)
  show ?thesis
    unfolding plan_ownership_def Let_def plan_targets_def [symmetric] plan_paths_def [symmetric] option_list_def [symmetric]
    by (simp add: assms(1-3) same plans kd [simplified] keyed sorted) (auto simp: option_list_def split: option.splits)
qed

text \<open>The plan was carried out: what is observed now is the candidate where there was one and else what it was.\<close>

definition candidate_for :: "ownership_plan \<Rightarrow> string \<Rightarrow> file_state option" where
  "candidate_for plan p = List.find (\<lambda>c. fs_path c = p) (op_candidate_file_states plan)"

definition carried_out :: "staged_render_tree \<Rightarrow> ownership_plan \<Rightarrow> dict \<Rightarrow> dict \<Rightarrow> bool" where
  "carried_out tree plan observed observed' =
     (same_strs (keys observed') (map st_path (tree_files tree)) \<and>
      list_all (\<lambda>p. bnd (lookup observed' p) (observed_file p) = (case candidate_for plan p of
          Some c \<Rightarrow> Inr (c\<lparr>fs_block := CANONICAL_NULL\<rparr>, map_of (op_candidate_contents plan) p)
        | None \<Rightarrow> bnd (lookup observed p) (observed_file p))) (map st_path (tree_files tree)))"

text \<open>Every new file with a managed block can be split at its markers again.\<close>

definition blocks_found :: "dict list \<Rightarrow> staged_render_tree \<Rightarrow> ownership_plan \<Rightarrow> bool" where
  "blocks_found definitions tree plan = (case bnd (ownership_definitions definitions) (plan_targets tree) of
     Inl _ \<Rightarrow> True
   | Inr targets \<Rightarrow> list_all (\<lambda>(p, bs). case (map_of (staged_index tree) p, map_of targets p) of
         (Some r, Some t) \<Rightarrow> st_ownership r \<noteq> ''overlay-managed'' \<or>
           (case overlay_parts (Some bs) (get t ''markers'') of Inl _ \<Rightarrow> False | Inr ov \<Rightarrow> ov_block ov = st_candidate_bytes r)
       | _ \<Rightarrow> True) (op_candidate_contents plan))"

definition staged_valid :: "staged_render_tree \<Rightarrow> bool" where
  "staged_valid tree = list_all (\<lambda>r. valid_file_state (candidate_state r)) (tree_files tree)"

lemma staged_valid_index: "staged_valid tree \<Longrightarrow> map_of (staged_index tree) p = Some r \<Longrightarrow> valid_file_state (candidate_state r)"
  unfolding staged_index_def map_of_dict_display staged_valid_def list_all_iff by (drule map_of_SomeD) auto

lemma staged_index_dom: "(\<exists>r. map_of (staged_index tree) p = Some r) \<longleftrightarrow> p \<in> st_path ` set (tree_files tree)"
proof -
  have "(\<exists>r. map_of (staged_index tree) p = Some r) \<longleftrightarrow> p \<in> fst ` set (staged_index tree)"
    by (metis domIff dom_map_of_conv_image_fst not_None_eq)
  then show ?thesis by (simp add: staged_index_def set_keys_dict_display image_image)
qed

lemma candidate_for_path:
  assumes states: "op_candidate_file_states plan = sort_key fs_path (concat (map (\<lambda>p. option_list (pp_state (F p))) paths))"
    and path: "\<And>p c. p \<in> set paths \<Longrightarrow> pp_state (F p) = Some c \<Longrightarrow> fs_path c = p" and p: "p \<in> set paths"
  shows "candidate_for plan p = pp_state (F p)"
proof -
  have mem: "c \<in> set (op_candidate_file_states plan) \<longleftrightarrow> (\<exists>q \<in> set paths. pp_state (F q) = Some c)" for c
    by (auto simp: states)
  show ?thesis
  proof (cases "pp_state (F p)")
    case None
    then have "\<not> (\<exists>c \<in> set (op_candidate_file_states plan). fs_path c = p)" using mem path by auto
    then show ?thesis by (auto simp: candidate_for_def None find_None_iff)
  next
    case (Some c)
    have "c \<in> set (op_candidate_file_states plan)" "fs_path c = p" using mem path p Some by auto
    then have "candidate_for plan p \<noteq> None" by (auto simp: candidate_for_def find_None_iff)
    then obtain c' where c': "candidate_for plan p = Some c'" by blast
    then have "c' \<in> set (op_candidate_file_states plan)" "fs_path c' = p"
      by (auto simp: candidate_for_def find_Some_iff)
    then obtain q where "q \<in> set paths" "pp_state (F q) = Some c'" using mem by auto
    then show ?thesis using path \<open>fs_path c' = p\<close> c' by auto
  qed
qed

lemma py_eq_same: "wf_pyval v \<Longrightarrow> py_eq v v"
proof (induction v rule: canon.induct)
  case (1 xs)
  then have "\<forall>x \<in> set xs. py_eq x x" by (simp add: list_all_iff)
  then have "py_eq_list xs xs" by (induction xs) auto
  then show ?case by simp
next
  case (2 d)
  have "py_eq (snd x) (snd x)" if "x \<in> set d" for x
    using 2 that by (cases x) (auto simp: list_all_iff)
  moreover have "map_of d (fst x) = Some (snd x)" if "x \<in> set d" for x
    using 2 that by (cases x) (simp add: keys_def map_of_eq_Some_iff)
  ultimately have "py_eq_items d d" unfolding py_eq_items_iff by (metis (mono_tags, lifting) case_prodI2 fst_conv snd_conv)
  then show ?case by simp
qed simp_all

lemma same_dicts_refl: "\<forall>d \<in> set ds. wf_pyval (PDict d) \<Longrightarrow> same_dicts ds ds"
  unfolding same_dicts_def by (rule py_eq_same) (simp add: list_all_iff)

lemma retired_no_manifest:
  assumes "plan_path operation staged targets previous observed p = Inr pp" and "map_of staged p = None"
  shows "pp_manifest pp = None"
  using assms(1) by (rule plan_pathE)
    (use assms(2) in \<open>auto simp: retire_path_def Let_def path_result_def bnd_Inr_iff split: if_splits\<close>)

text \<open>What one path leaves in the Manifest.\<close>

lemma path_record:
  assumes pp: "plan_path operation (staged_index tree) targets previous observed p = Inr pp" and d: "pp_manifest pp = Some d"
    and valid: "\<And>r. map_of (staged_index tree) p = Some r \<Longrightarrow> valid_file_state (candidate_state r)"
    and old: "\<And>d. map_of previous p = Some d \<Longrightarrow> lookup d ''path'' = Inr (PStr p) \<and> wf_pyval (PDict d)"
  shows "(\<exists>b. record_state d = Inr b) \<and> lookup d ''path'' = Inr (PStr p) \<and> wf_pyval (PDict d)"
proof -
  obtain r where r: "map_of (staged_index tree) p = Some r" using retired_no_manifest [OF pp] d by fastforce
  from pp obtain raw seen content baseline where raw: "observed_file p raw = Inr (seen, content)"
    and base: "(case map_of previous p of Some old \<Rightarrow> record_state old | None \<Rightarrow> Inr (absent_file p)) = Inr baseline"
    and how: "(\<exists>r. map_of (staged_index tree) p = Some r \<and> stage_path operation r (map_of targets p) (map_of previous p) seen content baseline = Inr pp) \<or>
     (\<exists>old. map_of (staged_index tree) p = None \<and> map_of previous p = Some old \<and> retire_path p old seen content baseline = Inr pp)"
    by (rule plan_pathE)
  have st: "stage_path operation r (map_of targets p) (map_of previous p) seen content baseline = Inr pp"
    using how r by auto
  have rp: "st_path r = p" by (rule staged_index_path [OF r])
  have vb: "map_of previous p \<noteq> None \<Longrightarrow> valid_file_state baseline"
    using base by (auto simp: record_state_def bnd_Inr_iff file_state_accepted_valid)
  have od: "record_state d = Inr baseline \<and> lookup d ''path'' = Inr (PStr (st_path r)) \<and> wf_pyval (PDict d)"
    if "map_of previous p = Some d" for d
    using old [OF that] base that by (simp add: rp)
  show ?thesis by (rule staged_manifest [OF st d valid [OF r] observed_file_content(4) [OF raw] vb od, unfolded rp])
qed

text \<open>One staged path: the first pass, and the pass after the plan was carried out.\<close>

lemma replan_path:
  assumes pp: "plan_path operation (staged_index tree) targets previous observed p = Inr pp"
    and r: "map_of (staged_index tree) p = Some r" and valid: "valid_file_state (candidate_state r)"
    and old: "\<And>d. map_of previous p = Some d \<Longrightarrow> lookup d ''path'' = Inr (PStr p) \<and> wf_pyval (PDict d)"
    and seen': "bnd (lookup observed' p) (observed_file p) = (case pp_state pp of
          Some c \<Rightarrow> Inr (c\<lparr>fs_block := CANONICAL_NULL\<rparr>, pp_content pp)
        | None \<Rightarrow> bnd (lookup observed p) (observed_file p))"
    and found: "\<And>bs t. pp_content pp = Some bs \<Longrightarrow> map_of targets p = Some t \<Longrightarrow> st_ownership r = ''overlay-managed'' \<Longrightarrow>
      \<exists>ov. overlay_parts (Some bs) (get t ''markers'') = Inr ov \<and> ov_block ov = st_candidate_bytes r"
    and previous': "map_of previous' p = pp_manifest pp"
  shows "\<exists>pp'. plan_path operation' (staged_index tree) targets previous' observed' p = Inr pp' \<and> pp_state pp' = None \<and>
      pp_manifest pp' = pp_manifest pp"
    and "pp_manifest pp = Some rec \<Longrightarrow> lookup rec ''path'' = Inr (PStr p) \<and> wf_pyval (PDict rec)"
proof -
  from pp obtain raw seen content baseline where
    raw: "lookup observed p = Inr raw" "observed_file p raw = Inr (seen, content)"
    and base: "(case map_of previous p of Some old \<Rightarrow> record_state old | None \<Rightarrow> Inr (absent_file p)) = Inr baseline"
    and how: "(\<exists>r. map_of (staged_index tree) p = Some r \<and> stage_path operation r (map_of targets p) (map_of previous p) seen content baseline = Inr pp) \<or>
     (\<exists>old. map_of (staged_index tree) p = None \<and> map_of previous p = Some old \<and> retire_path p old seen content baseline = Inr pp)"
    by (rule plan_pathE)
  have st: "stage_path operation r (map_of targets p) (map_of previous p) seen content baseline = Inr pp"
    using how r by auto
  then obtain t where t: "map_of targets p = Some t" by (rule staged_cases)
  note stt = st [unfolded t]
  have rp: "st_path r = p" by (rule staged_index_path [OF r])
  have vs: "valid_file_state seen" by (rule observed_file_content(4) [OF raw(2)])
  have vb: "map_of previous p \<noteq> None \<Longrightarrow> valid_file_state baseline"
    using base by (auto simp: record_state_def bnd_Inr_iff file_state_accepted_valid)
  have rec: "(\<exists>b. record_state d = Inr b) \<and> lookup d ''path'' = Inr (PStr (st_path r)) \<and> wf_pyval (PDict d)"
    if "pp_manifest pp = Some d" for d
    unfolding rp by (rule path_record [OF pp that _ old]) (use r valid in auto)
  then show "pp_manifest pp = Some rec \<Longrightarrow> lookup rec ''path'' = Inr (PStr p) \<and> wf_pyval (PDict rec)" by (simp add: rp)
  have "\<exists>b. (case pp_manifest pp of Some d \<Rightarrow> record_state d | None \<Rightarrow> Inr (absent_file (st_path r))) = Inr b"
    using rec by (cases "pp_manifest pp") auto
  then obtain baseline' where base': "(case pp_manifest pp of Some d \<Rightarrow> record_state d | None \<Rightarrow> Inr (absent_file (st_path r))) = Inr baseline'"
    by blast
  let ?seen = "case pp_state pp of None \<Rightarrow> seen | Some c \<Rightarrow> c\<lparr>fs_block := CANONICAL_NULL\<rparr>"
  let ?content = "case pp_state pp of None \<Rightarrow> content | Some c \<Rightarrow> pp_content pp"
  from replan_stage [OF stt valid vs vb refl refl found base', of operation'] t obtain pp' where
    pp': "stage_path operation' r (Some t) (pp_manifest pp) ?seen ?content baseline' = Inr pp'" "pp_state pp' = None"
      "pp_manifest pp' = pp_manifest pp" by blast
  have "bnd (lookup observed' p) (observed_file p) = Inr (?seen, ?content)"
    unfolding seen' using raw by (cases "pp_state pp") simp_all
  then have "plan_path operation' (staged_index tree) targets previous' observed' p = Inr pp'"
    unfolding plan_path_def using pp'(1) base' [unfolded rp] by (simp add: r t previous')
  then show "\<exists>pp'. plan_path operation' (staged_index tree) targets previous' observed' p = Inr pp' \<and> pp_state pp' = None \<and>
      pp_manifest pp' = pp_manifest pp"
    using pp' by blast
qed

lemma blocks_found_at:
  assumes "blocks_found definitions tree plan" and "ownership_definitions definitions = Inr defs" and "plan_targets tree defs = Inr targets"
    and "map_of (staged_index tree) p = Some r" and "map_of targets p = Some t" and "st_ownership r = ''overlay-managed''"
    and "map_of (op_candidate_contents plan) p = Some bs"
  shows "\<exists>ov. overlay_parts (Some bs) (get t ''markers'') = Inr ov \<and> ov_block ov = st_candidate_bytes r"
proof -
  have m: "(p, bs) \<in> set (op_candidate_contents plan)" using assms(7) by (rule map_of_SomeD)
  have "list_all (\<lambda>(p, bs). case (map_of (staged_index tree) p, map_of targets p) of
         (Some r, Some t) \<Rightarrow> st_ownership r \<noteq> ''overlay-managed'' \<or>
           (case overlay_parts (Some bs) (get t ''markers'') of Inl _ \<Rightarrow> False | Inr ov \<Rightarrow> ov_block ov = st_candidate_bytes r)
       | _ \<Rightarrow> True) (op_candidate_contents plan)"
    using assms(1) by (simp add: blocks_found_def assms(2,3))
  from bspec [OF this [unfolded list_all_iff] m]
  have "case overlay_parts (Some bs) (get t ''markers'') of Inl _ \<Rightarrow> False | Inr ov \<Rightarrow> ov_block ov = st_candidate_bytes r"
    unfolding prod.case assms(4,5) option.case using assms(6) by - (erule disjE, erule (1) notE, assumption)
  then show ?thesis by (cases "overlay_parts (Some bs) (get t ''markers'')") simp_all
qed

lemma records_indexed:
  assumes "manifest_records records = Inr previous" and "wf_pyval (PList (map PDict records))" and "map_of previous p = Some d"
  shows "lookup d ''path'' = Inr (PStr p) \<and> wf_pyval (PDict d)"
proof -
  have m: "(p, d) \<in> set previous" using assms(3) by (rule map_of_SomeD)
  then have "d \<in> set records"
    using manifest_records_paths(2) [OF assms(1)] by (metis in_set_zip snd_conv zip_map_fst_snd image_eqI set_map)
  then show ?thesis using manifest_records_paths(3) [OF assms(1) m] assms(2) by (simp add: list_all_iff)
qed

lemma carried_out_at:
  assumes "carried_out tree plan observed observed'" and "p \<in> st_path ` set (tree_files tree)"
  shows "bnd (lookup observed' p) (observed_file p) = (case candidate_for plan p of
          Some c \<Rightarrow> Inr (c\<lparr>fs_block := CANONICAL_NULL\<rparr>, map_of (op_candidate_contents plan) p)
        | None \<Rightarrow> bnd (lookup observed p) (observed_file p))"
  using assms unfolding carried_out_def list_all_iff set_map by blast

text \<open>All the paths of the second pass.\<close>

lemma replan_paths:
  assumes "\<forall>p \<in> set (plan_paths tree previous). plan_path operation (staged_index tree) targets previous observed p = Inr (F p)"
  shows "set (plan_paths tree (keyed_manifest F (plan_paths tree previous))) = st_path ` set (tree_files tree)"
proof -
  have "p \<in> st_path ` set (tree_files tree)" if "(p, d) \<in> set (keyed_manifest F (plan_paths tree previous))" for p d
    using that assms retired_no_manifest unfolding keyed_manifest_member staged_index_dom [symmetric]
    by (metis not_None_eq)
  then show ?thesis by (auto simp: keys_plan_paths)
qed

lemma keyed_manifest_again:
  assumes "\<And>p. p \<in> set ps' \<Longrightarrow> p \<in> set ps \<and> pp_manifest (F' p) = pp_manifest (F p)" and "sorted ps" "distinct ps" "sorted ps'" "distinct ps'"
    and "\<And>p. p \<in> set ps \<Longrightarrow> pp_manifest (F p) \<noteq> None \<Longrightarrow> p \<in> set ps'"
  shows "keyed_manifest F' ps' = keyed_manifest F ps"
proof -
  have set: "set (keyed_manifest F' ps') = set (keyed_manifest F ps)"
  proof (rule set_eqI)
    fix x show "x \<in> set (keyed_manifest F' ps') \<longleftrightarrow> x \<in> set (keyed_manifest F ps)"
      using assms(1,6) by (cases x) (auto simp: keyed_manifest_member)
  qed
  have dist: "distinct (map fst (keyed_manifest F' ps'))" "distinct (map fst (keyed_manifest F ps))"
    by (rule keyed_manifest_facts(3) [OF assms(5)], rule keyed_manifest_facts(3) [OF assms(3)])
  then have inj: "inj_on fst (set (keyed_manifest F' ps') \<union> set (keyed_manifest F ps))" using set by (simp add: distinct_map)
  show ?thesis
    by (rule map_sorted_distinct_set_unique [OF inj _ dist(1) _ dist(2) set]) (rule keyed_manifest_facts(2), fact)+
qed

lemma replan_member:
  assumes "\<forall>p \<in> set (plan_paths tree previous). plan_path operation (staged_index tree) targets previous observed p = Inr (F p)"
    and "(p, d) \<in> set (keyed_manifest F (plan_paths tree previous))"
  shows "p \<in> set (plan_paths tree previous)" and "p \<in> st_path ` set (tree_files tree)" and "pp_manifest (F p) = Some d"
proof -
  have "p \<in> set (plan_paths tree (keyed_manifest F (plan_paths tree previous)))"
    using assms(2) unfolding keys_plan_paths [of p tree "keyed_manifest F (plan_paths tree previous)"] by force
  then show "p \<in> set (plan_paths tree previous)" "p \<in> st_path ` set (tree_files tree)" "pp_manifest (F p) = Some d"
    using assms(2) by (simp_all add: replan_paths [OF assms(1)] keyed_manifest_member)
qed

lemma replan_whole:
  fixes F tree previous
  defines "kept \<equiv> keyed_manifest F (plan_paths tree previous)"
  assumes F: "\<forall>p \<in> set (plan_paths tree previous). plan_path operation (staged_index tree) targets previous observed p = Inr (F p)"
    and defs: "ownership_definitions definitions = Inr defs" and targets: "plan_targets tree defs = Inr targets"
    and canonical: "\<And>p. p \<in> st_path ` set (tree_files tree) \<Longrightarrow> canonical_path p"
    and again: "\<And>p. p \<in> st_path ` set (tree_files tree) \<Longrightarrow>
      \<exists>pp'. plan_path operation' (staged_index tree) targets kept observed' p = Inr pp' \<and> pp_state pp' = None \<and> pp_manifest pp' = pp_manifest (F p)"
    and written: "\<And>p d. p \<in> st_path ` set (tree_files tree) \<Longrightarrow> pp_manifest (F p) = Some d \<Longrightarrow>
      lookup d ''path'' = Inr (PStr p) \<and> wf_pyval (PDict d)"
    and keys: "set (keys observed') = st_path ` set (tree_files tree)"
  shows "\<exists>plan'. plan_ownership tree definitions (map snd kept) observed' operation' = Inr plan' \<and>
    \<not> op_has_file_changes plan' \<and> \<not> op_has_manifest_changes plan' \<and> op_manifest_file_records plan' = map snd kept"
proof -
  let ?P = "plan_paths tree previous" and ?P' = "plan_paths tree kept"
  have dist: "distinct ?P" and sorted: "sorted ?P" by (simp_all add: plan_paths_def)
  have P': "set ?P' = st_path ` set (tree_files tree)" unfolding kept_def by (rule replan_paths [OF F])
  note member = replan_member [OF F, folded kept_def]
  have "\<forall>p \<in> set ?P'. \<exists>pp'. plan_path operation' (staged_index tree) targets kept observed' p = Inr pp' \<and> pp_state pp' = None \<and>
      pp_manifest pp' = pp_manifest (F p)" using again P' by blast
  then obtain F' where F': "\<forall>p \<in> set ?P'. plan_path operation' (staged_index tree) targets kept observed' p = Inr (F' p) \<and>
      pp_state (F' p) = None \<and> pp_manifest (F' p) = pp_manifest (F p)" by (rule bchoice [THEN exE])
  have mf: "keyed_manifest F' ?P' = kept" unfolding kept_def
  proof (rule keyed_manifest_again [OF _ sorted dist], fold kept_def)
    show "sorted ?P'" "distinct ?P'" by (simp_all add: plan_paths_def)
    fix p
    show "p \<in> set ?P \<and> pp_manifest (F' p) = pp_manifest (F p)" if p: "p \<in> set ?P'"
      using bspec [OF F' p] p P' keys_plan_paths [of p tree previous] by blast
    assume "p \<in> set ?P" "pp_manifest (F p) \<noteq> None"
    then obtain d where "(p, d) \<in> set kept" unfolding kept_def keyed_manifest_member by blast
    then show "p \<in> set ?P'" unfolding P' by (rule member(2))
  qed
  have rec_at: "lookup d ''path'' = Inr (PStr p) \<and> canonical_path p" "wf_pyval (PDict d)" if "(p, d) \<in> set kept" for p d
    using member(2,3) [OF that] written canonical by blast+
  have distinct: "distinct (map fst kept)" and order: "sorted (map fst kept)"
    unfolding kept_def by (rule keyed_manifest_facts(3) [OF dist], rule keyed_manifest_facts(2) [OF sorted])
  have read: "manifest_records (map snd kept) = Inr kept" by (rule manifest_records_build [OF distinct rec_at(1)])
  have same: "same_dicts (map snd kept) (map snd (sort_items kept))"
    unfolding sort_items_def sort_key_id_if_sorted [OF order] by (rule same_dicts_refl) (use rec_at(2) in auto)
  have "pp_manifest (F' p) = Some d \<Longrightarrow> lookup d ''path'' = Inr (PStr p)" if p: "p \<in> set ?P'" for p d
    using bspec [OF F' p] p written unfolding P' by simp
  then obtain plan' where plan': "plan_ownership tree definitions (map snd kept) observed' operation' = Inr plan'"
      "op_has_file_changes plan' = (\<exists>p \<in> set ?P'. pp_state (F' p) \<noteq> None)"
      "op_manifest_file_records plan' = map snd (keyed_manifest F' ?P')"
      "op_has_manifest_changes plan' = (\<not> same_dicts (map snd (keyed_manifest F' ?P')) (map snd (sort_items kept)))"
    using plan_ownershipI [OF defs read targets keys [folded P'], where F = F' and operation = operation'] F' by blast
  then have "\<not> op_has_file_changes plan'" using F' by simp
  then show ?thesis using plan'(1,3,4) same unfolding mf by blast
qed

text \<open>
  C13: Reconciling twice does nothing the second time: when a plan was carried out, planning again from
  the Manifest it left and what is then observed, for any operation, plans no change of a file and
  none of the Manifest. The rendered states have to be valid, the keys of the Manifest records
  distinct, and every overlay block that was written has to be found again between its markers
  (\<open>blocks_found\<close>); a rendered block with a line that ends in its own marker is not, and the second
  plan then fails.
\<close>

theorem replan_is_noop:
  assumes "plan_ownership tree definitions records observed operation = Inr plan"
    and "staged_valid tree" and "wf_pyval (PList (map PDict records))"
    and "carried_out tree plan observed observed'" and "blocks_found definitions tree plan"
  shows "\<exists>plan'. plan_ownership tree definitions (op_manifest_file_records plan) observed' operation' = Inr plan' \<and>
    \<not> op_has_file_changes plan' \<and> \<not> op_has_manifest_changes plan' \<and>
    op_manifest_file_records plan' = op_manifest_file_records plan"
  using assms(1)
proof (rule plan_ownershipE)
  fix defs previous targets F keyed
  let ?P = "plan_paths tree previous"
  assume defs: "ownership_definitions definitions = Inr defs" and prev: "manifest_records records = Inr previous"
    and targets: "plan_targets tree defs = Inr targets"
    and F: "\<forall>p \<in> set ?P. plan_path operation (staged_index tree) targets previous observed p = Inr (F p)"
    and keyed: "mapr (\<lambda>d. bnd (lookup d ''path'') (\<lambda>p. Inr (py_str p, d))) (concat (map (\<lambda>p. option_list (pp_manifest (F p))) ?P)) = Inr keyed"
    and states: "op_candidate_file_states plan = sort_key fs_path (concat (map (\<lambda>p. option_list (pp_state (F p))) ?P))"
    and contents: "op_candidate_contents plan = sort_items (concat (map (\<lambda>p. case pp_content (F p) of None \<Rightarrow> [] | Some b \<Rightarrow> [(p, b)]) ?P))"
    and manifest: "op_manifest_file_records plan = map snd (sort_key fst keyed)"
  have dist: "distinct ?P" and sorted: "sorted ?P" by (simp_all add: plan_paths_def)
  have content_at: "map_of (op_candidate_contents plan) p = (if p \<in> set ?P then pp_content (F p) else None)" for p
    unfolding contents using concat_option_keys [OF dist, of "\<lambda>p. pp_content (F p)"]
    by (simp add: map_of_sort_items keys_def)
  have cand: "candidate_for plan p = pp_state (F p)" if "p \<in> set ?P" for p
    by (rule candidate_for_path [OF states _ that]) (use path_plan_path bspec [OF F] in blast)
  let ?prev' = "keyed_manifest F ?P"
  have prev'_at: "map_of ?prev' p = (if p \<in> set ?P then pp_manifest (F p) else None)" for p
    by (rule keyed_manifest_facts(4) [OF dist])
  have old: "lookup d ''path'' = Inr (PStr p) \<and> wf_pyval (PDict d)" if "map_of previous p = Some d" for p d
    by (rule records_indexed [OF prev assms(3) that])
  have again: "\<exists>pp'. plan_path operation' (staged_index tree) targets ?prev' observed' p = Inr pp' \<and> pp_state pp' = None \<and>
      pp_manifest pp' = pp_manifest (F p)"
    and written: "pp_manifest (F p) = Some d \<Longrightarrow> lookup d ''path'' = Inr (PStr p) \<and> wf_pyval (PDict d)"
    if p: "p \<in> st_path ` set (tree_files tree)" for p d
  proof -
    have pP: "p \<in> set ?P" using p by (simp add: keys_plan_paths)
    obtain r where r: "map_of (staged_index tree) p = Some r" using p staged_index_dom by blast
    have seen': "bnd (lookup observed' p) (observed_file p) = (case pp_state (F p) of
          Some c \<Rightarrow> Inr (c\<lparr>fs_block := CANONICAL_NULL\<rparr>, pp_content (F p))
        | None \<Rightarrow> bnd (lookup observed p) (observed_file p))"
      unfolding carried_out_at [OF assms(4) p] cand [OF pP] content_at if_P [OF pP] by (rule refl)
    have found: "\<exists>ov. overlay_parts (Some bs) (get t ''markers'') = Inr ov \<and> ov_block ov = st_candidate_bytes r"
      if "pp_content (F p) = Some bs" "map_of targets p = Some t" "st_ownership r = ''overlay-managed''" for bs t
      by (rule blocks_found_at [OF assms(5) defs targets r that(2,3)]) (simp add: content_at pP that(1))
    have pm: "map_of ?prev' p = pp_manifest (F p)" by (simp add: prev'_at pP)
    note path = replan_path [OF bspec [OF F pP] r staged_valid_index [OF assms(2) r] old seen' found pm]
    show "\<exists>pp'. plan_path operation' (staged_index tree) targets ?prev' observed' p = Inr pp' \<and> pp_state pp' = None \<and>
        pp_manifest pp' = pp_manifest (F p)"
      by (rule path(1))
    show "pp_manifest (F p) = Some d \<Longrightarrow> lookup d ''path'' = Inr (PStr p) \<and> wf_pyval (PDict d)"
      by (rule path(2))
  qed
  have "keyed = ?prev'"
    using keyed mapr_keyed [of ?prev'] replan_member [OF F] written by (simp add: keyed_manifest_facts(1)) 
  then have records: "op_manifest_file_records plan = map snd ?prev'"
    using manifest sort_key_id_if_sorted [OF keyed_manifest_facts(2) [OF sorted]] by metis
  show ?thesis unfolding records
  proof (rule replan_whole [OF F defs targets _ again written])
    show "set (keys observed') = st_path ` set (tree_files tree)"
      using assms(4) by (simp add: carried_out_def same_strs_iff)
    fix p assume p: "p \<in> st_path ` set (tree_files tree)"
    then obtain r where r: "map_of (staged_index tree) p = Some r" using staged_index_dom by blast
    show "canonical_path p"
      using staged_valid_index [OF assms(2) r] staged_index_path [OF r]
      by (simp add: valid_file_state_def candidate_state_def regular_file_def)
  qed
qed

section \<open>A small plan\<close>

definition sample_overlay :: staged_file where
  "sample_overlay = \<lparr>st_path = ''a'', st_definition_id = ''d'', st_surface_id = ''s'', st_ownership = ''overlay-managed'',
     st_merge_strategy = ''marked-block'', st_source_digest = sha256_hex [], st_render_digest = sha256_hex [],
     st_candidate_byte_hash = sha256_hex [0x68, 0x0A], st_mode_policy = ''preserve'', st_candidate_mode = ''0644'',
     st_validator_results = [], st_candidate_bytes = [0x68, 0x0A], st_neutral_source_bytes = []\<rparr>"

definition sample_render :: staged_render_tree where
  "sample_render = \<lparr>tree_files = [sample_overlay], content_root_digest = sha256_hex [], launcher_bundle_digest = sha256_hex [],
     distribution_render_digest = sha256_hex []\<rparr>"

definition sample_artifacts :: "dict list" where
  "sample_artifacts = [[(''id'', PStr ''d''), (''targets'', PList [PDict [(''path'', PStr ''a''), (''ownership'', PStr ''overlay-managed''),
     (''merge_strategy'', PStr ''marked-block''), (''mode_policy'', PStr ''preserve''),
     (''markers'', PDict [(''begin'', PStr ''B''), (''end'', PStr ''E'')])]])]]"

definition sample_seen :: "string \<Rightarrow> dict" where
  "sample_seen text = [(''a'', PDict [(''state'', PDict (file_state_document (regular_file ''a'' (sha256_hex (utf8_encode text)) ''0644'' CANONICAL_NULL))),
     (''content'', PStr text)])]"

definition sample_before :: string where
  "sample_before = [CHR ''x'', CHR 0x0A]"

definition sample_after :: string where
  "sample_after = [CHR ''x'', CHR 0x0A, CHR ''B'', CHR 0x0A, CHR ''h'', CHR 0x0A, CHR ''E'', CHR 0x0A]"

lemma sample_bytes:
  "utf8_encode sample_before = [0x78, 0x0A]"
  "utf8_encode sample_after = [0x78, 0x0A, 0x42, 0x0A, 0x68, 0x0A, 0x45, 0x0A]"
  "marker_token ''B'' = [0x42, 0x0A]" "marker_token ''E'' = [0x45, 0x0A]"
  by (simp_all add: sample_before_def sample_after_def marker_token_def utf8_encode_def utf8_char_def ord_def)

lemma sample_file_valid: "valid_file_state (regular_file ''a'' (sha256_hex bs) ''0644'' CANONICAL_NULL)"
  using mode_0644 by (simp add: valid_file_state_def regular_file_def sha256_hex_is_sha256 canonical_path_def windows_drive_def ord_def)

lemma sample_observed:
  "bnd (lookup (sample_seen t) ''a'') (observed_file ''a'') =
    Inr (regular_file ''a'' (sha256_hex (utf8_encode t)) ''0644'' CANONICAL_NULL, Some (utf8_encode t))"
  using file_state_reads_back [OF sample_file_valid [of "utf8_encode t"]]
  by (simp add: sample_seen_def lookup_def observed_file_def as_mapping_def get_def keys_def same_strs_iff observed_content_def)
    (simp add: regular_file_def same_strs_iff insert_commute)

definition sample_target_fields :: dict where
  "sample_target_fields = [(''path'', PStr ''a''), (''ownership'', PStr ''overlay-managed''),
     (''merge_strategy'', PStr ''marked-block''), (''mode_policy'', PStr ''preserve''),
     (''markers'', PDict [(''begin'', PStr ''B''), (''end'', PStr ''E'')]), (''definition_id'', PStr ''d'')]"

lemma normalize_sample: "normalize_path (PStr ''a'') = Inr ''a''"
  by (simp add: normalize_path_Inr_iff canonical_path_def windows_drive_def ord_def)

lemma sample_index: "staged_index sample_render = [(''a'', sample_overlay)]"
  by (simp add: staged_index_def sample_render_def sample_overlay_def dict_display_def)

lemma sample_definitions: "ownership_definitions sample_artifacts = Inr [(''a'', sample_target_fields)]"
  by (simp add: ownership_definitions_def sample_artifacts_def sample_target_fields_def get_def as_str_def target_list_def add_definition_target_def
    as_mapping_def normalize_sample has_key_def)

lemma sample_targets: "foldr_res (add_control_target [(''a'', sample_overlay)]) targets RECONCILER_CONTROL_TARGETS = Inr targets"
  by (simp add: RECONCILER_CONTROL_TARGETS_def add_control_target_def)

lemma sample_markers: "block_markers (get sample_target_fields ''markers'') = Inr (''B'', ''E'')"
  by (simp add: sample_target_fields_def get_def block_markers_def as_mapping_def same_strs_iff keys_def as_string_def)

lemma sample_contract: "contract_matches sample_target_fields sample_overlay"
  by (simp add: contract_matches_def sample_target_fields_def sample_overlay_def get_def)

abbreviation sample_written :: file_state where
  "sample_written \<equiv> regular_file ''a'' (sha256_hex (utf8_encode sample_after)) ''0644'' (sha256_hex [0x68, 0x0A])"

lemma sample_inserted:
  "overlay_bytes (overlay_insertion (Some (utf8_encode sample_before)) ''B'' ''E'') [0x68, 0x0A] = utf8_encode sample_after"
  by (simp add: overlay_bytes_def overlay_insertion_def sample_bytes)

lemma sample_unmarked: "unmarked (Some (utf8_encode sample_before)) ''B'' ''E''"
  by (simp add: unmarked_def sample_bytes)

abbreviation sample_found :: file_state where
  "sample_found \<equiv> regular_file ''a'' (sha256_hex (utf8_encode sample_before)) ''0644'' CANONICAL_NULL"

abbreviation sample_decision :: dict where
  "sample_decision \<equiv> ownership_decision sample_overlay sample_found (absent_file ''a'') sample_written ''create'' ''insert-managed-block''"

abbreviation sample_recorded :: dict where
  "sample_recorded \<equiv> manifest_record sample_overlay sample_written ''overlay-managed'' (sha256_hex [0x68, 0x0A]) False (Some (''B'', ''E''))"

lemma sample_step:
  "\<exists>pp. plan_path operation [(''a'', sample_overlay)] [(''a'', sample_target_fields)] [] (sample_seen sample_before) ''a'' = Inr pp \<and>
    pp_decision pp = sample_decision \<and> pp_state pp = Some sample_written \<and> pp_content pp = Some (utf8_encode sample_after) \<and>
    pp_manifest pp = Some sample_recorded"
proof -
  have r: "st_path sample_overlay = ''a''" "st_ownership sample_overlay = ''overlay-managed''"
    "st_candidate_bytes sample_overlay = [0x68, 0x0A]" by (simp_all add: sample_overlay_def)
  have ov: "ov_block (overlay_insertion c b e) = []" "ov_begin (overlay_insertion c b e) = b" "ov_end (overlay_insertion c b e) = e" for c b e
    by (simp_all add: overlay_insertion_def Let_def)
  have f: "fs_mode (regular_file p h m w) = m" "fs_exists (regular_file p h m w)" for p h m w
    by (simp_all add: regular_file_def)
  show ?thesis
    by (simp add: plan_path_def sample_observed stage_path_def sample_contract r plan_overlay_def sample_markers sample_unmarked
        Let_def overlay_action_def sample_inserted path_result_def ov f)
qed

lemma sample_plan:
  "\<exists>plan. plan_ownership sample_render sample_artifacts [] (sample_seen sample_before) operation = Inr plan \<and>
    op_candidate_file_states plan = [sample_written] \<and> op_candidate_contents plan = [(''a'', utf8_encode sample_after)] \<and>
    op_decisions plan = [sample_decision] \<and> op_manifest_file_records plan = [sample_recorded]"
proof -
  obtain pp where pp: "plan_path operation [(''a'', sample_overlay)] [(''a'', sample_target_fields)] [] (sample_seen sample_before) ''a'' = Inr pp"
    "pp_decision pp = sample_decision" "pp_state pp = Some sample_written" "pp_content pp = Some (utf8_encode sample_after)"
    "pp_manifest pp = Some sample_recorded" using sample_step by blast
  have "keys (sample_seen sample_before) = [''a'']" by (simp add: sample_seen_def keys_def)
  moreover have "sorted_set [''a''] = [''a'']" by (simp add: sorted_set_def)
  ultimately show ?thesis
    by (simp add: plan_ownership_def sample_definitions manifest_records_def sample_index Let_def sample_targets same_strs_iff pp sort_items_def
        lookup_manifest_record)
qed

section \<open>A plan as a value\<close>

definition staged_hashed :: "staged_render_tree \<Rightarrow> bool" where
  "staged_hashed tree = list_all (\<lambda>r. sha256_hex (st_candidate_bytes r) = st_candidate_byte_hash r) (tree_files tree)"

definition plan_wf :: "ownership_plan \<Rightarrow> bool" where
  "plan_wf plan =
     (sorted (map fs_path (op_candidate_file_states plan)) \<and> distinct (map fs_path (op_candidate_file_states plan)) \<and>
      list_all (\<lambda>c. case map_of (op_candidate_contents plan) (fs_path c) of
          None \<Rightarrow> \<not> fs_exists c | Some bs \<Rightarrow> fs_exists c \<and> sha256_hex bs = fs_hash c) (op_candidate_file_states plan) \<and>
      length (op_observations plan) = length (op_decisions plan) \<and>
      (case manifest_records (op_manifest_file_records plan) of Inl _ \<Rightarrow> False
       | Inr kept \<Rightarrow> sorted (map fst kept) \<and> list_all (\<lambda>d. case record_state d of Inl _ \<Rightarrow> False | Inr f \<Rightarrow> valid_file_state f) (map snd kept)))"

lemma stage_path_content:
  assumes "stage_path operation r t old seen content baseline = Inr pp" and "pp_state pp = Some c"
    and "sha256_hex (st_candidate_bytes r) = st_candidate_byte_hash r"
  shows "\<exists>bs. pp_content pp = Some bs \<and> fs_exists c \<and> sha256_hex bs = fs_hash c"
  using assms(1)
proof (rule staged_cases)
  fix target assume "st_ownership r = ''managed'' \<and> plan_managed operation r old seen baseline = Inr pp \<or>
      st_ownership r = ''overlay-managed'' \<and> plan_overlay operation r target old seen content baseline = Inr pp \<or>
      st_ownership r = ''adopted'' \<and> plan_adopted r old seen baseline = Inr pp \<or>
      st_ownership r = ''create-once-then-user-owned'' \<and> plan_create_once r old seen baseline = Inr pp \<or>
      st_ownership r = ''user-owned'' \<and> plan_user_owned r old seen baseline = Inr pp"
  then show ?thesis
  proof (elim disjE conjE)
    assume "plan_overlay operation r target old seen content baseline = Inr pp"
    then show ?thesis by (rule plan_overlayE) (use assms(2) in \<open>auto simp: path_result_def regular_file_def split: if_splits\<close>)
  qed (use assms(2,3) in \<open>auto simp: plan_managed_def plan_adopted_def plan_create_once_def plan_user_owned_def Let_def path_result_def
      candidate_state_def regular_file_def split: option.splits if_splits\<close>)
qed

lemma retire_path_content:
  assumes "retire_path p old seen content baseline = Inr pp" and "pp_state pp = Some c"
  shows "case pp_content pp of None \<Rightarrow> \<not> fs_exists c | Some bs \<Rightarrow> fs_exists c \<and> sha256_hex bs = fs_hash c"
  using assms by (auto simp: retire_path_def Let_def path_result_def bnd_Inr_iff regular_file_def absent_file_def state_matches_def
      split: if_splits)

lemma path_content:
  assumes "plan_path operation (staged_index tree) targets previous observed p = Inr pp" and "pp_state pp = Some c"
    and "staged_hashed tree"
  shows "case pp_content pp of None \<Rightarrow> \<not> fs_exists c | Some bs \<Rightarrow> fs_exists c \<and> sha256_hex bs = fs_hash c"
  using assms(1)
proof (rule plan_pathE)
  fix seen content baseline
  assume "(\<exists>r. map_of (staged_index tree) p = Some r \<and> stage_path operation r (map_of targets p) (map_of previous p) seen content baseline = Inr pp) \<or>
     (\<exists>old. map_of (staged_index tree) p = None \<and> map_of previous p = Some old \<and> retire_path p old seen content baseline = Inr pp)"
  then show ?thesis
  proof (elim disjE exE conjE)
    fix r assume r: "map_of (staged_index tree) p = Some r"
      and st: "stage_path operation r (map_of targets p) (map_of previous p) seen content baseline = Inr pp"
    have "sha256_hex (st_candidate_bytes r) = st_candidate_byte_hash r"
      using r assms(3) unfolding staged_index_def map_of_dict_display staged_hashed_def list_all_iff by (auto dest!: map_of_SomeD)
    from stage_path_content [OF st assms(2) this] show ?thesis by auto
  qed (rule retire_path_content [OF _ assms(2)])
qed

lemma plan_kept_at:
  assumes "plan_ownership tree definitions records observed operation = Inr plan" and "staged_valid tree"
    and "wf_pyval (PList (map PDict records))"
  obtains previous targets F where
    "\<forall>p \<in> set (plan_paths tree previous). plan_path operation (staged_index tree) targets previous observed p = Inr (F p)"
    "op_decisions plan = map (\<lambda>p. pp_decision (F p)) (plan_paths tree previous)"
    "op_manifest_file_records plan = map snd (keyed_manifest F (plan_paths tree previous))"
    "\<forall>(p, d) \<in> set (keyed_manifest F (plan_paths tree previous)).
       (\<exists>b. record_state d = Inr b) \<and> lookup d ''path'' = Inr (PStr p) \<and> canonical_path p"
  using assms(1)
proof (rule plan_ownershipE)
  fix previous targets F keyed
  let ?P = "plan_paths tree previous"
  assume prev: "manifest_records records = Inr previous"
    and F: "\<forall>p \<in> set ?P. plan_path operation (staged_index tree) targets previous observed p = Inr (F p)"
    and keyed: "mapr (\<lambda>d. bnd (lookup d ''path'') (\<lambda>p. Inr (py_str p, d))) (concat (map (\<lambda>p. option_list (pp_manifest (F p))) ?P)) = Inr keyed"
    and decisions: "op_decisions plan = map (\<lambda>p. pp_decision (F p)) ?P"
    and manifest: "op_manifest_file_records plan = map snd (sort_key fst keyed)"
  let ?kept = "keyed_manifest F ?P"
  have rec: "(\<exists>b. record_state d = Inr b) \<and> lookup d ''path'' = Inr (PStr p) \<and> canonical_path p" if "(p, d) \<in> set ?kept" for p d
  proof -
    note m = replan_member [OF F that]
    obtain r where r: "map_of (staged_index tree) p = Some r" using m(2) staged_index_dom by blast
    have "canonical_path p" using staged_valid_index [OF assms(2) r] staged_index_path [OF r]
      by (simp add: valid_file_state_def candidate_state_def regular_file_def)
    moreover have "(\<exists>b. record_state d = Inr b) \<and> lookup d ''path'' = Inr (PStr p) \<and> wf_pyval (PDict d)"
      by (rule path_record [OF bspec [OF F m(1)] m(3) staged_valid_index [OF assms(2)] records_indexed [OF prev assms(3)]])
    ultimately show ?thesis by blast
  qed
  have order: "sorted (map fst ?kept)" by (rule keyed_manifest_facts(2)) (simp add: plan_paths_def)
  have "keyed = ?kept" using keyed mapr_keyed [of ?kept] rec by (simp add: keyed_manifest_facts(1))
  then have "op_manifest_file_records plan = map snd ?kept"
    using manifest sort_key_id_if_sorted [OF order] by metis
  then show thesis using that [OF F decisions] rec by fast
qed

lemma keyed_plan_paths:
  "distinct (map fst (keyed_manifest F (plan_paths tree previous)))" "sorted (map fst (keyed_manifest F (plan_paths tree previous)))"
  by (rule keyed_manifest_facts(3), simp add: plan_paths_def, rule keyed_manifest_facts(2), simp add: plan_paths_def)

lemma plan_kept:
  assumes "plan_ownership tree definitions records observed operation = Inr plan" and "staged_valid tree"
    and "wf_pyval (PList (map PDict records))"
  obtains kept where "manifest_records (op_manifest_file_records plan) = Inr kept" "sorted (map fst kept)"
    "\<forall>d \<in> snd ` set kept. \<exists>f. record_state d = Inr f"
  using assms
proof (rule plan_kept_at)
  fix previous targets F
  let ?kept = "keyed_manifest F (plan_paths tree previous)"
  assume records: "op_manifest_file_records plan = map snd ?kept"
    and rec: "\<forall>(p, d) \<in> set ?kept. (\<exists>b. record_state d = Inr b) \<and> lookup d ''path'' = Inr (PStr p) \<and> canonical_path p"
  have "manifest_records (map snd ?kept) = Inr ?kept" by (rule manifest_records_build [OF keyed_plan_paths(1)]) (use rec in blast)
  then show thesis using that [of ?kept] keyed_plan_paths(2) rec records by fastforce
qed

lemma distinct_option_list:
  assumes "distinct ps" and "\<And>p c. p \<in> set ps \<Longrightarrow> f p = Some c \<Longrightarrow> g c = p"
  shows "distinct (map g (concat (map (\<lambda>p. option_list (f p)) ps)))"
  using assms
proof (induction ps)
  case (Cons p ps)
  have ih: "distinct (map g (concat (map (\<lambda>p. option_list (f p)) ps)))" by (rule Cons.IH) (use Cons.prems in auto)
  have neq: "g c \<noteq> p" if "c \<in> set (concat (map (\<lambda>p. option_list (f p)) ps))" for c
    using that Cons.prems by auto
  show ?case
  proof (cases "f p")
    case (Some a)
    then have "g a = p" using Cons.prems(2) by simp
    then have "g a \<notin> g ` set (concat (map (\<lambda>p. option_list (f p)) ps))" using neq by (metis imageE)
    then show ?thesis using ih by (simp only: list.map concat.simps Some option_list_def [of "Some a"] option.case append.simps
        distinct.simps set_map simp_thms)
  qed (use ih in \<open>simp add: option_list_def [of None]\<close>)
qed (simp add: option_list_def)

lemma plan_states_distinct:
  assumes "plan_ownership tree definitions records observed operation = Inr plan"
  shows "sorted (map fs_path (op_candidate_file_states plan)) \<and> distinct (map fs_path (op_candidate_file_states plan))"
  using assms
proof (rule plan_ownershipE)
  fix previous targets F
  assume F: "\<forall>p \<in> set (plan_paths tree previous). plan_path operation (staged_index tree) targets previous observed p = Inr (F p)"
    and states: "op_candidate_file_states plan = sort_key fs_path (concat (map (\<lambda>p. option_list (pp_state (F p))) (plan_paths tree previous)))"
  have "distinct (map fs_path (concat (map (\<lambda>p. option_list (pp_state (F p))) (plan_paths tree previous))))"
    by (rule distinct_option_list) (simp add: plan_paths_def, rule path_plan_path [OF bspec [OF F]])
  then show ?thesis unfolding states by (simp add: distinct_map)
qed

text \<open>
  C37: A plan is coherent: its candidate states are in the strict order of their paths, every one that
  exists comes with bytes that hash to it and every one that does not comes without, and the file
  records it leaves for the Manifest are again in the order of their paths, each with a file state
  that can be read back.
\<close>

theorem ownership_plan_coherent:
  assumes "plan_ownership tree definitions records observed operation = Inr plan" and "staged_valid tree" and "staged_hashed tree"
    and "wf_pyval (PList (map PDict records))"
  shows "plan_wf plan"
proof -
  have "sorted (map fs_path (op_candidate_file_states plan)) \<and> distinct (map fs_path (op_candidate_file_states plan))"
    by (rule plan_states_distinct [OF assms(1)])
  moreover have "list_all (\<lambda>c. case map_of (op_candidate_contents plan) (fs_path c) of
          None \<Rightarrow> \<not> fs_exists c | Some bs \<Rightarrow> fs_exists c \<and> sha256_hex bs = fs_hash c) (op_candidate_file_states plan)"
    unfolding list_all_iff
  proof
    fix c assume "c \<in> set (op_candidate_file_states plan)"
    from plan_state [OF assms(1) this] show "case map_of (op_candidate_contents plan) (fs_path c) of
          None \<Rightarrow> \<not> fs_exists c | Some bs \<Rightarrow> fs_exists c \<and> sha256_hex bs = fs_hash c"
      by (metis path_content assms(3))
  qed
  moreover have "length (op_observations plan) = length (op_decisions plan)"
    using assms(1) by (rule plan_ownershipE) simp
  moreover obtain kept where "manifest_records (op_manifest_file_records plan) = Inr kept" "sorted (map fst kept)"
      "\<forall>d \<in> snd ` set kept. \<exists>f. record_state d = Inr f" by (rule plan_kept [OF assms(1,2,4)])
  ultimately show ?thesis
    by (fastforce simp: plan_wf_def list_all_iff record_state_def bnd_Inr_iff file_state_accepted_valid)
qed


lemma sample_carried_out:
  assumes "op_candidate_file_states plan = [sample_written]" and "op_candidate_contents plan = [(''a'', utf8_encode sample_after)]"
  shows "carried_out sample_render plan (sample_seen sample_before) (sample_seen sample_after)"
    and "blocks_found sample_artifacts sample_render plan"
proof -
  have r: "st_path sample_overlay = ''a''" "st_candidate_bytes sample_overlay = [0x68, 0x0A]" "tree_files sample_render = [sample_overlay]"
    by (simp_all add: sample_overlay_def sample_render_def)
  have c: "candidate_for plan ''a'' = Some sample_written" by (simp add: candidate_for_def assms regular_file_def)
  have "keys (sample_seen sample_after) = [''a'']" by (simp add: sample_seen_def keys_def)
  moreover have "sample_written\<lparr>fs_block := CANONICAL_NULL\<rparr> =
    regular_file ''a'' (sha256_hex (utf8_encode sample_after)) ''0644'' CANONICAL_NULL" by (simp add: regular_file_def)
  ultimately show "carried_out sample_render plan (sample_seen sample_before) (sample_seen sample_after)"
    by (simp add: carried_out_def same_strs_iff r c sample_observed assms(2))
  have "overlay_parts (Some (utf8_encode sample_after)) (get sample_target_fields ''markers'') =
    Inr \<lparr>ov_prefix = [0x78, 0x0A], ov_block = [0x68, 0x0A], ov_suffix = [], ov_begin = ''B'', ov_end = ''E''\<rparr>"
    by (simp add: overlay_parts_def sample_markers sample_bytes bytes_index_def)
  then show "blocks_found sample_artifacts sample_render plan"
    by (simp add: blocks_found_def sample_definitions plan_targets_def sample_index sample_targets assms(2) r)
qed

lemma sample_staged: "staged_valid sample_render" "staged_hashed sample_render"
proof -
  have "valid_file_state (candidate_state sample_overlay)"
    using sample_file_valid by (simp add: candidate_state_def sample_overlay_def)
  then show "staged_valid sample_render" by (simp add: staged_valid_def sample_render_def)
  show "staged_hashed sample_render" by (simp add: staged_hashed_def sample_render_def sample_overlay_def)
qed

theorem ownership_plan_coherent_witness:
  "\<exists>plan. plan_ownership sample_render sample_artifacts [] (sample_seen sample_before) ''apply'' = Inr plan \<and>
    op_candidate_file_states plan = [sample_written] \<and> plan_wf plan"
proof -
  obtain plan where plan: "plan_ownership sample_render sample_artifacts [] (sample_seen sample_before) ''apply'' = Inr plan"
    "op_candidate_file_states plan = [sample_written]"
    using sample_plan by blast
  from ownership_plan_coherent [OF plan(1) sample_staged] plan show ?thesis by simp
qed

theorem replan_is_noop_witness:
  "\<exists>plan plan'. plan_ownership sample_render sample_artifacts [] (sample_seen sample_before) ''apply'' = Inr plan \<and>
    op_candidate_file_states plan = [sample_written] \<and>
    plan_ownership sample_render sample_artifacts (op_manifest_file_records plan) (sample_seen sample_after) ''update'' = Inr plan' \<and>
    \<not> op_has_file_changes plan' \<and> \<not> op_has_manifest_changes plan'"
proof -
  obtain plan where plan: "plan_ownership sample_render sample_artifacts [] (sample_seen sample_before) ''apply'' = Inr plan"
    "op_candidate_file_states plan = [sample_written]" "op_candidate_contents plan = [(''a'', utf8_encode sample_after)]"
    using sample_plan by blast
  from replan_is_noop [OF plan(1) sample_staged(1) _ sample_carried_out [OF plan(2,3)], of "''update''"] plan show ?thesis by auto
qed

end
