(* ===== verification/Planning.thy ===== *)
theory Planning
  imports Replan Task_Policy Apply
begin

text \<open>
  \<^verbatim>\<open>reconcile/plan.py\<close>: the saved plan of a reconcile, built from the resolved desired state, the
  ownership decisions and the evidence about tasks, and \<^verbatim>\<open>reconcile/repair.py\<close>: which files a
  restorative repair may stage. The lemmas show what the envelope says: it is accepted by the
  validator, it was planned through an open task gate, and its candidate Manifest and its contents
  are those of the ownership plan.
\<close>

section \<open>The desired state\<close>

record desired_state_ir =
  ir_operation :: string
  ir_release_contract :: dict
  ir_resolved_profile :: dict
  ir_authority_digests :: dict
  ir_workflow_lock_projection :: dict
  ir_selected_platforms :: "string list"
  ir_capability_results :: "dict list"
  ir_catalog_closure :: "string list"
  ir_reference_closure :: "string list"
  ir_route_policy :: dict
  ir_entry_ownership :: "dict list"
  ir_discoverable_leaf_ids :: "string list"
  ir_runtime_catalog_entry_ids :: "string list"
  ir_trellis_task_layout :: dict
  ir_surface_registry :: dict
  ir_surface_digests :: dict
  ir_coverage_result :: dict
  ir_render_units :: "dict list"
  ir_artifact_definitions :: "dict list"
  ir_candidate_impact :: candidate_impact
  ir_workspace_state_evaluation :: dict
  ir_task_gate_evaluation :: dict
  ir_diagnostics :: "dict list"
  ir_desired_state_ir_digest :: string

section \<open>Parts of the plan core\<close>

text \<open>A dictionary display whose values may raise; they are evaluated from left to right.\<close>

definition dict_literal :: "(string \<times> pyval res) list \<Rightarrow> dict res" where
  "dict_literal = mapr (\<lambda>(k, r). bnd r (\<lambda>v. Inr (k, v)))"

definition text_field :: "pyval \<Rightarrow> pyval res" where
  "text_field v = bnd (as_string ownership_conflict v) (\<lambda>s. Inr (PStr s))"

definition mapping_field :: "pyval \<Rightarrow> pyval res" where
  "mapping_field v = bnd (as_mapping ownership_conflict v) (\<lambda>d. Inr (PDict d))"

definition workspace_evaluation_document :: "workspace_task_state \<Rightarrow> dict" where
  "workspace_evaluation_document evaluated =
     [(''evaluator_id'', PStr (ws_evaluator_id evaluated)), (''evaluator_version'', PInt (ws_evaluator_version evaluated)),
      (''task_quiescence'', PStr (ws_task_quiescence evaluated)),
      (''blockers'', PList (map PStr (ws_evidence_kinds evaluated)))]"

abbreviation quiescence_changed :: exn where
  "quiescence_changed \<equiv> renderer_failure ''AWP_TASK_QUIESCENCE_CHANGED''"

definition workspace_evaluation :: "desired_state_ir \<Rightarrow> task_snapshot_and_findings \<Rightarrow> dict res" where
  "workspace_evaluation ir task_state =
     bnd (evaluate_workspace_state_quiescence (ts_snapshot task_state) (ts_findings task_state)) (\<lambda>evaluated.
     let document = workspace_evaluation_document evaluated in
     if py_eq (PDict document) (PDict (ir_workspace_state_evaluation ir)) then Inr document
     else Inl quiescence_changed)"

definition task_gate_document :: "task_gate_result \<Rightarrow> dict" where
  "task_gate_document evaluated =
     [(''evaluator_id'', PStr (tg_evaluator_id evaluated)), (''evaluator_version'', PInt (tg_evaluator_version evaluated)),
      (''blockers'', PList (map (\<lambda>b. PDict
         [(''code'', PStr (tb_code b)), (''finding_id'', PStr (tb_finding_id b)), (''task_id'', opt_str (tb_task_id b)),
          (''path'', opt_str (tb_path b)), (''surface_id'', opt_str (tb_surface_id b)),
          (''authority_id'', opt_str (tb_authority_id b))]) (tg_blockers evaluated))),
      (''primary_evaluator_blocker'', opt_str (tg_primary_evaluator_blocker evaluated))]"

text \<open>A list that is true is not empty, so it has a first element.\<close>

definition supplied_blocker :: "pyval \<Rightarrow> exn" where
  "supplied_blocker supplied_blockers = (case as_array ownership_conflict supplied_blockers of
     Inr (first # _) \<Rightarrow>
       (case bnd (as_mapping ownership_conflict first) (\<lambda>b. as_string ownership_conflict (get b ''code'')) of
         Inl e \<Rightarrow> e | Inr code \<Rightarrow> renderer_failure code)
   | _ \<Rightarrow> ownership_conflict)"

definition task_gate_evaluation :: "desired_state_ir \<Rightarrow> task_snapshot_and_findings \<Rightarrow> dict res" where
  "task_gate_evaluation ir task_state =
     bnd (evaluate_task_gate (ir_operation ir) (ir_candidate_impact ir) (ts_snapshot task_state) (ts_findings task_state)) (\<lambda>evaluated.
     let document = task_gate_document evaluated; supplied = ir_task_gate_evaluation ir in
     if truthy (get supplied ''blockers'') then Inl (supplied_blocker (get supplied ''blockers''))
     else if py_eq (PDict document) (PDict supplied) then Inr document
     else Inl quiescence_changed)"

definition authority_precondition :: "desired_state_ir \<Rightarrow> dict res" where
  "authority_precondition ir =
     bnd (as_string ownership_conflict (get (ir_resolved_profile ir) ''profile_id'')) (\<lambda>profile_id.
     Inr [(''kind'', PStr ''manifest-authority''), (''profile'', PStr profile_id),
          (''platforms'', PList (map PStr (ir_selected_platforms ir)))])"

definition content_text :: "byte list option \<Rightarrow> pyval res" where
  "content_text candidate = (case candidate of None \<Rightarrow> Inr PNone
   | Some bs \<Rightarrow> (case utf8_decode bs of None \<Rightarrow> Inl ValueError | Some s \<Rightarrow> Inr (PStr s)))"

definition file_precondition :: "(string \<times> dict) list \<Rightarrow> (string \<times> byte list) list \<Rightarrow> dict \<Rightarrow> dict res" where
  "file_precondition manifest_by_path contents decision =
     bnd (lookup decision ''path'') (\<lambda>raw_path. let p = py_str raw_path in
     dict_literal
      [(''kind'', Inr (PStr ''file'')), (''path'', Inr (PStr p)), (''ownership_decision'', Inr (PDict decision)),
       (''candidate_manifest_record'', Inr (case map_of manifest_by_path p of None \<Rightarrow> PNone | Some d \<Rightarrow> PDict d)),
       (''candidate_content_utf8'', content_text (map_of contents p))])"

definition file_preconditions :: "ownership_plan \<Rightarrow> dict list res" where
  "file_preconditions ownership =
     bnd (mapr (\<lambda>record. bnd (lookup record ''path'') (\<lambda>p. Inr (py_str p, record))) (op_manifest_file_records ownership)) (\<lambda>keyed.
     mapr (file_precondition (dict_display keyed) (op_candidate_contents ownership)) (op_decisions ownership))"

definition plan_release_fields :: "desired_state_ir \<Rightarrow> dict res" where
  "plan_release_fields ir = dict_literal
     [(''release_id'', text_field (get (ir_release_contract ir) ''release_id'')),
      (''release_manifest_digest'', text_field (get (ir_release_contract ir) ''release_manifest_digest''))]"

definition approval_bindings :: "pyval \<Rightarrow> pyval res" where
  "approval_bindings v = bnd (as_array ownership_conflict v) (\<lambda>items. bnd (mapr mapping_field items) (\<lambda>ds. Inr (PList ds)))"

definition common_plan_core :: "desired_state_ir \<Rightarrow> ownership_plan \<Rightarrow> dict \<Rightarrow> task_snapshot_and_findings \<Rightarrow> dict res" where
  "common_plan_core ir ownership observed task_state = (let snapshot = ts_snapshot task_state in
     bnd (authority_precondition ir) (\<lambda>authority.
     bnd (file_preconditions ownership) (\<lambda>files.
     dict_literal
      [(''operation'', Inr (PStr (ir_operation ir))),
       (''transaction_id'', text_field (get observed ''transaction_id'')),
       (''candidate_release'', bnd (plan_release_fields ir) (\<lambda>d. Inr (PDict d))),
       (''release_trust_policy_id'', text_field (get (ir_release_contract ir) ''release_trust_policy_id'')),
       (''release_trust_policy_digest'', text_field (get (ir_release_contract ir) ''release_trust_policy_digest'')),
       (''profile_digest'', text_field (get (ir_authority_digests ir) ''profile'')),
       (''lock_digest'', text_field (get (ir_authority_digests ir) ''workflow-lock'')),
       (''artifact_bundle_digest'', text_field (get (ir_authority_digests ir) ''artifact-bundle'')),
       (''pack_version'', text_field (get (ir_release_contract ir) ''version'')),
       (''source_trellis_task_layout_digest'', text_field (get snapshot ''source_layout_digest'')),
       (''target_trellis_task_layout_digest'', text_field (get snapshot ''target_layout_digest'')),
       (''source_schema_bundle_digest'', text_field (get snapshot ''source_schema_bundle_digest'')),
       (''target_schema_bundle_digest'', text_field (get snapshot ''target_schema_bundle_digest'')),
       (''task_quiescence_snapshot'', Inr (PDict snapshot)),
       (''task_findings'', Inr (PDict (ts_findings task_state))),
       (''task_quiescence_digest'', Inr (PStr (ts_task_quiescence_digest task_state))),
       (''candidate_impact'', Inr (candidate_impact_document (ir_candidate_impact ir))),
       (''workspace_state_evaluation'', bnd (workspace_evaluation ir task_state) (\<lambda>d. Inr (PDict d))),
       (''task_gate_evaluation'', bnd (task_gate_evaluation ir task_state) (\<lambda>d. Inr (PDict d))),
       (''preconditions'', Inr (PList (PDict authority # map PDict files))),
       (''candidate_file_states'', Inr (PList (map (\<lambda>f. PDict (file_state_document f)) (op_candidate_file_states ownership)))),
       (''candidate_local_state_contract'', mapping_field (get observed ''candidate_local_state_contract'')),
       (''provider_approval_bindings'', approval_bindings (get observed ''provider_approval_bindings'')),
       (''recovery_runtime'', mapping_field (get observed ''recovery_runtime'')),
       (''candidate_manifest_generation'', Inr (PInt 1))])))"

section \<open>The saved plan\<close>

definition recorded_files :: "dict option \<Rightarrow> dict list res" where
  "recorded_files manifest = (case manifest of None \<Rightarrow> Inr []
   | Some m \<Rightarrow> bnd (as_array ownership_conflict (get m ''files'')) (mapr (as_mapping ownership_conflict)))"

definition init_plan_core :: "dict \<Rightarrow> dict option \<Rightarrow> dict \<Rightarrow> dict res" where
  "init_plan_core common manifest observed =
     (if manifest \<noteq> None then Inl ownership_conflict
      else bnd (dict_literal
        [(''project_id_precondition'', Inr (PStr ''absent'')),
         (''candidate_project_id'', text_field (get observed ''candidate_project_id'')),
         (''workspace_instance_precondition'', Inr (PStr ''absent'')),
         (''candidate_workspace_instance_id'', text_field (get observed ''candidate_workspace_instance_id'')),
         (''manifest_precondition'', Inr (PStr ''absent'')),
         (''approval_replay_precondition'', Inr (PStr ''absent'')),
         (''empty_replay_ledger_candidate_digest'', text_field (get observed ''empty_replay_ledger_candidate_digest'')),
         (''target_path_digest'', text_field (get observed ''target_path_digest''))]) (\<lambda>fields.
       Inr (common @ fields)))"

definition repair_ids :: "candidate_impact \<Rightarrow> string list" where
  "repair_ids impact = map sc_surface_id (filter (\<lambda>c. sc_change_kind c = ''repair'') (ci_surface_changes impact))"

definition installed_release_fields :: "dict \<Rightarrow> dict res" where
  "installed_release_fields m = dict_literal
     [(''release_id'', text_field (get m ''release_id'')),
      (''release_manifest_digest'', text_field (get m ''release_manifest_digest''))]"

definition existing_plan_core :: "desired_state_ir \<Rightarrow> dict \<Rightarrow> dict option \<Rightarrow> dict \<Rightarrow> dict res" where
  "existing_plan_core ir common manifest observed = (case manifest of None \<Rightarrow> Inl ownership_conflict
   | Some m \<Rightarrow> (case get m ''generation'' of
       PInt generation \<Rightarrow>
         bnd (dict_literal
          [(''project_id'', text_field (get m ''project_id'')),
           (''workspace_instance_id'', text_field (get observed ''workspace_instance_id'')),
           (''manifest_generation'', Inr (PInt generation)),
           (''manifest_digest'', text_field (get observed ''manifest_digest'')),
           (''installed_release'', bnd (installed_release_fields m) (\<lambda>d. Inr (PDict d)))]) (\<lambda>fields.
         bnd (if ir_operation ir = ''upgrade''
              then dict_literal [(''compatibility_identity'', text_field (get observed ''compatibility_identity''))]
              else Inr []) (\<lambda>identity.
         Inr (AList.update ''candidate_manifest_generation'' (PInt (generation + 1)) common @ fields @
           (if ir_operation ir = ''repair''
            then [(''repair_surface_ids'', PList (map PStr (repair_ids (ir_candidate_impact ir))))] else []) @ identity)))
     | _ \<Rightarrow> Inl ownership_conflict))"

definition plan_core_of ::
  "desired_state_ir \<Rightarrow> ownership_plan \<Rightarrow> dict option \<Rightarrow> dict \<Rightarrow> task_snapshot_and_findings \<Rightarrow> dict res" where
  "plan_core_of ir ownership manifest observed task_state =
     bnd (common_plan_core ir ownership observed task_state) (\<lambda>common.
     if ir_operation ir = ''init'' then init_plan_core common manifest observed
     else existing_plan_core ir common manifest observed)"

definition immutable_header_of :: "desired_state_ir \<Rightarrow> dict \<Rightarrow> string \<Rightarrow> dict" where
  "immutable_header_of ir core core_digest =
     [(''transaction_id'', get core ''transaction_id''), (''operation'', PStr (ir_operation ir)),
      (''plan_core_digest'', PStr core_digest),
      (''baseline_manifest_digest'', if ir_operation ir = ''init'' then PStr ''absent'' else get core ''manifest_digest''),
      (''candidate_manifest_generation'', get core ''candidate_manifest_generation''),
      (''task_quiescence_digest'', get core ''task_quiescence_digest''), (''recovery_runtime'', get core ''recovery_runtime'')] @
     (if ir_operation ir = ''init''
      then [(''candidate_project_id'', get core ''candidate_project_id''),
            (''candidate_workspace_instance_id'', get core ''candidate_workspace_instance_id'')]
      else [(''project_id'', get core ''project_id''), (''workspace_instance_id'', get core ''workspace_instance_id'')])"

definition manifest_file_state :: "string \<Rightarrow> dict" where
  "manifest_file_state candidate_manifest_digest =
     [(''path'', PStr ''.agent-workflow/manifest.json''), (''byte_hash'', PStr candidate_manifest_digest),
      (''mode'', PStr ''0644''), (''file_type'', PStr ''regular''), (''non_symlink'', PBool True)]"

definition plan_projection :: "saved_plan_envelope \<Rightarrow> dict" where
  "plan_projection e =
     [(''schema_id'', PStr ''agent-workflow.saved-plan''), (''schema_version'', PInt 1),
      (''operation'', PStr (se_operation e)), (''plan_core'', PDict (se_plan_core e)),
      (''plan_core_digest'', PStr (se_plan_core_digest e)), (''immutable_header'', PDict (se_immutable_header e)),
      (''journal_binding_digest'', PStr (se_journal_binding_digest e)),
      (''candidate_manifest_digest'', PStr (se_candidate_manifest_digest e)),
      (''candidate_manifest_file_state'', PDict (se_candidate_manifest_file_state e))]"

text \<open>Seals a plan core: the header, the candidate Manifest and the four digests.\<close>

definition seal_plan :: "desired_state_ir \<Rightarrow> dict \<Rightarrow> saved_plan_envelope res" where
  "seal_plan ir core =
     bnd (compute_plan_core_digest core) (\<lambda>core_digest. let header = immutable_header_of ir core core_digest in
     bnd (compute_journal_binding_digest header) (\<lambda>journal_digest. let
       provisional = \<lparr>se_operation = ir_operation ir, se_plan_core = core, se_plan_core_digest = core_digest,
         se_immutable_header = header, se_journal_binding_digest = journal_digest,
         se_candidate_manifest_digest = replicate 64 (CHR ''0''), se_candidate_manifest_file_state = [],
         se_plan_digest = replicate 64 (CHR ''0'')\<rparr> in
     bnd (render_candidate_manifest provisional) (\<lambda>candidate_manifest.
     bnd (compute_candidate_manifest_digest candidate_manifest) (\<lambda>manifest_digest. let
       envelope = provisional\<lparr>se_candidate_manifest_digest := manifest_digest,
         se_candidate_manifest_file_state := manifest_file_state manifest_digest\<rparr> in
     bnd (compute_plan_digest (plan_projection envelope)) (\<lambda>plan_digest.
     Inr (envelope\<lparr>se_plan_digest := plan_digest\<rparr>))))))"

definition plan_reconcile :: "desired_state_ir \<Rightarrow> staged_render_tree \<Rightarrow> dict option \<Rightarrow> dict \<Rightarrow> task_snapshot_and_findings \<Rightarrow>
    saved_plan_envelope res" where
  "plan_reconcile ir staged manifest observed task_state =
     bnd (recorded_files manifest) (\<lambda>records.
     bnd (as_mapping ownership_conflict (get observed ''files'')) (\<lambda>observed_files.
     bnd (plan_ownership staged (ir_artifact_definitions ir) records observed_files (ir_operation ir)) (\<lambda>ownership.
     bnd (plan_core_of ir ownership manifest observed task_state) (\<lambda>core.
     seal_plan ir core))))"

section \<open>Restorative repair\<close>

definition check_repair_change :: "(string \<times> string) list \<Rightarrow> surface_change \<Rightarrow> unit res" where
  "check_repair_change pinned_surface_digests c =
     (if sc_change_kind c \<noteq> ''repair'' then Inl ownership_conflict
      else if sc_contract_before_digest c \<noteq> sc_after_digest c then Inl ownership_conflict
      else if sc_observed_before_digest c = sc_contract_before_digest c then Inl ownership_conflict
      else case map_of pinned_surface_digests (sc_surface_id c) of
          None \<Rightarrow> Inr ()
        | Some pinned \<Rightarrow> if pinned \<noteq> sc_after_digest c then Inl ownership_conflict else Inr ())"

definition validate_repair_selection ::
  "candidate_impact \<Rightarrow> string list \<Rightarrow> (string \<times> string) list \<Rightarrow> string \<Rightarrow> string \<Rightarrow> surface_change list res" where
  "validate_repair_selection impact selected_surface_ids pinned_surface_digests graph_before graph_after =
     (if ci_authority_changes impact \<noteq> [] then Inl ownership_conflict
      else if graph_before \<noteq> graph_after then Inl ownership_conflict
      else let changes = ci_surface_changes impact in
        if changes = [] \<or> ci_contract_changing impact then Inl ownership_conflict
        else let selected = sort selected_surface_ids; change_ids = sort (map sc_surface_id changes) in
          if selected \<noteq> change_ids \<or> \<not> distinct selected then Inl ownership_conflict
          else bnd (mapr (check_repair_change pinned_surface_digests) changes) (\<lambda>_. Inr (sort_key sc_surface_id changes)))"

definition staged_projection :: "staged_file \<Rightarrow> pyval" where
  "staged_projection r = PDict
     [(''path'', PStr (st_path r)), (''surface_id'', PStr (st_surface_id r)),
      (''candidate_byte_hash'', PStr (st_candidate_byte_hash r)), (''candidate_mode'', PStr (st_candidate_mode r)),
      (''render_digest'', PStr (st_render_digest r))]"

definition stage_restorative_repair :: "desired_state_ir \<Rightarrow> staged_render_tree \<Rightarrow> staged_render_tree res" where
  "stage_restorative_repair ir staged =
     (if ir_operation ir \<noteq> ''repair'' \<or> ci_authority_changes (ir_candidate_impact ir) \<noteq> [] then Inl ownership_conflict
      else let changes = ci_surface_changes (ir_candidate_impact ir) in
        if changes = [] \<or> list_ex (\<lambda>c. sc_change_kind c \<noteq> ''repair'') changes then Inl ownership_conflict
        else let selected_ids = map sc_surface_id changes in
          if list_ex (\<lambda>c. sc_contract_before_digest c \<noteq> sc_after_digest c \<or>
               get (ir_surface_digests ir) (sc_surface_id c) \<noteq> PStr (sc_after_digest c)) changes
          then Inl ownership_conflict
          else let files = filter (\<lambda>r. st_surface_id r \<in> set selected_ids) (tree_files staged) in
            if \<not> same_strs (map st_surface_id files) selected_ids then Inl ownership_conflict
            else bnd (digest ''agent-workflow.restorative-repair-stage.v1'' (PList (map staged_projection files))) (\<lambda>root.
              Inr \<lparr>tree_files = files, content_root_digest = root, launcher_bundle_digest = launcher_bundle_digest staged,
                distribution_render_digest = distribution_render_digest staged\<rparr>))"

lemma stage_restorative_repair_files:
  assumes "stage_restorative_repair ir staged = Inr tree"
  shows "tree_files tree = filter (\<lambda>r. st_surface_id r \<in> sc_surface_id ` set (ci_surface_changes (ir_candidate_impact ir))) (tree_files staged)"
    and "st_surface_id ` set (tree_files tree) = sc_surface_id ` set (ci_surface_changes (ir_candidate_impact ir))"
  using assms by (auto simp: stage_restorative_repair_def Let_def bnd_Inr_iff same_strs_iff split: if_splits)

section \<open>Documents of the JSON data model\<close>

definition json_wf :: "pyval \<Rightarrow> bool" where
  "json_wf v = (wf_pyval v \<and> json_value v)"

lemma json_wf_simps:
  "json_wf PNone" "json_wf (PBool b)" "json_wf (PInt i)" "json_wf (PStr s)" "json_wf (PList xs) = list_all json_wf xs"
  "json_wf (PDict [])" "json_wf (PDict ((k, v) # d)) = (k \<notin> set (map fst d) \<and> json_wf v \<and> json_wf (PDict d))"
  by (auto simp: json_wf_def list_all_iff)

lemma json_wf_opt_str: "json_wf (opt_str s)"
  by (cases s) (simp_all add: opt_str_def json_wf_simps)

section \<open>What the validator accepts\<close>

lemma dict_literal_simps:
  "dict_literal [] = Inr []"
  "dict_literal ((k, r) # xs) = Inr d \<longleftrightarrow> (\<exists>v d'. r = Inr v \<and> dict_literal xs = Inr d' \<and> d = (k, v) # d')"
  by (auto simp: dict_literal_def res_simps)

lemma get_Cons: "get ((k, v) # d) k' = (if k = k' then v else get d k')"
  by (simp add: get_def)

lemma common_plan_core_operation:
  "common_plan_core ir ownership observed task_state = Inr core \<Longrightarrow> \<exists>d. core = (''operation'', PStr (ir_operation ir)) # d"
  by (auto simp: common_plan_core_def Let_def bnd_Inr_iff dict_literal_simps(2))

lemma plan_core_of_operation:
  assumes "plan_core_of ir ownership manifest observed task_state = Inr core"
  shows "get core ''operation'' = PStr (ir_operation ir)"
proof -
  obtain common where common: "common_plan_core ir ownership observed task_state = Inr common"
    and core: "(if ir_operation ir = ''init'' then init_plan_core common manifest observed
      else existing_plan_core ir common manifest observed) = Inr core"
    using assms by (auto simp: plan_core_of_def bnd_Inr_iff)
  obtain d where d: "common = (''operation'', PStr (ir_operation ir)) # d" using common_plan_core_operation [OF common] by blast
  show ?thesis
    using core by (auto simp: d init_plan_core_def existing_plan_core_def bnd_Inr_iff get_Cons split: if_splits option.splits pyval.splits)
qed

lemma render_binding:
  "render_candidate_manifest e = Inr m \<Longrightarrow> get m ''last_transaction_binding_digest'' = PStr (se_journal_binding_digest e)"
  by (auto simp: render_candidate_manifest_def Let_def bnd_Inr_iff get_Cons)

lemma render_candidate_manifest_cong:
  assumes "se_plan_core e = se_plan_core e'" and "se_journal_binding_digest e = se_journal_binding_digest e'"
  shows "render_candidate_manifest e = render_candidate_manifest e'"
  by (simp add: render_candidate_manifest_def assms)

lemma seal_planE:
  assumes "seal_plan ir core = Inr e"
  obtains m where "render_candidate_manifest e = Inr m" "compute_plan_core_digest core = Inr (se_plan_core_digest e)"
    "compute_journal_binding_digest (se_immutable_header e) = Inr (se_journal_binding_digest e)"
    "compute_candidate_manifest_digest m = Inr (se_candidate_manifest_digest e)"
    "compute_plan_digest (plan_projection e) = Inr (se_plan_digest e)"
    "se_operation e = ir_operation ir" "se_plan_core e = core"
    "se_immutable_header e = immutable_header_of ir core (se_plan_core_digest e)"
    "se_candidate_manifest_file_state e = manifest_file_state (se_candidate_manifest_digest e)"
proof -
  obtain core_digest journal m manifest_digest plan_digest where
    a: "compute_plan_core_digest core = Inr core_digest"
    "compute_journal_binding_digest (immutable_header_of ir core core_digest) = Inr journal"
    "compute_candidate_manifest_digest m = Inr manifest_digest"
    and m: "render_candidate_manifest \<lparr>se_operation = ir_operation ir, se_plan_core = core, se_plan_core_digest = core_digest,
         se_immutable_header = immutable_header_of ir core core_digest, se_journal_binding_digest = journal,
         se_candidate_manifest_digest = replicate 64 (CHR ''0''), se_candidate_manifest_file_state = [],
         se_plan_digest = replicate 64 (CHR ''0'')\<rparr> = Inr m"
    and e: "e = \<lparr>se_operation = ir_operation ir, se_plan_core = core, se_plan_core_digest = core_digest,
         se_immutable_header = immutable_header_of ir core core_digest, se_journal_binding_digest = journal,
         se_candidate_manifest_digest = manifest_digest, se_candidate_manifest_file_state = manifest_file_state manifest_digest,
         se_plan_digest = plan_digest\<rparr>"
    and p: "compute_plan_digest (plan_projection (e\<lparr>se_plan_digest := replicate 64 (CHR ''0'')\<rparr>)) = Inr plan_digest"
    using assms by (auto simp: seal_plan_def Let_def bnd_Inr_iff)
  have "render_candidate_manifest e = Inr m" by (rule trans [OF render_candidate_manifest_cong m]) (simp_all add: e)
  then show thesis by (rule that) (use a p in \<open>simp_all add: e plan_projection_def\<close>)
qed

lemma manifest_file_state_accepted: "validate_manifest_file_state (manifest_file_state h) h = Inr ()"
proof -
  have "canonical_path ''.agent-workflow/manifest.json''"
    by (simp add: canonical_path_def windows_drive_def ord_def)
  then have "normalize_path (PStr ''.agent-workflow/manifest.json'') = Inr ''.agent-workflow/manifest.json''"
    by (simp add: normalize_path_Inr_iff)
  moreover have "normalize_mode (PStr ''0644'') = Inr ''0644''" using mode_0644 by (simp add: canonical_mode_def)
  ultimately show ?thesis
    by (simp add: validate_manifest_file_state_def manifest_file_state_def keys_def same_strs_iff get_Cons plan_string_def
        as_string_def require_def)
qed

text \<open>
  C15: Every envelope that planning returns is accepted by the validator together with the candidate
  Manifest it determines, and is read back from its document as it was planned.
\<close>

theorem planned_envelope_accepted:
  assumes "plan_reconcile ir staged manifest observed task_state = Inr e"
  shows "\<exists>m. render_candidate_manifest e = Inr m \<and> validate_saved_plan_envelope (saved_plan_document e) m = Inr e"
proof -
  obtain ownership core where core: "plan_core_of ir ownership manifest observed task_state = Inr core"
    and seal: "seal_plan ir core = Inr e"
    using assms by (auto simp: plan_reconcile_def bnd_Inr_iff)
  from seal obtain m where m: "render_candidate_manifest e = Inr m" "compute_plan_core_digest core = Inr (se_plan_core_digest e)"
    "compute_journal_binding_digest (se_immutable_header e) = Inr (se_journal_binding_digest e)"
    "compute_candidate_manifest_digest m = Inr (se_candidate_manifest_digest e)"
    "compute_plan_digest (plan_projection e) = Inr (se_plan_digest e)"
    "se_operation e = ir_operation ir" "se_plan_core e = core"
    "se_immutable_header e = immutable_header_of ir core (se_plan_core_digest e)"
    "se_candidate_manifest_file_state e = manifest_file_state (se_candidate_manifest_digest e)"
    by (rule seal_planE)
  have op: "get core ''operation'' = PStr (ir_operation ir)" by (rule plan_core_of_operation [OF core])
  have named: "ir_operation ir \<noteq> []"
    using m(2) op by (auto simp: compute_plan_core_digest_def validate_plan_core_def bnd_Inr_iff as_string_def split: if_splits)
  have del: "AList.delete ''plan_digest'' (saved_plan_document e) = plan_projection e"
    by (simp add: saved_plan_document_def plan_projection_def)
  have header: "get (se_immutable_header e) ''operation'' = PStr (ir_operation ir)"
    "get (se_immutable_header e) ''plan_core_digest'' = PStr (se_plan_core_digest e)"
    by (simp_all add: m(8) immutable_header_of_def get_Cons)
  have digests: "envelope_digests (saved_plan_document e) core (se_immutable_header e) m =
      Inr (se_plan_core_digest e, se_journal_binding_digest e, se_candidate_manifest_digest e, se_plan_digest e)"
    by (simp add: envelope_digests_def m(2-5) del)
  have fields: "same_strs (keys (saved_plan_document e)) (plan_projection_fields @ [''plan_digest''])"
    by (simp add: same_strs_iff saved_plan_document_def keys_def plan_projection_fields_def)
  have gets: "get (saved_plan_document e) ''schema_id'' = PStr ''agent-workflow.saved-plan''"
    "get (saved_plan_document e) ''schema_version'' = PInt 1" "get (saved_plan_document e) ''operation'' = PStr (ir_operation ir)"
    "get (saved_plan_document e) ''plan_core'' = PDict core" "get (saved_plan_document e) ''immutable_header'' = PDict (se_immutable_header e)"
    "get (saved_plan_document e) ''candidate_manifest_file_state'' = PDict (se_candidate_manifest_file_state e)"
    "get (saved_plan_document e) ''plan_core_digest'' = PStr (se_plan_core_digest e)"
    "get (saved_plan_document e) ''journal_binding_digest'' = PStr (se_journal_binding_digest e)"
    "get (saved_plan_document e) ''candidate_manifest_digest'' = PStr (se_candidate_manifest_digest e)"
    "get (saved_plan_document e) ''plan_digest'' = PStr (se_plan_digest e)"
    by (simp_all add: saved_plan_document_def get_Cons m(6,7))
  have "validate_saved_plan_envelope (saved_plan_document e) m = Inr e"
    unfolding validate_saved_plan_envelope_def gets Let_def
    by (simp add: fields require_def plan_mapping_def as_mapping_def digests op header render_binding [OF m(1)] m(9)
        manifest_file_state_accepted as_string_def named)
      (simp add: m(6,7,9) [symmetric])
  then show ?thesis using m(1) by blast
qed

section \<open>The fields of the plan core\<close>

lemma dict_literal_map_of:
  assumes "dict_literal xs = Inr d"
  shows "map_of d k = (case map_of xs k of None \<Rightarrow> None | Some r \<Rightarrow> Some (projr r))"
    and "map_of xs k = Some r \<Longrightarrow> r = Inr (get d k)"
  using assms
proof (induction xs arbitrary: d)
  case (Cons x xs)
  {
    case 1
    obtain v d' where "snd x = Inr v" "dict_literal xs = Inr d'" "d = (fst x, v) # d'"
      using 1 dict_literal_simps(2) [of "fst x" "snd x"] by auto
    then show ?case using Cons.IH(1) [of d'] by (cases x) auto
  next
    case 2
    obtain v d' where "snd x = Inr v" "dict_literal xs = Inr d'" "d = (fst x, v) # d'"
      using 2(2) dict_literal_simps(2) [of "fst x" "snd x"] by auto
    then show ?case using Cons.IH(2) [of d'] 2(1) by (cases x) (auto simp: get_Cons split: if_splits)
  }
qed (simp_all add: dict_literal_simps)

lemma dict_literal_at: "dict_literal xs = Inr d \<Longrightarrow> map_of xs k = Some r \<Longrightarrow> map_of d k \<noteq> None \<and> r = Inr (get d k)"
  using dict_literal_map_of by simp

lemma get_append: "get (d @ e) k = (if map_of d k = None then get e k else get d k)"
  by (simp add: get_def map_add_def split: option.split)

lemma get_update: "get (AList.update k v d) k' = (if k = k' then v else get d k')"
  by (simp add: get_def update_conv')

text \<open>What the branches add leaves the common fields alone, except for the generation.\<close>

lemma plan_core_ofE:
  assumes "plan_core_of ir ownership manifest observed task_state = Inr core"
  obtains common where "common_plan_core ir ownership observed task_state = Inr common"
    and "\<forall>k. k \<noteq> ''candidate_manifest_generation'' \<and> map_of common k \<noteq> None \<longrightarrow> get core k = get common k"
    and "get core ''candidate_manifest_generation'' = (if ir_operation ir = ''init'' then get common ''candidate_manifest_generation''
      else case manifest of Some m \<Rightarrow> (case get m ''generation'' of PInt g \<Rightarrow> PInt (g + 1) | _ \<Rightarrow> PNone) | None \<Rightarrow> PNone)"
    and "(ir_operation ir = ''init'') = (manifest = None)"
proof -
  obtain common where common: "common_plan_core ir ownership observed task_state = Inr common"
    and core: "(if ir_operation ir = ''init'' then init_plan_core common manifest observed
      else existing_plan_core ir common manifest observed) = Inr core"
    using assms by (auto simp: plan_core_of_def bnd_Inr_iff)
  have gen: "map_of common ''candidate_manifest_generation'' \<noteq> None"
    using common by (auto simp: common_plan_core_def Let_def bnd_Inr_iff dict_literal_map_of(1))
  show thesis
  proof (rule that [OF common])
    show "\<forall>k. k \<noteq> ''candidate_manifest_generation'' \<and> map_of common k \<noteq> None \<longrightarrow> get core k = get common k"
      using core by (auto simp: init_plan_core_def existing_plan_core_def bnd_Inr_iff get_append get_update update_conv'
          split: if_splits option.splits pyval.splits)
    show "get core ''candidate_manifest_generation'' = (if ir_operation ir = ''init'' then get common ''candidate_manifest_generation''
      else case manifest of Some m \<Rightarrow> (case get m ''generation'' of PInt g \<Rightarrow> PInt (g + 1) | _ \<Rightarrow> PNone) | None \<Rightarrow> PNone)"
      using core gen by (auto simp: init_plan_core_def existing_plan_core_def bnd_Inr_iff get_append get_update update_conv'
          split: if_splits option.splits pyval.splits)
    show "(ir_operation ir = ''init'') = (manifest = None)"
      using core by (auto simp: init_plan_core_def existing_plan_core_def split: if_splits option.splits)
  qed
qed

lemma common_field:
  assumes "common_plan_core ir ownership observed task_state = Inr common"
  obtains authority files where "authority_precondition ir = Inr authority" "file_preconditions ownership = Inr files"
    "get common ''preconditions'' = PList (PDict authority # map PDict files)" "map_of common ''preconditions'' \<noteq> None"
    "get common ''candidate_file_states'' = PList (map (\<lambda>f. PDict (file_state_document f)) (op_candidate_file_states ownership))"
    "map_of common ''candidate_file_states'' \<noteq> None"
    "bnd (workspace_evaluation ir task_state) (\<lambda>d. Inr (PDict d)) = Inr (get common ''workspace_state_evaluation'')"
    "map_of common ''workspace_state_evaluation'' \<noteq> None"
    "bnd (task_gate_evaluation ir task_state) (\<lambda>d. Inr (PDict d)) = Inr (get common ''task_gate_evaluation'')"
    "map_of common ''task_gate_evaluation'' \<noteq> None"
    "get common ''candidate_impact'' = candidate_impact_document (ir_candidate_impact ir)" "map_of common ''candidate_impact'' \<noteq> None"
    "get common ''candidate_manifest_generation'' = PInt 1"
proof -
  obtain authority files where af: "authority_precondition ir = Inr authority" "file_preconditions ownership = Inr files"
    using assms by (auto simp: common_plan_core_def Let_def bnd_Inr_iff)
  note lit = assms [unfolded common_plan_core_def Let_def af bnd.simps]
  note at = dict_literal_at [OF lit]
  have p: "map_of common ''preconditions'' \<noteq> None \<and> (Inr (PList (PDict authority # map PDict files)) :: pyval res) = Inr (get common ''preconditions'')"
    by (rule at) simp
  have c: "map_of common ''candidate_file_states'' \<noteq> None \<and>
      (Inr (PList (map (\<lambda>f. PDict (file_state_document f)) (op_candidate_file_states ownership))) :: pyval res) = Inr (get common ''candidate_file_states'')"
    by (rule at) simp
  have w: "map_of common ''workspace_state_evaluation'' \<noteq> None \<and>
      bnd (workspace_evaluation ir task_state) (\<lambda>d. Inr (PDict d)) = Inr (get common ''workspace_state_evaluation'')"
    by (rule at) simp
  have t: "map_of common ''task_gate_evaluation'' \<noteq> None \<and>
      bnd (task_gate_evaluation ir task_state) (\<lambda>d. Inr (PDict d)) = Inr (get common ''task_gate_evaluation'')"
    by (rule at) simp
  have i: "map_of common ''candidate_impact'' \<noteq> None \<and>
      (Inr (candidate_impact_document (ir_candidate_impact ir)) :: pyval res) = Inr (get common ''candidate_impact'')"
    by (rule at) simp
  have g: "map_of common ''candidate_manifest_generation'' \<noteq> None \<and> (Inr (PInt 1) :: pyval res) = Inr (get common ''candidate_manifest_generation'')"
    by (rule at) simp
  show thesis
    by (rule that [OF af]) (use p c w t i g in simp_all)
qed

section \<open>Planned through an open gate\<close>

lemma planned_core:
  assumes "plan_reconcile ir staged manifest observed task_state = Inr e"
  obtains records files ownership common where "recorded_files manifest = Inr records" "get observed ''files'' = PDict files"
    "plan_ownership staged (ir_artifact_definitions ir) records files (ir_operation ir) = Inr ownership"
    "plan_core_of ir ownership manifest observed task_state = Inr (se_plan_core e)"
    "common_plan_core ir ownership observed task_state = Inr common"
    "\<forall>k. k \<noteq> ''candidate_manifest_generation'' \<and> map_of common k \<noteq> None \<longrightarrow> get (se_plan_core e) k = get common k"
    "seal_plan ir (se_plan_core e) = Inr e" "validate_plan_core (se_plan_core e) = Inr ()"
proof -
  obtain records files ownership core where a: "recorded_files manifest = Inr records" "get observed ''files'' = PDict files"
    "plan_ownership staged (ir_artifact_definitions ir) records files (ir_operation ir) = Inr ownership"
    "plan_core_of ir ownership manifest observed task_state = Inr core" "seal_plan ir core = Inr e"
    using assms by (auto simp: plan_reconcile_def bnd_Inr_iff as_mapping_def split: pyval.splits)
  have core: "se_plan_core e = core" by (rule seal_planE [OF a(5)])
  have valid: "validate_plan_core core = Inr ()"
    by (rule seal_planE [OF a(5)]) (auto simp: compute_plan_core_digest_def bnd_Inr_iff)
  obtain common where "common_plan_core ir ownership observed task_state = Inr common"
    "\<forall>k. k \<noteq> ''candidate_manifest_generation'' \<and> map_of common k \<noteq> None \<longrightarrow> get core k = get common k"
    by (rule plan_core_ofE [OF a(4)])
  then show thesis using that [OF a(1-3)] a(4,5) core valid by blast
qed

lemma planned_gate:
  assumes "plan_reconcile ir staged manifest observed task_state = Inr e"
  obtains g where "evaluate_task_gate (ir_operation ir) (ir_candidate_impact ir) (ts_snapshot task_state) (ts_findings task_state) = Inr g"
    "tg_blockers g = []" "get (se_plan_core e) ''task_gate_evaluation'' = PDict (task_gate_document g)"
    "get (se_plan_core e) ''candidate_impact'' = candidate_impact_document (ir_candidate_impact ir)"
proof -
  from assms obtain ownership common where common: "common_plan_core ir ownership observed task_state = Inr common"
    and same: "\<forall>k. k \<noteq> ''candidate_manifest_generation'' \<and> map_of common k \<noteq> None \<longrightarrow> get (se_plan_core e) k = get common k"
    and valid: "validate_plan_core (se_plan_core e) = Inr ()" by (rule planned_core)
  from common have t: "bnd (task_gate_evaluation ir task_state) (\<lambda>d. Inr (PDict d)) = Inr (get (se_plan_core e) ''task_gate_evaluation'')"
    and i: "get (se_plan_core e) ''candidate_impact'' = candidate_impact_document (ir_candidate_impact ir)"
    by (rule common_field, use same in simp)+
  obtain g where g: "evaluate_task_gate (ir_operation ir) (ir_candidate_impact ir) (ts_snapshot task_state) (ts_findings task_state) = Inr g"
    "get (se_plan_core e) ''task_gate_evaluation'' = PDict (task_gate_document g)"
    using t by (auto simp: task_gate_evaluation_def Let_def bnd_Inr_iff split: if_splits)
  have "validate_evaluations (se_plan_core e) = Inr ()" using valid by (auto simp: validate_plan_core_def bnd_Inr_iff)
  then have "tg_blockers g = []"
    by (auto simp: validate_evaluations_def bnd_Inr_iff g(2) plan_mapping_def as_mapping_def plan_array_def as_array_def
        task_gate_document_def get_Cons require_def split: if_splits)
  then show thesis using that g i by blast
qed

text \<open>
  C16: An envelope is planned only through an open task gate, which protects running tasks: of the impact
  the envelope records, every change of a surface that a task which is not archived has pinned is a
  repair that puts the surface back to exactly the pinned digest.
\<close>

theorem planned_envelope_protects_pins:
  assumes "plan_reconcile ir staged manifest observed task_state = Inr e"
    and "compute_candidate_impact contract observation inputs = Inr (ir_candidate_impact ir)"
    and "parse_findings (ts_findings task_state) = Inr facts" and "f \<in> set facts" and "ff_kind f = ''non-archived-task''"
    and "p \<in> set (ff_pinned_surfaces f)" and "c \<in> set (ci_surface_changes (ir_candidate_impact ir))"
    and "sc_surface_id c = sp_surface_id p"
  shows "get (se_plan_core e) ''candidate_impact'' = candidate_impact_document (ir_candidate_impact ir) \<and>
    sc_change_kind c = ''repair'' \<and> sc_contract_before_digest c = sp_surface_digest p \<and> sc_after_digest c = sp_surface_digest p"
proof -
  obtain g where "evaluate_task_gate (ir_operation ir) (ir_candidate_impact ir) (ts_snapshot task_state) (ts_findings task_state) = Inr g"
    "tg_blockers g = []" "get (se_plan_core e) ''candidate_impact'' = candidate_impact_document (ir_candidate_impact ir)"
    by (rule planned_gate [OF assms(1)])
  then show ?thesis using admitted_gate_pins [OF assms(2) _ _ assms(3-8)] by blast
qed

section \<open>The candidate Manifest of a plan\<close>

lemma decision_path: "lookup (ownership_decision r f g h a b) ''path'' = Inr (PStr (st_path r))"
  by (simp add: ownership_decision_def lookup_def)

lemma path_plan_decision:
  assumes "plan_path operation (staged_index tree) targets previous observed p = Inr pp"
  shows "lookup (pp_decision pp) ''path'' = Inr (PStr p)"
  using assms
proof (rule plan_pathE)
  fix seen content baseline
  assume "(\<exists>r. map_of (staged_index tree) p = Some r \<and> stage_path operation r (map_of targets p) (map_of previous p) seen content baseline = Inr pp) \<or>
     (\<exists>old. map_of (staged_index tree) p = None \<and> map_of previous p = Some old \<and> retire_path p old seen content baseline = Inr pp)"
  then show ?thesis
  proof (elim disjE exE conjE)
    fix r assume r: "map_of (staged_index tree) p = Some r"
      and st: "stage_path operation r (map_of targets p) (map_of previous p) seen content baseline = Inr pp"
    from st have "lookup (pp_decision pp) ''path'' = Inr (PStr (st_path r))"
    proof (rule staged_cases)
      fix target assume "st_ownership r = ''managed'' \<and> plan_managed operation r (map_of previous p) seen baseline = Inr pp \<or>
        st_ownership r = ''overlay-managed'' \<and> plan_overlay operation r target (map_of previous p) seen content baseline = Inr pp \<or>
        st_ownership r = ''adopted'' \<and> plan_adopted r (map_of previous p) seen baseline = Inr pp \<or>
        st_ownership r = ''create-once-then-user-owned'' \<and> plan_create_once r (map_of previous p) seen baseline = Inr pp \<or>
        st_ownership r = ''user-owned'' \<and> plan_user_owned r (map_of previous p) seen baseline = Inr pp"
      then show ?thesis
      proof (elim disjE conjE)
        assume "plan_overlay operation r target (map_of previous p) seen content baseline = Inr pp"
        then show ?thesis by (rule plan_overlayE) (simp add: path_result_def decision_path)
      qed (auto simp: plan_managed_def plan_adopted_def plan_create_once_def plan_user_owned_def Let_def path_result_def
          decision_path split: option.splits if_splits)
    qed
    then show ?thesis using staged_index_path [OF r] by simp
  next
    fix old assume "retire_path p old seen content baseline = Inr pp"
    then have "lookup (pp_decision pp) ''path'' = Inr (PStr (st_path (retired_file p old)))"
      by (auto simp: retire_path_def Let_def path_result_def bnd_Inr_iff decision_path split: if_splits)
    then show ?thesis by (simp add: retired_file_def Let_def)
  qed
qed

lemma as_mapping_PDict: "as_mapping e (PDict d) = Inr d"
  by (simp add: as_mapping_def)

lemma preconditions_manifest:
  assumes "mapr (file_precondition kept contents) (map D ps) = Inr files"
    and "\<And>p. p \<in> set ps \<Longrightarrow> lookup (D p) ''path'' = Inr (PStr p)"
  shows "foldr_res (\<lambda>records raw. bnd (as_mapping ownership_conflict raw) (\<lambda>precondition.
         if get precondition ''kind'' \<noteq> PStr ''file'' then Inr records
         else if get precondition ''candidate_manifest_record'' = PNone then Inr records
         else bnd (as_mapping ownership_conflict (get precondition ''candidate_manifest_record'')) (\<lambda>record.
           Inr (records @ [record])))) acc (map PDict files) =
    Inr (acc @ concat (map (\<lambda>p. option_list (map_of kept p)) ps))"
  using assms
proof (induction ps arbitrary: acc files)
  case (Cons p ps)
  obtain f fs where f: "file_precondition kept contents (D p) = Inr f" "files = f # fs"
    and fs: "mapr (file_precondition kept contents) (map D ps) = Inr fs"
    using Cons.prems(1) by (auto simp: bnd_Inr_iff)
  have "lookup (D p) ''path'' = Inr (PStr p)" by (rule Cons.prems(2)) simp
  then obtain v where v: "f = [(''kind'', PStr ''file''), (''path'', PStr p), (''ownership_decision'', PDict (D p)),
      (''candidate_manifest_record'', case map_of kept p of None \<Rightarrow> PNone | Some d \<Rightarrow> PDict d), (''candidate_content_utf8'', v)]"
    using f(1) by (auto simp: file_precondition_def dict_literal_simps)
  note ih = Cons.IH [OF fs]
  have "\<And>p. p \<in> set ps \<Longrightarrow> lookup (D p) ''path'' = Inr (PStr p)" by (rule Cons.prems(2)) simp
  then show ?case
    by (cases "map_of kept p") (simp_all add: f(2) v get_Cons as_mapping_PDict ih option_list_def [of None] option_list_def [of "Some _"])
qed simp

lemma plan_manifest_files:
  assumes "plan_ownership tree definitions records observed operation = Inr plan" and "staged_valid tree"
    and "wf_pyval (PList (map PDict records))" and "file_preconditions plan = Inr files"
    and "get core ''preconditions'' = PList (PDict auth # map PDict files)" and "get auth ''kind'' \<noteq> PStr ''file''"
  shows "manifest_files core = Inr (op_manifest_file_records plan)"
  using assms(1-3)
proof (rule plan_kept_at)
  fix previous targets F
  let ?P = "plan_paths tree previous" let ?kept = "keyed_manifest F ?P"
  assume F: "\<forall>p \<in> set ?P. plan_path operation (staged_index tree) targets previous observed p = Inr (F p)"
    and decisions: "op_decisions plan = map (\<lambda>p. pp_decision (F p)) ?P" and records: "op_manifest_file_records plan = map snd ?kept"
    and rec: "\<forall>(p, d) \<in> set ?kept. (\<exists>b. record_state d = Inr b) \<and> lookup d ''path'' = Inr (PStr p) \<and> canonical_path p"
  have keyed: "mapr (\<lambda>d. bnd (lookup d ''path'') (\<lambda>p. Inr (py_str p, d))) (map snd ?kept) = Inr ?kept"
    by (rule mapr_keyed) (use rec in blast)
  have at: "map_of (dict_display ?kept) p = pp_manifest (F p)" if "p \<in> set ?P" for p
    using that keyed_manifest_facts(4) [of ?P F p] by (simp add: map_of_dict_display_distinct keyed_plan_paths(1)) (simp add: plan_paths_def)
  have "mapr (file_precondition (dict_display ?kept) (op_candidate_contents plan)) (map (\<lambda>p. pp_decision (F p)) ?P) = Inr files"
    using assms(4) by (simp add: file_preconditions_def records keyed decisions)
  note pre = preconditions_manifest [OF this path_plan_decision [OF bspec [OF F]]]
  have "concat (map (\<lambda>p. option_list (map_of (dict_display ?kept) p)) ?P) = map snd ?kept"
    unfolding keyed_manifest_facts(1) by (intro arg_cong [where f = concat] map_cong refl) (simp add: at)
  then show ?thesis
    by (simp add: manifest_files_def assms(5,6) as_array_def as_mapping_PDict pre records keyed
        sort_key_id_if_sorted [OF keyed_plan_paths(2)])
qed

text \<open>
  C30: The Manifest a planned envelope stands for is the one the ownership plan calls for: its file records
  are exactly those of the ownership plan, its generation is the one after that of the Manifest, and
  the envelope lists exactly the candidate states of the ownership plan.
\<close>

theorem planned_manifest_exact:
  assumes "plan_reconcile ir staged manifest observed task_state = Inr e" and "recorded_files manifest = Inr records"
    and "staged_valid staged" and "wf_pyval (PList (map PDict records))"
  shows "\<exists>files ownership m. get observed ''files'' = PDict files \<and>
    plan_ownership staged (ir_artifact_definitions ir) records files (ir_operation ir) = Inr ownership \<and>
    render_candidate_manifest e = Inr m \<and> get m ''files'' = PList (map PDict (op_manifest_file_records ownership)) \<and>
    get m ''generation'' = (case manifest of None \<Rightarrow> PInt 1
      | Some old \<Rightarrow> (case get old ''generation'' of PInt g \<Rightarrow> PInt (g + 1) | _ \<Rightarrow> PNone)) \<and>
    get (se_plan_core e) ''candidate_file_states'' =
      PList (map (\<lambda>f. PDict (file_state_document f)) (op_candidate_file_states ownership))"
  using assms(1)
proof (rule planned_core)
  fix records' files ownership common
  assume records: "recorded_files manifest = Inr records'" and files: "get observed ''files'' = PDict files"
    and own: "plan_ownership staged (ir_artifact_definitions ir) records' files (ir_operation ir) = Inr ownership"
    and core: "plan_core_of ir ownership manifest observed task_state = Inr (se_plan_core e)"
    and common: "common_plan_core ir ownership observed task_state = Inr common"
    and same: "\<forall>k. k \<noteq> ''candidate_manifest_generation'' \<and> map_of common k \<noteq> None \<longrightarrow> get (se_plan_core e) k = get common k"
    and seal: "seal_plan ir (se_plan_core e) = Inr e"
  have rr: "records' = records" using records assms(2) by simp
  obtain m where m: "render_candidate_manifest e = Inr m" by (rule seal_planE [OF seal])
  from common obtain auth pre where auth: "authority_precondition ir = Inr auth" and pre: "file_preconditions ownership = Inr pre"
    and p: "get (se_plan_core e) ''preconditions'' = PList (PDict auth # map PDict pre)"
    and states: "get (se_plan_core e) ''candidate_file_states'' =
      PList (map (\<lambda>f. PDict (file_state_document f)) (op_candidate_file_states ownership))"
    and one: "get common ''candidate_manifest_generation'' = PInt 1"
    by (rule common_field) (use same in simp)
  have "get auth ''kind'' \<noteq> PStr ''file''" using auth by (auto simp: authority_precondition_def bnd_Inr_iff get_Cons)
  from plan_manifest_files [OF own [unfolded rr] assms(3,4) pre p this]
  have mf: "get m ''files'' = PList (map PDict (op_manifest_file_records ownership))"
    "get m ''generation'' = get (se_plan_core e) ''candidate_manifest_generation''"
    using m by (auto simp: render_candidate_manifest_def Let_def bnd_Inr_iff get_Cons)
  have "get (se_plan_core e) ''candidate_manifest_generation'' = (case manifest of None \<Rightarrow> PInt 1
      | Some old \<Rightarrow> (case get old ''generation'' of PInt g \<Rightarrow> PInt (g + 1) | _ \<Rightarrow> PNone))"
    using core by (rule plan_core_ofE) (use common one in \<open>auto split: option.splits\<close>)
  then show ?thesis
    by (intro exI [of _ files] exI [of _ ownership] exI [of _ m] conjI)
      (simp_all only: files own [unfolded rr] m mf states)
qed

section \<open>From the plan to the transaction\<close>

lemma utf8_encode_Cons: "utf8_encode (c # s) = utf8_char c @ utf8_encode s"
  by (simp add: utf8_encode_def)

lemma utf8_decode_Some: "utf8_decode bs = Some s \<Longrightarrow> utf8_encode s = bs"
proof (induction bs arbitrary: s rule: utf8_decode.induct)
  case (2 b bs)
  show ?case
  proof (cases "unat b < 0x80")
    case True
    then obtain t where t: "utf8_decode bs = Some t" "s = char_of (unat b) # t" using 2(3) by auto
    have "ord (char_of (unat b) :: char) = unat b" using True by (simp add: ord_def)
    then have "utf8_char (char_of (unat b)) = [b]" using True by (simp add: utf8_char_def)
    then show ?thesis using 2(1) [OF True t(1)] by (simp add: t(2) utf8_encode_Cons)
  next
    case False
    then obtain c cs t where c: "unat b = 0xC2 \<or> unat b = 0xC3" "bs = c # cs" "0x80 \<le> unat c" "unat c < 0xC0"
      "utf8_decode cs = Some t" "s = char_of ((unat b - 0xC0) * 0x40 + (unat c - 0x80)) # t"
      using 2(3) by (auto split: if_splits list.splits)
    define n where "n = (unat b - 0xC0) * 0x40 + (unat c - 0x80)"
    have "unat c = 0x80 + (unat c - 0x80)" "unat c - 0x80 < 0x40" using c(3,4) by simp_all
    then obtain k where k: "unat c = 0x80 + k" "k < 0x40" by blast
    have "(2 * 0x40 + k) mod 0x40 = k" unfolding mod_mult_self3 using k(2) by simp
    then have mod64: "unat c mod 0x40 = unat c - 0x80" by (simp add: k(1))
    have n: "n < 256" "\<not> n < 0x80" "0xC0 + n div 0x40 = unat b" "0x80 + n mod 0x40 = unat c"
      using c(1,3,4) unfolding n_def by (auto simp: mod64)
    have "ord (char_of n :: char) = n" using n(1) by (simp add: ord_def)
    then have "utf8_char (char_of n) = [of_nat (0xC0 + n div 0x40), of_nat (0x80 + n mod 0x40)]"
      using n(2) by (simp add: utf8_char_def)
    also have "\<dots> = [b, c]" unfolding n(3,4) by simp
    finally show ?thesis using 2(2) [OF False c(1,2)] c by (simp add: n_def utf8_encode_Cons)
  qed
qed (simp add: utf8_encode_def)

lemma content_text_bytes: "content_text candidate = Inr v \<Longrightarrow> content_bytes v = candidate \<and> (v = PNone \<or> is_pystr v)"
  by (auto simp: content_text_def content_bytes_def utf8_decode_Some split: option.splits)

text \<open>What a decision remembers of the observation.\<close>

lemma get_lookup: "lookup d k = Inr v \<Longrightarrow> get d k = v"
  by (auto simp: lookup_def get_def split: option.splits)

definition observed_in :: "dict \<Rightarrow> string \<Rightarrow> dict \<Rightarrow> bool" where
  "observed_in observed p decision = (\<exists>seen content. bnd (lookup observed p) (observed_file p) = Inr (seen, content) \<and>
     get decision ''observed_file_state'' = PDict (file_state_document seen))"

lemma decision_observed: "get (ownership_decision r f g h a b) ''observed_file_state'' = PDict (file_state_document f)"
  by (simp add: ownership_decision_def get_Cons)

lemma path_plan_observed:
  assumes "plan_path operation (staged_index tree) targets previous observed p = Inr pp"
  shows "observed_in observed p (pp_decision pp)"
  using assms
proof (rule plan_pathE)
  fix raw seen content baseline
  assume raw: "lookup observed p = Inr raw" "observed_file p raw = Inr (seen, content)"
    and how: "(\<exists>r. map_of (staged_index tree) p = Some r \<and> stage_path operation r (map_of targets p) (map_of previous p) seen content baseline = Inr pp) \<or>
     (\<exists>old. map_of (staged_index tree) p = None \<and> map_of previous p = Some old \<and> retire_path p old seen content baseline = Inr pp)"
  have "get (pp_decision pp) ''observed_file_state'' = PDict (file_state_document seen)" using how
  proof (elim disjE exE conjE)
    fix r assume "stage_path operation r (map_of targets p) (map_of previous p) seen content baseline = Inr pp"
    then show ?thesis
    proof (rule staged_cases)
      fix target assume "st_ownership r = ''managed'' \<and> plan_managed operation r (map_of previous p) seen baseline = Inr pp \<or>
        st_ownership r = ''overlay-managed'' \<and> plan_overlay operation r target (map_of previous p) seen content baseline = Inr pp \<or>
        st_ownership r = ''adopted'' \<and> plan_adopted r (map_of previous p) seen baseline = Inr pp \<or>
        st_ownership r = ''create-once-then-user-owned'' \<and> plan_create_once r (map_of previous p) seen baseline = Inr pp \<or>
        st_ownership r = ''user-owned'' \<and> plan_user_owned r (map_of previous p) seen baseline = Inr pp"
      then show ?thesis
      proof (elim disjE conjE)
        assume "plan_overlay operation r target (map_of previous p) seen content baseline = Inr pp"
        then show ?thesis by (rule plan_overlayE) (simp add: path_result_def decision_observed)
      qed (auto simp: plan_managed_def plan_adopted_def plan_create_once_def plan_user_owned_def Let_def path_result_def
          decision_observed split: option.splits if_splits)
    qed
  next
    fix old assume "retire_path p old seen content baseline = Inr pp"
    then show ?thesis
      by (auto simp: retire_path_def Let_def path_result_def bnd_Inr_iff decision_observed split: if_splits)
  qed
  then show ?thesis using raw by (auto simp: observed_in_def)
qed

text \<open>Every candidate state can be written down and read back.\<close>

lemma path_plan_valid:
  assumes "plan_path operation (staged_index tree) targets previous observed p = Inr pp" and "pp_state pp = Some c"
    and valid: "\<And>r. map_of (staged_index tree) p = Some r \<Longrightarrow> valid_file_state (candidate_state r)"
  shows "valid_file_state c"
  using assms(1)
proof (rule plan_pathE)
  fix raw seen content baseline
  assume raw: "observed_file p raw = Inr (seen, content)"
    and how: "(\<exists>r. map_of (staged_index tree) p = Some r \<and> stage_path operation r (map_of targets p) (map_of previous p) seen content baseline = Inr pp) \<or>
     (\<exists>old. map_of (staged_index tree) p = None \<and> map_of previous p = Some old \<and> retire_path p old seen content baseline = Inr pp)"
  have seen: "valid_file_state seen" "fs_path seen = p" by (rule observed_file_content [OF raw])+
  then have p: "canonical_path p" by (simp add: valid_file_state_def)
  from how show ?thesis
  proof (elim disjE exE conjE)
    fix r assume r: "map_of (staged_index tree) p = Some r"
      and "stage_path operation r (map_of targets p) (map_of previous p) seen content baseline = Inr pp"
    from this(2) show ?thesis
    proof (rule staged_cases)
      fix target assume "st_ownership r = ''managed'' \<and> plan_managed operation r (map_of previous p) seen baseline = Inr pp \<or>
        st_ownership r = ''overlay-managed'' \<and> plan_overlay operation r target (map_of previous p) seen content baseline = Inr pp \<or>
        st_ownership r = ''adopted'' \<and> plan_adopted r (map_of previous p) seen baseline = Inr pp \<or>
        st_ownership r = ''create-once-then-user-owned'' \<and> plan_create_once r (map_of previous p) seen baseline = Inr pp \<or>
        st_ownership r = ''user-owned'' \<and> plan_user_owned r (map_of previous p) seen baseline = Inr pp"
      then show ?thesis
      proof (elim disjE conjE)
        assume "plan_overlay operation r target (map_of previous p) seen content baseline = Inr pp"
        then show ?thesis
        proof (rule plan_overlayE, goal_cases)
          case (1 b e ov action reason bytes candidate)
          have "valid_file_state candidate" unfolding 1(5) 1(4) staged_index_path [OF r] by (rule valid_overlay_candidate [OF p seen(1)])
          then show ?case using assms(2) by (auto simp: 1(6) path_result_def split: if_splits)
        qed
      qed (use assms(2) valid [OF r] in \<open>auto simp: plan_managed_def plan_adopted_def plan_create_once_def plan_user_owned_def Let_def
          path_result_def split: option.splits if_splits\<close>)
    qed
  next
    fix old assume "retire_path p old seen content baseline = Inr pp"
    then have "c = seen \<or> c = absent_file p \<or> (\<exists>bs. c = regular_file p (sha256_hex bs) (fs_mode seen) CANONICAL_NULL)"
      using assms(2) by (auto simp: retire_path_def Let_def path_result_def bnd_Inr_iff split: if_splits)
    moreover have "valid_file_state (absent_file p)" using p by (simp add: valid_file_state_def absent_file_def)
    moreover have "valid_file_state (regular_file p (sha256_hex bs) (fs_mode seen) CANONICAL_NULL)" for bs
      using p seen(1) by (simp add: valid_file_state_def regular_file_def sha256_hex_is_sha256)
    ultimately show ?thesis using seen(1) by blast
  qed
qed

text \<open>One precondition of the envelope as the transaction reads it.\<close>

definition record_for :: "ownership_plan \<Rightarrow> dict \<Rightarrow> file_state \<Rightarrow> dict \<Rightarrow> bool" where
  "record_for plan observed c r = (\<exists>seen content v backup.
     bnd (lookup observed (fs_path c)) (observed_file (fs_path c)) = Inr (seen, content) \<and>
     r = file_record (fs_path c) seen c v backup \<and> content_bytes v = map_of (op_candidate_contents plan) (fs_path c))"

lemma add_file_record_step:
  assumes f: "file_precondition kept (op_candidate_contents plan) decision = Inr f" and p: "lookup decision ''path'' = Inr (PStr p)"
    and seen: "observed_in observed p decision"
  shows "map_of candidates p = None \<Longrightarrow> add_file_record tx candidates acc (PDict f) = Inr acc"
    and "map_of candidates p = Some c \<Longrightarrow> fs_path c = p \<Longrightarrow>
      \<exists>r. add_file_record tx candidates acc (PDict f) = Inr (acc @ [r]) \<and> record_for plan observed c r"
proof -
  obtain v where v: "content_text (map_of (op_candidate_contents plan) p) = Inr v"
    and fd: "f = [(''kind'', PStr ''file''), (''path'', PStr p), (''ownership_decision'', PDict decision),
      (''candidate_manifest_record'', case map_of kept p of None \<Rightarrow> PNone | Some d \<Rightarrow> PDict d), (''candidate_content_utf8'', v)]"
    using f by (auto simp: file_precondition_def p dict_literal_simps)
  note cb = content_text_bytes [OF v]
  show "map_of candidates p = None \<Longrightarrow> add_file_record tx candidates acc (PDict f) = Inr acc"
    by (simp add: add_file_record_def as_mapping_PDict fd get_Cons)
  obtain seen' content where s: "bnd (lookup observed p) (observed_file p) = Inr (seen', content)"
    "get decision ''observed_file_state'' = PDict (file_state_document seen')" using seen unfolding observed_in_def by blast
  have "valid_file_state seen'" using s(1) observed_file_content(4) by (auto simp: bnd_Inr_iff)
  then have reads: "file_state_from_document (file_state_document seen') = Inr seen'" by (rule file_state_reads_back)
  assume c: "map_of candidates p = Some c" "fs_path c = p"
  have "add_file_record tx candidates acc (PDict f) = Inr (acc @ [file_record p seen' c v
      (if \<not> fs_exists seen' then PNone else PStr (backup_path tx (length acc)))])"
    using cb by (auto simp: add_file_record_def as_mapping_PDict fd get_Cons c(1) s(2) reads)
  then show "\<exists>r. add_file_record tx candidates acc (PDict f) = Inr (acc @ [r]) \<and> record_for plan observed c r"
    using s(1) cb unfolding record_for_def c(2) by blast
qed

lemma add_file_records:
  assumes "mapr (file_precondition kept (op_candidate_contents plan)) (map D ps) = Inr files"
    and "\<And>p. p \<in> set ps \<Longrightarrow> lookup (D p) ''path'' = Inr (PStr p) \<and> observed_in observed p (D p)"
    and "\<And>p c. p \<in> set ps \<Longrightarrow> map_of candidates p = Some c \<Longrightarrow> fs_path c = p"
  shows "\<exists>rs. foldr_res (add_file_record tx candidates) acc (map PDict files) = Inr (acc @ rs) \<and>
    list_all2 (record_for plan observed) (concat (map (\<lambda>p. option_list (map_of candidates p)) ps)) rs"
  using assms
proof (induction ps arbitrary: acc files)
  case (Cons p ps)
  obtain f fs where f: "file_precondition kept (op_candidate_contents plan) (D p) = Inr f" "files = f # fs"
    and fs: "mapr (file_precondition kept (op_candidate_contents plan)) (map D ps) = Inr fs"
    using Cons.prems(1) by (auto simp: bnd_Inr_iff)
  have p: "lookup (D p) ''path'' = Inr (PStr p)" "observed_in observed p (D p)" using Cons.prems(2) [of p] by simp_all
  note step = add_file_record_step [OF f(1) p]
  have ih: "\<exists>rs. foldr_res (add_file_record tx candidates) acc (map PDict fs) = Inr (acc @ rs) \<and>
    list_all2 (record_for plan observed) (concat (map (\<lambda>p. option_list (map_of candidates p)) ps)) rs" for acc
    by (rule Cons.IH [OF fs]) (use Cons.prems(2,3) in auto)
  show ?case
  proof (cases "map_of candidates p")
    case None
    then show ?thesis using ih [of acc] step(1) by (simp add: f(2) option_list_def [of None])
  next
    case (Some c)
    then obtain r where r: "add_file_record tx candidates acc (PDict f) = Inr (acc @ [r])" "record_for plan observed c r"
      using step(2) [OF Some Cons.prems(3) [OF _ Some]] by auto
    obtain rs where rs: "foldr_res (add_file_record tx candidates) (acc @ [r]) (map PDict fs) = Inr ((acc @ [r]) @ rs)"
      "list_all2 (record_for plan observed) (concat (map (\<lambda>p. option_list (map_of candidates p)) ps)) rs"
      using ih by blast
    show ?thesis by (rule exI [of _ "r # rs"]) (simp add: f(2) Some option_list_def [of "Some c"] r rs [simplified])
  qed
qed simp

lemma sorted_option_list:
  assumes "sorted ps" and "\<And>p c. p \<in> set ps \<Longrightarrow> f p = Some c \<Longrightarrow> g c = p"
  shows "sorted (map g (concat (map (\<lambda>p. option_list (f p)) ps)))"
  using assms
proof (induction ps)
  case (Cons p ps)
  have ih: "sorted (map g (concat (map (\<lambda>p. option_list (f p)) ps)))" by (rule Cons.IH) (use Cons.prems in auto)
  have le: "\<forall>c \<in> set (concat (map (\<lambda>p. option_list (f p)) ps)). p \<le> g c" using Cons.prems by fastforce
  show ?case
  proof (cases "f p")
    case (Some a)
    then have "g a = p" using Cons.prems(2) by simp
    then show ?thesis using ih le by (simp add: Some option_list_def [of "Some a"])
  qed (use ih in \<open>simp add: option_list_def [of None]\<close>)
qed simp

lemma option_eqI: "(\<And>c. x = Some c \<longleftrightarrow> y = Some c) \<Longrightarrow> x = y"
  by (cases x; cases y) auto

lemma plan_statesE:
  assumes "plan_ownership tree definitions records observed operation = Inr plan" and "staged_valid tree"
  obtains previous targets and F :: "string \<Rightarrow> path_plan" where
    "\<forall>p \<in> set (plan_paths tree previous). plan_path operation (staged_index tree) targets previous observed p = Inr (F p)"
    "op_decisions plan = map (\<lambda>p. pp_decision (F p)) (plan_paths tree previous)"
    "op_candidate_file_states plan = concat (map (\<lambda>p. option_list (pp_state (F p))) (plan_paths tree previous))"
    "\<forall>c \<in> set (op_candidate_file_states plan). valid_file_state c"
    "\<forall>p \<in> set (plan_paths tree previous). map_of (dict_display (map (\<lambda>c. (fs_path c, c)) (op_candidate_file_states plan))) p = pp_state (F p)"
  using assms(1)
proof (rule plan_ownershipE)
  fix previous targets and F :: "string \<Rightarrow> path_plan"
  let ?P = "plan_paths tree previous" let ?cs = "concat (map (\<lambda>p. option_list (pp_state (F p))) ?P)"
  assume F: "\<forall>p \<in> set ?P. plan_path operation (staged_index tree) targets previous observed p = Inr (F p)"
    and d: "op_decisions plan = map (\<lambda>p. pp_decision (F p)) ?P" and states: "op_candidate_file_states plan = sort_key fs_path ?cs"
  have path: "fs_path c = p" if "p \<in> set ?P" "pp_state (F p) = Some c" for p c
    by (rule path_plan_path [OF bspec [OF F that(1)] that(2)])
  have "sorted (map fs_path ?cs)" by (rule sorted_option_list [OF _ path]) (simp add: plan_paths_def)
  then have states': "op_candidate_file_states plan = ?cs" unfolding states by (rule sort_key_id_if_sorted)
  have dist: "distinct (map fs_path ?cs)" by (rule distinct_option_list [OF _ path]) (simp add: plan_paths_def)
  have valid: "\<forall>c \<in> set (op_candidate_file_states plan). valid_file_state c"
  proof
    fix c assume "c \<in> set (op_candidate_file_states plan)"
    then obtain p where p: "p \<in> set ?P" "pp_state (F p) = Some c" by (auto simp: states')
    show "valid_file_state c" by (rule path_plan_valid [OF bspec [OF F p(1)] p(2) staged_valid_index [OF assms(2)]])
  qed
  have "map_of (dict_display (map (\<lambda>c. (fs_path c, c)) ?cs)) p = pp_state (F p)" if p: "p \<in> set ?P" for p
  proof -
    have "distinct (map fst (map (\<lambda>c. (fs_path c, c)) ?cs))" using dist by (simp add: comp_def)
    then have m: "map_of (dict_display (map (\<lambda>c. (fs_path c, c)) ?cs)) p = Some c \<longleftrightarrow> c \<in> set ?cs \<and> fs_path c = p" for c
      by (subst map_of_dict_display_distinct) (auto simp: map_of_eq_Some_iff)
    have "c \<in> set ?cs \<and> fs_path c = p \<longleftrightarrow> pp_state (F p) = Some c" for c
      using path p by fastforce
    then have "map_of (dict_display (map (\<lambda>c. (fs_path c, c)) ?cs)) p = Some c \<longleftrightarrow> pp_state (F p) = Some c" for c
      using m by blast
    then show ?thesis by (rule option_eqI)
  qed
  then show thesis using that [OF F d states' valid] unfolding states' by blast
qed

lemma lookup_get: "get d k \<noteq> PNone \<Longrightarrow> lookup d k = Inr (get d k)"
  by (simp add: lookup_def get_def split: option.splits)

lemma candidate_state_map_states:
  assumes "get core ''candidate_file_states'' = PList (map (\<lambda>f. PDict (file_state_document f)) cs)" and "\<forall>c \<in> set cs. valid_file_state c"
  shows "candidate_state_map core = Inr (dict_display (map (\<lambda>c. (fs_path c, c)) cs))"
proof -
  have "lookup (file_state_document c) ''path'' = Inr (PStr (fs_path c))" for c by (simp add: file_state_document_def lookup_def)
  then have "mapr (\<lambda>raw. bnd (as_mapping recovery_required raw) (\<lambda>d.
      bnd (lookup d ''path'') (\<lambda>p. bnd (file_state_from_document d) (\<lambda>f. Inr (py_str p, f)))))
      (map (\<lambda>f. PDict (file_state_document f)) cs) = Inr (map (\<lambda>c. (fs_path c, c)) cs)"
    using assms(2) by (induction cs) (simp_all add: as_mapping_PDict file_state_reads_back)
  then show ?thesis
    by (simp add: candidate_state_map_def lookup_get assms(1) as_array_def filter_map comp_def)
qed

text \<open>
  C14: The transaction carries out what was planned: the file records it builds from the envelope are, one
  by one and in the same order, the candidate states of the ownership plan, each with the file as it
  was observed and with the bytes that were planned for it. An initialisation appends the records of
  the two local-state documents, and then the building can fail where one of these documents is refused.
\<close>

theorem planned_file_records:
  assumes "plan_reconcile ir staged manifest observed task_state = Inr e"
    and "recorded_files manifest = Inr records" and "staged_valid staged"
  shows "\<exists>files ownership rs. get observed ''files'' = PDict files \<and>
    plan_ownership staged (ir_artifact_definitions ir) records files (ir_operation ir) = Inr ownership \<and>
    list_all2 (record_for ownership files) (op_candidate_file_states ownership) rs \<and>
    (\<forall>all. file_records e m layout = Inr all \<longleftrightarrow> (if ir_operation ir \<noteq> ''init'' then all = rs
      else \<exists>w d workspace replay r1 r2. lookup (se_plan_core e) ''candidate_workspace_instance_id'' = Inr w \<and>
        lookup (se_plan_core e) ''empty_replay_ledger_candidate_digest'' = Inr d \<and>
        build_first_init_local_state m layout (py_str w) (py_str d) = Inr (workspace, replay) \<and>
        init_file_record ''.agent-workflow/local/workspace.json'' workspace = Inr r1 \<and>
        init_file_record ''.agent-workflow/local/approval-replay.json'' replay = Inr r2 \<and> all = rs @ [r1, r2]))"
  using assms(1)
proof (rule planned_core)
  fix records' files ownership common
  assume records: "recorded_files manifest = Inr records'" and files: "get observed ''files'' = PDict files"
    and own': "plan_ownership staged (ir_artifact_definitions ir) records' files (ir_operation ir) = Inr ownership"
    and common: "common_plan_core ir ownership observed task_state = Inr common"
    and same: "\<forall>k. k \<noteq> ''candidate_manifest_generation'' \<and> map_of common k \<noteq> None \<longrightarrow> get (se_plan_core e) k = get common k"
    and seal: "seal_plan ir (se_plan_core e) = Inr e" and valid: "validate_plan_core (se_plan_core e) = Inr ()"
  have own: "plan_ownership staged (ir_artifact_definitions ir) records files (ir_operation ir) = Inr ownership"
    using own' records assms(2) by simp
  have op: "se_operation e = ir_operation ir" by (rule seal_planE [OF seal])
  from common obtain auth pre where auth: "authority_precondition ir = Inr auth" and pre: "file_preconditions ownership = Inr pre"
    and p: "get (se_plan_core e) ''preconditions'' = PList (PDict auth # map PDict pre)"
    and st: "get (se_plan_core e) ''candidate_file_states'' =
      PList (map (\<lambda>f. PDict (file_state_document f)) (op_candidate_file_states ownership))"
    by (rule common_field) (use same in simp)
  obtain tx where tx: "get (se_plan_core e) ''transaction_id'' = PStr tx"
  proof -
    obtain u where "plan_uuid (get (se_plan_core e) ''transaction_id'') = Inr u" using valid by (auto simp: validate_plan_core_def bnd_Inr_iff)
    then show thesis using that by (auto simp: plan_uuid_def as_uuid_def as_string_def bnd_Inr_iff split: pyval.splits)
  qed
  have kind: "get auth ''kind'' = PStr ''manifest-authority''" using auth by (auto simp: authority_precondition_def bnd_Inr_iff get_Cons)
  obtain kept where kept: "mapr (file_precondition kept (op_candidate_contents ownership)) (op_decisions ownership) = Inr pre"
    using pre by (auto simp: file_preconditions_def bnd_Inr_iff)
  from own assms(3) obtain previous targets F where
    F: "\<forall>p \<in> set (plan_paths staged previous). plan_path (ir_operation ir) (staged_index staged) targets previous files p = Inr (F p)"
    and d: "op_decisions ownership = map (\<lambda>p. pp_decision (F p)) (plan_paths staged previous)"
    and states: "op_candidate_file_states ownership = concat (map (\<lambda>p. option_list (pp_state (F p))) (plan_paths staged previous))"
    and vs: "\<forall>c \<in> set (op_candidate_file_states ownership). valid_file_state c"
    and at: "\<forall>p \<in> set (plan_paths staged previous). map_of (dict_display (map (\<lambda>c. (fs_path c, c)) (op_candidate_file_states ownership))) p = pp_state (F p)"
    by (rule plan_statesE)
  let ?C = "dict_display (map (\<lambda>c. (fs_path c, c)) (op_candidate_file_states ownership))" let ?P = "plan_paths staged previous"
  obtain rs where rs: "foldr_res (add_file_record tx ?C) [] (map PDict pre) = Inr rs"
    "list_all2 (record_for ownership files) (concat (map (\<lambda>p. option_list (map_of ?C p)) ?P)) rs"
    using add_file_records [OF kept [unfolded d], of files ?C tx "[]"] path_plan_decision path_plan_observed path_plan_path F at by fastforce
  have "concat (map (\<lambda>p. option_list (map_of ?C p)) ?P) = op_candidate_file_states ownership"
    unfolding states [symmetric] by (subst states) (intro arg_cong [where f = concat] map_cong refl, simp add: at)
  then have all: "list_all2 (record_for ownership files) (op_candidate_file_states ownership) rs" using rs(2) by simp
  have "file_records e m layout = (if ir_operation ir \<noteq> ''init'' then Inr rs
     else bnd (lookup (se_plan_core e) ''candidate_workspace_instance_id'') (\<lambda>w.
       bnd (lookup (se_plan_core e) ''empty_replay_ledger_candidate_digest'') (\<lambda>d.
       bnd (build_first_init_local_state m layout (py_str w) (py_str d)) (\<lambda>(workspace, replay).
       bnd (init_file_record ''.agent-workflow/local/workspace.json'' workspace) (\<lambda>r1.
       bnd (init_file_record ''.agent-workflow/local/approval-replay.json'' replay) (\<lambda>r2.
       Inr (rs @ [r1, r2])))))))"
    by (simp add: file_records_def Let_def candidate_state_map_states [OF st vs] lookup_get tx p as_array_def op
        add_file_record_def [of tx ?C "[]" "PDict auth"] as_mapping_PDict kind rs(1))
  note built = this
  have "file_records e m layout = Inr all \<longleftrightarrow> (if ir_operation ir \<noteq> ''init'' then all = rs
      else \<exists>w d workspace replay r1 r2. lookup (se_plan_core e) ''candidate_workspace_instance_id'' = Inr w \<and>
        lookup (se_plan_core e) ''empty_replay_ledger_candidate_digest'' = Inr d \<and>
        build_first_init_local_state m layout (py_str w) (py_str d) = Inr (workspace, replay) \<and>
        init_file_record ''.agent-workflow/local/workspace.json'' workspace = Inr r1 \<and>
        init_file_record ''.agent-workflow/local/approval-replay.json'' replay = Inr r2 \<and> all = rs @ [r1, r2])" for all
    unfolding built by (simp add: bnd_Inr_iff split_paired_Ex eq_commute [of all])
  then show ?thesis using files own all by blast
qed

end
