(* ===== verification/Planning_Sample.thy ===== *)
theory Planning_Sample
  imports Planning
begin

text \<open>
  One complete run of the planner: a restorative repair while a task runs that has pinned the repaired
  surface. It shows that the theorems on planning are about envelopes that exist.
\<close>

section \<open>The inputs\<close>

definition sample_ir :: "candidate_impact \<Rightarrow> dict \<Rightarrow> dict \<Rightarrow> desired_state_ir" where
  "sample_ir impact workspace gate =
     \<lparr>ir_operation = ''repair'',
      ir_release_contract = [(''release_id'', sample_sha), (''release_manifest_digest'', sample_sha),
        (''release_trust_policy_id'', PStr ''p''), (''release_trust_policy_digest'', sample_sha), (''version'', PStr ''0.1'')],
      ir_resolved_profile = [(''profile_id'', PStr ''standard'')],
      ir_authority_digests = [(''profile'', sample_sha), (''workflow-lock'', sample_sha), (''artifact-bundle'', sample_sha)],
      ir_workflow_lock_projection = [], ir_selected_platforms = [''codex''], ir_capability_results = [],
      ir_catalog_closure = [], ir_reference_closure = [], ir_route_policy = [], ir_entry_ownership = [],
      ir_discoverable_leaf_ids = [], ir_runtime_catalog_entry_ids = [], ir_trellis_task_layout = [],
      ir_surface_registry = [], ir_surface_digests = [], ir_coverage_result = [], ir_render_units = [],
      ir_artifact_definitions = sample_artifacts, ir_candidate_impact = impact,
      ir_workspace_state_evaluation = workspace, ir_task_gate_evaluation = gate, ir_diagnostics = [],
      ir_desired_state_ir_digest = sha_of (CHR ''a'')\<rparr>"

definition sample_installed :: dict where
  "sample_installed = [(''project_id'', sample_id), (''generation'', PInt 1), (''release_id'', sample_sha),
     (''release_manifest_digest'', sample_sha), (''files'', PList [])]"

definition sample_request :: dict where
  "sample_request = [(''transaction_id'', sample_id), (''workspace_instance_id'', sample_id), (''manifest_digest'', sample_sha),
     (''files'', PDict (sample_seen sample_before)), (''candidate_local_state_contract'', PDict []),
     (''provider_approval_bindings'', PList []), (''recovery_runtime'', PDict [])]"

definition sample_task_state :: task_snapshot_and_findings where
  "sample_task_state = \<lparr>ts_snapshot = sample_snapshot [sample_task] [PStr ''f1''], ts_findings = sample_findings [sample_active],
     ts_task_quiescence_digest = sha_of (CHR ''a'')\<rparr>"

section \<open>The plan core\<close>

definition sample_precondition :: dict where
  "sample_precondition = [(''kind'', PStr ''file''), (''path'', PStr ''a''), (''ownership_decision'', PDict sample_decision),
     (''candidate_manifest_record'', PDict sample_recorded), (''candidate_content_utf8'', PStr sample_after)]"

definition sample_planned_core :: "candidate_impact \<Rightarrow> dict \<Rightarrow> dict \<Rightarrow> dict" where
  "sample_planned_core impact workspace gate =
     [(''operation'', PStr ''repair''), (''transaction_id'', sample_id), (''candidate_release'', sample_release),
      (''release_trust_policy_id'', PStr ''p''), (''release_trust_policy_digest'', sample_sha), (''profile_digest'', sample_sha),
      (''lock_digest'', sample_sha), (''artifact_bundle_digest'', sample_sha), (''pack_version'', PStr ''0.1''),
      (''source_trellis_task_layout_digest'', sample_sha), (''target_trellis_task_layout_digest'', sample_sha),
      (''source_schema_bundle_digest'', sample_sha), (''target_schema_bundle_digest'', sample_sha),
      (''task_quiescence_snapshot'', PDict (sample_snapshot [sample_task] [PStr ''f1''])),
      (''task_findings'', PDict (sample_findings [sample_active])), (''task_quiescence_digest'', sample_sha),
      (''candidate_impact'', candidate_impact_document impact), (''workspace_state_evaluation'', PDict workspace),
      (''task_gate_evaluation'', PDict gate),
      (''preconditions'', PList [PDict [(''kind'', PStr ''manifest-authority''), (''profile'', PStr ''standard''),
         (''platforms'', PList [PStr ''codex''])], PDict sample_precondition]),
      (''candidate_file_states'', PList [PDict (file_state_document sample_written)]),
      (''candidate_local_state_contract'', PDict []), (''provider_approval_bindings'', PList []),
      (''recovery_runtime'', PDict []), (''candidate_manifest_generation'', PInt 2),
      (''project_id'', sample_id), (''workspace_instance_id'', sample_id), (''manifest_generation'', PInt 1),
      (''manifest_digest'', sample_sha), (''installed_release'', sample_release),
      (''repair_surface_ids'', PList (map PStr (repair_ids impact)))]"

lemma dict_literal_eval:
  "dict_literal [] = Inr []" "dict_literal ((k, Inr v) # xs) = bnd (dict_literal xs) (\<lambda>d. Inr ((k, v) # d))"
  by (simp_all add: dict_literal_def)

lemma sample_text: "text_field sample_sha = Inr sample_sha" "text_field sample_id = Inr sample_id"
  by (simp_all add: text_field_def sample_sha_def sample_id_def as_string_def sha_of_def)

lemma sample_file_preconditions:
  assumes "op_candidate_contents plan = [(''a'', utf8_encode sample_after)]" and "op_decisions plan = [sample_decision]"
    and "op_manifest_file_records plan = [sample_recorded]"
  shows "file_preconditions plan = Inr [sample_precondition]"
proof -
  have p: "st_path sample_overlay = ''a''" by (simp add: sample_overlay_def)
  show ?thesis
    by (simp add: file_preconditions_def assms lookup_manifest_record p file_precondition_def decision_path dict_literal_eval Let_def
        content_text_def sample_precondition_def dict_display_def)
qed

lemma sample_core_planned:
  assumes "op_candidate_file_states plan = [sample_written]" and "op_candidate_contents plan = [(''a'', utf8_encode sample_after)]"
    and "op_decisions plan = [sample_decision]" and "op_manifest_file_records plan = [sample_recorded]"
    and "workspace_evaluation (sample_ir impact workspace gate) sample_task_state = Inr workspace"
    and "task_gate_evaluation (sample_ir impact workspace gate) sample_task_state = Inr gate"
  shows "plan_core_of (sample_ir impact workspace gate) plan (Some sample_installed) sample_request sample_task_state =
    Inr (sample_planned_core impact workspace gate)"
proof -
  let ?ir = "sample_ir impact workspace gate"
  have op: "ir_operation ?ir = ''repair''" "ir_candidate_impact ?ir = impact" by (simp_all add: sample_ir_def)
  have release: "plan_release_fields ?ir = Inr [(''release_id'', sample_sha), (''release_manifest_digest'', sample_sha)]"
    "installed_release_fields sample_installed = Inr [(''release_id'', sample_sha), (''release_manifest_digest'', sample_sha)]"
    by (simp_all add: plan_release_fields_def installed_release_fields_def sample_ir_def sample_installed_def get_Cons sample_text dict_literal_eval)
  have profile: "authority_precondition ?ir = Inr [(''kind'', PStr ''manifest-authority''), (''profile'', PStr ''standard''),
      (''platforms'', PList [PStr ''codex''])]"
    by (simp add: authority_precondition_def sample_ir_def get_Cons as_string_def)
  have req: "get sample_request ''transaction_id'' = sample_id" "get sample_request ''workspace_instance_id'' = sample_id"
    "get sample_request ''manifest_digest'' = sample_sha" "get sample_request ''candidate_local_state_contract'' = PDict []"
    "get sample_request ''provider_approval_bindings'' = PList []" "get sample_request ''recovery_runtime'' = PDict []"
    by (simp_all add: sample_request_def get_Cons)
  have contract: "get (ir_release_contract ?ir) ''release_trust_policy_id'' = PStr ''p''"
    "get (ir_release_contract ?ir) ''release_trust_policy_digest'' = sample_sha" "get (ir_release_contract ?ir) ''version'' = PStr ''0.1''"
    "get (ir_authority_digests ?ir) ''profile'' = sample_sha" "get (ir_authority_digests ?ir) ''workflow-lock'' = sample_sha"
    "get (ir_authority_digests ?ir) ''artifact-bundle'' = sample_sha"
    by (simp_all add: sample_ir_def get_Cons)
  have snap: "get (sample_snapshot [sample_task] [PStr ''f1'']) ''source_layout_digest'' = sample_sha"
    "get (sample_snapshot [sample_task] [PStr ''f1'']) ''target_layout_digest'' = sample_sha"
    "get (sample_snapshot [sample_task] [PStr ''f1'']) ''source_schema_bundle_digest'' = sample_sha"
    "get (sample_snapshot [sample_task] [PStr ''f1'']) ''target_schema_bundle_digest'' = sample_sha"
    by (simp_all add: sample_snapshot_def seal_snapshot_def get_Cons sample_sha_def)
  have texts: "text_field (PStr ''p'') = Inr (PStr ''p'')" "text_field (PStr ''0.1'') = Inr (PStr ''0.1'')"
    by (simp_all add: text_field_def as_string_def)
  have ts: "ts_snapshot sample_task_state = sample_snapshot [sample_task] [PStr ''f1'']"
    "ts_findings sample_task_state = sample_findings [sample_active]" "PStr (ts_task_quiescence_digest sample_task_state) = sample_sha"
    by (simp_all add: sample_task_state_def sample_sha_def)
  have "common_plan_core ?ir plan sample_request sample_task_state =
      Inr (AList.update ''candidate_manifest_generation'' (PInt 1) (take 25 (sample_planned_core impact workspace gate)))"
    unfolding common_plan_core_def Let_def profile sample_file_preconditions [OF assms(2-4)] bnd.simps req contract op release
      ts snap sample_text texts
      assms(1,5,6) mapping_field_def as_mapping_PDict approval_bindings_def as_array_def pyval.case mapr.simps dict_literal_eval
    by (simp add: sample_planned_core_def sample_release_def)
  moreover have "dict_literal
          [(''project_id'', text_field (get sample_installed ''project_id'')),
           (''workspace_instance_id'', text_field (get sample_request ''workspace_instance_id'')),
           (''manifest_generation'', Inr (PInt 1)),
           (''manifest_digest'', text_field (get sample_request ''manifest_digest'')),
           (''installed_release'', bnd (installed_release_fields sample_installed) (\<lambda>d. Inr (PDict d)))] =
      Inr [(''project_id'', sample_id), (''workspace_instance_id'', sample_id), (''manifest_generation'', PInt 1),
        (''manifest_digest'', sample_sha), (''installed_release'', sample_release)]"
    by (simp add: req release dict_literal_eval sample_text sample_installed_def get_Cons sample_release_def)
      (simp add: req release(2) [unfolded sample_installed_def] dict_literal_eval)
  moreover have "get sample_installed ''generation'' = PInt 1" by (simp add: sample_installed_def get_Cons)
  ultimately show ?thesis
    by (simp add: plan_core_of_def op existing_plan_core_def) (simp add: sample_planned_core_def)
qed

section \<open>Documents\<close>

lemma json_wf_documents:
  "json_wf (PDict (file_state_document f))" "json_wf (candidate_impact_document impact)"
  "json_wf (PDict (workspace_evaluation_document ws))" "json_wf (PDict (task_gate_document g))"
  by (simp_all add: file_state_document_def candidate_impact_document_def authority_change_document_def surface_change_document_def
      workspace_evaluation_document_def task_gate_document_def json_wf_simps json_wf_opt_str list_all_iff)

lemma json_wf_planned:
  "json_wf (PDict sample_decision)" "json_wf (PDict sample_recorded)"
  "json_wf (PDict (sample_snapshot [sample_task] [PStr ''f1'']))" "json_wf (PDict (sample_findings [sample_active]))"
  using sample_task_wf [folded json_wf_def]
  by (simp_all add: ownership_decision_def manifest_record_def markers_document_def sample_snapshot_def seal_snapshot_def
      sample_findings_def sample_active_def sample_pins_def json_wf_simps json_wf_documents)

lemma sample_planned_wf:
  "json_wf (PDict (sample_planned_core impact (workspace_evaluation_document ws) (task_gate_document g)))"
  by (simp add: sample_planned_core_def json_wf_simps json_wf_documents json_wf_planned sample_sha_def sample_id_def
      sample_release_def sample_precondition_def list_all_iff)

section \<open>The envelope\<close>

lemma sample_planned_valid:
  assumes "ws_evaluator_id ws = ''agent-workflow.workspace-state-quiescence''" "ws_evaluator_version ws = 1"
    and "tg_evaluator_id g = ''agent-workflow.task-gate''" "tg_evaluator_version g = 1" "tg_blockers g = []"
    "tg_primary_evaluator_blocker g = None" and "repair_ids impact = [''router:heavy'']"
  shows "validate_plan_core (sample_planned_core impact (workspace_evaluation_document ws) (task_gate_document g)) = Inr ()"
proof -
  let ?core = "sample_planned_core impact (workspace_evaluation_document ws) (task_gate_document g)"
  have op: "get ?core ''operation'' = PStr ''repair''" by (simp add: sample_planned_core_def get_Cons)
  have keys: "same_strs (keys ?core) (plan_core_fields ''repair'')" "\<not> list_ex (has_key ?core) DERIVED_PLAN_FIELDS"
    by (simp_all add: sample_planned_core_def keys_def plan_core_fields_def COMMON_FIELDS_def EXISTING_FIELDS_def REPAIR_FIELDS_def
        same_strs_def subset_strs_def has_key_def DERIVED_PLAN_FIELDS_def)
  have ev: "validate_evaluations ?core = Inr ()"
    by (simp add: validate_evaluations_def sample_planned_core_def get_Cons workspace_evaluation_document_def task_gate_document_def assms
        plan_check_defs as_mapping_PDict as_array_def require_def same_strs_def subset_strs_def keys_def opt_str_def)
  have release: "py_eq (PDict [(''release_id'', sample_sha), (''release_manifest_digest'', sample_sha)])
      (PDict [(''release_id'', sample_sha), (''release_manifest_digest'', sample_sha)])"
    by (simp add: sample_sha_def)
  have branch: "validate_existing_core ''repair'' ?core [(''release_id'', sample_sha), (''release_manifest_digest'', sample_sha)] = Inr ()"
    "validate_repair_core ?core = Inr ()"
    using release by (simp_all add: validate_existing_core_def validate_repair_core_def sample_planned_core_def get_Cons sample_plan_checks
        require_def plan_array_def as_array_def assms(7))
  have gets: "get ?core ''transaction_id'' = sample_id" "get ?core ''candidate_release'' = sample_release"
    "get ?core ''release_trust_policy_id'' = PStr ''p''" "get ?core ''pack_version'' = PStr ''0.1''"
    "get ?core ''candidate_manifest_generation'' = PInt 2" "plan_array (get ?core ''candidate_file_states'') = Inr [PDict (file_state_document sample_written)]"
    "plan_array (get ?core ''provider_approval_bindings'') = Inr []" "plan_array (get ?core ''preconditions'') = Inr [PDict [(''kind'', PStr ''manifest-authority''),
        (''profile'', PStr ''standard''), (''platforms'', PList [PStr ''codex''])], PDict sample_precondition]"
    by (simp_all add: sample_planned_core_def get_Cons plan_array_def as_array_def)
  have shas: "mapr (\<lambda>field. plan_sha256 (get ?core field))
        [''release_trust_policy_digest'', ''profile_digest'', ''lock_digest'', ''artifact_bundle_digest'',
         ''source_trellis_task_layout_digest'', ''target_trellis_task_layout_digest'',
         ''source_schema_bundle_digest'', ''target_schema_bundle_digest'', ''task_quiescence_digest''] =
      Inr (replicate 9 (sha_of (CHR ''a'')))"
    by (simp add: sample_planned_core_def get_Cons sample_plan_checks eval_nat_numeral)
  obtain ms where maps: "mapr (\<lambda>field. plan_mapping (get ?core field))
        [''task_quiescence_snapshot'', ''task_findings'', ''candidate_impact'',
         ''candidate_local_state_contract'', ''recovery_runtime''] = Inr ms"
    by (simp add: sample_planned_core_def get_Cons plan_mapping_def as_mapping_PDict candidate_impact_document_def)
  have "''repair'' \<in> set plan_operations" by (simp add: plan_operations_def)
  then show ?thesis
    unfolding validate_plan_core_def op shas maps bnd.simps
    by (simp add: keys branch ev require_def as_string_def gets sample_plan_checks plan_string_def)
qed

lemma sample_sealed:
  assumes ir: "ir_operation ir = ''repair''"
    and core: "core = sample_planned_core impact (workspace_evaluation_document ws) (task_gate_document g)"
    and valid: "validate_plan_core core = Inr ()"
  shows "\<exists>e. seal_plan ir core = Inr e"
proof -
  have wf: "json_wf (PDict core)" unfolding core by (rule sample_planned_wf)
  define h where "h = sha256_hex (digest_preimage ''agent-workflow.plan-core.v1'' (PDict core))"
  have h: "compute_plan_core_digest core = Inr h"
    using wf valid sample_plan_domains(1) by (simp only: compute_plan_core_digest_def bnd.simps digest_ok h_def json_wf_def)
  have sha: "plan_sha256 (PStr h) = Inr h" by (simp add: plan_sha256_def as_sha256_def h_def sha.hd_sha256)
  have header: "immutable_header_of ir core h =
     [(''transaction_id'', sample_id), (''operation'', PStr ''repair''), (''plan_core_digest'', PStr h),
      (''baseline_manifest_digest'', sample_sha), (''candidate_manifest_generation'', PInt 2),
      (''task_quiescence_digest'', sample_sha), (''recovery_runtime'', PDict []),
      (''project_id'', sample_id), (''workspace_instance_id'', sample_id)]"
    by (simp add: immutable_header_of_def ir core sample_planned_core_def get_Cons)
  let ?header = "immutable_header_of ir core h"
  have "validate_immutable_header ?header = Inr ()"
    unfolding header validate_immutable_header_def
    by (simp add: has_key_def get_Cons require_def plan_operations_def header_fields_def header_common_fields_def keys_def
        same_strs_def subset_strs_def sample_plan_checks sha plan_mapping_def as_mapping_PDict)
  moreover have hwf: "json_wf (PDict ?header)" unfolding header by (simp add: json_wf_simps sample_id_def sample_sha_def)
  ultimately obtain j where j: "compute_journal_binding_digest ?header = Inr j"
    using sample_plan_domains(2) by (simp only: compute_journal_binding_digest_def bnd.simps digest_ok json_wf_def)
  let ?e = "\<lparr>se_operation = ir_operation ir, se_plan_core = core, se_plan_core_digest = h, se_immutable_header = ?header,
    se_journal_binding_digest = j, se_candidate_manifest_digest = replicate 64 (CHR ''0''), se_candidate_manifest_file_state = [],
    se_plan_digest = replicate 64 (CHR ''0'')\<rparr>"
  have p: "st_path sample_overlay = ''a''" by (simp add: sample_overlay_def)
  have files: "manifest_files core = Inr [sample_recorded]"
    by (simp add: manifest_files_def core sample_planned_core_def get_Cons as_array_def as_mapping_PDict sample_precondition_def
        lookup_manifest_record p)
  have auth: "manifest_authority core = Inr [(''kind'', PStr ''manifest-authority''), (''profile'', PStr ''standard''),
      (''platforms'', PList [PStr ''codex''])]"
    by (simp add: manifest_authority_def core sample_planned_core_def get_Cons as_array_def as_mapping_PDict is_authority_def
        sample_precondition_def)
  have "\<exists>m. render_candidate_manifest ?e = Inr m \<and> json_wf (PDict m) \<and>
      \<not> list_ex (has_key m) [''candidate_manifest_digest'', ''plan_digest'']"
    by (simp add: render_candidate_manifest_def Let_def files auth)
      (simp add: core sample_planned_core_def get_Cons sample_release_def as_mapping_PDict as_array_def json_wf_simps json_wf_planned(2)
        sample_id_def sample_sha_def has_key_def)
  then obtain m where m: "render_candidate_manifest ?e = Inr m" "json_wf (PDict m)"
    "\<not> list_ex (has_key m) [''candidate_manifest_digest'', ''plan_digest'']" by blast
  obtain d where d: "compute_candidate_manifest_digest m = Inr d"
    using m(2,3) by (simp only: compute_candidate_manifest_digest_def require_def if_True simp_thms bnd.simps plain_digest_ok json_wf_def)
  let ?f = "?e\<lparr>se_candidate_manifest_digest := d, se_candidate_manifest_file_state := manifest_file_state d\<rparr>"
  have pwf: "json_wf (PDict (plan_projection ?f))"
    by (simp add: plan_projection_def json_wf_simps wf hwf manifest_file_state_def)
  have "\<not> has_key (plan_projection ?f) ''plan_digest''" "same_strs (keys (plan_projection ?f)) plan_projection_fields"
    by (simp_all add: plan_projection_def has_key_def keys_def plan_projection_fields_def same_strs_def subset_strs_def)
  then obtain q where q: "compute_plan_digest (plan_projection ?f) = Inr q"
    using pwf sample_plan_domains(3) by (simp only: compute_plan_digest_def require_def if_True simp_thms bnd.simps digest_ok json_wf_def)
  show ?thesis by (simp only: seal_plan_def Let_def h j m d q bnd.simps) (rule exI, rule refl)
qed

section \<open>The run\<close>

lemma sample_change:
  "\<exists>ci. compute_candidate_impact (sample_contract [] (CHR ''a'')) (sample_contract [] (CHR ''b''))
      (sample_candidate ''repair'' [] (CHR ''a'') [PStr ''router:heavy'']) = Inr ci \<and>
    (\<exists>c. ci_surface_changes ci = [c] \<and> sc_surface_id c = ''router:heavy'' \<and> sc_change_kind c = ''repair'')"
proof -
  have "compute_candidate_impact (sample_contract [] (CHR ''a'')) (sample_contract [] (CHR ''b''))
      (sample_candidate ''repair'' [] (CHR ''a'') [PStr ''router:heavy'']) = finish_impact []
      [\<lparr>sc_surface_id = ''router:heavy'', sc_change_kind = ''repair'',
       sc_contract_before_digest = sha_of (CHR ''a''), sc_observed_before_digest = sha_of (CHR ''b''),
       sc_after_digest = sha_of (CHR ''a'')\<rparr>]"
    by (simp add: impact_eval authority_changes_def value_at_def repair_changes_def digests_eq_def
        same_strs_def drifted_surfaces_def lookup_def)
  then show ?thesis by (simp add: finish_impact_Inr Let_def)
qed

lemma py_eq_document: "json_wf (PDict d) \<Longrightarrow> py_eq (PDict d) (PDict d)"
  by (rule py_eq_same) (simp add: json_wf_def)

lemma sample_planned:
  obtains ci c workspace gate e where
    "compute_candidate_impact (sample_contract [] (CHR ''a'')) (sample_contract [] (CHR ''b''))
      (sample_candidate ''repair'' [] (CHR ''a'') [PStr ''router:heavy'']) = Inr ci"
    "c \<in> set (ci_surface_changes ci)" "sc_surface_id c = ''router:heavy''"
    "plan_reconcile (sample_ir ci workspace gate) sample_render (Some sample_installed) sample_request sample_task_state = Inr e"
proof -
  obtain ci c where ci: "compute_candidate_impact (sample_contract [] (CHR ''a'')) (sample_contract [] (CHR ''b''))
      (sample_candidate ''repair'' [] (CHR ''a'') [PStr ''router:heavy'']) = Inr ci"
    and c: "ci_surface_changes ci = [c]" "sc_surface_id c = ''router:heavy''" "sc_change_kind c = ''repair''"
    using sample_change by blast
  obtain g where g: "evaluate_task_gate ''repair'' ci (sample_snapshot [sample_task] [PStr ''f1'']) (sample_findings [sample_active]) = Inr g"
    "tg_blockers g = []" using sample_repair_gate [OF ci] by blast
  have gf: "tg_evaluator_id g = ''agent-workflow.task-gate''" "tg_evaluator_version g = 1" "tg_primary_evaluator_blocker g = None"
    using g evaluate_task_gate_eq [OF sample_ops(2) sample_evidence_active, of ci]
    by (auto simp: Let_def TASK_GATE_EVALUATOR_ID_def)
  obtain ws where ws: "evaluate_workspace_state_quiescence (sample_snapshot [sample_task] [PStr ''f1'']) (sample_findings [sample_active]) = Inr ws"
    using state_ok_of_evidence [OF sample_evidence_active] by blast
  then have wf: "ws_evaluator_id ws = ''agent-workflow.workspace-state-quiescence''" "ws_evaluator_version ws = 1"
    by (auto simp: evaluate_workspace_state_quiescence_def sample_evidence_active WORKSPACE_STATE_EVALUATOR_ID_def EVALUATOR_VERSION_def)
  let ?w = "workspace_evaluation_document ws" and ?g = "task_gate_document g" let ?ir = "sample_ir ci ?w ?g"
  have ir: "ir_operation ?ir = ''repair''" "ir_candidate_impact ?ir = ci" "ir_workspace_state_evaluation ?ir = ?w"
    "ir_task_gate_evaluation ?ir = ?g" "ir_artifact_definitions ?ir = sample_artifacts"
    "ts_snapshot sample_task_state = sample_snapshot [sample_task] [PStr ''f1'']" "ts_findings sample_task_state = sample_findings [sample_active]"
    by (simp_all add: sample_ir_def sample_task_state_def)
  have evals: "workspace_evaluation ?ir sample_task_state = Inr ?w" "task_gate_evaluation ?ir sample_task_state = Inr ?g"
    using py_eq_document [OF json_wf_documents(3) [of ws]] py_eq_document [OF json_wf_documents(4) [of g]]
    by (simp_all add: workspace_evaluation_def task_gate_evaluation_def ir ws g Let_def)
      (simp_all add: task_gate_document_def get_Cons g(2))
  obtain plan where plan: "plan_ownership sample_render sample_artifacts [] (sample_seen sample_before) ''repair'' = Inr plan"
    "op_candidate_file_states plan = [sample_written]" "op_candidate_contents plan = [(''a'', utf8_encode sample_after)]"
    "op_decisions plan = [sample_decision]" "op_manifest_file_records plan = [sample_recorded]"
    using sample_plan by blast
  have "repair_ids ci = [''router:heavy'']" by (simp add: repair_ids_def c)
  from sample_sealed [OF ir(1) refl sample_planned_valid [OF wf gf(1,2) g(2) gf(3) this]]
  obtain e where e: "seal_plan ?ir (sample_planned_core ci ?w ?g) = Inr e" by blast
  have "recorded_files (Some sample_installed) = Inr []"
    by (simp add: recorded_files_def sample_installed_def get_Cons as_array_def)
  moreover have "get sample_request ''files'' = PDict (sample_seen sample_before)" by (simp add: sample_request_def get_Cons)
  ultimately have "plan_reconcile ?ir sample_render (Some sample_installed) sample_request sample_task_state = Inr e"
    by (simp add: plan_reconcile_def as_mapping_PDict ir plan(1) sample_core_planned [OF plan(2-5) evals] e)
  then show thesis using that [OF ci _ c(2)] c(1) by simp
qed

theorem planned_envelope_accepted_witness:
  "\<exists>ci workspace gate e m. plan_reconcile (sample_ir ci workspace gate) sample_render (Some sample_installed) sample_request
      sample_task_state = Inr e \<and> validate_saved_plan_envelope (saved_plan_document e) m = Inr e"
proof -
  obtain ci workspace gate e where e: "plan_reconcile (sample_ir ci workspace gate) sample_render (Some sample_installed) sample_request
      sample_task_state = Inr e" by (rule sample_planned)
  from planned_envelope_accepted [OF e] e show ?thesis by blast
qed

theorem planned_envelope_protects_pins_witness:
  "\<exists>ci c workspace gate e. plan_reconcile (sample_ir ci workspace gate) sample_render (Some sample_installed) sample_request
      sample_task_state = Inr e \<and> c \<in> set (ci_surface_changes ci) \<and> sc_after_digest c = sp_surface_digest sample_pin"
proof -
  obtain ci c workspace gate e where
    ci: "compute_candidate_impact (sample_contract [] (CHR ''a'')) (sample_contract [] (CHR ''b''))
      (sample_candidate ''repair'' [] (CHR ''a'') [PStr ''router:heavy'']) = Inr ci"
    and c: "c \<in> set (ci_surface_changes ci)" "sc_surface_id c = ''router:heavy''"
    and e: "plan_reconcile (sample_ir ci workspace gate) sample_render (Some sample_installed) sample_request sample_task_state = Inr e"
    by (rule sample_planned)
  have i: "ir_candidate_impact (sample_ir ci workspace gate) = ci" by (simp add: sample_ir_def)
  have f: "ts_findings sample_task_state = sample_findings [sample_active]" by (simp add: sample_task_state_def)
  have pin: "sample_active_fact \<in> set [sample_active_fact]" "ff_kind sample_active_fact = ''non-archived-task''"
    "sample_pin \<in> set (ff_pinned_surfaces sample_active_fact)" "sc_surface_id c = sp_surface_id sample_pin"
    using c by (simp_all add: sample_active_fact_def sample_pin_def)
  from planned_envelope_protects_pins [OF e, unfolded i f, OF ci findings_of_evidence [OF sample_evidence_active] pin(1-3) c(1) pin(4)] e c
  show ?thesis by blast
qed

lemma sample_installed_files: "recorded_files (Some sample_installed) = Inr []"
  by (simp add: recorded_files_def sample_installed_def get_Cons as_array_def)

theorem planned_manifest_exact_witness:
  "\<exists>ci workspace gate e m. plan_reconcile (sample_ir ci workspace gate) sample_render (Some sample_installed) sample_request
      sample_task_state = Inr e \<and> render_candidate_manifest e = Inr m \<and> get m ''generation'' = PInt 2"
proof -
  obtain ci workspace gate e where e: "plan_reconcile (sample_ir ci workspace gate) sample_render (Some sample_installed) sample_request
      sample_task_state = Inr e" by (rule sample_planned)
  have "get sample_installed ''generation'' = PInt 1" by (simp add: sample_installed_def get_Cons)
  with planned_manifest_exact [OF e sample_installed_files sample_staged(1)]
  obtain m where "render_candidate_manifest e = Inr m" "get m ''generation'' = PInt 2" by auto
  with e show ?thesis by blast
qed

theorem planned_file_records_witness:
  "\<exists>ci workspace gate e ownership rs layout. plan_reconcile (sample_ir ci workspace gate) sample_render (Some sample_installed)
      sample_request sample_task_state = Inr e \<and> file_records e sample_installed layout = Inr rs \<and>
    list_all2 (record_for ownership (sample_seen sample_before)) (op_candidate_file_states ownership) rs"
proof -
  obtain ci workspace gate e where e: "plan_reconcile (sample_ir ci workspace gate) sample_render (Some sample_installed) sample_request
      sample_task_state = Inr e" by (rule sample_planned)
  have "ir_operation (sample_ir ci workspace gate) \<noteq> ''init''" by (simp add: sample_ir_def)
  moreover have "get sample_request ''files'' = PDict (sample_seen sample_before)" by (simp add: sample_request_def get_Cons)
  ultimately obtain ownership rs where "file_records e sample_installed layout = Inr rs"
    "list_all2 (record_for ownership (sample_seen sample_before)) (op_candidate_file_states ownership) rs"
    using planned_file_records [OF e sample_installed_files sample_staged(1), of sample_installed layout] by auto
  with e show ?thesis by blast
qed

end
