(* ===== verification/Profile.thy ===== *)
theory Profile
  imports Validate
begin

text \<open>
  Model of \<^verbatim>\<open>core/profile.py\<close> and of the domain values of \<^verbatim>\<open>core/models.py\<close> it uses: capability
  levels, the single-inheritance profile chain and the field-by-field merge along it. The lemmas
  show that the chain follows the \<^verbatim>\<open>extends\<close> links without repetition from the selected
  profile to a root, and that a field of the resolved profile is the one of the most derived
  source that sets it.
\<close>

section \<open>Capability levels\<close>

datatype capability_level = UNSUPPORTED | INSTRUCTION_ONLY | ENFORCED

fun rank :: "capability_level \<Rightarrow> int" where
  "rank UNSUPPORTED = 0"
| "rank INSTRUCTION_ONLY = 1"
| "rank ENFORCED = 2"

fun level_value :: "capability_level \<Rightarrow> string" where
  "level_value UNSUPPORTED = ''unsupported''"
| "level_value INSTRUCTION_ONLY = ''instruction-only''"
| "level_value ENFORCED = ''enforced''"

definition parse_level :: "pyval \<Rightarrow> capability_level res" where
  "parse_level v = (case v of
     PStr s \<Rightarrow> if s = ''unsupported'' then Inr UNSUPPORTED
               else if s = ''instruction-only'' then Inr INSTRUCTION_ONLY
               else if s = ''enforced'' then Inr ENFORCED
               else Inl ValueError
   | _ \<Rightarrow> Inl ValueError)"

lemma rank_inj: "rank a = rank b \<longleftrightarrow> a = b"
  by (cases a; cases b) auto

instantiation capability_level :: linorder
begin

definition less_eq_capability_level :: "capability_level \<Rightarrow> capability_level \<Rightarrow> bool" where
  "a \<le> b \<longleftrightarrow> rank a \<le> rank b"

definition less_capability_level :: "capability_level \<Rightarrow> capability_level \<Rightarrow> bool" where
  "a < b \<longleftrightarrow> rank a < rank b"

instance
  by intro_classes (auto simp: less_eq_capability_level_def less_capability_level_def rank_inj [symmetric])

end

lemma parse_level_value: "parse_level (PStr (level_value l)) = Inr l"
  by (cases l) (simp_all add: parse_level_def)

lemma parse_level_Inr_iff: "parse_level v = Inr l \<longleftrightarrow> v = PStr (level_value l)"
  by (cases v; cases l) (auto simp: parse_level_def)

section \<open>Profiles\<close>

record resolved_profile =
  rp_schema_version :: int
  rp_profile_id :: string
  rp_route_admission :: dict
  rp_bindings :: "(string \<times> (string \<times> string) list) list"
  rp_skills_enable :: "string list"
  rp_skills_disable :: "string list"
  rp_artifact_policy :: string
  rp_default_platforms :: "string list"
  rp_required_capabilities :: "(string \<times> capability_level) list"
  rp_approval_policy :: dict
  rp_provider_security_policy :: dict

definition PROFILE_FIELDS :: "string list" where
  "PROFILE_FIELDS = [''schema_id'', ''schema_version'', ''id'', ''extends'', ''route_admission'', ''bindings'',
     ''skills'', ''artifact_policy'', ''default_platforms'', ''required_capabilities'', ''approval_policy'',
     ''provider_security_policy'']"

definition profile_failure :: exn where
  "profile_failure = CoreFailure ''AWP_PROFILE_INVALID'' 2"

definition profile_mapping :: "pyval \<Rightarrow> dict res" where
  "profile_mapping = as_mapping profile_failure"

definition profile_string_array :: "pyval \<Rightarrow> string list res" where
  "profile_string_array v = (case v of
     PList xs \<Rightarrow> if list_all is_pystr xs then normalize_string_set xs else Inl profile_failure
   | _ \<Rightarrow> Inl profile_failure)"

definition validate_source :: "dict \<Rightarrow> string res" where
  "validate_source source =
     bnd (require (subset_strs (keys source) PROFILE_FIELDS) profile_failure) (\<lambda>_.
     bnd (require (py_eq (get source ''schema_id'') (PStr ''agent-workflow.profile'')) profile_failure) (\<lambda>_.
     bnd (require (py_eq (get source ''schema_version'') (PInt 1)) profile_failure) (\<lambda>_.
     bnd (as_string profile_failure (get source ''id'')) (\<lambda>profile_id.
     bnd (require (get source ''extends'' = PNone \<or>
            (is_pystr (get source ''extends'') \<and> truthy (get source ''extends''))) profile_failure) (\<lambda>_.
     Inr profile_id)))))"

definition add_source :: "(string \<times> dict) list \<Rightarrow> dict \<Rightarrow> (string \<times> dict) list res" where
  "add_source sources source =
     bnd (validate_source source) (\<lambda>profile_id.
     if has_key sources profile_id then Inl profile_failure
     else Inr (AList.update profile_id source sources))"

text \<open>The loop that follows the parents; every round adds an identity to the visited ones.\<close>

function profile_chain :: "(string \<times> dict) list \<Rightarrow> string list \<Rightarrow> string \<Rightarrow> dict list res" where
  "profile_chain sources visiting current_id =
     (if current_id \<in> set visiting then Inl profile_failure
      else (case map_of sources current_id of
          None \<Rightarrow> Inl profile_failure
        | Some current \<Rightarrow> (case get current ''extends'' of
            PStr parent \<Rightarrow> bnd (profile_chain sources (current_id # visiting) parent) (\<lambda>rest. Inr (current # rest))
          | _ \<Rightarrow> Inr [current])))"
  by pat_completeness auto
termination
proof (relation "measure (\<lambda>(sources, visiting, current_id). card (set (keys sources) - set visiting))")
  fix sources :: "(string \<times> dict) list" and visiting current_id current parent
  assume "current_id \<notin> set visiting" and "map_of sources current_id = Some current"
  then have "current_id \<in> set (keys sources) - set visiting"
    by (auto simp: keys_def dest: map_of_SomeD intro: rev_image_eqI)
  then have "set (keys sources) - set (current_id # visiting) \<subset> set (keys sources) - set visiting" by auto
  then show "((sources, current_id # visiting, parent), sources, visiting, current_id)
      \<in> measure (\<lambda>(sources, visiting, current_id). card (set (keys sources) - set visiting))"
    by (simp add: psubset_card_mono)
qed simp

declare profile_chain.simps [simp del]

text \<open>\<^verbatim>\<open>d.update(e)\<close>.\<close>

definition dict_update :: "('k \<times> 'v) list \<Rightarrow> ('k \<times> 'v) list \<Rightarrow> ('k \<times> 'v) list" where
  "dict_update d e = foldl (\<lambda>d (k, v). AList.update k v d) d e"

section \<open>Merging\<close>

text \<open>One step per field: the field of the accumulated profile after one more source.\<close>

definition merge_mapping :: "string \<Rightarrow> dict \<Rightarrow> dict \<Rightarrow> dict res" where
  "merge_mapping field source acc =
     (if has_key source field
      then bnd (profile_mapping (get source field)) (\<lambda>m. Inr (dict_update acc m)) else Inr acc)"

definition binding_values :: "pyval \<Rightarrow> (string \<times> string) list res" where
  "binding_values v = bnd (profile_mapping v) (\<lambda>m.
     if list_all (\<lambda>(k, w). is_pystr w) m
     then mapr (\<lambda>(k, w). case w of PStr s \<Rightarrow> Inr (k, s) | _ \<Rightarrow> Inl profile_failure) m
     else Inl profile_failure)"

definition merge_binding ::
    "(string \<times> (string \<times> string) list) list \<Rightarrow> string \<times> pyval \<Rightarrow> (string \<times> (string \<times> string) list) list res" where
  "merge_binding acc mode_raw = (case mode_raw of (mode, raw) \<Rightarrow>
     bnd (binding_values raw) (\<lambda>values.
     let old = (case map_of acc mode of None \<Rightarrow> [] | Some b \<Rightarrow> b) in
     Inr (AList.update mode (dict_update old values) acc)))"

definition merge_bindings ::
    "dict \<Rightarrow> (string \<times> (string \<times> string) list) list \<Rightarrow> (string \<times> (string \<times> string) list) list res" where
  "merge_bindings source acc =
     (if has_key source ''bindings''
      then bnd (profile_mapping (get source ''bindings'')) (foldr_res merge_binding acc) else Inr acc)"

definition merge_skills :: "dict \<Rightarrow> string list \<times> string list \<Rightarrow> (string list \<times> string list) res" where
  "merge_skills source acc = (case acc of (enabled, disabled) \<Rightarrow>
     if has_key source ''skills'' then
       bnd (profile_mapping (get source ''skills'')) (\<lambda>skills.
       bnd (require (subset_strs (keys skills) [''enable'', ''disable'']) profile_failure) (\<lambda>_.
       bnd (profile_string_array (get_or skills ''enable'' (PList []))) (\<lambda>en.
       bnd (profile_string_array (get_or skills ''disable'' (PList []))) (\<lambda>dis.
       Inr (enabled @ en, disabled @ dis)))))
     else Inr (enabled, disabled))"

definition merge_artifact_policy :: "dict \<Rightarrow> string \<Rightarrow> string res" where
  "merge_artifact_policy source acc =
     (if has_key source ''artifact_policy'' then as_string profile_failure (get source ''artifact_policy'') else Inr acc)"

definition merge_platforms :: "dict \<Rightarrow> string list \<Rightarrow> string list res" where
  "merge_platforms source acc =
     (if has_key source ''default_platforms'' then profile_string_array (get source ''default_platforms'') else Inr acc)"

definition profile_level :: "pyval \<Rightarrow> capability_level res" where
  "profile_level v = (case parse_level v of Inl _ \<Rightarrow> Inl profile_failure | Inr l \<Rightarrow> Inr l)"

definition merge_capabilities ::
    "dict \<Rightarrow> (string \<times> capability_level) list \<Rightarrow> (string \<times> capability_level) list res" where
  "merge_capabilities source acc =
     (if has_key source ''required_capabilities'' then
        bnd (profile_mapping (get source ''required_capabilities'')) (\<lambda>m.
        bnd (mapr (\<lambda>(k, v). bnd (profile_level v) (\<lambda>l. Inr (k, l))) m) (\<lambda>levels.
        Inr (dict_update acc levels)))
      else Inr acc)"

record profile_acc =
  pa_route :: dict
  pa_bindings :: "(string \<times> (string \<times> string) list) list"
  pa_skills :: "string list \<times> string list"
  pa_artifact_policy :: string
  pa_platforms :: "string list"
  pa_capabilities :: "(string \<times> capability_level) list"
  pa_approval :: dict
  pa_security :: dict

definition empty_acc :: profile_acc where
  "empty_acc = \<lparr>pa_route = [], pa_bindings = [], pa_skills = ([], []), pa_artifact_policy = ''default'',
     pa_platforms = [], pa_capabilities = [], pa_approval = [], pa_security = []\<rparr>"

definition merge_source :: "profile_acc \<Rightarrow> dict \<Rightarrow> profile_acc res" where
  "merge_source acc source =
     bnd (merge_mapping ''route_admission'' source (pa_route acc)) (\<lambda>route.
     bnd (merge_bindings source (pa_bindings acc)) (\<lambda>bindings.
     bnd (merge_skills source (pa_skills acc)) (\<lambda>skills.
     bnd (merge_artifact_policy source (pa_artifact_policy acc)) (\<lambda>policy.
     bnd (merge_platforms source (pa_platforms acc)) (\<lambda>platforms.
     bnd (merge_capabilities source (pa_capabilities acc)) (\<lambda>capabilities.
     bnd (merge_mapping ''approval_policy'' source (pa_approval acc)) (\<lambda>approval.
     bnd (merge_mapping ''provider_security_policy'' source (pa_security acc)) (\<lambda>security.
     Inr \<lparr>pa_route = route, pa_bindings = bindings, pa_skills = skills, pa_artifact_policy = policy,
          pa_platforms = platforms, pa_capabilities = capabilities, pa_approval = approval,
          pa_security = security\<rparr>))))))))"

definition resolve_profile :: "dict list \<Rightarrow> string \<Rightarrow> resolved_profile res" where
  "resolve_profile profile_sources selected =
     bnd (foldr_res add_source [] profile_sources) (\<lambda>sources.
     bnd (require (has_key sources selected) profile_failure) (\<lambda>_.
     bnd (profile_chain sources [] selected) (\<lambda>chain.
     bnd (foldr_res merge_source empty_acc (rev chain)) (\<lambda>acc.
     case pa_skills acc of (enabled, disabled) \<Rightarrow>
     bnd (require (\<not> list_ex (\<lambda>s. s \<in> set disabled) enabled) profile_failure) (\<lambda>_.
     Inr \<lparr>rp_schema_version = 1, rp_profile_id = selected,
          rp_route_admission = sort_items (pa_route acc), rp_bindings = sort_items (pa_bindings acc),
          rp_skills_enable = sorted_set enabled, rp_skills_disable = sorted_set disabled,
          rp_artifact_policy = pa_artifact_policy acc, rp_default_platforms = pa_platforms acc,
          rp_required_capabilities = sort_items (pa_capabilities acc),
          rp_approval_policy = sort_items (pa_approval acc),
          rp_provider_security_policy = sort_items (pa_security acc)\<rparr>)))))"

section \<open>The chain of parents\<close>

text \<open>A path of identities that follows the parents from a profile to a root.\<close>

fun parent_path :: "(string \<times> dict) list \<Rightarrow> string \<Rightarrow> string list \<Rightarrow> bool" where
  "parent_path sources pid [] = False"
| "parent_path sources pid (i # ids) = (i = pid \<and> (case map_of sources pid of
       None \<Rightarrow> False
     | Some s \<Rightarrow> (case get s ''extends'' of PStr parent \<Rightarrow> parent_path sources parent ids | _ \<Rightarrow> ids = [])))"

lemma parent_path_unique: "parent_path sources pid xs \<Longrightarrow> parent_path sources pid ys \<Longrightarrow> xs = ys"
proof (induction xs arbitrary: pid ys)
  case (Cons x xs)
  then show ?case
    by (cases ys) (auto split: option.splits pyval.splits)
qed simp

lemma parent_path_suffix:
  "parent_path sources pid (xs @ y # ys) \<Longrightarrow> parent_path sources y (y # ys)"
proof (induction xs arbitrary: pid)
  case (Cons x xs)
  from Cons.prems obtain parent where "parent_path sources parent (xs @ y # ys)"
    by (auto split: option.splits pyval.splits)
  then show ?case by (rule Cons.IH)
qed simp

lemma parent_path_distinct: "parent_path sources pid xs \<Longrightarrow> distinct xs"
proof (rule ccontr)
  assume path: "parent_path sources pid xs" and "\<not> distinct xs"
  then obtain as bs cs y where xs: "xs = as @ [y] @ bs @ [y] @ cs"
    by (metis not_distinct_decomp)
  have "parent_path sources y (y # bs @ y # cs)"
    using path parent_path_suffix [of sources pid as y] by (simp add: xs)
  moreover have "parent_path sources y (y # cs)"
    using path parent_path_suffix [of sources pid "as @ y # bs" y cs] by (simp add: xs)
  ultimately have "y # bs @ y # cs = y # cs" by (rule parent_path_unique)
  then show False by (metis append_Nil append_same_eq list.distinct(1) list.inject append_Cons append_assoc not_Cons_self2 self_append_conv2)
qed

lemma profile_chain_Inr_iff:
  "profile_chain sources visiting pid = Inr chain \<longleftrightarrow>
     (\<exists>ids. parent_path sources pid ids \<and> set ids \<inter> set visiting = {} \<and>
        chain = map (\<lambda>i. the (map_of sources i)) ids)"
proof (induction sources visiting pid arbitrary: chain rule: profile_chain.induct)
  case (1 sources visiting pid)
  show ?case
  proof (cases "pid \<in> set visiting \<or> map_of sources pid = None")
    case True
    have "\<not> parent_path sources pid ids \<or> set ids \<inter> set visiting \<noteq> {}" for ids
      using True by (cases ids) auto
    with True show ?thesis by (auto simp: profile_chain.simps)
  next
    case False
    then obtain s where s: "pid \<notin> set visiting" "map_of sources pid = Some s" by auto
    show ?thesis
    proof (cases "\<exists>parent. get s ''extends'' = PStr parent")
      case True
      then obtain parent where p: "get s ''extends'' = PStr parent" by blast
      have "profile_chain sources visiting pid = Inr chain \<longleftrightarrow>
          (\<exists>rest. profile_chain sources (pid # visiting) parent = Inr rest \<and> chain = s # rest)"
        by (auto simp: profile_chain.simps [of sources visiting pid] s p res_simps)
      also have "\<dots> \<longleftrightarrow> (\<exists>ids. parent_path sources parent ids \<and> set ids \<inter> set (pid # visiting) = {} \<and>
          chain = s # map (\<lambda>i. the (map_of sources i)) ids)"
        using "1.IH" [OF s(1,2) p] by auto
      also have "\<dots> \<longleftrightarrow> (\<exists>ids. parent_path sources pid ids \<and> set ids \<inter> set visiting = {} \<and>
          chain = map (\<lambda>i. the (map_of sources i)) ids)" (is "?l \<longleftrightarrow> ?r")
      proof
        assume ?l
        then obtain ids where i: "parent_path sources parent ids" "set ids \<inter> set (pid # visiting) = {}"
          "chain = s # map (\<lambda>i. the (map_of sources i)) ids" by blast
        then show ?r by (intro exI [of _ "pid # ids"]) (auto simp: s p)
      next
        assume ?r
        then obtain ids where i: "parent_path sources pid ids" "set ids \<inter> set visiting = {}"
          "chain = map (\<lambda>i. the (map_of sources i)) ids" by blast
        then obtain rest where r: "ids = pid # rest" "parent_path sources parent rest"
          by (cases ids) (auto simp: s p)
        have "distinct ids" using i(1) by (rule parent_path_distinct)
        with i r show ?l by (intro exI [of _ rest]) (auto simp: s)
      qed
      finally show ?thesis .
    next
      case False
      then have nx: "(case get s ''extends'' of PStr parent \<Rightarrow> P parent | _ \<Rightarrow> Q) = Q" for P :: "string \<Rightarrow> 'q" and Q
        by (cases "get s ''extends''") auto
      have "profile_chain sources visiting pid = Inr [s]"
        by (simp add: profile_chain.simps [of sources visiting pid] s nx)
      moreover have "parent_path sources pid ids \<longleftrightarrow> ids = [pid]" for ids
        by (cases ids) (auto simp: s nx)
      ultimately show ?thesis using s by auto
    qed
  qed
qed


section \<open>Merging along the chain\<close>

lemma map_of_dict_update: "map_of (dict_update d e) = map_of d ++ map_of (rev e)"
proof (induction e rule: rev_induct)
  case Nil
  then show ?case by (simp add: dict_update_def)
next
  case (snoc p e)
  have "dict_update d (e @ [p]) = AList.update (fst p) (snd p) (dict_update d e)"
    by (simp add: dict_update_def case_prod_beta)
  with snoc show ?case
    by (cases p) (simp add: update_conv' map_add_def fun_eq_iff)
qed

lemma distinct_dict_update: "distinct (map fst d) \<Longrightarrow> distinct (map fst (dict_update d e))"
  by (induction e arbitrary: d) (auto simp: dict_update_def distinct_update)

text \<open>What one source says about a mapping field.\<close>

definition field_map :: "string \<Rightarrow> dict \<Rightarrow> string \<Rightarrow> pyval option" where
  "field_map field source k = (case get source field of PDict m \<Rightarrow> map_of (rev m) k | _ \<Rightarrow> None)"

text \<open>The value of the first source, from the selected profile upwards, that gives one.\<close>

fun inherited :: "('s \<Rightarrow> 'k \<Rightarrow> 'v option) \<Rightarrow> 's list \<Rightarrow> 'k \<Rightarrow> 'v option" where
  "inherited f [] k = None"
| "inherited f (s # chain) k = (case f s k of None \<Rightarrow> inherited f chain k | Some v \<Rightarrow> Some v)"

lemma foldl_inherited: "foldl (\<lambda>m s. m ++ f s) Map.empty (rev chain) k = inherited f chain k"
  by (induction chain) (auto simp: map_add_def split: option.splits)

lemma get_absent: "\<not> has_key d k \<Longrightarrow> get d k = PNone"
  using has_key_iff [of d k] by (cases "map_of d k") (auto simp: get_def)

lemma merge_mapping_Inr:
  "merge_mapping field source acc = Inr acc' \<Longrightarrow> map_of acc' = map_of acc ++ field_map field source"
proof (cases "has_key source field")
  case True
  assume "merge_mapping field source acc = Inr acc'"
  with True obtain m where "get source field = PDict m" "acc' = dict_update acc m"
    by (auto simp: merge_mapping_def profile_mapping_def res_simps)
  then show ?thesis by (simp add: map_of_dict_update field_map_def [abs_def])
next
  case False
  assume "merge_mapping field source acc = Inr acc'"
  with False show ?thesis
    by (simp add: merge_mapping_def field_map_def [abs_def] get_absent)
qed

lemma merge_mapping_distinct:
  "merge_mapping field source acc = Inr acc' \<Longrightarrow> distinct (map fst acc) \<Longrightarrow> distinct (map fst acc')"
  by (auto simp: merge_mapping_def res_simps distinct_dict_update split: if_splits)

text \<open>The capability minima one source sets.\<close>

definition level_map :: "dict \<Rightarrow> string \<Rightarrow> capability_level option" where
  "level_map source k = (case field_map ''required_capabilities'' source k of
     None \<Rightarrow> None | Some v \<Rightarrow> (case parse_level v of Inl _ \<Rightarrow> None | Inr l \<Rightarrow> Some l))"

lemma mapr_levels:
  assumes "mapr (\<lambda>(k, v). bnd (profile_level v) (\<lambda>l. Inr (k, l))) m = Inr levels"
  shows "map_of (rev levels) k = (case map_of (rev m) k of None \<Rightarrow> None
    | Some v \<Rightarrow> (case parse_level v of Inl _ \<Rightarrow> None | Inr l \<Rightarrow> Some l))"
proof -
  have "list_all2 (\<lambda>(k, v) (k', l). k' = k \<and> parse_level v = Inr l) m levels"
    using assms unfolding mapr_Inr_iff
    by (rule list.rel_mono_strong) (auto simp: profile_level_def res_simps split: sum.splits)
  then have "list_all2 (\<lambda>(k, v) (k', l). k' = k \<and> parse_level v = Inr l) (rev m) (rev levels)"
    by (simp add: list_all2_rev)
  then show ?thesis
    by (induction rule: list_all2_induct) auto
qed

lemma merge_capabilities_Inr:
  "merge_capabilities source acc = Inr acc' \<Longrightarrow> map_of acc' = map_of acc ++ level_map source"
proof (cases "has_key source ''required_capabilities''")
  case True
  assume "merge_capabilities source acc = Inr acc'"
  with True obtain m levels where m: "get source ''required_capabilities'' = PDict m"
    "mapr (\<lambda>(k, v). bnd (profile_level v) (\<lambda>l. Inr (k, l))) m = Inr levels" "acc' = dict_update acc levels"
    by (auto simp: merge_capabilities_def profile_mapping_def res_simps)
  have "map_of (rev levels) = level_map source"
    using mapr_levels [OF m(2)] by (auto simp: level_map_def field_map_def m(1) fun_eq_iff)
  then show ?thesis by (simp add: m(3) map_of_dict_update)
next
  case False
  assume "merge_capabilities source acc = Inr acc'"
  with False show ?thesis
    by (simp add: merge_capabilities_def level_map_def [abs_def] field_map_def get_absent)
qed

lemma merge_capabilities_distinct:
  "merge_capabilities source acc = Inr acc' \<Longrightarrow> distinct (map fst acc) \<Longrightarrow> distinct (map fst acc')"
  by (auto simp: merge_capabilities_def res_simps distinct_dict_update split: if_splits)

text \<open>The identifiers one source enables or disables.\<close>

definition skill_set :: "string \<Rightarrow> dict \<Rightarrow> string set" where
  "skill_set side source = (case get source ''skills'' of
     PDict m \<Rightarrow> (case get m side of PList xs \<Rightarrow> set (strs_of xs) | _ \<Rightarrow> {}) | _ \<Rightarrow> {})"

lemma profile_string_array_Inr:
  "profile_string_array v = Inr xs \<longleftrightarrow> (\<exists>ys. v = PList (map PStr ys) \<and> xs = sorted_set ys)"
proof
  assume a: "profile_string_array v = Inr xs"
  then obtain zs where v: "v = PList zs" "list_all is_pystr zs"
    by (cases v) (auto simp: profile_string_array_def split: if_splits)
  then have zs: "zs = map PStr (strs_of zs)" by (simp add: map_strs_of)
  have "normalize_string_set zs = Inr xs" using a v by (simp add: profile_string_array_def)
  then have "xs = sorted_set (strs_of zs)" using zs by (metis normalize_string_set_strs sum.inject(2))
  with v zs show "\<exists>ys. v = PList (map PStr ys) \<and> xs = sorted_set ys" by blast
next
  assume "\<exists>ys. v = PList (map PStr ys) \<and> xs = sorted_set ys"
  then show "profile_string_array v = Inr xs"
    by (auto simp: profile_string_array_def list_all_iff)
qed

lemma merge_skills_Inr:
  assumes "merge_skills source (en, dis) = Inr (en', dis')"
  shows "set en' = set en \<union> skill_set ''enable'' source \<and> set dis' = set dis \<union> skill_set ''disable'' source"
proof (cases "has_key source ''skills''")
  case True
  with assms obtain m xs ys where m: "get source ''skills'' = PDict m"
    and xs: "profile_string_array (get_or m ''enable'' (PList [])) = Inr xs"
    and ys: "profile_string_array (get_or m ''disable'' (PList [])) = Inr ys"
    and out: "en' = en @ xs" "dis' = dis @ ys"
    by (auto simp: merge_skills_def profile_mapping_def res_simps)
  have side: "set zs = skill_set side source" if "profile_string_array (get_or m side (PList [])) = Inr zs" for side zs
  proof -
    have sk: "skill_set side source = (case get m side of PList xs \<Rightarrow> set (strs_of xs) | _ \<Rightarrow> {})"
      by (simp add: skill_set_def m)
    show ?thesis
      unfolding sk using that
      by (cases "map_of m side") (auto simp: get_or_def get_def [of m] profile_string_array_Inr)
  qed
  from side [OF xs] side [OF ys] out show ?thesis by simp
next
  case False
  with assms show ?thesis by (simp add: merge_skills_def skill_set_def get_absent)
qed

text \<open>
  What one source says about the bindings, as the list of its assignments of an entry to a mode and
  a platform, and the modes it names.
\<close>

definition binding_pairs :: "(string \<times> pyval) list \<Rightarrow> ((string \<times> string) \<times> string) list" where
  "binding_pairs m = concat (map (\<lambda>(mode, v). case v of
     PDict b \<Rightarrow> concat (map (\<lambda>(key, w). case w of PStr entry \<Rightarrow> [((mode, key), entry)] | _ \<Rightarrow> []) b) | _ \<Rightarrow> []) m)"

definition binding_map :: "dict \<Rightarrow> string \<times> string \<Rightarrow> string option" where
  "binding_map source k = (case get source ''bindings'' of PDict m \<Rightarrow> map_of (rev (binding_pairs m)) k | _ \<Rightarrow> None)"

definition binding_modes :: "dict \<Rightarrow> string set" where
  "binding_modes source = (case get source ''bindings'' of PDict m \<Rightarrow> set (keys m) | _ \<Rightarrow> {})"

definition binding_at :: "(string \<times> (string \<times> string) list) list \<Rightarrow> string \<times> string \<Rightarrow> string option" where
  "binding_at bs k = (case map_of bs (fst k) of None \<Rightarrow> None | Some b \<Rightarrow> map_of b (snd k))"

lemma binding_values_pairs:
  assumes "binding_values v = Inr values"
  shows "binding_pairs [(mode, v)] = map (\<lambda>(key, entry). ((mode, key), entry)) values"
proof -
  obtain m where v: "v = PDict m"
    and m: "mapr (\<lambda>(k, w). case w of PStr s \<Rightarrow> Inr (k, s) | _ \<Rightarrow> Inl profile_failure) m = Inr values"
    using assms by (auto simp: binding_values_def profile_mapping_def res_simps split: if_splits)
  have "list_all2 (\<lambda>(k, w) (k', s). k' = k \<and> w = PStr s) m values"
    using m unfolding mapr_Inr_iff
    by (rule list.rel_mono_strong) (auto split: pyval.splits)
  then show ?thesis
    unfolding v binding_pairs_def by (induction rule: list_all2_induct) auto
qed

lemma map_of_tagged:
  "map_of (map (\<lambda>(key, entry). ((mode, key), entry)) xs) k = (if fst k = mode then map_of xs (snd k) else None)"
  by (induction xs) auto

lemma merge_binding_at:
  assumes "merge_binding acc (mode, v) = Inr acc'"
  shows "binding_at acc' = binding_at acc ++ map_of (rev (binding_pairs [(mode, v)]))"
    and "set (map fst acc') = set (map fst acc) \<union> {mode}"
    and "distinct (map fst acc) \<Longrightarrow> distinct (map fst acc')"
proof -
  obtain vs where vs: "binding_values v = Inr vs"
    and acc': "acc' = AList.update mode (dict_update (case map_of acc mode of None \<Rightarrow> [] | Some b \<Rightarrow> b) vs) acc"
    using assms by (auto simp: merge_binding_def res_simps Let_def)
  show "binding_at acc' = binding_at acc ++ map_of (rev (binding_pairs [(mode, v)]))"
  proof
    fix k :: "string \<times> string"
    show "binding_at acc' k = (binding_at acc ++ map_of (rev (binding_pairs [(mode, v)]))) k"
      by (cases k) (auto simp: acc' binding_at_def binding_values_pairs [OF vs] rev_map map_of_tagged
          update_conv' map_of_dict_update map_add_def split: option.splits)
  qed
  show "set (map fst acc') = set (map fst acc) \<union> {mode}"
    using dom_update [of mode _ acc] by (simp add: acc' dom_map_of_conv_image_fst update_conv' insert_commute)
  show "distinct (map fst acc')" if "distinct (map fst acc)"
    using that by (simp add: acc' distinct_update)
qed

lemma binding_pairs_Cons: "binding_pairs (x # m) = binding_pairs [x] @ binding_pairs m"
  by (simp add: binding_pairs_def)

lemma foldr_merge_binding:
  assumes "foldr_res merge_binding acc m = Inr acc'" and "distinct (map fst acc)"
  shows "binding_at acc' = binding_at acc ++ map_of (rev (binding_pairs m)) \<and>
    set (map fst acc') = set (map fst acc) \<union> set (keys m) \<and> distinct (map fst acc')"
  using assms
proof (induction m arbitrary: acc)
  case Nil
  then show ?case by (simp add: binding_pairs_def keys_def)
next
  case (Cons x m)
  obtain mode v where x: "x = (mode, v)" by (cases x)
  obtain acc1 where step: "merge_binding acc (mode, v) = Inr acc1" and rest: "foldr_res merge_binding acc1 m = Inr acc'"
    using Cons.prems(1) by (auto simp: x res_simps)
  note one = merge_binding_at [OF step]
  have ih: "binding_at acc' = binding_at acc1 ++ map_of (rev (binding_pairs m)) \<and>
      set (map fst acc') = set (map fst acc1) \<union> set (keys m) \<and> distinct (map fst acc')"
    by (rule Cons.IH [OF rest one(3) [OF Cons.prems(2)]])
  have "rev (binding_pairs (x # m)) = rev (binding_pairs m) @ rev (binding_pairs [(mode, v)])"
    by (subst binding_pairs_Cons) (simp add: x)
  then have "binding_at acc' = binding_at acc ++ map_of (rev (binding_pairs (x # m)))"
    using ih one(1) by (simp only: map_of_append map_add_assoc)
  then show ?case using ih one(2) by (auto simp: x keys_def)
qed

lemma merge_bindings_Inr:
  assumes "merge_bindings source acc = Inr acc'" and "distinct (map fst acc)"
  shows "binding_at acc' = binding_at acc ++ binding_map source \<and>
    set (map fst acc') = set (map fst acc) \<union> binding_modes source \<and> distinct (map fst acc')"
proof (cases "has_key source ''bindings''")
  case True
  with assms(1) obtain m where m: "get source ''bindings'' = PDict m" "foldr_res merge_binding acc m = Inr acc'"
    by (auto simp: merge_bindings_def profile_mapping_def res_simps)
  have "binding_map source = map_of (rev (binding_pairs m))" by (simp add: fun_eq_iff binding_map_def m(1))
  with foldr_merge_binding [OF m(2) assms(2)] show ?thesis by (simp add: binding_modes_def m(1))
next
  case False
  have "binding_map source = Map.empty" by (simp add: fun_eq_iff binding_map_def get_absent [OF False])
  with False assms show ?thesis by (simp add: merge_bindings_def binding_modes_def get_absent)
qed

text \<open>The artifact policy and the default platforms one source sets.\<close>

definition policy_of :: "dict \<Rightarrow> unit \<Rightarrow> string option" where
  "policy_of source u = (case get source ''artifact_policy'' of PStr policy \<Rightarrow> Some policy | _ \<Rightarrow> None)"

definition platforms_of :: "dict \<Rightarrow> unit \<Rightarrow> string list option" where
  "platforms_of source u = (case get source ''default_platforms'' of
     PList xs \<Rightarrow> Some (sorted_set (strs_of xs)) | _ \<Rightarrow> None)"

definition or_default :: "'v \<Rightarrow> 'v option \<Rightarrow> 'v" where
  "or_default d v = (case v of None \<Rightarrow> d | Some w \<Rightarrow> w)"

lemma merge_artifact_policy_Inr:
  "merge_artifact_policy source acc = Inr acc' \<Longrightarrow> acc' = or_default acc (policy_of source u)"
  by (cases "has_key source ''artifact_policy''")
    (auto simp: merge_artifact_policy_def as_string_def policy_of_def or_default_def get_absent split: pyval.splits if_splits)

lemma merge_platforms_Inr:
  "merge_platforms source acc = Inr acc' \<Longrightarrow> acc' = or_default acc (platforms_of source u)"
  by (cases "has_key source ''default_platforms''")
    (auto simp: merge_platforms_def profile_string_array_Inr platforms_of_def or_default_def get_absent)

lemma or_default_add: "or_default d ((m ++ f) k) = or_default (or_default d (m k)) (f k)"
  by (auto simp: or_default_def map_add_def split: option.splits)

text \<open>The accumulator after merging a list of sources, from the root downwards.\<close>

definition merged :: "(dict \<Rightarrow> 'k \<Rightarrow> 'v option) \<Rightarrow> dict list \<Rightarrow> 'k \<Rightarrow> 'v option" where
  "merged f done = foldl (\<lambda>m s. m ++ f s) Map.empty done"

lemma merged_simps [simp]:
  "merged f [] = Map.empty"
  "merged f (xs @ [s]) = merged f xs ++ f s"
  by (simp_all add: merged_def)

lemma merged_rev: "merged f (rev chain) = inherited f chain"
  by (simp add: merged_def fun_eq_iff foldl_inherited)

definition acc_inv :: "dict list \<Rightarrow> profile_acc \<Rightarrow> bool" where
  "acc_inv done acc = (
     map_of (pa_route acc) = merged (field_map ''route_admission'') done \<and>
     map_of (pa_approval acc) = merged (field_map ''approval_policy'') done \<and>
     map_of (pa_security acc) = merged (field_map ''provider_security_policy'') done \<and>
     map_of (pa_capabilities acc) = merged level_map done \<and>
     binding_at (pa_bindings acc) = merged binding_map done \<and>
     set (map fst (pa_bindings acc)) = \<Union> (binding_modes ` set done) \<and>
     pa_artifact_policy acc = or_default ''default'' (merged policy_of done ()) \<and>
     pa_platforms acc = or_default [] (merged platforms_of done ()) \<and>
     set (fst (pa_skills acc)) = \<Union> (skill_set ''enable'' ` set done) \<and>
     set (snd (pa_skills acc)) = \<Union> (skill_set ''disable'' ` set done) \<and>
     distinct (map fst (pa_route acc)) \<and> distinct (map fst (pa_approval acc)) \<and>
     distinct (map fst (pa_security acc)) \<and> distinct (map fst (pa_capabilities acc)) \<and>
     distinct (map fst (pa_bindings acc)))"

lemma acc_inv_step:
  assumes "acc_inv done acc" and "merge_source acc source = Inr acc'"
  shows "acc_inv (done @ [source]) acc'"
proof -
  obtain en dis where sk: "pa_skills acc = (en, dis)" by (cases "pa_skills acc")
  obtain en' dis' where parts:
    "merge_mapping ''route_admission'' source (pa_route acc) = Inr (pa_route acc')"
    "merge_skills source (en, dis) = Inr (en', dis')" "pa_skills acc' = (en', dis')"
    "merge_capabilities source (pa_capabilities acc) = Inr (pa_capabilities acc')"
    "merge_mapping ''approval_policy'' source (pa_approval acc) = Inr (pa_approval acc')"
    "merge_mapping ''provider_security_policy'' source (pa_security acc) = Inr (pa_security acc')"
    "merge_bindings source (pa_bindings acc) = Inr (pa_bindings acc')"
    "merge_artifact_policy source (pa_artifact_policy acc) = Inr (pa_artifact_policy acc')"
    "merge_platforms source (pa_platforms acc) = Inr (pa_platforms acc')"
    using assms(2) by (auto simp: merge_source_def res_simps sk)
  note maps = merge_mapping_Inr [OF parts(1)] merge_mapping_Inr [OF parts(5)] merge_mapping_Inr [OF parts(6)]
    merge_capabilities_Inr [OF parts(4)] merge_skills_Inr [OF parts(2)]
    merge_artifact_policy_Inr [OF parts(8), of "()"] merge_platforms_Inr [OF parts(9), of "()"]
  have bindings: "binding_at (pa_bindings acc') = binding_at (pa_bindings acc) ++ binding_map source \<and>
      set (map fst (pa_bindings acc')) = set (map fst (pa_bindings acc)) \<union> binding_modes source \<and>
      distinct (map fst (pa_bindings acc'))"
    by (rule merge_bindings_Inr [OF parts(7)]) (use assms(1) in \<open>simp add: acc_inv_def\<close>)
  note dist = merge_mapping_distinct [OF parts(1)] merge_mapping_distinct [OF parts(5)]
    merge_mapping_distinct [OF parts(6)] merge_capabilities_distinct [OF parts(4)]
  show ?thesis
    using assms(1) maps dist bindings unfolding acc_inv_def
    by (simp add: sk parts(3) Un_commute or_default_add del: set_map)
qed

lemma foldr_merge_inv:
  "foldr_res merge_source acc xs = Inr acc' \<Longrightarrow> acc_inv done acc \<Longrightarrow> acc_inv (done @ xs) acc'"
proof (induction xs arbitrary: acc "done")
  case (Cons x xs)
  then obtain acc1 where "merge_source acc x = Inr acc1" "foldr_res merge_source acc1 xs = Inr acc'"
    by (auto simp: res_simps)
  with Cons.IH [of acc1 "done @ [x]"] acc_inv_step Cons.prems(2) show ?case by simp
qed simp

lemma acc_inv_empty: "acc_inv [] empty_acc"
  by (simp add: acc_inv_def empty_acc_def binding_at_def or_default_def fun_eq_iff)

lemma add_source_inv:
  assumes "add_source sources source = Inr sources'"
    and "list_all (\<lambda>(i, s). get s ''id'' = PStr i \<and> s \<in> S) sources" and "source \<in> S" and "distinct (keys sources)"
  shows "list_all (\<lambda>(i, s). get s ''id'' = PStr i \<and> s \<in> S) sources' \<and> distinct (keys sources')"
proof -
  obtain i where i: "get source ''id'' = PStr i" "i \<notin> set (keys sources)" "sources' = AList.update i source sources"
    using assms(1) by (auto simp: add_source_def validate_source_def res_simps has_key_def keys_def)
  have s': "sources' = sources @ [(i, source)]" using i by (simp add: update_new)
  show ?thesis unfolding s' using assms(2-4) i(1,2) by (auto simp: keys_def)
qed

lemma foldr_add_source:
  assumes "foldr_res add_source [] srcs = Inr sources"
  shows "list_all (\<lambda>(i, s). get s ''id'' = PStr i \<and> s \<in> set srcs) sources \<and> distinct (keys sources)"
  by (rule foldr_res_inv [OF assms, where I = "\<lambda>ss. list_all (\<lambda>(i, s). get s ''id'' = PStr i \<and> s \<in> set srcs) ss \<and> distinct (keys ss)"])
    (use add_source_inv in \<open>auto simp: keys_def\<close>)

lemma resolve_profileE:
  assumes "resolve_profile srcs sel = Inr p"
  obtains sources ids acc where "foldr_res add_source [] srcs = Inr sources" "parent_path sources sel ids"
    "acc_inv (rev (map (\<lambda>i. the (map_of sources i)) ids)) acc"
    "rp_profile_id p = sel"
    "rp_route_admission p = sort_items (pa_route acc)" "rp_approval_policy p = sort_items (pa_approval acc)"
    "rp_provider_security_policy p = sort_items (pa_security acc)"
    "rp_required_capabilities p = sort_items (pa_capabilities acc)"
    "rp_bindings p = sort_items (pa_bindings acc)" "rp_artifact_policy p = pa_artifact_policy acc"
    "rp_default_platforms p = pa_platforms acc"
    "rp_skills_enable p = sorted_set (fst (pa_skills acc))" "rp_skills_disable p = sorted_set (snd (pa_skills acc))"
    "set (fst (pa_skills acc)) \<inter> set (snd (pa_skills acc)) = {}"
proof -
  obtain sources chain acc where *: "foldr_res add_source [] srcs = Inr sources"
    "profile_chain sources [] sel = Inr chain" "foldr_res merge_source empty_acc (rev chain) = Inr acc"
    and fin: "(case pa_skills acc of (enabled, disabled) \<Rightarrow>
     bnd (require (\<not> list_ex (\<lambda>s. s \<in> set disabled) enabled) profile_failure) (\<lambda>_.
     Inr \<lparr>rp_schema_version = 1, rp_profile_id = sel,
          rp_route_admission = sort_items (pa_route acc), rp_bindings = sort_items (pa_bindings acc),
          rp_skills_enable = sorted_set enabled, rp_skills_disable = sorted_set disabled,
          rp_artifact_policy = pa_artifact_policy acc, rp_default_platforms = pa_platforms acc,
          rp_required_capabilities = sort_items (pa_capabilities acc),
          rp_approval_policy = sort_items (pa_approval acc),
          rp_provider_security_policy = sort_items (pa_security acc)\<rparr>)) = Inr p"
    using assms unfolding resolve_profile_def by (auto simp only: res_simps)
  obtain ids where ids: "parent_path sources sel ids" "chain = map (\<lambda>i. the (map_of sources i)) ids"
    using *(2) by (auto simp: profile_chain_Inr_iff)
  have inv: "acc_inv (rev (map (\<lambda>i. the (map_of sources i)) ids)) acc"
    using foldr_merge_inv [OF *(3) acc_inv_empty] by (simp add: ids(2))
  show thesis
    by (rule that [OF *(1) ids(1) inv]) (use fin in \<open>auto simp: list_ex_iff res_simps split: prod.splits\<close>)
qed

text \<open>
  C36: A resolved profile inherits from a finite chain of sources without repetition that starts at
  the selected profile and follows the parents to a root. Every key of its route admission,
  approval policy, provider security policy and capability minima, and the entry bound to every
  mode and platform, has the value of the most derived source of the chain that sets it; the bound
  modes are those of all its sources. The artifact policy and the default platforms are those of
  the most derived source that sets them, with the defaults of the code where none does. The enabled
  skills and the disabled skills are the unions over the chain, sorted and without duplicates, and
  no skill is in both.
\<close>

theorem profile_inheritance:
  assumes "resolve_profile srcs sel = Inr p"
  shows "\<exists>sources ids. foldr_res add_source [] srcs = Inr sources \<and> parent_path sources sel ids \<and> distinct ids \<and>
    (let chain = map (\<lambda>i. the (map_of sources i)) ids in
     map_of (rp_route_admission p) = inherited (field_map ''route_admission'') chain \<and>
     map_of (rp_approval_policy p) = inherited (field_map ''approval_policy'') chain \<and>
     map_of (rp_provider_security_policy p) = inherited (field_map ''provider_security_policy'') chain \<and>
     map_of (rp_required_capabilities p) = inherited level_map chain \<and>
     binding_at (rp_bindings p) = inherited binding_map chain \<and>
     set (map fst (rp_bindings p)) = \<Union> (binding_modes ` set chain) \<and>
     rp_artifact_policy p = or_default ''default'' (inherited policy_of chain ()) \<and>
     rp_default_platforms p = or_default [] (inherited platforms_of chain ()) \<and>
     set (rp_skills_enable p) = \<Union> (skill_set ''enable'' ` set chain) \<and>
     set (rp_skills_disable p) = \<Union> (skill_set ''disable'' ` set chain) \<and>
     sorted (rp_skills_enable p) \<and> distinct (rp_skills_enable p) \<and>
     sorted (rp_skills_disable p) \<and> distinct (rp_skills_disable p) \<and>
     set (rp_skills_enable p) \<inter> set (rp_skills_disable p) = {})"
proof -
  obtain sources ids acc where src: "foldr_res add_source [] srcs = Inr sources" and path: "parent_path sources sel ids"
    and inv: "acc_inv (rev (map (\<lambda>i. the (map_of sources i)) ids)) acc"
    and p: "rp_route_admission p = sort_items (pa_route acc)" "rp_approval_policy p = sort_items (pa_approval acc)"
      "rp_provider_security_policy p = sort_items (pa_security acc)"
      "rp_required_capabilities p = sort_items (pa_capabilities acc)"
      "rp_bindings p = sort_items (pa_bindings acc)" "rp_artifact_policy p = pa_artifact_policy acc"
      "rp_default_platforms p = pa_platforms acc"
      "rp_skills_enable p = sorted_set (fst (pa_skills acc))" "rp_skills_disable p = sorted_set (snd (pa_skills acc))"
      "set (fst (pa_skills acc)) \<inter> set (snd (pa_skills acc)) = {}"
    using assms by (rule resolve_profileE)
  define chain where "chain = map (\<lambda>i. the (map_of sources i)) ids"
  have inv': "acc_inv (rev chain) acc" using inv by (simp add: chain_def)
  have maps: "map_of (sort_items d) = map_of d" if "distinct (map fst d)" for d :: "(string \<times> 'v) list"
    using that by (intro ext map_of_sort_items) (simp add: keys_def)
  have binds: "map_of (sort_items (pa_bindings acc)) = map_of (pa_bindings acc)"
    using inv' by (intro ext map_of_sort_items) (simp add: acc_inv_def keys_def)
  have at: "binding_at (rp_bindings p) = binding_at (pa_bindings acc)"
    by (simp add: fun_eq_iff binding_at_def p binds)
  have modes: "set (map fst (rp_bindings p)) = set (map fst (pa_bindings acc))"
    by (simp add: p sort_items_def)
  note inv'' = inv' [unfolded acc_inv_def merged_rev set_rev]
  show ?thesis
    by (rule exI [of _ sources], rule exI [of _ ids], fold chain_def, unfold Let_def, unfold at modes)
      (use src path parent_path_distinct [OF path] inv'' p in \<open>simp add: fun_eq_iff map_of_sort_items keys_def del: set_map\<close>)
qed

text \<open>
  The chain loop ends on every input, and it succeeds exactly when following the parents reaches
  a root: a cycle or a missing parent is refused, and nothing else is.
\<close>

theorem profile_chain_exact:
  "(\<exists>chain. profile_chain sources [] sel = Inr chain) \<longleftrightarrow> (\<exists>ids. parent_path sources sel ids)"
  by (auto simp: profile_chain_Inr_iff)

section \<open>Witness\<close>

definition sample_base :: dict where
  "sample_base = [(''schema_id'', PStr ''agent-workflow.profile''), (''schema_version'', PInt 1), (''id'', PStr ''base''),
     (''route_admission'', PDict [(''heavy'', PStr ''ask''), (''light'', PStr ''allow'')]),
     (''bindings'', PDict [(''light'', PDict [(''codex'', PStr ''entry:a''), (''claude'', PStr ''entry:b'')])]),
     (''skills'', PDict [(''enable'', PList [PStr ''skill:a''])])]"

definition sample_child :: dict where
  "sample_child = [(''schema_id'', PStr ''agent-workflow.profile''), (''schema_version'', PInt 1), (''id'', PStr ''child''),
     (''extends'', PStr ''base''), (''route_admission'', PDict [(''heavy'', PStr ''deny'')]),
     (''bindings'', PDict [(''light'', PDict [(''codex'', PStr ''entry:c'')])]),
     (''skills'', PDict [(''disable'', PList [PStr ''skill:b''])])]"

lemma sample_profile_ok: "\<exists>p. resolve_profile [sample_base, sample_child] ''child'' = Inr p \<and>
    map_of (rp_route_admission p) ''heavy'' = Some (PStr ''deny'') \<and> rp_skills_enable p = [''skill:a'']"
proof -
  have base: "validate_source sample_base = Inr ''base''" and child: "validate_source sample_child = Inr ''child''"
    by (simp_all add: validate_source_def sample_base_def sample_child_def require_def subset_strs_def keys_def
        PROFILE_FIELDS_def get_def as_string_def)
  have src: "foldr_res add_source [] [sample_base, sample_child] = Inr [(''base'', sample_base), (''child'', sample_child)]"
    by (simp add: add_source_def base child has_key_def)
  have ext: "get sample_base ''extends'' = PNone" "get sample_child ''extends'' = PStr ''base''"
    by (simp_all add: sample_base_def sample_child_def get_def)
  have chain: "profile_chain [(''base'', sample_base), (''child'', sample_child)] [] ''child'' = Inr [sample_child, sample_base]"
    by (simp add: profile_chain.simps ext)
  have arr: "profile_string_array (PList []) = Inr []" "profile_string_array (PList [PStr x]) = Inr [x]" for x
    by (simp_all add: profile_string_array_Inr sorted_set_def) (rule exI [of _ "[x]"], simp)
  have merge: "foldr_res merge_source empty_acc [sample_base, sample_child] = Inr
      (empty_acc \<lparr>pa_route := [(''heavy'', PStr ''deny''), (''light'', PStr ''allow'')],
        pa_bindings := [(''light'', [(''codex'', ''entry:c''), (''claude'', ''entry:b'')])],
        pa_skills := ([''skill:a''], [''skill:b''])\<rparr>)"
    by (simp add: merge_source_def merge_mapping_def merge_bindings_def merge_skills_def merge_artifact_policy_def
        merge_platforms_def merge_capabilities_def empty_acc_def sample_base_def sample_child_def has_key_def get_def
        get_or_def profile_mapping_def as_mapping_def require_def subset_strs_def keys_def arr dict_update_def
        merge_binding_def binding_values_def)
  have chain': "rev [sample_child, sample_base] = [sample_base, sample_child]" by simp
  show ?thesis
    unfolding resolve_profile_def src bnd.simps chain chain' merge
    by (simp add: chain has_key_def require_def chain' [simplified] merge [simplified] empty_acc_def sort_items_def sorted_set_def
        del: foldr_res.simps)
qed

theorem profile_inheritance_witness:
  "\<exists>p sources ids. resolve_profile [sample_base, sample_child] ''child'' = Inr p \<and> parent_path sources ''child'' ids \<and>
     map_of (rp_route_admission p) = inherited (field_map ''route_admission'') (map (\<lambda>i. the (map_of sources i)) ids) \<and>
     binding_at (rp_bindings p) = inherited binding_map (map (\<lambda>i. the (map_of sources i)) ids)"
proof -
  obtain p where p: "resolve_profile [sample_base, sample_child] ''child'' = Inr p"
    using sample_profile_ok by (elim exE conjE)
  from profile_inheritance [OF p, unfolded Let_def] obtain sources ids where
    "parent_path sources ''child'' ids"
    "map_of (rp_route_admission p) = inherited (field_map ''route_admission'') (map (\<lambda>i. the (map_of sources i)) ids)"
    "binding_at (rp_bindings p) = inherited binding_map (map (\<lambda>i. the (map_of sources i)) ids)"
    by (elim exE conjE)
  with p show ?thesis by (intro exI conjI)
qed

end
