(* ===== verification/Topo.thy ===== *)
theory Topo
  imports Validate
begin

text \<open>
  The stable topological sort that \<^verbatim>\<open>core/catalog.py\<close> and \<^verbatim>\<open>core/surfaces.py\<close> both contain:
  Kahn's algorithm with a heap of ready nodes. The two copies differ in the check an edge has to
  pass, which is an argument here. A \<^verbatim>\<open>heapq\<close> heap is the ascending list of its elements. The
  specification is greedy: each position holds the least node whose prerequisites all stand
  before it. The locale \<open>prereq_graph\<close> is the contract of a component whose documents form
  such a graph; its lemmas say that the order is topological, complete and unique, and that it exists
  exactly when the graph has no cycle.
\<close>

section \<open>The algorithm\<close>

type_synonym consumers = "(string \<times> string list) list"
type_synonym degrees = "(string \<times> int) list"

definition cons_of :: "consumers \<Rightarrow> string \<Rightarrow> string list" where
  "cons_of cs p = (case map_of cs p of None \<Rightarrow> [] | Some xs \<Rightarrow> xs)"

definition deg_of :: "degrees \<Rightarrow> string \<Rightarrow> int" where
  "deg_of d n = (case map_of d n of None \<Rightarrow> 0 | Some k \<Rightarrow> k)"

definition init_graph :: "string list \<Rightarrow> consumers \<times> degrees" where
  "init_graph nodes = (map (\<lambda>n. (n, [])) nodes, map (\<lambda>n. (n, 0)) nodes)"

definition add_edge :: "consumers \<times> degrees \<Rightarrow> string \<times> string \<Rightarrow> consumers \<times> degrees" where
  "add_edge st np = (case st of (cs, d) \<Rightarrow> case np of (n, p) \<Rightarrow>
     if n \<in> set (cons_of cs p) then (cs, d)
     else (AList.update p (cons_of cs p @ [n]) cs, AList.update n (deg_of d n + 1) d))"

definition edges_of :: "string list \<Rightarrow> (string \<Rightarrow> string list) \<Rightarrow> (string \<times> string) list" where
  "edges_of nodes pre = concat (map (\<lambda>n. map (\<lambda>p. (n, p)) (pre n)) nodes)"

definition build_graph ::
    "(string \<Rightarrow> string \<Rightarrow> bool) \<Rightarrow> exn \<Rightarrow> string list \<Rightarrow> (string \<Rightarrow> string list) \<Rightarrow> (consumers \<times> degrees) res" where
  "build_graph check e nodes pre =
     foldr_res (\<lambda>st (n, p). bnd (require (check n p) e) (\<lambda>_. Inr (add_edge st (n, p))))
       (init_graph nodes) (edges_of nodes pre)"

definition relax :: "string \<Rightarrow> degrees \<times> string list \<Rightarrow> degrees \<times> string list" where
  "relax c st = (case st of (d, ready) \<Rightarrow>
     let k = deg_of d c - 1 in (AList.update c k d, if k = 0 then insort c ready else ready))"

text \<open>
  A round moves the least ready node to the order. The number of nodes with a positive degree plus
  the number of ready nodes decreases: a node is pushed only when its degree drops from one to zero.
\<close>

definition positives :: "degrees \<Rightarrow> nat" where
  "positives d = length (filter (\<lambda>(n, k). 0 < k) d)"

lemma positives_update:
  "positives (AList.update c k d) + (if 0 < deg_of d c then 1 else 0) = positives d + (if 0 < k then 1 else 0)"
proof (induction d)
  case Nil
  then show ?case by (simp add: positives_def deg_of_def)
next
  case (Cons p d)
  then show ?case by (cases p) (auto simp: positives_def deg_of_def)
qed

lemma relax_measure:
  "positives (fst (relax c st)) + length (snd (relax c st)) \<le> positives (fst st) + length (snd st)"
proof (cases st)
  case (Pair d ready)
  let ?k = "deg_of d c - 1"
  have "positives (AList.update c ?k d) + (if 0 < deg_of d c then 1 else 0) = positives d + (if 0 < ?k then 1 else 0)"
    by (rule positives_update)
  then show ?thesis
    by (cases "?k = 0") (simp_all add: Pair relax_def Let_def split: if_splits)
qed

lemma fold_relax_measure:
  "positives (fst (fold relax cs st)) + length (snd (fold relax cs st)) \<le> positives (fst st) + length (snd st)"
proof (induction cs arbitrary: st)
  case (Cons c cs)
  show ?case
    using Cons [of "relax c st"] relax_measure [of c st] by simp
qed simp

function kahn :: "consumers \<Rightarrow> degrees \<Rightarrow> string list \<Rightarrow> string list \<Rightarrow> string list" where
  "kahn cs d [] ordered = ordered"
| "kahn cs d (x # ready) ordered =
     kahn cs (fst (fold relax (sort (cons_of cs x)) (d, ready))) (snd (fold relax (sort (cons_of cs x)) (d, ready)))
       (ordered @ [x])"
  by pat_completeness auto
termination
proof (relation "measure (\<lambda>(cs, d, ready, ordered). positives d + length ready)")
  fix cs d x ready and ordered :: "string list"
  show "((cs, fst (fold relax (sort (cons_of cs x)) (d, ready)), snd (fold relax (sort (cons_of cs x)) (d, ready)),
      ordered @ [x]), cs, d, x # ready, ordered) \<in> measure (\<lambda>(cs, d, ready, ordered). positives d + length ready)"
    using fold_relax_measure [of "sort (cons_of cs x)" "(d, ready)"] by simp
qed simp

definition topological_order ::
    "(string \<Rightarrow> string \<Rightarrow> bool) \<Rightarrow> exn \<Rightarrow> string list \<Rightarrow> (string \<Rightarrow> string list) \<Rightarrow> string list res" where
  "topological_order check e nodes pre =
     bnd (build_graph check e nodes pre) (\<lambda>(cs, d).
     let ordered = kahn cs d (sort (filter (\<lambda>n. deg_of d n = 0) nodes)) [] in
     if length ordered \<noteq> length nodes then Inl e else Inr ordered)"

section \<open>The specification\<close>

definition available :: "string set \<Rightarrow> (string \<Rightarrow> string list) \<Rightarrow> string list \<Rightarrow> string set" where
  "available N pre ordered = {n \<in> N - set ordered. set (pre n) \<subseteq> set ordered}"

inductive greedy :: "string set \<Rightarrow> (string \<Rightarrow> string list) \<Rightarrow> string list \<Rightarrow> bool" for N pre where
  greedy_Nil: "greedy N pre []"
| greedy_snoc: "greedy N pre xs \<Longrightarrow> available N pre xs \<noteq> {} \<Longrightarrow> x = Min (available N pre xs) \<Longrightarrow>
    greedy N pre (xs @ [x])"

inductive_cases greedy_snocE: "greedy N pre (xs @ [x])"

lemma available_mem: "n \<in> available N pre xs \<longleftrightarrow> n \<in> N \<and> n \<notin> set xs \<and> set (pre n) \<subseteq> set xs"
  by (auto simp: available_def)

lemma Min_available: "finite N \<Longrightarrow> available N pre xs \<noteq> {} \<Longrightarrow> Min (available N pre xs) \<in> available N pre xs"
  by (rule Min_in) (auto simp: available_def)

lemma greedy_sound:
  assumes "greedy N pre xs" and "finite N"
  shows "distinct xs \<and> set xs \<subseteq> N \<and> (\<forall>ys x zs. xs = ys @ x # zs \<longrightarrow> set (pre x) \<subseteq> set ys)"
  using assms(1)
proof (induction rule: greedy.induct)
  case (greedy_snoc xs x)
  then have x: "x \<in> available N pre xs"
    using Min_available [OF assms(2)] by simp
  have "set (pre y) \<subseteq> set ys" if eq: "xs @ [x] = ys @ y # zs" for ys y zs
  proof (cases zs rule: rev_cases)
    case Nil
    with eq x show ?thesis by (simp add: available_mem)
  next
    case (snoc ws w)
    with eq have "xs = ys @ y # ws" by simp
    with greedy_snoc.IH show ?thesis by blast
  qed
  with greedy_snoc.IH x show ?case by (auto simp: available_mem)
qed simp

lemma greedy_unique: "greedy N pre xs \<Longrightarrow> greedy N pre ys \<Longrightarrow> length xs = length ys \<Longrightarrow> xs = ys"
proof (induction xs arbitrary: ys rule: rev_induct)
  case (snoc x xs)
  then obtain zs z where ys: "ys = zs @ [z]"
    by (cases ys rule: rev_cases) auto
  have x: "greedy N pre xs" "x = Min (available N pre xs)"
    using snoc.prems(1) by (auto elim: greedy_snocE)
  have z: "greedy N pre zs" "z = Min (available N pre zs)"
    using snoc.prems(2) unfolding ys by (auto elim: greedy_snocE)
  have "length xs = length zs" using snoc.prems(3) ys by simp
  then have "xs = zs" by (rule snoc.IH [OF x(1) z(1)])
  then show ?case unfolding ys x(2) z(2) by simp
qed simp

text \<open>A cycle of prerequisites.\<close>

definition prereq_rel :: "string set \<Rightarrow> (string \<Rightarrow> string list) \<Rightarrow> (string \<times> string) set" where
  "prereq_rel N pre = {(p, n). n \<in> N \<and> p \<in> N \<and> p \<in> set (pre n)}"

lemma greedy_acyclic:
  assumes "greedy N pre xs" and "finite N" and "N \<subseteq> set xs"
  shows "acyclic (prereq_rel N pre)"
proof -
  have idx: "\<exists>i j. i < j \<and> j < length xs \<and> xs ! i = p \<and> xs ! j = n" if pn: "(p, n) \<in> prereq_rel N pre" for p n
  proof -
    obtain ys zs where n: "xs = ys @ n # zs"
      using pn assms(3) split_list [of n xs] by (auto simp: prereq_rel_def)
    then have "set (pre n) \<subseteq> set ys"
      using greedy_sound [OF assms(1,2)] by blast
    then have "p \<in> set ys"
      using pn by (auto simp: prereq_rel_def)
    then obtain i where "i < length ys" "ys ! i = p"
      by (auto simp: in_set_conv_nth)
    with n show ?thesis by (intro exI [of _ i] exI [of _ "length ys"]) (auto simp: nth_append)
  qed
  define f where "f x = (LEAST i. i < length xs \<and> xs ! i = x)" for x
  have d: "distinct xs" using greedy_sound [OF assms(1,2)] by simp
  have "f (xs ! i) = i" if "i < length xs" for i
    unfolding f_def using d that by (intro Least_equality) (auto simp: nth_eq_iff_index_eq)
  then have "prereq_rel N pre \<subseteq> inv_image less_than f"
    using idx by fastforce
  then show ?thesis
    by (meson acyclic_subset wf_acyclic wf_inv_image wf_less_than)
qed

lemma stuck_cyclic:
  assumes "finite N" and "available N pre xs = {}" and "\<not> N \<subseteq> set xs" and "\<And>n. n \<in> N \<Longrightarrow> set (pre n) \<subseteq> N"
  shows "\<not> acyclic (prereq_rel N pre)"
proof
  assume "acyclic (prereq_rel N pre)"
  moreover have "finite (prereq_rel N pre)"
    by (rule finite_subset [of _ "N \<times> N"]) (auto simp: prereq_rel_def assms(1))
  ultimately have wf: "wf (prereq_rel N pre)" by (simp add: finite_acyclic_wf)
  obtain n where "n \<in> N - set xs" using assms(3) by blast
  from wfE_min [OF wf this] obtain z where z: "z \<in> N - set xs"
    and least: "\<And>y. (y, z) \<in> prereq_rel N pre \<Longrightarrow> y \<notin> N - set xs"
    by metis
  have "set (pre z) \<subseteq> set xs"
    using least z assms(4) by (fastforce simp: prereq_rel_def)
  with z have "z \<in> available N pre xs" by (simp add: available_mem)
  with assms(2) show False by simp
qed

section \<open>The algorithm meets the specification\<close>

lemma deg_of_update: "deg_of (AList.update c k d) n = (if n = c then k else deg_of d n)"
  by (simp add: deg_of_def update_conv')

lemma cons_of_update: "cons_of (AList.update p xs cs) q = (if q = p then xs else cons_of cs q)"
  by (simp add: cons_of_def update_conv')

text \<open>After building, consumers and degrees are those of the set of edges.\<close>

definition graph_inv :: "(string \<times> string) set \<Rightarrow> consumers \<times> degrees \<Rightarrow> bool" where
  "graph_inv E st = (finite E \<and>
     (\<forall>p. set (cons_of (fst st) p) = {n. (n, p) \<in> E} \<and> distinct (cons_of (fst st) p)) \<and>
     (\<forall>n. deg_of (snd st) n = int (card {p. (n, p) \<in> E})))"

lemma map_of_const: "map_of (map (\<lambda>n. (n, c)) nodes) p = (if p \<in> set nodes then Some c else None)"
  by (induction nodes) auto

lemma graph_inv_init: "graph_inv {} (init_graph nodes)"
  by (simp add: graph_inv_def init_graph_def cons_of_def deg_of_def map_of_const)

lemma graph_inv_add_edge:
  assumes "graph_inv E st"
  shows "graph_inv (insert (n, p) E) (add_edge st (n, p))"
proof -
  obtain cs d where st: "st = (cs, d)" by (cases st)
  have fin: "finite E" and cs: "\<And>p. set (cons_of cs p) = {n. (n, p) \<in> E}" "\<And>p. distinct (cons_of cs p)"
    and d: "\<And>n. deg_of d n = int (card {p. (n, p) \<in> E})"
    using assms by (auto simp: graph_inv_def st)
  have finp: "finite {p. (n, p) \<in> E}" for n
    by (rule finite_subset [of _ "snd ` E"]) (force simp: fin)+
  show ?thesis
  proof (cases "(n, p) \<in> E")
    case True
    then have "insert (n, p) E = E" "add_edge st (n, p) = st"
      using cs by (auto simp: add_edge_def st)
    with assms show ?thesis by simp
  next
    case False
    then have new: "n \<notin> set (cons_of cs p)" using cs by simp
    have "{q. (m, q) \<in> insert (n, p) E} = (if m = n then insert p {q. (m, q) \<in> E} else {q. (m, q) \<in> E})" for m
      by auto
    then have "card {q. (m, q) \<in> insert (n, p) E} = (if m = n then 1 else 0) + card {q. (m, q) \<in> E}" for m
      using False finp by simp
    then show ?thesis
      using new fin cs d
      by (auto simp: graph_inv_def add_edge_def st cons_of_update deg_of_update)
  qed
qed

lemma build_graph_Inr:
  assumes "build_graph check e nodes pre = Inr st"
  shows "graph_inv (set (edges_of nodes pre)) st \<and> (\<forall>(n, p) \<in> set (edges_of nodes pre). check n p)"
proof -
  have "foldr_res (\<lambda>st (n, p). bnd (require (check n p) e) (\<lambda>_. Inr (add_edge st (n, p)))) st0 es = Inr st \<Longrightarrow>
      graph_inv E st0 \<Longrightarrow> graph_inv (E \<union> set es) st \<and> (\<forall>(n, p) \<in> set es. check n p)" for st0 es E
  proof (induction es arbitrary: st0 E)
    case (Cons np es)
    obtain n p where np: "np = (n, p)" by (cases np)
    have "check n p" and rest: "foldr_res (\<lambda>st (n, p). bnd (require (check n p) e) (\<lambda>_. Inr (add_edge st (n, p))))
        (add_edge st0 (n, p)) es = Inr st"
      using Cons.prems(1) by (auto simp: np res_simps)
    with Cons.IH [OF rest graph_inv_add_edge [OF Cons.prems(2)]] show ?case
      by (simp add: np)
  qed simp
  from this [of "init_graph nodes" "edges_of nodes pre" "{}"] assms graph_inv_init show ?thesis
    by (simp add: build_graph_def)
qed

lemma build_graph_ok:
  assumes "\<And>n p. (n, p) \<in> set (edges_of nodes pre) \<Longrightarrow> check n p"
  shows "\<exists>st. build_graph check e nodes pre = Inr st"
proof -
  have "(\<And>n p. (n, p) \<in> set es \<Longrightarrow> check n p) \<Longrightarrow>
      \<exists>st. foldr_res (\<lambda>st (n, p). bnd (require (check n p) e) (\<lambda>_. Inr (add_edge st (n, p)))) st0 es = Inr st" for es st0
  proof (induction es arbitrary: st0)
    case (Cons np es)
    obtain n p where np: "np = (n, p)" by (cases np)
    with Cons.prems have "check n p" by simp
    with np Cons.IH [of "add_edge st0 (n, p)"] Cons.prems show ?case
      by (simp add: require_def)
  qed simp
  with assms show ?thesis by (simp add: build_graph_def)
qed

lemma edges_of_iff: "(n, p) \<in> set (edges_of nodes pre) \<longleftrightarrow> n \<in> set nodes \<and> p \<in> set (pre n)"
  by (auto simp: edges_of_def)

lemma fold_relax:
  assumes "distinct ks" and "fold relax ks (d, ready) = (d', ready')"
  shows "deg_of d' n = deg_of d n - (if n \<in> set ks then 1 else 0)"
    and "set ready' = set ready \<union> {c \<in> set ks. deg_of d c = 1}"
    and "sorted ready \<Longrightarrow> sorted ready'"
    and "distinct ready \<Longrightarrow> (\<And>c. c \<in> set ready \<Longrightarrow> deg_of d c \<le> 0) \<Longrightarrow> distinct ready'"
proof -
  have "deg_of d' n = deg_of d n - (if n \<in> set ks then 1 else 0) \<and>
    set ready' = set ready \<union> {c \<in> set ks. deg_of d c = 1} \<and> (sorted ready \<longrightarrow> sorted ready') \<and>
    (distinct ready \<and> (\<forall>c \<in> set ready. deg_of d c \<le> 0) \<longrightarrow> distinct ready')"
    using assms
  proof (induction ks arbitrary: d ready)
    case (Cons c ks)
    define k where "k = deg_of d c - 1"
    define r where "r = (if k = 0 then insort c ready else ready)"
    have "relax c (d, ready) = (AList.update c k d, r)"
      by (simp add: relax_def Let_def k_def r_def)
    then have step: "fold relax ks (AList.update c k d, r) = (d', ready')"
      using Cons.prems(2) by simp
    have c: "c \<notin> set ks" "distinct ks" using Cons.prems(1) by auto
    have same: "deg_of (AList.update c k d) x = deg_of d x" if "x \<in> set ks" for x
      using that c by (auto simp: deg_of_update)
    have r: "set r = set ready \<union> (if deg_of d c = 1 then {c} else {})"
      by (auto simp: r_def k_def set_insort_key)
    have dr: "distinct ready \<and> (\<forall>x \<in> set ready. deg_of d x \<le> 0) \<Longrightarrow>
        distinct r \<and> (\<forall>x \<in> set r. deg_of (AList.update c k d) x \<le> 0)"
      by (auto simp: r_def k_def deg_of_update distinct_insort set_insort_key)
    have sr: "sorted ready \<Longrightarrow> sorted r" by (simp add: r_def sorted_insort)
    have "{x \<in> set (c # ks). deg_of d x = 1} = (if deg_of d c = 1 then {c} else {}) \<union> {x \<in> set ks. deg_of d x = 1}"
      by auto
    moreover have "{x \<in> set ks. deg_of (AList.update c k d) x = 1} = {x \<in> set ks. deg_of d x = 1}"
      using same by auto
    ultimately show ?case
      using Cons.IH [OF c(2) step] c r dr sr by (auto simp: deg_of_update k_def)
  qed simp
  then show "deg_of d' n = deg_of d n - (if n \<in> set ks then 1 else 0)"
    and "set ready' = set ready \<union> {c \<in> set ks. deg_of d c = 1}"
    and "sorted ready \<Longrightarrow> sorted ready'"
    and "distinct ready \<Longrightarrow> (\<And>c. c \<in> set ready \<Longrightarrow> deg_of d c \<le> 0) \<Longrightarrow> distinct ready'"
    by blast+
qed

definition kahn_inv ::
    "string set \<Rightarrow> (string \<Rightarrow> string list) \<Rightarrow> degrees \<Rightarrow> string list \<Rightarrow> string list \<Rightarrow> bool" where
  "kahn_inv N pre d ready ordered = (greedy N pre ordered \<and> sorted ready \<and> distinct ready \<and>
     set ready = available N pre ordered \<and>
     (\<forall>n \<in> N. deg_of d n = int (card (set (pre n) - set ordered))))"

lemma kahn_inv_step:
  assumes inv: "kahn_inv N pre d (x # ready) ordered" and N: "finite N"
    and cs: "set (cons_of cs x) = {n \<in> N. x \<in> set (pre n)}" "distinct (cons_of cs x)"
    and fold: "fold relax (sort (cons_of cs x)) (d, ready) = (d', ready')"
  shows "kahn_inv N pre d' ready' (ordered @ [x])"
proof -
  let ?ks = "sort (cons_of cs x)"
  have ks: "distinct ?ks" "set ?ks = {n \<in> N. x \<in> set (pre n)}"
    using cs by simp_all
  note relaxed = fold_relax [OF ks(1) fold]
  have x: "x \<in> available N pre ordered" and av: "available N pre ordered \<noteq> {}"
    and rd: "sorted (x # ready)" "distinct (x # ready)" "set (x # ready) = available N pre ordered"
    and deg: "\<And>n. n \<in> N \<Longrightarrow> deg_of d n = int (card (set (pre n) - set ordered))"
    using inv by (auto simp: kahn_inv_def)
  have "finite (available N pre ordered)" by (rule finite_subset [OF _ N]) (auto simp: available_def)
  then have "x = Min (available N pre ordered)"
    using rd by (intro Min_eqI [symmetric]) (auto simp flip: rd(3))
  then have gr: "greedy N pre (ordered @ [x])"
    using inv av by (auto simp: kahn_inv_def intro: greedy_snoc)
  have card: "card (set (pre n) - set (ordered @ [x])) = card (set (pre n) - set ordered) - (if x \<in> set (pre n) then 1 else 0)"
    for n
  proof -
    have "set (pre n) - set (ordered @ [x]) = (set (pre n) - set ordered) - {x}" by auto
    moreover have "x \<in> set (pre n) - set ordered \<longleftrightarrow> x \<in> set (pre n)"
      using x by (auto simp: available_mem)
    ultimately show ?thesis by (auto simp: card_Diff_singleton_if)
  qed
  have pos: "x \<in> set (pre n) \<Longrightarrow> 0 < card (set (pre n) - set ordered)" for n
    using x by (auto simp: available_mem card_gt_0_iff)
  have deg': "deg_of d' n = int (card (set (pre n) - set (ordered @ [x])))" if "n \<in> N" for n
    using relaxed(1) [of n] deg [OF that] card [of n] pos [of n] that by (auto simp: cs(1))
  have zero: "n \<in> available N pre ys \<longleftrightarrow> n \<in> N \<and> n \<notin> set ys \<and> card (set (pre n) - set ys) = 0" for n ys
    by (auto simp: available_mem)
  have le0: "deg_of d c \<le> 0" if "c \<in> set ready" for c
  proof -
    have "c \<in> available N pre ordered" using that rd(3) by auto
    then show ?thesis using deg [of c] by (simp add: zero)
  qed
  have placed: "set (pre n) \<subseteq> set ordered" if n: "n \<in> set ordered" for n
  proof -
    have g: "greedy N pre ordered" using inv by (simp add: kahn_inv_def)
    obtain ys zs where "ordered = ys @ n # zs" using split_list [OF n] by blast
    then show ?thesis using greedy_sound [OF g N] by fastforce
  qed
  have "set ready' = available N pre (ordered @ [x])"
  proof (rule set_eqI)
    fix n
    show "n \<in> set ready' \<longleftrightarrow> n \<in> available N pre (ordered @ [x])"
    proof (cases "n \<in> set ready")
      case True
      then have "n \<in> available N pre ordered" "n \<noteq> x" using rd by auto
      with True relaxed(2) show ?thesis by (auto simp: available_mem)
    next
      case False
      then have "n \<notin> available N pre ordered \<or> n = x" using rd(3) by auto
      moreover have "x \<notin> set (pre x)"
        using x by (auto simp: available_mem)
      ultimately show ?thesis
        using False relaxed(2) deg [of n] card [of n] pos [of n] x placed [of n]
        by (auto simp: cs(1) zero)
    qed
  qed
  moreover have "sorted ready'" "distinct ready'"
    using relaxed(3,4) rd le0 by auto
  ultimately show ?thesis using gr deg' by (simp add: kahn_inv_def)
qed

lemma kahn_correct:
  assumes "kahn_inv N pre d ready ordered" and "finite N"
    and "\<And>x. x \<in> N \<Longrightarrow> set (cons_of cs x) = {n \<in> N. x \<in> set (pre n)} \<and> distinct (cons_of cs x)"
  shows "greedy N pre (kahn cs d ready ordered) \<and> available N pre (kahn cs d ready ordered) = {}"
  using assms(1,3)
proof (induction cs d ready ordered rule: kahn.induct)
  case (1 cs d ordered)
  then show ?case by (simp add: kahn_inv_def)
next
  case (2 cs d x ready ordered)
  have "x \<in> available N pre ordered" using "2.prems"(1) by (auto simp: kahn_inv_def)
  then have "x \<in> N" by (simp add: available_mem)
  then have "kahn_inv N pre (fst (fold relax (sort (cons_of cs x)) (d, ready)))
      (snd (fold relax (sort (cons_of cs x)) (d, ready))) (ordered @ [x])"
    using kahn_inv_step [OF "2.prems"(1) assms(2) _ _ prod.collapse [symmetric]] "2.prems"(2) by blast
  with "2.IH" "2.prems"(2) show ?case by simp
qed

text \<open>
  What a successful run returns and when it succeeds, for a check that only admits edges
  between distinct nodes of the graph or edges of a node to itself.
\<close>

lemma topological_order_Inr:
  assumes "topological_order check e nodes pre = Inr ordered" and "distinct nodes"
    and "\<And>n p. check n p \<Longrightarrow> p \<in> set nodes"
  shows "greedy (set nodes) pre ordered \<and> set ordered = set nodes \<and> distinct ordered"
proof -
  let ?N = "set nodes"
  obtain cs d where g: "build_graph check e nodes pre = Inr (cs, d)"
    and ord: "ordered = kahn cs d (sort (filter (\<lambda>n. deg_of d n = 0) nodes)) []" and len: "length ordered = length nodes"
    using assms(1) by (auto simp: topological_order_def res_simps Let_def)
  note inv = build_graph_Inr [OF g]
  have cs: "set (cons_of cs x) = {n \<in> ?N. x \<in> set (pre n)} \<and> distinct (cons_of cs x)" for x
    using inv by (simp add: graph_inv_def edges_of_iff)
  have deg: "deg_of d n = int (card (set (pre n)))" if "n \<in> ?N" for n
    using inv that by (simp add: graph_inv_def edges_of_iff)
  have "kahn_inv ?N pre d (sort (filter (\<lambda>n. deg_of d n = 0) nodes)) []"
    using deg assms(2) by (auto simp: kahn_inv_def greedy_Nil available_mem)
  from kahn_correct [OF this _ cs] have gr: "greedy ?N pre ordered" by (simp add: ord)
  then have "distinct ordered \<and> set ordered \<subseteq> ?N"
    using greedy_sound by blast
  moreover from this len assms(2) have "set ordered = ?N"
    by (metis List.finite_set card_subset_eq distinct_card)
  ultimately show ?thesis using gr by simp
qed

lemma topological_order_complete:
  assumes "distinct nodes" and "\<And>n p. n \<in> set nodes \<Longrightarrow> p \<in> set (pre n) \<Longrightarrow> check n p"
    and "\<And>n p. n \<in> set nodes \<Longrightarrow> p \<in> set (pre n) \<Longrightarrow> p \<in> set nodes"
    and "acyclic (prereq_rel (set nodes) pre)"
  shows "\<exists>ordered. topological_order check e nodes pre = Inr ordered"
proof -
  let ?N = "set nodes"
  obtain cs d where g: "build_graph check e nodes pre = Inr (cs, d)"
    using build_graph_ok [of nodes pre check e] assms(2) by (auto simp: edges_of_iff)
  define ordered where "ordered = kahn cs d (sort (filter (\<lambda>n. deg_of d n = 0) nodes)) []"
  note inv = build_graph_Inr [OF g]
  have cs: "set (cons_of cs x) = {n \<in> ?N. x \<in> set (pre n)} \<and> distinct (cons_of cs x)" for x
    using inv by (simp add: graph_inv_def edges_of_iff)
  have deg: "deg_of d n = int (card (set (pre n)))" if "n \<in> ?N" for n
    using inv that by (simp add: graph_inv_def edges_of_iff)
  have "kahn_inv ?N pre d (sort (filter (\<lambda>n. deg_of d n = 0) nodes)) []"
    using deg assms(1) by (auto simp: kahn_inv_def greedy_Nil available_mem)
  from kahn_correct [OF this _ cs] have gr: "greedy ?N pre ordered" "available ?N pre ordered = {}"
    by (simp_all add: ordered_def)
  have "?N \<subseteq> set ordered"
    using stuck_cyclic [OF _ gr(2)] assms(3,4) by (meson List.finite_set subsetI)
  moreover have "distinct ordered \<and> set ordered \<subseteq> ?N"
    using greedy_sound [OF gr(1)] by blast
  ultimately have "length ordered = length nodes"
    using assms(1) by (metis distinct_card subset_antisym)
  then show ?thesis by (simp add: topological_order_def g ordered_def)
qed

section \<open>The contract of a component with a prerequisite graph\<close>

locale prereq_graph =
  fixes wf_graph :: "'g \<Rightarrow> bool"
    and graph_nodes :: "'g \<Rightarrow> string list"
    and graph_pre :: "'g \<Rightarrow> string \<Rightarrow> string list"
    and graph_check :: "'g \<Rightarrow> string \<Rightarrow> string \<Rightarrow> bool"
    and failure :: exn
    and order :: "'g \<Rightarrow> string list res"
  assumes order_eq: "wf_graph g \<Longrightarrow> order g = topological_order (graph_check g) failure (graph_nodes g) (graph_pre g)"
    and nodes_distinct: "wf_graph g \<Longrightarrow> distinct (graph_nodes g)"
    and check_node: "wf_graph g \<Longrightarrow> graph_check g n p \<Longrightarrow> p \<in> set (graph_nodes g)"
    and node_check: "wf_graph g \<Longrightarrow> p \<in> set (graph_nodes g) \<Longrightarrow> p \<noteq> n \<Longrightarrow> graph_check g n p"
begin

definition closed_graph :: "'g \<Rightarrow> bool" where
  "closed_graph g = (\<forall>n \<in> set (graph_nodes g). set (graph_pre g n) \<subseteq> set (graph_nodes g))"

lemma order_greedy:
  "wf_graph g \<Longrightarrow> order g = Inr xs \<Longrightarrow>
     greedy (set (graph_nodes g)) (graph_pre g) xs \<and> set xs = set (graph_nodes g) \<and> distinct xs"
  using topological_order_Inr nodes_distinct check_node by (metis order_eq)

lemma order_before:
  assumes "wf_graph g" and "order g = Inr xs" and "xs = ys @ x # zs"
  shows "set (graph_pre g x) \<subseteq> set ys"
  using greedy_sound [OF conjunct1 [OF order_greedy [OF assms(1,2)]]] assms(3) by blast

lemma order_closed:
  assumes "wf_graph g" and "order g = Inr xs"
  shows "closed_graph g"
proof -
  have "set (graph_pre g n) \<subseteq> set xs" if "n \<in> set xs" for n
    using order_before [OF assms] split_list [OF that] by fastforce
  then show ?thesis
    using order_greedy [OF assms] by (simp add: closed_graph_def)
qed

lemma order_acyclic:
  "wf_graph g \<Longrightarrow> order g = Inr xs \<Longrightarrow> acyclic (prereq_rel (set (graph_nodes g)) (graph_pre g))"
  using order_greedy [of g xs] greedy_acyclic by blast

lemma order_exists_iff:
  assumes "wf_graph g"
  shows "(\<exists>xs. order g = Inr xs) \<longleftrightarrow> closed_graph g \<and> acyclic (prereq_rel (set (graph_nodes g)) (graph_pre g))"
proof
  assume "\<exists>xs. order g = Inr xs"
  then show "closed_graph g \<and> acyclic (prereq_rel (set (graph_nodes g)) (graph_pre g))"
    using order_closed [OF assms] order_acyclic [OF assms] by blast
next
  assume c: "closed_graph g \<and> acyclic (prereq_rel (set (graph_nodes g)) (graph_pre g))"
  have sub: "p \<in> set (graph_nodes g)" if "n \<in> set (graph_nodes g)" "p \<in> set (graph_pre g n)" for n p
    using c that by (auto simp: closed_graph_def)
  have "n \<noteq> p" if "n \<in> set (graph_nodes g)" "p \<in> set (graph_pre g n)" for n p
  proof
    assume "n = p"
    with that have "(n, n) \<in> prereq_rel (set (graph_nodes g)) (graph_pre g)" by (simp add: prereq_rel_def)
    with c show False by (meson acyclic_def trancl.r_into_trancl)
  qed
  with sub have "graph_check g n p" if "n \<in> set (graph_nodes g)" "p \<in> set (graph_pre g n)" for n p
    using node_check [OF assms] that by metis
  with sub c show "\<exists>xs. order g = Inr xs"
    unfolding order_eq [OF assms] by (intro topological_order_complete) (auto simp: nodes_distinct assms)
qed

text \<open>The order depends on the nodes and prerequisites as sets only.\<close>

lemma order_stable:
  assumes "wf_graph g" and "wf_graph h" and "order g = Inr xs" and "order h = Inr ys"
    and "set (graph_nodes g) = set (graph_nodes h)"
    and "\<And>n. set (graph_pre g n) = set (graph_pre h n)"
  shows "xs = ys"
proof -
  have g: "greedy (set (graph_nodes g)) (graph_pre g) xs" "set xs = set (graph_nodes g)" "distinct xs"
    and h: "greedy (set (graph_nodes h)) (graph_pre h) ys" "set ys = set (graph_nodes h)" "distinct ys"
    using order_greedy assms by blast+
  have av: "available N (graph_pre g) zs = available N (graph_pre h) zs" for N zs
    by (simp add: available_def assms(6))
  have "greedy (set (graph_nodes g)) (graph_pre g) zs \<Longrightarrow> greedy (set (graph_nodes g)) (graph_pre h) zs" for zs
    by (induction rule: greedy.induct) (auto simp: av intro: greedy.intros)
  with g h assms(5) show ?thesis
    by (metis greedy_unique distinct_card)
qed

end

end
