(* ===== verification/Catalog.thy ===== *)
theory Catalog
  imports Profile Topo Impact
begin

text \<open>
  Model of \<^verbatim>\<open>core/catalog.py\<close>: capability evaluation, catalog parsing, the dependency and
  reference closure, its stable topological order and the workflow lock. A Python set is the list
  of its elements without duplicates. The recursive closure \<^verbatim>\<open>add\<close> is a loop over an explicit
  stack that holds the pending calls in the order the recursion makes them. The lemmas show that
  the closure is the least closed set of supported and enabled entries above the seeds, and that
  the order is the greedy topological order of the theory \<open>Topo\<close>.
\<close>

section \<open>Data\<close>

record catalog_entry =
  ce_entry_id :: string
  ce_kind :: string
  ce_dependencies :: "string list"
  ce_conflicts :: "string list"
  ce_references :: "string list"
  ce_platforms :: "string list"
  ce_required_capabilities :: "(string \<times> capability_level) list"
  ce_mandatory :: bool
  ce_discoverable :: bool

record catalog_closure =
  cc_ordered_ids :: "string list"
  cc_reference_ids :: "string list"
  cc_discoverable_ids :: "string list"
  cc_entries :: "(string \<times> catalog_entry) list"

record capability_result =
  cr_capability_id :: string
  cr_required :: capability_level
  cr_observed :: capability_level
  cr_platform :: string

record workflow_component =
  wc_component_id :: string
  wc_version :: string
  wc_source_sha256 :: string
  wc_content_digest :: string
  wc_provider_id :: string
  wc_acquisition_id :: string

record workflow_lock =
  wl_schema_version :: int
  wl_components :: "workflow_component list"

definition CATALOG_FIELDS :: "string list" where
  "CATALOG_FIELDS = [''schema_id'', ''schema_version'', ''entries'']"

definition ENTRY_FIELDS :: "string list" where
  "ENTRY_FIELDS = [''id'', ''kind'', ''dependencies'', ''conflicts'', ''references'', ''platforms'',
     ''required_capabilities'', ''mandatory'', ''discoverable'']"

definition MANIFEST_FIELDS :: "string list" where
  "MANIFEST_FIELDS = [''schema_id'', ''schema_version'', ''platform'', ''adapter_id'', ''adapter_version'',
     ''harness_id'', ''harness_version'', ''probe_suite_id'', ''probe_suite_version'', ''capabilities'',
     ''approval_verifiers'', ''evidence_digest'']"

definition LOCK_FIELDS :: "string list" where
  "LOCK_FIELDS = [''schema_id'', ''schema_version'', ''components'']"

definition LOCK_COMPONENT_FIELDS :: "string list" where
  "LOCK_COMPONENT_FIELDS = [''id'', ''version'', ''source_sha256'', ''content_digest'', ''provider_id'', ''acquisition_id'']"

text \<open>The regular expression \<^verbatim>\<open>^[a-z][a-z0-9-]*:[a-z0-9][a-z0-9._-]*$\<close>.\<close>

definition stable_id :: "string \<Rightarrow> bool" where
  "stable_id s = (case split_on (CHR '':'') s of
     [p, q] \<Rightarrow> p \<noteq> [] \<and> is_lower (hd p) \<and> list_all (\<lambda>c. is_lower c \<or> is_digit c \<or> c = CHR ''-'') (tl p) \<and>
       q \<noteq> [] \<and> (is_lower (hd q) \<or> is_digit (hd q)) \<and>
       list_all (\<lambda>c. is_lower c \<or> is_digit c \<or> c \<in> set ''._-'') (tl q)
   | _ \<Rightarrow> False)"

definition catalog_failure :: exn where
  "catalog_failure = CoreFailure ''AWP_CATALOG_CLOSURE_BLOCKED'' 2"

definition capability_failure :: exn where
  "capability_failure = CoreFailure ''AWP_CAPABILITY_INSUFFICIENT'' 23"

text \<open>\<^verbatim>\<open>isinstance(v, str) and _STABLE_ID.fullmatch(v)\<close>, or the catalog failure.\<close>

definition as_stable_id :: "pyval \<Rightarrow> string res" where
  "as_stable_id v = (case v of
     PStr s \<Rightarrow> if stable_id s then Inr s else Inl catalog_failure | _ \<Rightarrow> Inl catalog_failure)"

lemma as_stable_id_Inr_iff [res_simps]: "as_stable_id v = Inr s \<longleftrightarrow> v = PStr s \<and> stable_id s"
  by (cases v) (auto simp: as_stable_id_def)

section \<open>Parsing\<close>

definition catalog_string_array :: "pyval \<Rightarrow> string list res" where
  "catalog_string_array v = (case v of
     PList xs \<Rightarrow> if list_all is_pystr xs then normalize_string_set xs else Inl catalog_failure
   | _ \<Rightarrow> Inl catalog_failure)"

definition capability_mapping :: "pyval \<Rightarrow> (string \<times> capability_level) list res" where
  "capability_mapping v =
     bnd (as_mapping catalog_failure v) (\<lambda>m.
     bnd (mapr (\<lambda>(k, w). case parse_level w of Inl _ \<Rightarrow> Inl catalog_failure | Inr l \<Rightarrow> Inr (k, l)) m) (\<lambda>levels.
     Inr (sort_items levels)))"

type_synonym capability_map = "(string \<times> (string \<times> capability_level) list) list"

definition add_manifest :: "capability_map \<Rightarrow> dict \<Rightarrow> capability_map res" where
  "add_manifest result manifest =
     bnd (require (subset_strs (keys manifest) MANIFEST_FIELDS) capability_failure) (\<lambda>_.
     bnd (require (py_eq (get manifest ''schema_id'') (PStr ''agent-workflow.capability-manifest'')) capability_failure) (\<lambda>_.
     bnd (require (py_eq (get manifest ''schema_version'') (PInt 1)) capability_failure) (\<lambda>_.
     bnd (as_string capability_failure (get manifest ''platform'')) (\<lambda>platform.
     bnd (require (\<not> has_key result platform) capability_failure) (\<lambda>_.
     bnd (as_sha256 capability_failure (get manifest ''evidence_digest'')) (\<lambda>_.
     bnd (except_core capability_failure (capability_mapping (get manifest ''capabilities''))) (\<lambda>capabilities.
     Inr (AList.update platform capabilities result))))))))"

definition parse_manifests :: "dict list \<Rightarrow> capability_map res" where
  "parse_manifests manifests = foldr_res add_manifest [] manifests"

definition observed_level :: "capability_map \<Rightarrow> string \<Rightarrow> string \<Rightarrow> capability_level" where
  "observed_level by_platform platform capability_id =
     (case map_of by_platform platform of
        None \<Rightarrow> UNSUPPORTED
      | Some m \<Rightarrow> (case map_of m capability_id of None \<Rightarrow> UNSUPPORTED | Some l \<Rightarrow> l))"

definition evaluate_one ::
    "capability_map \<Rightarrow> (string \<times> capability_level) \<times> string \<Rightarrow> capability_result res" where
  "evaluate_one by_platform crp = (case crp of ((capability_id, required), platform) \<Rightarrow>
     let observed = observed_level by_platform platform capability_id in
     if rank observed < rank required then Inl capability_failure
     else Inr \<lparr>cr_capability_id = capability_id, cr_required = required, cr_observed = observed,
               cr_platform = platform\<rparr>)"

definition evaluate_capabilities :: "resolved_profile \<Rightarrow> dict list \<Rightarrow> capability_result list res" where
  "evaluate_capabilities profile manifests =
     bnd (parse_manifests manifests) (\<lambda>by_platform.
     bnd (require (\<not> (rp_required_capabilities profile \<noteq> [] \<and> rp_default_platforms profile = [])) capability_failure) (\<lambda>_.
     mapr (evaluate_one by_platform)
       (concat (map (\<lambda>cr. map (\<lambda>platform. (cr, platform)) (rp_default_platforms profile))
          (sort_items (rp_required_capabilities profile))))))"

definition parse_entry :: "(string \<times> catalog_entry) list \<Rightarrow> pyval \<Rightarrow> (string \<times> catalog_entry) list res" where
  "parse_entry entries v =
     bnd (as_mapping catalog_failure v) (\<lambda>raw.
     bnd (require (subset_strs (keys raw) ENTRY_FIELDS) catalog_failure) (\<lambda>_.
     bnd (as_stable_id (get raw ''id'')) (\<lambda>entry_id.
     bnd (case get raw ''kind'' of PStr k \<Rightarrow> if hd (split_on (CHR '':'') entry_id) = k then Inr k else Inl catalog_failure
          | _ \<Rightarrow> Inl catalog_failure) (\<lambda>kind.
     bnd (require (\<not> has_key entries entry_id) catalog_failure) (\<lambda>_.
     bnd (case (get_or raw ''mandatory'' (PBool False), get_or raw ''discoverable'' (PBool True)) of
            (PBool m, PBool d) \<Rightarrow> Inr (m, d) | _ \<Rightarrow> Inl catalog_failure) (\<lambda>(mandatory, discoverable).
     bnd (catalog_string_array (get_or raw ''dependencies'' (PList []))) (\<lambda>dependencies.
     bnd (catalog_string_array (get_or raw ''conflicts'' (PList []))) (\<lambda>conflicts.
     bnd (catalog_string_array (get_or raw ''references'' (PList []))) (\<lambda>references.
     bnd (catalog_string_array (get_or raw ''platforms'' (PList []))) (\<lambda>platforms.
     bnd (capability_mapping (get_or raw ''required_capabilities'' (PDict []))) (\<lambda>capabilities.
     Inr (AList.update entry_id
       \<lparr>ce_entry_id = entry_id, ce_kind = kind, ce_dependencies = dependencies, ce_conflicts = conflicts,
        ce_references = references, ce_platforms = platforms, ce_required_capabilities = capabilities,
        ce_mandatory = mandatory, ce_discoverable = discoverable\<rparr> entries))))))))))))"

definition parse_catalog :: "dict \<Rightarrow> (string \<times> catalog_entry) list res" where
  "parse_catalog document =
     bnd (require (subset_strs (keys document) CATALOG_FIELDS) catalog_failure) (\<lambda>_.
     bnd (require (py_eq (get document ''schema_id'') (PStr ''agent-workflow.catalog'') \<and>
                   py_eq (get document ''schema_version'') (PInt 1)) catalog_failure) (\<lambda>_.
     bnd (as_array catalog_failure (get document ''entries'')) (\<lambda>raw_entries.
     foldr_res parse_entry [] raw_entries)))"

definition entry_is_supported :: "catalog_entry \<Rightarrow> string list \<Rightarrow> capability_map \<Rightarrow> bool" where
  "entry_is_supported entry selected_platforms by_platform =
     (let candidates = filter (\<lambda>p. ce_platforms entry = [] \<or> p \<in> set (ce_platforms entry)) selected_platforms in
      if ce_platforms entry \<noteq> [] \<and> candidates = [] then False
      else if ce_required_capabilities entry = [] then True
      else list_ex (\<lambda>platform. list_all (\<lambda>(capability_id, required).
             rank required \<le> rank (observed_level by_platform platform capability_id))
             (ce_required_capabilities entry)) candidates)"

section \<open>The closure\<close>

definition entry_pre :: "(string \<times> catalog_entry) list \<Rightarrow> string \<Rightarrow> string list" where
  "entry_pre entries i = (case map_of entries i of
     None \<Rightarrow> [] | Some e \<Rightarrow> remdups (ce_dependencies e @ ce_references e))"

definition stable_topological_order ::
    "string list \<Rightarrow> (string \<times> catalog_entry) list \<Rightarrow> string list res" where
  "stable_topological_order selected entries =
     topological_order (\<lambda>i p. p \<in> set selected) catalog_failure selected (entry_pre entries)"

text \<open>The pending calls of \<^verbatim>\<open>add\<close>: an identity and whether it is reached as a reference.\<close>

type_synonym pending = "(string \<times> bool) list"

definition calls_of :: "catalog_entry \<Rightarrow> pending" where
  "calls_of e = map (\<lambda>d. (d, False)) (ce_dependencies e) @ map (\<lambda>r. (r, True)) (ce_references e)"

definition add_ref :: "bool \<Rightarrow> string \<Rightarrow> string list \<Rightarrow> string list" where
  "add_ref via i refs = (if via \<and> i \<notin> set refs then refs @ [i] else refs)"

function add_loop ::
    "(string \<Rightarrow> bool) \<Rightarrow> (catalog_entry \<Rightarrow> bool) \<Rightarrow> (string \<times> catalog_entry) list
       \<Rightarrow> string list \<Rightarrow> string list \<Rightarrow> pending \<Rightarrow> (string list \<times> string list) res" where
  "add_loop disabled supported entries selected refs [] = Inr (selected, refs)"
| "add_loop disabled supported entries selected refs ((i, via) # stack) =
     (if i \<in> set selected then add_loop disabled supported entries selected (add_ref via i refs) stack
      else if disabled i then Inl catalog_failure
      else (case map_of entries i of
          None \<Rightarrow> Inl catalog_failure
        | Some e \<Rightarrow>
            if \<not> supported e then Inl catalog_failure
            else add_loop disabled supported entries (selected @ [i]) (add_ref via i refs) (calls_of e @ stack)))"
  by pat_completeness auto
termination
proof (relation "measures [\<lambda>(_, _, entries, selected, _, _). card (set (keys entries) - set selected),
    \<lambda>(_, _, _, _, _, stack). length stack]")
  fix entries :: "(string \<times> catalog_entry) list" and selected refs :: "string list" and i via stack e
    and disabled :: "string \<Rightarrow> bool" and supported :: "catalog_entry \<Rightarrow> bool"
  assume "i \<notin> set selected" and "map_of entries i = Some e"
  then have "i \<in> set (keys entries) - set selected"
    by (auto simp: keys_def dest: map_of_SomeD intro: rev_image_eqI)
  then have "set (keys entries) - set (selected @ [i]) \<subset> set (keys entries) - set selected" by auto
  then have "card (set (keys entries) - set (selected @ [i])) < card (set (keys entries) - set selected)"
    by (simp add: psubset_card_mono)
  then show "((disabled, supported, entries, selected @ [i], add_ref via i refs, calls_of e @ stack), disabled, supported,
      entries, selected, refs, (i, via) # stack)
      \<in> measures [\<lambda>(_, _, entries, selected, _, _). card (set (keys entries) - set selected),
          \<lambda>(_, _, _, _, _, stack). length stack]"
    by simp
qed simp_all

definition closure_seeds :: "resolved_profile \<Rightarrow> (string \<times> catalog_entry) list \<Rightarrow> string list" where
  "closure_seeds profile entries = sorted_set (rp_skills_enable profile @
     map fst (filter (\<lambda>(i, e). ce_mandatory e) entries) @
     filter (has_key entries) (map (\<lambda>p. ''platform:'' @ p) (rp_default_platforms profile)))"

definition has_conflict :: "(string \<times> catalog_entry) list \<Rightarrow> string list \<Rightarrow> string \<Rightarrow> bool" where
  "has_conflict entries selected i = (case map_of entries i of
     None \<Rightarrow> False | Some e \<Rightarrow> list_ex (\<lambda>c. c \<in> set selected) (ce_conflicts e))"

definition closure_result ::
    "(string \<times> catalog_entry) list \<Rightarrow> string list \<Rightarrow> string list \<Rightarrow> string list \<Rightarrow> catalog_closure" where
  "closure_result entries selected refs ordered =
     \<lparr>cc_ordered_ids = ordered, cc_reference_ids = sort refs,
      cc_discoverable_ids = sort (filter (\<lambda>i. case map_of entries i of None \<Rightarrow> False | Some e \<Rightarrow> ce_discoverable e) selected),
      cc_entries = concat (map (\<lambda>i. case map_of entries i of None \<Rightarrow> [] | Some e \<Rightarrow> [(i, e)]) (sort selected))\<rparr>"

definition resolve_catalog_closure :: "resolved_profile \<Rightarrow> dict \<Rightarrow> dict list \<Rightarrow> catalog_closure res" where
  "resolve_catalog_closure profile catalog_document manifests =
     bnd (evaluate_capabilities profile manifests) (\<lambda>_.
     bnd (parse_manifests manifests) (\<lambda>by_platform.
     bnd (parse_catalog catalog_document) (\<lambda>entries.
     bnd (add_loop (\<lambda>i. i \<in> set (rp_skills_disable profile))
            (\<lambda>e. entry_is_supported e (rp_default_platforms profile) by_platform) entries [] []
            (map (\<lambda>i. (i, False)) (closure_seeds profile entries))) (\<lambda>(selected, refs).
     bnd (require (\<not> list_ex (has_conflict entries selected) (sort selected)) catalog_failure) (\<lambda>_.
     bnd (stable_topological_order selected entries) (\<lambda>ordered.
     Inr (closure_result entries selected refs ordered)))))))"

section \<open>The workflow lock\<close>

definition required_string :: "dict \<Rightarrow> string \<Rightarrow> string res" where
  "required_string d field = as_string catalog_failure (get d field)"

definition parse_component ::
    "(string \<times> workflow_component) list \<Rightarrow> pyval \<Rightarrow> (string \<times> workflow_component) list res" where
  "parse_component components v =
     bnd (as_mapping catalog_failure v) (\<lambda>raw.
     bnd (require (subset_strs (keys raw) LOCK_COMPONENT_FIELDS) catalog_failure) (\<lambda>_.
     bnd (as_stable_id (get raw ''id'')) (\<lambda>component_id.
     bnd (require (\<not> has_key components component_id) catalog_failure) (\<lambda>_.
     bnd (required_string raw ''version'') (\<lambda>version.
     bnd (required_string raw ''source_sha256'') (\<lambda>source_sha.
     bnd (required_string raw ''content_digest'') (\<lambda>content_digest.
     bnd (required_string raw ''provider_id'') (\<lambda>provider_id.
     bnd (required_string raw ''acquisition_id'') (\<lambda>acquisition_id.
     bnd (require (is_sha256 source_sha \<and> is_sha256 content_digest) catalog_failure) (\<lambda>_.
     Inr (AList.update component_id
       \<lparr>wc_component_id = component_id, wc_version = version, wc_source_sha256 = source_sha,
        wc_content_digest = content_digest, wc_provider_id = provider_id, wc_acquisition_id = acquisition_id\<rparr>
       components)))))))))))"

definition normalize_workflow_lock :: "dict \<Rightarrow> workflow_lock res" where
  "normalize_workflow_lock document =
     bnd (require (subset_strs (keys document) LOCK_FIELDS) catalog_failure) (\<lambda>_.
     bnd (require (py_eq (get document ''schema_id'') (PStr ''agent-workflow.workflow-lock'') \<and>
                   py_eq (get document ''schema_version'') (PInt 1)) catalog_failure) (\<lambda>_.
     bnd (as_array catalog_failure (get document ''components'')) (\<lambda>raw_components.
     bnd (foldr_res parse_component [] raw_components) (\<lambda>components.
     Inr \<lparr>wl_schema_version = 1, wl_components = map snd (sort_items components)\<rparr>))))"

section \<open>Reachable entries\<close>

inductive_set reach :: "(string \<times> catalog_entry) list \<Rightarrow> string set \<Rightarrow> string set" for entries seeds where
  reach_seed: "i \<in> seeds \<Longrightarrow> i \<in> reach entries seeds"
| reach_step: "i \<in> reach entries seeds \<Longrightarrow> j \<in> set (entry_pre entries i) \<Longrightarrow> j \<in> reach entries seeds"

text \<open>An identity that may enter the closure.\<close>

definition admissible ::
    "(string \<Rightarrow> bool) \<Rightarrow> (catalog_entry \<Rightarrow> bool) \<Rightarrow> (string \<times> catalog_entry) list \<Rightarrow> string \<Rightarrow> bool" where
  "admissible disabled supported entries i =
     (\<not> disabled i \<and> (case map_of entries i of None \<Rightarrow> False | Some e \<Rightarrow> supported e))"

definition refs_of :: "(string \<times> catalog_entry) list \<Rightarrow> string \<Rightarrow> string set" where
  "refs_of entries i = (case map_of entries i of None \<Rightarrow> {} | Some e \<Rightarrow> set (ce_references e))"

lemma calls_of_ids: "map_of entries i = Some e \<Longrightarrow> fst ` set (calls_of e) = set (entry_pre entries i)"
  by (simp add: calls_of_def entry_pre_def image_Un image_image)

definition add_inv ::
    "(string \<Rightarrow> bool) \<Rightarrow> (catalog_entry \<Rightarrow> bool) \<Rightarrow> (string \<times> catalog_entry) list \<Rightarrow> string set
       \<Rightarrow> string list \<Rightarrow> string list \<Rightarrow> pending \<Rightarrow> bool" where
  "add_inv disabled supported entries seeds selected refs stack = (
     distinct selected \<and> distinct refs \<and> list_all (admissible disabled supported entries) selected \<and>
     set selected \<union> fst ` set stack \<subseteq> reach entries seeds \<and>
     (\<forall>i \<in> set selected. set (entry_pre entries i) \<subseteq> set selected \<union> fst ` set stack) \<and>
     (\<Union>i \<in> set selected. refs_of entries i) = set refs \<union> {j. (j, True) \<in> set stack} \<and>
     seeds \<subseteq> set selected \<union> fst ` set stack)"

lemma refs_of_pre: "refs_of entries i \<subseteq> set (entry_pre entries i)"
  by (auto simp: refs_of_def entry_pre_def split: option.splits)

lemma add_inv_skip:
  assumes "add_inv disabled supported entries seeds selected refs ((i, via) # stack)" and "i \<in> set selected"
  shows "add_inv disabled supported entries seeds selected (add_ref via i refs) stack"
proof -
  have "{j. (j, True) \<in> set ((i, via) # stack)} = (if via then {i} else {}) \<union> {j. (j, True) \<in> set stack}"
    by auto
  then have "set refs \<union> {j. (j, True) \<in> set ((i, via) # stack)} = set (add_ref via i refs) \<union> {j. (j, True) \<in> set stack}"
    by (auto simp: add_ref_def)
  with assms show ?thesis unfolding add_inv_def by (auto simp: add_ref_def)
qed

lemma add_inv_take:
  assumes inv: "add_inv disabled supported entries seeds selected refs ((i, via) # stack)" and i: "i \<notin> set selected"
    and ok: "\<not> disabled i" "map_of entries i = Some e" "supported e"
  shows "add_inv disabled supported entries seeds (selected @ [i]) (add_ref via i refs) (calls_of e @ stack)"
proof -
  have ids: "fst ` set (calls_of e @ stack) = set (entry_pre entries i) \<union> fst ` set stack"
    using calls_of_ids [OF ok(2)] by (simp add: image_Un)
  have ir: "i \<in> reach entries seeds" using inv by (simp add: add_inv_def)
  then have "set (entry_pre entries i) \<subseteq> reach entries seeds" by (auto intro: reach_step)
  moreover have "{j. (j, True) \<in> set (calls_of e @ stack)} = refs_of entries i \<union> {j. (j, True) \<in> set stack}"
    using ok(2) by (auto simp: calls_of_def refs_of_def)
  moreover have "{j. (j, True) \<in> set ((i, via) # stack)} = (if via then {i} else {}) \<union> {j. (j, True) \<in> set stack}"
    by auto
  moreover have "set (add_ref via i refs) = set refs \<union> (if via then {i} else {})"
    by (auto simp: add_ref_def)
  moreover have "distinct refs \<Longrightarrow> distinct (add_ref via i refs)"
    by (simp add: add_ref_def)
  moreover have "admissible disabled supported entries i"
    using ok by (simp add: admissible_def)
  ultimately show ?thesis
    using inv i ir unfolding add_inv_def ids
    by (intro conjI) (simp_all, blast+)
qed

lemma add_loop_correct:
  assumes "add_inv disabled supported entries seeds selected refs stack"
  shows "case add_loop disabled supported entries selected refs stack of
      Inr (selected', refs') \<Rightarrow> add_inv disabled supported entries seeds selected' refs' []
    | Inl x \<Rightarrow> x = catalog_failure \<and> (\<exists>i \<in> reach entries seeds. \<not> admissible disabled supported entries i)"
  using assms
proof (induction disabled supported entries selected refs stack rule: add_loop.induct)
  case (1 disabled supported entries selected refs)
  then show ?case by simp
next
  case (2 disabled supported entries selected refs i via stack)
  have ir: "i \<in> reach entries seeds" using "2.prems" by (simp add: add_inv_def)
  consider (skip) "i \<in> set selected" | (bad) "i \<notin> set selected" "\<not> admissible disabled supported entries i"
    | (take) e where "i \<notin> set selected" "\<not> disabled i" "map_of entries i = Some e" "supported e"
    by (cases "map_of entries i") (auto simp: admissible_def)
  then show ?case
  proof cases
    case skip
    with "2.IH"(1) [OF skip add_inv_skip [OF "2.prems" skip]] show ?thesis by simp
  next
    case bad
    then have "add_loop disabled supported entries selected refs ((i, via) # stack) = Inl catalog_failure"
      by (auto simp: admissible_def split: option.splits)
    with bad ir show ?thesis by auto
  next
    case take
    with "2.IH"(2) [OF take(1,2,3) _ add_inv_take [OF "2.prems" take]] show ?thesis by simp
  qed
qed

lemma add_inv_start: "add_inv disabled supported entries (set seeds) [] [] (map (\<lambda>i. (i, False)) seeds)"
  by (force simp: add_inv_def intro: reach_seed)

lemma add_inv_end:
  assumes "add_inv disabled supported entries seeds selected refs []"
  shows "set selected = reach entries seeds" "distinct selected" "distinct refs"
    "list_all (admissible disabled supported entries) selected"
    "set refs = (\<Union>i \<in> reach entries seeds. refs_of entries i)"
proof -
  have "i \<in> set selected" if "i \<in> reach entries seeds" for i
    using that assms by induction (auto simp: add_inv_def)
  then show eq: "set selected = reach entries seeds"
    using assms by (auto simp: add_inv_def)
  show "distinct selected" "distinct refs" "list_all (admissible disabled supported entries) selected"
    "set refs = (\<Union>i \<in> reach entries seeds. refs_of entries i)"
    using assms eq by (auto simp: add_inv_def)
qed

lemma add_loop_iff:
  "(\<exists>r. add_loop disabled supported entries [] [] (map (\<lambda>i. (i, False)) seeds) = Inr r) \<longleftrightarrow>
     (\<forall>i \<in> reach entries (set seeds). admissible disabled supported entries i)"
proof (cases "add_loop disabled supported entries [] [] (map (\<lambda>i. (i, False)) seeds)")
  case (Inl e)
  then show ?thesis
    using add_loop_correct [OF add_inv_start [of disabled supported entries seeds]] by auto
next
  case (Inr r)
  then obtain s f where r: "add_loop disabled supported entries [] [] (map (\<lambda>i. (i, False)) seeds) = Inr (s, f)"
    by (cases r) auto
  then have "add_inv disabled supported entries (set seeds) s f []"
    using add_loop_correct [OF add_inv_start [of disabled supported entries seeds]] by simp
  from add_inv_end [OF this] r show ?thesis by (auto simp: list_all_iff)
qed

section \<open>The order of the closure\<close>

interpretation catalog_graph: prereq_graph "\<lambda>g :: string list \<times> (string \<times> catalog_entry) list. distinct (fst g)" fst
  "\<lambda>g. entry_pre (snd g)" "\<lambda>g i p. p \<in> set (fst g)" catalog_failure "\<lambda>g. stable_topological_order (fst g) (snd g)"
  by unfold_locales (auto simp: stable_topological_order_def)


text \<open>The admission test of a closure, for a profile and the parsed manifests.\<close>

definition profile_admits ::
    "resolved_profile \<Rightarrow> capability_map \<Rightarrow> (string \<times> catalog_entry) list \<Rightarrow> string \<Rightarrow> bool" where
  "profile_admits profile by_platform entries = admissible (\<lambda>i. i \<in> set (rp_skills_disable profile))
     (\<lambda>e. entry_is_supported e (rp_default_platforms profile) by_platform) entries"

abbreviation closure_set :: "resolved_profile \<Rightarrow> (string \<times> catalog_entry) list \<Rightarrow> string set" where
  "closure_set profile entries \<equiv> reach entries (set (closure_seeds profile entries))"

definition conflict_free :: "(string \<times> catalog_entry) list \<Rightarrow> string set \<Rightarrow> bool" where
  "conflict_free entries S = (\<forall>i \<in> S. case map_of entries i of None \<Rightarrow> True | Some e \<Rightarrow> set (ce_conflicts e) \<inter> S = {})"

lemma resolve_catalog_closureE:
  assumes "resolve_catalog_closure profile doc manifests = Inr c"
  obtains results by_platform entries selected refs ordered where
    "evaluate_capabilities profile manifests = Inr results" "parse_manifests manifests = Inr by_platform"
    "parse_catalog doc = Inr entries" "set selected = closure_set profile entries" "distinct selected"
    "\<forall>i \<in> closure_set profile entries. profile_admits profile by_platform entries i"
    "distinct refs" "set refs = (\<Union>i \<in> closure_set profile entries. refs_of entries i)"
    "conflict_free entries (closure_set profile entries)"
    "stable_topological_order selected entries = Inr ordered"
    "c = closure_result entries selected refs ordered"
proof -
  obtain results by_platform entries selected refs ordered where *:
    "evaluate_capabilities profile manifests = Inr results" "parse_manifests manifests = Inr by_platform"
    "parse_catalog doc = Inr entries"
    "add_loop (\<lambda>i. i \<in> set (rp_skills_disable profile))
       (\<lambda>e. entry_is_supported e (rp_default_platforms profile) by_platform) entries [] []
       (map (\<lambda>i. (i, False)) (closure_seeds profile entries)) = Inr (selected, refs)"
    "\<not> list_ex (has_conflict entries selected) (sort selected)"
    "stable_topological_order selected entries = Inr ordered" "c = closure_result entries selected refs ordered"
    using assms unfolding resolve_catalog_closure_def
    by (auto simp only: res_simps split_paired_Ex prod.case sum.inject simp_thms)
  have inv: "add_inv (\<lambda>i. i \<in> set (rp_skills_disable profile))
       (\<lambda>e. entry_is_supported e (rp_default_platforms profile) by_platform) entries
       (set (closure_seeds profile entries)) selected refs []"
    using add_loop_correct [OF add_inv_start [of "\<lambda>i. i \<in> set (rp_skills_disable profile)"
        "\<lambda>e. entry_is_supported e (rp_default_platforms profile) by_platform" entries "closure_seeds profile entries"]] *(4)
    by simp
  note fin = add_inv_end [OF inv]
  have adm: "\<forall>i \<in> closure_set profile entries. profile_admits profile by_platform entries i"
    using fin(1,4) by (auto simp: list_all_iff profile_admits_def)
  have con: "conflict_free entries (closure_set profile entries)"
    unfolding fin(1) [symmetric]
    using *(5) by (fastforce simp: conflict_free_def has_conflict_def list_ex_iff split: option.splits)
  show thesis
    by (rule that [OF *(1-3) fin(1,2) adm fin(3,5) con *(6,7)])
qed

text \<open>
  C24: A resolved closure consists exactly of the entries reachable from the seeds (enabled skills,
  mandatory entries, selected platforms) along dependencies and references: it is closed, contains
  nothing unneeded, every entry of it exists, is supported by a selected platform and is not disabled,
  no two of its entries conflict, and its reference ids are the entries some member refers to.
\<close>

theorem catalog_closure_sound:
  assumes "resolve_catalog_closure profile doc manifests = Inr c"
    and "parse_catalog doc = Inr entries" and "parse_manifests manifests = Inr by_platform"
  shows "set (cc_ordered_ids c) = closure_set profile entries \<and>
    (\<forall>i. i \<in> closure_set profile entries \<longrightarrow> profile_admits profile by_platform entries i) \<and>
    conflict_free entries (closure_set profile entries) \<and>
    set (cc_reference_ids c) = (\<Union>i \<in> closure_set profile entries. refs_of entries i)"
proof -
  obtain selected refs ordered where sel: "set selected = closure_set profile entries" "distinct selected"
    and adm: "\<forall>i \<in> closure_set profile entries. profile_admits profile by_platform entries i"
    and refs: "set refs = (\<Union>i \<in> closure_set profile entries. refs_of entries i)"
    and con: "conflict_free entries (closure_set profile entries)"
    and ord: "stable_topological_order selected entries = Inr ordered"
    and c: "c = closure_result entries selected refs ordered"
    using assms by (elim resolve_catalog_closureE) auto
  have "set ordered = set selected"
    using catalog_graph.order_greedy [of "(selected, entries)" ordered] sel ord by simp
  then show ?thesis
    using sel adm refs con by (simp add: c closure_result_def)
qed

text \<open>
  The order of a resolved closure lists every entry once and after everything it depends on or
  refers to, and it is the greedy order that always takes the least available identity next, so that
  it is determined by the catalog alone.
\<close>

theorem catalog_order_topological:
  assumes "resolve_catalog_closure profile doc manifests = Inr c" and "parse_catalog doc = Inr entries"
  shows "distinct (cc_ordered_ids c) \<and> greedy (closure_set profile entries) (entry_pre entries) (cc_ordered_ids c) \<and>
    (\<forall>before i after. cc_ordered_ids c = before @ i # after \<longrightarrow> set (entry_pre entries i) \<subseteq> set before)"
proof -
  obtain selected refs ordered where sel: "set selected = closure_set profile entries" "distinct selected"
    and ord: "stable_topological_order selected entries = Inr ordered"
    and c: "c = closure_result entries selected refs ordered"
    using assms by (elim resolve_catalog_closureE) auto
  have g: "greedy (set selected) (entry_pre entries) ordered" "distinct ordered"
    using catalog_graph.order_greedy [of "(selected, entries)" ordered] sel ord by auto
  have "set (entry_pre entries i) \<subseteq> set before" if "ordered = before @ i # after" for before i after
    using catalog_graph.order_before [of "(selected, entries)" ordered before i after] sel ord that by simp
  with g sel show ?thesis by (simp add: c closure_result_def)
qed

text \<open>
  C23: Resolution succeeds exactly when it should: given that the capability minima are met and the
  catalog and the manifests parse, a closure is returned if and only if every reachable entry is
  admitted, no reachable entries conflict, and dependencies and references have no cycle.
\<close>

theorem catalog_closure_succeeds_iff:
  assumes "evaluate_capabilities profile manifests = Inr results"
    and "parse_catalog doc = Inr entries" and "parse_manifests manifests = Inr by_platform"
  shows "(\<exists>c. resolve_catalog_closure profile doc manifests = Inr c) \<longleftrightarrow>
    list_all (profile_admits profile by_platform entries) (sorted_list_of_set (closure_set profile entries)) \<and>
    finite (closure_set profile entries) \<and> conflict_free entries (closure_set profile entries) \<and>
    acyclic (prereq_rel (closure_set profile entries) (entry_pre entries))"
proof
  assume "\<exists>c. resolve_catalog_closure profile doc manifests = Inr c"
  then obtain c where "resolve_catalog_closure profile doc manifests = Inr c" by blast
  then obtain selected refs ordered where sel: "set selected = closure_set profile entries" "distinct selected"
    and adm: "\<forall>i \<in> closure_set profile entries. profile_admits profile by_platform entries i"
    and con: "conflict_free entries (closure_set profile entries)"
    and ord: "stable_topological_order selected entries = Inr ordered"
    using assms by (elim resolve_catalog_closureE) auto
  have fin: "finite (closure_set profile entries)" by (metis sel(1) List.finite_set)
  moreover have "acyclic (prereq_rel (closure_set profile entries) (entry_pre entries))"
    using catalog_graph.order_acyclic [of "(selected, entries)" ordered] sel ord by simp
  ultimately show "list_all (profile_admits profile by_platform entries) (sorted_list_of_set (closure_set profile entries)) \<and>
    finite (closure_set profile entries) \<and> conflict_free entries (closure_set profile entries) \<and>
    acyclic (prereq_rel (closure_set profile entries) (entry_pre entries))"
    using adm con by (simp add: list_all_iff)
next
  assume r: "list_all (profile_admits profile by_platform entries) (sorted_list_of_set (closure_set profile entries)) \<and>
    finite (closure_set profile entries) \<and> conflict_free entries (closure_set profile entries) \<and>
    acyclic (prereq_rel (closure_set profile entries) (entry_pre entries))"
  let ?dis = "\<lambda>i. i \<in> set (rp_skills_disable profile)"
  let ?sup = "\<lambda>e. entry_is_supported e (rp_default_platforms profile) by_platform"
  have "\<forall>i \<in> closure_set profile entries. admissible ?dis ?sup entries i"
    using r by (simp add: list_all_iff profile_admits_def)
  then obtain selected refs where loop: "add_loop ?dis ?sup entries [] []
      (map (\<lambda>i. (i, False)) (closure_seeds profile entries)) = Inr (selected, refs)"
    using add_loop_iff [of ?dis ?sup entries "closure_seeds profile entries"] by auto
  then have "add_inv ?dis ?sup entries (set (closure_seeds profile entries)) selected refs []"
    using add_loop_correct [OF add_inv_start [of ?dis ?sup entries "closure_seeds profile entries"]] by simp
  note sel = add_inv_end [OF this]
  have "\<not> list_ex (has_conflict entries selected) (sort selected)"
    using r unfolding conflict_free_def sel(1) [symmetric]
    by (fastforce simp: has_conflict_def list_ex_iff split: option.splits)
  moreover have "\<exists>ordered. stable_topological_order selected entries = Inr ordered"
  proof -
    have "catalog_graph.closed_graph (selected, entries)"
      using sel(1) by (auto simp: catalog_graph.closed_graph_def intro: reach_step)
    with r sel show ?thesis
      using catalog_graph.order_exists_iff [of "(selected, entries)"] by simp
  qed
  ultimately show "\<exists>c. resolve_catalog_closure profile doc manifests = Inr c"
    by (auto simp: resolve_catalog_closure_def assms loop require_def)
qed

section \<open>Capabilities and the workflow lock\<close>

text \<open>
  Capability evaluation accepts a profile exactly when the manifests parse, some platform is
  selected if anything is required, and on every selected platform every required capability is
  observed at its minimum level or above.
\<close>

theorem capabilities_met_iff:
  "is_ok (evaluate_capabilities profile manifests) \<longleftrightarrow>
     (\<exists>by_platform. parse_manifests manifests = Inr by_platform \<and>
       (rp_required_capabilities profile = [] \<or> rp_default_platforms profile \<noteq> []) \<and>
       list_all (\<lambda>(capability, required). list_all (\<lambda>platform.
         required \<le> observed_level by_platform platform capability) (rp_default_platforms profile))
         (rp_required_capabilities profile))"
proof -
  have one: "(\<exists>r. evaluate_one bp ((c, l), p) = Inr r) \<longleftrightarrow> l \<le> observed_level bp p c" for bp c l p
    by (auto simp: evaluate_one_def Let_def less_eq_capability_level_def)
  have all: "is_ok (mapr f xs) \<longleftrightarrow> (\<forall>x \<in> set xs. \<exists>y. f x = Inr y)" for f :: "'x \<Rightarrow> 'y res" and xs
    by (induction xs) (auto simp: is_ok_iff res_simps)
  have "is_ok (mapr (evaluate_one bp) (concat (map (\<lambda>cr. map (\<lambda>platform. (cr, platform)) (rp_default_platforms profile))
      (sort_items (rp_required_capabilities profile))))) \<longleftrightarrow>
      list_all (\<lambda>(capability, required). list_all (\<lambda>platform.
         required \<le> observed_level bp platform capability) (rp_default_platforms profile))
         (rp_required_capabilities profile)" for bp
    unfolding all by (auto simp: list_all_iff one)
  then show ?thesis
    by (auto simp: evaluate_capabilities_def is_ok_iff res_simps)
qed

lemma parse_component_inv:
  assumes "parse_component cs v = Inr cs'"
    and "distinct (keys cs) \<and> list_all (\<lambda>(i, c). wc_component_id c = i \<and> stable_id i \<and>
      is_sha256 (wc_source_sha256 c) \<and> is_sha256 (wc_content_digest c)) cs"
  shows "distinct (keys cs') \<and> list_all (\<lambda>(i, c). wc_component_id c = i \<and> stable_id i \<and>
      is_sha256 (wc_source_sha256 c) \<and> is_sha256 (wc_content_digest c)) cs'"
proof -
  obtain i c where i: "i \<notin> set (keys cs)" "cs' = AList.update i c cs" "wc_component_id c = i" "stable_id i"
    "is_sha256 (wc_source_sha256 c)" "is_sha256 (wc_content_digest c)"
    using assms(1) unfolding parse_component_def
    by (auto simp: res_simps has_key_def keys_def)
  have cs': "cs' = cs @ [(i, c)]" using i by (simp add: update_new)
  show ?thesis unfolding cs' using assms(2) i by (auto simp: keys_def)
qed

text \<open>
  A normalised workflow lock lists its components in ascending order of identity, each identity
  once, and every component has a stable identity and two lowercase SHA-256 hashes.
\<close>

theorem workflow_lock_normal:
  assumes "normalize_workflow_lock doc = Inr lock"
  shows "sorted (map wc_component_id (wl_components lock)) \<and> distinct (map wc_component_id (wl_components lock)) \<and>
    list_all (\<lambda>c. stable_id (wc_component_id c) \<and> is_sha256 (wc_source_sha256 c) \<and> is_sha256 (wc_content_digest c))
      (wl_components lock)"
proof -
  obtain raws cs where fold: "foldr_res parse_component [] raws = Inr cs" and lock: "wl_components lock = map snd (sort_items cs)"
    using assms by (auto simp: normalize_workflow_lock_def res_simps)
  have inv: "distinct (keys cs) \<and> list_all (\<lambda>(i, c). wc_component_id c = i \<and> stable_id i \<and>
      is_sha256 (wc_source_sha256 c) \<and> is_sha256 (wc_content_digest c)) cs"
    using fold by (rule foldr_res_inv) (simp add: keys_def, rule parse_component_inv)
  have "map wc_component_id (map snd (sort_items cs)) = keys (sort_items cs)"
    using inv unfolding keys_def map_map list_all_iff by (intro map_cong) auto
  moreover have "list_all (\<lambda>c. stable_id (wc_component_id c) \<and> is_sha256 (wc_source_sha256 c) \<and> is_sha256 (wc_content_digest c))
      (map snd (sort_items cs))"
    using inv by (auto simp: list_all_iff)
  ultimately show ?thesis
    using inv by (simp add: lock keys_sort_items)
qed


section \<open>Witnesses\<close>

definition sample_entry :: "string \<Rightarrow> pyval list \<Rightarrow> pyval" where
  "sample_entry i deps = PDict [(''id'', PStr i), (''kind'', PStr ''skill''), (''dependencies'', PList deps)]"

definition sample_catalog :: dict where
  "sample_catalog = [(''schema_id'', PStr ''agent-workflow.catalog''), (''schema_version'', PInt 1),
     (''entries'', PList [sample_entry ''skill:a'' [PStr ''skill:b''], sample_entry ''skill:b'' []])]"

definition sample_catalog_entry :: "string \<Rightarrow> string list \<Rightarrow> catalog_entry" where
  "sample_catalog_entry i deps = \<lparr>ce_entry_id = i, ce_kind = ''skill'', ce_dependencies = deps, ce_conflicts = [],
     ce_references = [], ce_platforms = [], ce_required_capabilities = [], ce_mandatory = False, ce_discoverable = True\<rparr>"

definition sample_profile :: resolved_profile where
  "sample_profile = \<lparr>rp_schema_version = 1, rp_profile_id = ''p'', rp_route_admission = [], rp_bindings = [],
     rp_skills_enable = [''skill:a''], rp_skills_disable = [], rp_artifact_policy = ''default'',
     rp_default_platforms = [], rp_required_capabilities = [], rp_approval_policy = [],
     rp_provider_security_policy = []\<rparr>"

definition sample_entries :: "(string \<times> catalog_entry) list" where
  "sample_entries = [(''skill:a'', sample_catalog_entry ''skill:a'' [''skill:b'']), (''skill:b'', sample_catalog_entry ''skill:b'' [])]"

lemma sample_catalog_ok: "parse_catalog sample_catalog = Inr sample_entries"
proof -
  have ids: "stable_id ''skill:a''" "stable_id ''skill:b''"
    by (simp_all add: stable_id_def is_lower_def is_digit_def)
  have arr: "catalog_string_array (PList []) = Inr []" "catalog_string_array (PList [PStr x]) = Inr [x]" for x
    by (simp_all add: catalog_string_array_def normalize_string_set_def)
  have caps: "capability_mapping (PDict []) = Inr []"
    by (simp add: capability_mapping_def as_mapping_def sort_items_def)
  have a: "parse_entry [] (sample_entry ''skill:a'' [PStr ''skill:b'']) = Inr [(''skill:a'', sample_catalog_entry ''skill:a'' [''skill:b''])]"
    by (simp add: parse_entry_def sample_entry_def as_mapping_def require_def subset_strs_def keys_def ENTRY_FIELDS_def
        get_def get_or_def as_stable_id_def ids has_key_def arr caps sample_catalog_entry_def)
  have b: "parse_entry [(''skill:a'', sample_catalog_entry ''skill:a'' [''skill:b''])] (sample_entry ''skill:b'' []) = Inr sample_entries"
    by (simp add: parse_entry_def sample_entry_def as_mapping_def require_def subset_strs_def keys_def ENTRY_FIELDS_def
        get_def get_or_def as_stable_id_def ids has_key_def arr caps sample_catalog_entry_def sample_entries_def)
  show ?thesis
    by (simp add: parse_catalog_def sample_catalog_def require_def subset_strs_def keys_def CATALOG_FIELDS_def get_def
        as_array_def a b)
qed

lemma sample_closure_ok: "\<exists>c. resolve_catalog_closure sample_profile sample_catalog [] = Inr c"
proof -
  have "closure_seeds sample_profile sample_entries = [''skill:a'']"
    by (simp add: closure_seeds_def sample_profile_def sample_entries_def sample_catalog_entry_def sorted_set_def)
  moreover have "stable_topological_order [''skill:a'', ''skill:b''] sample_entries = Inr [''skill:b'', ''skill:a'']"
    by (simp add: stable_topological_order_def topological_order_def build_graph_def edges_of_def entry_pre_def
        sample_entries_def sample_catalog_entry_def require_def init_graph_def add_edge_def cons_of_def deg_of_def relax_def Let_def)
  ultimately show ?thesis
    by (simp add: resolve_catalog_closure_def evaluate_capabilities_def parse_manifests_def sample_catalog_ok require_def)
      (simp add: sample_profile_def sort_items_def entry_is_supported_def Let_def sample_entries_def calls_of_def
        sample_catalog_entry_def has_conflict_def)
qed

lemma sample_capabilities: "evaluate_capabilities sample_profile [] = Inr []" "parse_manifests [] = Inr []"
  by (simp_all add: evaluate_capabilities_def parse_manifests_def require_def sample_profile_def sort_items_def)

theorem catalog_closure_sound_witness:
  "\<exists>c. resolve_catalog_closure sample_profile sample_catalog [] = Inr c \<and>
     set (cc_ordered_ids c) = closure_set sample_profile sample_entries"
  using sample_closure_ok catalog_closure_sound [OF _ sample_catalog_ok sample_capabilities(2)] by blast

theorem catalog_order_topological_witness:
  "\<exists>c. resolve_catalog_closure sample_profile sample_catalog [] = Inr c \<and> distinct (cc_ordered_ids c)"
  using sample_closure_ok catalog_order_topological [OF _ sample_catalog_ok] by blast

theorem catalog_closure_succeeds_iff_witness:
  "acyclic (prereq_rel (closure_set sample_profile sample_entries) (entry_pre sample_entries))"
  using catalog_closure_succeeds_iff [OF sample_capabilities(1) sample_catalog_ok sample_capabilities(2)] sample_closure_ok
  by blast

theorem capabilities_met_iff_witness:
  "is_ok (evaluate_capabilities sample_profile [])"
  using capabilities_met_iff [of sample_profile "[]"] sample_capabilities(2) by (simp add: sample_profile_def)

definition sample_lock :: dict where
  "sample_lock = [(''schema_id'', PStr ''agent-workflow.workflow-lock''), (''schema_version'', PInt 1),
     (''components'', PList [PDict [(''id'', PStr ''skill:a''), (''version'', PStr ''1''), (''source_sha256'', PStr (sha_of (CHR ''a''))),
        (''content_digest'', PStr (sha_of (CHR ''b''))), (''provider_id'', PStr ''p''), (''acquisition_id'', PStr ''q'')]])]"

theorem workflow_lock_normal_witness:
  "\<exists>lock. normalize_workflow_lock sample_lock = Inr lock \<and> length (wl_components lock) = 1 \<and>
     distinct (map wc_component_id (wl_components lock))"
proof -
  have id: "stable_id ''skill:a''"
    by (simp add: stable_id_def is_lower_def is_digit_def)
  have shas: "is_sha256 (sha_of (CHR ''a''))" "is_sha256 (sha_of (CHR ''b''))" "sha_of c \<noteq> []" for c
    by (simp_all add: is_sha256_sha_of is_hex_def is_digit_def) (simp add: sha_of_def)
  have "\<exists>lock. normalize_workflow_lock sample_lock = Inr lock \<and> length (wl_components lock) = 1"
    by (simp add: normalize_workflow_lock_def sample_lock_def require_def subset_strs_def keys_def LOCK_FIELDS_def get_def
        as_array_def parse_component_def as_mapping_def LOCK_COMPONENT_FIELDS_def as_stable_id_def id has_key_def
        required_string_def as_string_def shas sort_items_def)
  then show ?thesis using workflow_lock_normal by blast
qed

end
