(* ===== verification/Surfaces.thy ===== *)
theory Surfaces
  imports Topo Impact
begin

text \<open>
  Model of \<^verbatim>\<open>core/surfaces.py\<close>: the runtime-surface registry and unit inventory, their
  ownership and reference graph, the evidence about units, and the surface digests, which form a
  Merkle graph over it. A dictionary is an association list in insertion order; the mappings of a
  verified registry are sorted. The lemmas show that ownership is a partition of the units, that
  every task-loadable surface reaches the two mandatory surfaces, and that a surface digest
  changes exactly when a leaf in its reference closure does, hash collisions apart.
\<close>

section \<open>Data\<close>

definition REGISTRY_FIELDS :: "string list" where
  "REGISTRY_FIELDS = [''schema_id'', ''schema_version'', ''surfaces'']"

definition SURFACE_FIELDS :: "string list" where
  "SURFACE_FIELDS = [''surface_id'', ''surface_kind'', ''descriptor_version'', ''digest_recipe_id'',
     ''owned_unit_ids'', ''references'', ''contract_change_class'']"

definition INVENTORY_FIELDS :: "string list" where
  "INVENTORY_FIELDS = [''schema_id'', ''schema_version'', ''units'']"

definition UNIT_FIELDS :: "string list" where
  "UNIT_FIELDS = [''unit_id'', ''unit_kind'', ''distribution_scope'', ''normalized_path'', ''owning_surface_id'',
     ''leaf_recipe_id'', ''runtime_visible'']"

definition EVIDENCE_FIELDS :: "string list" where
  "EVIDENCE_FIELDS = [''unit_id'', ''byte_hash'', ''mode'', ''contract_digest'', ''distributions'']"

definition TASK_LOADABLE_KINDS :: "string list" where
  "TASK_LOADABLE_KINDS = [''trellis-runtime'', ''router'', ''platform-adapter'', ''hook'', ''agent'', ''skill'',
     ''runtime-entry'']"

definition EXPECTED_DISTRIBUTIONS :: "(string \<times> string list) list" where
  "EXPECTED_DISTRIBUTIONS = [(''runtime-package'', [''git-checkout'', ''sdist'', ''wheel'']),
     (''rendered-project'', [''rendered-project''])]"

text \<open>The regular expressions \<^verbatim>\<open>^[a-z][a-z0-9-]*:[a-z0-9][a-z0-9._:/-]*$\<close> and \<^verbatim>\<open>^[a-z0-9][a-z0-9._-]*$\<close>.\<close>

definition unit_id_format :: "string \<Rightarrow> bool" where
  "unit_id_format s = (let p = takeWhile (\<lambda>c. c \<noteq> CHR '':'') s; q = drop (Suc (length p)) s in
     p \<noteq> [] \<and> is_lower (hd p) \<and> list_all (\<lambda>c. is_lower c \<or> is_digit c \<or> c = CHR ''-'') (tl p) \<and>
     q \<noteq> [] \<and> (is_lower (hd q) \<or> is_digit (hd q)) \<and>
     list_all (\<lambda>c. is_lower c \<or> is_digit c \<or> c \<in> set ''._:/-'') (tl q))"

definition surface_suffix :: "string \<Rightarrow> bool" where
  "surface_suffix q = (q \<noteq> [] \<and> (is_lower (hd q) \<or> is_digit (hd q)) \<and>
     list_all (\<lambda>c. is_lower c \<or> is_digit c \<or> c \<in> set ''._-'') (tl q))"

record surface_descriptor =
  sd_surface_id :: string
  sd_surface_kind :: string
  sd_descriptor_version :: int
  sd_digest_recipe_id :: string
  sd_owned_unit_ids :: "string list"
  sd_references :: "string list"
  sd_contract_change_class :: string

record runtime_unit =
  ru_unit_id :: string
  ru_unit_kind :: string
  ru_distribution_scope :: string
  ru_normalized_path :: string
  ru_owning_surface_id :: string
  ru_leaf_recipe_id :: string

type_synonym surfaces = "(string \<times> surface_descriptor) list"
type_synonym units = "(string \<times> runtime_unit) list"

record surface_registry =
  sr_surfaces :: surfaces
  sr_units :: units
  sr_topological_surface_ids :: "string list"
  sr_registry_digest :: string

record unit_evidence =
  ue_unit_id :: string
  ue_byte_hash :: string
  ue_mode :: string
  ue_contract_digest :: string
  ue_distributions :: "string list"
  ue_leaf_digest :: string

record coverage_proof =
  cp_covered_unit_ids :: "string list"
  cp_surface_ids :: "string list"
  cp_registry_digest :: string
  cp_proof_digest :: string

definition surface_failure :: exn where
  "surface_failure = CoreFailure ''AWP_SURFACE_GRAPH_INVALID'' 2"

definition coverage_failure :: exn where
  "coverage_failure = CoreFailure ''AWP_SURFACE_COVERAGE_INVALID'' 2"

section \<open>Parsing\<close>

definition surface_string_set :: "pyval \<Rightarrow> string list res" where
  "surface_string_set v = (case v of
     PList xs \<Rightarrow> if \<not> list_all is_pystr xs then Inl surface_failure
       else (let normalized = sorted_set (strs_of xs) in
         if length normalized \<noteq> length xs then Inl surface_failure else Inr normalized)
   | _ \<Rightarrow> Inl surface_failure)"

definition surface_kind :: "string \<Rightarrow> string option" where
  "surface_kind surface_id =
     (if surface_id \<in> set [''runtime-control-plane'', ''surface-registry'', ''trellis-runtime'', ''trellis-layout'',
           ''route-policy''] then Some surface_id
      else (let parts = split_on (CHR '':'') surface_id in
        case map_of [(''router'', 2 :: nat), (''platform-adapter'', 2), (''hook'', 3), (''agent'', 3), (''skill'', 2),
            (''runtime-entry'', 2)] (hd parts) of
          None \<Rightarrow> None
        | Some expected_parts \<Rightarrow>
            if length parts \<noteq> expected_parts then None
            else if \<not> list_all surface_suffix (tl parts) then None
            else Some (hd parts)))"

definition parse_surface :: "surfaces \<Rightarrow> pyval \<Rightarrow> surfaces res" where
  "parse_surface surfaces v =
     bnd (as_mapping surface_failure v) (\<lambda>raw.
     bnd (require (same_strs (keys raw) SURFACE_FIELDS) surface_failure) (\<lambda>_.
     bnd (case (get raw ''surface_id'', get raw ''surface_kind'') of
            (PStr i, PStr k) \<Rightarrow> Inr (i, k) | _ \<Rightarrow> Inl surface_failure) (\<lambda>(surface_id, kind).
     bnd (require (surface_kind surface_id = Some kind) surface_failure) (\<lambda>_.
     bnd (require (\<not> has_key surfaces surface_id) surface_failure) (\<lambda>_.
     bnd (require (py_eq (get raw ''descriptor_version'') (PInt 1)) surface_failure) (\<lambda>_.
     bnd (require (py_eq (get raw ''digest_recipe_id'') (PStr ''surface-content-v1'')) surface_failure) (\<lambda>_.
     bnd (require (py_eq (get raw ''contract_change_class'') (PStr ''runtime-visible'')) surface_failure) (\<lambda>_.
     bnd (surface_string_set (get raw ''owned_unit_ids'')) (\<lambda>owned_units.
     bnd (surface_string_set (get raw ''references'')) (\<lambda>references.
     bnd (require (owned_units \<noteq> []) coverage_failure) (\<lambda>_.
     Inr (AList.update surface_id
       \<lparr>sd_surface_id = surface_id, sd_surface_kind = kind, sd_descriptor_version = 1,
        sd_digest_recipe_id = ''surface-content-v1'', sd_owned_unit_ids = owned_units, sd_references = references,
        sd_contract_change_class = ''runtime-visible''\<rparr> surfaces))))))))))))"

definition parse_surfaces :: "dict \<Rightarrow> surfaces res" where
  "parse_surfaces document =
     bnd (require (same_strs (keys document) REGISTRY_FIELDS) surface_failure) (\<lambda>_.
     bnd (require (py_eq (get document ''schema_id'') (PStr ''agent-workflow.runtime-surface-registry'') \<and>
                   py_eq (get document ''schema_version'') (PInt 1)) surface_failure) (\<lambda>_.
     bnd (as_array surface_failure (get document ''surfaces'')) (\<lambda>raws.
     bnd (foldr_res parse_surface [] raws) (\<lambda>surfaces.
     bnd (require (list_all (has_key surfaces) [''runtime-control-plane'', ''surface-registry'']) surface_failure) (\<lambda>_.
     Inr surfaces)))))"

definition as_unit_id :: "pyval \<Rightarrow> string res" where
  "as_unit_id v = (case v of PStr s \<Rightarrow> if unit_id_format s then Inr s else Inl coverage_failure
     | _ \<Rightarrow> Inl coverage_failure)"

text \<open>The state of the loop over the units: the units and the case-folded paths seen.\<close>

definition parse_unit :: "units \<times> (string \<times> string) list \<Rightarrow> pyval \<Rightarrow> (units \<times> (string \<times> string) list) res" where
  "parse_unit st v = (case st of (units, paths) \<Rightarrow>
     bnd (as_mapping coverage_failure v) (\<lambda>raw.
     bnd (require (same_strs (keys raw) UNIT_FIELDS) coverage_failure) (\<lambda>_.
     bnd (as_unit_id (get raw ''unit_id'')) (\<lambda>unit_id.
     bnd (as_str coverage_failure (get raw ''unit_kind'')) (\<lambda>unit_kind.
     bnd (require (hd (split_on (CHR '':'') unit_id) = unit_kind) coverage_failure) (\<lambda>_.
     bnd (as_str coverage_failure (get raw ''owning_surface_id'')) (\<lambda>owner.
     bnd (in_strs (get raw ''distribution_scope'') (map fst EXPECTED_DISTRIBUTIONS)) (\<lambda>known_scope.
     bnd (require known_scope coverage_failure) (\<lambda>_.
     bnd (as_str coverage_failure (get raw ''distribution_scope'')) (\<lambda>scope.
     bnd (as_str coverage_failure (get raw ''normalized_path'')) (\<lambda>path_value.
     bnd (normalize_path (PStr path_value)) (\<lambda>path.
     bnd (require (py_eq (get raw ''leaf_recipe_id'') (PStr ''bytes-mode-contract-v1'')) coverage_failure) (\<lambda>_.
     bnd (require (get raw ''runtime_visible'' = PBool True) coverage_failure) (\<lambda>_.
     bnd (require (\<not> has_key units unit_id) coverage_failure) (\<lambda>_.
     bnd (require (\<not> has_key paths (casefold path)) coverage_failure) (\<lambda>_.
     Inr (AList.update unit_id
       \<lparr>ru_unit_id = unit_id, ru_unit_kind = unit_kind, ru_distribution_scope = scope, ru_normalized_path = path,
        ru_owning_surface_id = owner, ru_leaf_recipe_id = ''bytes-mode-contract-v1''\<rparr> units,
       AList.update (casefold path) unit_id paths)))))))))))))))))"

definition parse_units :: "dict \<Rightarrow> units res" where
  "parse_units document =
     bnd (require (same_strs (keys document) INVENTORY_FIELDS) coverage_failure) (\<lambda>_.
     bnd (require (py_eq (get document ''schema_id'') (PStr ''agent-workflow.runtime-unit-inventory'') \<and>
                   py_eq (get document ''schema_version'') (PInt 1)) coverage_failure) (\<lambda>_.
     bnd (as_array coverage_failure (get document ''units'')) (\<lambda>raws.
     bnd (foldr_res parse_unit ([], []) raws) (\<lambda>st. Inr (fst st)))))"

section \<open>The graph\<close>

definition surface_pre :: "surfaces \<Rightarrow> string \<Rightarrow> string list" where
  "surface_pre surfaces s = (case map_of surfaces s of None \<Rightarrow> [] | Some d \<Rightarrow> sd_references d)"

definition surface_topological_order :: "surfaces \<Rightarrow> string list res" where
  "surface_topological_order surfaces =
     topological_order (\<lambda>s r. has_key surfaces r \<and> r \<noteq> s) surface_failure (keys surfaces) (surface_pre surfaces)"

text \<open>The stack of pending references has its top first; \<^verbatim>\<open>pop\<close> takes the last element of the list.\<close>

function transitive_references_loop :: "surfaces \<Rightarrow> string list \<Rightarrow> string list \<Rightarrow> string list res" where
  "transitive_references_loop surfaces visited [] = Inr visited"
| "transitive_references_loop surfaces visited (r # pending) =
     (if r \<in> set visited then transitive_references_loop surfaces visited pending
      else (case map_of surfaces r of
          None \<Rightarrow> Inl (KeyError r)
        | Some d \<Rightarrow> transitive_references_loop surfaces (visited @ [r]) (rev (sd_references d) @ pending)))"
  by pat_completeness auto
termination
proof (relation "measures [\<lambda>(surfaces, visited, _). card (set (keys surfaces) - set visited),
    \<lambda>(_, _, pending). length pending]")
  fix surfaces :: surfaces and visited r pending d
  assume "r \<notin> set visited" and "map_of surfaces r = Some d"
  then have "r \<in> set (keys surfaces) - set visited"
    by (auto simp: keys_def dest: map_of_SomeD intro: rev_image_eqI)
  then have "set (keys surfaces) - set (visited @ [r]) \<subset> set (keys surfaces) - set visited" by auto
  then have "card (set (keys surfaces) - set (visited @ [r])) < card (set (keys surfaces) - set visited)"
    by (simp add: psubset_card_mono)
  then show "((surfaces, visited @ [r], rev (sd_references d) @ pending), surfaces, visited, r # pending)
      \<in> measures [\<lambda>(surfaces, visited, _). card (set (keys surfaces) - set visited),
          \<lambda>(_, _, pending). length pending]"
    by simp
qed simp_all

definition transitive_references :: "string \<Rightarrow> surfaces \<Rightarrow> string list res" where
  "transitive_references surface_id surfaces =
     bnd (lookup surfaces surface_id) (\<lambda>d. transitive_references_loop surfaces [] (rev (sd_references d)))"

definition claim_owner :: "(string \<times> string) list \<Rightarrow> string \<times> string \<Rightarrow> (string \<times> string) list res" where
  "claim_owner owners su = (case su of (surface_id, unit_id) \<Rightarrow>
     if has_key owners unit_id then Inl coverage_failure else Inr (AList.update unit_id surface_id owners))"

definition check_owner :: "surfaces \<Rightarrow> (string \<times> string) list \<Rightarrow> string \<times> runtime_unit \<Rightarrow> unit res" where
  "check_owner surfaces owners uu = (case uu of (unit_id, u) \<Rightarrow>
     bnd (require (has_key surfaces (ru_owning_surface_id u)) coverage_failure) (\<lambda>_.
     bnd (lookup owners unit_id) (\<lambda>claimed.
     require (claimed = ru_owning_surface_id u) coverage_failure)))"

definition check_mandatory :: "surfaces \<Rightarrow> string \<times> surface_descriptor \<Rightarrow> unit res" where
  "check_mandatory surfaces sd = (case sd of (surface_id, d) \<Rightarrow>
     if sd_surface_kind d \<in> set TASK_LOADABLE_KINDS then
       bnd (transitive_references surface_id surfaces) (\<lambda>references.
       require (subset_strs [''runtime-control-plane'', ''surface-registry''] references) coverage_failure)
     else Inr ())"

definition surface_projection :: "surface_descriptor \<Rightarrow> pyval" where
  "surface_projection d = PDict [
     (''surface_id'', PStr (sd_surface_id d)), (''surface_kind'', PStr (sd_surface_kind d)),
     (''descriptor_version'', PInt (sd_descriptor_version d)), (''digest_recipe_id'', PStr (sd_digest_recipe_id d)),
     (''owned_unit_ids'', PList (map PStr (sd_owned_unit_ids d))), (''references'', PList (map PStr (sd_references d))),
     (''contract_change_class'', PStr (sd_contract_change_class d))]"

definition unit_projection :: "runtime_unit \<Rightarrow> pyval" where
  "unit_projection u = PDict [
     (''unit_id'', PStr (ru_unit_id u)), (''unit_kind'', PStr (ru_unit_kind u)),
     (''distribution_scope'', PStr (ru_distribution_scope u)), (''normalized_path'', PStr (ru_normalized_path u)),
     (''owning_surface_id'', PStr (ru_owning_surface_id u)), (''leaf_recipe_id'', PStr (ru_leaf_recipe_id u))]"

definition registry_projection :: "surfaces \<Rightarrow> units \<Rightarrow> pyval" where
  "registry_projection surfaces units = PDict [
     (''schema_id'', PStr ''agent-workflow.runtime-surface-registry''), (''schema_version'', PInt 1),
     (''surfaces'', PList (map (surface_projection o snd) (sort_items surfaces))),
     (''inventory'', PList (map (unit_projection o snd) (sort_items units)))]"

definition validate_surface_registry :: "dict \<Rightarrow> dict \<Rightarrow> surface_registry res" where
  "validate_surface_registry registry_document inventory_document =
     bnd (parse_surfaces registry_document) (\<lambda>surfaces.
     bnd (parse_units inventory_document) (\<lambda>units.
     bnd (surface_topological_order surfaces) (\<lambda>ordered.
     bnd (foldr_res claim_owner []
            (concat (map (\<lambda>(s, d). map (\<lambda>u. (s, u)) (sd_owned_unit_ids d)) surfaces))) (\<lambda>owners.
     bnd (require (same_strs (keys owners) (keys units)) coverage_failure) (\<lambda>_.
     bnd (mapr (check_owner surfaces owners) units) (\<lambda>_.
     bnd (mapr (check_mandatory surfaces) surfaces) (\<lambda>_.
     bnd (digest ''agent-workflow.surface-registry.v1'' (registry_projection surfaces units)) (\<lambda>registry_digest.
     Inr \<lparr>sr_surfaces = sort_items surfaces, sr_units = sort_items units, sr_topological_surface_ids = ordered,
          sr_registry_digest = registry_digest\<rparr>))))))))"

section \<open>Evidence and digests\<close>

definition leaf_projection :: "string \<Rightarrow> string \<Rightarrow> string \<Rightarrow> string \<Rightarrow> string \<Rightarrow> pyval" where
  "leaf_projection unit_id recipe byte_hash mode contract_digest = PDict [
     (''unit_id'', PStr unit_id), (''leaf_recipe_id'', PStr recipe), (''byte_hash'', PStr byte_hash),
     (''mode'', PStr mode), (''contract_digest'', PStr contract_digest)]"

definition evidence_digest :: "pyval \<Rightarrow> string res" where
  "evidence_digest v = (case v of
     PStr s \<Rightarrow> if is_sha256 s \<or> s = CANONICAL_NULL then Inr s else Inl coverage_failure
   | _ \<Rightarrow> Inl coverage_failure)"

definition evidence_mode :: "pyval \<Rightarrow> string res" where
  "evidence_mode v = (case v of
     PStr s \<Rightarrow> normalize_mode v | PInt n \<Rightarrow> normalize_mode v | _ \<Rightarrow> Inl coverage_failure)"

definition evidence_distributions :: "pyval \<Rightarrow> string list res" where
  "evidence_distributions v = (case v of
     PList xs \<Rightarrow> if \<not> list_all is_pystr xs then Inl coverage_failure
       else (let distributions = sorted_set (strs_of xs) in
         if length distributions \<noteq> length xs then Inl coverage_failure else Inr distributions)
   | _ \<Rightarrow> Inl coverage_failure)"

definition parse_unit_evidence ::
    "surface_registry \<Rightarrow> (string \<times> unit_evidence) list \<Rightarrow> dict \<Rightarrow> (string \<times> unit_evidence) list res" where
  "parse_unit_evidence registry parsed raw =
     bnd (require (same_strs (keys raw) EVIDENCE_FIELDS) coverage_failure) (\<lambda>_.
     bnd (as_str coverage_failure (get raw ''unit_id'')) (\<lambda>unit_id.
     bnd (require (has_key (sr_units registry) unit_id) coverage_failure) (\<lambda>_.
     bnd (require (\<not> has_key parsed unit_id) coverage_failure) (\<lambda>_.
     bnd (as_sha256 coverage_failure (get raw ''byte_hash'')) (\<lambda>byte_hash.
     bnd (evidence_digest (get raw ''contract_digest'')) (\<lambda>contract_digest.
     bnd (evidence_mode (get raw ''mode'')) (\<lambda>mode.
     bnd (evidence_distributions (get raw ''distributions'')) (\<lambda>distributions.
     bnd (lookup (sr_units registry) unit_id) (\<lambda>u.
     bnd (lookup EXPECTED_DISTRIBUTIONS (ru_distribution_scope u)) (\<lambda>expected.
     bnd (require (distributions = expected) coverage_failure) (\<lambda>_.
     bnd (plain_digest (leaf_projection unit_id (ru_leaf_recipe_id u) byte_hash mode contract_digest)) (\<lambda>leaf_digest.
     Inr (AList.update unit_id
       \<lparr>ue_unit_id = unit_id, ue_byte_hash = byte_hash, ue_mode = mode, ue_contract_digest = contract_digest,
        ue_distributions = distributions, ue_leaf_digest = leaf_digest\<rparr> parsed)))))))))))))"

definition parse_evidence :: "surface_registry \<Rightarrow> dict list \<Rightarrow> (string \<times> unit_evidence) list res" where
  "parse_evidence registry evidence =
     bnd (foldr_res (parse_unit_evidence registry) [] evidence) (\<lambda>parsed.
     bnd (require (same_strs (keys parsed) (keys (sr_units registry))) coverage_failure) (\<lambda>_.
     Inr parsed))"

definition digest_projection ::
    "surface_descriptor \<Rightarrow> (string \<times> string) list \<Rightarrow> (string \<times> string) list \<Rightarrow> pyval" where
  "digest_projection d owned references = PDict [
     (''surface_id'', PStr (sd_surface_id d)), (''surface_kind'', PStr (sd_surface_kind d)),
     (''descriptor_version'', PInt (sd_descriptor_version d)), (''digest_recipe_id'', PStr (sd_digest_recipe_id d)),
     (''owned_units'', PList (map (\<lambda>(u, h). PDict [(''unit_id'', PStr u), (''leaf_digest'', PStr h)]) owned)),
     (''references'', PList (map (\<lambda>(r, h). PDict [(''surface_id'', PStr r), (''surface_digest'', PStr h)]) references))]"

definition compute_surface_digest ::
    "surface_registry \<Rightarrow> (string \<times> unit_evidence) list \<Rightarrow> digests \<Rightarrow> string \<Rightarrow> digests res" where
  "compute_surface_digest registry evidence surface_digests surface_id =
     bnd (lookup (sr_surfaces registry) surface_id) (\<lambda>d.
     bnd (mapr (\<lambda>u. bnd (lookup evidence u) (\<lambda>e. Inr (u, ue_leaf_digest e))) (sd_owned_unit_ids d)) (\<lambda>owned.
     bnd (mapr (\<lambda>r. bnd (lookup surface_digests r) (\<lambda>h. Inr (r, h))) (sd_references d)) (\<lambda>references.
     bnd (digest ''agent-workflow.runtime-surface.v1'' (digest_projection d owned references)) (\<lambda>h.
     Inr (AList.update surface_id h surface_digests)))))"

definition compute_digests :: "surface_registry \<Rightarrow> (string \<times> unit_evidence) list \<Rightarrow> digests res" where
  "compute_digests registry evidence =
     foldr_res (compute_surface_digest registry evidence) [] (sr_topological_surface_ids registry)"

definition compute_surface_digests :: "surface_registry \<Rightarrow> dict list \<Rightarrow> digests res" where
  "compute_surface_digests registry evidence =
     bnd (parse_evidence registry evidence) (compute_digests registry)"

definition coverage_unit :: "surface_registry \<Rightarrow> (string \<times> unit_evidence) list \<Rightarrow> string \<Rightarrow> pyval res" where
  "coverage_unit registry parsed unit_id =
     bnd (lookup (sr_units registry) unit_id) (\<lambda>u.
     bnd (lookup parsed unit_id) (\<lambda>e.
     Inr (PDict [(''unit_id'', PStr unit_id), (''normalized_path'', PStr (ru_normalized_path u)),
       (''owning_surface_id'', PStr (ru_owning_surface_id u)), (''leaf_digest'', PStr (ue_leaf_digest e)),
       (''distributions'', PList (map PStr (ue_distributions e)))])))"

definition coverage_surface :: "digests \<Rightarrow> string \<Rightarrow> pyval res" where
  "coverage_surface surface_digests surface_id =
     bnd (lookup surface_digests surface_id) (\<lambda>h.
     Inr (PDict [(''surface_id'', PStr surface_id), (''surface_digest'', PStr h)]))"

definition prove_surface_coverage :: "surface_registry \<Rightarrow> dict list \<Rightarrow> coverage_proof res" where
  "prove_surface_coverage registry evidence =
     bnd (parse_evidence registry evidence) (\<lambda>parsed.
     bnd (compute_digests registry parsed) (\<lambda>surface_digests.
     bnd (mapr (coverage_unit registry parsed) (sort (keys (sr_units registry)))) (\<lambda>units.
     bnd (mapr (coverage_surface surface_digests) (sr_topological_surface_ids registry)) (\<lambda>surfaces.
     bnd (digest ''agent-workflow.surface-coverage.v1'' (PDict [
            (''registry_digest'', PStr (sr_registry_digest registry)), (''units'', PList units),
            (''surfaces'', PList surfaces), (''graph_valid'', PBool True)])) (\<lambda>proof_digest.
     Inr \<lparr>cp_covered_unit_ids = sort (keys (sr_units registry)),
          cp_surface_ids = sr_topological_surface_ids registry,
          cp_registry_digest = sr_registry_digest registry, cp_proof_digest = proof_digest\<rparr>)))))"

section \<open>Parsed documents\<close>

lemma as_unit_id_Inr_iff [res_simps]: "as_unit_id v = Inr s \<longleftrightarrow> v = PStr s \<and> unit_id_format s"
  by (cases v) (auto simp: as_unit_id_def)

lemma surface_string_set_distinct: "surface_string_set v = Inr xs \<Longrightarrow> distinct xs \<and> sorted xs"
  by (cases v) (auto simp: surface_string_set_def Let_def split: if_splits)

definition surfaces_ok :: "surfaces \<Rightarrow> bool" where
  "surfaces_ok surfaces = (distinct (keys surfaces) \<and> list_all (\<lambda>(s, d). sd_surface_id d = s \<and>
     surface_kind s = Some (sd_surface_kind d) \<and> distinct (sd_owned_unit_ids d) \<and> sd_owned_unit_ids d \<noteq> [] \<and>
     distinct (sd_references d)) surfaces)"

lemma parse_surface_inv:
  assumes "parse_surface ss v = Inr ss'" and "surfaces_ok ss"
  shows "surfaces_ok ss'"
proof -
  obtain raw s k owned refs where *: "surface_kind s = Some k" "\<not> has_key ss s" "owned \<noteq> []"
    "surface_string_set (get raw ''owned_unit_ids'') = Inr owned" "surface_string_set (get raw ''references'') = Inr refs"
    "ss' = AList.update s \<lparr>sd_surface_id = s, sd_surface_kind = k, sd_descriptor_version = 1,
        sd_digest_recipe_id = ''surface-content-v1'', sd_owned_unit_ids = owned, sd_references = refs,
        sd_contract_change_class = ''runtime-visible''\<rparr> ss"
    using assms(1) unfolding parse_surface_def
    by (auto simp only: res_simps split_paired_Ex prod.case sum.inject simp_thms)
  then have "ss' = ss @ [(s, \<lparr>sd_surface_id = s, sd_surface_kind = k, sd_descriptor_version = 1,
        sd_digest_recipe_id = ''surface-content-v1'', sd_owned_unit_ids = owned, sd_references = refs,
        sd_contract_change_class = ''runtime-visible''\<rparr>)]"
    by (simp add: update_new has_key_def keys_def)
  then show ?thesis
    using assms(2) * surface_string_set_distinct by (auto simp: surfaces_ok_def has_key_def keys_def)
qed

lemma parse_surfaces_ok:
  assumes "parse_surfaces doc = Inr ss"
  shows "surfaces_ok ss \<and> has_key ss ''runtime-control-plane'' \<and> has_key ss ''surface-registry''"
proof -
  obtain raws where fold: "foldr_res parse_surface [] raws = Inr ss"
    and man: "list_all (has_key ss) [''runtime-control-plane'', ''surface-registry'']"
    using assms unfolding parse_surfaces_def by (auto simp only: res_simps sum.inject simp_thms)
  have "surfaces_ok []" by (simp add: surfaces_ok_def keys_def)
  with fold have "surfaces_ok ss" by (rule foldr_res_inv) (rule parse_surface_inv)
  with man show ?thesis by simp
qed

definition units_ok :: "units \<times> (string \<times> string) list \<Rightarrow> bool" where
  "units_ok st = (case st of (us, paths) \<Rightarrow> distinct (keys us) \<and>
     map fst paths = map (\<lambda>(i, u). casefold (ru_normalized_path u)) us \<and> distinct (map fst paths) \<and>
     list_all (\<lambda>(i, u). ru_unit_id u = i \<and> canonical_path (ru_normalized_path u) \<and>
       ru_distribution_scope u \<in> set (map fst EXPECTED_DISTRIBUTIONS)) us)"

lemma parse_unit_inv:
  assumes "parse_unit st v = Inr st'" and "units_ok st"
  shows "units_ok st'"
proof -
  obtain us paths where st: "st = (us, paths)" by (cases st)
  obtain raw i k owner scope path where *: "\<not> has_key us i" "\<not> has_key paths (casefold path)" "canonical_path path"
    "get raw ''distribution_scope'' = PStr scope" "in_strs (get raw ''distribution_scope'') (map fst EXPECTED_DISTRIBUTIONS) = Inr True"
    "st' = (AList.update i \<lparr>ru_unit_id = i, ru_unit_kind = k, ru_distribution_scope = scope, ru_normalized_path = path,
        ru_owning_surface_id = owner, ru_leaf_recipe_id = ''bytes-mode-contract-v1''\<rparr> us, AList.update (casefold path) i paths)"
    using assms(1) unfolding parse_unit_def st prod.case
    by (auto simp only: res_simps normalize_path_Inr_iff sum.inject simp_thms pyval.inject)
  have "st' = (us @ [(i, \<lparr>ru_unit_id = i, ru_unit_kind = k, ru_distribution_scope = scope, ru_normalized_path = path,
        ru_owning_surface_id = owner, ru_leaf_recipe_id = ''bytes-mode-contract-v1''\<rparr>)], paths @ [(casefold path, i)])"
    using * by (simp add: update_new has_key_def keys_def)
  moreover have "scope \<in> set (map fst EXPECTED_DISTRIBUTIONS)" using *(4,5) by simp
  ultimately show ?thesis
    using assms(2) *(1-3) by (auto simp: st units_ok_def has_key_def keys_def)
qed

lemma parse_units_ok:
  assumes "parse_units doc = Inr us"
  shows "distinct (keys us) \<and> distinct (map (\<lambda>(i, u). casefold (ru_normalized_path u)) us) \<and>
    list_all (\<lambda>(i, u). ru_unit_id u = i \<and> canonical_path (ru_normalized_path u) \<and>
       ru_distribution_scope u \<in> set (map fst EXPECTED_DISTRIBUTIONS)) us"
proof -
  obtain raws st where fold: "foldr_res parse_unit ([], []) raws = Inr st" and us: "us = fst st"
    using assms unfolding parse_units_def by (auto simp only: res_simps sum.inject simp_thms)
  have "units_ok ([], [])" by (simp add: units_ok_def keys_def)
  with fold have "units_ok st" by (rule foldr_res_inv) (rule parse_unit_inv)
  then show ?thesis by (cases st) (auto simp: units_ok_def us)
qed

lemma claim_owner_Inr_iff: "claim_owner owners (s, u) = Inr owners' \<longleftrightarrow> u \<notin> set (keys owners) \<and> owners' = owners @ [(u, s)]"
  by (auto simp: claim_owner_def has_key_def keys_def update_new)

lemma claim_owner_fold:
  assumes "foldr_res claim_owner [] pairs = Inr owners"
  shows "owners = map (\<lambda>(s, u). (u, s)) pairs \<and> distinct (map snd pairs)"
proof -
  have "foldr_res claim_owner owners0 ps = Inr owners \<Longrightarrow> distinct (keys owners0) \<Longrightarrow>
      owners = owners0 @ map (\<lambda>(s, u). (u, s)) ps \<and> distinct (keys owners0 @ map snd ps)" for ps owners0
  proof (induction ps arbitrary: owners0)
    case (Cons p ps)
    obtain s u where p: "p = (s, u)" by (cases p)
    have u: "u \<notin> set (keys owners0)" and rest: "foldr_res claim_owner (owners0 @ [(u, s)]) ps = Inr owners"
      using Cons.prems(1) by (auto simp: p res_simps claim_owner_Inr_iff)
    have "distinct (keys (owners0 @ [(u, s)]))" using u Cons.prems(2) by (simp add: keys_def)
    from Cons.IH [OF rest this] u show ?case by (simp add: p keys_def)
  qed simp
  from this [of "[]" pairs] assms show ?thesis by (simp add: keys_def)
qed


section \<open>The reference closure\<close>

definition ref_rel :: "surfaces \<Rightarrow> (string \<times> string) set" where
  "ref_rel surfaces = {(s, r). r \<in> set (surface_pre surfaces s)}"

lemma transitive_loop_correct:
  assumes "transitive_references_loop surfaces visited pending = Inr refs"
    and "set visited \<union> set pending \<subseteq> (ref_rel surfaces)\<^sup>+ `` {s}"
    and "\<forall>v \<in> set visited. set (surface_pre surfaces v) \<subseteq> set visited \<union> set pending"
    and "set (surface_pre surfaces s) \<subseteq> set visited \<union> set pending"
  shows "set refs = (ref_rel surfaces)\<^sup>+ `` {s}"
  using assms
proof (induction surfaces visited pending rule: transitive_references_loop.induct)
  case (1 surfaces visited)
  have "r \<in> set visited" if "(s, r) \<in> (ref_rel surfaces)\<^sup>+" for r
    using that
  proof induction
    case (base y)
    then show ?case using "1.prems" by (auto simp: ref_rel_def)
  next
    case (step y z)
    then show ?case using "1.prems" by (auto simp: ref_rel_def)
  qed
  with "1.prems" show ?case by auto
next
  case (2 surfaces visited r pending)
  show ?case
  proof (cases "r \<in> set visited")
    case True
    have "transitive_references_loop surfaces visited pending = Inr refs" using "2.prems"(1) True by simp
    moreover have "set visited \<union> set (r # pending) = set visited \<union> set pending" using True by auto
    ultimately show ?thesis using "2.IH"(1) [OF True] "2.prems" by metis
  next
    case False
    with "2.prems"(1) obtain d where d: "map_of surfaces r = Some d"
      and loop: "transitive_references_loop surfaces (visited @ [r]) (rev (sd_references d) @ pending) = Inr refs"
      by (auto split: option.splits)
    have pre: "surface_pre surfaces r = sd_references d" using d by (simp add: surface_pre_def)
    have r: "(s, r) \<in> (ref_rel surfaces)\<^sup>+" using "2.prems"(2) by auto
    have "set (sd_references d) \<subseteq> (ref_rel surfaces)\<^sup>+ `` {s}"
    proof
      fix x assume "x \<in> set (sd_references d)"
      then have "(r, x) \<in> ref_rel surfaces" by (simp add: ref_rel_def pre)
      with r have "(s, x) \<in> (ref_rel surfaces)\<^sup>+" by (rule trancl_into_trancl)
      then show "x \<in> (ref_rel surfaces)\<^sup>+ `` {s}" by simp
    qed
    then show ?thesis
      using "2.prems"(2-4) pre by (intro "2.IH"(2) [OF False d loop]) auto
  qed
qed

lemma transitive_references_set:
  assumes "transitive_references s surfaces = Inr refs"
  shows "set refs = (ref_rel surfaces)\<^sup>+ `` {s}"
proof -
  obtain d where d: "map_of surfaces s = Some d"
    and loop: "transitive_references_loop surfaces [] (rev (sd_references d)) = Inr refs"
    using assms by (auto simp: transitive_references_def lookup_def res_simps split: option.splits)
  show ?thesis
    by (rule transitive_loop_correct [OF loop]) (auto simp: surface_pre_def d ref_rel_def)
qed

interpretation surface_graph: prereq_graph "\<lambda>ss :: surfaces. distinct (keys ss)" keys surface_pre
  "\<lambda>ss s r. has_key ss r \<and> r \<noteq> s" surface_failure surface_topological_order
  by unfold_locales (auto simp: surface_topological_order_def has_key_def keys_def)

lemma validate_surface_registryE:
  assumes "validate_surface_registry rd ivd = Inr reg"
  obtains ss us ordered owners where "parse_surfaces rd = Inr ss" "parse_units ivd = Inr us" "surfaces_ok ss"
    "surface_topological_order ss = Inr ordered"
    "owners = concat (map (\<lambda>x. map (\<lambda>u. (u, fst x)) (sd_owned_unit_ids (snd x))) ss)" "distinct (map fst owners)"
    "set (map fst owners) = set (keys us)"
    "\<forall>(i, u) \<in> set us. has_key ss (ru_owning_surface_id u) \<and> map_of owners i = Some (ru_owning_surface_id u)"
    "\<forall>(s, d) \<in> set ss. sd_surface_kind d \<in> set TASK_LOADABLE_KINDS \<longrightarrow>
       {''runtime-control-plane'', ''surface-registry''} \<subseteq> (ref_rel ss)\<^sup>+ `` {s}"
    "sr_surfaces reg = sort_items ss" "sr_units reg = sort_items us" "sr_topological_surface_ids reg = ordered"
    "digest ''agent-workflow.surface-registry.v1'' (registry_projection ss us) = Inr (sr_registry_digest reg)"
proof -
  obtain ss us ordered owners u1 u2 where *: "parse_surfaces rd = Inr ss" "parse_units ivd = Inr us"
    "surface_topological_order ss = Inr ordered"
    "foldr_res claim_owner [] (concat (map (\<lambda>(s, d). map (\<lambda>u. (s, u)) (sd_owned_unit_ids d)) ss)) = Inr owners"
    "same_strs (keys owners) (keys us)" "mapr (check_owner ss owners) us = Inr u1" "mapr (check_mandatory ss) ss = Inr u2"
    "sr_surfaces reg = sort_items ss" "sr_units reg = sort_items us" "sr_topological_surface_ids reg = ordered"
    "digest ''agent-workflow.surface-registry.v1'' (registry_projection ss us) = Inr (sr_registry_digest reg)"
    using assms unfolding validate_surface_registry_def by (auto simp: res_simps)
  have ok: "surfaces_ok ss" using parse_surfaces_ok *(1) by blast
  have own: "owners = concat (map (\<lambda>x. map (\<lambda>u. (u, fst x)) (sd_owned_unit_ids (snd x))) ss)" "distinct (map fst owners)"
    using claim_owner_fold [OF *(4)] by (simp_all add: map_concat comp_def case_prod_beta)
  have units: "\<forall>(i, u) \<in> set us. has_key ss (ru_owning_surface_id u) \<and> map_of owners i = Some (ru_owning_surface_id u)"
  proof (clarify)
    fix i u assume "(i, u) \<in> set us"
    from mapr_set' [OF *(6) this] show "has_key ss (ru_owning_surface_id u) \<and> map_of owners i = Some (ru_owning_surface_id u)"
      by (auto simp: check_owner_def res_simps lookup_def split: option.splits)
  qed
  have mand: "\<forall>(s, d) \<in> set ss. sd_surface_kind d \<in> set TASK_LOADABLE_KINDS \<longrightarrow>
       {''runtime-control-plane'', ''surface-registry''} \<subseteq> (ref_rel ss)\<^sup>+ `` {s}"
  proof (clarify)
    fix s d x assume sd: "(s, d) \<in> set ss" "sd_surface_kind d \<in> set TASK_LOADABLE_KINDS"
      and x: "x \<in> {''runtime-control-plane'', ''surface-registry''}"
    from mapr_set' [OF *(7) sd(1)] sd(2) obtain refs where "transitive_references s ss = Inr refs"
      "subset_strs [''runtime-control-plane'', ''surface-registry''] refs"
      by (auto simp: check_mandatory_def res_simps)
    then have "x \<in> (ref_rel ss)\<^sup>+ `` {s}"
      using x transitive_references_set [of s ss refs] by (auto simp: subset_strs_iff)
    then show "(s, x) \<in> (ref_rel ss)\<^sup>+" by simp
  qed
  have ks: "set (map fst owners) = set (keys us)"
    using *(5) by (simp add: same_strs_iff keys_def)
  show thesis
    by (rule that [OF *(1,2) ok *(3) own ks units mand *(8-11)])
qed


lemma owners_mem:
  "(u, s) \<in> set (concat (map (\<lambda>x. map (\<lambda>u. (u, fst x)) (sd_owned_unit_ids (snd x))) ss)) \<longleftrightarrow>
     (\<exists>d. (s, d) \<in> set ss \<and> u \<in> set (sd_owned_unit_ids d))"
  by force

text \<open>
  C29: In a verified registry, ownership is a partition of the inventory: a unit is in the inventory
  exactly when some surface owns it, no unit has two owners, the owner recorded in the unit is the
  surface that owns it, and no two units have the same path up to case.
\<close>

theorem registry_ownership_partition:
  assumes "validate_surface_registry rd ivd = Inr reg"
  shows "set (keys (sr_units reg)) = (\<Union>(s, d) \<in> set (sr_surfaces reg). set (sd_owned_unit_ids d)) \<and>
    (\<forall>s d s' d' u. (s, d) \<in> set (sr_surfaces reg) \<longrightarrow> (s', d') \<in> set (sr_surfaces reg) \<longrightarrow>
       u \<in> set (sd_owned_unit_ids d) \<longrightarrow> u \<in> set (sd_owned_unit_ids d') \<longrightarrow> s = s') \<and>
    (\<forall>i u. (i, u) \<in> set (sr_units reg) \<longrightarrow>
       (\<exists>d. (ru_owning_surface_id u, d) \<in> set (sr_surfaces reg) \<and> i \<in> set (sd_owned_unit_ids d))) \<and>
    distinct (map (\<lambda>(i, u). casefold (ru_normalized_path u)) (sr_units reg))"
proof -
  obtain ss us owners where us: "parse_units ivd = Inr us"
    and own: "owners = concat (map (\<lambda>x. map (\<lambda>u. (u, fst x)) (sd_owned_unit_ids (snd x))) ss)" "distinct (map fst owners)"
    and ks: "set (map fst owners) = set (keys us)"
    and units: "\<forall>(i, u) \<in> set us. has_key ss (ru_owning_surface_id u) \<and> map_of owners i = Some (ru_owning_surface_id u)"
    and reg: "sr_surfaces reg = sort_items ss" "sr_units reg = sort_items us"
    using assms by (rule validate_surface_registryE)
  have mem: "(u, s) \<in> set owners \<longleftrightarrow> (\<exists>d. (s, d) \<in> set ss \<and> u \<in> set (sd_owned_unit_ids d))" for u s
    unfolding own(1) by (rule owners_mem)
  have "set (map fst owners) = (\<Union>(s, d) \<in> set ss. set (sd_owned_unit_ids d))"
    unfolding own(1) by (simp add: image_UN image_image case_prod_beta)
  moreover have "s = s'" if "(s, d) \<in> set ss" "(s', d') \<in> set ss" "u \<in> set (sd_owned_unit_ids d)" "u \<in> set (sd_owned_unit_ids d')"
    for s d s' d' u
  proof -
    have "(u, s) \<in> set owners" "(u, s') \<in> set owners" using that mem by blast+
    then show ?thesis using own(2) by (metis eq_key_imp_eq_value)
  qed
  moreover have "\<exists>d. (ru_owning_surface_id u, d) \<in> set ss \<and> i \<in> set (sd_owned_unit_ids d)" if "(i, u) \<in> set us" for i u
  proof -
    have "map_of owners i = Some (ru_owning_surface_id u)" using units that by auto
    then have "(i, ru_owning_surface_id u) \<in> set owners" by (rule map_of_SomeD)
    then show ?thesis using mem by blast
  qed
  moreover have "distinct (map (\<lambda>(i, u). casefold (ru_normalized_path u)) (sort_items us))"
  proof -
    have "mset (map (\<lambda>(i, u). casefold (ru_normalized_path u)) (sort_items us)) =
        mset (map (\<lambda>(i, u). casefold (ru_normalized_path u)) us)"
      by (metis mset_map mset_sort sort_items_def)
    with parse_units_ok [OF us] show ?thesis by (metis mset_eq_imp_distinct_iff)
  qed
  ultimately show ?thesis
    using ks by (simp add: reg keys_sort_items)
qed

text \<open>
  A verified registry has an acyclic reference graph without dangling references; its
  topological order lists every surface once and after all surfaces it refers to, always the least
  available one next.
\<close>

theorem registry_order_topological:
  assumes "validate_surface_registry rd ivd = Inr reg" and "parse_surfaces rd = Inr ss"
  shows "distinct (sr_topological_surface_ids reg) \<and> set (sr_topological_surface_ids reg) = set (keys ss) \<and>
    greedy (set (keys ss)) (surface_pre ss) (sr_topological_surface_ids reg) \<and>
    acyclic (prereq_rel (set (keys ss)) (surface_pre ss)) \<and>
    (\<forall>before s after. sr_topological_surface_ids reg = before @ s # after \<longrightarrow> set (surface_pre ss s) \<subseteq> set before)"
proof -
  obtain ordered where ok: "surfaces_ok ss" and ord: "surface_topological_order ss = Inr ordered"
    and reg: "sr_topological_surface_ids reg = ordered"
    using assms by (elim validate_surface_registryE) auto
  have d: "distinct (keys ss)" using ok by (simp add: surfaces_ok_def)
  note g = surface_graph.order_greedy [OF d ord] surface_graph.order_acyclic [OF d ord] surface_graph.order_before [OF d ord]
  show ?thesis
    unfolding reg using g by blast
qed

text \<open>
  In a verified registry every surface that a task can load refers, directly or through other
  surfaces, to the runtime control plane and to the surface registry.
\<close>

theorem task_loadable_reaches_mandatory:
  assumes "validate_surface_registry rd ivd = Inr reg" and "parse_surfaces rd = Inr ss"
    and "(s, d) \<in> set ss" and "sd_surface_kind d \<in> set TASK_LOADABLE_KINDS"
  shows "(s, ''runtime-control-plane'') \<in> (ref_rel ss)\<^sup>+ \<and> (s, ''surface-registry'') \<in> (ref_rel ss)\<^sup>+"
proof -
  have "\<forall>(s, d) \<in> set ss. sd_surface_kind d \<in> set TASK_LOADABLE_KINDS \<longrightarrow>
       {''runtime-control-plane'', ''surface-registry''} \<subseteq> (ref_rel ss)\<^sup>+ `` {s}"
    using assms(1,2) by (elim validate_surface_registryE) simp
  with assms(3,4) show ?thesis by blast
qed


section \<open>Surface digests\<close>

definition leaf_of :: "(string \<times> unit_evidence) list \<Rightarrow> string \<Rightarrow> string" where
  "leaf_of ev u = (case map_of ev u of None \<Rightarrow> CANONICAL_NULL | Some e \<Rightarrow> ue_leaf_digest e)"

text \<open>The bytes hashed for a surface, given the leaves and the digests of the referenced surfaces.\<close>

definition surface_preimage :: "surfaces \<Rightarrow> (string \<times> unit_evidence) list \<Rightarrow> digests \<Rightarrow> string \<Rightarrow> byte list" where
  "surface_preimage ss ev D s = (case map_of ss s of None \<Rightarrow> [] | Some d \<Rightarrow>
     digest_preimage ''agent-workflow.runtime-surface.v1'' (digest_projection d
       (map (\<lambda>u. (u, leaf_of ev u)) (sd_owned_unit_ids d)) (map (\<lambda>r. (r, value_at D r)) (sd_references d))))"

lemma wf_digest_projection: "wf_pyval (digest_projection d owned refs) \<and> json_value (digest_projection d owned refs)"
  by (auto simp: digest_projection_def list_all_iff)

lemma runtime_surface_domain: "digest_domain ''agent-workflow.runtime-surface.v1''"
  by (simp add: digest_domain_def ord_def)

lemma lookup_Inr_iff: "lookup d k = Inr v \<longleftrightarrow> map_of d k = Some v"
  by (simp add: lookup_def split: option.splits)

text \<open>Evidence for every owned unit, and digests for every referenced surface, give the digest.\<close>

lemma compute_surface_digest_ok:
  assumes d: "map_of (sr_surfaces reg) s = Some d" and own: "set (sd_owned_unit_ids d) \<subseteq> set (keys ev)"
    and refs: "set (sd_references d) \<subseteq> set (keys D)" and new: "s \<notin> set (keys D)"
  shows "compute_surface_digest reg ev D s = Inr (D @ [(s, sha256_hex (surface_preimage (sr_surfaces reg) ev D s))])"
proof -
  have "mapr (\<lambda>u. bnd (lookup ev u) (\<lambda>e. Inr (u, ue_leaf_digest e))) (sd_owned_unit_ids d) =
      Inr (map (\<lambda>u. (u, leaf_of ev u)) (sd_owned_unit_ids d))"
  proof (rule mapr_pure)
    fix u assume "u \<in> set (sd_owned_unit_ids d)"
    then have "u \<in> set (keys ev)" using own by auto
    then obtain e where "map_of ev u = Some e" using has_key_iff [of ev u] by (auto simp: has_key_def keys_def)
    then show "bnd (lookup ev u) (\<lambda>e. Inr (u, ue_leaf_digest e)) = Inr (u, leaf_of ev u)"
      by (simp add: lookup_def leaf_of_def)
  qed
  moreover have "mapr (\<lambda>r. bnd (lookup D r) (\<lambda>h. Inr (r, h))) (sd_references d) =
      Inr (map (\<lambda>r. (r, value_at D r)) (sd_references d))"
    by (rule mapr_pure) (use refs in \<open>auto simp: lookup_value_at\<close>)
  moreover have "digest ''agent-workflow.runtime-surface.v1'' (digest_projection d owned rs) =
      Inr (sha256_hex (digest_preimage ''agent-workflow.runtime-surface.v1'' (digest_projection d owned rs)))" for owned rs
    using wf_digest_projection runtime_surface_domain by (intro digest_ok) auto
  ultimately show ?thesis
    using new by (simp add: compute_surface_digest_def lookup_def d update_new surface_preimage_def)
qed

lemma value_at_append_other: "k \<noteq> s \<Longrightarrow> value_at (D @ [(s, h)]) k = value_at D k"
  by (simp add: value_at_def map_add_def split: option.splits)

lemma value_at_append_new: "s \<notin> set (keys D) \<Longrightarrow> value_at (D @ [(s, h)]) s = h"
proof -
  assume "s \<notin> set (keys D)"
  then have "map_of D s = None" by (simp add: keys_def map_of_eq_None_iff)
  then show ?thesis by (simp add: value_at_def map_add_def)
qed

text \<open>Along a topological order all digests can be computed, and each one is the hash of its preimage.\<close>

lemma compute_digests_fold:
  assumes inv: "\<And>s. s \<in> set (keys D) \<Longrightarrow> set (surface_pre (sr_surfaces reg) s) \<subseteq> set (keys D) \<and>
      value_at D s = sha256_hex (surface_preimage (sr_surfaces reg) ev D s)"
    and nodes: "set todo \<subseteq> set (keys (sr_surfaces reg))" and dist: "distinct (keys D @ todo)"
    and pre: "\<And>ys x zs. todo = ys @ x # zs \<Longrightarrow> set (surface_pre (sr_surfaces reg) x) \<subseteq> set (keys D) \<union> set ys"
    and own: "\<And>s d. map_of (sr_surfaces reg) s = Some d \<Longrightarrow> set (sd_owned_unit_ids d) \<subseteq> set (keys ev)"
  shows "\<exists>D'. foldr_res (compute_surface_digest reg ev) D todo = Inr D' \<and> keys D' = keys D @ todo \<and>
    (\<forall>s \<in> set (keys D'). value_at D' s = sha256_hex (surface_preimage (sr_surfaces reg) ev D' s))"
  using inv nodes dist pre
proof (induction todo arbitrary: D)
  case Nil
  then show ?case by simp
next
  case (Cons x todo)
  obtain d where d: "map_of (sr_surfaces reg) x = Some d"
    using Cons.prems(2) has_key_iff [of "sr_surfaces reg" x] by (auto simp: has_key_def keys_def)
  have refs: "set (sd_references d) \<subseteq> set (keys D)"
    using Cons.prems(4) [of "[]" x todo] d by (simp add: surface_pre_def)
  have x: "x \<notin> set (keys D)" using Cons.prems(3) by auto
  let ?h = "sha256_hex (surface_preimage (sr_surfaces reg) ev D x)"
  let ?D = "D @ [(x, ?h)]"
  have step: "compute_surface_digest reg ev D x = Inr ?D"
    using compute_surface_digest_ok [OF d own [OF d] refs x] .
  have keysD: "keys ?D = keys D @ [x]" by (simp add: keys_def)
  have same: "surface_preimage (sr_surfaces reg) ev ?D s = surface_preimage (sr_surfaces reg) ev D s"
    if "set (surface_pre (sr_surfaces reg) s) \<subseteq> set (keys D)" for s
  proof (cases "map_of (sr_surfaces reg) s")
    case (Some e)
    then have "value_at ?D r = value_at D r" if "r \<in> set (sd_references e)" for r
      using \<open>set (surface_pre (sr_surfaces reg) s) \<subseteq> set (keys D)\<close> that x
      by (intro value_at_append_other) (auto simp: surface_pre_def)
    then show ?thesis using Some by (simp add: surface_preimage_def cong: map_cong)
  qed (simp add: surface_preimage_def)
  have inv: "set (surface_pre (sr_surfaces reg) s) \<subseteq> set (keys ?D) \<and>
      value_at ?D s = sha256_hex (surface_preimage (sr_surfaces reg) ev ?D s)" if s: "s \<in> set (keys ?D)" for s
  proof (cases "s = x")
    case True
    have "set (surface_pre (sr_surfaces reg) x) \<subseteq> set (keys D)" using refs d by (simp add: surface_pre_def)
    with True same [of x] x show ?thesis by (auto simp: keysD value_at_append_new)
  next
    case False
    then have "s \<in> set (keys D)" using s by (simp add: keysD)
    with Cons.prems(1) [of s] same [of s] False show ?thesis by (auto simp: keysD value_at_append_other)
  qed
  have "\<exists>D'. foldr_res (compute_surface_digest reg ev) ?D todo = Inr D' \<and> keys D' = keys ?D @ todo \<and>
    (\<forall>s \<in> set (keys D'). value_at D' s = sha256_hex (surface_preimage (sr_surfaces reg) ev D' s))"
  proof (rule Cons.IH [OF inv])
    show "set todo \<subseteq> set (keys (sr_surfaces reg))" using Cons.prems(2) by simp
    show "distinct (keys ?D @ todo)" using Cons.prems(3) by (simp add: keysD)
    show "set (surface_pre (sr_surfaces reg) y) \<subseteq> set (keys ?D) \<union> set ys" if "todo = ys @ y # zs" for ys y zs
      using Cons.prems(4) [of "x # ys" y zs] that by (auto simp: keysD)
  qed
  then show ?case by (simp add: step keysD)
qed


lemma parse_evidence_keys: "parse_evidence reg evd = Inr ev \<Longrightarrow> set (keys ev) = set (keys (sr_units reg))"
  by (auto simp: parse_evidence_def res_simps same_strs_iff)

lemma verified_registry_facts:
  assumes "validate_surface_registry rd ivd = Inr reg"
  shows "distinct (keys (sr_surfaces reg))"
    and "surface_topological_order (sr_surfaces reg) = Inr (sr_topological_surface_ids reg)"
    and "map_of (sr_surfaces reg) s = Some d \<Longrightarrow> set (sd_owned_unit_ids d) \<subseteq> set (keys (sr_units reg))"
proof -
  obtain ss us ordered owners where ok: "surfaces_ok ss" and ord: "surface_topological_order ss = Inr ordered"
    and own: "owners = concat (map (\<lambda>x. map (\<lambda>u. (u, fst x)) (sd_owned_unit_ids (snd x))) ss)"
    and ks: "set (map fst owners) = set (keys us)"
    and reg: "sr_surfaces reg = sort_items ss" "sr_units reg = sort_items us" "sr_topological_surface_ids reg = ordered"
    using assms by (rule validate_surface_registryE)
  have d: "distinct (keys ss)" using ok by (simp add: surfaces_ok_def)
  show dist: "distinct (keys (sr_surfaces reg))"
    using d by (simp add: reg keys_sort_items)
  have m: "map_of (sr_surfaces reg) = map_of ss" using d by (simp add: reg map_of_sort_items)
  then have pre: "surface_pre (sr_surfaces reg) = surface_pre ss" by (simp add: surface_pre_def fun_eq_iff)
  have nodes: "set (keys (sr_surfaces reg)) = set (keys ss)" by (simp add: reg keys_sort_items)
  have "\<exists>xs. surface_topological_order (sr_surfaces reg) = Inr xs"
    using surface_graph.order_exists_iff [OF d] surface_graph.order_exists_iff [OF dist] ord
    by (auto simp: surface_graph.closed_graph_def nodes pre)
  then obtain xs where xs: "surface_topological_order (sr_surfaces reg) = Inr xs" by blast
  have "xs = ordered"
    by (rule surface_graph.order_stable [OF dist d xs ord nodes]) (simp add: pre)
  with xs reg show "surface_topological_order (sr_surfaces reg) = Inr (sr_topological_surface_ids reg)" by simp
  show "set (sd_owned_unit_ids d) \<subseteq> set (keys (sr_units reg))" if "map_of (sr_surfaces reg) s = Some d" for s d
  proof -
    have "(s, d) \<in> set ss" using that m by (simp add: map_of_SomeD)
    then have "set (sd_owned_unit_ids d) \<subseteq> set (map fst owners)"
      unfolding own by force
    then show ?thesis using ks by (simp add: reg keys_sort_items)
  qed
qed

lemma compute_digests_total:
  assumes "validate_surface_registry rd ivd = Inr reg" and "parse_evidence reg evd = Inr ev"
  shows "\<exists>D. compute_surface_digests reg evd = Inr D \<and> keys D = sr_topological_surface_ids reg \<and>
    (\<forall>s \<in> set (keys D). value_at D s = sha256_hex (surface_preimage (sr_surfaces reg) ev D s))"
proof -
  note f = verified_registry_facts [OF assms(1)]
  note g = surface_graph.order_greedy [OF f(1,2)] surface_graph.order_before [OF f(1,2)]
  have "\<exists>D. foldr_res (compute_surface_digest reg ev) [] (sr_topological_surface_ids reg) = Inr D \<and>
      keys D = keys ([] :: digests) @ sr_topological_surface_ids reg \<and>
      (\<forall>s \<in> set (keys D). value_at D s = sha256_hex (surface_preimage (sr_surfaces reg) ev D s))"
  proof (rule compute_digests_fold)
    show "set (sd_owned_unit_ids d) \<subseteq> set (keys ev)" if "map_of (sr_surfaces reg) s = Some d" for s d
      using f(3) [OF that] parse_evidence_keys [OF assms(2)] by simp
  qed (use g in \<open>auto simp: keys_def\<close>)
  then show ?thesis by (simp add: compute_surface_digests_def assms(2) compute_digests_def keys_def)
qed

text \<open>
  C33: For a verified registry and complete evidence the digests of all surfaces are computed without
  a failure, exactly one per surface and in topological order, and each is the SHA-256 of the
  surface's descriptor, the leaf digests of its units and the digests of the surfaces it refers to.
\<close>

theorem surface_digests_total:
  assumes "validate_surface_registry rd ivd = Inr reg" and "parse_evidence reg evd = Inr ev"
  shows "\<exists>D. compute_surface_digests reg evd = Inr D \<and> map fst D = sr_topological_surface_ids reg \<and>
    list_all (\<lambda>(s, h). h = sha256_hex (surface_preimage (sr_surfaces reg) ev D s)) D"
proof -
  obtain D where D: "compute_surface_digests reg evd = Inr D" "keys D = sr_topological_surface_ids reg"
    "\<forall>s \<in> set (keys D). value_at D s = sha256_hex (surface_preimage (sr_surfaces reg) ev D s)"
    using compute_digests_total [OF assms] by blast
  have "distinct (keys D)"
    using D(2) surface_graph.order_greedy [OF verified_registry_facts(1,2) [OF assms(1)]] by simp
  then have "h = value_at D s" if "(s, h) \<in> set D" for s h
    using that by (simp add: keys_def value_at_def)
  with D(3) have "h = sha256_hex (surface_preimage (sr_surfaces reg) ev D s)" if "(s, h) \<in> set D" for s h
    using that by (force simp: keys_def)
  with D show ?thesis by (auto simp: keys_def list_all_iff)
qed

lemma canon_pair: "k \<noteq> l \<Longrightarrow> canon (PDict [(k, PStr a), (l, PStr b)]) = canon (PDict [(k, PStr c), (l, PStr e)]) \<longleftrightarrow> a = c \<and> b = e"
  using canon_get [of "[(k, PStr a), (l, PStr b)]" "[(k, PStr c), (l, PStr e)]" k]
    canon_get [of "[(k, PStr a), (l, PStr b)]" "[(k, PStr c), (l, PStr e)]" l]
  by (auto simp: keys_def get_def simp del: canon.simps) auto

lemma canon_pairs:
  assumes "k \<noteq> l"
    and "canon (PList (map (\<lambda>(a, b). PDict [(k, PStr a), (l, PStr b)]) xs)) =
      canon (PList (map (\<lambda>(a, b). PDict [(k, PStr a), (l, PStr b)]) ys))"
  shows "xs = ys"
proof -
  have "map (\<lambda>p. canon (PDict [(k, PStr (fst p)), (l, PStr (snd p))])) xs =
      map (\<lambda>p. canon (PDict [(k, PStr (fst p)), (l, PStr (snd p))])) ys"
    using assms(2) by (simp add: case_prod_beta comp_def del: canon.simps(2)) 
  moreover have "inj (\<lambda>p. canon (PDict [(k, PStr (fst p)), (l, PStr (snd p))]))"
    by (rule injI) (simp add: canon_pair [OF assms(1)] prod_eq_iff del: canon.simps)
  ultimately show ?thesis by (simp add: inj_map_eq_map)
qed

lemma digest_projection_inj:
  assumes "canon (digest_projection d o1 r1) = canon (digest_projection d o2 r2)"
  shows "o1 = o2 \<and> r1 = r2"
proof -
  have dist: "distinct (keys [(''surface_id'', a), (''surface_kind'', b), (''descriptor_version'', c),
      (''digest_recipe_id'', x), (''owned_units'', y), (''references'', z :: pyval)])" for a b c x y z
    by (simp add: keys_def)
  note g = canon_get [OF assms [unfolded digest_projection_def] dist dist]
  have ne: "''unit_id'' \<noteq> ''leaf_digest''" "''surface_id'' \<noteq> ''surface_digest''" by simp_all
  have "o1 = o2"
    by (rule canon_pairs [OF ne(1)]) (use g [of "''owned_units''"] in \<open>simp add: get_def del: canon.simps\<close>)
  moreover have "r1 = r2"
    by (rule canon_pairs [OF ne(2)]) (use g [of "''references''"] in \<open>simp add: get_def del: canon.simps\<close>)
  ultimately show ?thesis by simp
qed

definition owned_units :: "surfaces \<Rightarrow> string \<Rightarrow> string list" where
  "owned_units ss s = (case map_of ss s of None \<Rightarrow> [] | Some d \<Rightarrow> sd_owned_unit_ids d)"

lemma surface_preimage_eq_iff:
  assumes "map_of ss s = Some d"
  shows "surface_preimage ss ev D s = surface_preimage ss ev' D' s \<longleftrightarrow>
    (\<forall>u \<in> set (owned_units ss s). leaf_of ev u = leaf_of ev' u) \<and>
    (\<forall>r \<in> set (surface_pre ss s). value_at D r = value_at D' r)"
proof -
  let ?own = "\<lambda>ev. map (\<lambda>u. (u, leaf_of ev u)) (sd_owned_unit_ids d)"
  let ?ref = "\<lambda>D. map (\<lambda>r. (r, value_at D r)) (sd_references d)"
  have pre: "surface_preimage ss ev D s = digest_preimage ''agent-workflow.runtime-surface.v1''
      (digest_projection d (?own ev) (?ref D))" for ev D
    by (simp add: surface_preimage_def assms)
  have "surface_preimage ss ev D s = surface_preimage ss ev' D' s \<longleftrightarrow> ?own ev = ?own ev' \<and> ?ref D = ?ref D'"
  proof
    assume "surface_preimage ss ev D s = surface_preimage ss ev' D' s"
    then have "canon (digest_projection d (?own ev) (?ref D)) = canon (digest_projection d (?own ev') (?ref D'))"
      unfolding pre using digest_preimage_inj wf_digest_projection runtime_surface_domain by blast
    then show "?own ev = ?own ev' \<and> ?ref D = ?ref D'" by (rule digest_projection_inj)
  next
    assume "?own ev = ?own ev' \<and> ?ref D = ?ref D'"
    then show "surface_preimage ss ev D s = surface_preimage ss ev' D' s" unfolding pre by metis
  qed
  then show ?thesis by (simp add: owned_units_def surface_pre_def assms)
qed

text \<open>Leaves agree on everything a surface reaches exactly when they do on the surface and below each reference.\<close>

lemma closure_unfold:
  "(\<forall>t. (s, t) \<in> (ref_rel ss)\<^sup>* \<longrightarrow> P t) \<longleftrightarrow>
     P s \<and> (\<forall>r \<in> set (surface_pre ss s). \<forall>t. (r, t) \<in> (ref_rel ss)\<^sup>* \<longrightarrow> P t)"
proof -
  have mem: "(s, t) \<in> (ref_rel ss)\<^sup>* \<longleftrightarrow> t = s \<or> (\<exists>r \<in> set (surface_pre ss s). (r, t) \<in> (ref_rel ss)\<^sup>*)" for t
  proof
    assume "(s, t) \<in> (ref_rel ss)\<^sup>*"
    then show "t = s \<or> (\<exists>r \<in> set (surface_pre ss s). (r, t) \<in> (ref_rel ss)\<^sup>*)"
      by (cases rule: converse_rtranclE) (auto simp: ref_rel_def)
  next
    assume "t = s \<or> (\<exists>r \<in> set (surface_pre ss s). (r, t) \<in> (ref_rel ss)\<^sup>*)"
    then show "(s, t) \<in> (ref_rel ss)\<^sup>*"
    proof
      assume "\<exists>r \<in> set (surface_pre ss s). (r, t) \<in> (ref_rel ss)\<^sup>*"
      then obtain r where "(s, r) \<in> ref_rel ss" "(r, t) \<in> (ref_rel ss)\<^sup>*" by (auto simp: ref_rel_def)
      then show ?thesis by (rule converse_rtrancl_into_rtrancl)
    qed simp
  qed
  show ?thesis unfolding mem by blast
qed

lemma merkle_prefix:
  assumes pre: "\<And>ys x zs. ordered = ys @ x # zs \<Longrightarrow> set (surface_pre ss x) \<subseteq> set ys"
    and known: "set ordered \<subseteq> set (keys ss)"
    and D: "\<forall>s \<in> set ordered. value_at D s = sha256_hex (surface_preimage ss ev D s)"
    and D': "\<forall>s \<in> set ordered. value_at D' s = sha256_hex (surface_preimage ss ev' D' s)"
    and coll: "\<forall>t \<in> set ordered. \<not> sha_collision (surface_preimage ss ev D t) (surface_preimage ss ev' D' t)"
  shows "ordered = ys @ zs \<Longrightarrow> s \<in> set ys \<Longrightarrow> value_at D s = value_at D' s \<longleftrightarrow>
    (\<forall>t. (s, t) \<in> (ref_rel ss)\<^sup>* \<longrightarrow> (\<forall>u \<in> set (owned_units ss t). leaf_of ev u = leaf_of ev' u))"
proof (induction ys arbitrary: zs s rule: rev_induct)
  case (snoc x ys)
  have IH: "value_at D r = value_at D' r \<longleftrightarrow>
      (\<forall>t. (r, t) \<in> (ref_rel ss)\<^sup>* \<longrightarrow> (\<forall>u \<in> set (owned_units ss t). leaf_of ev u = leaf_of ev' u))" if "r \<in> set ys" for r
    using snoc.IH [of "x # zs" r] snoc.prems(1) that by simp
  show ?case
  proof (cases "s \<in> set ys")
    case False
    then have s: "s = x" using snoc.prems(2) by simp
    have x: "x \<in> set ordered" using snoc.prems(1) by simp
    then obtain d where d: "map_of ss x = Some d"
      using known has_key_iff [of ss x] by (auto simp: has_key_def keys_def)
    have refs: "set (surface_pre ss x) \<subseteq> set ys" using pre [of ys x zs] snoc.prems(1) by simp
    have "value_at D x = value_at D' x \<longleftrightarrow> surface_preimage ss ev D x = surface_preimage ss ev' D' x"
      using D D' coll x by (auto simp: sha_collision_def)
    also have "\<dots> \<longleftrightarrow> (\<forall>u \<in> set (owned_units ss x). leaf_of ev u = leaf_of ev' u) \<and>
        (\<forall>r \<in> set (surface_pre ss x). value_at D r = value_at D' r)"
      by (rule surface_preimage_eq_iff [OF d])
    also have "\<dots> \<longleftrightarrow> (\<forall>t. (x, t) \<in> (ref_rel ss)\<^sup>* \<longrightarrow> (\<forall>u \<in> set (owned_units ss t). leaf_of ev u = leaf_of ev' u))"
    proof -
      have "(\<forall>r \<in> set (surface_pre ss x). value_at D r = value_at D' r) \<longleftrightarrow> (\<forall>r \<in> set (surface_pre ss x).
          \<forall>t. (r, t) \<in> (ref_rel ss)\<^sup>* \<longrightarrow> (\<forall>u \<in> set (owned_units ss t). leaf_of ev u = leaf_of ev' u))"
        by (rule ball_cong [OF refl]) (use IH refs in blast)
      then show ?thesis by (simp only: closure_unfold [of x])
    qed
    finally show ?thesis unfolding s .
  qed (rule IH)
qed simp

text \<open>
  C2: The surface digests are a Merkle graph: for a verified registry and two sets of evidence, the
  digest of a surface stays the same exactly when no leaf digest of a unit owned by the surface or
  by a surface it reaches changes, unless the computation exhibits a collision of SHA-256.
\<close>

theorem surface_digest_merkle:
  assumes "validate_surface_registry rd ivd = Inr reg"
    and "parse_evidence reg evd1 = Inr ev1" and "compute_surface_digests reg evd1 = Inr D1"
    and "parse_evidence reg evd2 = Inr ev2" and "compute_surface_digests reg evd2 = Inr D2"
    and "s \<in> set (keys (sr_surfaces reg))"
  shows "(\<exists>t \<in> set (keys (sr_surfaces reg)). sha_collision (surface_preimage (sr_surfaces reg) ev1 D1 t)
      (surface_preimage (sr_surfaces reg) ev2 D2 t)) \<or>
    (map_of D1 s = map_of D2 s \<longleftrightarrow>
      (\<forall>t. (s, t) \<in> (ref_rel (sr_surfaces reg))\<^sup>* \<longrightarrow>
        (\<forall>u \<in> set (owned_units (sr_surfaces reg) t). leaf_of ev1 u = leaf_of ev2 u)))"
proof -
  note f = verified_registry_facts [OF assms(1)]
  note g = surface_graph.order_greedy [OF f(1,2)] surface_graph.order_before [OF f(1,2)]
  have D: "keys D1 = sr_topological_surface_ids reg" "keys D2 = sr_topological_surface_ids reg"
    "\<forall>s \<in> set (sr_topological_surface_ids reg). value_at D1 s = sha256_hex (surface_preimage (sr_surfaces reg) ev1 D1 s)"
    "\<forall>s \<in> set (sr_topological_surface_ids reg). value_at D2 s = sha256_hex (surface_preimage (sr_surfaces reg) ev2 D2 s)"
    using compute_digests_total [OF assms(1,2)] compute_digests_total [OF assms(1,4)] assms(3,5) by auto
  have nodes: "set (sr_topological_surface_ids reg) = set (keys (sr_surfaces reg))" using g(1) by blast
  have "map_of D1 s = Some (value_at D1 s)" "map_of D2 s = Some (value_at D2 s)"
    using assms(6) D(1,2) nodes lookup_value_at [of s D1] lookup_value_at [of s D2] by (simp_all add: lookup_Inr_iff)
  then have "map_of D1 s = map_of D2 s \<longleftrightarrow> value_at D1 s = value_at D2 s" by simp
  then show ?thesis
    using merkle_prefix [of "sr_topological_surface_ids reg" "sr_surfaces reg" D1 ev1 D2 ev2
        "sr_topological_surface_ids reg" "[]" s] g(2) D(3,4) assms(6) nodes by auto
qed

section \<open>Instances\<close>

definition sample_surface :: "string \<Rightarrow> string \<Rightarrow> string \<Rightarrow> string list \<Rightarrow> pyval" where
  "sample_surface s k u refs = PDict [(''surface_id'', PStr s), (''surface_kind'', PStr k), (''descriptor_version'', PInt 1),
     (''digest_recipe_id'', PStr ''surface-content-v1''), (''owned_unit_ids'', PList [PStr u]),
     (''references'', PList (map PStr refs)), (''contract_change_class'', PStr ''runtime-visible'')]"

definition sample_unit :: "string \<Rightarrow> string \<Rightarrow> string \<Rightarrow> pyval" where
  "sample_unit i u s = PDict [(''unit_id'', PStr i), (''unit_kind'', PStr ''py''),
     (''distribution_scope'', PStr ''rendered-project''), (''normalized_path'', PStr u), (''owning_surface_id'', PStr s),
     (''leaf_recipe_id'', PStr ''bytes-mode-contract-v1''), (''runtime_visible'', PBool True)]"

definition sample_registry_document :: dict where
  "sample_registry_document = [(''schema_id'', PStr ''agent-workflow.runtime-surface-registry''), (''schema_version'', PInt 1),
     (''surfaces'', PList [
        sample_surface ''router:main'' ''router'' ''py:c'' [''runtime-control-plane'', ''surface-registry''],
        sample_surface ''runtime-control-plane'' ''runtime-control-plane'' ''py:a'' [],
        sample_surface ''surface-registry'' ''surface-registry'' ''py:b'' []])]"

definition sample_inventory_document :: dict where
  "sample_inventory_document = [(''schema_id'', PStr ''agent-workflow.runtime-unit-inventory''), (''schema_version'', PInt 1),
     (''units'', PList [sample_unit ''py:a'' ''a'' ''runtime-control-plane'', sample_unit ''py:b'' ''b'' ''surface-registry'',
        sample_unit ''py:c'' ''c'' ''router:main''])]"

definition sample_descriptor :: "string \<Rightarrow> string \<Rightarrow> string \<Rightarrow> string list \<Rightarrow> string \<times> surface_descriptor" where
  "sample_descriptor s k u refs = (s, \<lparr>sd_surface_id = s, sd_surface_kind = k, sd_descriptor_version = 1,
     sd_digest_recipe_id = ''surface-content-v1'', sd_owned_unit_ids = [u], sd_references = refs,
     sd_contract_change_class = ''runtime-visible''\<rparr>)"

definition sample_surfaces :: surfaces where
  "sample_surfaces = [
     sample_descriptor ''router:main'' ''router'' ''py:c'' [''runtime-control-plane'', ''surface-registry''],
     sample_descriptor ''runtime-control-plane'' ''runtime-control-plane'' ''py:a'' [],
     sample_descriptor ''surface-registry'' ''surface-registry'' ''py:b'' []]"

definition sample_runtime_unit :: "string \<Rightarrow> string \<Rightarrow> string \<Rightarrow> string \<times> runtime_unit" where
  "sample_runtime_unit i u s = (i, \<lparr>ru_unit_id = i, ru_unit_kind = ''py'',
     ru_distribution_scope = ''rendered-project'', ru_normalized_path = u, ru_owning_surface_id = s,
     ru_leaf_recipe_id = ''bytes-mode-contract-v1''\<rparr>)"

definition sample_units :: units where
  "sample_units = [sample_runtime_unit ''py:a'' ''a'' ''runtime-control-plane'', sample_runtime_unit ''py:b'' ''b'' ''surface-registry'',
     sample_runtime_unit ''py:c'' ''c'' ''router:main'']"

definition sample_registry :: surface_registry where
  "sample_registry = \<lparr>sr_surfaces = sample_surfaces, sr_units = sample_units,
     sr_topological_surface_ids = [''runtime-control-plane'', ''surface-registry'', ''router:main''],
     sr_registry_digest = sha256_hex (digest_preimage ''agent-workflow.surface-registry.v1''
       (registry_projection sample_surfaces sample_units))\<rparr>"

lemma sample_surface_parsed:
  assumes "surface_kind s = Some k" and "\<not> has_key ss s" and "surface_string_set (PList (map PStr refs)) = Inr refs"
  shows "parse_surface ss (sample_surface s k u refs) = Inr (ss @ [sample_descriptor s k u refs])"
proof -
  have u: "surface_string_set (PList [PStr u]) = Inr [u]"
    by (simp add: surface_string_set_def sorted_set_def Let_def)
  show ?thesis
    using assms(2) by (simp add: parse_surface_def sample_surface_def as_mapping_def require_def same_strs_def subset_strs_def keys_def
        SURFACE_FIELDS_def get_def assms(1,3) u sample_descriptor_def has_key_def update_new)
qed

lemma sample_surfaces_parsed: "parse_surfaces sample_registry_document = Inr sample_surfaces"
proof -
  have kinds: "surface_kind ''router:main'' = Some ''router''" "surface_kind ''runtime-control-plane'' = Some ''runtime-control-plane''"
    "surface_kind ''surface-registry'' = Some ''surface-registry''"
    by code_simp+
  have refs: "surface_string_set (PList (map PStr [''runtime-control-plane'', ''surface-registry''])) =
      Inr [''runtime-control-plane'', ''surface-registry'']" "surface_string_set (PList (map PStr [])) = Inr []"
    by code_simp+
  have "foldr_res parse_surface [] [
      sample_surface ''router:main'' ''router'' ''py:c'' [''runtime-control-plane'', ''surface-registry''],
      sample_surface ''runtime-control-plane'' ''runtime-control-plane'' ''py:a'' [],
      sample_surface ''surface-registry'' ''surface-registry'' ''py:b'' []] = Inr sample_surfaces"
    by (simp add: sample_surface_parsed kinds refs [simplified] has_key_def keys_def sample_descriptor_def sample_surfaces_def)
  then show ?thesis
    by (simp add: parse_surfaces_def sample_registry_document_def require_def same_strs_def subset_strs_def keys_def
        REGISTRY_FIELDS_def get_def as_array_def has_key_def sample_surfaces_def sample_descriptor_def)
qed

lemma sample_unit_parsed:
  assumes "unit_id_format i" and "hd (split_on (CHR '':'') i) = ''py''" and "normalize_path (PStr u) = Inr u" and "casefold u = u"
    and "\<not> has_key us i" and "\<not> has_key paths u"
  shows "parse_unit (us, paths) (sample_unit i u s) = Inr (us @ [sample_runtime_unit i u s], paths @ [(u, i)])"
  using assms by (simp add: parse_unit_def sample_unit_def as_mapping_def require_def same_strs_def subset_strs_def keys_def
      UNIT_FIELDS_def get_def as_unit_id_def as_str_def EXPECTED_DISTRIBUTIONS_def sample_runtime_unit_def has_key_def update_new)

lemma sample_units_parsed: "parse_units sample_inventory_document = Inr sample_units"
proof -
  have ids: "unit_id_format ''py:a''" "unit_id_format ''py:b''" "unit_id_format ''py:c''"
    "hd (split_on (CHR '':'') ''py:a'') = ''py''" "hd (split_on (CHR '':'') ''py:b'') = ''py''" "hd (split_on (CHR '':'') ''py:c'') = ''py''"
    by code_simp+
  have paths: "normalize_path (PStr ''a'') = Inr ''a''" "normalize_path (PStr ''b'') = Inr ''b''" "normalize_path (PStr ''c'') = Inr ''c''"
    "casefold ''a'' = ''a''" "casefold ''b'' = ''b''" "casefold ''c'' = ''c''"
    by (simp_all add: normalize_path_Inr_iff canonical_path_def windows_drive_def alias_segment_def ord_def casefold_def casefold_char_def)
  have "\<exists>paths. foldr_res parse_unit ([], []) [sample_unit ''py:a'' ''a'' ''runtime-control-plane'', sample_unit ''py:b'' ''b'' ''surface-registry'',
        sample_unit ''py:c'' ''c'' ''router:main''] = Inr (sample_units, paths)"
    by (simp add: sample_unit_parsed ids paths has_key_def keys_def sample_runtime_unit_def sample_units_def)
  then show ?thesis
    by (auto simp: parse_units_def sample_inventory_document_def require_def same_strs_def subset_strs_def keys_def
        INVENTORY_FIELDS_def get_def as_array_def)
qed

lemma sample_surfaces_ordered:
  "surface_topological_order sample_surfaces = Inr [''runtime-control-plane'', ''surface-registry'', ''router:main'']"
  by code_simp

lemma sample_surfaces_owned:
  "foldr_res claim_owner [] (concat (map (\<lambda>(s, d). map (\<lambda>u. (s, u)) (sd_owned_unit_ids d)) sample_surfaces)) =
     Inr [(''py:c'', ''router:main''), (''py:a'', ''runtime-control-plane''), (''py:b'', ''surface-registry'')]"
  by code_simp

lemma sample_surfaces_checked:
  "mapr (check_owner sample_surfaces
     [(''py:c'', ''router:main''), (''py:a'', ''runtime-control-plane''), (''py:b'', ''surface-registry'')]) sample_units = Inr [(), (), ()]"
  "mapr (check_mandatory sample_surfaces) sample_surfaces = Inr [(), (), ()]"
  "same_strs (keys [(''py:c'', ''router:main''), (''py:a'', ''runtime-control-plane''), (''py:b'', ''surface-registry'')])
     (keys sample_units)"
  by code_simp+

lemma sample_sorted: "sort_items sample_surfaces = sample_surfaces" "sort_items sample_units = sample_units"
  by code_simp+


lemma wf_registry_projection: "wf_pyval (registry_projection ss us)" "json_value (registry_projection ss us)"
  by (auto simp: registry_projection_def surface_projection_def unit_projection_def list_all_iff)

lemma sample_registry_ok: "validate_surface_registry sample_registry_document sample_inventory_document = Inr sample_registry"
proof -
  have "digest_domain ''agent-workflow.surface-registry.v1''" by (simp add: digest_domain_def ord_def)
  then have "digest ''agent-workflow.surface-registry.v1'' (registry_projection sample_surfaces sample_units) =
      Inr (sr_registry_digest sample_registry)"
    using wf_registry_projection by (simp add: digest_ok sample_registry_def)
  then show ?thesis
    by (simp add: validate_surface_registry_def sample_surfaces_parsed sample_units_parsed sample_surfaces_ordered
        sample_surfaces_owned sample_surfaces_checked sample_sorted require_def sample_registry_def)
qed

theorem registry_ownership_partition_witness:
  "set (keys (sr_units sample_registry)) = (\<Union>(s, d) \<in> set (sr_surfaces sample_registry). set (sd_owned_unit_ids d))"
  using registry_ownership_partition [OF sample_registry_ok] by blast

theorem registry_order_topological_witness:
  "sr_topological_surface_ids sample_registry = [''runtime-control-plane'', ''surface-registry'', ''router:main''] \<and>
     acyclic (prereq_rel (set (keys sample_surfaces)) (surface_pre sample_surfaces))"
  using registry_order_topological [OF sample_registry_ok sample_surfaces_parsed] by (simp add: sample_registry_def)

theorem task_loadable_reaches_mandatory_witness:
  "(''router:main'', ''runtime-control-plane'') \<in> (ref_rel sample_surfaces)\<^sup>+"
proof -
  have "(''router:main'', snd (hd sample_surfaces)) \<in> set sample_surfaces"
    "sd_surface_kind (snd (hd sample_surfaces)) \<in> set TASK_LOADABLE_KINDS"
    by (simp_all add: sample_surfaces_def sample_descriptor_def TASK_LOADABLE_KINDS_def)
  from task_loadable_reaches_mandatory [OF sample_registry_ok sample_surfaces_parsed this] show ?thesis by blast
qed

definition sample_unit_evidence :: "string \<Rightarrow> char \<Rightarrow> dict" where
  "sample_unit_evidence i c = [(''unit_id'', PStr i), (''byte_hash'', PStr (sha_of c)), (''mode'', PStr ''0644''),
     (''contract_digest'', PStr CANONICAL_NULL), (''distributions'', PList [PStr ''rendered-project''])]"

definition sample_evidence :: "char \<Rightarrow> dict list" where
  "sample_evidence c = [sample_unit_evidence ''py:a'' c, sample_unit_evidence ''py:b'' (CHR ''b''), sample_unit_evidence ''py:c'' (CHR ''c'')]"

lemma sample_unit_evidence_ok:
  assumes "map_of sample_units i = Some (snd (sample_runtime_unit i u s))" and "\<not> has_key parsed i" and "is_hex c"
  shows "\<exists>e. parse_unit_evidence sample_registry parsed (sample_unit_evidence i c) = Inr (parsed @ [(i, e)])"
proof -
  have known: "has_key sample_units i"
    using assms(1) by (simp add: has_key_iff)
  have sha: "is_sha256 (sha_of c)" using assms(3) by (simp add: is_sha256_sha_of)
  have mode: "evidence_mode (PStr ''0644'') = Inr ''0644''" by code_simp
  have dist: "evidence_distributions (PList [PStr ''rendered-project'']) = Inr [''rendered-project'']" by code_simp
  have leaf: "wf_pyval (leaf_projection i r b m d)" "json_value (leaf_projection i r b m d)" for i r b m d
    by (simp_all add: leaf_projection_def)
  have new: "AList.update i e parsed = parsed @ [(i, e)]" for e
    by (rule update_new) (use assms(2) in \<open>simp add: has_key_def keys_def\<close>)
  show ?thesis
    by (simp add: parse_unit_evidence_def sample_unit_evidence_def require_def same_strs_def subset_strs_def
        keys_def [of "[(a, b), (c, d), (e, f), (g, h), (k, l)]" for a b c d e f g h k l]
        EVIDENCE_FIELDS_def get_def as_str_def known assms(1,2) as_sha256_def sha evidence_digest_def mode dist lookup_def
        EXPECTED_DISTRIBUTIONS_def sample_registry_def sample_runtime_unit_def plain_digest_def leaf canonical_json_bytes_ok new)
qed

lemma sample_evidence_ok:
  assumes "is_hex c"
  shows "\<exists>ev. parse_evidence sample_registry (sample_evidence c) = Inr ev"
proof -
  have units: "map_of sample_units ''py:a'' = Some (snd (sample_runtime_unit ''py:a'' ''a'' ''runtime-control-plane''))"
    "map_of sample_units ''py:b'' = Some (snd (sample_runtime_unit ''py:b'' ''b'' ''surface-registry''))"
    "map_of sample_units ''py:c'' = Some (snd (sample_runtime_unit ''py:c'' ''c'' ''router:main''))"
    by (simp_all add: sample_units_def sample_runtime_unit_def)
  have hex: "is_hex (CHR ''b'')" "is_hex (CHR ''c'')" by (simp_all add: is_hex_def)
  obtain e1 where 1: "parse_unit_evidence sample_registry [] (sample_unit_evidence ''py:a'' c) = Inr [(''py:a'', e1)]"
    using sample_unit_evidence_ok [OF units(1) _ assms, of "[]"] by (auto simp: has_key_def keys_def)
  obtain e2 where 2: "parse_unit_evidence sample_registry [(''py:a'', e1)] (sample_unit_evidence ''py:b'' (CHR ''b'')) =
      Inr [(''py:a'', e1), (''py:b'', e2)]"
    using sample_unit_evidence_ok [OF units(2) _ hex(1), of "[(''py:a'', e1)]"] by (auto simp: has_key_def keys_def)
  obtain e3 where 3: "parse_unit_evidence sample_registry [(''py:a'', e1), (''py:b'', e2)] (sample_unit_evidence ''py:c'' (CHR ''c'')) =
      Inr [(''py:a'', e1), (''py:b'', e2), (''py:c'', e3)]"
    using sample_unit_evidence_ok [OF units(3) _ hex(2), of "[(''py:a'', e1), (''py:b'', e2)]"] by (auto simp: has_key_def keys_def)
  have "same_strs (keys [(''py:a'', e1), (''py:b'', e2), (''py:c'', e3)]) (keys (sr_units sample_registry))"
    by (simp add: same_strs_def subset_strs_def keys_def sample_registry_def sample_units_def sample_runtime_unit_def)
  then show ?thesis
    by (simp add: parse_evidence_def sample_evidence_def 1 2 3 require_def)
qed

theorem surface_digests_total_witness:
  "\<exists>D. compute_surface_digests sample_registry (sample_evidence (CHR ''a'')) = Inr D \<and>
     map fst D = [''runtime-control-plane'', ''surface-registry'', ''router:main'']"
proof -
  obtain ev where "parse_evidence sample_registry (sample_evidence (CHR ''a'')) = Inr ev"
    using sample_evidence_ok [of "CHR ''a''"] by (auto simp: is_hex_def)
  from surface_digests_total [OF sample_registry_ok this] show ?thesis by (auto simp: sample_registry_def)
qed

text \<open>Two sets of evidence that differ in a unit of the control plane: the digest of the router depends on it.\<close>

theorem surface_digest_merkle_witness:
  "\<exists>ev1 D1 ev2 D2. parse_evidence sample_registry (sample_evidence (CHR ''a'')) = Inr ev1 \<and>
     parse_evidence sample_registry (sample_evidence (CHR ''d'')) = Inr ev2 \<and>
     compute_surface_digests sample_registry (sample_evidence (CHR ''a'')) = Inr D1 \<and>
     compute_surface_digests sample_registry (sample_evidence (CHR ''d'')) = Inr D2 \<and>
     ((\<exists>t \<in> set (keys (sr_surfaces sample_registry)). sha_collision (surface_preimage (sr_surfaces sample_registry) ev1 D1 t)
        (surface_preimage (sr_surfaces sample_registry) ev2 D2 t)) \<or>
      (map_of D1 ''router:main'' = map_of D2 ''router:main'' \<longleftrightarrow>
        (\<forall>t. (''router:main'', t) \<in> (ref_rel (sr_surfaces sample_registry))\<^sup>* \<longrightarrow>
          (\<forall>u \<in> set (owned_units (sr_surfaces sample_registry) t). leaf_of ev1 u = leaf_of ev2 u))))"
proof -
  obtain ev1 ev2 where ev: "parse_evidence sample_registry (sample_evidence (CHR ''a'')) = Inr ev1"
    "parse_evidence sample_registry (sample_evidence (CHR ''d'')) = Inr ev2"
    using sample_evidence_ok [of "CHR ''a''"] sample_evidence_ok [of "CHR ''d''"] by (auto simp: is_hex_def)
  obtain D1 D2 where D: "compute_surface_digests sample_registry (sample_evidence (CHR ''a'')) = Inr D1"
    "compute_surface_digests sample_registry (sample_evidence (CHR ''d'')) = Inr D2"
    using compute_digests_total [OF sample_registry_ok ev(1)] compute_digests_total [OF sample_registry_ok ev(2)] by blast
  have "''router:main'' \<in> set (keys (sr_surfaces sample_registry))"
    by (simp add: sample_registry_def sample_surfaces_def sample_descriptor_def keys_def)
  from surface_digest_merkle [OF sample_registry_ok ev(1) D(1) ev(2) D(2) this] ev D show ?thesis by blast
qed

text \<open>Both documents of the registry are closed: an unknown field is refused.\<close>

interpretation registry_document: closed_document parse_surfaces REGISTRY_FIELDS
proof
  fix d assume "is_ok (parse_surfaces d)"
  then obtain ss where "parse_surfaces d = Inr ss" by (auto simp: is_ok_def split: sum.splits)
  then show "set (keys d) = set REGISTRY_FIELDS"
    by (auto simp: parse_surfaces_def res_simps same_strs_iff)
qed

interpretation inventory_document: closed_document parse_units INVENTORY_FIELDS
proof
  fix d assume "is_ok (parse_units d)"
  then obtain us where "parse_units d = Inr us" by (auto simp: is_ok_def split: sum.splits)
  then show "set (keys d) = set INVENTORY_FIELDS"
    by (auto simp: parse_units_def res_simps same_strs_iff)
qed

lemma registry_documents_closed:
  assumes "validate_surface_registry rd ivd = Inr reg"
  shows "k \<in> set REGISTRY_FIELDS \<Longrightarrow> \<exists>v. map_of rd k = Some v"
    and "l \<in> set INVENTORY_FIELDS \<Longrightarrow> \<exists>v. map_of ivd l = Some v"
    and "k \<notin> set REGISTRY_FIELDS \<Longrightarrow> \<not> is_ok (validate_surface_registry ((k, v) # rd) ivd)"
proof -
  have ok: "is_ok (parse_surfaces rd)" "is_ok (parse_units ivd)"
    using assms by (auto elim!: validate_surface_registryE simp: is_ok_def)
  show "k \<in> set REGISTRY_FIELDS \<Longrightarrow> \<exists>v. map_of rd k = Some v" by (rule registry_document.field_present [OF ok(1)])
  show "l \<in> set INVENTORY_FIELDS \<Longrightarrow> \<exists>v. map_of ivd l = Some v" by (rule inventory_document.field_present [OF ok(2)])
  show "\<not> is_ok (validate_surface_registry ((k, v) # rd) ivd)" if "k \<notin> set REGISTRY_FIELDS"
  proof
    assume "is_ok (validate_surface_registry ((k, v) # rd) ivd)"
    then have "is_ok (parse_surfaces ((k, v) # rd))"
      by (auto simp: is_ok_def split: sum.splits elim!: validate_surface_registryE)
    with registry_document.unknown_field [OF that, of v rd] show False by simp
  qed
qed

end
