(* ===== verification/Resolver.thy ===== *)
theory Resolver
  imports Planning Catalog Surfaces Artifact_Policy
begin

text \<open>
  Model of \<^verbatim>\<open>core/resolver.py\<close>: the composition of the core. \<^verbatim>\<open>resolve\<close> runs the validators of the
  profile, the catalog, the workflow lock, the artifact definitions, the task layout and the
  surface registry, computes the impact of the candidate, asks the task gate, and seals the result
  as the desired state that the planner of the theory \<open>Planning\<close> takes. The lemmas show what the
  parts promise each other: a resolved state leaves the contract of every pinned surface alone,
  its digests are those of its own fields and sources, and the planner accepts its evaluations and its
  artifact definitions.
\<close>

section \<open>Inputs\<close>

record resolver_inputs =
  ri_operation :: string
  ri_release_contract :: dict
  ri_profile_sources :: "dict list"
  ri_selected_profile_id :: string
  ri_catalog_document :: dict
  ri_workflow_lock_document :: dict
  ri_capability_manifests :: "dict list"
  ri_artifact_definition_documents :: "dict list"
  ri_trellis_layout_document :: dict
  ri_surface_registry_document :: dict
  ri_runtime_unit_inventory_document :: dict
  ri_runtime_unit_evidence :: "dict list"
  ri_route_policy_document :: dict
  ri_router_contract_document :: dict
  ri_entry_ownership :: "dict list"
  ri_render_units :: "dict list"
  ri_current_contract :: dict
  ri_observed_state :: dict
  ri_repair_surface_ids :: "string list"
  ri_diagnostics :: "dict list"
  ri_task_snapshot :: dict
  ri_task_findings :: dict

definition resolver_failure :: exn where
  "resolver_failure = CoreFailure ''AWP_SCHEMA_INVALID'' 2"

definition json_mapping :: "pyval \<Rightarrow> dict res" where
  "json_mapping v = bnd (normalize_json_value v) (\<lambda>w. case w of PDict d \<Rightarrow> Inr d | _ \<Rightarrow> Inl resolver_failure)"

definition sorted_mappings :: "dict list \<Rightarrow> dict list res" where
  "sorted_mappings values =
     bnd (mapr (\<lambda>v. json_mapping (PDict v)) values) (\<lambda>normalized.
     bnd (mapr (\<lambda>d. bnd (canonical_json_bytes (PDict d)) (\<lambda>bs. Inr (bs, d))) normalized) (\<lambda>keyed.
     Inr (map snd (sort_key fst keyed))))"

definition check_release_digest :: "dict \<Rightarrow> string \<Rightarrow> unit res" where
  "check_release_digest release field = (case get release field of
     PStr s \<Rightarrow> if length s \<noteq> 64 \<or> list_ex (\<lambda>c. \<not> is_hex c) s then Inl resolver_failure else Inr ()
   | _ \<Rightarrow> Inl resolver_failure)"

definition check_release_string :: "dict \<Rightarrow> string \<Rightarrow> unit res" where
  "check_release_string release field = (case get release field of
     PStr s \<Rightarrow> if s = [] \<or> s \<noteq> strip s then Inl resolver_failure else Inr ()
   | _ \<Rightarrow> Inl resolver_failure)"

definition validate_release_contract :: "dict \<Rightarrow> dict res" where
  "validate_release_contract value =
     bnd (json_mapping (PDict value)) (\<lambda>release.
     if \<not> same_strs (keys release) [''release_id'', ''release_manifest_digest'', ''release_trust_policy_id'',
          ''release_trust_policy_digest'', ''version''] then Inl resolver_failure
     else bnd (mapr (check_release_digest release) [''release_id'', ''release_manifest_digest'', ''release_trust_policy_digest'']) (\<lambda>_.
     bnd (mapr (check_release_string release) [''release_trust_policy_id'', ''version'']) (\<lambda>_.
     Inr release)))"

section \<open>Projections\<close>

definition profile_projection :: "resolved_profile \<Rightarrow> dict res" where
  "profile_projection profile = json_mapping (PDict
     [(''schema_version'', PInt (rp_schema_version profile)), (''profile_id'', PStr (rp_profile_id profile)),
      (''route_admission'', PDict (rp_route_admission profile)),
      (''bindings'', PDict (map (\<lambda>(mode, platforms). (mode, PDict (map (\<lambda>(p, v). (p, PStr v)) platforms))) (rp_bindings profile))),
      (''skills_enable'', PList (map PStr (rp_skills_enable profile))),
      (''skills_disable'', PList (map PStr (rp_skills_disable profile))),
      (''artifact_policy'', PStr (rp_artifact_policy profile)),
      (''default_platforms'', PList (map PStr (rp_default_platforms profile))),
      (''required_capabilities'', PDict (map (\<lambda>(c, l). (c, PStr (level_value l))) (rp_required_capabilities profile))),
      (''approval_policy'', PDict (rp_approval_policy profile)),
      (''provider_security_policy'', PDict (rp_provider_security_policy profile))])"

definition component_document :: "workflow_component \<Rightarrow> pyval" where
  "component_document c = PDict
     [(''id'', PStr (wc_component_id c)), (''version'', PStr (wc_version c)), (''source_sha256'', PStr (wc_source_sha256 c)),
      (''content_digest'', PStr (wc_content_digest c)), (''provider_id'', PStr (wc_provider_id c)),
      (''acquisition_id'', PStr (wc_acquisition_id c))]"

definition workflow_lock_projection :: "workflow_lock \<Rightarrow> dict res" where
  "workflow_lock_projection lock = json_mapping (PDict
     [(''schema_id'', PStr ''agent-workflow.workflow-lock''), (''schema_version'', PInt (wl_schema_version lock)),
      (''components'', PList (map component_document (wl_components lock)))])"

definition capability_projection :: "capability_result \<Rightarrow> dict res" where
  "capability_projection r = json_mapping (PDict
     [(''capability_id'', PStr (cr_capability_id r)), (''required'', PStr (level_value (cr_required r))),
      (''observed'', PStr (level_value (cr_observed r))), (''platform'', PStr (cr_platform r))])"

definition target_document :: "artifact_target \<Rightarrow> dict" where
  "target_document t =
     [(''path'', PStr (at_path t)), (''ownership'', PStr (at_ownership t)), (''merge_strategy'', PStr (at_merge_strategy t)),
      (''mode_policy'', PStr (at_mode_policy t)), (''mode'', opt_str (at_mode t)),
      (''markers'', case at_markers t of None \<Rightarrow> PNone | Some (b, e) \<Rightarrow> PDict [(''begin'', PStr b), (''end'', PStr e)])]"

definition definition_document :: "artifact_definition \<Rightarrow> dict" where
  "definition_document a =
     [(''id'', PStr (ad_definition_id a)), (''source'', PStr (ad_source a)),
      (''targets'', PList (map (\<lambda>t. PDict (target_document t)) (ad_targets a))),
      (''forbidden_paths'', PList (map PStr (ad_forbidden_paths a))),
      (''validators'', PList (map (\<lambda>(i, v). PDict [(''id'', PStr i), (''version'', PInt v)]) (ad_validators a)))]"

definition artifact_projection :: "artifact_definition list \<Rightarrow> dict list res" where
  "artifact_projection definitions =
     bnd (mapr (\<lambda>a. json_mapping (PDict (definition_document a))) definitions) (\<lambda>result.
     Inr (sort_key (\<lambda>item. py_str (get item ''id'')) result))"

definition compute_workflow_lock_digest :: "dict \<Rightarrow> string res" where
  "compute_workflow_lock_digest document =
     bnd (normalize_workflow_lock document) (\<lambda>lock.
     bnd (workflow_lock_projection lock) (\<lambda>p.
     digest ''agent-workflow.workflow-lock.v1'' (PDict p)))"

definition compute_artifact_bundle_digest :: "dict list \<Rightarrow> string res" where
  "compute_artifact_bundle_digest documents =
     bnd (validate_artifact_definitions documents) (\<lambda>definitions.
     bnd (artifact_projection definitions) (\<lambda>p.
     digest ''agent-workflow.artifact-bundle.v1'' (PList (map PDict p))))"

definition gate_blocker_exit :: "string \<Rightarrow> nat" where
  "gate_blocker_exit code = (if code = ''AWP_WORKSPACE_TASK_RECOVERY_BLOCK'' then 21 else 22)"

section \<open>The desired state as a document\<close>

definition ir_projection :: "desired_state_ir \<Rightarrow> dict" where
  "ir_projection ir =
     [(''schema_id'', PStr ''agent-workflow.desired-state-ir''), (''schema_version'', PInt 1),
      (''operation'', PStr (ir_operation ir)), (''release_contract'', PDict (ir_release_contract ir)),
      (''resolved_profile'', PDict (ir_resolved_profile ir)), (''authority_digests'', PDict (ir_authority_digests ir)),
      (''workflow_lock_projection'', PDict (ir_workflow_lock_projection ir)),
      (''selected_platforms'', PList (map PStr (ir_selected_platforms ir))),
      (''capability_results'', PList (map PDict (ir_capability_results ir))),
      (''catalog_closure'', PList (map PStr (ir_catalog_closure ir))),
      (''reference_closure'', PList (map PStr (ir_reference_closure ir))),
      (''route_policy'', PDict (ir_route_policy ir)), (''entry_ownership'', PList (map PDict (ir_entry_ownership ir))),
      (''discoverable_leaf_ids'', PList (map PStr (ir_discoverable_leaf_ids ir))),
      (''runtime_catalog_entry_ids'', PList (map PStr (ir_runtime_catalog_entry_ids ir))),
      (''trellis_task_layout'', PDict (ir_trellis_task_layout ir)), (''surface_registry'', PDict (ir_surface_registry ir)),
      (''surface_digests'', PList (map (\<lambda>(s, h). PDict [(''surface_id'', PStr s), (''surface_digest'', h)]) (ir_surface_digests ir))),
      (''coverage_result'', PDict (ir_coverage_result ir)), (''render_units'', PList (map PDict (ir_render_units ir))),
      (''artifact_definitions'', PList (map PDict (ir_artifact_definitions ir))),
      (''candidate_impact'', candidate_impact_document (ir_candidate_impact ir)),
      (''workspace_state_evaluation'', PDict (ir_workspace_state_evaluation ir)),
      (''task_gate_evaluation'', PDict (ir_task_gate_evaluation ir))]"

definition ir_to_document :: "desired_state_ir \<Rightarrow> dict" where
  "ir_to_document ir = ir_projection ir @
     [(''diagnostics'', PList (map PDict (ir_diagnostics ir))),
      (''desired_state_ir_digest'', PStr (ir_desired_state_ir_digest ir))]"

section \<open>Resolving\<close>

text \<open>What the first half of \<^verbatim>\<open>resolve\<close> derives from the verified inputs.\<close>

record resolved_sources =
  rs_release_contract :: dict
  rs_workflow_lock_projection :: dict
  rs_profile :: resolved_profile
  rs_resolved_profile :: dict
  rs_catalog :: catalog_closure
  rs_capability_results :: "dict list"
  rs_artifact_projection :: "dict list"
  rs_layout :: task_layout
  rs_registry :: surface_registry
  rs_surface_digests :: digests
  rs_coverage :: coverage_proof
  rs_route_policy :: dict
  rs_router_contract :: dict

definition resolve_sources :: "resolver_inputs \<Rightarrow> resolved_sources res" where
  "resolve_sources inputs =
     bnd (validate_release_contract (ri_release_contract inputs)) (\<lambda>release_contract.
     bnd (normalize_workflow_lock (ri_workflow_lock_document inputs)) (\<lambda>workflow_lock.
     bnd (workflow_lock_projection workflow_lock) (\<lambda>lock_projection.
     bnd (resolve_profile (ri_profile_sources inputs) (ri_selected_profile_id inputs)) (\<lambda>profile.
     bnd (profile_projection profile) (\<lambda>resolved_profile.
     bnd (resolve_catalog_closure profile (ri_catalog_document inputs) (ri_capability_manifests inputs)) (\<lambda>catalog.
     bnd (evaluate_capabilities profile (ri_capability_manifests inputs)) (\<lambda>capability_results_raw.
     bnd (mapr capability_projection capability_results_raw) (\<lambda>capability_results.
     bnd (validate_artifact_definitions (ri_artifact_definition_documents inputs)) (\<lambda>definitions.
     bnd (artifact_projection definitions) (\<lambda>artifacts.
     bnd (validate_trellis_layout (map at_path (concat (map ad_targets definitions))) [''src'']
            (ri_trellis_layout_document inputs)) (\<lambda>layout.
     bnd (validate_surface_registry (ri_surface_registry_document inputs) (ri_runtime_unit_inventory_document inputs)) (\<lambda>registry.
     bnd (compute_surface_digests registry (ri_runtime_unit_evidence inputs)) (\<lambda>surface_digests.
     bnd (prove_surface_coverage registry (ri_runtime_unit_evidence inputs)) (\<lambda>coverage.
     bnd (json_mapping (PDict (ri_route_policy_document inputs))) (\<lambda>route_policy.
     bnd (json_mapping (PDict (ri_router_contract_document inputs))) (\<lambda>router_contract.
     Inr \<lparr>rs_release_contract = release_contract, rs_workflow_lock_projection = lock_projection, rs_profile = profile,
          rs_resolved_profile = resolved_profile, rs_catalog = catalog, rs_capability_results = capability_results,
          rs_artifact_projection = artifacts, rs_layout = layout, rs_registry = registry,
          rs_surface_digests = surface_digests, rs_coverage = coverage, rs_route_policy = route_policy,
          rs_router_contract = router_contract\<rparr>))))))))))))))))"

definition digest_field :: "string \<Rightarrow> pyval \<Rightarrow> pyval res" where
  "digest_field domain v = bnd (digest domain v) (\<lambda>h. Inr (PStr h))"

definition authority_digests_of :: "resolved_sources \<Rightarrow> dict res" where
  "authority_digests_of rs = dict_literal
     [(''artifact-bundle'', digest_field ''agent-workflow.artifact-bundle.v1'' (PList (map PDict (rs_artifact_projection rs)))),
      (''profile'', digest_field ''agent-workflow.profile.v1'' (PDict (rs_resolved_profile rs))),
      (''release-identity'', digest_field ''agent-workflow.release-identity.v1'' (PDict (rs_release_contract rs))),
      (''route-policy'', digest_field ''agent-workflow.route-policy.v1'' (PDict (rs_route_policy rs))),
      (''router-contract'', digest_field ''agent-workflow.router-contract.v1'' (PDict (rs_router_contract rs))),
      (''surface-registry'', Inr (PStr (sr_registry_digest (rs_registry rs)))),
      (''trellis-layout'', Inr (PStr (tl_layout_digest (rs_layout rs)))),
      (''workflow-lock'', digest_field ''agent-workflow.workflow-lock.v1'' (PDict (rs_workflow_lock_projection rs)))]"

definition digests_document :: "digests \<Rightarrow> dict" where
  "digests_document = map (\<lambda>(k, h). (k, PStr h))"

definition candidate_view :: "resolver_inputs \<Rightarrow> resolved_sources \<Rightarrow> dict \<Rightarrow> dict" where
  "candidate_view inputs rs authority_digests =
     [(''operation'', PStr (ri_operation inputs)), (''authority_digests'', PDict authority_digests),
      (''surface_digests'', PDict (digests_document (rs_surface_digests rs))),
      (''registry_graph_digest'', PStr (sr_registry_digest (rs_registry rs))),
      (''repair_surface_ids'', PList (map PStr (ri_repair_surface_ids inputs)))]"

definition gate_open :: "task_gate_result \<Rightarrow> unit res" where
  "gate_open gate = (case tg_blockers gate of [] \<Rightarrow> Inr ()
   | b # _ \<Rightarrow> Inl (CoreFailure (tb_code b) (gate_blocker_exit (tb_code b))))"

definition state_evaluation :: "workspace_task_state \<Rightarrow> dict" where
  "state_evaluation ws =
     [(''evaluator_id'', PStr (ws_evaluator_id ws)), (''evaluator_version'', PInt (ws_evaluator_version ws)),
      (''task_quiescence'', PStr (ws_task_quiescence ws)), (''blockers'', PList (map PStr (ws_evidence_kinds ws)))]"

definition gate_evaluation :: "task_gate_result \<Rightarrow> dict" where
  "gate_evaluation gate =
     [(''evaluator_id'', PStr (tg_evaluator_id gate)), (''evaluator_version'', PInt (tg_evaluator_version gate)),
      (''blockers'', PList []), (''primary_evaluator_blocker'', PNone)]"

definition coverage_document :: "coverage_proof \<Rightarrow> dict" where
  "coverage_document cp =
     [(''covered_unit_ids'', PList (map PStr (cp_covered_unit_ids cp))), (''surface_ids'', PList (map PStr (cp_surface_ids cp))),
      (''registry_digest'', PStr (cp_registry_digest cp)), (''proof_digest'', PStr (cp_proof_digest cp))]"

text \<open>The desired state before its digest is known.\<close>

definition resolved_ir :: "resolver_inputs \<Rightarrow> resolved_sources \<Rightarrow> dict \<Rightarrow> candidate_impact \<Rightarrow> workspace_task_state \<Rightarrow>
    task_gate_result \<Rightarrow> dict list \<Rightarrow> dict list \<Rightarrow> dict list \<Rightarrow> dict \<Rightarrow> desired_state_ir" where
  "resolved_ir inputs rs authority_digests impact workspace_state task_gate entry_ownership render_units diagnostics
     surface_registry_document =
     \<lparr>ir_operation = ri_operation inputs, ir_release_contract = rs_release_contract rs,
       ir_resolved_profile = rs_resolved_profile rs, ir_authority_digests = authority_digests,
       ir_workflow_lock_projection = rs_workflow_lock_projection rs,
       ir_selected_platforms = rp_default_platforms (rs_profile rs), ir_capability_results = rs_capability_results rs,
       ir_catalog_closure = cc_ordered_ids (rs_catalog rs), ir_reference_closure = cc_reference_ids (rs_catalog rs),
       ir_route_policy = rs_route_policy rs, ir_entry_ownership = entry_ownership,
       ir_discoverable_leaf_ids = cc_discoverable_ids (rs_catalog rs),
       ir_runtime_catalog_entry_ids = cc_ordered_ids (rs_catalog rs),
       ir_trellis_task_layout = tl_normalized (rs_layout rs), ir_surface_registry = surface_registry_document,
       ir_surface_digests = digests_document (rs_surface_digests rs), ir_coverage_result = coverage_document (rs_coverage rs),
       ir_render_units = render_units, ir_artifact_definitions = rs_artifact_projection rs, ir_candidate_impact = impact,
       ir_workspace_state_evaluation = state_evaluation workspace_state,
       ir_task_gate_evaluation = gate_evaluation task_gate, ir_diagnostics = diagnostics,
       ir_desired_state_ir_digest = []\<rparr>"

definition seal_ir :: "desired_state_ir \<Rightarrow> desired_state_ir res" where
  "seal_ir ir = bnd (digest ''agent-workflow.desired-state-ir.v1'' (PDict (ir_projection ir))) (\<lambda>h.
     Inr (ir\<lparr>ir_desired_state_ir_digest := h\<rparr>))"

definition resolve :: "resolver_inputs \<Rightarrow> desired_state_ir res" where
  "resolve inputs =
     (if ri_operation inputs \<notin> {''init'', ''sync'', ''repair'', ''upgrade''} then Inl resolver_failure
      else bnd (resolve_sources inputs) (\<lambda>rs.
      bnd (authority_digests_of rs) (\<lambda>authority_digests.
      bnd (compute_candidate_impact (ri_current_contract inputs) (ri_observed_state inputs)
             (candidate_view inputs rs authority_digests)) (\<lambda>impact.
      bnd (evaluate_workspace_state_quiescence (ri_task_snapshot inputs) (ri_task_findings inputs)) (\<lambda>workspace_state.
      bnd (evaluate_task_gate (ri_operation inputs) impact (ri_task_snapshot inputs) (ri_task_findings inputs)) (\<lambda>task_gate.
      bnd (gate_open task_gate) (\<lambda>_.
      bnd (sorted_mappings (ri_entry_ownership inputs)) (\<lambda>entry_ownership.
      bnd (sorted_mappings (ri_render_units inputs)) (\<lambda>render_units.
      bnd (sorted_mappings (ri_diagnostics inputs)) (\<lambda>diagnostics.
      bnd (json_mapping (PDict (ri_surface_registry_document inputs))) (\<lambda>surface_registry_document.
      seal_ir (resolved_ir inputs rs authority_digests impact workspace_state task_gate entry_ownership render_units diagnostics
        surface_registry_document))))))))))))"

section \<open>The parts of a resolved state\<close>

lemma gate_open_Inr_iff [res_simps]: "gate_open gate = Inr u \<longleftrightarrow> tg_blockers gate = []"
  by (auto simp: gate_open_def split: list.splits)

lemma seal_ir_Inr:
  "seal_ir i = Inr ir \<Longrightarrow> \<exists>h. ir = i\<lparr>ir_desired_state_ir_digest := h\<rparr> \<and>
     digest ''agent-workflow.desired-state-ir.v1'' (PDict (ir_projection ir)) = Inr h"
  by (auto simp: seal_ir_def res_simps ir_projection_def)

lemma resolveE:
  assumes "resolve inputs = Inr ir"
  obtains rs authorities impact ws gate where
    "ri_operation inputs \<in> {''init'', ''sync'', ''repair'', ''upgrade''}" "resolve_sources inputs = Inr rs"
    "authority_digests_of rs = Inr authorities"
    "compute_candidate_impact (ri_current_contract inputs) (ri_observed_state inputs) (candidate_view inputs rs authorities) = Inr impact"
    "evaluate_workspace_state_quiescence (ri_task_snapshot inputs) (ri_task_findings inputs) = Inr ws"
    "evaluate_task_gate (ri_operation inputs) impact (ri_task_snapshot inputs) (ri_task_findings inputs) = Inr gate"
    "tg_blockers gate = []"
    "digest ''agent-workflow.desired-state-ir.v1'' (PDict (ir_projection ir)) = Inr (ir_desired_state_ir_digest ir)"
    "ir_operation ir = ri_operation inputs" "ir_candidate_impact ir = impact" "ir_authority_digests ir = authorities"
    "ir_surface_digests ir = digests_document (rs_surface_digests rs)" "ir_workspace_state_evaluation ir = state_evaluation ws"
    "ir_task_gate_evaluation ir = gate_evaluation gate" "ir_artifact_definitions ir = rs_artifact_projection rs"
    "ir_release_contract ir = rs_release_contract rs" "ir_resolved_profile ir = rs_resolved_profile rs"
    "ir_workflow_lock_projection ir = rs_workflow_lock_projection rs" "ir_route_policy ir = rs_route_policy rs"
    "ir_trellis_task_layout ir = tl_normalized (rs_layout rs)"
proof -
  obtain rs authorities impact ws gate u entries units ds reg i where
    *: "ri_operation inputs \<in> {''init'', ''sync'', ''repair'', ''upgrade''}" "resolve_sources inputs = Inr rs"
    "authority_digests_of rs = Inr authorities"
    "compute_candidate_impact (ri_current_contract inputs) (ri_observed_state inputs) (candidate_view inputs rs authorities) = Inr impact"
    "evaluate_workspace_state_quiescence (ri_task_snapshot inputs) (ri_task_findings inputs) = Inr ws"
    "evaluate_task_gate (ri_operation inputs) impact (ri_task_snapshot inputs) (ri_task_findings inputs) = Inr gate"
    "gate_open gate = Inr u"
    and i: "i = resolved_ir inputs rs authorities impact ws gate entries units ds reg" and seal: "seal_ir i = Inr ir"
    using assms unfolding resolve_def
    by (simp only: bnd_Inr_iff if_Inl_Inr_iff not_not) blast
  from seal_ir_Inr [OF seal] obtain h where h: "ir = i\<lparr>ir_desired_state_ir_digest := h\<rparr>"
    "digest ''agent-workflow.desired-state-ir.v1'' (PDict (ir_projection ir)) = Inr h" by blast
  show thesis
    by (rule that [OF *(1-6)])
      (use *(7) h(2) in \<open>simp_all add: res_simps h(1) i resolved_ir_def\<close>)
qed

section \<open>Pinned surfaces\<close>

lemma get_candidate_view:
  "get (candidate_view inputs rs authorities) ''operation'' = PStr (ri_operation inputs)"
  "get (candidate_view inputs rs authorities) ''surface_digests'' = PDict (digests_document (rs_surface_digests rs))"
  by (simp_all add: candidate_view_def get_Cons)

lemma digest_value_PStr: "digest_value (PStr h) = Inr s \<Longrightarrow> s = h"
  by (auto simp: digest_value_def split: if_splits)

lemma surface_map_digests: "surface_map (PDict (digests_document D)) = Inr E \<Longrightarrow> E = D"
proof -
  assume "surface_map (PDict (digests_document D)) = Inr E"
  then have "mapr (\<lambda>(k, w). if k = [] \<or> k \<noteq> strip k then Inl impact_failure else bnd (digest_value w) (\<lambda>s. Inr (k, s)))
      (digests_document D) = Inr E"
    by (simp add: surface_map_def impact_mapping_def)
  then show ?thesis
    by (induction D arbitrary: E) (auto simp: digests_document_def res_simps dest: digest_value_PStr)
qed

text \<open>A computed impact changes the contract of no surface outside its change list.\<close>

lemma unchanged_surface:
  assumes "compute_candidate_impact cc os view = Inr impact"
    and "surface_map (get cc ''surface_digests'') = Inr cur" and "surface_map (get view ''surface_digests'') = Inr new"
    and "\<forall>c \<in> set (ci_surface_changes impact). sc_surface_id c = s \<longrightarrow> sc_change_kind c = ''repair''"
  shows "value_at new s = value_at cur s"
  using assms(1)
proof (rule compute_candidate_impactE)
  fix op ca da cur' obs cand g g' scs
  assume "surface_map (get cc ''surface_digests'') = Inr cur'" "surface_map (get view ''surface_digests'') = Inr cand"
    and ch: "operation_surface_changes (op = ''repair'') (authority_changes ca da) g g' cur' obs cand view = Inr scs"
    and fin: "finish_impact (authority_changes ca da) scs = Inr impact"
  then have eqs: "cur' = cur" "cand = new" "ci_surface_changes impact = scs"
    using assms(2,3) by (auto simp: finish_impact_Inr Let_def)
  show ?thesis
  proof (cases "op = ''repair''")
    case True
    then have "digests_eq cur new"
      using ch by (auto simp: operation_surface_changes_def repair_changes_def res_simps eqs)
    then show ?thesis by (simp add: digests_eq_value_at)
  next
    case False
    then have "scs = surface_delta cur new (sorted_set (keys cur @ keys new @ keys obs))"
      using ch by (auto simp: operation_surface_changes_def contract_changes_Inr_iff res_simps eqs)
    then have "value_at new s = value_at cur s \<or> s \<notin> set (sorted_set (keys cur @ keys new @ keys obs))"
      using assms(4) by (auto simp: eqs surface_delta_def)
    then show ?thesis using value_at_absent [of s cur] value_at_absent [of s new] by auto
  qed
qed

text \<open>
  C17: A resolved desired state keeps what running tasks rely on: the digest it gives to a surface that
  some task which is not archived has pinned is the one of the current contract, and where the
  impact touches the surface at all it is a repair back to the pinned digest.
\<close>

theorem resolved_state_keeps_pins:
  assumes "resolve inputs = Inr ir" and "parse_findings (ri_task_findings inputs) = Inr facts" and "f \<in> set facts"
    and "ff_kind f = ''non-archived-task''" and "p \<in> set (ff_pinned_surfaces f)"
    and "surface_map (get (ri_current_contract inputs) ''surface_digests'') = Inr cur"
  shows "\<exists>new. ir_surface_digests ir = digests_document new \<and> value_at new (sp_surface_id p) = value_at cur (sp_surface_id p) \<and>
    (\<forall>c \<in> set (ci_surface_changes (ir_candidate_impact ir)). sc_surface_id c = sp_surface_id p \<longrightarrow>
       sc_change_kind c = ''repair'' \<and> sc_after_digest c = sp_surface_digest p)"
  using assms(1)
proof (rule resolveE)
  fix rs authorities impact gate
  assume ci: "compute_candidate_impact (ri_current_contract inputs) (ri_observed_state inputs) (candidate_view inputs rs authorities) = Inr impact"
    and gate: "evaluate_task_gate (ri_operation inputs) impact (ri_task_snapshot inputs) (ri_task_findings inputs) = Inr gate"
      "tg_blockers gate = []"
    and ir: "ir_candidate_impact ir = impact" "ir_surface_digests ir = digests_document (rs_surface_digests rs)"
  have pins: "\<forall>c \<in> set (ci_surface_changes impact). sc_surface_id c = sp_surface_id p \<longrightarrow>
      sc_change_kind c = ''repair'' \<and> sc_after_digest c = sp_surface_digest p"
    using admitted_gate_pins [OF ci gate assms(2-5)] by blast
  obtain new where new: "surface_map (get (candidate_view inputs rs authorities) ''surface_digests'') = Inr new"
    using ci by (rule compute_candidate_impactE)
  then have "new = rs_surface_digests rs" by (simp add: get_candidate_view surface_map_digests)
  moreover have "value_at new (sp_surface_id p) = value_at cur (sp_surface_id p)"
    by (rule unchanged_surface [OF ci assms(6) new]) (use pins in blast)
  ultimately show ?thesis using pins by (auto simp: ir)
qed

section \<open>The planner accepts the evaluations\<close>

lemma open_gate_primary:
  assumes "evaluate_task_gate op impact snap fd = Inr gate" and "tg_blockers gate = []"
  shows "tg_primary_evaluator_blocker gate = None"
  using assms by (elim evaluate_task_gateE) simp

lemma py_eq_refl_strs: "py_eq_list (map PStr xs) (map PStr xs)"
  by (induction xs) simp_all

text \<open>
  C18: What the planner evaluates again agrees with what the resolver recorded: on the evidence the
  state was resolved from, the planner accepts the recorded evaluation of the workspace and of the
  task gate, so that only evidence that changed in between makes it stop.
\<close>

theorem resolved_ir_passes_planning:
  assumes "resolve inputs = Inr ir" and "ts_snapshot task_state = ri_task_snapshot inputs"
    and "ts_findings task_state = ri_task_findings inputs"
  shows "workspace_evaluation ir task_state = Inr (ir_workspace_state_evaluation ir) \<and>
    task_gate_evaluation ir task_state = Inr (ir_task_gate_evaluation ir)"
  using assms(1)
proof (rule resolveE)
  fix impact ws gate
  assume ws: "evaluate_workspace_state_quiescence (ri_task_snapshot inputs) (ri_task_findings inputs) = Inr ws"
    and gate: "evaluate_task_gate (ri_operation inputs) impact (ri_task_snapshot inputs) (ri_task_findings inputs) = Inr gate"
      "tg_blockers gate = []"
    and ir: "ir_operation ir = ri_operation inputs" "ir_candidate_impact ir = impact"
      "ir_workspace_state_evaluation ir = state_evaluation ws" "ir_task_gate_evaluation ir = gate_evaluation gate"
  have doc: "workspace_evaluation_document ws = state_evaluation ws"
    by (simp add: workspace_evaluation_document_def state_evaluation_def)
  have "tg_primary_evaluator_blocker gate = None"
    by (rule open_gate_primary [OF gate])
  then have gdoc: "task_gate_document gate = gate_evaluation gate"
    using gate(2) by (simp add: task_gate_document_def gate_evaluation_def opt_str_def)
  have "py_eq (PDict (state_evaluation ws)) (PDict (state_evaluation ws))"
    by (simp add: state_evaluation_def py_eq_refl_strs)
  moreover have "py_eq (PDict (gate_evaluation gate)) (PDict (gate_evaluation gate))"
    and "get (gate_evaluation gate) ''blockers'' = PList []"
    by (simp_all add: gate_evaluation_def get_Cons)
  ultimately show ?thesis
    by (simp add: workspace_evaluation_def task_gate_evaluation_def assms(2,3) ws gate ir doc gdoc Let_def)
qed

section \<open>The planner accepts the artifact definitions\<close>

lemma json_mapping_Inr:
  assumes "json_mapping v = Inr d" shows "v = PDict d"
proof -
  obtain w where "normalize_json_value v = Inr w" "(case w of PDict d \<Rightarrow> Inr d | _ \<Rightarrow> Inl resolver_failure) = Inr d"
    using assms by (auto simp: json_mapping_def bnd_Inr_iff)
  then show ?thesis using normalize_json_same(1) by (cases w) auto
qed

lemma mapr_json_mapping: "mapr (\<lambda>x. json_mapping (PDict (f x))) xs = Inr ds \<Longrightarrow> ds = map f xs"
  by (induction xs arbitrary: ds) (auto simp: res_simps dest!: json_mapping_Inr)

lemma artifact_projection_Inr:
  assumes "artifact_projection ads = Inr docs"
  shows "docs = map definition_document (sort_key ad_definition_id ads)"
proof -
  have "docs = sort_key (\<lambda>item. py_str (get item ''id'')) (map definition_document ads)"
    using assms by (auto simp: artifact_projection_def res_simps dest!: mapr_json_mapping)
  then show ?thesis
    using sort_key_map [of "\<lambda>item. py_str (get item ''id'')" definition_document ad_definition_id ads]
    by (simp add: definition_document_def get_Cons)
qed

text \<open>How the planner indexes a target of a definition.\<close>

definition owned_target :: "artifact_definition \<Rightarrow> artifact_target \<Rightarrow> string \<times> dict" where
  "owned_target a t = (at_path t, target_document t @ [(''definition_id'', PStr (ad_definition_id a))])"

definition owned_targets :: "artifact_definition list \<Rightarrow> (string \<times> dict) list" where
  "owned_targets ads = concat (map (\<lambda>a. map (owned_target a) (ad_targets a)) ads)"

lemma add_definition_targets:
  assumes "list_all (\<lambda>t. canonical_path (at_path t)) ts"
    and "distinct (map fst acc @ map at_path ts)"
  shows "foldr_res (add_definition_target (ad_definition_id a)) acc (map (\<lambda>t. PDict (target_document t)) ts) =
    Inr (acc @ map (owned_target a) ts)"
  using assms
proof (induction ts arbitrary: acc)
  case (Cons t ts)
  have new: "\<not> has_key acc (at_path t)" using Cons.prems(2) by (simp add: has_key_def)
  have path: "normalize_path (PStr (at_path t)) = Inr (at_path t)" using Cons.prems(1) by (simp add: normalize_path_Inr_iff)
  have upd: "AList.update ''definition_id'' (PStr i) (target_document t) = target_document t @ [(''definition_id'', PStr i)]" for i
    by (simp add: target_document_def)
  have get: "get (target_document t) ''path'' = PStr (at_path t)" by (simp add: target_document_def get_Cons)
  have "add_definition_target (ad_definition_id a) acc (PDict (target_document t)) = Inr (acc @ [owned_target a t])"
    by (simp add: add_definition_target_def as_mapping_PDict get as_str_def path new upd owned_target_def)
  moreover have "distinct (map fst (acc @ [owned_target a t]) @ map at_path ts)"
    using Cons.prems(2) by (simp add: owned_target_def)
  ultimately show ?case using Cons.IH [of "acc @ [owned_target a t]"] Cons.prems(1) by simp
qed simp

lemma ownership_definitions_of:
  assumes "list_all (\<lambda>a. list_all (\<lambda>t. canonical_path (at_path t)) (ad_targets a)) ads"
    and "distinct (map at_path (all_targets ads))"
  shows "ownership_definitions (map definition_document ads) = Inr (owned_targets ads)"
proof -
  have fold: "foldr_res (\<lambda>targets raw_definition.
       bnd (as_str ownership_conflict (get raw_definition ''id'')) (\<lambda>definition_id.
       bnd (target_list (get raw_definition ''targets'')) (\<lambda>raw_targets.
       foldr_res (add_definition_target definition_id) targets raw_targets))) acc (map definition_document xs) =
     Inr (acc @ owned_targets xs)"
    if "list_all (\<lambda>a. list_all (\<lambda>t. canonical_path (at_path t)) (ad_targets a)) xs"
      and "distinct (map fst acc @ map at_path (all_targets xs))" for acc xs
    using that
  proof (induction xs arbitrary: acc)
    case (Cons a xs)
    have "foldr_res (add_definition_target (ad_definition_id a)) acc (map (\<lambda>t. PDict (target_document t)) (ad_targets a)) =
        Inr (acc @ map (owned_target a) (ad_targets a))"
      by (rule add_definition_targets) (use Cons.prems in \<open>auto simp: all_targets_def\<close>)
    moreover have "distinct (map fst (acc @ map (owned_target a) (ad_targets a)) @ map at_path (all_targets xs))"
      using Cons.prems(2) by (simp add: all_targets_def comp_def owned_target_def Int_Un_distrib Un_assoc)
    ultimately show ?case
      using Cons.IH [of "acc @ map (owned_target a) (ad_targets a)"] Cons.prems(1)
      by (simp add: definition_document_def get_Cons as_str_def target_list_def owned_targets_def)
  qed (simp add: owned_targets_def)
  show ?thesis using fold [of ads "[]"] assms by (simp add: ownership_definitions_def)
qed

text \<open>
  C19: The planner accepts the artifact definitions of every resolved state: its index of the targets
  has one entry for every target of the validated definitions, in the order of the definition
  identities, under the path that was validated and with the identity of its definition.
\<close>

theorem resolved_definitions_owned:
  assumes "resolve inputs = Inr ir" and "validate_artifact_definitions (ri_artifact_definition_documents inputs) = Inr ads"
  shows "ownership_definitions (ir_artifact_definitions ir) = Inr (owned_targets (sort_key ad_definition_id ads))"
  using assms(1)
proof (rule resolveE)
  fix rs
  assume rs: "resolve_sources inputs = Inr rs" and ir: "ir_artifact_definitions ir = rs_artifact_projection rs"
  obtain seen where inv: "definitions_inv (ads, seen)" using assms(2) by (rule validated_definitions)
  have "artifact_projection ads = Inr (rs_artifact_projection rs)"
    using rs assms(2) by (auto simp: resolve_sources_def bnd_Inr_iff)
  then have docs: "ir_artifact_definitions ir = map definition_document (sort_key ad_definition_id ads)"
    by (simp add: ir artifact_projection_Inr)
  have "mset (all_targets xs) = (\<Sum>a\<in>#mset xs. mset (ad_targets a))" for xs
    by (induction xs) (simp_all add: all_targets_def)
  then have "mset (map at_path (all_targets (sort_key ad_definition_id ads))) = mset (map at_path (all_targets ads))"
    by simp
  then have "distinct (map at_path (all_targets (sort_key ad_definition_id ads))) = distinct (map at_path (all_targets ads))"
    by (rule mset_eq_imp_distinct_iff)
  moreover have "distinct (map at_path (all_targets ads))"
    using inv by (auto simp: definitions_inv_def seen_targets_def keys_of_def distinct_map inj_on_def)
  ultimately show ?thesis
    unfolding docs by (intro ownership_definitions_of)
      (use inv in \<open>auto simp: definitions_inv_def target_allowed_def list_all_iff\<close>)
qed

section \<open>Digests\<close>

lemma digest_field_Inr_iff: "digest_field domain v = Inr w \<longleftrightarrow> (\<exists>h. digest domain v = Inr h \<and> w = PStr h)"
  by (auto simp: digest_field_def bnd_Inr_iff)

lemma authority_digests_ofE:
  assumes "authority_digests_of rs = Inr authorities"
  shows "digest_field ''agent-workflow.artifact-bundle.v1'' (PList (map PDict (rs_artifact_projection rs))) = Inr (get authorities ''artifact-bundle'')"
    and "digest_field ''agent-workflow.profile.v1'' (PDict (rs_resolved_profile rs)) = Inr (get authorities ''profile'')"
    and "digest_field ''agent-workflow.release-identity.v1'' (PDict (rs_release_contract rs)) = Inr (get authorities ''release-identity'')"
    and "digest_field ''agent-workflow.route-policy.v1'' (PDict (rs_route_policy rs)) = Inr (get authorities ''route-policy'')"
    and "digest_field ''agent-workflow.workflow-lock.v1'' (PDict (rs_workflow_lock_projection rs)) = Inr (get authorities ''workflow-lock'')"
    and "get authorities ''surface-registry'' = PStr (sr_registry_digest (rs_registry rs))"
    and "get authorities ''trellis-layout'' = PStr (tl_layout_digest (rs_layout rs))"
    and "digest_field ''agent-workflow.router-contract.v1'' (PDict (rs_router_contract rs)) = Inr (get authorities ''router-contract'')"
    and "keys authorities = [''artifact-bundle'', ''profile'', ''release-identity'', ''route-policy'', ''router-contract'',
      ''surface-registry'', ''trellis-layout'', ''workflow-lock'']"
  using assms by (auto simp: authority_digests_of_def dict_literal_simps get_Cons keys_def)

lemma resolve_sourcesE:
  assumes "resolve_sources inputs = Inr rs"
  obtains lock ads where "normalize_workflow_lock (ri_workflow_lock_document inputs) = Inr lock"
    "workflow_lock_projection lock = Inr (rs_workflow_lock_projection rs)"
    "validate_artifact_definitions (ri_artifact_definition_documents inputs) = Inr ads"
    "artifact_projection ads = Inr (rs_artifact_projection rs)"
    "validate_trellis_layout (map at_path (concat (map ad_targets ads))) [''src''] (ri_trellis_layout_document inputs) = Inr (rs_layout rs)"
    "validate_surface_registry (ri_surface_registry_document inputs) (ri_runtime_unit_inventory_document inputs) = Inr (rs_registry rs)"
    "compute_surface_digests (rs_registry rs) (ri_runtime_unit_evidence inputs) = Inr (rs_surface_digests rs)"
    "json_mapping (PDict (ri_router_contract_document inputs)) = Inr (rs_router_contract rs)"
  using assms by (auto simp: resolve_sources_def bnd_Inr_iff)

lemma sort_items_again: "sort_items (sort_items d) = sort_items d"
  unfolding sort_items_def by (rule sort_key_id_if_sorted) simp

lemma registry_digest_of:
  assumes "validate_surface_registry doc units = Inr reg"
  shows "digest ''agent-workflow.surface-registry.v1'' (registry_projection (sr_surfaces reg) (sr_units reg)) =
    Inr (sr_registry_digest reg)"
  using assms by (rule validate_surface_registryE) (simp add: registry_projection_def sort_items_again)

lemma layout_digest_of:
  assumes "validate_trellis_layout targets roots doc = Inr l"
  shows "plain_digest (PDict (tl_normalized l)) = Inr (tl_layout_digest l)"
  using assms
proof (rule validate_trellis_layoutE)
  fix ai av rn ac ar disc ms tr
  assume dig: "plain_digest (PDict (layout_document ai av rn ac ar disc ms tr)) = Inr (tl_layout_digest l)"
    and l: "l = \<lparr>tl_adapter_id = ai, tl_adapter_version = av, tl_runtime_namespace = rn, tl_active_root = ac, tl_archive_root = ar,
       tl_metadata_contracts = sort_key mc_contract_id ms, tl_task_transaction_root = ''.agent-workflow/task-transactions'',
       tl_normalized = layout_document ai av rn ac ar disc ms tr, tl_layout_digest = tl_layout_digest l\<rparr>"
  have "tl_normalized l = layout_document ai av rn ac ar disc ms tr" by (subst l) simp
  with dig show ?thesis by simp
qed


text \<open>
  C21: The digest of a desired state binds it: two resolved states with the same digest agree in every
  field of the projection, up to the order of keys and SHA-256 collisions apart. The diagnostics are
  outside of the projection.
\<close>

theorem ir_digest_binds_state:
  assumes "resolve inputs = Inr ir" and "resolve inputs' = Inr ir'"
    and "ir_desired_state_ir_digest ir = ir_desired_state_ir_digest ir'"
    and "\<not> sha_collision (digest_preimage ''agent-workflow.desired-state-ir.v1'' (PDict (ir_projection ir)))
           (digest_preimage ''agent-workflow.desired-state-ir.v1'' (PDict (ir_projection ir')))"
  shows "canon (get (ir_projection ir) k) = canon (get (ir_projection ir') k) \<and> ir_operation ir = ir_operation ir' \<and>
    ir_catalog_closure ir = ir_catalog_closure ir'"
proof -
  have d: "digest ''agent-workflow.desired-state-ir.v1'' (PDict (ir_projection ir)) = Inr (ir_desired_state_ir_digest ir)"
    using assms(1) by (rule resolveE)
  have d': "digest ''agent-workflow.desired-state-ir.v1'' (PDict (ir_projection ir')) = Inr (ir_desired_state_ir_digest ir')"
    using assms(2) by (rule resolveE)
  have "canon (PDict (ir_projection ir)) = canon (PDict (ir_projection ir'))"
    using digest_binds [OF d d' [folded assms(3)]] assms(4) by blast
  moreover have "distinct (keys (ir_projection ir))" "distinct (keys (ir_projection ir'))"
    by (simp_all add: ir_projection_def keys_def)
  ultimately have fields: "canon (get (ir_projection ir) k) = canon (get (ir_projection ir') k)" for k
    using canon_get by blast
  have "ir_operation ir = ir_operation ir'"
    using fields [of "''operation''"] by (simp add: ir_projection_def get_Cons)
  moreover have "map (canon o PStr) (ir_catalog_closure ir) = map (canon o PStr) (ir_catalog_closure ir')"
    using fields [of "''catalog_closure''"] by (simp add: ir_projection_def get_Cons)
  then have "ir_catalog_closure ir = ir_catalog_closure ir'"
    by (rule map_inj_on) (auto simp: inj_on_def)
  ultimately show ?thesis using fields by blast
qed

section \<open>Documents\<close>

lemma json_mapping_ok: "json_wf (PDict d) \<Longrightarrow> json_mapping (PDict d) = Inr d"
  by (simp add: json_mapping_def json_wf_def normalize_json_id del: normalize_json_value.simps)

lemma json_mapping_wf:
  assumes "json_mapping v = Inr d" shows "json_wf v"
proof -
  obtain w where w: "normalize_json_value v = Inr w" using assms by (auto simp: json_mapping_def bnd_Inr_iff)
  show ?thesis using normalize_json_wf(1) [OF w] unfolding normalize_json_same(1) [OF w] json_wf_def .
qed

lemma digest_field_ok: "json_wf v \<Longrightarrow> digest_domain d \<Longrightarrow> digest_field d v = Inr (PStr (sha256_hex (digest_preimage d v)))"
  by (simp add: digest_field_def json_wf_def digest_ok)

lemma json_wf_strs: "json_wf (PList (map PStr xs))"
  by (simp add: json_wf_simps list_all_iff)

lemma json_wf_dicts: "json_wf (PList (map PDict ds)) = list_all (\<lambda>d. json_wf (PDict d)) ds"
  by (simp add: json_wf_simps list_all_iff)

lemma json_wf_lock: "json_wf (PDict [(''schema_id'', PStr s), (''schema_version'', PInt i), (''components'', PList (map component_document cs))])"
  by (simp add: json_wf_simps list_all_iff component_document_def)

lemma workflow_lock_projection_ok: "\<exists>p. workflow_lock_projection lock = Inr p \<and> json_wf (PDict p)"
  using json_wf_lock by (simp add: workflow_lock_projection_def json_mapping_ok)

lemma json_wf_definition: "json_wf (PDict (definition_document a))"
proof -
  have "json_wf (PDict (target_document t))" for t
    by (simp add: target_document_def json_wf_simps json_wf_opt_str split: option.split)
  then show ?thesis by (auto simp: definition_document_def json_wf_simps list_all_iff)
qed

lemma artifact_projection_ok: "artifact_projection ads = Inr (map definition_document (sort_key ad_definition_id ads))"
proof -
  have "mapr (\<lambda>a. json_mapping (PDict (definition_document a))) ads = Inr (map definition_document ads)"
    by (rule mapr_pure) (simp add: json_mapping_ok json_wf_definition)
  then show ?thesis
    using artifact_projection_Inr [of ads] by (simp add: artifact_projection_def)
qed

end
