(* ===== verification/Resolver_Sample.thy ===== *)
theory Resolver_Sample
  imports Resolver
begin

text \<open>
  A complete run of \<^verbatim>\<open>resolve\<close> on one small project: a profile with one skill, a catalog of two
  entries, one overlay, a registry of three surfaces and a running task that has pinned one of them.
  The theorems of \<open>Resolver\<close> are applied to it.
\<close>

section \<open>The sources\<close>

definition sample_release_contract :: dict where
  "sample_release_contract = [(''release_id'', PStr (sha_of (CHR ''a''))), (''release_manifest_digest'', PStr (sha_of (CHR ''b''))),
     (''release_trust_policy_id'', PStr ''t''), (''release_trust_policy_digest'', PStr (sha_of (CHR ''c''))), (''version'', PStr ''1'')]"

lemma sample_release_ok: "validate_release_contract sample_release_contract = Inr sample_release_contract"
proof -
  have j: "json_mapping (PDict sample_release_contract) = Inr sample_release_contract"
    by (rule json_mapping_ok) (simp add: sample_release_contract_def json_wf_simps)
  have d: "check_release_digest sample_release_contract f = Inr ()"
    if "f \<in> {''release_id'', ''release_manifest_digest'', ''release_trust_policy_digest''}" for f
  proof -
    have "\<exists>c. get sample_release_contract f = PStr (sha_of c) \<and> is_hex c"
      using that by (auto simp: sample_release_contract_def get_Cons is_hex_def is_digit_def)
    then show ?thesis by (auto simp: check_release_digest_def sha_of_def list_ex_iff)
  qed
  have s: "check_release_string sample_release_contract f = Inr ()" if "f \<in> {''release_trust_policy_id'', ''version''}" for f
    using that by (auto simp: sample_release_contract_def get_Cons check_release_string_def strip_def is_space_def ord_def)
  have "same_strs (keys sample_release_contract) [''release_id'', ''release_manifest_digest'', ''release_trust_policy_id'',
      ''release_trust_policy_digest'', ''version'']"
    by (simp add: same_strs_def subset_strs_def keys_def sample_release_contract_def)
  then show ?thesis by (simp add: validate_release_contract_def j d s)
qed

definition sample_profile_source :: dict where
  "sample_profile_source = [(''schema_id'', PStr ''agent-workflow.profile''), (''schema_version'', PInt 1), (''id'', PStr ''p''),
     (''skills'', PDict [(''enable'', PList [PStr ''skill:a''])])]"

lemma sample_profile_resolved: "resolve_profile [sample_profile_source] ''p'' = Inr sample_profile"
proof -
  have src: "validate_source sample_profile_source = Inr ''p''"
    by (simp add: validate_source_def sample_profile_source_def require_def subset_strs_def keys_def PROFILE_FIELDS_def get_def as_string_def)
  have ext: "get sample_profile_source ''extends'' = PNone" by (simp add: sample_profile_source_def get_def)
  have chain: "profile_chain [(''p'', sample_profile_source)] [] ''p'' = Inr [sample_profile_source]"
    by (simp add: profile_chain.simps ext)
  have arr: "profile_string_array (PList []) = Inr []" "profile_string_array (PList [PStr x]) = Inr [x]" for x
    by (simp_all add: profile_string_array_Inr sorted_set_def) (rule exI [of _ "[x]"], simp)
  have merge: "merge_source empty_acc sample_profile_source = Inr (empty_acc \<lparr>pa_skills := ([''skill:a''], [])\<rparr>)"
    by (simp add: merge_source_def merge_mapping_def merge_bindings_def merge_skills_def merge_artifact_policy_def
        merge_platforms_def merge_capabilities_def empty_acc_def sample_profile_source_def has_key_def get_def
        get_or_def profile_mapping_def as_mapping_def require_def subset_strs_def keys_def arr dict_update_def)
  show ?thesis
    by (simp add: resolve_profile_def add_source_def src has_key_def require_def chain merge)
      (simp add: empty_acc_def sample_profile_def sort_items_def sorted_set_def)
qed

lemma sample_profile_projected: "\<exists>d. profile_projection sample_profile = Inr d \<and> json_wf (PDict d)"
  by (simp add: profile_projection_def sample_profile_def json_mapping_ok json_wf_simps)

lemma sample_lock_ok: "\<exists>lock. normalize_workflow_lock sample_lock = Inr lock"
proof -
  have id: "stable_id ''skill:a''" by (simp add: stable_id_def is_lower_def is_digit_def)
  have shas: "is_sha256 (sha_of (CHR ''a''))" "is_sha256 (sha_of (CHR ''b''))" "sha_of c \<noteq> []" for c
    by (simp_all add: is_sha256_sha_of is_hex_def is_digit_def) (simp add: sha_of_def)
  show ?thesis
    by (simp add: normalize_workflow_lock_def sample_lock_def require_def subset_strs_def keys_def LOCK_FIELDS_def get_def
        as_array_def parse_component_def as_mapping_def LOCK_COMPONENT_FIELDS_def as_stable_id_def id has_key_def
        required_string_def as_string_def shas sort_items_def)
qed

definition sample_artifact :: artifact_definition where
  "sample_artifact = \<lparr>ad_definition_id = ''flow'', ad_source = ''overlays/workflow.md'',
     ad_targets = [\<lparr>at_path = ''.trellis/workflow.md'', at_ownership = ''overlay-managed'', at_merge_strategy = ''marked-block'',
       at_mode_policy = ''preserve'', at_mode = None, at_markers = Some (''<b>'', ''<e>'')\<rparr>],
     ad_forbidden_paths = [], ad_validators = []\<rparr>"

lemma sample_artifact_ok: "validate_artifact_definitions [sample_definition] = Inr [sample_artifact]"
proof -
  have token: "require_stable_token (PStr ''flow'') = Inr ''flow''" using sample_tokens by (simp add: res_simps)
  have source: "normalize_path (PStr ''overlays/workflow.md'') = Inr ''overlays/workflow.md''"
    using sample_paths by (simp add: normalize_path_Inr_iff)
  show ?thesis
    by (simp add: validate_artifact_definitions_def validate_definition_def sample_definition_def get_def get_or_def keys_def
        subset_strs_def DEFINITION_FIELDS_def require_def token source as_str_def as_array_def require_mapping_def as_mapping_def
        sample_target_ok add_target_def has_key_def Let_def sample_artifact_def)
qed

abbreviation sample_layout_document :: dict where
  "sample_layout_document \<equiv> sample_layout ''.trellis/tasks'' ''.trellis/tasks/archive'' []"

lemma sample_layout_resolved: "\<exists>l. validate_trellis_layout [''.trellis/workflow.md''] [''src''] sample_layout_document = Inr l"
proof -
  have in1: "inside ''.trellis/tasks'' ''.trellis''" "inside ''.trellis/tasks/archive'' ''.trellis/tasks''"
    by (simp_all add: inside_def folded_segments_def casefold_char_def ord_def)
  obtain l where l: "validate_trellis_layout [] [''src''] sample_layout_document = Inr l"
    using sample_layout_ok [OF _ _ _ in1(1) _ in1(2), of "[]" "[]"] sample_paths by auto
  have path: "normalize_path (PStr ''.trellis/workflow.md'') = Inr ''.trellis/workflow.md''"
    using sample_paths by (simp add: normalize_path_Inr_iff)
  have "validate_trellis_layout [''.trellis/workflow.md''] [''src''] sample_layout_document =
      validate_trellis_layout [] [''src''] sample_layout_document"
    unfolding validate_trellis_layout_def sample_layout_get by (simp add: path as_array_def)
  with l show ?thesis by simp
qed

section \<open>The registry\<close>

lemma mapr_total:
  "\<forall>x \<in> set xs. \<exists>y. f x = Inr y \<and> P y \<Longrightarrow> \<exists>ys. mapr f xs = Inr ys \<and> list_all P ys"
  by (induction xs) auto

lemma lookup_total: "k \<in> set (keys d) \<Longrightarrow> \<exists>v. lookup d k = Inr v"
  by (auto simp: lookup_def keys_def dest: weak_map_of_SomeI)

text \<open>Coverage is proved for every verified registry and complete evidence.\<close>

lemma coverage_total:
  assumes "validate_surface_registry rd ivd = Inr reg" and "parse_evidence reg evd = Inr ev"
  shows "\<exists>cp. prove_surface_coverage reg evd = Inr cp"
proof -
  obtain D where D: "compute_digests reg ev = Inr D" "keys D = sr_topological_surface_ids reg"
    using compute_digests_total [OF assms] by (auto simp: compute_surface_digests_def assms(2))
  have "\<exists>us. mapr (coverage_unit reg ev) (sort (keys (sr_units reg))) = Inr us \<and> list_all json_wf us"
  proof (rule mapr_total, rule ballI)
    fix u assume "u \<in> set (sort (keys (sr_units reg)))"
    then have "u \<in> set (keys (sr_units reg))" "u \<in> set (keys ev)" using parse_evidence_keys [OF assms(2)] by simp_all
    then obtain d e where "lookup (sr_units reg) u = Inr d" "lookup ev u = Inr e"
      using lookup_total [of u "sr_units reg"] lookup_total [of u ev] by blast
    then show "\<exists>y. coverage_unit reg ev u = Inr y \<and> json_wf y"
      by (simp add: coverage_unit_def json_wf_simps list_all_iff)
  qed
  moreover have "\<exists>ss. mapr (coverage_surface D) (sr_topological_surface_ids reg) = Inr ss \<and> list_all json_wf ss"
  proof (rule mapr_total, rule ballI)
    fix s assume "s \<in> set (sr_topological_surface_ids reg)"
    then obtain h where "lookup D s = Inr h" using lookup_total [of s D] D(2) by auto
    then show "\<exists>y. coverage_surface D s = Inr y \<and> json_wf y"
      by (simp add: coverage_surface_def json_wf_simps)
  qed
  ultimately obtain us ss where m: "mapr (coverage_unit reg ev) (sort (keys (sr_units reg))) = Inr us" "list_all json_wf us"
    "mapr (coverage_surface D) (sr_topological_surface_ids reg) = Inr ss" "list_all json_wf ss" by blast
  have "json_wf (PDict [(''registry_digest'', PStr (sr_registry_digest reg)), (''units'', PList us),
      (''surfaces'', PList ss), (''graph_valid'', PBool True)])"
    using m(2,4) by (simp add: json_wf_simps)
  moreover have "digest_domain ''agent-workflow.surface-coverage.v1''" by (simp add: digest_domain_def ord_def)
  ultimately show ?thesis
    by (simp add: prove_surface_coverage_def assms(2) D(1) m(1,3) json_wf_def digest_ok)
qed

section \<open>The inputs\<close>

text \<open>The surface digests the sample evidence determines, which the current contract has as well.\<close>

definition sample_digests :: digests where
  "sample_digests = projr (compute_surface_digests sample_registry (sample_evidence (CHR ''a'')))"

lemma sample_digests_ok:
  "compute_surface_digests sample_registry (sample_evidence (CHR ''a'')) = Inr sample_digests"
  "keys sample_digests = [''runtime-control-plane'', ''surface-registry'', ''router:main'']"
  "\<exists>cp. prove_surface_coverage sample_registry (sample_evidence (CHR ''a'')) = Inr cp"
  "list_all (\<lambda>(s, h). is_sha256 h) sample_digests"
proof -
  obtain ev where ev: "parse_evidence sample_registry (sample_evidence (CHR ''a'')) = Inr ev"
    using sample_evidence_ok [of "CHR ''a''"] by (auto simp: is_hex_def)
  obtain D where D: "compute_surface_digests sample_registry (sample_evidence (CHR ''a'')) = Inr D"
    "keys D = sr_topological_surface_ids sample_registry"
    "\<forall>s \<in> set (keys D). value_at D s = sha256_hex (surface_preimage (sr_surfaces sample_registry) ev D s)"
    using compute_digests_total [OF sample_registry_ok ev] by blast
  then have eq: "sample_digests = D" by (simp add: sample_digests_def)
  show "compute_surface_digests sample_registry (sample_evidence (CHR ''a'')) = Inr sample_digests"
    "keys sample_digests = [''runtime-control-plane'', ''surface-registry'', ''router:main'']"
    using D(1,2) by (simp_all add: eq sample_registry_def)
  show "\<exists>cp. prove_surface_coverage sample_registry (sample_evidence (CHR ''a'')) = Inr cp"
    by (rule coverage_total [OF sample_registry_ok ev])
  have d: "distinct (keys D)" using D(2) by (simp add: sample_registry_def)
  have "is_sha256 h" if "(s, h) \<in> set D" for s h
  proof -
    have "value_at D s = h" "s \<in> set (keys D)" using that d by (force simp: keys_def value_at_def)+
    then show ?thesis using D(3) sha.hd_sha256 by metis
  qed
  then show "list_all (\<lambda>(s, h). is_sha256 h) sample_digests" by (auto simp: eq list_all_iff)
qed

text \<open>A running task that has pinned the router of this registry.\<close>

definition router_digest :: string where
  "router_digest = value_at sample_digests ''router:main''"

definition router_pins :: pyval where
  "router_pins = PList [PDict [(''surface_id'', PStr ''router:main''), (''surface_digest'', PStr router_digest)]]"

definition router_task :: pyval where
  "router_task = PDict [(''task_id'', PStr sample_uuid), (''admission_task_ref'', PStr ''t1''),
     (''current_path'', PStr ''tasks/t1''), (''source_role'', PStr ''active''), (''target_role'', PStr ''active''),
     (''integration_byte_hash'', PStr (sha_of (CHR ''a''))), (''integration_mode'', PStr ''0644''),
     (''integration_schema_id'', PStr ''i''), (''integration_schema_version'', PInt 1),
     (''lifecycle_status'', PStr ''active''), (''revision'', PInt 0), (''mode'', PStr ''trellis-native''),
     (''task_contract_digest'', PStr (sha_of (CHR ''a''))), (''task_contract_surfaces'', router_pins)]"

definition router_active :: pyval where
  "router_active = PDict [(''kind'', PStr ''non-archived-task''), (''finding_id'', PStr ''f1''),
     (''task_id'', PStr sample_uuid), (''current_path'', PStr ''tasks/t1''),
     (''lifecycle_status'', PStr ''active''), (''mode'', PStr ''trellis-native''), (''pinned_surfaces'', router_pins)]"

definition router_pin :: surface_pin where
  "router_pin = \<lparr>sp_surface_id = ''router:main'', sp_surface_digest = router_digest\<rparr>"

definition router_fact :: finding_fact where
  "router_fact = \<lparr>ff_kind = ''non-archived-task'', ff_finding_id = ''f1'', ff_task_id = Some sample_uuid,
     ff_path = Some ''tasks/t1'', ff_lifecycle_status = Some ''active'', ff_mode = Some ''trellis-native'',
     ff_pinned_surfaces = [router_pin]\<rparr>"

abbreviation router_snapshot :: dict where
  "router_snapshot \<equiv> sample_snapshot [router_task] [PStr ''f1'']"

abbreviation router_findings :: dict where
  "router_findings \<equiv> sample_findings [router_active]"

lemma router_digest_sha: "is_sha256 router_digest"
proof -
  obtain h where h: "map_of sample_digests ''router:main'' = Some h"
    using lookup_total [of "''router:main''" sample_digests] sample_digests_ok(2) by (auto simp: lookup_Inr_iff)
  then have "router_digest = h" by (simp add: router_digest_def value_at_def)
  then show ?thesis using sample_digests_ok(4) map_of_SomeD [OF h] by (auto simp: list_all_iff)
qed

lemma router_pins_ok: "surface_pins router_pins = Inr [router_pin]"
proof -
  have sha: "task_sha256 (PStr router_digest) = Inr router_digest"
    by (simp add: task_sha256_def as_sha256_def router_digest_sha)
  have "surface_pin_of (PDict [(''surface_id'', PStr ''router:main''), (''surface_digest'', PStr router_digest)]) = Inr router_pin"
    by (simp add: surface_pin_of_def task_mapping_def as_mapping_def require_def same_strs_def subset_strs_def keys_def get_Cons
        task_string_def as_string_def sha router_pin_def)
  then have "mapr surface_pin_of [PDict [(''surface_id'', PStr ''router:main''), (''surface_digest'', PStr router_digest)]] = Inr [router_pin]"
    by (simp only: mapr.simps bnd.simps)
  moreover have "sort_key sp_surface_id [router_pin] = [router_pin]" by simp
  ultimately show ?thesis
    by (simp only: surface_pins_def router_pins_def task_array_def as_array_def pyval.case bnd.simps Let_def) simp
qed

lemma router_evidence:
  "\<exists>tasks. validated_evidence router_snapshot router_findings = Inr (tasks, [router_fact])"
proof -
  let ?fact = "\<lparr>tf_task_id = sample_uuid, tf_current_path = ''tasks/t1'', tf_lifecycle_status = ''active'',
     tf_mode = ''trellis-native'', tf_pinned_surfaces = [router_pin]\<rparr>"
  have task: "task_fact_of router_task = Inr ?fact"
    by (simp add: task_fact_of_def router_task_def task_mapping_def as_mapping_def require_def same_strs_def
        subset_strs_def keys_def task_record_fields_def get_def task_string_def as_string_def known_roles_def
        normalize_mode_def octal_mode_def remove_prefix_def starts_with_def is_octal_def NON_ARCHIVED_STATUSES_def
        nonneg_int_def router_pins_ok)
  have active: "add_finding [] router_active = Inr [router_fact]"
    by (simp add: add_finding_def router_active_def task_mapping_def as_mapping_def require_def same_strs_def
        subset_strs_def keys_def FINDING_FIELDS_def get_def task_string_def as_string_def finding_path_def has_key_def
        finding_task_def NON_ARCHIVED_STATUSES_def router_fact_def router_pins_ok)
  have "foldr_res add_task_fact ([], []) [router_task] = Inr ([(sample_uuid, ?fact)], [''tasks/t1''])"
    by (simp add: add_task_fact_def task has_key_def)
  moreover have "foldr_res add_finding [] [router_active] = Inr [router_fact]" by (simp add: active)
  moreover have "list_all (finding_agrees [(sample_uuid, ?fact)] []) [router_fact]"
    by (simp add: finding_agrees_def router_fact_def or_empty_def)
  moreover have "map (PStr o ff_finding_id) [router_fact] = [PStr ''f1'']"
    "sort (map ff_finding_id [router_fact]) = map ff_finding_id [router_fact]"
    by (simp_all add: router_fact_def)
  moreover have "list_all (\<lambda>v. wf_pyval v \<and> json_value v) [router_task]"
    by (simp add: router_task_def router_pins_def)
  ultimately show ?thesis
    using sample_evidence [of "[router_task]" "[(sample_uuid, ?fact)]" "[''tasks/t1'']" "[router_active]" "[router_fact]"] by auto
qed

section \<open>The run\<close>

definition sample_inputs :: resolver_inputs where
  "sample_inputs = \<lparr>ri_operation = ''sync'', ri_release_contract = sample_release_contract, ri_profile_sources = [sample_profile_source],
     ri_selected_profile_id = ''p'', ri_catalog_document = sample_catalog, ri_workflow_lock_document = sample_lock,
     ri_capability_manifests = [], ri_artifact_definition_documents = [sample_definition],
     ri_trellis_layout_document = sample_layout_document, ri_surface_registry_document = sample_registry_document,
     ri_runtime_unit_inventory_document = sample_inventory_document, ri_runtime_unit_evidence = sample_evidence (CHR ''a''),
     ri_route_policy_document = [], ri_router_contract_document = [], ri_entry_ownership = [], ri_render_units = [],
     ri_current_contract = [(''authority_digests'', PDict []), (''surface_digests'', PDict (digests_document sample_digests)),
       (''registry_graph_digest'', PStr (sr_registry_digest sample_registry))],
     ri_observed_state = [(''surface_digests'', PDict (digests_document sample_digests))], ri_repair_surface_ids = [],
     ri_diagnostics = [], ri_task_snapshot = router_snapshot, ri_task_findings = router_findings\<rparr>"

lemma sample_sources_resolved:
  "\<exists>rs. resolve_sources sample_inputs = Inr rs \<and> rs_surface_digests rs = sample_digests \<and> rs_registry rs = sample_registry \<and>
     list_all (\<lambda>d. json_wf (PDict d)) [rs_release_contract rs, rs_workflow_lock_projection rs, rs_resolved_profile rs,
       rs_route_policy rs, rs_router_contract rs, tl_normalized (rs_layout rs)] \<and>
     list_all (\<lambda>d. json_wf (PDict d)) (rs_artifact_projection rs) \<and> rs_capability_results rs = [] \<and> is_sha256 (tl_layout_digest (rs_layout rs))"
proof -
  obtain lock where lock: "normalize_workflow_lock sample_lock = Inr lock" using sample_lock_ok by blast
  obtain p where p: "workflow_lock_projection lock = Inr p" "json_wf (PDict p)" using workflow_lock_projection_ok by blast
  obtain d where d: "profile_projection sample_profile = Inr d" "json_wf (PDict d)" using sample_profile_projected by blast
  obtain c where c: "resolve_catalog_closure sample_profile sample_catalog [] = Inr c" using sample_closure_ok by blast
  obtain l where l: "validate_trellis_layout [''.trellis/workflow.md''] [''src''] sample_layout_document = Inr l"
    using sample_layout_resolved by blast
  obtain cp where cp: "prove_surface_coverage sample_registry (sample_evidence (CHR ''a'')) = Inr cp" using sample_digests_ok(3) by blast
  have targets: "map at_path (concat (map ad_targets [sample_artifact])) = [''.trellis/workflow.md'']"
    by (simp add: sample_artifact_def)
  have layout: "json_wf (PDict (tl_normalized l))" "is_sha256 (tl_layout_digest l)"
    using plain_digest_Inr [OF layout_digest_of [OF l]] plain_digest_is_sha256 [OF layout_digest_of [OF l]]
    by (simp_all add: json_wf_def del: wf_pyval.simps json_value.simps)
  have release: "json_wf (PDict sample_release_contract)" by (simp add: sample_release_contract_def json_wf_simps)
  have empty: "json_mapping (PDict []) = Inr []" by (rule json_mapping_ok) (simp add: json_wf_simps)
  have eval: "resolve_sources sample_inputs = Inr \<lparr>rs_release_contract = sample_release_contract, rs_workflow_lock_projection = p,
      rs_profile = sample_profile, rs_resolved_profile = d, rs_catalog = c, rs_capability_results = [],
      rs_artifact_projection = map definition_document (sort_key ad_definition_id [sample_artifact]), rs_layout = l,
      rs_registry = sample_registry, rs_surface_digests = sample_digests, rs_coverage = cp, rs_route_policy = [], rs_router_contract = []\<rparr>"
    unfolding resolve_sources_def sample_inputs_def resolver_inputs.simps sample_release_ok bnd.simps lock p(1) sample_profile_resolved
      d(1) c sample_capabilities(1) mapr.simps sample_artifact_ok artifact_projection_ok targets l sample_registry_ok sample_digests_ok(1) cp empty
    by (rule refl)
  show ?thesis
    by (rule exI, rule conjI [OF eval]) (use p d layout release in \<open>simp add: json_wf_simps json_wf_definition\<close>)
qed

lemma digest_value_sha256: "is_sha256 h \<Longrightarrow> digest_value (PStr h) = Inr h"
  by (auto simp: digest_value_def)

lemma digests_document_map:
  assumes "list_all (\<lambda>(k, h). is_sha256 h) D"
  shows "subset_strs (keys D) AUTHORITY_IDS \<Longrightarrow> authority_map (PDict (digests_document D)) = Inr D"
    and "list_all (\<lambda>k. k \<noteq> [] \<and> k = strip k) (keys D) \<Longrightarrow> surface_map (PDict (digests_document D)) = Inr D"
proof -
  have "mapr (\<lambda>(k, w). bnd (digest_value w) (\<lambda>s. Inr (k, s))) (digests_document D) = Inr D"
    using assms by (induction D) (auto simp: digests_document_def digest_value_sha256)
  moreover have "keys (digests_document D) = keys D" by (simp add: digests_document_def keys_def comp_def case_prod_beta)
  ultimately show "subset_strs (keys D) AUTHORITY_IDS \<Longrightarrow> authority_map (PDict (digests_document D)) = Inr D"
    by (simp add: authority_map_def impact_mapping_def)
  show "list_all (\<lambda>k. k \<noteq> [] \<and> k = strip k) (keys D) \<Longrightarrow> surface_map (PDict (digests_document D)) = Inr D"
    unfolding surface_map_def impact_mapping_def pyval.case bnd.simps using assms
    by (induction D) (auto simp: digests_document_def keys_def digest_value_sha256)
qed

lemma authority_digests_total:
  assumes "list_all (\<lambda>d. json_wf (PDict d)) [rs_release_contract rs, rs_workflow_lock_projection rs, rs_resolved_profile rs,
       rs_route_policy rs, rs_router_contract rs]"
    and "list_all (\<lambda>d. json_wf (PDict d)) (rs_artifact_projection rs)"
    and "is_sha256 (tl_layout_digest (rs_layout rs))" and "is_sha256 (sr_registry_digest (rs_registry rs))"
  shows "\<exists>A. authority_digests_of rs = Inr (digests_document A) \<and> keys A = AUTHORITY_IDS \<and> list_all (\<lambda>(k, h). is_sha256 h) A"
proof -
  let ?h = "\<lambda>d v. sha256_hex (digest_preimage d v)"
  have dom: "digest_domain ''agent-workflow.artifact-bundle.v1''" "digest_domain ''agent-workflow.profile.v1''"
    "digest_domain ''agent-workflow.release-identity.v1''" "digest_domain ''agent-workflow.route-policy.v1''"
    "digest_domain ''agent-workflow.router-contract.v1''" "digest_domain ''agent-workflow.workflow-lock.v1''"
    by (simp_all add: digest_domain_def ord_def)
  have art: "json_wf (PList (map PDict (rs_artifact_projection rs)))" using assms(2) by (simp add: json_wf_dicts)
  let ?A = "zip AUTHORITY_IDS [?h ''agent-workflow.artifact-bundle.v1'' (PList (map PDict (rs_artifact_projection rs))),
      ?h ''agent-workflow.profile.v1'' (PDict (rs_resolved_profile rs)), ?h ''agent-workflow.release-identity.v1'' (PDict (rs_release_contract rs)),
      ?h ''agent-workflow.route-policy.v1'' (PDict (rs_route_policy rs)), ?h ''agent-workflow.router-contract.v1'' (PDict (rs_router_contract rs)),
      sr_registry_digest (rs_registry rs), tl_layout_digest (rs_layout rs),
      ?h ''agent-workflow.workflow-lock.v1'' (PDict (rs_workflow_lock_projection rs))]"
  have "authority_digests_of rs = Inr (digests_document ?A)"
    using assms(1) by (simp add: authority_digests_of_def dict_literal_def digests_document_def AUTHORITY_IDS_def digest_field_ok [OF _ dom(1)]
        digest_field_ok [OF _ dom(2)] digest_field_ok [OF _ dom(3)] digest_field_ok [OF _ dom(4)] digest_field_ok [OF _ dom(5)]
        digest_field_ok [OF _ dom(6)] art)
  moreover have "keys ?A = AUTHORITY_IDS" "list_all (\<lambda>(k, h). is_sha256 h) ?A"
    using assms(3,4) by (simp_all add: AUTHORITY_IDS_def keys_def sha.hd_sha256)
  ultimately show ?thesis by blast
qed

lemma sample_digests_map: "surface_map (PDict (digests_document sample_digests)) = Inr sample_digests"
  by (rule digests_document_map(2) [OF sample_digests_ok(4)])
    (simp add: sample_digests_ok(2) strip_def is_space_def ord_def)

lemma sample_impact_resolved:
  assumes "rs_surface_digests rs = sample_digests" and "rs_registry rs = sample_registry"
    and "keys A = AUTHORITY_IDS" and "list_all (\<lambda>(k, h). is_sha256 h) A"
  shows "\<exists>ci. compute_candidate_impact (ri_current_contract sample_inputs) (ri_observed_state sample_inputs)
     (candidate_view sample_inputs rs (digests_document A)) = Inr ci \<and> ci_surface_changes ci = []"
proof -
  have A: "authority_map (PDict (digests_document A)) = Inr A"
    by (rule digests_document_map(1) [OF assms(4)]) (simp add: assms(3) subset_strs_iff)
  have empty: "authority_map (PDict []) = Inr []" by (simp add: authority_map_def impact_mapping_def subset_strs_def keys_def)
  have graph: "digest_value (PStr (sr_registry_digest sample_registry)) = Inr (sr_registry_digest sample_registry)"
    by (rule digest_value_sha256) (simp add: sample_registry_def sha.hd_sha256)
  have none: "impact_string_set (PList []) = Inr []" by (simp add: impact_string_set_def)
  have changes: "contract_changes sample_digests sample_digests sample_digests = Inr []"
    by (simp add: contract_changes_Inr_iff surface_delta_def)
  have gets: "get (ri_current_contract sample_inputs) ''authority_digests'' = PDict []"
    "get (ri_current_contract sample_inputs) ''surface_digests'' = PDict (digests_document sample_digests)"
    "get (ri_current_contract sample_inputs) ''registry_graph_digest'' = PStr (sr_registry_digest sample_registry)"
    "get (ri_observed_state sample_inputs) ''surface_digests'' = PDict (digests_document sample_digests)"
    "get_or (ri_observed_state sample_inputs) ''unclassified_runtime_units'' (PList []) = PList []"
    by (simp_all add: sample_inputs_def get_Cons get_or_def)
  let ?view = "candidate_view sample_inputs rs (digests_document A)"
  have view: "get ?view ''operation'' = PStr ''sync''" "get ?view ''authority_digests'' = PDict (digests_document A)"
    "get ?view ''surface_digests'' = PDict (digests_document sample_digests)"
    "get ?view ''registry_graph_digest'' = PStr (sr_registry_digest sample_registry)"
    "get_or ?view ''repair_surface_ids'' (PList []) = PList []"
    by (simp_all add: candidate_view_def get_Cons get_or_def assms(1,2)) (simp_all add: sample_inputs_def)
  show ?thesis
    by (simp add: compute_candidate_impact_def gets view A empty graph none sample_digests_map operation_surface_changes_def changes
        impact_operations_def finish_impact_Inr Let_def)
qed

lemma sample_gate_open:
  assumes "ci_surface_changes ci = []"
  shows "\<exists>gate. evaluate_task_gate ''sync'' ci router_snapshot router_findings = Inr gate \<and> tg_blockers gate = []"
proof -
  obtain tasks where ev: "validated_evidence router_snapshot router_findings = Inr (tasks, [router_fact])" using router_evidence by blast
  have "task_blocker router_fact ci = None"
    by (simp add: task_blocker_def surface_changes_by_id_def assms Let_def sorted_set_def dict_display_def keys_def router_fact_def)
  then have "all_blockers ''sync'' ci [router_fact] = []"
    by (simp add: all_blockers_def finding_blockers_def AMBIGUOUS_KINDS_def router_fact_def)
  then show ?thesis
    using evaluate_task_gate_eq [OF sample_ops(1) ev, of ci] by (simp add: Let_def)
qed

lemma resolved_projection_wf:
  assumes "list_all (\<lambda>d. json_wf (PDict d)) [rs_release_contract rs, rs_workflow_lock_projection rs, rs_resolved_profile rs,
       rs_route_policy rs, rs_router_contract rs, tl_normalized (rs_layout rs)]"
    and "list_all (\<lambda>d. json_wf (PDict d)) (rs_artifact_projection rs)" and "rs_capability_results rs = []"
    and "distinct (keys A)" and "json_wf (PDict reg)"
  shows "json_wf (PDict (ir_projection (resolved_ir sample_inputs rs (digests_document A) impact ws gate [] [] [] reg)))"
proof -
  have "json_wf (PDict (digests_document A))"
    using assms(4) by (auto simp: digests_document_def json_wf_def keys_def list_all_iff comp_def case_prod_beta)
  moreover have "json_wf (candidate_impact_document impact)"
    by (simp add: candidate_impact_document_def authority_change_document_def surface_change_document_def json_wf_simps list_all_iff)
  moreover have "json_wf (PDict (state_evaluation ws))" "json_wf (PDict (gate_evaluation gate))" "json_wf (PDict (coverage_document cp))" for cp
    by (simp_all add: state_evaluation_def gate_evaluation_def coverage_document_def json_wf_simps list_all_iff)
  moreover have "json_wf (PList (map (\<lambda>(s, h). PDict [(''surface_id'', PStr s), (''surface_digest'', h)]) (digests_document D)))" for D
    by (auto simp: digests_document_def json_wf_simps list_all_iff)
  ultimately show ?thesis
    using assms(1-3,5) by (simp add: ir_projection_def resolved_ir_def json_wf_simps json_wf_strs [unfolded json_wf_simps] json_wf_dicts [unfolded json_wf_simps])
qed

lemma sample_resolved: "\<exists>ir. resolve sample_inputs = Inr ir"
proof -
  obtain rs where rs: "resolve_sources sample_inputs = Inr rs" "rs_surface_digests rs = sample_digests" "rs_registry rs = sample_registry"
    "list_all (\<lambda>d. json_wf (PDict d)) [rs_release_contract rs, rs_workflow_lock_projection rs, rs_resolved_profile rs,
       rs_route_policy rs, rs_router_contract rs, tl_normalized (rs_layout rs)]"
    "list_all (\<lambda>d. json_wf (PDict d)) (rs_artifact_projection rs)" "rs_capability_results rs = []" "is_sha256 (tl_layout_digest (rs_layout rs))"
    using sample_sources_resolved by blast
  have "is_sha256 (sr_registry_digest (rs_registry rs))" by (simp add: rs(3) sample_registry_def sha.hd_sha256)
  then obtain A where A: "authority_digests_of rs = Inr (digests_document A)" "keys A = AUTHORITY_IDS" "list_all (\<lambda>(k, h). is_sha256 h) A"
    using authority_digests_total [of rs] rs(4,5,7) by auto
  obtain ci where ci: "compute_candidate_impact (ri_current_contract sample_inputs) (ri_observed_state sample_inputs)
     (candidate_view sample_inputs rs (digests_document A)) = Inr ci" "ci_surface_changes ci = []"
    using sample_impact_resolved [OF rs(2,3) A(2,3)] by blast
  obtain gate where gate: "evaluate_task_gate ''sync'' ci router_snapshot router_findings = Inr gate" "tg_blockers gate = []"
    using sample_gate_open [OF ci(2)] by blast
  obtain ws where ws: "evaluate_workspace_state_quiescence router_snapshot router_findings = Inr ws"
    using router_evidence state_ok_of_evidence by blast
  have inputs: "ri_operation sample_inputs = ''sync''" "ri_task_snapshot sample_inputs = router_snapshot"
    "ri_task_findings sample_inputs = router_findings" "ri_entry_ownership sample_inputs = []" "ri_render_units sample_inputs = []"
    "ri_diagnostics sample_inputs = []" "ri_surface_registry_document sample_inputs = sample_registry_document"
    by (simp_all add: sample_inputs_def)
  have reg: "json_wf (PDict sample_registry_document)"
    by (simp add: sample_registry_document_def sample_surface_def json_wf_simps list_all_iff)
  have dom: "digest_domain ''agent-workflow.desired-state-ir.v1''" by (simp add: digest_domain_def ord_def)
  have "distinct (keys A)" by (simp add: A(2) distinct_AUTHORITY_IDS)
  from resolved_projection_wf [OF rs(4-6) this reg]
  have "\<exists>ir. seal_ir (resolved_ir sample_inputs rs (digests_document A) ci ws gate [] [] [] sample_registry_document) = Inr ir"
    by (simp add: seal_ir_def json_wf_def digest_ok [OF _ _ dom] del: wf_pyval.simps json_value.simps)
  then show ?thesis
    by (simp add: resolve_def inputs rs(1) A(1) ci(1) ws gate gate_open_def sorted_mappings_def json_mapping_ok [OF reg])
qed

section \<open>Witnesses\<close>

theorem resolved_state_keeps_pins_witness:
  "\<exists>ir new. resolve sample_inputs = Inr ir \<and> ir_surface_digests ir = digests_document new \<and>
     value_at new ''router:main'' = router_digest \<and> is_sha256 router_digest"
proof -
  obtain ir where ir: "resolve sample_inputs = Inr ir" using sample_resolved by blast
  have f: "parse_findings (ri_task_findings sample_inputs) = Inr [router_fact]"
    using router_evidence findings_of_evidence by (auto simp: sample_inputs_def)
  have k: "ff_kind router_fact = ''non-archived-task''" "router_pin \<in> set (ff_pinned_surfaces router_fact)" "router_fact \<in> set [router_fact]"
    by (simp_all add: router_fact_def)
  have cur: "surface_map (get (ri_current_contract sample_inputs) ''surface_digests'') = Inr sample_digests"
    by (simp add: sample_inputs_def get_Cons sample_digests_map)
  from resolved_state_keeps_pins [OF ir f k(3,1,2) cur] ir router_digest_sha show ?thesis
    by (auto simp: router_pin_def router_digest_def)
qed

theorem resolved_ir_passes_planning_witness:
  "\<exists>ir task_state d. resolve sample_inputs = Inr ir \<and> ts_findings task_state = router_findings \<and> task_gate_evaluation ir task_state = Inr d"
proof -
  obtain ir where ir: "resolve sample_inputs = Inr ir" using sample_resolved by blast
  let ?ts = "\<lparr>ts_snapshot = router_snapshot, ts_findings = router_findings, ts_task_quiescence_digest = []\<rparr>"
  have "ts_snapshot ?ts = ri_task_snapshot sample_inputs" "ts_findings ?ts = ri_task_findings sample_inputs"
    by (simp_all add: sample_inputs_def)
  from resolved_ir_passes_planning [OF ir this] ir show ?thesis
    by (intro exI [of _ ir] exI [of _ ?ts] exI [of _ "ir_task_gate_evaluation ir"]) simp
qed

theorem resolved_definitions_owned_witness:
  "\<exists>ir. resolve sample_inputs = Inr ir \<and> ownership_definitions (ir_artifact_definitions ir) = Inr (owned_targets [sample_artifact]) \<and>
     map fst (owned_targets [sample_artifact]) = [''.trellis/workflow.md'']"
proof -
  obtain ir where ir: "resolve sample_inputs = Inr ir" using sample_resolved by blast
  have "validate_artifact_definitions (ri_artifact_definition_documents sample_inputs) = Inr [sample_artifact]"
    by (simp add: sample_inputs_def sample_artifact_ok)
  from resolved_definitions_owned [OF ir this]
  have "ownership_definitions (ir_artifact_definitions ir) = Inr (owned_targets [sample_artifact])" by simp
  moreover have "map fst (owned_targets [sample_artifact]) = [''.trellis/workflow.md'']"
    by (simp add: owned_targets_def owned_target_def sample_artifact_def)
  ultimately show ?thesis by (intro exI [of _ ir] conjI ir)
qed


text \<open>The same project with a diagnostic has the same digest.\<close>

lemma resolve_diagnostics:
  assumes "resolve inputs = Inr ir" and "sorted_mappings ds = Inr ds'"
  shows "resolve (inputs\<lparr>ri_diagnostics := ds\<rparr>) = Inr (ir\<lparr>ir_diagnostics := ds'\<rparr>)"
proof -
  let ?in = "inputs\<lparr>ri_diagnostics := ds\<rparr>"
  obtain rs A ci ws gate u es us d reg where
    op: "ri_operation inputs \<in> {''init'', ''sync'', ''repair'', ''upgrade''}" and
    *: "resolve_sources inputs = Inr rs" "authority_digests_of rs = Inr A"
    "compute_candidate_impact (ri_current_contract inputs) (ri_observed_state inputs) (candidate_view inputs rs A) = Inr ci"
    "evaluate_workspace_state_quiescence (ri_task_snapshot inputs) (ri_task_findings inputs) = Inr ws"
    "evaluate_task_gate (ri_operation inputs) ci (ri_task_snapshot inputs) (ri_task_findings inputs) = Inr gate"
    "gate_open gate = Inr u" "sorted_mappings (ri_entry_ownership inputs) = Inr es" "sorted_mappings (ri_render_units inputs) = Inr us"
    "json_mapping (PDict (ri_surface_registry_document inputs)) = Inr reg"
    and seal: "seal_ir (resolved_ir inputs rs A ci ws gate es us d reg) = Inr ir"
    using assms(1) unfolding resolve_def by (simp only: bnd_Inr_iff if_Inl_Inr_iff not_not) blast
  have eqs: "resolve_sources ?in = resolve_sources inputs" "candidate_view ?in = candidate_view inputs"
    "ri_operation ?in = ri_operation inputs" "ri_current_contract ?in = ri_current_contract inputs"
    "ri_observed_state ?in = ri_observed_state inputs" "ri_task_snapshot ?in = ri_task_snapshot inputs"
    "ri_task_findings ?in = ri_task_findings inputs" "ri_entry_ownership ?in = ri_entry_ownership inputs"
    "ri_render_units ?in = ri_render_units inputs" "ri_diagnostics ?in = ds"
    "ri_surface_registry_document ?in = ri_surface_registry_document inputs"
    by (simp_all add: resolve_sources_def candidate_view_def fun_eq_iff)
  have seal': "seal_ir (resolved_ir ?in rs A ci ws gate es us ds' reg) = Inr (ir\<lparr>ir_diagnostics := ds'\<rparr>)"
    using seal by (auto simp: seal_ir_def bnd_Inr_iff resolved_ir_def ir_projection_def)
  show ?thesis
    unfolding resolve_def eqs by (simp only: op not_True_eq_False if_False * assms(2) bnd.simps seal')
qed

theorem ir_digest_binds_state_witness:
  "\<exists>ir ir'. resolve sample_inputs = Inr ir \<and> resolve (sample_inputs\<lparr>ri_diagnostics := [[]]\<rparr>) = Inr ir' \<and>
     ir_diagnostics ir' = [[]] \<and> ir_catalog_closure ir = ir_catalog_closure ir'"
proof -
  obtain ir where ir: "resolve sample_inputs = Inr ir" using sample_resolved by blast
  have "sorted_mappings [[]] = Inr [[]]"
    by (simp add: sorted_mappings_def json_mapping_def canonical_json_bytes_def)
  note ir' = resolve_diagnostics [OF ir this]
  have proj: "ir_projection (ir\<lparr>ir_diagnostics := [[]]\<rparr>) = ir_projection ir" by (simp add: ir_projection_def)
  have "ir_catalog_closure ir = ir_catalog_closure (ir\<lparr>ir_diagnostics := [[]]\<rparr>)"
    by (rule ir_digest_binds_state [THEN conjunct2, THEN conjunct2, OF ir ir']) (simp_all add: proj sha_collision_def)
  note cat = this
  show ?thesis by (rule exI, rule exI, rule conjI [OF ir], rule conjI [OF ir'], rule conjI [OF _ cat]) simp
qed

end
