(* ===== verification/Spec2Isabelle.thy ===== *)
theory Spec2Isabelle
  imports Diagnostics Recover_Safety Crash_Recovery Planning_Sample Resolver_Sample
begin

text \<open>
  A model of agent-workflow-pack (\<^verbatim>\<open>src/src/agent_stack\<close>): the pure functions that decide what a
  workspace may do and that bind these decisions by digests (\<^verbatim>\<open>core\<close>), and the transaction that
  carries a decision out on the file system and is recovered after a crash (\<^verbatim>\<open>reconcile\<close>). A
  release is a catalog of entries and a registry of runtime surfaces; a workspace is moved between
  releases by a saved plan; running tasks pin surfaces, and a gate keeps every operation from
  changing a surface a task relies on.

  How the parts interact. \<^verbatim>\<open>canonical.py\<close> turns JSON values into bytes and digests, on which every
  other part rests. \<^verbatim>\<open>surfaces.py\<close> verifies the surface registry and computes a digest per surface.
  \<^verbatim>\<open>impact.py\<close> compares the digests of the contract, the observation and a candidate and gives the
  impact of an operation. \<^verbatim>\<open>task_policy.py\<close> takes the evidence about tasks and an impact and gives the
  blockers of the operation. \<^verbatim>\<open>diagnostics.py\<close> takes the task state and the gate result and admits or
  refuses a command. \<^verbatim>\<open>saved_plan.py\<close> binds an admitted operation into an envelope of digests.
  \<^verbatim>\<open>profile.py\<close> and \<^verbatim>\<open>catalog.py\<close> resolve which entries a workspace installs. \<^verbatim>\<open>ownership.py\<close> decides
  what may be done to every file the release renders or the Manifest records. \<^verbatim>\<open>resolver.py\<close> runs all
  of the core on the documents of a release and gives the desired state, unless the task gate has a
  blocker; \<^verbatim>\<open>plan.py\<close> seals the desired state, the ownership decisions and the gate result, evaluated
  again, into the envelope. \<^verbatim>\<open>apply.py\<close> carries the envelope out: it writes a journal (\<^verbatim>\<open>journal.py\<close>) before every phase, backs up the files it
  changes, swaps them one by one (\<^verbatim>\<open>cas.py\<close>) while the maintenance marker is up, and commits by swapping
  the Manifest. \<^verbatim>\<open>recovery.py\<close> reads the journal of an interrupted transaction and rolls it back,
  resumes it or, after the commit, cleans up.

  Theories.
  \<^item> \<open>Prelude\<close>: errors as values (\<open>exn\<close>, \<open>'a res\<close>, \<open>bnd\<close>), Python values (\<open>pyval\<close>), dictionaries as
    association lists in insertion order, strings, the collections \<open>res_simps\<close> and \<open>raises_intros\<close>.
  \<^item> \<open>Sha256\<close>: SHA-256 over words, and the interface of a hash with hexadecimal values.
  \<^item> \<open>Canonical\<close> (\<^verbatim>\<open>core/canonical.py\<close>): JSON normalisation and serialisation, paths, modes, UUIDs,
    digests. Its lemmas show that the bytes and the digest preimages are injective.
  \<^item> \<open>Validate\<close>: the field checks most modules repeat, and the interface of a closed document.
  \<^item> \<open>Impact\<close> (\<^verbatim>\<open>core/impact.py\<close>): interface of a difference between two digest maps, interpreted for
    authorities and for surfaces.
  \<^item> \<open>Task_Policy\<close> (\<^verbatim>\<open>core/task_policy.py\<close>): snapshot, findings, quiescence and the task gate.
  \<^item> \<open>Diagnostics\<close> (\<^verbatim>\<open>core/diagnostics.py\<close>): workspace state and command admission.
  \<^item> \<open>Saved_Plan\<close> (\<^verbatim>\<open>core/saved_plan.py\<close>): plan core, immutable header, envelope.
  \<^item> \<open>Topo\<close>: the stable topological order that \<^verbatim>\<open>core/catalog.py\<close> and \<^verbatim>\<open>core/surfaces.py\<close> both contain,
    proved once against its specification (\<open>greedy\<close>) and used through the interface \<open>prereq_graph\<close>.
  \<^item> \<open>Profile\<close> (\<^verbatim>\<open>core/profile.py\<close>): inheritance of profiles.
  \<^item> \<open>Catalog\<close> (\<^verbatim>\<open>core/catalog.py\<close>): capabilities, closure, workflow lock.
  \<^item> \<open>Surfaces\<close> (\<^verbatim>\<open>core/surfaces.py\<close>): registry, inventory, evidence, surface digests, coverage.
  \<^item> \<open>Artifact_Policy\<close> (\<^verbatim>\<open>core/artifact_policy.py\<close>): artifact targets, protected paths, task layout.
  \<^item> \<open>Json\<close>: \<^verbatim>\<open>json.loads\<close> of the standard library, inverse to the canonical bytes of a normal form.
  \<^item> \<open>Filesystem\<close>: the tree of files and the system calls, as computations that return the list of
    the states they pass through; each of these states is what a crash can leave behind.
  \<^item> \<open>Reconcile_Models\<close> (\<^verbatim>\<open>reconcile/models.py\<close>, \<^verbatim>\<open>reconcile/errors.py\<close>): file states, staged files,
    the fields of a journal.
  \<^item> \<open>Cas\<close> (\<^verbatim>\<open>reconcile/cas.py\<close>): compare and swap of one file, with its result on every branch and
    its crash states.
  \<^item> \<open>Journal\<close> (\<^verbatim>\<open>reconcile/journal.py\<close>, \<^verbatim>\<open>reconcile/maintenance.py\<close>): the journal, the marker.
  \<^item> \<open>Manifest_Plan\<close> (\<^verbatim>\<open>reconcile/plan.py\<close>, \<^verbatim>\<open>reconcile/local_state.py\<close>): the candidate Manifest.
  \<^item> \<open>Ownership\<close> (\<^verbatim>\<open>reconcile/ownership.py\<close>): what a reconcile may do to each file, one definition per
    branch of the loop, and the authority every write needs.
  \<^item> \<open>Replan\<close>: planning again after a plan was carried out, and a plan as a coherent value.
  \<^item> \<open>Planning\<close> (\<^verbatim>\<open>reconcile/plan.py\<close>, \<^verbatim>\<open>reconcile/repair.py\<close>): the saved plan of a reconcile and the staging
    of a restorative repair. It joins the parts: the envelope passes the validator of \<open>Saved_Plan\<close>, the
    gate of \<open>Task_Policy\<close> was open, and the records \<open>Apply\<close> builds are those of \<open>Ownership\<close>.
  \<^item> \<open>Planning_Sample\<close>: one complete run of the planner, the witness of these theorems.
  \<^item> \<open>Resolver\<close> (\<^verbatim>\<open>core/resolver.py\<close>): the composition of the core. It shows that a resolved state keeps
    the contract of pinned surfaces, that its digests are those of its own fields and sources and bind it, and
    that the planner accepts its evaluations and its artifact definitions.
  \<^item> \<open>Resolver_Sample\<close>: one complete run of the resolver, the witness of these theorems.
  \<^item> \<open>Apply\<close> (\<^verbatim>\<open>reconcile/apply.py\<close>, \<^verbatim>\<open>locks.py\<close>, \<^verbatim>\<open>probes.py\<close>, \<^verbatim>\<open>manifest.py\<close>): the transaction.
  \<^item> \<open>Journal_Log\<close>: the journal on disk over time: phases never go back, whatever is cut off.
  \<^item> \<open>Recovery\<close> (\<^verbatim>\<open>reconcile/recovery.py\<close>): rollback, resume and cleanup.
  \<^item> \<open>Settle\<close>: the interface of the three loops over file records (apply, resume, rollback) and what
    it gives: from every state of the loop rollback restores and resume completes, foreign content is kept.
  \<^item> \<open>Frame\<close>: which paths a computation may change (\<open>modifies\<close>) and where it ends (\<open>hoare\<close>).
  \<^item> \<open>Apply_Safety\<close>: the paths of a whole transaction, and that the Manifest is swapped last.
  \<^item> \<open>Preparation\<close>: what the preparation of a transaction (backups, created directories, journal and
    marker) leaves for the loops of \<open>Settle\<close>, at each of its states, from a plan and a tree that are
    \<open>ready\<close>: the records as observed, apart from each other and from the files of the controller.
  \<^item> \<open>Crash_Recovery\<close>: the two joined: from every state a crash leaves in the file part of a
    transaction the file loop of the rollback restores, and that of the resume, once the
    directories are there, completes. The removal of the created directories after the
    rollback and the phases around the loop are not part of these two theorems: their order is
    that of \<open>Recover_Safety\<close>, their success is not promised by the code.
  \<^item> \<open>Recover_Safety\<close>: a rollback forgets its evidence last and is begun only before the commit, a
    resumed transaction commits last.

  Correspondence. A function of the model has the name of the Python function without its leading
  underscore; the loop bodies of long functions are definitions of their own. A frozen dataclass is
  a record whose fields carry a prefix (\<open>ci_\<close> of \<^verbatim>\<open>CandidateImpact\<close>). A raise is \<open>Inl\<close>, a return
  \<open>Inr\<close>; a failure keeps its code and exit code, its message, path and details are dropped. A
  Python set that is only tested for membership is a list, a heap is a sorted list of its elements.
  \<^verbatim>\<open>True == 1\<close> holds in the model as in Python.

  Loops. All recursions are total: the profile chain ends because it visits a new source each time,
  the closure and the transitive references because they visit a new node each time. The parser of
  \<open>Json\<close> takes fuel, one unit per byte of its input, which \<open>parse_fuel\<close> shows to be enough.

  The file system. Paths are lists of names below the root of the project; \<^verbatim>\<open>NFC\<close> and case are
  distinguished; a symbolic link is a leaf that no operation follows; all files are on one device;
  \<^verbatim>\<open>fsync\<close> changes no state and a completed system call survives a crash. Parameters of the model are
  the random part of temporary names, the scanner of running tasks, the bootstrap lock outside of
  the tree and what the write probe learns from the operating system (\<open>probe_env\<close>). Locks that block
  are always acquired, and no other process writes during a transaction.

  Bounds. A string holds characters from U+0000 to U+00FF, where NFC normalisation is the identity
  and where no surrogates occur; floats are not values of the model. The equality of canonical bytes
  and the round trip of \<open>Json\<close> are stated of normal forms and do not use that identity. SHA-256 is the concrete
  function; statements about it are modulo an explicit collision of two named byte strings.

  Not modelled: the printing of floats (\<^verbatim>\<open>_format_float\<close>), messages and details of failures,
  the schema catalog (\<^verbatim>\<open>core/schema_catalog.py\<close> loads schema files for a vendored validator), the
  rendering and command part of \<^verbatim>\<open>reconcile\<close> (\<^verbatim>\<open>render.py\<close>, \<^verbatim>\<open>commands.py\<close>, \<^verbatim>\<open>production.py\<close>), and the packages \<^verbatim>\<open>runtime\<close>, \<^verbatim>\<open>route\<close>, \<^verbatim>\<open>release\<close>, \<^verbatim>\<open>providers\<close> and \<^verbatim>\<open>cli\<close>.
\<close>

end
